(* ===== verification/Prelude.thy ===== *)
theory Prelude
  imports Main "HOL-Library.Word" "HOL-Library.Char_ord" "HOL-Library.List_Lexorder"
begin

text \<open>
  What every theory of the development shares: the byte strings and machine integers of the
  C++ sources, \<open>std::map\<close> as an association list kept in key order, \<open>std::to_string\<close> on
  integers, and the collections of facts (\<open>wf_intros\<close>, \<open>codec_simps\<close>, \<open>state_defs\<close>) that the
  component theories extend and hand to the simplifier.
\<close>

section \<open>Shared types and collections\<close>

named_theorems wf_intros \<open>introduction rules for well-formedness predicates\<close>
named_theorems codec_simps \<open>equations that decode what an encoder wrote\<close>
named_theorems state_defs \<open>definitions of state updates, unfolded by invariant proofs\<close>

text \<open>
  A \<open>std::string\<close> is a list of bytes and \<open>char\<close> is a byte, so \<open>size()\<close> is \<open>length\<close>.
\<close>

type_synonym u8 = "8 word"
type_synonym u32 = "32 word"
type_synonym u64 = "64 word"

text \<open>The range of \<open>int64_t\<close>, for the places that keep the value as an \<open>int\<close>.\<close>

definition int64_range :: "int \<Rightarrow> bool" where
  "int64_range i \<longleftrightarrow> - (2 ^ 63) \<le> i \<and> i < 2 ^ 63"

text \<open>\<open>static_cast<int64_t>\<close> of a \<open>uint64_t\<close> is negative from \<open>2 ^ 63\<close> on.\<close>

lemma sint64_neg: "sint (w :: u64) < 0 \<longleftrightarrow> \<not> w < 2 ^ 63"
proof -
  have u: "uint w = sint w mod 2 ^ 64" by (simp add: uint_sint take_bit_eq_mod)
  have b: "- (2 ^ 63) \<le> sint w" "sint w < 2 ^ 63"
    using sint_greater_eq [of w] sint_less [of w] by simp_all
  have "w < 2 ^ 63 \<longleftrightarrow> uint w < 2 ^ 63" by (simp add: word_less_def)
  also have "\<dots> \<longleftrightarrow> \<not> sint w < 0"
  proof (cases "sint w < 0")
    case True
    then have "(sint w + 2 ^ 64) mod 2 ^ 64 = sint w + 2 ^ 64"
      using b by (intro mod_pos_pos_trivial) simp_all
    then have "uint w = sint w + 2 ^ 64" using u by (simp only: mod_add_self2)
    with b True show ?thesis by simp
  next
    case False
    then show ?thesis using u b by simp
  qed
  finally show ?thesis by simp
qed

lemma int64_range_sint [simp]: "int64_range (sint (w :: u64))"
  using sint_greater_eq [of w] sint_less [of w] by (simp add: int64_range_def)

definition clamp :: "'a::linorder \<Rightarrow> 'a \<Rightarrow> 'a \<Rightarrow> 'a" where
  "clamp x lo hi = (if x < lo then lo else if hi < x then hi else x)"

lemma clamp_bounds: "lo \<le> hi \<Longrightarrow> lo \<le> clamp x lo hi \<and> clamp x lo hi \<le> hi"
  by (auto simp: clamp_def)

lemma clamp_id [simp]: "lo \<le> x \<Longrightarrow> x \<le> hi \<Longrightarrow> clamp x lo hi = x"
  by (auto simp: clamp_def)

lemma clamp_clamp [simp]: "lo \<le> hi \<Longrightarrow> clamp (clamp x lo hi) lo hi = clamp x lo hi"
  by (auto simp: clamp_def)

lemma sorted_gt_distinct: "sorted_wrt (>) xs \<Longrightarrow> distinct (xs :: 'a::linorder list)"
  by (induction xs) auto

section \<open>Options as the result of a fallible routine\<close>

lemma bind_Some_conv: "(case m of None \<Rightarrow> None | Some x \<Rightarrow> f x) = Some y \<longleftrightarrow> (\<exists>x. m = Some x \<and> f x = Some y)"
  by (cases m) auto

section \<open>\<open>std::map\<close>: an association list in strict key order\<close>

text \<open>
  \<open>map_put\<close> is \<open>operator[]\<close> followed by assignment (\<open>insert_or_assign\<close>); on a fresh key it is
  also \<open>emplace\<close>. Lookup (\<open>find\<close>) is \<open>map_of\<close>, iteration is the list itself.
\<close>

fun map_put :: "'k::linorder \<Rightarrow> 'v \<Rightarrow> ('k \<times> 'v) list \<Rightarrow> ('k \<times> 'v) list" where
  "map_put k v [] = [(k, v)]"
| "map_put k v ((k', v') # kvs) =
     (if k < k' then (k, v) # (k', v') # kvs
      else if k = k' then (k, v) # kvs
      else (k', v') # map_put k v kvs)"

definition map_ok :: "('k::linorder \<times> 'v) list \<Rightarrow> bool" where
  "map_ok kvs \<longleftrightarrow> sorted_wrt (<) (map fst kvs)"

lemma map_ok_Nil [simp, wf_intros]: "map_ok []"
  by (simp add: map_ok_def)

lemma map_ok_Cons: "map_ok ((k, v) # kvs) \<longleftrightarrow> (\<forall>k' \<in> fst ` set kvs. k < k') \<and> map_ok kvs"
  by (auto simp: map_ok_def)

lemma map_ok_append:
  "map_ok (xs @ ys) \<longleftrightarrow> map_ok xs \<and> map_ok ys \<and> (\<forall>a \<in> fst ` set xs. \<forall>b \<in> fst ` set ys. a < b)"
  by (auto simp: map_ok_def sorted_wrt_append)

lemma map_ok_distinct: "map_ok kvs \<Longrightarrow> distinct (map fst kvs)"
  by (simp add: map_ok_def strict_sorted_iff)

lemma fst_set_map_put: "fst ` set (map_put k v kvs) = insert k (fst ` set kvs)"
  by (induction k v kvs rule: map_put.induct) auto

lemma map_ok_put [wf_intros]: "map_ok kvs \<Longrightarrow> map_ok (map_put k v kvs)"
  by (induction k v kvs rule: map_put.induct)
     (auto simp: map_ok_Cons fst_set_map_put simp del: map_put.simps(2) split: if_splits,
      (fastforce simp: map_ok_Cons fst_set_map_put)+)

lemma map_of_put: "map_ok kvs \<Longrightarrow> map_of (map_put k v kvs) = (map_of kvs)(k \<mapsto> v)"
proof (induction k v kvs rule: map_put.induct)
  case (2 k v k' v' kvs)
  then show ?case by (auto simp: map_ok_Cons fun_eq_iff)
qed simp

lemma length_map_put_fresh: "map_of kvs k = None \<Longrightarrow> length (map_put k v kvs) = Suc (length kvs)"
  by (induction k v kvs rule: map_put.induct) (auto split: if_splits)

lemma map_put_last: "\<forall>k' \<in> fst ` set kvs. k' < k \<Longrightarrow> map_put k v kvs = kvs @ [(k, v)]"
  by (induction k v kvs rule: map_put.induct) auto

lemma map_of_ok_ge: "map_ok ((k, v) # kvs) \<Longrightarrow> map_of kvs k = None"
  by (force simp: map_ok_Cons map_of_eq_None_iff)

text \<open>
  The interface the sources rely on: a lookup after an insertion, the order of iteration, and
  the invariant every operation keeps. The facts proved from it are used by the theories whose
  code builds objects key by key.
\<close>

locale ordered_map =
  fixes empty :: "'m"
    and put :: "'k::linorder \<Rightarrow> 'v \<Rightarrow> 'm \<Rightarrow> 'm"
    and look :: "'m \<Rightarrow> 'k \<Rightarrow> 'v option"
    and keys :: "'m \<Rightarrow> 'k list"
    and ok :: "'m \<Rightarrow> bool"
  assumes ok_empty: "ok empty"
    and look_empty: "look empty k = None"
    and ok_put: "ok m \<Longrightarrow> ok (put k v m)"
    and look_put: "ok m \<Longrightarrow> look (put k v m) k' = (if k' = k then Some v else look m k')"
    and keys_sorted: "ok m \<Longrightarrow> sorted_wrt (<) (keys m)"
    and keys_look: "ok m \<Longrightarrow> set (keys m) = {k. look m k \<noteq> None}"
begin

fun put_all :: "('k \<times> 'v) list \<Rightarrow> 'm \<Rightarrow> 'm" where
  "put_all [] m = m"
| "put_all ((k, v) # kvs) m = put_all kvs (put k v m)"

lemma ok_put_all: "ok m \<Longrightarrow> ok (put_all kvs m)"
  by (induction kvs arbitrary: m) (auto simp: ok_put)

lemma look_put_all:
  "ok m \<Longrightarrow> look (put_all kvs m) k = (case map_of (rev kvs) k of Some v \<Rightarrow> Some v | None \<Rightarrow> look m k)"
  by (induction kvs arbitrary: m)
     (auto simp: ok_put look_put map_add_def split: option.splits)

lemma keys_put_all: "ok m \<Longrightarrow> set (keys (put_all kvs m)) = fst ` set kvs \<union> set (keys m)"
proof (induction kvs arbitrary: m)
  case (Cons kv kvs)
  obtain k v where kv: "kv = (k, v)" by fastforce
  have "set (keys (put k v m)) = insert k (set (keys m))"
    using Cons.prems by (auto simp: keys_look ok_put look_put)
  with Cons kv show ?case by (simp add: ok_put)
qed simp

end

interpretation std_map: ordered_map "[]" map_put map_of "map fst" map_ok
proof
  fix m :: "('k::linorder \<times> 'v) list" and k k' :: 'k and v :: 'v
  assume ok: "map_ok m"
  show "map_ok (map_put k v m)" using ok by (rule map_ok_put)
  show "map_of (map_put k v m) k' = (if k' = k then Some v else map_of m k')"
    using ok by (simp add: map_of_put)
  show "sorted_wrt (<) (map fst m)" using ok by (simp add: map_ok_def)
  show "set (map fst m) = {k. map_of m k \<noteq> None}"
    by (force simp: map_of_eq_None_iff)
qed simp_all

section \<open>Decimal text of integers\<close>

definition digit_char :: "nat \<Rightarrow> char" where
  "digit_char d = char_of (48 + d)"

definition is_digit :: "char \<Rightarrow> bool" where
  "is_digit c \<longleftrightarrow> 48 \<le> (of_char c :: nat) \<and> (of_char c :: nat) \<le> 57"

definition digit_val :: "char \<Rightarrow> nat" where
  "digit_val c = of_char c - 48"

lemma of_char_digit_char [simp]: "d < 10 \<Longrightarrow> of_char (digit_char d) = (48 + d :: nat)"
  by (simp add: digit_char_def)

lemma is_digit_digit_char [simp]: "d < 10 \<Longrightarrow> is_digit (digit_char d)"
  by (simp add: is_digit_def)

lemma digit_val_digit_char [simp]: "d < 10 \<Longrightarrow> digit_val (digit_char d) = d"
  by (simp add: digit_val_def)

fun nat_dec :: "nat \<Rightarrow> string" where
  "nat_dec n = (if n < 10 then [digit_char n] else nat_dec (n div 10) @ [digit_char (n mod 10)])"

declare nat_dec.simps [simp del]

definition int_dec :: "int \<Rightarrow> string" where
  "int_dec i = (if i < 0 then CHR ''-'' # nat_dec (nat (- i)) else nat_dec (nat i))"

definition dec_value :: "string \<Rightarrow> nat" where
  "dec_value ds = foldl (\<lambda>n c. 10 * n + digit_val c) 0 ds"

lemma dec_value_snoc: "dec_value (ds @ [c]) = 10 * dec_value ds + digit_val c"
  by (simp add: dec_value_def)

lemma dec_value_nat_dec [simp]: "dec_value (nat_dec n) = n"
proof (induction n rule: nat_dec.induct)
  case (1 n)
  show ?case
  proof (cases "n < 10")
    case True
    then show ?thesis by (simp add: nat_dec.simps [of n] dec_value_def)
  next
    case False
    with "1" show ?thesis by (simp add: nat_dec.simps [of n] dec_value_snoc)
  qed
qed

lemma nat_dec_digits: "\<forall>c \<in> set (nat_dec n). is_digit c"
proof (induction n rule: nat_dec.induct)
  case (1 n)
  then show ?case by (cases "n < 10") (simp_all add: nat_dec.simps [of n])
qed

lemma nat_dec_nonempty [simp]: "nat_dec n \<noteq> []"
  by (subst nat_dec.simps) simp

lemma nat_dec_hd:
  "0 < n \<Longrightarrow> hd (nat_dec n) \<noteq> CHR ''0''"
proof (induction n rule: nat_dec.induct)
  case (1 n)
  show ?case
  proof (cases "n < 10")
    case True
    have "(of_char (digit_char n) :: nat) \<noteq> of_char CHR ''0''"
      using True "1.prems" by simp
    then have "digit_char n \<noteq> CHR ''0''" by auto
    with True show ?thesis by (simp add: nat_dec.simps [of n])
  next
    case False
    then have "0 < n div 10" by simp
    with "1.IH" False have "hd (nat_dec (n div 10)) \<noteq> CHR ''0''" by simp
    with False show ?thesis by (simp add: nat_dec.simps [of n])
  qed
qed

lemma nat_dec_0: "nat_dec 0 = ''0''"
  by code_simp

lemma nat_dec_inject: "nat_dec a = nat_dec b \<longleftrightarrow> a = b"
  by (metis dec_value_nat_dec)

end
