(* ===== verification/Binary64.thy ===== *)
theory Binary64
  imports Prelude Complex_Main
begin

text \<open>
  The \<open>double\<close> values of the protocol and the two conversions the sources use on them:
  \<open>std::strtod\<close> on a validated JSON number and \<open>ostringstream << setprecision(17)\<close> (the
  \<open>%.17g\<close> format). A finite double is \<open>(-1)^neg * m * 2^e\<close> with the binary64 bounds on
  \<open>m\<close> and \<open>e\<close>; both conversions work on exact quotients of naturals and round half to even.
  \<open>strtod\<close> reports \<open>ERANGE\<close> on overflow and when a nonzero value rounds to zero, as the
  Windows C runtime the program is built with does.
\<close>

section \<open>Values\<close>

datatype double = DFin bool nat int | DInf bool | DNaN

fun is_finite :: "double \<Rightarrow> bool" where
  "is_finite (DFin neg m e) = True"
| "is_finite _ = False"

definition binary64_ok :: "double \<Rightarrow> bool" where
  "binary64_ok d = (case d of DFin neg m e \<Rightarrow>
       (2 ^ 52 \<le> m \<and> m < 2 ^ 53 \<and> -1074 \<le> e \<and> e \<le> 971) \<or> (m < 2 ^ 52 \<and> e = -1074)
     | _ \<Rightarrow> True)"

section \<open>Rounding an exact quotient\<close>

fun bit_length :: "nat \<Rightarrow> nat" where
  "bit_length n = (if n = 0 then 0 else Suc (bit_length (n div 2)))"

declare bit_length.simps [simp del]

lemma bit_length_bounds: "0 < n \<Longrightarrow> 2 ^ (bit_length n - 1) \<le> n \<and> n < 2 ^ bit_length n"
proof (induction n rule: bit_length.induct)
  case (1 n)
  show ?case
  proof (cases "n div 2 = 0")
    case True
    then have "n = 1" using "1.prems" by simp
    then show ?thesis by (simp add: bit_length.simps)
  next
    case False
    then have IH: "2 ^ (bit_length (n div 2) - 1) \<le> n div 2" "n div 2 < 2 ^ bit_length (n div 2)"
      using 1 by auto
    have pos: "0 < bit_length (n div 2)" using False by (simp add: bit_length.simps)
    have eq: "bit_length n = Suc (bit_length (n div 2))"
      using "1.prems" by (simp add: bit_length.simps [of n])
    have "2 * 2 ^ (bit_length (n div 2) - 1) \<le> n" using IH(1) by linarith
    then have "2 ^ bit_length (n div 2) \<le> n" using pos by (simp flip: power_Suc)
    moreover have "n < 2 * 2 ^ bit_length (n div 2)" using IH(2) by linarith
    ultimately show ?thesis using eq by simp
  qed
qed

definition round_half_even :: "nat \<Rightarrow> nat \<Rightarrow> nat" where
  "round_half_even num den =
     (let q = num div den; r = num mod den
      in if 2 * r < den then q else if den < 2 * r then q + 1 else if even q then q else q + 1)"

lemma round_half_even_error:
  assumes "0 < den"
  shows "2 * num \<le> (2 * round_half_even num den + 1) * den"
    and "2 * round_half_even num den * den \<le> 2 * num + den"
proof -
  have dm: "num = (num div den) * den + num mod den" by simp
  have r: "num mod den < den" using assms by simp
  define q where "q = num div den"
  define k where "k = num mod den"
  have eq: "num = q * den + k" and lt: "k < den" using dm r by (simp_all add: q_def k_def)
  have v: "round_half_even num den = q \<and> 2 * k \<le> den \<or> round_half_even num den = q + 1 \<and> den \<le> 2 * k"
    by (auto simp: round_half_even_def Let_def q_def k_def)
  show "2 * num \<le> (2 * round_half_even num den + 1) * den"
    using v eq lt by (auto simp: algebra_simps)
  show "2 * round_half_even num den * den \<le> 2 * num + den"
    using v eq lt by (auto simp: algebra_simps)
qed

lemma round_half_even_exact: "0 < den \<Longrightarrow> round_half_even (q * den) den = q"
  by (simp add: round_half_even_def)

text \<open>\<open>scaled num den e\<close> is the quotient \<open>num / den / 2^e\<close>, again as a pair.\<close>

definition scaled :: "nat \<Rightarrow> nat \<Rightarrow> int \<Rightarrow> nat \<times> nat" where
  "scaled num den e = (num * 2 ^ nat (- e), den * 2 ^ nat e)"

definition floor_log2_ratio :: "nat \<Rightarrow> nat \<Rightarrow> int" where
  "floor_log2_ratio num den =
     (let l = int (bit_length num) - int (bit_length den)
      in if num * 2 ^ nat (- l) < den * 2 ^ nat l then l - 1 else l)"

datatype strtod_result = StrtodOk double | StrtodErange

definition round_binary64 :: "bool \<Rightarrow> nat \<Rightarrow> nat \<Rightarrow> strtod_result" where
  "round_binary64 neg num den =
     (if num = 0 then StrtodOk (DFin neg 0 (-1074))
      else
        let e0 = max (-1074) (floor_log2_ratio num den - 52);
            (n, d) = scaled num den e0;
            m0 = round_half_even n d;
            m = (if m0 = 2 ^ 53 then 2 ^ 52 else m0);
            e = (if m0 = 2 ^ 53 then e0 + 1 else e0)
        in if 971 < e then StrtodErange
           else if m = 0 then StrtodErange
           else StrtodOk (DFin neg m e))"

text \<open>
  \<open>strtod\<close> on the grammar the JSON scanner has already checked: sign, digits, fraction and
  exponent. The value is \<open>digits * 10^exponent\<close>.
\<close>

definition decimal_value :: "string \<Rightarrow> nat \<times> int" where
  "decimal_value s =
     (let ip = takeWhile is_digit s; r1 = dropWhile is_digit s;
          fp = (if r1 \<noteq> [] \<and> hd r1 = CHR ''.'' then takeWhile is_digit (tl r1) else []);
          r2 = (if r1 \<noteq> [] \<and> hd r1 = CHR ''.'' then dropWhile is_digit (tl r1) else r1);
          ex = (if r2 \<noteq> [] \<and> (hd r2 = CHR ''e'' \<or> hd r2 = CHR ''E'')
                then (let r3 = tl r2 in
                      if r3 \<noteq> [] \<and> hd r3 = CHR ''-'' then - int (dec_value (tl r3))
                      else if r3 \<noteq> [] \<and> hd r3 = CHR ''+'' then int (dec_value (tl r3))
                      else int (dec_value r3))
                else 0)
      in (dec_value (ip @ fp), ex - int (length fp)))"

definition strtod :: "string \<Rightarrow> strtod_result" where
  "strtod s =
     (let neg = (s \<noteq> [] \<and> hd s = CHR ''-'');
          (digits, ex) = decimal_value (if neg then tl s else s)
      in round_binary64 neg (digits * 10 ^ nat ex) (10 ^ nat (- ex)))"

section \<open>Printing with 17 significant digits\<close>

function neg_log10 :: "nat \<Rightarrow> nat \<Rightarrow> nat" where
  "neg_log10 num den = (if num = 0 \<or> den \<le> num then 0 else Suc (neg_log10 (10 * num) den))"
  by pat_completeness auto
termination
  by (relation "measure (\<lambda>(num, den). den - num)") auto

declare neg_log10.simps [simp del]

definition floor_log10_ratio :: "nat \<Rightarrow> nat \<Rightarrow> int" where
  "floor_log10_ratio num den =
     (if den \<le> num then int (length (nat_dec (num div den))) - 1 else - int (neg_log10 num den))"

definition sig_digits17 :: "nat \<Rightarrow> nat \<Rightarrow> nat \<times> int" where
  "sig_digits17 num den =
     (let x = floor_log10_ratio num den;
          k = 16 - x;
          d = round_half_even (num * 10 ^ nat k) (den * 10 ^ nat (- k))
      in if d = 10 ^ 17 then (10 ^ 16, x + 1) else (d, x))"

definition strip_zeros :: "string \<Rightarrow> string" where
  "strip_zeros ds = rev (dropWhile (\<lambda>c. c = CHR ''0'') (rev ds))"

definition exponent_text :: "int \<Rightarrow> string" where
  "exponent_text x =
     (let ds = nat_dec (nat \<bar>x\<bar>)
      in ''e'' @ (if x < 0 then ''-'' else ''+'') @ (if length ds < 2 then CHR ''0'' # ds else ds))"

definition fmt_g17 :: "nat \<Rightarrow> nat \<Rightarrow> string" where
  "fmt_g17 num den =
     (let (d, x) = sig_digits17 num den; ds = strip_zeros (nat_dec d)
      in if x < -4 \<or> 17 \<le> x
         then (case ds of [] \<Rightarrow> [] | c # cs \<Rightarrow>
                c # (if cs = [] then [] else CHR ''.'' # cs) @ exponent_text x)
         else if x < 0 then ''0.'' @ replicate (nat (- x - 1)) CHR ''0'' @ ds
         else let n = nat (x + 1); ip = take n (ds @ replicate n CHR ''0''); fp = drop n ds
              in ip @ (if fp = [] then [] else CHR ''.'' # fp))"

fun print_double :: "double \<Rightarrow> string" where
  "print_double (DFin neg m e) =
     (if neg then ''-'' else []) @
     (if m = 0 then ''0'' else fmt_g17 (m * 2 ^ nat e) (2 ^ nat (- e)))"
| "print_double (DInf neg) = (if neg then ''-inf'' else ''inf'')"
| "print_double DNaN = ''nan''"

text \<open>An integer converted to \<open>double\<close> (\<open>static_cast<double>\<close>), rounded to nearest even.\<close>

definition double_of_int :: "int \<Rightarrow> double" where
  "double_of_int i =
     (case round_binary64 (i < 0) (nat \<bar>i\<bar>) 1 of StrtodOk d \<Rightarrow> d | StrtodErange \<Rightarrow> DInf (i < 0))"

lemma double_of_int_0: "double_of_int 0 = DFin False 0 (-1074)"
  by (simp add: double_of_int_def round_binary64_def)

section \<open>The result of rounding is a binary64 value\<close>

lemma powi_2_split: "(2::real) powi l = 2 ^ nat l / 2 ^ nat (- l)"
  by (cases "0 \<le> l") (simp_all add: power_int_def field_simps)

lemma powi_2_add: "(2::real) powi (a + b) = 2 powi a * 2 powi b"
  by (rule power_int_add) simp

lemma ratio_less_powi:
  assumes "0 < den"
  shows "num * 2 ^ nat (- l) < den * 2 ^ nat l \<longleftrightarrow> real num / real den < 2 powi l"
proof -
  have "num * 2 ^ nat (- l) < den * 2 ^ nat l \<longleftrightarrow>
      real (num * 2 ^ nat (- l)) < real (den * 2 ^ nat l)"
    by (simp only: of_nat_less_iff)
  also have "\<dots> \<longleftrightarrow> real num * 2 ^ nat (- l) < real den * 2 ^ nat l"
    by simp
  also have "\<dots> \<longleftrightarrow> real num / real den < 2 ^ nat l / 2 ^ nat (- l)"
    using assms by (simp add: field_simps)
  finally show ?thesis by (simp add: powi_2_split)
qed

lemma bit_length_real:
  assumes "0 < n"
  shows "2 powi (int (bit_length n) - 1) \<le> real n" and "real n < 2 powi (int (bit_length n))"
proof -
  have b: "0 < bit_length n" using assms by (simp add: bit_length.simps)
  have "2 ^ (bit_length n - 1) \<le> n" "n < 2 ^ bit_length n"
    using bit_length_bounds [OF assms] by simp_all
  then have "real (2 ^ (bit_length n - 1)) \<le> real n" "real n < real (2 ^ bit_length n)"
    by (simp_all only: of_nat_le_iff of_nat_less_iff)
  then show "2 powi (int (bit_length n) - 1) \<le> real n" "real n < 2 powi (int (bit_length n))"
    using b by (simp_all add: power_int_def nat_diff_distrib)
qed

lemma floor_log2_ratio_bounds:
  assumes "0 < num" "0 < den"
  shows "2 powi (floor_log2_ratio num den) \<le> real num / real den"
    and "real num / real den < 2 powi (floor_log2_ratio num den + 1)"
proof -
  define l where "l = int (bit_length num) - int (bit_length den)"
  note N = bit_length_real [OF assms(1)] and D = bit_length_real [OF assms(2)]
  have dpos: "0 < real den" using assms(2) by simp
  have "2 powi (l - 1) * real den < 2 powi (l - 1) * 2 powi int (bit_length den)"
    using D(2) by simp
  also have "\<dots> = 2 powi (l - 1 + int (bit_length den))"
    by (rule powi_2_add [symmetric])
  also have "\<dots> = 2 powi (int (bit_length num) - 1)"
    by (rule arg_cong [of _ _ "(powi) 2"]) (simp add: l_def)
  finally have lo: "2 powi (l - 1) \<le> real num / real den"
    using N(1) dpos by (simp add: pos_le_divide_eq)
  have "real num < 2 powi int (bit_length num)" by (rule N(2))
  also have "\<dots> = 2 powi (l + 1 + (int (bit_length den) - 1))"
    by (rule arg_cong [of _ _ "(powi) 2"]) (simp add: l_def)
  also have "\<dots> = 2 powi (l + 1) * 2 powi (int (bit_length den) - 1)"
    by (rule powi_2_add)
  also have "\<dots> \<le> 2 powi (l + 1) * real den"
    using D(1) by simp
  finally have hi: "real num / real den < 2 powi (l + 1)"
    using dpos by (simp add: pos_divide_less_eq)
  have "floor_log2_ratio num den = (if real num / real den < 2 powi l then l - 1 else l)"
    by (simp add: floor_log2_ratio_def Let_def flip: l_def add: ratio_less_powi [OF assms(2)])
  then show "2 powi (floor_log2_ratio num den) \<le> real num / real den"
    and "real num / real den < 2 powi (floor_log2_ratio num den + 1)"
    using lo hi by (auto split: if_splits)
qed

lemma round_half_even_real:
  assumes "0 < den"
  shows "\<bar>real (round_half_even num den) - real num / real den\<bar> \<le> 1 / 2"
proof -
  have dpos: "0 < real den" using assms by simp
  have "real (2 * num) \<le> real ((2 * round_half_even num den + 1) * den)"
    using round_half_even_error(1) [OF assms] by (simp only: of_nat_le_iff)
  then have a: "real num / real den \<le> real (round_half_even num den) + 1 / 2"
    using dpos by (simp add: field_simps)
  have "real (2 * round_half_even num den * den) \<le> real (2 * num + den)"
    using round_half_even_error(2) [OF assms] by (simp only: of_nat_le_iff)
  then have b: "real (round_half_even num den) \<le> real num / real den + 1 / 2"
    using dpos by (simp add: field_simps)
  show ?thesis using a b by linarith
qed

text \<open>A quotient between two integers rounds to something between them.\<close>

lemma round_half_even_mono_bounds:
  assumes "0 < den"
  shows "real a \<le> real num / real den \<Longrightarrow> a \<le> round_half_even num den"
    and "real num / real den < real b \<Longrightarrow> round_half_even num den \<le> b"
  using round_half_even_real [OF assms, of num] by linarith+

lemma scaled_real:
  assumes "scaled num den e = (n, d)" "0 < den"
  shows "0 < d" "real n / real d = real num / real den / 2 powi e"
  using assms by (auto simp: scaled_def powi_2_split field_simps)

lemma round_binary64_ok: "0 < den \<Longrightarrow> round_binary64 neg num den = StrtodOk d \<Longrightarrow> binary64_ok d"
proof -
  assume den: "0 < den" and ret: "round_binary64 neg num den = StrtodOk d"
  show "binary64_ok d"
  proof (cases "num = 0")
    case True
    with ret show ?thesis by (auto simp: round_binary64_def binary64_ok_def)
  next
    case False
    define l where "l = floor_log2_ratio num den"
    define e0 where "e0 = max (-1074) (l - 52)"
    define r where "r = real num / real den"
    obtain n d' where sc: "scaled num den e0 = (n, d')" by fastforce
    define m0 where "m0 = round_half_even n d'"
    have dp: "0 < d'" and q: "real n / real d' = r / 2 powi e0"
      using scaled_real [OF sc den] by (simp_all add: r_def)
    have lo: "2 powi l \<le> r" and hi: "r < 2 powi (l + 1)"
      using floor_log2_ratio_bounds [of num den] False den by (simp_all add: r_def l_def)
    have d: "d = DFin neg (if m0 = 2 ^ 53 then 2 ^ 52 else m0) (if m0 = 2 ^ 53 then e0 + 1 else e0)"
      and emax: "(if m0 = 2 ^ 53 then e0 + 1 else e0) \<le> 971"
      using ret False sc
      by (auto simp: round_binary64_def Let_def e0_def l_def m0_def split: if_splits)
    have up: "r / 2 powi e0 < 2 powi (l + 1 - e0)"
      using hi by (simp add: power_int_diff pos_divide_less_eq)
    show ?thesis
    proof (cases "-1074 \<le> l - 52")
      case True
      then have e0: "e0 = l - 52" by (simp add: e0_def)
      have "2 powi 52 * 2 powi (l - 52) = (2 powi l :: real)"
        using powi_2_add [of 52 "l - 52"] by simp
      then have "2 powi 52 \<le> r / 2 powi e0"
        using lo by (simp add: e0 pos_le_divide_eq)
      then have "real (2 ^ 52) \<le> real n / real d'" by (simp add: q)
      then have a: "2 ^ 52 \<le> m0"
        unfolding m0_def by (rule round_half_even_mono_bounds(1) [OF dp])
      have "real n / real d' < real (2 ^ 53)" using up by (simp add: q e0)
      then have b: "m0 \<le> 2 ^ 53"
        unfolding m0_def by (rule round_half_even_mono_bounds(2) [OF dp])
      show ?thesis using a b emax True e0 by (auto simp: d binary64_ok_def)
    next
      case False
      then have e0: "e0 = -1074" by (simp add: e0_def)
      have "2 powi (l + 1 - e0) \<le> (2 powi 52 :: real)"
        using False by (intro power_int_increasing) (simp_all add: e0)
      then have "real n / real d' < real (2 ^ 52)" using up by (simp add: q)
      then have b: "m0 \<le> 2 ^ 52"
        unfolding m0_def by (rule round_half_even_mono_bounds(2) [OF dp])
      then have "m0 \<noteq> 2 ^ 53" by auto
      with b show ?thesis by (auto simp: d binary64_ok_def e0 le_less)
    qed
  qed
qed

lemma strtod_ok: "strtod s = StrtodOk d \<Longrightarrow> binary64_ok d"
  by (auto simp: strtod_def Let_def dest!: round_binary64_ok [rotated] split: prod.splits)

lemma double_of_int_100: "double_of_int 100 = DFin False 7036874417766400 (-46)"
  by (simp add: double_of_int_def round_binary64_def floor_log2_ratio_def scaled_def
      round_half_even_def bit_length.simps Let_def)

section \<open>Comparison\<close>

text \<open>
  The value times \<open>2 ^ 1074\<close>, an integer because no exponent is below \<open>-1074\<close>. Comparisons
  with a NaN are false.
\<close>

fun scaled_value :: "double \<Rightarrow> int" where
  "scaled_value (DFin neg m e) = (if neg then - int m else int m) * 2 ^ nat (e + 1074)"
| "scaled_value _ = 0"

fun double_less :: "double \<Rightarrow> double \<Rightarrow> bool" where
  "double_less DNaN b = False"
| "double_less a DNaN = False"
| "double_less (DInf neg) (DInf neg') = (neg \<and> \<not> neg')"
| "double_less (DInf neg) b = neg"
| "double_less a (DInf neg') = (\<not> neg')"
| "double_less a b = (scaled_value a < scaled_value b)"

text \<open>\<open>std::clamp\<close> on doubles.\<close>

definition double_clamp :: "double \<Rightarrow> double \<Rightarrow> double \<Rightarrow> double" where
  "double_clamp x lo hi = (if double_less x lo then lo else if double_less hi x then hi else x)"

lemma double_less_finite:
  "is_finite a \<Longrightarrow> is_finite b \<Longrightarrow> double_less a b \<longleftrightarrow> scaled_value a < scaled_value b"
  by (cases a; cases b) auto

lemma double_clamp_bounds:
  assumes "is_finite x" "is_finite lo" "is_finite hi" "\<not> double_less hi lo"
  shows "is_finite (double_clamp x lo hi) \<and> \<not> double_less (double_clamp x lo hi) lo \<and>
    \<not> double_less hi (double_clamp x lo hi)"
  using assms by (auto simp: double_clamp_def double_less_finite)

end
