(* ===== verification/Json.thy ===== *)
theory Json
  imports Binary64
begin

text \<open>
  The typed JSON value of \<open>protocol_v21.h\<close> and its serializer in \<open>protocol_v21.cpp\<close>
  (\<open>EscapeString\<close>, \<open>SerializeValue\<close>, \<open>SerializeJson\<close>). A \<open>JsonObject\<close> is a \<open>std::map\<close>, so
  it is an association list in key order (\<open>map_ok\<close>), and \<open>obj[k] = v\<close> is \<open>map_put\<close>.
\<close>

section \<open>Values and accessors\<close>

datatype json =
    JNull
  | JBool bool
  | JInt int
  | JDouble double
  | JStr string
  | JObj "(string \<times> json) list"
  | JArr "json list"

type_synonym json_object = "(string \<times> json) list"

fun is_null :: "json \<Rightarrow> bool" where
  "is_null JNull = True"
| "is_null _ = False"

fun is_bool :: "json \<Rightarrow> bool" where
  "is_bool (JBool b) = True"
| "is_bool _ = False"

fun is_int :: "json \<Rightarrow> bool" where
  "is_int (JInt i) = True"
| "is_int _ = False"

fun is_double :: "json \<Rightarrow> bool" where
  "is_double (JDouble d) = True"
| "is_double (JInt i) = True"
| "is_double _ = False"

fun is_string :: "json \<Rightarrow> bool" where
  "is_string (JStr s) = True"
| "is_string _ = False"

fun is_object :: "json \<Rightarrow> bool" where
  "is_object (JObj kvs) = True"
| "is_object _ = False"

fun is_array :: "json \<Rightarrow> bool" where
  "is_array (JArr vs) = True"
| "is_array _ = False"

fun as_bool :: "json \<Rightarrow> bool \<Rightarrow> bool" where
  "as_bool (JBool b) def = b"
| "as_bool _ def = def"

fun as_int :: "json \<Rightarrow> int \<Rightarrow> int" where
  "as_int (JInt i) def = i"
| "as_int _ def = def"

fun as_double :: "json \<Rightarrow> double \<Rightarrow> double" where
  "as_double (JDouble d) def = d"
| "as_double (JInt i) def = double_of_int i"
| "as_double _ def = def"

fun as_string :: "json \<Rightarrow> string" where
  "as_string (JStr s) = s"
| "as_string _ = []"

fun as_object :: "json \<Rightarrow> json_object" where
  "as_object (JObj kvs) = kvs"
| "as_object _ = []"

fun as_array :: "json \<Rightarrow> json list" where
  "as_array (JArr vs) = vs"
| "as_array _ = []"

text \<open>
  What the C++ type guarantees: 64-bit integers, binary64 doubles, object keys unique and in
  order.
\<close>

fun json_ok :: "json \<Rightarrow> bool" where
  "json_ok JNull = True"
| "json_ok (JBool b) = True"
| "json_ok (JInt i) = int64_range i"
| "json_ok (JDouble d) = binary64_ok d"
| "json_ok (JStr s) = True"
| "json_ok (JObj kvs) = (map_ok kvs \<and> (\<forall>kv \<in> set kvs. json_ok (snd kv)))"
| "json_ok (JArr vs) = (\<forall>v \<in> set vs. json_ok v)"

section \<open>Serializer\<close>

text \<open>
  The control characters have no literal syntax: \<open>0x22\<close> is the quote, \<open>0x5C\<close> the backslash.
\<close>

definition hex_char :: "nat \<Rightarrow> char" where
  "hex_char d = (if d < 10 then char_of (48 + d) else char_of (87 + d))"

text \<open>The \<open>%04x\<close> of \<open>snprintf\<close> on an \<open>unsigned char\<close>.\<close>

definition hex4 :: "nat \<Rightarrow> string" where
  "hex4 n = [hex_char (n div 4096 mod 16), hex_char (n div 256 mod 16),
             hex_char (n div 16 mod 16), hex_char (n mod 16)]"

definition escape_char :: "char \<Rightarrow> string" where
  "escape_char c =
     (if c = CHR 0x22 then [CHR 0x5C, CHR 0x22]
      else if c = CHR 0x5C then [CHR 0x5C, CHR 0x5C]
      else if c = CHR 0x08 then [CHR 0x5C, CHR ''b'']
      else if c = CHR 0x0C then [CHR 0x5C, CHR ''f'']
      else if c = CHR 0x0A then [CHR 0x5C, CHR ''n'']
      else if c = CHR 0x0D then [CHR 0x5C, CHR ''r'']
      else if c = CHR 0x09 then [CHR 0x5C, CHR ''t'']
      else if (of_char c :: nat) < 0x20 then [CHR 0x5C, CHR ''u''] @ hex4 (of_char c)
      else [c])"

definition escape_string :: "string \<Rightarrow> string" where
  "escape_string s = CHR 0x22 # concat (map escape_char s) @ [CHR 0x22]"

fun serialize_value :: "json \<Rightarrow> string"
  and serialize_elems :: "bool \<Rightarrow> json list \<Rightarrow> string"
  and serialize_members :: "bool \<Rightarrow> json_object \<Rightarrow> string"
where
  "serialize_value JNull = ''null''"
| "serialize_value (JBool b) = (if b then ''true'' else ''false'')"
| "serialize_value (JInt i) = int_dec i"
| "serialize_value (JDouble d) = (if is_finite d then print_double d else ''null'')"
| "serialize_value (JStr s) = escape_string s"
| "serialize_value (JArr vs) = ''['' @ serialize_elems True vs @ '']''"
| "serialize_value (JObj kvs) = CHR 0x7B # serialize_members True kvs @ [CHR 0x7D]"
| "serialize_elems first [] = []"
| "serialize_elems first (v # vs) =
     (if first then [] else '','') @ serialize_value v @ serialize_elems False vs"
| "serialize_members first [] = []"
| "serialize_members first ((k, v) # kvs) =
     (if first then [] else '','') @ escape_string k @ '':'' @ serialize_value v @
     serialize_members False kvs"

definition serialize_json :: "json \<Rightarrow> string" where
  "serialize_json v = serialize_value v"

section \<open>Measures used by the round-trip theorems\<close>

text \<open>How deep containers nest: the parser refuses values below level 64.\<close>

fun json_height :: "json \<Rightarrow> nat"
  and elems_height :: "json list \<Rightarrow> nat"
  and members_height :: "json_object \<Rightarrow> nat"
where
  "json_height (JArr vs) = elems_height vs"
| "json_height (JObj kvs) = members_height kvs"
| "json_height _ = 0"
| "elems_height [] = 0"
| "elems_height (v # vs) = max (Suc (json_height v)) (elems_height vs)"
| "members_height [] = 0"
| "members_height ((k, v) # kvs) = max (Suc (json_height v)) (members_height kvs)"

text \<open>Values with no double inside, and containers within a size limit.\<close>

fun no_double :: "json \<Rightarrow> bool" where
  "no_double (JDouble d) = False"
| "no_double (JObj kvs) = (\<forall>kv \<in> set kvs. no_double (snd kv))"
| "no_double (JArr vs) = (\<forall>v \<in> set vs. no_double v)"
| "no_double _ = True"

fun items_within :: "nat \<Rightarrow> json \<Rightarrow> bool" where
  "items_within n (JObj kvs) = (length kvs \<le> n \<and> (\<forall>kv \<in> set kvs. items_within n (snd kv)))"
| "items_within n (JArr vs) = (length vs \<le> n \<and> (\<forall>v \<in> set vs. items_within n v))"
| "items_within n _ = True"

section \<open>First characters\<close>

lemma escape_string_hd: "escape_string s = CHR 0x22 # tl (escape_string s)"
  by (simp add: escape_string_def)

end
