(* ===== verification/Json_Parser.thy ===== *)
theory Json_Parser
  imports Json
begin

text \<open>
  The recursive-descent parser of \<open>protocol_v21.cpp\<close> (\<open>class JsonParser\<close>, \<open>ParseJson\<close>). The
  pair \<open>(src_, pos_)\<close> is the suffix of the input that starts at \<open>pos_\<close>: \<open>pos_ >= src_.size()\<close>
  is emptiness of the suffix, \<open>pos_ + n > src_.size()\<close> is \<open>length s < n\<close>, and \<open>Peek\<close> and
  \<open>Get\<close> give the NUL character at the end, as the source does. Every routine that returns
  \<open>bool\<close> and an out-parameter returns an option here; on failure the source's out-parameters
  and position are never read again.
\<close>

unbundle bit_operations_syntax

definition kMaxJsonDepth :: nat where
  "kMaxJsonDepth = 64"

definition kMaxJsonContainerItems :: nat where
  "kMaxJsonContainerItems = 65536"

definition kMaxPayloadBytes :: nat where
  "kMaxPayloadBytes = 1048576"

section \<open>Characters and position\<close>

text \<open>\<open>std::isspace\<close> in the C locale.\<close>

definition is_space :: "char \<Rightarrow> bool" where
  "is_space c \<longleftrightarrow> c = CHR '' '' \<or> (9 \<le> (of_char c :: nat) \<and> (of_char c :: nat) \<le> 13)"

definition skip_whitespace :: "string \<Rightarrow> string" where
  "skip_whitespace s = dropWhile is_space s"

fun peek :: "string \<Rightarrow> char" where
  "peek [] = CHR 0x00"
| "peek (c # s) = c"

fun get_char :: "string \<Rightarrow> char \<times> string" where
  "get_char [] = (CHR 0x00, [])"
| "get_char (c # s) = (c, s)"

lemma length_skip_whitespace: "length (skip_whitespace s) \<le> length s"
  by (simp add: skip_whitespace_def length_dropWhile_le)

section \<open>Unicode escapes\<close>

definition append_utf8 :: "u32 \<Rightarrow> string \<Rightarrow> string option" where
  "append_utf8 cp out =
     (if 0x10FFFF < cp \<or> (0xD800 \<le> cp \<and> cp \<le> 0xDFFF) then None
      else if cp \<le> 0x7F then Some (out @ [char_of (unat cp)])
      else if cp \<le> 0x7FF then
        Some (out @ [char_of (unat (0xC0 OR drop_bit 6 cp)),
                     char_of (unat (0x80 OR (cp AND 0x3F)))])
      else if cp \<le> 0xFFFF then
        Some (out @ [char_of (unat (0xE0 OR drop_bit 12 cp)),
                     char_of (unat (0x80 OR (drop_bit 6 cp AND 0x3F))),
                     char_of (unat (0x80 OR (cp AND 0x3F)))])
      else
        Some (out @ [char_of (unat (0xF0 OR drop_bit 18 cp)),
                     char_of (unat (0x80 OR (drop_bit 12 cp AND 0x3F))),
                     char_of (unat (0x80 OR (drop_bit 6 cp AND 0x3F))),
                     char_of (unat (0x80 OR (cp AND 0x3F)))]))"

text \<open>\<open>HexDigit\<close> returns \<open>-1\<close> for a character that is no hexadecimal digit.\<close>

definition hex_digit :: "char \<Rightarrow> int" where
  "hex_digit c =
     (let n = of_char c :: int in
      if 48 \<le> n \<and> n \<le> 57 then n - 48
      else if 97 \<le> n \<and> n \<le> 102 then 10 + n - 97
      else if 65 \<le> n \<and> n \<le> 70 then 10 + n - 65
      else -1)"

fun hex_loop :: "nat \<Rightarrow> string \<Rightarrow> u32 \<Rightarrow> (u32 \<times> string) option" where
  "hex_loop 0 s unit = Some (unit, s)"
| "hex_loop (Suc n) [] unit = None"
| "hex_loop (Suc n) (c # s) unit =
     (if hex_digit c < 0 then None
      else hex_loop n s (push_bit 4 unit OR word_of_int (hex_digit c)))"

definition parse_hex_unit :: "string \<Rightarrow> (u32 \<times> string) option" where
  "parse_hex_unit s = (if length s < 4 then None else hex_loop 4 s 0)"

text \<open>The \<open>case 'u'\<close> of \<open>ParseString\<close>: one unit, or a surrogate pair.\<close>

definition parse_unicode_escape :: "string \<Rightarrow> (u32 \<times> string) option" where
  "parse_unicode_escape s =
     (case parse_hex_unit s of None \<Rightarrow> None
      | Some (first, s1) \<Rightarrow>
          if 0xD800 \<le> first \<and> first \<le> 0xDBFF then
            (if length s1 < 2 \<or> s1 ! 0 \<noteq> CHR 0x5C \<or> s1 ! 1 \<noteq> CHR ''u'' then None
             else case parse_hex_unit (drop 2 s1) of None \<Rightarrow> None
               | Some (second, s2) \<Rightarrow>
                   if second < 0xDC00 \<or> 0xDFFF < second then None
                   else Some (0x10000 + push_bit 10 (first - 0xD800) + (second - 0xDC00), s2))
          else if 0xDC00 \<le> first \<and> first \<le> 0xDFFF then None
          else Some (first, s1))"

lemma hex_loop_length: "hex_loop n s u = Some (v, r) \<Longrightarrow> length r + n = length s"
  by (induction n s u rule: hex_loop.induct) (auto split: if_splits)

lemma parse_unicode_escape_length:
  "parse_unicode_escape s = Some (cp, r) \<Longrightarrow> length r < length s"
  by (auto simp: parse_unicode_escape_def parse_hex_unit_def
      split: option.splits if_splits dest!: hex_loop_length)

section \<open>Strings\<close>

function parse_string_body :: "string \<Rightarrow> string \<Rightarrow> (string \<times> string) option" where
  "parse_string_body [] out = None"
| "parse_string_body (c # s) out =
     (if c = CHR 0x22 then Some (out, s)
      else if (of_char c :: nat) < 0x20 then None
      else if c \<noteq> CHR 0x5C then parse_string_body s (out @ [c])
      else case s of [] \<Rightarrow> None
        | esc # s1 \<Rightarrow>
            if esc = CHR 0x22 then parse_string_body s1 (out @ [CHR 0x22])
            else if esc = CHR 0x5C then parse_string_body s1 (out @ [CHR 0x5C])
            else if esc = CHR ''/'' then parse_string_body s1 (out @ ''/'')
            else if esc = CHR ''b'' then parse_string_body s1 (out @ [CHR 0x08])
            else if esc = CHR ''f'' then parse_string_body s1 (out @ [CHR 0x0C])
            else if esc = CHR ''n'' then parse_string_body s1 (out @ [CHR 0x0A])
            else if esc = CHR ''r'' then parse_string_body s1 (out @ [CHR 0x0D])
            else if esc = CHR ''t'' then parse_string_body s1 (out @ [CHR 0x09])
            else if esc = CHR ''u'' then
              (case parse_unicode_escape s1 of None \<Rightarrow> None
               | Some (cp, s2) \<Rightarrow>
                   (case append_utf8 cp out of None \<Rightarrow> None
                    | Some out' \<Rightarrow> parse_string_body s2 out'))
            else None)"
  by pat_completeness auto
termination
  by (relation "measure (\<lambda>(s, out). length s)")
     (auto dest: parse_unicode_escape_length)

definition parse_string :: "string \<Rightarrow> (string \<times> string) option" where
  "parse_string s =
     (let (c, s1) = get_char s in if c \<noteq> CHR 0x22 then None else parse_string_body s1 [])"

section \<open>Literals and numbers\<close>

definition parse_bool :: "string \<Rightarrow> (bool \<times> string) option" where
  "parse_bool s =
     (if take 4 s = ''true'' then Some (True, drop 4 s)
      else if take 5 s = ''false'' then Some (False, drop 5 s)
      else None)"

definition parse_null :: "string \<Rightarrow> (json \<times> string) option" where
  "parse_null s = (if take 4 s \<noteq> ''null'' then None else Some (JNull, drop 4 s))"

text \<open>
  The scan of \<open>ParseNumber\<close>: an optional minus, an integer part without leading zeros, then
  optionally a fraction and an exponent. Each step returns the suffix after it.
\<close>

definition scan_minus :: "string \<Rightarrow> string option" where
  "scan_minus s = (if peek s = CHR ''-'' then (if tl s = [] then None else Some (tl s)) else Some s)"

definition scan_int_part :: "string \<Rightarrow> string option" where
  "scan_int_part s =
     (if peek s = CHR ''0'' then
        (if tl s \<noteq> [] \<and> is_digit (peek (tl s)) then None else Some (tl s))
      else if (of_char (peek s) :: nat) < 49 \<or> 57 < (of_char (peek s) :: nat) then None
      else Some (dropWhile is_digit s))"

definition scan_fraction :: "string \<Rightarrow> (bool \<times> string) option" where
  "scan_fraction s =
     (if s \<noteq> [] \<and> peek s = CHR ''.'' then
        (if tl s = [] \<or> \<not> is_digit (peek (tl s)) then None
         else Some (True, dropWhile is_digit (tl s)))
      else Some (False, s))"

definition scan_exponent :: "string \<Rightarrow> (bool \<times> string) option" where
  "scan_exponent s =
     (if s \<noteq> [] \<and> (peek s = CHR ''e'' \<or> peek s = CHR ''E'') then
        (let s1 = tl s;
             s2 = (if s1 \<noteq> [] \<and> (peek s1 = CHR ''+'' \<or> peek s1 = CHR ''-'') then tl s1 else s1)
         in if s2 = [] \<or> \<not> is_digit (peek s2) then None
            else Some (True, dropWhile is_digit s2))
      else Some (False, s))"

text \<open>\<open>std::from_chars\<close> to \<open>int64_t\<close> on the scanned text, refused when out of range.\<close>

definition from_chars_int64 :: "string \<Rightarrow> int option" where
  "from_chars_int64 s =
     (let i = (if s \<noteq> [] \<and> hd s = CHR ''-'' then - int (dec_value (tl s)) else int (dec_value s))
      in if int64_range i then Some i else None)"

definition parse_number :: "string \<Rightarrow> (json \<times> string) option" where
  "parse_number s =
     (case scan_minus s of None \<Rightarrow> None
      | Some s1 \<Rightarrow>
        (case scan_int_part s1 of None \<Rightarrow> None
         | Some s2 \<Rightarrow>
           (case scan_fraction s2 of None \<Rightarrow> None
            | Some (fl1, s3) \<Rightarrow>
              (case scan_exponent s3 of None \<Rightarrow> None
               | Some (fl2, s4) \<Rightarrow>
                   (let number = take (length s - length s4) s in
                    if \<not> (fl1 \<or> fl2) then
                      (case from_chars_int64 number of None \<Rightarrow> None
                       | Some i \<Rightarrow> Some (JInt i, s4))
                    else
                      (case strtod number of StrtodErange \<Rightarrow> None
                       | StrtodOk d \<Rightarrow> if \<not> is_finite d then None else Some (JDouble d, s4)))))))"

section \<open>Containers and values\<close>

text \<open>
  The loops of \<open>ParseArray\<close> and \<open>ParseObject\<close>, over the routine \<open>p\<close> that parses one element.
  They end because every round adds one item and the item limit is checked first.
\<close>

function parse_array_loop ::
  "(string \<Rightarrow> (json \<times> string) option) \<Rightarrow> json list \<Rightarrow> string \<Rightarrow> (json list \<times> string) option" where
  "parse_array_loop p arr s =
     (if s = [] then None
      else if kMaxJsonContainerItems \<le> length arr then None
      else case p s of None \<Rightarrow> None
        | Some (v, s1) \<Rightarrow>
            (let (c, s2) = get_char (skip_whitespace s1) in
             if c = CHR '']'' then Some (arr @ [v], s2)
             else if c \<noteq> CHR '','' then None
             else parse_array_loop p (arr @ [v]) s2))"
  by pat_completeness auto
termination
  by (relation "measure (\<lambda>(p, arr, s). kMaxJsonContainerItems - length arr)") auto

definition parse_array ::
  "(string \<Rightarrow> (json \<times> string) option) \<Rightarrow> string \<Rightarrow> (json list \<times> string) option" where
  "parse_array p s =
     (let (c, s1) = get_char s in
      if c \<noteq> CHR ''['' then None
      else let s2 = skip_whitespace s1 in
        if peek s2 = CHR '']'' then Some ([], snd (get_char s2))
        else parse_array_loop p [] s2)"

function parse_object_loop ::
  "(string \<Rightarrow> (json \<times> string) option) \<Rightarrow> json_object \<Rightarrow> string \<Rightarrow> (json_object \<times> string) option" where
  "parse_object_loop p obj s =
     (if s = [] then None
      else if kMaxJsonContainerItems \<le> length obj then None
      else let s1 = skip_whitespace s in
        if peek s1 \<noteq> CHR 0x22 then None
        else case parse_string s1 of None \<Rightarrow> None
          | Some (key, s2) \<Rightarrow>
              if map_of obj key \<noteq> None then None
              else let (c, s3) = get_char (skip_whitespace s2) in
                if c \<noteq> CHR '':'' then None
                else (case p s3 of None \<Rightarrow> None
                  | Some (v, s4) \<Rightarrow>
                      (let (c', s5) = get_char (skip_whitespace s4) in
                       if c' = CHR 0x7D then Some (map_put key v obj, s5)
                       else if c' \<noteq> CHR '','' then None
                       else parse_object_loop p (map_put key v obj) s5)))"
  by pat_completeness auto
termination
  by (relation "measure (\<lambda>(p, obj, s). kMaxJsonContainerItems - length obj)")
     (auto simp: length_map_put_fresh)

definition parse_object ::
  "(string \<Rightarrow> (json \<times> string) option) \<Rightarrow> string \<Rightarrow> (json_object \<times> string) option" where
  "parse_object p s =
     (let (c, s1) = get_char s in
      if c \<noteq> CHR 0x7B then None
      else let s2 = skip_whitespace s1 in
        if peek s2 = CHR 0x7D then Some ([], snd (get_char s2))
        else parse_object_loop p [] s2)"

function parse_value :: "nat \<Rightarrow> string \<Rightarrow> (json \<times> string) option" where
  "parse_value depth s0 =
     (if kMaxJsonDepth < depth then None
      else let s = skip_whitespace s0; c = peek s in
        if c = CHR 0x22 then map_option (\<lambda>(str, r). (JStr str, r)) (parse_string s)
        else if c = CHR 0x7B then
          map_option (\<lambda>(obj, r). (JObj obj, r)) (parse_object (\<lambda>t. parse_value (Suc depth) t) s)
        else if c = CHR ''['' then
          map_option (\<lambda>(arr, r). (JArr arr, r)) (parse_array (\<lambda>t. parse_value (Suc depth) t) s)
        else if c = CHR ''t'' \<or> c = CHR ''f'' then
          map_option (\<lambda>(b, r). (JBool b, r)) (parse_bool s)
        else if c = CHR ''n'' then parse_null s
        else if c = CHR ''-'' \<or> is_digit c then parse_number s
        else None)"
  by pat_completeness auto
termination
  by (relation "measure (\<lambda>(depth, s). Suc kMaxJsonDepth - depth)") auto

declare parse_array_loop.simps [simp del] parse_object_loop.simps [simp del]
  parse_value.simps [simp del] parse_string_body.simps(2) [simp del]

definition parse_root :: "string \<Rightarrow> json option" where
  "parse_root input =
     (let s = skip_whitespace input in
      if s = [] then None
      else case parse_value 0 s of None \<Rightarrow> None
        | Some (v, r) \<Rightarrow> if skip_whitespace r = [] then Some v else None)"

definition parse_json :: "string \<Rightarrow> json option" where
  "parse_json input =
     (if input = [] \<or> kMaxPayloadBytes < length input then None else parse_root input)"

end
