(* ===== verification/Json_Facts.thy ===== *)
theory Json_Facts
  imports Json_Parser
begin

text \<open>
  What holds of the JSON parser on any input: the values it returns satisfy the type invariant
  and the limits (\<open>json_ok\<close>, nesting, items per container). And of the serializer: it writes no
  control character.
\<close>

section \<open>One round of the container loops\<close>

lemma parse_array_loop_step:
  "parse_array_loop p arr s = Some (arr', r) \<longleftrightarrow>
     s \<noteq> [] \<and> length arr < kMaxJsonContainerItems \<and>
     (\<exists>v s1 c s2. p s = Some (v, s1) \<and> get_char (skip_whitespace s1) = (c, s2) \<and>
        (c = CHR '']'' \<and> arr' = arr @ [v] \<and> r = s2 \<or>
         c = CHR '','' \<and> parse_array_loop p (arr @ [v]) s2 = Some (arr', r)))"
  by (subst parse_array_loop.simps) (auto split: option.splits prod.splits)

lemma parse_object_loop_step:
  "parse_object_loop p obj s = Some (obj', r) \<longleftrightarrow>
     s \<noteq> [] \<and> length obj < kMaxJsonContainerItems \<and> peek (skip_whitespace s) = CHR 0x22 \<and>
     (\<exists>key s2 s3 v s4 c s5.
        parse_string (skip_whitespace s) = Some (key, s2) \<and> map_of obj key = None \<and>
        get_char (skip_whitespace s2) = (CHR '':'', s3) \<and> p s3 = Some (v, s4) \<and>
        get_char (skip_whitespace s4) = (c, s5) \<and>
        (c = CHR 0x7D \<and> obj' = map_put key v obj \<and> r = s5 \<or>
         c = CHR '','' \<and> parse_object_loop p (map_put key v obj) s5 = Some (obj', r)))"
  by (subst parse_object_loop.simps) (auto simp: Let_def split: option.splits prod.splits)

section \<open>Results are well formed and bounded\<close>

definition value_bounded :: "nat \<Rightarrow> json \<Rightarrow> bool" where
  "value_bounded n v \<longleftrightarrow>
     json_ok v \<and> json_height v \<le> n \<and> items_within kMaxJsonContainerItems v"

lemma elems_height_le: "elems_height vs \<le> n \<longleftrightarrow> (\<forall>v \<in> set vs. Suc (json_height v) \<le> n)"
  by (induction vs) auto

lemma members_height_le: "members_height kvs \<le> n \<longleftrightarrow> (\<forall>kv \<in> set kvs. Suc (json_height (snd kv)) \<le> n)"
  by (induction kvs) auto

lemma parse_array_loop_all:
  assumes p: "\<And>s v r. p s = Some (v, r) \<Longrightarrow> P v"
  shows "parse_array_loop p arr s = Some (arr', r) \<Longrightarrow> \<forall>v \<in> set arr. P v \<Longrightarrow>
    (\<forall>v \<in> set arr'. P v) \<and> length arr' \<le> kMaxJsonContainerItems"
proof (induction "kMaxJsonContainerItems - length arr" arbitrary: arr s rule: less_induct)
  case less
  from less.prems(1) obtain v s1 c s2 where
    len: "length arr < kMaxJsonContainerItems" and v: "p s = Some (v, s1)" and
    c: "c = CHR '']'' \<and> arr' = arr @ [v] \<or>
        c = CHR '','' \<and> parse_array_loop p (arr @ [v]) s2 = Some (arr', r)"
    unfolding parse_array_loop_step [of p arr s] by blast
  have all: "\<forall>w \<in> set (arr @ [v]). P w" using less.prems(2) p [OF v] by auto
  from c show ?case
  proof
    assume "c = CHR '']'' \<and> arr' = arr @ [v]"
    then show ?thesis using all len by simp
  next
    assume "c = CHR '','' \<and> parse_array_loop p (arr @ [v]) s2 = Some (arr', r)"
    then show ?thesis using less.hyps [of "arr @ [v]" s2, OF _ _ all] len by simp
  qed
qed

lemma set_map_put: "set (map_put k v kvs) \<subseteq> insert (k, v) (set kvs)"
  by (induction k v kvs rule: map_put.induct) auto

lemma parse_object_loop_all:
  assumes p: "\<And>s v r. p s = Some (v, r) \<Longrightarrow> P v"
  shows "parse_object_loop p obj s = Some (obj', r) \<Longrightarrow> map_ok obj \<Longrightarrow>
    \<forall>kv \<in> set obj. P (snd kv) \<Longrightarrow>
    map_ok obj' \<and> (\<forall>kv \<in> set obj'. P (snd kv)) \<and> length obj' \<le> kMaxJsonContainerItems"
proof (induction "kMaxJsonContainerItems - length obj" arbitrary: obj s rule: less_induct)
  case less
  from less.prems(1) obtain key s3 v s4 c s5 where
    len: "length obj < kMaxJsonContainerItems" and fresh: "map_of obj key = None" and
    v: "p s3 = Some (v, s4)" and
    c: "c = CHR 0x7D \<and> obj' = map_put key v obj \<or>
        c = CHR '','' \<and> parse_object_loop p (map_put key v obj) s5 = Some (obj', r)"
    unfolding parse_object_loop_step [of p obj s] by blast
  have all: "\<forall>kv \<in> set (map_put key v obj). P (snd kv)"
    using less.prems(3) p [OF v] set_map_put [of key v obj] by auto
  have ok: "map_ok (map_put key v obj)" using less.prems(2) by (rule map_ok_put)
  have len': "length (map_put key v obj) = Suc (length obj)"
    using fresh by (rule length_map_put_fresh)
  from c show ?case
  proof
    assume "c = CHR 0x7D \<and> obj' = map_put key v obj"
    then show ?thesis using all ok len len' by simp
  next
    assume "c = CHR '','' \<and> parse_object_loop p (map_put key v obj) s5 = Some (obj', r)"
    then show ?thesis using less.hyps [of "map_put key v obj" s5, OF _ _ ok all] len len' by simp
  qed
qed

lemma parse_number_bounded: "parse_number s = Some (v, r) \<Longrightarrow> value_bounded n v"
proof -
  assume ret: "parse_number s = Some (v, r)"
  have "(\<exists>i. v = JInt i \<and> int64_range i) \<or> (\<exists>t d. v = JDouble d \<and> strtod t = StrtodOk d)"
    using ret unfolding parse_number_def
    by (auto simp: Let_def from_chars_int64_def split: option.splits prod.splits if_splits strtod_result.splits)
  then show ?thesis
    by (auto simp: value_bounded_def intro: strtod_ok)
qed

lemma parse_array_bounded:
  assumes "\<And>s v r. p s = Some (v, r) \<Longrightarrow> Suc n \<le> m \<and> value_bounded n v"
    and "parse_array p s = Some (arr, r)"
  shows "value_bounded m (JArr arr)"
proof -
  have "(\<forall>v \<in> set arr. Suc n \<le> m \<and> value_bounded n v) \<and> length arr \<le> kMaxJsonContainerItems"
    using assms(2) parse_array_loop_all [where P = "\<lambda>v. Suc n \<le> m \<and> value_bounded n v", OF assms(1)]
    by (fastforce simp: parse_array_def Let_def split: prod.splits if_splits)
  then show ?thesis by (auto simp: value_bounded_def elems_height_le)
qed

lemma parse_object_bounded:
  assumes "\<And>s v r. p s = Some (v, r) \<Longrightarrow> Suc n \<le> m \<and> value_bounded n v"
    and "parse_object p s = Some (obj, r)"
  shows "value_bounded m (JObj obj)"
proof -
  have "map_ok obj \<and> (\<forall>kv \<in> set obj. Suc n \<le> m \<and> value_bounded n (snd kv)) \<and>
      length obj \<le> kMaxJsonContainerItems"
    using assms(2) parse_object_loop_all [where P = "\<lambda>v. Suc n \<le> m \<and> value_bounded n v", OF assms(1)]
    by (fastforce simp: parse_object_def Let_def split: prod.splits if_splits)
  then show ?thesis by (auto simp: value_bounded_def members_height_le)
qed

lemma parse_value_deep: "kMaxJsonDepth < depth \<Longrightarrow> parse_value depth s = None"
  by (subst parse_value.simps) simp

lemma value_bounded_simps [simp]:
  "value_bounded n JNull" "value_bounded n (JBool b)" "value_bounded n (JStr str)"
  by (simp_all add: value_bounded_def)

text \<open>The dispatch of \<open>ParseValue\<close> on the first character, one case per branch.\<close>

lemma parse_value_cases:
  assumes "parse_value depth s0 = Some (v, r)"
  obtains (str) t where "parse_string (skip_whitespace s0) = Some (t, r)" "v = JStr t"
  | (obj) kvs where "parse_object (parse_value (Suc depth)) (skip_whitespace s0) = Some (kvs, r)"
      "v = JObj kvs" "peek (skip_whitespace s0) = CHR 0x7B"
  | (arr) vs where "parse_array (parse_value (Suc depth)) (skip_whitespace s0) = Some (vs, r)"
      "v = JArr vs" "peek (skip_whitespace s0) = CHR ''[''"
  | (bool) b where "parse_bool (skip_whitespace s0) = Some (b, r)" "v = JBool b"
  | (null) "parse_null (skip_whitespace s0) = Some (v, r)"
  | (num) "parse_number (skip_whitespace s0) = Some (v, r)"
  using assms
  by (subst (asm) parse_value.simps) (auto simp: Let_def split: if_splits)

lemma parse_value_bounded:
  "parse_value depth s = Some (v, r) \<Longrightarrow> depth \<le> kMaxJsonDepth \<and> value_bounded (kMaxJsonDepth - depth) v"
proof (induction depth s arbitrary: v r rule: parse_value.induct)
  case (1 depth s0)
  have d: "depth \<le> kMaxJsonDepth"
    using "1.prems" parse_value_deep [of depth s0] by fastforce
  let ?n = "kMaxJsonDepth - Suc depth" and ?m = "kMaxJsonDepth - depth"
  have step: "Suc ?n \<le> ?m \<and> value_bounded ?n w"
    if "Suc depth \<le> kMaxJsonDepth \<and> value_bounded ?n w" for w
    using that by auto
  from "1.prems" have "value_bounded ?m v"
  proof (cases rule: parse_value_cases)
    case (obj kvs)
    have "Suc ?n \<le> ?m \<and> value_bounded ?n w" if "parse_value (Suc depth) t = Some (w, r')" for t w r'
      using "1.IH"(1) [OF _ refl refl] d obj(3) that by (intro step) auto
    then show ?thesis using parse_object_bounded obj(1,2) by blast
  next
    case (arr vs)
    have "Suc ?n \<le> ?m \<and> value_bounded ?n w" if "parse_value (Suc depth) t = Some (w, r')" for t w r'
      using "1.IH"(2) [OF _ refl refl] d arr(3) that by (intro step) auto
    then show ?thesis using parse_array_bounded arr(1,2) by blast
  next
    case null
    then show ?thesis by (simp add: parse_null_def split: if_splits)
  next
    case num
    then show ?thesis by (rule parse_number_bounded)
  qed simp_all
  with d show ?case by simp
qed

lemma parse_json_bounded: "parse_json s = Some v \<Longrightarrow> value_bounded kMaxJsonDepth v"
  by (auto simp: parse_json_def parse_root_def Let_def dest: parse_value_bounded
      split: option.splits if_splits prod.splits)

section \<open>What the serializer writes\<close>

text \<open>No control character reaches the wire: every byte written is at least \<open>0x20\<close>.\<close>

definition printable :: "string \<Rightarrow> bool" where
  "printable s \<longleftrightarrow> (\<forall>c \<in> set s. 0x20 \<le> (of_char c :: nat))"

lemma printable_simps [simp]:
  "printable []" "printable (c # s) \<longleftrightarrow> 0x20 \<le> (of_char c :: nat) \<and> printable s"
  "printable (s @ t) \<longleftrightarrow> printable s \<and> printable t"
  by (auto simp: printable_def)

lemma printable_digits: "\<forall>c \<in> set s. is_digit c \<Longrightarrow> printable s"
  by (auto simp: printable_def is_digit_def)

lemma printable_nat_dec [simp]: "printable (nat_dec n)"
  by (rule printable_digits) (rule nat_dec_digits)

lemma printable_int_dec [simp]: "printable (int_dec i)"
  by (simp add: int_dec_def)

lemma hex_char_printable: "d < 16 \<Longrightarrow> 0x20 \<le> (of_char (hex_char d) :: nat)"
  by (simp add: hex_char_def)

lemma printable_hex4 [simp]: "printable (hex4 n)"
  by (simp add: hex4_def hex_char_printable)

lemma printable_escape_char [simp]: "printable (escape_char c)"
  by (simp add: escape_char_def)

lemma printable_escape_string [simp]: "printable (escape_string s)"
  by (induction s) (simp_all add: escape_string_def)

lemma printable_subset: "printable s \<Longrightarrow> set t \<subseteq> set s \<Longrightarrow> printable t"
  by (auto simp: printable_def)

lemma printable_fmt_g17: "printable (fmt_g17 num den)"
proof -
  have zeros: "printable (replicate n CHR ''0'')" for n by (simp add: printable_def)
  have ds: "printable (strip_zeros (nat_dec d))" for d
    by (rule printable_subset [OF printable_nat_dec])
       (auto simp: strip_zeros_def dest: set_dropWhileD)
  have ex: "printable (exponent_text x)" for x
    by (simp add: exponent_text_def Let_def)
  have tk: "printable (take n t)" "printable (drop n t)" if "printable t" for n t
    using that by (auto intro: printable_subset dest: in_set_takeD in_set_dropD)
  obtain d x where dx: "sig_digits17 num den = (d, x)" by fastforce
  show ?thesis
    using ds [of d]
    by (auto simp: fmt_g17_def Let_def dx ex zeros tk split: list.splits)
qed

lemma printable_print_double: "is_finite d \<Longrightarrow> printable (print_double d)"
  by (cases d) (auto simp: printable_fmt_g17)

lemma printable_serialize:
  "printable (serialize_value v)"
  "printable (serialize_elems first vs)"
  "printable (serialize_members first kvs)"
  by (induction v and first vs and first kvs
      rule: serialize_value_serialize_elems_serialize_members.induct)
     (auto simp: printable_print_double)

end
