(* ===== verification/Json_Roundtrip.thy ===== *)
theory Json_Roundtrip
  imports Json_Facts
begin

text \<open>
  Parsing inverts serializing on every value without a double, within the parser's limits: the
  serializer's text followed by a delimiter is read back to the value and the delimiter. The
  doubles are left out because the serializer prints \<open>1500.0\<close> as \<open>1500\<close>, which reads back as
  an integer.
\<close>

unbundle bit_operations_syntax

section \<open>Strings\<close>

lemma hex_digit_hex_char: "d < 16 \<Longrightarrow> hex_digit (hex_char d) = int d"
proof -
  have "(of_char (char_of m :: char) :: int) = int m" if "m < 256" for m :: nat
    using that by (metis of_nat_of_char of_char_of mod_less)
  then show "d < 16 \<Longrightarrow> hex_digit (hex_char d) = int d"
    by (simp add: hex_digit_def hex_char_def Let_def)
qed

lemma hex_unit_small:
  "push_bit 4 (word_of_int (int (n div 16)) :: u32) OR word_of_int (int (n mod 16)) = word_of_nat n"
proof -
  let ?a = "push_bit 4 (word_of_nat (n div 16) :: u32)" and ?b = "word_of_nat (n mod 16) :: u32"
  have "take_bit 4 (n mod 16) = n mod 16" by (simp add: take_bit_eq_mod)
  then have small: "bit (n mod 16) k \<Longrightarrow> k < 4" for k by (metis bit_take_bit_iff)
  have "?a AND ?b = 0"
    by (rule bit_eqI) (auto simp: bit_simps not_less dest: small)
  then have "?a OR ?b = ?a + ?b" by (rule disjunctive_add_eq_or [symmetric])
  also have "\<dots> = word_of_nat (16 * (n div 16) + n mod 16)"
    by (simp only: of_nat_add of_nat_mult) (simp add: push_bit_eq_mult)
  finally show ?thesis by simp
qed

lemma parse_hex_unit_4:
  assumes "0 \<le> hex_digit a" "0 \<le> hex_digit b" "0 \<le> hex_digit c" "0 \<le> hex_digit d"
  shows "parse_hex_unit (a # b # c # d # r) =
    Some (push_bit 4 (push_bit 4 (push_bit 4 (word_of_int (hex_digit a)) OR word_of_int (hex_digit b))
            OR word_of_int (hex_digit c)) OR word_of_int (hex_digit d), r)"
proof -
  have four: "hex_loop 4 = hex_loop (Suc (Suc (Suc (Suc 0))))"
    by (rule arg_cong [where f = hex_loop]) simp
  show ?thesis
    using assms by (simp add: parse_hex_unit_def four)
qed

lemma parse_control_escape:
  assumes "n < (32 :: nat)"
  shows "parse_unicode_escape (hex4 n @ r) = Some (word_of_nat n, r)"
proof -
  have d: "n div 16 < 16" "n div 4096 = 0" "n div 256 = 0" "n div 16 mod 16 = n div 16"
    using assms by auto
  have "parse_hex_unit (hex4 n @ r) = Some (word_of_nat n, r)"
    using d hex_unit_small [of n]
    by (simp add: hex4_def parse_hex_unit_4 hex_digit_hex_char)
  moreover have "(word_of_nat n :: u32) < 0xD800"
    using assms by (simp add: word_less_nat_alt unat_of_nat)
  moreover from this have "\<not> (0xD800 :: u32) \<le> word_of_nat n" "\<not> (0xDC00 :: u32) \<le> word_of_nat n"
    by (auto simp: not_le intro: less_trans)
  ultimately show ?thesis
    by (simp add: parse_unicode_escape_def)
qed

lemma append_utf8_ascii: "n < (128 :: nat) \<Longrightarrow> append_utf8 (word_of_nat n) out = Some (out @ [char_of n])"
proof -
  assume n: "n < 128"
  have u: "unat (word_of_nat n :: u32) = n" using n by (simp add: unat_of_nat)
  have le: "(word_of_nat n :: u32) \<le> 0x7F" using n by (simp add: word_le_nat_alt u)
  then have "\<not> (0x10FFFF :: u32) < word_of_nat n" "\<not> (0xD800 :: u32) \<le> word_of_nat n"
    by (auto simp: word_le_nat_alt word_less_nat_alt u)
  with le u show ?thesis by (simp add: append_utf8_def)
qed

lemma parse_escaped_char:
  "parse_string_body (escape_char c @ s) out = parse_string_body s (out @ [c])"
proof (cases "(of_char c :: nat) < 32")
  case False
  then show ?thesis
    by (auto simp: escape_char_def parse_string_body.simps(2))
next
  case True
  have c: "c = char_of (of_char c :: nat)" by simp
  have "parse_string_body (CHR 0x5C # CHR ''u'' # hex4 (of_char c) @ s) out =
      parse_string_body s (out @ [c])"
    using parse_control_escape [OF True, of s] append_utf8_ascii [of "of_char c" out] True
    by (subst parse_string_body.simps(2)) simp
  then show ?thesis
    by (auto simp: escape_char_def parse_string_body.simps(2))
qed

lemma parse_escaped_chars:
  "parse_string_body (concat (map escape_char s) @ t) out = parse_string_body t (out @ s)"
  by (induction s arbitrary: out) (simp_all add: parse_escaped_char)

lemma parse_escape_string: "parse_string (escape_string s @ r) = Some (s, r)"
  by (simp add: parse_string_def escape_string_def parse_escaped_chars parse_string_body.simps(2))

section \<open>Integers\<close>

text \<open>What may follow a value inside a document.\<close>

definition delim :: "string \<Rightarrow> bool" where
  "delim r \<longleftrightarrow> r = [] \<or> hd r = CHR '','' \<or> hd r = CHR '']'' \<or> hd r = CHR 0x7D"

lemma delim_simps [simp]:
  "delim []" "delim (CHR '','' # r)" "delim (CHR '']'' # r)" "delim (CHR 0x7D # r)"
  by (simp_all add: delim_def)

lemma delim_no_number:
  assumes "delim r"
  shows "dropWhile is_digit r = r" "r \<noteq> [] \<Longrightarrow> \<not> is_digit (peek r)"
    "scan_fraction r = Some (False, r)" "scan_exponent r = Some (False, r)"
  using assms
  by (cases r; auto simp: delim_def is_digit_def scan_fraction_def scan_exponent_def)+

lemma takeWhile_nat_dec: "delim r \<Longrightarrow> dropWhile is_digit (nat_dec n @ r) = r"
  using nat_dec_digits [of n] delim_no_number(1) by simp

lemma scan_nat_dec:
  assumes "delim r"
  shows "scan_int_part (nat_dec n @ r) = Some r"
proof (cases "n = 0")
  case True
  then show ?thesis using delim_no_number(2) [OF assms] by (auto simp: scan_int_part_def nat_dec_0)
next
  case False
  obtain c cs where ds: "nat_dec n = c # cs" by (cases "nat_dec n") auto
  have "is_digit c" "c \<noteq> CHR ''0''"
    using nat_dec_digits [of n] nat_dec_hd [of n] False ds by auto
  moreover from \<open>c \<noteq> CHR ''0''\<close> have "(of_char c :: nat) \<noteq> of_char CHR ''0''"
    by (simp only: of_char_eq_iff) simp
  ultimately show ?thesis
    using takeWhile_nat_dec [OF assms, of n] by (simp add: scan_int_part_def ds is_digit_def)
qed

lemma parse_int_dec:
  assumes "int64_range i" "delim r"
  shows "parse_number (int_dec i @ r) = Some (JInt i, r)"
proof -
  have minus: "hd (nat_dec n) \<noteq> CHR ''-''" for n
    using nat_dec_digits [of n] by (cases "nat_dec n") (auto simp: is_digit_def)
  then have peek: "peek (nat_dec n @ r) \<noteq> CHR ''-''" for n
    using minus [of n] by (cases "nat_dec n") auto
  have "scan_minus (int_dec i @ r) = Some (nat_dec (nat \<bar>i\<bar>) @ r)"
    using peek by (auto simp: scan_minus_def int_dec_def)
  moreover have "from_chars_int64 (int_dec i) = Some i"
    using assms(1) minus by (auto simp: from_chars_int64_def int_dec_def Let_def)
  ultimately show ?thesis
    using scan_nat_dec [OF assms(2)] delim_no_number(3,4) [OF assms(2)]
    by (simp add: parse_number_def)
qed

section \<open>First characters\<close>

definition value_start :: "char \<Rightarrow> bool" where
  "value_start c \<longleftrightarrow> c \<in> {CHR 0x22, CHR 0x7B, CHR ''['', CHR ''t'', CHR ''f'', CHR ''n'', CHR ''-''} \<or> is_digit c"

lemma int_dec_start: "\<exists>c cs. int_dec i = c # cs \<and> (c = CHR ''-'' \<or> is_digit c)"
proof (cases "i < 0")
  case False
  obtain c cs where "nat_dec (nat i) = c # cs" by (cases "nat_dec (nat i)") auto
  then show ?thesis using nat_dec_digits [of "nat i"] False by (simp add: int_dec_def)
qed (simp add: int_dec_def)

lemma serialize_start:
  assumes "no_double v"
  obtains c cs where "serialize_value v = c # cs" "value_start c"
proof (cases v)
  case (JBool b)
  then show ?thesis using that by (cases b) (auto simp: value_start_def)
next
  case (JInt i)
  then show ?thesis using that int_dec_start [of i] by (auto simp: value_start_def)
qed (use assms that in \<open>auto simp: value_start_def escape_string_def split: if_splits\<close>)

lemma value_start_space: "value_start c \<Longrightarrow> \<not> is_space c" "value_start c \<Longrightarrow> c \<noteq> CHR '']''"
  by (auto simp: value_start_def is_space_def is_digit_def)

lemma skip_serialize: "no_double v \<Longrightarrow> skip_whitespace (serialize_value v @ r) = serialize_value v @ r"
  by (rule serialize_start) (auto simp: skip_whitespace_def value_start_space)

lemma skip_delim:
  "skip_whitespace (CHR '','' # r) = CHR '','' # r" "skip_whitespace (CHR '']'' # r) = CHR '']'' # r"
  "skip_whitespace (CHR 0x7D # r) = CHR 0x7D # r" "skip_whitespace (CHR '':'' # r) = CHR '':'' # r"
  "skip_whitespace (escape_string s @ r) = escape_string s @ r"
  by (simp_all add: skip_whitespace_def is_space_def escape_string_def)

section \<open>Containers\<close>

lemma serialize_elems_Cons:
  "serialize_elems False (v # vs) = CHR '','' # serialize_elems True (v # vs)"
  by simp

lemma serialize_members_Cons:
  "serialize_members False (kv # kvs) = CHR '','' # serialize_members True (kv # kvs)"
  by (cases kv) simp

lemma array_loop_roundtrip:
  assumes "vs \<noteq> []" "length arr + length vs \<le> kMaxJsonContainerItems"
    and "\<And>v r. v \<in> set vs \<Longrightarrow> delim r \<Longrightarrow> p (serialize_value v @ r) = Some (v, r)"
    and "\<forall>v \<in> set vs. no_double v"
  shows "parse_array_loop p arr (serialize_elems True vs @ CHR '']'' # r) = Some (arr @ vs, r)"
  using assms
proof (induction vs arbitrary: arr)
  case (Cons v vs)
  have ne: "serialize_value v @ s \<noteq> []" for s
    using Cons.prems(4) by (auto elim!: serialize_start [of v])
  have len: "length arr < kMaxJsonContainerItems" using Cons.prems(2) by simp
  let ?s = "serialize_elems False vs @ CHR '']'' # r"
  have p: "p (serialize_value v @ ?s) = Some (v, ?s)"
    by (rule Cons.prems(3)) (cases vs; simp)+
  show ?case
  proof (cases "vs = []")
    case True
    then show ?thesis
      using p ne len unfolding parse_array_loop_step [of p arr] by (simp add: skip_delim)
  next
    case False
    then obtain w ws where vs: "vs = w # ws" by (cases vs) auto
    have "parse_array_loop p (arr @ [v]) (serialize_elems True vs @ CHR '']'' # r) = Some ((arr @ [v]) @ vs, r)"
      using Cons.IH [of "arr @ [v]"] Cons.prems False by simp
    moreover have "?s = CHR '','' # serialize_elems True vs @ CHR '']'' # r" by (simp add: vs)
    ultimately show ?thesis
      using p ne len unfolding parse_array_loop_step [of p arr] by (simp add: skip_delim)
  qed
qed simp

lemma object_loop_roundtrip:
  assumes "kvs \<noteq> []" "length obj + length kvs \<le> kMaxJsonContainerItems" "map_ok (obj @ kvs)"
    and "\<And>k v r. (k, v) \<in> set kvs \<Longrightarrow> delim r \<Longrightarrow> p (serialize_value v @ r) = Some (v, r)"
  shows "parse_object_loop p obj (serialize_members True kvs @ CHR 0x7D # r) = Some (obj @ kvs, r)"
  using assms
proof (induction kvs arbitrary: obj)
  case (Cons kv kvs)
  obtain k v where kv: "kv = (k, v)" by fastforce
  have len: "length obj < kMaxJsonContainerItems" using Cons.prems(2) by simp
  have ok: "map_ok obj" "\<forall>k' \<in> fst ` set obj. k' < k"
    using Cons.prems(3) by (auto simp: map_ok_append kv)
  have put: "map_put k v obj = obj @ [(k, v)]" using ok(2) by (rule map_put_last)
  have fresh: "map_of obj k = None" using ok(2) by (auto simp: map_of_eq_None_iff)
  let ?s = "serialize_members False kvs @ CHR 0x7D # r"
  let ?t = "CHR '':'' # serialize_value v @ ?s"
  have p: "p (serialize_value v @ ?s) = Some (v, ?s)"
    by (rule Cons.prems(4) [of k]) (cases kvs; auto simp: kv)+
  have start: "escape_string k @ ?t \<noteq> []" "peek (escape_string k @ ?t) = CHR 0x22"
    by (simp_all add: escape_string_def)
  have shape: "serialize_members True (kv # kvs) @ CHR 0x7D # r = escape_string k @ ?t"
    by (simp add: kv)
  show ?case
  proof (cases "kvs = []")
    case True
    then show ?thesis
      using p len fresh start unfolding parse_object_loop_step [of p obj] shape
      by (simp add: skip_delim parse_escape_string put kv)
  next
    case False
    then obtain k' v' ws where kvs: "kvs = (k', v') # ws" by (cases kvs) auto
    have "parse_object_loop p (obj @ [(k, v)]) (serialize_members True kvs @ CHR 0x7D # r) =
        Some ((obj @ [(k, v)]) @ kvs, r)"
      using False Cons.prems by (intro Cons.IH) (auto simp: kv)
    moreover have "?s = CHR '','' # serialize_members True kvs @ CHR 0x7D # r" by (simp add: kvs)
    ultimately show ?thesis
      using p len fresh start unfolding parse_object_loop_step [of p obj] shape
      by (simp add: skip_delim parse_escape_string put kv)
  qed
qed simp

section \<open>Values\<close>

lemma parse_value_atom:
  assumes "depth \<le> kMaxJsonDepth" "delim r" "json_ok v" "no_double v" "\<not> is_object v" "\<not> is_array v"
  shows "parse_value depth (serialize_value v @ r) = Some (v, r)"
proof (cases v)
  case (JInt i)
  obtain c cs where "int_dec i = c # cs" and c: "c = CHR ''-'' \<or> is_digit c"
    using int_dec_start by blast
  moreover from c have "c \<notin> {CHR 0x22, CHR 0x7B, CHR ''['', CHR ''t'', CHR ''f'', CHR ''n''}"
    by (auto simp: is_digit_def)
  ultimately show ?thesis
    using assms JInt skip_serialize [of v r] parse_int_dec [of i r]
    by (subst parse_value.simps) (auto simp: Let_def)
next
  case (JStr s)
  then show ?thesis
    using assms skip_serialize [of v r] parse_escape_string [of s r] escape_string_hd [of s]
    by (subst parse_value.simps) (auto simp: Let_def escape_string_def)
qed (use assms skip_serialize [of v r] in
  \<open>auto simp: parse_value.simps [of depth] Let_def parse_null_def parse_bool_def split: if_splits\<close>)

theorem parse_serialize_value:
  assumes "json_ok v" "no_double v" "items_within kMaxJsonContainerItems v"
    and "json_height v + depth \<le> kMaxJsonDepth" "delim r"
  shows "parse_value depth (serialize_value v @ r) = Some (v, r)"
  using assms
proof (induction v arbitrary: depth r)
  case (JArr vs)
  have skip: "skip_whitespace (serialize_value (JArr vs) @ r) = serialize_value (JArr vs) @ r"
    using JArr.prems by (intro skip_serialize) simp
  show ?case
  proof (cases "vs = []")
    case True
    then show ?thesis using JArr.prems skip
      by (subst parse_value.simps) (simp add: Let_def parse_array_def skip_delim)
  next
    case False
    then obtain w ws where vs: "vs = w # ws" by (cases vs) auto
    have el: "parse_value (Suc depth) (serialize_value v @ s) = Some (v, s)"
      if "v \<in> set vs" "delim s" for v s
      using JArr.prems that elems_height_le [of vs "elems_height vs"] by (intro JArr.IH) auto
    have "no_double w" using JArr.prems by (simp add: vs)
    then obtain c cs where w: "serialize_value w = c # cs" "value_start c" by (rule serialize_start)
    have "parse_array_loop (parse_value (Suc depth)) [] (serialize_elems True vs @ CHR '']'' # r) = Some ([] @ vs, r)"
      using JArr.prems False el by (intro array_loop_roundtrip) auto
    moreover have "skip_whitespace (serialize_elems True vs @ CHR '']'' # r) = serialize_elems True vs @ CHR '']'' # r"
      "peek (serialize_elems True vs @ CHR '']'' # r) \<noteq> CHR '']''"
      using w by (auto simp: vs skip_whitespace_def value_start_space)
    ultimately show ?thesis
      using JArr.prems skip
      by (subst parse_value.simps) (simp add: Let_def parse_array_def)
  qed
next
  case (JObj kvs)
  have skip: "skip_whitespace (serialize_value (JObj kvs) @ r) = serialize_value (JObj kvs) @ r"
    using JObj.prems by (intro skip_serialize) simp
  show ?case
  proof (cases "kvs = []")
    case True
    then show ?thesis using JObj.prems skip
      by (subst parse_value.simps) (simp add: Let_def parse_object_def skip_delim)
  next
    case False
    then obtain k w ws where kvs: "kvs = (k, w) # ws" by (cases kvs) auto
    have el: "parse_value (Suc depth) (serialize_value v @ s) = Some (v, s)"
      if "(k, v) \<in> set kvs" "delim s" for k v s
      using JObj.prems that members_height_le [of kvs "members_height kvs"]
      by (intro JObj.IH [of "(k, v)"]) (auto intro: Basic_BNFs.snds.intros)
    have "parse_object_loop (parse_value (Suc depth)) [] (serialize_members True kvs @ CHR 0x7D # r) = Some ([] @ kvs, r)"
      using JObj.prems False el by (intro object_loop_roundtrip) auto
    moreover have "skip_whitespace (serialize_members True kvs @ CHR 0x7D # r) = serialize_members True kvs @ CHR 0x7D # r"
      "peek (serialize_members True kvs @ CHR 0x7D # r) \<noteq> CHR 0x7D"
      by (auto simp: kvs skip_whitespace_def escape_string_def is_space_def)
    ultimately show ?thesis
      using JObj.prems skip
      by (subst parse_value.simps) (simp add: Let_def parse_object_def)
  qed
qed (simp_all only: parse_value_atom json_height.simps is_object.simps is_array.simps not_False_eq_True)

lemma parse_serialize_json:
  assumes "json_ok v" "no_double v" "items_within kMaxJsonContainerItems v"
    and "json_height v \<le> kMaxJsonDepth" "length (serialize_json v) \<le> kMaxPayloadBytes"
  shows "parse_json (serialize_json v) = Some v"
proof -
  have "parse_value 0 (serialize_value v) = Some (v, [])"
    using parse_serialize_value [of v 0 "[]"] assms by simp
  moreover have "serialize_value v \<noteq> []" using assms(2) by (auto elim!: serialize_start [of v])
  moreover have "skip_whitespace (serialize_value v) = serialize_value v"
    using skip_serialize [of v "[]"] assms(2) by simp
  ultimately show ?thesis
    using assms(5) by (simp add: parse_json_def parse_root_def serialize_json_def skip_whitespace_def Let_def)
qed

section \<open>Properties\<close>

text \<open>
  C30. Reading back what was written: a value within the parser's limits - nesting at most 64 levels, at most
  65,536 items per container, at most one mebibyte of text, 64-bit integers, unique object keys - and
  without doubles is parsed from its own serialization exactly, whatever bytes its strings hold.
\<close>

theorem json_roundtrip:
  assumes "json_ok v" "no_double v" "items_within kMaxJsonContainerItems v"
    and "json_height v \<le> kMaxJsonDepth" "length (serialize_json v) \<le> kMaxPayloadBytes"
  shows "parse_json (serialize_json v) = Some v"
  using assms by (rule parse_serialize_json)

lemma json_roundtrip_witness:
  "let v = JObj [(''a'', JArr [JInt (- 5), JStr [CHR ''x'', CHR 0x0A, CHR 0x22], JNull]), (''b'', JBool True)] in
   length (serialize_json v) = 32 \<and> parse_json (serialize_json v) = Some v"
proof -
  let ?v = "JObj [(''a'', JArr [JInt (- 5), JStr [CHR ''x'', CHR 0x0A, CHR 0x22], JNull]), (''b'', JBool True)]"
  have l: "length (serialize_json ?v) = 32" by code_simp
  have "json_ok ?v" "no_double ?v" "items_within kMaxJsonContainerItems ?v" "json_height ?v \<le> kMaxJsonDepth"
    by (simp_all add: int64_range_def map_ok_Cons kMaxJsonContainerItems_def kMaxJsonDepth_def)
  then show ?thesis using json_roundtrip [of ?v] l by (simp add: kMaxPayloadBytes_def)
qed

text \<open>
  C40. On any input the parser ends, and what it accepts is within the limits: the text is not empty and at
  most one mebibyte, the value nests at most 64 levels, no container has more than 65,536 items, integers
  fit 64 bits, and every object's keys are unique and in order. Such a value without doubles, when its
  serialization is not too long, is what the parser makes of that serialization.
\<close>

theorem parsed_json_bounded:
  assumes "parse_json s = Some v"
  shows "s \<noteq> [] \<and> length s \<le> kMaxPayloadBytes \<and> json_ok v \<and> json_height v \<le> kMaxJsonDepth \<and>
    items_within kMaxJsonContainerItems v \<and>
    (no_double v \<and> length (serialize_json v) \<le> kMaxPayloadBytes \<longrightarrow> parse_json (serialize_json v) = Some v)"
proof -
  have "s \<noteq> [] \<and> length s \<le> kMaxPayloadBytes" using assms by (auto simp: parse_json_def split: if_splits)
  moreover have "value_bounded kMaxJsonDepth v" using assms by (rule parse_json_bounded)
  ultimately show ?thesis using parse_serialize_json [of v] by (auto simp: value_bounded_def)
qed

lemma parsed_json_bounded_witness:
  "json_ok (JArr [JStr ''a'', JNull]) \<and> parse_json (serialize_json (JArr [JStr ''a'', JNull])) = Some (JArr [JStr ''a'', JNull])"
proof -
  let ?v = "JArr [JStr ''a'', JNull]"
  have "length (serialize_json ?v) = 10" by code_simp
  then have "parse_json (serialize_json ?v) = Some ?v"
    by (intro parse_serialize_json) (simp_all add: kMaxJsonContainerItems_def kMaxPayloadBytes_def kMaxJsonDepth_def)
  from parsed_json_bounded [OF this] this show ?thesis by blast
qed

text \<open>
  Whatever the strings of a value hold, its serialization has no byte below \<open>0x20\<close>: a message never
  breaks a line of the pipe's log or smuggles a control character.
\<close>

theorem serialized_json_printable: "\<forall>c \<in> set (serialize_json v). 0x20 \<le> (of_char c :: nat)"
  using printable_serialize(1) [of v] by (simp add: serialize_json_def printable_def)

lemma serialized_json_printable_witness:
  "serialize_json (JStr [CHR 0x0A, CHR 0x01]) = [CHR 0x22, CHR 0x5C, CHR ''n'', CHR 0x5C, CHR ''u'', CHR ''0'', CHR ''0'', CHR ''0'', CHR ''1'', CHR 0x22] \<and>
   (\<forall>c \<in> set (serialize_json (JStr [CHR 0x0A, CHR 0x01])). 0x20 \<le> (of_char c :: nat))"
  using serialized_json_printable [of "JStr [CHR 0x0A, CHR 0x01]"]
  by (simp add: serialize_json_def escape_string_def escape_char_def hex4_def hex_char_def) code_simp

end
