(* ===== verification/Protocol.thy ===== *)
theory Protocol
  imports Json_Roundtrip
begin

text \<open>
  The envelopes of the broker protocol (version 21): requests, responses and events, written by
  \<open>SerializeRequest\<close>, \<open>SerializeResponse\<close>, \<open>SerializeEvent\<close> and read by \<open>ParseRequest\<close>,
  \<open>ParseResponse\<close>, \<open>ParseEvent\<close> of \<open>protocol_v21.cpp\<close>. A parser that returns \<open>false\<close> is
  \<open>Inl err\<close> with the text it leaves in \<open>err\<close>; the clock that \<open>ParseEvent\<close> reads for an event
  without a timestamp is an argument.
\<close>

section \<open>Envelopes\<close>

definition kProtocolVersion :: int where
  "kProtocolVersion = 21"

definition kMaxRequestIdLength :: nat where
  "kMaxRequestIdLength = 256"

definition kMaxMethodLength :: nat where
  "kMaxMethodLength = 128"

definition kMaxEventNameLength :: nat where
  "kMaxEventNameLength = 128"

record broker_request =
  req_protocol :: int
  req_id :: string
  req_method :: string
  req_payload :: json_object

record broker_response =
  res_protocol :: int
  res_id :: string
  res_ok :: bool
  res_payload :: json_object
  res_error_code :: string
  res_error_message :: string

record broker_event =
  ev_protocol :: int
  ev_event :: string
  ev_payload :: json_object
  ev_timestamp_ms :: u64

section \<open>Writers\<close>

text \<open>\<open>JsonObject obj; obj[k] = v; ...\<close> in the order of the assignments.\<close>

definition object_of :: "(string \<times> json) list \<Rightarrow> json_object" where
  "object_of kvs = foldl (\<lambda>obj (k, v). map_put k v obj) [] kvs"

definition serialize_request :: "broker_request \<Rightarrow> string" where
  "serialize_request req = serialize_json (JObj (object_of
     [(''protocol'', JInt (req_protocol req)),
      (''type'', JStr ''request''),
      (''id'', JStr (req_id req)),
      (''method'', JStr (req_method req)),
      (''payload'', JObj (req_payload req))]))"

definition serialize_response :: "broker_response \<Rightarrow> string" where
  "serialize_response res = serialize_json (JObj (object_of
     ([(''protocol'', JInt (res_protocol res)),
       (''type'', JStr ''response''),
       (''id'', JStr (res_id res)),
       (''ok'', JBool (res_ok res)),
       (''payload'', JObj (res_payload res))] @
      (if \<not> res_ok res then
         [(''error'', JObj (object_of
            [(''code'', JStr (res_error_code res)), (''message'', JStr (res_error_message res))]))]
       else []))))"

definition serialize_event :: "broker_event \<Rightarrow> string" where
  "serialize_event ev = serialize_json (JObj (object_of
     [(''protocol'', JInt (ev_protocol ev)),
      (''type'', JStr ''event''),
      (''event'', JStr (ev_event ev)),
      (''payload'', JObj (ev_payload ev)),
      (''timestamp'', JInt (sint (ev_timestamp_ms ev)))]))"

section \<open>Readers\<close>

text \<open>The checks that the three readers open with: the root, the version, the message type.\<close>

definition quoted :: "string \<Rightarrow> string" where
  "quoted s = [CHR 0x27] @ s @ [CHR 0x27]"

definition parse_envelope :: "string \<Rightarrow> string \<Rightarrow> string + json_object" where
  "parse_envelope typ json_str =
     (case parse_json json_str of
        None \<Rightarrow> Inl ''Malformed JSON or root is not an object''
      | Some jroot \<Rightarrow>
          if \<not> is_object jroot then Inl ''Malformed JSON or root is not an object''
          else let obj = as_object jroot in
            (case map_of obj ''protocol'' of
               None \<Rightarrow> Inl ''Unsupported protocol version''
             | Some proto \<Rightarrow>
                 if \<not> is_int proto \<or> as_int proto 0 \<noteq> kProtocolVersion
                 then Inl ''Unsupported protocol version''
                 else (case map_of obj ''type'' of
                     None \<Rightarrow> Inl (''Invalid message type; expected '' @ quoted typ)
                   | Some t \<Rightarrow>
                       if \<not> is_string t \<or> as_string t \<noteq> typ
                       then Inl (''Invalid message type; expected '' @ quoted typ)
                       else Inr obj)))"

text \<open>A member that must be a non-empty string of at most \<open>n\<close> bytes.\<close>

definition parse_name :: "string \<Rightarrow> nat \<Rightarrow> string \<Rightarrow> json_object \<Rightarrow> string + string" where
  "parse_name key n err obj =
     (case map_of obj key of None \<Rightarrow> Inl err
      | Some v \<Rightarrow>
          if \<not> is_string v \<or> as_string v = [] \<or> n < length (as_string v) then Inl err
          else Inr (as_string v))"

definition parse_payload :: "string \<Rightarrow> json_object \<Rightarrow> string + json_object" where
  "parse_payload err obj =
     (case map_of obj ''payload'' of None \<Rightarrow> Inr []
      | Some v \<Rightarrow> if is_object v then Inr (as_object v) else Inl err)"

definition parse_request :: "string \<Rightarrow> string + broker_request" where
  "parse_request json_str =
     (case parse_envelope ''request'' json_str of Inl e \<Rightarrow> Inl e
      | Inr obj \<Rightarrow>
        (case parse_name ''id'' kMaxRequestIdLength
           (''Missing or invalid request '' @ quoted ''id'') obj of Inl e \<Rightarrow> Inl e
         | Inr i \<Rightarrow>
           (case parse_name ''method'' kMaxMethodLength
              (''Missing or invalid '' @ quoted ''method'') obj of Inl e \<Rightarrow> Inl e
            | Inr m \<Rightarrow>
              (case parse_payload (''Invalid request '' @ quoted ''payload'' @ ''; expected an object'') obj of
                 Inl e \<Rightarrow> Inl e
               | Inr p \<Rightarrow>
                   Inr \<lparr>req_protocol = kProtocolVersion, req_id = i, req_method = m, req_payload = p\<rparr>))))"

definition parse_error_object :: "json_object \<Rightarrow> string + (string \<times> string)" where
  "parse_error_object obj =
     (case map_of obj ''error'' of None \<Rightarrow> Inl ''Missing response error object''
      | Some e \<Rightarrow>
          if \<not> is_object e then Inl ''Missing response error object''
          else (case (map_of (as_object e) ''code'', map_of (as_object e) ''message'') of
              (Some code, Some msg) \<Rightarrow>
                if \<not> is_string code \<or> \<not> is_string msg then Inl ''Invalid response error object''
                else Inr (as_string code, as_string msg)
            | _ \<Rightarrow> Inl ''Invalid response error object''))"

definition parse_response :: "string \<Rightarrow> string + broker_response" where
  "parse_response json_str =
     (case parse_envelope ''response'' json_str of Inl e \<Rightarrow> Inl e
      | Inr obj \<Rightarrow>
        (case parse_name ''id'' kMaxRequestIdLength ''Missing or invalid response id'' obj of Inl e \<Rightarrow> Inl e
         | Inr i \<Rightarrow>
           (case map_of obj ''ok'' of None \<Rightarrow> Inl ''Missing ok flag''
            | Some b \<Rightarrow>
                if \<not> is_bool b then Inl ''Missing ok flag''
                else let ok = as_bool b False in
                  (case parse_payload ''Invalid response payload'' obj of Inl e \<Rightarrow> Inl e
                   | Inr p \<Rightarrow>
                       if ok then
                         Inr \<lparr>res_protocol = kProtocolVersion, res_id = i, res_ok = ok, res_payload = p,
                              res_error_code = [], res_error_message = []\<rparr>
                       else (case parse_error_object obj of Inl e \<Rightarrow> Inl e
                         | Inr (c, m) \<Rightarrow>
                             Inr \<lparr>res_protocol = kProtocolVersion, res_id = i, res_ok = ok, res_payload = p,
                                  res_error_code = c, res_error_message = m\<rparr>)))))"

definition parse_event :: "u64 \<Rightarrow> string \<Rightarrow> string + broker_event" where
  "parse_event now json_str =
     (case parse_envelope ''event'' json_str of Inl e \<Rightarrow> Inl e
      | Inr obj \<Rightarrow>
        (case parse_name ''event'' kMaxEventNameLength ''Missing or invalid event name'' obj of Inl e \<Rightarrow> Inl e
         | Inr name \<Rightarrow>
           (case parse_payload ''Invalid event payload'' obj of Inl e \<Rightarrow> Inl e
            | Inr p \<Rightarrow>
              (case map_of obj ''timestamp'' of
                 None \<Rightarrow>
                   Inr \<lparr>ev_protocol = kProtocolVersion, ev_event = name, ev_payload = p, ev_timestamp_ms = now\<rparr>
               | Some ts \<Rightarrow>
                   if \<not> is_int ts \<or> as_int ts 0 < 0 then Inl ''Invalid event timestamp''
                   else Inr \<lparr>ev_protocol = kProtocolVersion, ev_event = name, ev_payload = p,
                             ev_timestamp_ms = word_of_int (as_int ts 0)\<rparr>))))"

section \<open>What the writers build\<close>

text \<open>A payload the reader accepts again: no double inside, and within the parser's limits.\<close>

definition payload_ok :: "json_object \<Rightarrow> bool" where
  "payload_ok p \<longleftrightarrow> json_ok (JObj p) \<and> no_double (JObj p) \<and>
     items_within kMaxJsonContainerItems (JObj p) \<and> members_height p < kMaxJsonDepth"

definition name_ok :: "nat \<Rightarrow> string \<Rightarrow> bool" where
  "name_ok n s \<longleftrightarrow> s \<noteq> [] \<and> length s \<le> n"

text \<open>Messages within the limits of both ends; the payload has a level of its own in the envelope.\<close>

definition request_wf :: "broker_request \<Rightarrow> bool" where
  "request_wf req \<longleftrightarrow> req_protocol req = kProtocolVersion \<and> name_ok kMaxRequestIdLength (req_id req) \<and>
     name_ok kMaxMethodLength (req_method req) \<and> payload_ok (req_payload req) \<and>
     Suc (members_height (req_payload req)) < kMaxJsonDepth \<and> length (serialize_request req) \<le> kMaxPayloadBytes"

definition response_wf :: "broker_response \<Rightarrow> bool" where
  "response_wf res \<longleftrightarrow> res_protocol res = kProtocolVersion \<and> name_ok kMaxRequestIdLength (res_id res) \<and>
     payload_ok (res_payload res) \<and> Suc (members_height (res_payload res)) < kMaxJsonDepth \<and>
     (res_ok res \<longrightarrow> res_error_code res = [] \<and> res_error_message res = []) \<and>
     length (serialize_response res) \<le> kMaxPayloadBytes"

definition event_wf :: "broker_event \<Rightarrow> bool" where
  "event_wf ev \<longleftrightarrow> ev_protocol ev = kProtocolVersion \<and> name_ok kMaxEventNameLength (ev_event ev) \<and>
     payload_ok (ev_payload ev) \<and> Suc (members_height (ev_payload ev)) < kMaxJsonDepth \<and>
     length (serialize_event ev) \<le> kMaxPayloadBytes"

lemma request_object:
  "object_of [(''protocol'', a), (''type'', b), (''id'', c), (''method'', d), (''payload'', e)] =
     [(''id'', c), (''method'', d), (''payload'', e), (''protocol'', a), (''type'', b)]"
  by (simp add: object_of_def)

lemma response_object:
  "object_of [(''protocol'', a), (''type'', b), (''id'', c), (''ok'', d), (''payload'', e)] =
     [(''id'', c), (''ok'', d), (''payload'', e), (''protocol'', a), (''type'', b)]"
  "object_of [(''protocol'', a), (''type'', b), (''id'', c), (''ok'', d), (''payload'', e), (''error'', f)] =
     [(''error'', f), (''id'', c), (''ok'', d), (''payload'', e), (''protocol'', a), (''type'', b)]"
  by (simp_all add: object_of_def)

lemma error_object:
  "object_of [(''code'', a), (''message'', b)] = [(''code'', a), (''message'', b)]"
  by (simp add: object_of_def)

lemma event_object:
  "object_of [(''protocol'', a), (''type'', b), (''event'', c), (''payload'', d), (''timestamp'', e)] =
     [(''event'', c), (''payload'', d), (''protocol'', a), (''timestamp'', e), (''type'', b)]"
  by (simp add: object_of_def)

lemma int64_range_protocol: "int64_range kProtocolVersion"
  by (simp add: kProtocolVersion_def int64_range_def)

lemma envelope_roundtrip:
  assumes "payload_ok obj" "map_of obj ''protocol'' = Some (JInt kProtocolVersion)"
    and "map_of obj ''type'' = Some (JStr typ)"
    and "length (serialize_json (JObj obj)) \<le> kMaxPayloadBytes"
  shows "parse_envelope typ (serialize_json (JObj obj)) = Inr obj"
  using assms parse_serialize_json [of "JObj obj"]
  by (simp add: parse_envelope_def payload_ok_def)

text \<open>An object of atoms and one payload is within the limits when the payload is.\<close>

lemma payload_ok_members:
  "payload_ok kvs \<longleftrightarrow> map_ok kvs \<and> length kvs \<le> kMaxJsonContainerItems \<and>
     (\<forall>v \<in> snd ` set kvs. json_ok v \<and> no_double v \<and> items_within kMaxJsonContainerItems v \<and>
        Suc (json_height v) < kMaxJsonDepth)"
proof -
  have "members_height kvs < kMaxJsonDepth \<longleftrightarrow> (\<forall>kv \<in> set kvs. Suc (json_height (snd kv)) < kMaxJsonDepth)"
    using members_height_le [of kvs "kMaxJsonDepth - 1"] by (auto simp: kMaxJsonDepth_def less_eq_Suc_le)
  then show ?thesis by (auto simp: payload_ok_def)
qed

lemma parse_name_Inr:
  "parse_name k n err obj = Inr s \<longleftrightarrow> map_of obj k = Some (JStr s) \<and> name_ok n s"
proof (cases "map_of obj k")
  case (Some v)
  then show ?thesis by (cases v) (auto simp: parse_name_def name_ok_def)
qed (simp add: parse_name_def)

lemma parse_payload_Inr:
  "parse_payload err obj = Inr p \<longleftrightarrow>
     map_of obj ''payload'' = Some (JObj p) \<or> map_of obj ''payload'' = None \<and> p = []"
proof (cases "map_of obj ''payload''")
  case (Some v)
  then show ?thesis by (cases v) (auto simp: parse_payload_def)
qed (auto simp: parse_payload_def)

lemma parse_envelope_Inr:
  "parse_envelope typ s = Inr obj \<longleftrightarrow>
     parse_json s = Some (JObj obj) \<and> map_of obj ''protocol'' = Some (JInt kProtocolVersion) \<and>
     map_of obj ''type'' = Some (JStr typ)"
proof -
  have i: "\<not> (\<not> is_int w \<or> as_int w 0 \<noteq> kProtocolVersion) \<longleftrightarrow> w = JInt kProtocolVersion" for w
    by (cases w) auto
  have t: "\<not> (\<not> is_string w \<or> as_string w \<noteq> typ) \<longleftrightarrow> w = JStr typ" for w by (cases w) auto
  show ?thesis (is "?L \<longleftrightarrow> ?R")
  proof
    assume ?L
    note L = \<open>?L\<close> [unfolded parse_envelope_def Let_def]
    obtain w where w: "parse_json s = Some w" using L by (cases "parse_json s") simp_all
    have ob: "is_object w" using L w by (cases "is_object w") simp_all
    obtain p where p: "map_of (as_object w) ''protocol'' = Some p"
      using L w ob by (cases "map_of (as_object w) ''protocol''") simp_all
    have pv: "\<not> (\<not> is_int p \<or> as_int p 0 \<noteq> kProtocolVersion)"
      using L w ob p by (cases "\<not> is_int p \<or> as_int p 0 \<noteq> kProtocolVersion") simp_all
    obtain q where q: "map_of (as_object w) ''type'' = Some q"
      using L w ob p pv by (cases "map_of (as_object w) ''type''") simp_all
    have qv: "\<not> (\<not> is_string q \<or> as_string q \<noteq> typ)"
      using L w ob p pv q by (cases "\<not> is_string q \<or> as_string q \<noteq> typ") simp_all
    have "as_object w = obj" using L w ob p pv q qv by simp
    with ob have "w = JObj obj" by (cases w) simp_all
    moreover have "p = JInt kProtocolVersion" "q = JStr typ" using i [THEN iffD1, OF pv] t [THEN iffD1, OF qv] .
    ultimately show ?R using w p q by simp
  next
    assume ?R
    then show ?L by (simp add: parse_envelope_def)
  qed
qed

lemmas reader_simps [codec_simps] = parse_name_Inr parse_payload_Inr parse_envelope_Inr

section \<open>Round trips\<close>

lemma request_roundtrip:
  assumes wf: "request_wf req"
  shows "parse_request (serialize_request req) = Inr req"
proof -
  note assms = wf [unfolded request_wf_def]
  let ?o = "[(''id'', JStr (req_id req)), (''method'', JStr (req_method req)),
    (''payload'', JObj (req_payload req)), (''protocol'', JInt kProtocolVersion), (''type'', JStr ''request'')]"
  have s: "serialize_request req = serialize_json (JObj ?o)"
    by (simp add: serialize_request_def request_object assms)
  have "payload_ok ?o"
    using assms unfolding payload_ok_members [of ?o]
    by (auto simp: payload_ok_def map_ok_Cons kMaxJsonContainerItems_def kMaxJsonDepth_def
        int64_range_protocol)
  then have "parse_envelope ''request'' (serialize_request req) = Inr ?o"
    using assms unfolding s by (intro envelope_roundtrip) simp_all
  then show ?thesis
    using assms by (simp add: parse_request_def parse_name_def parse_payload_def name_ok_def)
qed

lemma response_roundtrip:
  assumes wf: "response_wf res"
  shows "parse_response (serialize_response res) = Inr res"
proof -
  note assms = wf [unfolded response_wf_def]
  let ?b = "[(''id'', JStr (res_id res)), (''ok'', JBool (res_ok res)),
    (''payload'', JObj (res_payload res)), (''protocol'', JInt kProtocolVersion), (''type'', JStr ''response'')]"
  let ?e = "[(''code'', JStr (res_error_code res)), (''message'', JStr (res_error_message res))]"
  let ?o = "if res_ok res then ?b else (''error'', JObj ?e) # ?b"
  have s: "serialize_response res = serialize_json (JObj ?o)"
    by (simp add: serialize_response_def response_object error_object assms)
  have "payload_ok ?o"
    using assms unfolding payload_ok_members [of ?o]
    by (auto simp: payload_ok_def map_ok_Cons kMaxJsonContainerItems_def kMaxJsonDepth_def
        int64_range_protocol)
  then have "parse_envelope ''response'' (serialize_response res) = Inr ?o"
    using assms unfolding s by (intro envelope_roundtrip) simp_all
  then show ?thesis
    using assms by (simp add: parse_response_def parse_name_def parse_payload_def parse_error_object_def name_ok_def)
qed

lemma event_roundtrip:
  assumes wf: "event_wf ev"
  shows "parse_event now (serialize_event ev) =
    (if ev_timestamp_ms ev < 2 ^ 63 then Inr ev else Inl ''Invalid event timestamp'')"
proof -
  note assms = wf [unfolded event_wf_def]
  let ?t = "sint (ev_timestamp_ms ev)"
  let ?o = "[(''event'', JStr (ev_event ev)), (''payload'', JObj (ev_payload ev)),
    (''protocol'', JInt kProtocolVersion), (''timestamp'', JInt ?t), (''type'', JStr ''event'')]"
  have s: "serialize_event ev = serialize_json (JObj ?o)"
    by (simp add: serialize_event_def event_object assms)
  have "payload_ok ?o"
    using assms unfolding payload_ok_members [of ?o]
    by (auto simp: payload_ok_def map_ok_Cons kMaxJsonContainerItems_def kMaxJsonDepth_def
        int64_range_protocol)
  then have "parse_envelope ''event'' (serialize_event ev) = Inr ?o"
    using assms unfolding s by (intro envelope_roundtrip) simp_all
  moreover have "?t < 0 \<longleftrightarrow> \<not> ev_timestamp_ms ev < 2 ^ 63"
    by (rule sint64_neg)
  ultimately show ?thesis
    using assms by (simp add: parse_event_def parse_name_def parse_payload_def name_ok_def)
qed

section \<open>Properties\<close>

text \<open>
  C34. Exactly these texts are accepted as requests: a JSON object within the parser's limits whose
  \<open>protocol\<close> is the integer 21 and whose \<open>type\<close> is \<open>request\<close>, with an \<open>id\<close> of 1 to 256 bytes, a \<open>method\<close>
  of 1 to 128 bytes and a \<open>payload\<close> that is an object or absent. The request holds these members.
\<close>

theorem request_accepted_iff:
  "parse_request s = Inr req \<longleftrightarrow>
     (\<exists>obj. parse_json s = Some (JObj obj) \<and> map_of obj ''protocol'' = Some (JInt 21) \<and>
        map_of obj ''type'' = Some (JStr ''request'') \<and>
        map_of obj ''id'' = Some (JStr (req_id req)) \<and> req_id req \<noteq> [] \<and> length (req_id req) \<le> 256 \<and>
        map_of obj ''method'' = Some (JStr (req_method req)) \<and> req_method req \<noteq> [] \<and> length (req_method req) \<le> 128 \<and>
        (map_of obj ''payload'' = Some (JObj (req_payload req)) \<or>
         map_of obj ''payload'' = None \<and> req_payload req = []) \<and>
        req = \<lparr>req_protocol = 21, req_id = req_id req, req_method = req_method req, req_payload = req_payload req\<rparr>)"
  (is "_ = (\<exists>obj. ?P obj)")
proof
  assume "parse_request s = Inr req"
  then obtain obj i m p where "parse_envelope ''request'' s = Inr obj"
    "parse_name ''id'' kMaxRequestIdLength (''Missing or invalid request '' @ quoted ''id'') obj = Inr i"
    "parse_name ''method'' kMaxMethodLength (''Missing or invalid '' @ quoted ''method'') obj = Inr m"
    "parse_payload (''Invalid request '' @ quoted ''payload'' @ ''; expected an object'') obj = Inr p"
    "req = \<lparr>req_protocol = kProtocolVersion, req_id = i, req_method = m, req_payload = p\<rparr>"
    unfolding parse_request_def by (auto split: sum.splits)
  then have "?P obj"
    by (simp add: reader_simps name_ok_def kProtocolVersion_def kMaxRequestIdLength_def kMaxMethodLength_def)
  then show "\<exists>obj. ?P obj" by (rule exI [of ?P obj])
next
  assume "\<exists>obj. ?P obj"
  then obtain obj where P: "?P obj" by (rule exE [of ?P])
  then have "parse_envelope ''request'' s = Inr obj"
    "\<And>e. parse_name ''id'' kMaxRequestIdLength e obj = Inr (req_id req)"
    "\<And>e. parse_name ''method'' kMaxMethodLength e obj = Inr (req_method req)"
    "\<And>e. parse_payload e obj = Inr (req_payload req)"
    by (auto simp: reader_simps name_ok_def kProtocolVersion_def kMaxRequestIdLength_def kMaxMethodLength_def)
  then show "parse_request s = Inr req"
    using P by (simp add: parse_request_def kProtocolVersion_def)
qed

text \<open>
  A response that the broker serializes is read back as it was, with its error code and message when it
  is a failure: for the protocol's own version, an id of 1 to 256 bytes, no error texts on a success, and a
  payload without doubles that nests at most 62 levels.
\<close>

theorem response_survives_wire:
  assumes "response_wf res"
  shows "parse_response (serialize_response res) = Inr res"
  using assms by (rule response_roundtrip)

lemma response_survives_wire_witness:
  "let r = \<lparr>res_protocol = 21, res_id = ''7'', res_ok = False, res_payload = [(''n'', JInt 3)],
            res_error_code = ''not_found'', res_error_message = ''no such job''\<rparr>
   in parse_response (serialize_response r) = Inr r"
proof -
  let ?r = "\<lparr>res_protocol = 21, res_id = ''7'', res_ok = False, res_payload = [(''n'', JInt 3)],
            res_error_code = ''not_found'', res_error_message = ''no such job''\<rparr>"
  have "length (serialize_response ?r) = 124" by code_simp
  then have "length (serialize_response ?r) \<le> kMaxPayloadBytes" by (simp add: kMaxPayloadBytes_def)
  moreover have "payload_ok [(''n'', JInt 3)]"
    by (simp add: payload_ok_def int64_range_def map_ok_Cons kMaxJsonContainerItems_def kMaxJsonDepth_def)
  ultimately show ?thesis
    using response_survives_wire [of ?r]
    by (simp add: response_wf_def kProtocolVersion_def name_ok_def kMaxRequestIdLength_def kMaxJsonDepth_def)
qed

text \<open>
  An event is read back as it was serialized, except that a timestamp of \<open>2 ^ 63\<close> or more, which the
  \<open>uint64_t\<close> field allows, is written as a negative number that the reader then refuses.
\<close>

theorem event_survives_wire:
  assumes "event_wf ev"
  shows "parse_event now (serialize_event ev) =
    (if ev_timestamp_ms ev < 2 ^ 63 then Inr ev else Inl ''Invalid event timestamp'')"
  using assms by (rule event_roundtrip)

lemma event_survives_wire_witness:
  "let e = \<lparr>ev_protocol = 21, ev_event = ''job.started'', ev_payload = [], ev_timestamp_ms = 1700\<rparr>;
       f = e\<lparr>ev_timestamp_ms := - 1\<rparr>
   in parse_event 0 (serialize_event e) = Inr e \<and> parse_event 0 (serialize_event f) = Inl ''Invalid event timestamp''"
proof -
  let ?e = "\<lparr>ev_protocol = 21, ev_event = ''job.started'', ev_payload = [], ev_timestamp_ms = 1700\<rparr>"
  let ?f = "\<lparr>ev_protocol = 21, ev_event = ''job.started'', ev_payload = [], ev_timestamp_ms = - 1\<rparr>"
  have "length (serialize_event ?e) = 82" "length (serialize_event ?f) = 80" by code_simp+
  then have "length (serialize_event ?e) \<le> kMaxPayloadBytes" "length (serialize_event ?f) \<le> kMaxPayloadBytes"
    by (simp_all add: kMaxPayloadBytes_def)
  moreover have "payload_ok []" by (simp add: payload_ok_def kMaxJsonDepth_def)
  ultimately show ?thesis
    using event_survives_wire [of ?e 0] event_survives_wire [of ?f 0]
    by (simp add: event_wf_def kProtocolVersion_def name_ok_def kMaxEventNameLength_def kMaxJsonDepth_def)
qed

end
