(* ===== verification/Codec.thy ===== *)
theory Codec
  imports Prelude
begin

text \<open>
  Binary encodings. The program runs on little-endian machines and copies integers to the wire
  with \<open>memcpy\<close> or \<open>reinterpret_cast\<close>, so an \<open>n\<close>-byte integer is \<open>le_bytes n\<close>. A reader takes
  the unread bytes and returns the value with the bytes after it, or nothing when it fails.
  The locale \<open>codec\<close> is the contract of a writer with its reader; every record format of the
  program is an interpretation of it.
\<close>

section \<open>Little-endian integers\<close>

fun le_bytes :: "nat \<Rightarrow> nat \<Rightarrow> string" where
  "le_bytes 0 k = []"
| "le_bytes (Suc n) k = char_of (k mod 256) # le_bytes n (k div 256)"

fun le_nat :: "string \<Rightarrow> nat" where
  "le_nat [] = 0"
| "le_nat (c # cs) = of_char c + 256 * le_nat cs"

lemma length_le_bytes [simp]: "length (le_bytes n k) = n"
  by (induction n arbitrary: k) simp_all

lemma le_nat_bytes: "k < 256 ^ n \<Longrightarrow> le_nat (le_bytes n k) = k"
proof (induction n arbitrary: k)
  case (Suc n)
  then have "k div 256 < 256 ^ n" by (simp add: less_mult_imp_div_less mult.commute)
  with Suc.IH show ?case by simp
qed simp

lemma le_nat_less: "le_nat cs < 256 ^ length cs"
proof (induction cs)
  case (Cons c cs)
  have "(of_char c :: nat) < 256" by (rule nat_of_char_less_256)
  moreover have "256 + 256 * le_nat cs \<le> 256 * 256 ^ length cs"
    using Cons mult_le_mono2 [of "Suc (le_nat cs)" "256 ^ length cs" 256] by simp
  ultimately have "of_char c + 256 * le_nat cs < 256 * 256 ^ length cs"
    by (rule less_le_trans [OF add_strict_right_mono])
  then show ?case by simp
qed simp

lemma le_bytes_nat [simp]: "le_bytes (length cs) (le_nat cs) = cs"
proof (induction cs)
  case (Cons c cs)
  have "(of_char c :: nat) < 256" by (rule nat_of_char_less_256)
  with Cons show ?case by simp
qed simp

section \<open>Readers of fixed and counted pieces\<close>

text \<open>The next \<open>n\<close> bytes, when there are that many.\<close>

definition read_bytes :: "nat \<Rightarrow> 'b list \<Rightarrow> ('b list \<times> 'b list) option" where
  "read_bytes n s = (if length s < n then None else Some (take n s, drop n s))"

definition read_le :: "nat \<Rightarrow> string \<Rightarrow> (nat \<times> string) option" where
  "read_le n s = (case read_bytes n s of None \<Rightarrow> None | Some (b, r) \<Rightarrow> Some (le_nat b, r))"

text \<open>A loop that reads \<open>n\<close> records.\<close>

fun read_many :: "('b list \<Rightarrow> ('a \<times> 'b list) option) \<Rightarrow> nat \<Rightarrow> 'b list \<Rightarrow> ('a list \<times> 'b list) option" where
  "read_many rd 0 s = Some ([], s)"
| "read_many rd (Suc n) s =
     (case rd s of None \<Rightarrow> None
      | Some (x, r) \<Rightarrow>
          (case read_many rd n r of None \<Rightarrow> None | Some (xs, r') \<Rightarrow> Some (x # xs, r')))"

definition write_many :: "('a \<Rightarrow> 'b list) \<Rightarrow> 'a list \<Rightarrow> 'b list" where
  "write_many wr xs = concat (map wr xs)"

lemma write_many_simps [simp]:
  "write_many wr [] = []" "write_many wr (x # xs) = wr x @ write_many wr xs"
  "write_many wr (xs @ ys) = write_many wr xs @ write_many wr ys"
  by (simp_all add: write_many_def)

lemma read_bytes_append [simp]: "length b = n \<Longrightarrow> read_bytes n (b @ r) = Some (b, r)"
  by (auto simp: read_bytes_def)

lemma read_le_append [codec_simps]: "k < 256 ^ n \<Longrightarrow> read_le n (le_bytes n k @ r) = Some (k, r)"
  by (simp add: read_le_def le_nat_bytes)

lemma read_le_1 [codec_simps]: "k < 256 \<Longrightarrow> read_le 1 (le_bytes 1 k @ r) = Some (k, r)"
  by (rule read_le_append) simp

lemma read_le_4 [codec_simps]: "k < 4294967296 \<Longrightarrow> read_le 4 (le_bytes 4 k @ r) = Some (k, r)"
  by (rule read_le_append) simp

lemma read_le_8 [codec_simps]: "k < 18446744073709551616 \<Longrightarrow> read_le 8 (le_bytes 8 k @ r) = Some (k, r)"
  by (rule read_le_append) simp

lemma read_bytes_suffix: "read_bytes n s = Some (b, r) \<Longrightarrow> s = b @ r \<and> length b = n"
  by (auto simp: read_bytes_def split: if_splits)

lemma read_le_suffix: "read_le n s = Some (k, r) \<Longrightarrow> s = le_bytes n k @ r \<and> k < 256 ^ n"
  by (auto simp: read_le_def split: option.splits dest!: read_bytes_suffix intro: le_nat_less)

lemma read_many_length: "read_many rd n s = Some (xs, r) \<Longrightarrow> length xs = n"
  by (induction rd n s arbitrary: xs r rule: read_many.induct) (auto split: option.splits)

lemma read_many_all:
  assumes "\<And>s x r. rd s = Some (x, r) \<Longrightarrow> P x"
  shows "read_many rd n s = Some (xs, r) \<Longrightarrow> \<forall>x \<in> set xs. P x"
  using assms by (induction rd n s arbitrary: xs r rule: read_many.induct) (auto split: option.splits)

section \<open>The contract of a writer and its reader\<close>

locale codec =
  fixes wr :: "'a \<Rightarrow> 'b list"
    and rd :: "'b list \<Rightarrow> ('a \<times> 'b list) option"
    and ok :: "'a \<Rightarrow> bool"
  assumes rd_wr: "ok x \<Longrightarrow> rd (wr x @ r) = Some (x, r)"
begin

lemma rd_wr_nil: "ok x \<Longrightarrow> rd (wr x) = Some (x, [])"
  using rd_wr [of x "[]"] by simp

text \<open>No encoding is a prefix of another: a stream splits in one way only.\<close>

lemma wr_split: "ok x \<Longrightarrow> ok y \<Longrightarrow> wr x @ r = wr y @ s \<Longrightarrow> x = y \<and> r = s"
  by (metis rd_wr option.inject prod.inject)

lemma wr_inj: "inj_on wr {x. ok x}"
proof (rule inj_onI)
  fix x y assume "x \<in> {x. ok x}" "y \<in> {x. ok x}" "wr x = wr y"
  then show "x = y" using wr_split [of x y "[]" "[]"] by simp
qed

lemma read_write_many: "\<forall>x \<in> set xs. ok x \<Longrightarrow> read_many rd (length xs) (write_many wr xs @ r) = Some (xs, r)"
  by (induction xs) (simp_all add: rd_wr)

lemma write_many_split:
  "\<forall>x \<in> set xs. ok x \<Longrightarrow> \<forall>y \<in> set ys. ok y \<Longrightarrow> length xs = length ys \<Longrightarrow>
     write_many wr xs @ r = write_many wr ys @ s \<Longrightarrow> xs = ys \<and> r = s"
  by (metis read_write_many option.inject prod.inject)

end

text \<open>
  A writer that cuts what is too long or out of range: what comes back is the value cut the same way. Such a
  pair is a codec on the values that need no cutting.
\<close>

locale lossy_codec =
  fixes wr :: "'a \<Rightarrow> 'b list"
    and rd :: "'b list \<Rightarrow> ('a \<times> 'b list) option"
    and clip :: "'a \<Rightarrow> 'a"
  assumes rd_clip: "rd (wr x @ r) = Some (clip x, r)"
begin

lemma read_clip_many: "read_many rd (length xs) (write_many wr xs @ r) = Some (map clip xs, r)"
  by (induction xs) (simp_all add: rd_clip)

lemma clip_same: "wr x @ r = wr y @ s \<Longrightarrow> clip x = clip y \<and> r = s"
  by (metis rd_clip option.inject prod.inject)

end

sublocale lossy_codec \<subseteq> codec wr rd "\<lambda>x. clip x = x"
  by unfold_locales (simp add: rd_clip)

text \<open>A reader that accepts nothing but what the writer produces.\<close>

locale exact_codec = codec +
  assumes rd_exact: "rd s = Some (x, r) \<Longrightarrow> ok x \<and> s = wr x @ r"
begin

lemma rd_iff: "rd s = Some (x, r) \<longleftrightarrow> ok x \<and> s = wr x @ r"
  using rd_exact rd_wr by blast

lemma read_many_exact:
  "read_many rd n s = Some (xs, r) \<longleftrightarrow> length xs = n \<and> (\<forall>x \<in> set xs. ok x) \<and> s = write_many wr xs @ r"
proof
  show "read_many rd n s = Some (xs, r) \<Longrightarrow>
      length xs = n \<and> (\<forall>x \<in> set xs. ok x) \<and> s = write_many wr xs @ r"
    by (induction n arbitrary: s xs r) (fastforce split: option.splits dest: rd_exact)+
qed (auto simp: read_write_many)

end

interpretation le_codec: exact_codec "le_bytes n" "read_le n" "\<lambda>k. k < 256 ^ n" for n
  by unfold_locales (auto simp: read_le_append dest: read_le_suffix)

interpretation bytes_codec: exact_codec "\<lambda>b. b" "read_bytes n" "\<lambda>b. length b = n" for n
  by unfold_locales (auto dest: read_bytes_suffix)

end
