(* ===== verification/Frames.thy ===== *)
theory Frames
  imports Codec Json_Parser
begin

text \<open>
  The framing of the command pipe, \<open>BrokerServerV21::SendFrame\<close> and \<open>ReadFrame\<close> of
  \<open>broker_server_v21.cpp\<close>: a four-byte length and then the payload, each moved by a loop because
  one \<open>WriteFile\<close> or \<open>ReadFile\<close> may move fewer bytes than asked.

  The pipe is a byte string and the operating system's choices are a schedule, one entry per
  call: \<open>None\<close> is a failing call, \<open>Some n\<close> one that moves \<open>n\<close> bytes, or fewer when fewer were
  asked for (or, for a read, are left). A schedule that ends is a connection that is gone.
\<close>

type_synonym io_schedule = "nat option list"

section \<open>The loops\<close>

fun write_loop :: "io_schedule \<Rightarrow> string \<Rightarrow> string \<Rightarrow> bool \<times> string \<times> io_schedule" where
  "write_loop io pipe [] = (True, pipe, io)"
| "write_loop [] pipe (c # cs) = (False, pipe, [])"
| "write_loop (None # io) pipe (c # cs) = (False, pipe, io)"
| "write_loop (Some n # io) pipe (c # cs) =
     (if n = 0 then (False, pipe, io)
      else write_loop io (pipe @ take n (c # cs)) (drop n (c # cs)))"

definition send_frame :: "io_schedule \<Rightarrow> string \<Rightarrow> string \<Rightarrow> bool \<times> string \<times> io_schedule" where
  "send_frame io pipe payload =
     (if kMaxPayloadBytes < length payload then (False, pipe, io)
      else (case write_loop io pipe (le_bytes 4 (length payload)) of
          (False, pipe', io') \<Rightarrow> (False, pipe', io')
        | (True, pipe', io') \<Rightarrow> write_loop io' pipe' payload))"

fun read_loop :: "io_schedule \<Rightarrow> string \<Rightarrow> nat \<Rightarrow> string \<Rightarrow> (string \<times> string \<times> io_schedule) option" where
  "read_loop io s 0 got = Some (got, s, io)"
| "read_loop [] s (Suc w) got = None"
| "read_loop (None # io) s (Suc w) got = None"
| "read_loop (Some n # io) s (Suc w) got =
     (let k = min n (min (Suc w) (length s)) in
      if k = 0 then None else read_loop io (drop k s) (Suc w - k) (got @ take k s))"

definition read_frame :: "io_schedule \<Rightarrow> string \<Rightarrow> (string \<times> string \<times> io_schedule) option" where
  "read_frame io s =
     (case read_loop io s 4 [] of None \<Rightarrow> None
      | Some (header, s', io') \<Rightarrow>
          (let len = le_nat header in
           if kMaxPayloadBytes < len then None else read_loop io' s' len []))"

section \<open>What a frame is\<close>

text \<open>The abstract format, with no schedule: the contract of the two routines.\<close>

definition frame_ok :: "string \<Rightarrow> bool" where
  "frame_ok p \<longleftrightarrow> length p \<le> kMaxPayloadBytes"

definition frame :: "string \<Rightarrow> string" where
  "frame p = le_bytes 4 (length p) @ p"

definition unframe :: "string \<Rightarrow> (string \<times> string) option" where
  "unframe s =
     (case read_le 4 s of None \<Rightarrow> None
      | Some (len, r) \<Rightarrow> if kMaxPayloadBytes < len then None else read_bytes len r)"

interpretation frames: exact_codec frame unframe frame_ok
proof
  show "frame_ok p \<Longrightarrow> unframe (frame p @ r) = Some (p, r)" for p r
    by (simp add: frame_ok_def frame_def unframe_def read_le_4 kMaxPayloadBytes_def)
  show "unframe s = Some (p, r) \<Longrightarrow> frame_ok p \<and> s = frame p @ r" for s p r
    by (auto simp: unframe_def frame_def frame_ok_def split: option.splits if_splits
        dest!: read_le_suffix read_bytes_suffix)
qed

text \<open>A schedule under which \<open>n\<close> calls all make progress.\<close>

definition live :: "nat \<Rightarrow> io_schedule \<Rightarrow> bool" where
  "live n io \<longleftrightarrow> n \<le> length io \<and> (\<forall>x \<in> set io. x \<noteq> None \<and> x \<noteq> Some 0)"

lemma live_Cons: "live (Suc n) (x # io) \<longleftrightarrow> (\<exists>k > 0. x = Some k) \<and> live n io"
  by (cases x) (auto simp: live_def)

lemma live_mono: "live n io \<Longrightarrow> m \<le> n \<Longrightarrow> live m io"
  by (simp add: live_def)

section \<open>Writing\<close>

lemma write_loop_prefix:
  "write_loop io pipe data = (ok, pipe', io') \<Longrightarrow>
     \<exists>d e. data = d @ e \<and> pipe' = pipe @ d \<and> (ok \<longleftrightarrow> e = [])"
proof (induction io pipe data rule: write_loop.induct)
  case (4 n io pipe c cs)
  show ?case
  proof (cases "n = 0")
    case False
    then obtain d e where "drop n (c # cs) = d @ e" "pipe' = (pipe @ take n (c # cs)) @ d" "ok \<longleftrightarrow> e = []"
      using "4.IH" "4.prems" by auto
    moreover from this have "c # cs = (take n (c # cs) @ d) @ e"
      using append_take_drop_id [of n "c # cs"] by simp
    ultimately show ?thesis by (intro exI [of _ "take n (c # cs) @ d"] exI [of _ e] conjI) auto
  qed (use "4.prems" in auto)
qed auto

lemma write_loop_live:
  "live (n + length data) io \<Longrightarrow> \<exists>io'. write_loop io pipe data = (True, pipe @ data, io') \<and> live n io'"
proof (induction io pipe data arbitrary: rule: write_loop.induct)
  case (4 k io pipe c cs)
  then have k: "0 < k" "live (n + length cs) io" by (simp_all add: live_Cons)
  have "live (n + length (drop k (c # cs))) io" by (rule live_mono [OF k(2)]) (use k(1) in simp)
  then show ?case using "4.IH" k(1) by auto
qed (auto simp: live_def)

lemma send_frame_prefix:
  assumes "send_frame io pipe p = (ok, pipe', io')"
  shows "\<exists>d e. frame p = d @ e \<and> pipe' = pipe @ d \<and> (ok \<longleftrightarrow> e = [])"
proof (cases "kMaxPayloadBytes < length p")
  case True
  then show ?thesis using assms by (auto simp: send_frame_def frame_def)
next
  case False
  obtain b pipe1 io1 where h: "write_loop io pipe (le_bytes 4 (length p)) = (b, pipe1, io1)"
    by (metis prod_cases3)
  obtain d e where hd: "le_bytes 4 (length p) = d @ e" "pipe1 = pipe @ d" "b \<longleftrightarrow> e = []"
    using write_loop_prefix [OF h] by blast
  show ?thesis
  proof (cases b)
    case True
    then have "write_loop io1 pipe1 p = (ok, pipe', io')"
      using assms h False by (simp add: send_frame_def)
    then obtain d' e' where "p = d' @ e'" "pipe' = pipe1 @ d'" "ok \<longleftrightarrow> e' = []"
      using write_loop_prefix by blast
    then show ?thesis using hd True
      by (intro exI [of _ "d @ d'"] exI [of _ e']) (simp add: frame_def)
  next
    case b: False
    then have "pipe' = pipe1" "ok = False" using assms h False by (simp_all add: send_frame_def)
    then show ?thesis using hd b by (intro exI [of _ d] exI [of _ "e @ p"]) (simp add: frame_def)
  qed
qed

lemma send_frame_ok: "send_frame io pipe p = (True, pipe', io') \<Longrightarrow> frame_ok p \<and> pipe' = pipe @ frame p"
  using send_frame_prefix [of io pipe p True pipe' io']
  by (auto simp: send_frame_def frame_ok_def split: if_splits)

lemma send_frame_live:
  assumes "frame_ok p" "live (n + 4 + length p) io"
  shows "\<exists>io'. send_frame io pipe p = (True, pipe @ frame p, io') \<and> live n io'"
proof -
  have "live ((n + length p) + length (le_bytes 4 (length p))) io"
    using assms(2) by (simp add: ac_simps)
  then obtain io1 where 1: "write_loop io pipe (le_bytes 4 (length p)) = (True, pipe @ le_bytes 4 (length p), io1)"
    "live (n + length p) io1"
    using write_loop_live by blast
  then show ?thesis
    using write_loop_live [OF 1(2), of "pipe @ le_bytes 4 (length p)"] assms(1)
    by (auto simp: send_frame_def frame_ok_def frame_def)
qed

section \<open>Reading\<close>

lemma read_loop_sound:
  "read_loop io s w got = Some (b, r, io') \<Longrightarrow> \<exists>d. b = got @ d \<and> length d = w \<and> s = d @ r"
proof (induction io s w got rule: read_loop.induct)
  case (4 n io s w got)
  let ?k = "min n (min (Suc w) (length s))"
  have k: "?k \<noteq> 0" and loop: "read_loop io (drop ?k s) (Suc w - ?k) (got @ take ?k s) = Some (b, r, io')"
    using "4.prems" by (simp_all only: read_loop.simps Let_def split: if_splits) simp_all
  obtain d where d: "b = (got @ take ?k s) @ d" "length d = Suc w - ?k" "drop ?k s = d @ r"
    using "4.IH" [OF refl k loop] by blast
  have "s = take ?k s @ d @ r" using d(3) append_take_drop_id [of ?k s] by simp
  moreover have "length (take ?k s @ d) = Suc w" using d(2) k by simp
  ultimately show ?case using d(1) by (intro exI [of _ "take ?k s @ d"]) simp
qed simp_all

lemma read_loop_live:
  "live (n + w) io \<Longrightarrow> length d = w \<Longrightarrow> \<exists>io'. read_loop io (d @ r) w got = Some (got @ d, r, io') \<and> live n io'"
proof (induction io "d @ r" w got arbitrary: d rule: read_loop.induct)
  case (4 k io w got)
  let ?k = "min k (min (Suc w) (length (d @ r)))"
  have k: "0 < k" "live (n + w) io" using "4.prems"(1) by (simp_all add: live_Cons)
  have kd: "?k \<noteq> 0" "?k \<le> length d" "?k \<le> Suc w" using k(1) "4.prems"(2) by auto
  have "\<exists>io'. read_loop io (drop ?k d @ r) (Suc w - ?k) (got @ take ?k (d @ r)) =
      Some ((got @ take ?k (d @ r)) @ drop ?k d, r, io') \<and> live n io'"
    using kd "4.prems"(2) k(2) by (intro "4.hyps") (auto intro: live_mono)
  then show ?case using kd by (simp add: Let_def)
qed (simp_all add: live_def)

lemma read_frame_sound: "read_frame io s = Some (p, r, io') \<Longrightarrow> unframe s = Some (p, r)"
proof -
  assume "read_frame io s = Some (p, r, io')"
  then obtain header s1 io1 where h: "read_loop io s 4 [] = Some (header, s1, io1)"
    and len: "le_nat header \<le> kMaxPayloadBytes" and b: "read_loop io1 s1 (le_nat header) [] = Some (p, r, io')"
    by (auto simp: read_frame_def Let_def split: option.splits if_splits)
  have "s = header @ s1" "length header = 4" using read_loop_sound [OF h] by auto
  moreover have "s1 = p @ r" "length p = le_nat header" using read_loop_sound [OF b] by auto
  ultimately show ?thesis using len by (simp add: unframe_def read_le_def)
qed

lemma read_frame_live:
  assumes "frame_ok p" "live (n + 4 + length p) io"
  shows "\<exists>io'. read_frame io (frame p @ r) = Some (p, r, io') \<and> live n io'"
proof -
  have "live ((n + length p) + 4) io" using assms(2) by (simp add: ac_simps)
  then obtain io1 where h: "read_loop io (le_bytes 4 (length p) @ p @ r) 4 [] = Some (le_bytes 4 (length p), p @ r, io1)"
    "live (n + length p) io1"
    using read_loop_live [of "n + length p" 4 io "le_bytes 4 (length p)" "p @ r" "[]"] by auto
  have "le_nat (le_bytes 4 (length p)) = length p"
    using assms(1) by (intro le_nat_bytes) (simp add: frame_ok_def kMaxPayloadBytes_def)
  then show ?thesis
    using h read_loop_live [OF h(2), of p r "[]"] assms(1)
    by (auto simp: read_frame_def frame_def frame_ok_def Let_def)
qed

section \<open>A connection that carries several frames\<close>

fun send_frames :: "io_schedule \<Rightarrow> string \<Rightarrow> string list \<Rightarrow> nat \<times> string" where
  "send_frames io pipe [] = (0, pipe)"
| "send_frames io pipe (p # ps) =
     (case send_frame io pipe p of
        (False, pipe', io') \<Rightarrow> (0, pipe')
      | (True, pipe', io') \<Rightarrow> (let (n, pipe'') = send_frames io' pipe' ps in (Suc n, pipe'')))"

fun read_frames :: "nat \<Rightarrow> io_schedule \<Rightarrow> string \<Rightarrow> string list option" where
  "read_frames 0 io s = Some []"
| "read_frames (Suc n) io s =
     (case read_frame io s of None \<Rightarrow> None
      | Some (p, r, io') \<Rightarrow> map_option ((#) p) (read_frames n io' r))"

lemma unframe_prefix: "frame p = d @ e \<Longrightarrow> e \<noteq> [] \<Longrightarrow> frame_ok p \<Longrightarrow> unframe d = None"
proof (rule ccontr)
  assume f: "frame p = d @ e" and e: "e \<noteq> []" and ok: "frame_ok p" and "unframe d \<noteq> None"
  then obtain q r where q: "frame_ok q" "d = frame q @ r" using frames.rd_exact by fastforce
  then have "frame p @ [] = frame q @ (r @ e)" using f by simp
  then have "r @ e = []" using frames.wr_split [OF ok q(1)] by blast
  then show False using e by simp
qed

text \<open>A send that fails leaves bytes from which no frame can be read.\<close>

lemma send_frame_fail:
  assumes "send_frame io pipe p = (False, pipe', io')"
  shows "\<exists>d. pipe' = pipe @ d \<and> unframe d = None"
proof -
  obtain d e where d: "frame p = d @ e" "pipe' = pipe @ d" "e \<noteq> []"
    using send_frame_prefix [OF assms] by auto
  show ?thesis
  proof (cases "frame_ok p")
    case True
    then show ?thesis using d unframe_prefix by blast
  next
    case False
    then have "pipe' = pipe @ []" using assms by (auto simp: send_frame_def frame_ok_def split: if_splits)
    moreover have "unframe [] = None" by (simp add: unframe_def read_le_def read_bytes_def)
    ultimately show ?thesis by blast
  qed
qed

lemma send_frames_stream:
  "send_frames io pipe ps = (n, pipe') \<Longrightarrow>
     n \<le> length ps \<and> (\<forall>p \<in> set (take n ps). frame_ok p) \<and>
     (\<exists>d. pipe' = pipe @ write_many frame (take n ps) @ d \<and> unframe d = None)"
proof (induction ps arbitrary: io pipe n pipe')
  case Nil
  then show ?case by (auto simp: unframe_def read_le_def read_bytes_def)
next
  case (Cons p ps)
  obtain ok pipe1 io1 where s: "send_frame io pipe p = (ok, pipe1, io1)" by (metis prod_cases3)
  show ?case
  proof (cases ok)
    case True
    obtain m where m: "n = Suc m" "send_frames io1 pipe1 ps = (m, pipe')"
      using Cons.prems s True by (auto split: prod.splits)
    have "frame_ok p" "pipe1 = pipe @ frame p" using send_frame_ok [of io pipe p pipe1 io1] s True by simp_all
    then show ?thesis using Cons.IH [OF m(2)] m(1) by auto
  next
    case False
    then have n: "n = 0" "pipe' = pipe1" using Cons.prems s by auto
    then show ?thesis using n send_frame_fail [of io pipe p pipe1 io1] s False by simp
  qed
qed

lemma read_frames_stream:
  assumes "\<forall>p \<in> set ps. frame_ok p" "unframe d = None"
  shows "read_frames n io (write_many frame ps @ d) = Some qs \<Longrightarrow> n \<le> length ps \<and> qs = take n ps"
  using assms(1)
proof (induction ps arbitrary: n io qs)
  case Nil
  then show ?case using assms(2)
    by (cases n) (auto split: option.splits dest: read_frame_sound)
next
  case (Cons p ps)
  show ?case
  proof (cases n)
    case (Suc m)
    obtain q r io' qs' where r: "read_frame io (frame p @ write_many frame ps @ d) = Some (q, r, io')"
      "read_frames m io' r = Some qs'" "qs = q # qs'"
      using Cons.prems(1) Suc by (auto split: option.splits)
    have "q = p" "r = write_many frame ps @ d"
      using read_frame_sound [OF r(1)] frames.rd_wr [of p "write_many frame ps @ d"] Cons.prems(2) by auto
    then show ?thesis using Cons.IH [of m io' qs'] r(2,3) Cons.prems(2) Suc by simp
  qed (use Cons.prems in simp)
qed

section \<open>Properties\<close>

text \<open>
  The two ends of a pipe agree. Whatever the sizes of the pieces in which the system moves the bytes,
  and wherever the connection breaks: the payloads the reader has received are the first ones the sender was
  given, in order and unaltered, and no more of them than the sender managed to send completely.
\<close>

theorem received_is_prefix_of_sent:
  assumes "send_frames wio [] ps = (m, pipe)" "read_frames n rio pipe = Some qs"
  shows "n \<le> m \<and> m \<le> length ps \<and> qs = take n ps"
proof -
  obtain d where d: "m \<le> length ps" "\<forall>p \<in> set (take m ps). frame_ok p"
    "pipe = write_many frame (take m ps) @ d" "unframe d = None"
    using send_frames_stream [OF assms(1)] by auto
  then have "n \<le> length (take m ps) \<and> qs = take n (take m ps)"
    using assms(2) by (intro read_frames_stream) simp_all
  then show ?thesis using d(1) by (simp add: min_def split: if_splits)
qed

lemma received_is_prefix_of_sent_witness:
  "send_frames [Some 3, Some 9, Some 2, Some 4, Some 1, None] [] [''hi'', ''you''] = (1, frame ''hi'' @ le_bytes 4 3 @ ''y'') \<and>
   read_frames 1 [Some 1, Some 3, Some 1, Some 1] (frame ''hi'' @ le_bytes 4 3 @ ''y'') = Some [''hi''] \<and>
   [''hi''] = take 1 [''hi'', ''you'']"
proof -
  have k: "\<not> kMaxPayloadBytes < Suc (Suc 0)" "\<not> kMaxPayloadBytes < Suc (Suc (Suc 0))"
    by (simp_all add: kMaxPayloadBytes_def)
  have h: "le_bytes 4 (Suc (Suc 0)) = [CHR 0x02, CHR 0x00, CHR 0x00, CHR 0x00]"
    "le_bytes 4 (Suc (Suc (Suc 0))) = [CHR 0x03, CHR 0x00, CHR 0x00, CHR 0x00]"
    "le_bytes 4 3 = [CHR 0x03, CHR 0x00, CHR 0x00, CHR 0x00]"
    "le_nat [CHR 0x02, CHR 0x00, CHR 0x00, CHR 0x00] = Suc (Suc 0)" by code_simp+
  have h4: "read_loop [Some (Suc 0), Some 3, Some (Suc 0), Some (Suc 0)] [CHR 0x02, CHR 0x00, CHR 0x00, CHR 0x00, CHR ''h'', CHR ''i'', CHR 0x03, CHR 0x00, CHR 0x00, CHR 0x00, CHR ''y''] 4 [] =
      Some ([CHR 0x02, CHR 0x00, CHR 0x00, CHR 0x00], [CHR ''h'', CHR ''i'', CHR 0x03, CHR 0x00, CHR 0x00, CHR 0x00, CHR ''y''], [Some (Suc 0), Some (Suc 0)])"
    by code_simp
  have s: "send_frames [Some 3, Some 9, Some 2, Some 4, Some 1, None] [] [''hi'', ''you''] = (1, frame ''hi'' @ le_bytes 4 3 @ ''y'')"
    by (simp add: send_frame_def frame_def k h)
  have r: "read_frames 1 [Some 1, Some 3, Some 1, Some 1] (frame ''hi'' @ le_bytes 4 3 @ ''y'') = Some [''hi'']"
    by (simp add: read_frame_def frame_def k h h4 Let_def)
  show ?thesis using received_is_prefix_of_sent [OF s r] s r by blast
qed

text \<open>
  C39. A frame gets through: when the payload is at most one mebibyte and every call of the sender and of the
  reader moves at least one byte, \<open>SendFrame\<close> succeeds and \<open>ReadFrame\<close> returns the payload and leaves the
  bytes after it; a larger payload is refused before any byte is written, and a larger announced length is
  refused before any byte of the payload is read.
\<close>

theorem frame_gets_through:
  "(length p \<le> kMaxPayloadBytes \<and> live (4 + length p) wio \<and> live (4 + length p) rio \<longrightarrow>
      (\<exists>wio' rio'. send_frame wio [] p = (True, frame p, wio') \<and> read_frame rio (frame p @ rest) = Some (p, rest, rio'))) \<and>
   (kMaxPayloadBytes < length p \<longrightarrow> send_frame wio pipe p = (False, pipe, wio)) \<and>
   (kMaxPayloadBytes < len \<and> len < 2 ^ 32 \<longrightarrow> read_frame rio (le_bytes 4 len @ rest) = None)"
proof (intro conjI impI)
  assume a: "length p \<le> kMaxPayloadBytes \<and> live (4 + length p) wio \<and> live (4 + length p) rio"
  then have "frame_ok p" "live (0 + 4 + length p) wio" "live (0 + 4 + length p) rio" by (simp_all add: frame_ok_def)
  then show "\<exists>wio' rio'. send_frame wio [] p = (True, frame p, wio') \<and> read_frame rio (frame p @ rest) = Some (p, rest, rio')"
    using send_frame_live [of p 0 wio "[]"] read_frame_live [of p 0 rio rest] by auto
next
  assume len: "kMaxPayloadBytes < len \<and> len < 2 ^ 32"
  show "read_frame rio (le_bytes 4 len @ rest) = None"
  proof (cases "read_frame rio (le_bytes 4 len @ rest)")
    case (Some x)
    obtain q r io where x: "x = (q, r, io)" by (metis prod_cases3)
    then have "unframe (le_bytes 4 len @ rest) = Some (q, r)" using read_frame_sound Some by blast
    then show ?thesis using len by (simp add: unframe_def read_le_4 split: if_splits)
  qed
qed (simp add: send_frame_def)

lemma frame_gets_through_witness:
  "\<exists>wio' rio'. send_frame (replicate 9 (Some 1)) [] ''hello'' = (True, frame ''hello'', wio') \<and>
     read_frame (replicate 9 (Some 4)) (frame ''hello'' @ ''next'') = Some (''hello'', ''next'', rio')"
  using frame_gets_through [of "''hello''" "replicate 9 (Some 1)" "replicate 9 (Some 4)" "''next''" "[]" 0]
  by (simp add: live_def kMaxPayloadBytes_def)

end
