(* ===== verification/Client_Session.thy ===== *)
theory Client_Session
  imports Protocol Frames "HOL-Library.Sublist"
begin

text \<open>
  One client of the broker (\<open>broker_server_v21.cpp\<close>): the bounded queue of event frames that
  publishers fill (\<open>ClientSendState\<close>, the callback given to \<open>RegisterClient\<close>) and the session
  thread that owns the pipe (\<open>ClientSessionLoop\<close>). The loop and the publishers share only the
  queue, each access under its mutex, so a run is an interleaving of loop iterations and
  enqueue operations. \<open>HandleRequest\<close> is an argument of the iteration, with the event frames it
  publishes to this client before it returns.
\<close>

section \<open>The event queue\<close>

definition kMaxQueuedEventFrames :: nat where
  "kMaxQueuedEventFrames = 128"

definition kMaxQueuedEventBytes :: nat where
  "kMaxQueuedEventBytes = 2 * kMaxPayloadBytes"

record send_state =
  event_queue :: "string list"
  queued_event_bytes :: nat
  active :: bool

definition new_send_state :: send_state where
  "new_send_state = \<lparr>event_queue = [], queued_event_bytes = 0, active = True\<rparr>"

definition deactivate :: "send_state \<Rightarrow> send_state" where
  "deactivate st = st\<lparr>active := False, event_queue := [], queued_event_bytes := 0\<rparr>"

definition try_pop :: "send_state \<Rightarrow> (string \<times> send_state) option" where
  "try_pop st =
     (if \<not> active st then None
      else case event_queue st of [] \<Rightarrow> None
        | serialized # q \<Rightarrow>
            Some (serialized, st\<lparr>event_queue := q,
                    queued_event_bytes := queued_event_bytes st - length serialized\<rparr>))"

text \<open>The callback of \<open>RegisterClient\<close>; the flag is \<open>overflow\<close>.\<close>

definition enqueue_event :: "string \<Rightarrow> send_state \<Rightarrow> bool \<times> send_state" where
  "enqueue_event serialized st =
     (if \<not> active st then (False, st)
      else
        let frame_limit = kMaxQueuedEventFrames \<le> length (event_queue st);
            oversized = kMaxPayloadBytes < length serialized;
            byte_limit = kMaxQueuedEventBytes < length serialized \<or>
              kMaxQueuedEventBytes - min (length serialized) kMaxQueuedEventBytes < queued_event_bytes st
        in if frame_limit \<or> oversized \<or> byte_limit
           then (True, st\<lparr>active := False, event_queue := [], queued_event_bytes := 0\<rparr>)
           else (False, st\<lparr>queued_event_bytes := queued_event_bytes st + length serialized,
                           event_queue := event_queue st @ [serialized]\<rparr>))"

definition queue_ok :: "send_state \<Rightarrow> bool" where
  "queue_ok st \<longleftrightarrow>
     queued_event_bytes st = sum_list (map length (event_queue st)) \<and>
     queued_event_bytes st \<le> kMaxQueuedEventBytes \<and>
     length (event_queue st) \<le> kMaxQueuedEventFrames \<and>
     (\<forall>s \<in> set (event_queue st). frame_ok s) \<and>
     (\<not> active st \<longrightarrow> event_queue st = [])"

lemma queue_ok_new [wf_intros]: "queue_ok new_send_state"
  by (simp add: queue_ok_def new_send_state_def)

lemma queue_ok_deactivate [wf_intros]: "queue_ok (deactivate st)"
  by (simp add: queue_ok_def deactivate_def)

lemma queue_ok_pop: "queue_ok st \<Longrightarrow> try_pop st = Some (s, st') \<Longrightarrow> queue_ok st'"
  by (auto simp: queue_ok_def try_pop_def split: if_splits list.splits)

lemma queue_ok_enqueue [wf_intros]: "queue_ok st \<Longrightarrow> queue_ok (snd (enqueue_event s st))"
  by (auto simp: queue_ok_def enqueue_event_def Let_def frame_ok_def not_less not_le min_def split: if_splits)

text \<open>The subtraction of \<open>TryPopQueuedEvent\<close> never goes below zero.\<close>

lemma pop_no_underflow:
  "queue_ok st \<Longrightarrow> try_pop st = Some (s, st') \<Longrightarrow>
     length s \<le> queued_event_bytes st \<and> event_queue st = s # event_queue st' \<and> active st'"
  by (auto simp: queue_ok_def try_pop_def split: if_splits list.splits)

lemma enqueue_result:
  "active st \<Longrightarrow> enqueue_event s st = (False, st') \<Longrightarrow> active st' \<and> event_queue st' = event_queue st @ [s]"
  by (auto simp: enqueue_event_def Let_def split: if_splits)

section \<open>The session loop\<close>

text \<open>What a peek at the pipe tells the loop.\<close>

datatype inbound_probe = ProbeNone | HeaderReady | Disconnected

type_synonym handler = "broker_request \<Rightarrow> broker_response \<times> string list"

datatype out_frame = EventFrame (frame_payload: string) | ResponseFrame (frame_payload: string)

text \<open>
  The session: the shared queue, the two directions of the pipe with their schedules, whether
  the loop has been left, and two histories that no decision reads: the frames written
  completely and the event frames the queue accepted.
\<close>

record session =
  send_st :: send_state
  inbound :: string
  outbound :: string
  in_io :: io_schedule
  out_io :: io_schedule
  finished :: bool
  sent :: "out_frame list"
  accepted :: "string list"

definition new_session :: "string \<Rightarrow> io_schedule \<Rightarrow> io_schedule \<Rightarrow> session" where
  "new_session bytes rio wio =
     \<lparr>send_st = new_send_state, inbound = bytes, outbound = [], in_io = rio, out_io = wio,
      finished = False, sent = [], accepted = []\<rparr>"

definition publish_to :: "string \<Rightarrow> session \<Rightarrow> session" where
  "publish_to s ss =
     (let (overflow, st') = enqueue_event s (send_st ss) in
      ss\<lparr>send_st := st',
         accepted := (if active (send_st ss) \<and> \<not> overflow then accepted ss @ [s] else accepted ss)\<rparr>)"

text \<open>What follows the loop: the client is unregistered and its queue deactivated.\<close>

definition leave_loop :: "session \<Rightarrow> session" where
  "leave_loop ss = ss\<lparr>send_st := deactivate (send_st ss), finished := True\<rparr>"

text \<open>\<open>SendFrame\<close> on the session's pipe; the loop is left when it fails.\<close>

definition send_or_leave :: "out_frame \<Rightarrow> session \<Rightarrow> session" where
  "send_or_leave f ss =
     (case send_frame (out_io ss) (outbound ss) (frame_payload f) of
        (False, pipe, io) \<Rightarrow> leave_loop (ss\<lparr>outbound := pipe, out_io := io\<rparr>)
      | (True, pipe, io) \<Rightarrow> ss\<lparr>outbound := pipe, out_io := io, sent := sent ss @ [f]\<rparr>)"

definition invalid_response :: "string \<Rightarrow> broker_response" where
  "invalid_response parse_err =
     \<lparr>res_protocol = kProtocolVersion, res_id = ''unknown'', res_ok = False, res_payload = [],
      res_error_code = ''invalid_request'', res_error_message = parse_err\<rparr>"

definition answer :: "handler \<Rightarrow> string \<Rightarrow> broker_response \<times> string list" where
  "answer handle_request frm =
     (case parse_request frm of
        Inl parse_err \<Rightarrow> (invalid_response parse_err, [])
      | Inr req \<Rightarrow> handle_request req)"

definition handle_frame :: "handler \<Rightarrow> session \<Rightarrow> session" where
  "handle_frame handle_request ss =
     (case read_frame (in_io ss) (inbound ss) of
        None \<Rightarrow> leave_loop ss
      | Some (frm, rest, io) \<Rightarrow>
          (let (res, events) = answer handle_request frm;
               ss1 = fold publish_to events (ss\<lparr>inbound := rest, in_io := io\<rparr>)
           in send_or_leave (ResponseFrame (serialize_response res)) ss1))"

text \<open>One iteration of the \<open>while\<close> loop.\<close>

definition iterate :: "bool \<Rightarrow> inbound_probe \<Rightarrow> handler \<Rightarrow> session \<Rightarrow> session" where
  "iterate running probe handle_request ss =
     (if finished ss then ss
      else if \<not> running then leave_loop ss
      else if \<not> active (send_st ss) then leave_loop ss
      else case try_pop (send_st ss) of
        Some (ev, st') \<Rightarrow> send_or_leave (EventFrame ev) (ss\<lparr>send_st := st'\<rparr>)
      | None \<Rightarrow>
          (case probe of
             Disconnected \<Rightarrow> leave_loop ss
           | ProbeNone \<Rightarrow> ss
           | HeaderReady \<Rightarrow> handle_frame handle_request ss))"

text \<open>Runs: any interleaving of the loop with publishers.\<close>

inductive session_step :: "session \<Rightarrow> session \<Rightarrow> bool" where
  step_iterate: "session_step ss (iterate running probe handle_request ss)"
| step_publish: "session_step ss (publish_to s ss)"

inductive session_run :: "session \<Rightarrow> session \<Rightarrow> bool" where
  run_refl: "session_run ss ss"
| run_step: "session_run ss ss' \<Longrightarrow> session_step ss' ss'' \<Longrightarrow> session_run ss ss''"

inductive_simps session_step_iff: "session_step ss ss'"
inductive_cases session_runE: "session_run ss ss'"

section \<open>Invariant of a session\<close>

fun events_of :: "out_frame list \<Rightarrow> string list" where
  "events_of [] = []"
| "events_of (EventFrame s # fs) = s # events_of fs"
| "events_of (ResponseFrame s # fs) = events_of fs"

lemma events_of_append [simp]: "events_of (xs @ ys) = events_of xs @ events_of ys"
  by (induction xs rule: events_of.induct) simp_all

definition session_ok :: "session \<Rightarrow> bool" where
  "session_ok ss \<longleftrightarrow>
     queue_ok (send_st ss) \<and>
     (\<forall>f \<in> set (sent ss). frame_ok (frame_payload f)) \<and>
     (\<exists>d. outbound ss = write_many frame (map frame_payload (sent ss)) @ d \<and> unframe d = None \<and>
          (\<not> finished ss \<longrightarrow> d = [])) \<and>
     (\<exists>lost. accepted ss = events_of (sent ss) @ event_queue (send_st ss) @ lost \<and>
          (active (send_st ss) \<longrightarrow> lost = []))"

lemma unframe_Nil [simp]: "unframe [] = None"
  by (simp add: unframe_def read_le_def read_bytes_def)

lemma session_ok_new [wf_intros]: "session_ok (new_session bytes rio wio)"
  by (simp add: session_ok_def new_session_def queue_ok_new) (simp add: new_send_state_def)

lemma session_ok_publish [wf_intros]: "session_ok ss \<Longrightarrow> session_ok (publish_to s ss)"
proof -
  assume ok: "session_ok ss"
  obtain b st' where e: "enqueue_event s (send_st ss) = (b, st')" by fastforce
  have "queue_ok st'" using queue_ok_enqueue [of "send_st ss" s] ok e by (simp add: session_ok_def)
  then show ?thesis
    using ok e enqueue_result [of "send_st ss" s st']
    by (auto simp: session_ok_def publish_to_def enqueue_event_def Let_def split: if_splits)
qed

lemma publish_to_frame [simp]:
  "inbound (publish_to s ss) = inbound ss" "in_io (publish_to s ss) = in_io ss"
  "outbound (publish_to s ss) = outbound ss" "out_io (publish_to s ss) = out_io ss"
  "finished (publish_to s ss) = finished ss" "sent (publish_to s ss) = sent ss"
  by (simp_all add: publish_to_def split: prod.splits)

lemma fold_publish_frame [simp]:
  "outbound (fold publish_to es ss) = outbound ss" "out_io (fold publish_to es ss) = out_io ss"
  "finished (fold publish_to es ss) = finished ss" "sent (fold publish_to es ss) = sent ss"
  by (induction es arbitrary: ss) simp_all

lemma session_ok_fold_publish [wf_intros]: "session_ok ss \<Longrightarrow> session_ok (fold publish_to es ss)"
  by (induction es arbitrary: ss) (simp_all add: session_ok_publish)

lemma session_ok_leave [wf_intros]: "session_ok ss \<Longrightarrow> session_ok (leave_loop ss)"
  by (auto simp: session_ok_def leave_loop_def queue_ok_deactivate) (auto simp: deactivate_def)

text \<open>Sending a frame whose event, if it is one, was already taken from the queue.\<close>

lemma session_ok_send:
  assumes q: "queue_ok (send_st ss)" and fin: "\<not> finished ss"
    and fr: "\<forall>f \<in> set (sent ss). frame_ok (frame_payload f)"
    and out: "outbound ss = write_many frame (map frame_payload (sent ss))"
    and acc: "accepted ss = events_of (sent ss @ [f]) @ event_queue (send_st ss) @ lost"
      "active (send_st ss) \<longrightarrow> lost = []"
  shows "session_ok (send_or_leave f ss)"
proof -
  obtain b pipe io where s: "send_frame (out_io ss) (outbound ss) (frame_payload f) = (b, pipe, io)"
    by (metis prod_cases3)
  show ?thesis
  proof (cases b)
    case True
    then have "frame_ok (frame_payload f) \<and> pipe = outbound ss @ frame (frame_payload f)"
      using send_frame_ok [of "out_io ss" "outbound ss" "frame_payload f" pipe io] s by simp
    then show ?thesis using True s q fin fr out acc by (auto simp: send_or_leave_def session_ok_def)
  next
    case False
    then obtain d where "pipe = outbound ss @ d" "unframe d = None"
      using send_frame_fail [of "out_io ss" "outbound ss" "frame_payload f" pipe io] s by auto
    then show ?thesis using False s fr out acc
      by (auto simp: send_or_leave_def session_ok_def leave_loop_def queue_ok_deactivate)
         (auto simp: deactivate_def)
  qed
qed

lemma session_ok_open:
  assumes "session_ok ss" "\<not> finished ss"
  obtains lost where "queue_ok (send_st ss)" "\<forall>f \<in> set (sent ss). frame_ok (frame_payload f)"
    "outbound ss = write_many frame (map frame_payload (sent ss))"
    "accepted ss = events_of (sent ss) @ event_queue (send_st ss) @ lost"
    "active (send_st ss) \<longrightarrow> lost = []"
  using assms by (auto simp: session_ok_def)

lemma session_ok_handle:
  assumes "session_ok ss" "\<not> finished ss"
  shows "session_ok (handle_frame h ss)"
proof (cases "read_frame (in_io ss) (inbound ss)")
  case None
  then show ?thesis using assms(1) by (simp add: handle_frame_def session_ok_leave)
next
  case (Some x)
  obtain frm rest io where x: "x = (frm, rest, io)" by (metis prod_cases3)
  obtain res es where a: "answer h frm = (res, es)" by fastforce
  let ?s = "fold publish_to es (ss\<lparr>inbound := rest, in_io := io\<rparr>)"
  have "session_ok (ss\<lparr>inbound := rest, in_io := io\<rparr>)" using assms(1) by (simp add: session_ok_def)
  then have "session_ok ?s" by (rule session_ok_fold_publish)
  moreover have "\<not> finished ?s" using assms(2) by simp
  ultimately obtain lost where "queue_ok (send_st ?s)" "\<forall>f \<in> set (sent ?s). frame_ok (frame_payload f)"
    "outbound ?s = write_many frame (map frame_payload (sent ?s))"
    "accepted ?s = events_of (sent ?s) @ event_queue (send_st ?s) @ lost"
    "active (send_st ?s) \<longrightarrow> lost = []" by (rule session_ok_open)
  then have "session_ok (send_or_leave (ResponseFrame (serialize_response res)) ?s)"
    using \<open>\<not> finished ?s\<close> by (intro session_ok_send) simp_all
  then show ?thesis using Some x a by (simp add: handle_frame_def Let_def)
qed

lemma session_ok_iterate: "session_ok ss \<Longrightarrow> session_ok (iterate running probe h ss)"
proof -
  assume ok: "session_ok ss"
  show ?thesis
  proof (cases "\<not> finished ss \<and> running \<and> active (send_st ss)")
    case False
    then show ?thesis using ok by (auto simp: iterate_def session_ok_leave)
  next
    case True
    then obtain lost where o: "queue_ok (send_st ss)" "\<forall>f \<in> set (sent ss). frame_ok (frame_payload f)"
      "outbound ss = write_many frame (map frame_payload (sent ss))"
      "accepted ss = events_of (sent ss) @ event_queue (send_st ss) @ lost"
      "active (send_st ss) \<longrightarrow> lost = []" using session_ok_open ok by blast
    show ?thesis
    proof (cases "try_pop (send_st ss)")
      case None
      then show ?thesis using True ok
        by (auto simp: iterate_def session_ok_leave session_ok_handle split: inbound_probe.split)
    next
      case (Some x)
      obtain ev st' where x: "x = (ev, st')" by fastforce
      note pop = pop_no_underflow [OF o(1) Some [unfolded x]]
      have "session_ok (send_or_leave (EventFrame ev) (ss\<lparr>send_st := st'\<rparr>))"
        using True o pop queue_ok_pop [OF o(1) Some [unfolded x]] by (intro session_ok_send) simp_all
      then show ?thesis using True Some x by (simp add: iterate_def)
    qed
  qed
qed

lemma session_run_ok: "session_run ss ss' \<Longrightarrow> session_ok ss \<Longrightarrow> session_ok ss'"
  by (induction rule: session_run.induct)
     (auto simp: session_step_iff session_ok_iterate session_ok_publish)

section \<open>Draining the queue\<close>

fun iterate_many :: "nat \<Rightarrow> handler \<Rightarrow> session \<Rightarrow> session" where
  "iterate_many 0 h ss = ss"
| "iterate_many (Suc n) h ss = iterate_many n h (iterate True ProbeNone h ss)"

text \<open>Iterations while the pipe makes progress and nothing arrives write every queued event, in order.\<close>

lemma drain_queue:
  assumes "session_ok ss" "\<not> finished ss" "active (send_st ss)" "event_queue (send_st ss) = q"
    and "live (sum_list (map (\<lambda>s. 4 + length s) q)) (out_io ss)"
  shows "sent (iterate_many (length q) h ss) = sent ss @ map EventFrame q \<and>
    event_queue (send_st (iterate_many (length q) h ss)) = []"
  using assms
proof (induction q arbitrary: ss)
  case (Cons s q)
  have q: "queue_ok (send_st ss)" using Cons.prems(1) by (simp add: session_ok_def)
  obtain st' where pop: "try_pop (send_st ss) = Some (s, st')"
    using Cons.prems(3,4) by (simp add: try_pop_def)
  have st': "event_queue st' = q" "active st'" using pop_no_underflow [OF q pop] Cons.prems(4) by auto
  have "frame_ok s" using q Cons.prems(4) by (simp add: queue_ok_def)
  then obtain io' where s: "send_frame (out_io ss) (outbound ss) s = (True, outbound ss @ frame s, io')"
    "live (sum_list (map (\<lambda>s. 4 + length s) q)) io'"
    using send_frame_live [of s "sum_list (map (\<lambda>s. 4 + length s) q)" "out_io ss" "outbound ss"] Cons.prems(5)
    by (auto simp: ac_simps)
  let ?n = "iterate True ProbeNone h ss"
  have n: "?n = ss\<lparr>send_st := st', outbound := outbound ss @ frame s, out_io := io', sent := sent ss @ [EventFrame s]\<rparr>"
    using Cons.prems pop s(1) by (simp add: iterate_def send_or_leave_def)
  have "sent (iterate_many (length q) h ?n) = sent ?n @ map EventFrame q \<and>
      event_queue (send_st (iterate_many (length q) h ?n)) = []"
    using Cons.prems st' s(2) session_ok_iterate [OF Cons.prems(1), of True ProbeNone h]
    by (intro Cons.IH) (simp_all add: n)
  then show ?case by (simp add: n)
qed simp

section \<open>Publishing several events\<close>

lemma inbound_fold_publish [simp]: "inbound (fold publish_to es ss) = inbound ss"
  by (induction es arbitrary: ss) simp_all

lemma send_st_publish: "send_st (publish_to s ss) = snd (enqueue_event s (send_st ss))"
  by (simp add: publish_to_def split: prod.split)

lemma inactive_fold_publish: "\<not> active (send_st ss) \<Longrightarrow> \<not> active (send_st (fold publish_to es ss))"
  by (induction es arbitrary: ss) (simp_all add: send_st_publish enqueue_event_def)

lemma queue_fold_publish:
  "active (send_st (fold publish_to es ss)) \<Longrightarrow>
     event_queue (send_st (fold publish_to es ss)) = event_queue (send_st ss) @ es"
proof (induction es arbitrary: ss)
  case (Cons e es)
  obtain b st' where e: "enqueue_event e (send_st ss) = (b, st')" by fastforce
  have st: "send_st (publish_to e ss) = st'" by (simp add: send_st_publish e)
  have "active st'" using Cons.prems inactive_fold_publish [of "publish_to e ss" es] by (auto simp: st)
  then have "event_queue st' = event_queue (send_st ss) @ [e]"
    using e by (auto simp: enqueue_event_def Let_def split: if_splits)
  then show ?case using Cons.IH [of "publish_to e ss"] Cons.prems by (simp add: st)
qed simp

text \<open>One iteration on a request that has arrived.\<close>

lemma answer_once:
  assumes "\<not> finished ss" "active (send_st ss)" "event_queue (send_st ss) = []"
    and "read_frame (in_io ss) (inbound ss) = Some (frm, rest, io)"
    and "answer h frm = (res, es)" "frame_ok (serialize_response res)"
    and "live (4 + length (serialize_response res)) (out_io ss)"
  shows "sent (iterate True HeaderReady h ss) = sent ss @ [ResponseFrame (serialize_response res)] \<and>
    outbound (iterate True HeaderReady h ss) = outbound ss @ frame (serialize_response res) \<and>
    inbound (iterate True HeaderReady h ss) = rest \<and> \<not> finished (iterate True HeaderReady h ss) \<and>
    (\<forall>e. parse_request frm = Inl e \<longrightarrow> res = invalid_response e \<and> es = []) \<and>
    (\<forall>req. parse_request frm = Inr req \<longrightarrow> (res, es) = h req) \<and>
    (active (send_st (iterate True HeaderReady h ss)) \<longrightarrow> event_queue (send_st (iterate True HeaderReady h ss)) = es)"
proof -
  let ?s = "fold publish_to es (ss\<lparr>inbound := rest, in_io := io\<rparr>)"
  obtain io' where s: "send_frame (out_io ss) (outbound ss) (serialize_response res) =
      (True, outbound ss @ frame (serialize_response res), io')"
    using send_frame_live [of "serialize_response res" 0 "out_io ss" "outbound ss"] assms(6,7) by auto
  have it: "iterate True HeaderReady h ss = send_or_leave (ResponseFrame (serialize_response res)) ?s"
    using assms(1-5) by (simp add: iterate_def try_pop_def handle_frame_def Let_def)
  have "send_or_leave (ResponseFrame (serialize_response res)) ?s = ?s\<lparr>outbound := outbound ss @ frame (serialize_response res),
      out_io := io', sent := sent ss @ [ResponseFrame (serialize_response res)]\<rparr>"
    using s by (simp add: send_or_leave_def)
  then show ?thesis
    unfolding it using assms(1,3,5) queue_fold_publish [of es "ss\<lparr>inbound := rest, in_io := io\<rparr>"]
    by (auto simp: answer_def split: sum.splits)
qed

section \<open>Properties\<close>

text \<open>
  However publishers and the session thread interleave, a client's queue holds at most 128 frames and two
  mebibytes, its byte counter is exact, each frame fits the protocol, and a deactivated queue is empty.
\<close>

theorem session_queue_bounded:
  assumes "session_run (new_session bytes rio wio) ss"
  shows "length (event_queue (send_st ss)) \<le> 128 \<and> queued_event_bytes (send_st ss) \<le> 2 * 1048576 \<and>
    queued_event_bytes (send_st ss) = sum_list (map length (event_queue (send_st ss))) \<and>
    (\<forall>s \<in> set (event_queue (send_st ss)). length s \<le> 1048576) \<and>
    (\<not> active (send_st ss) \<longrightarrow> event_queue (send_st ss) = [])"
proof -
  have "session_ok ss" using assms by (rule session_run_ok) (rule session_ok_new)
  then show ?thesis
    by (auto simp: session_ok_def queue_ok_def frame_ok_def kMaxQueuedEventFrames_def kMaxQueuedEventBytes_def
        kMaxPayloadBytes_def)
qed

lemma session_queue_bounded_witness:
  "length (event_queue (send_st (publish_to ''e'' (new_session [] [] [])))) \<le> 128"
proof -
  have "session_run (new_session [] [] []) (publish_to ''e'' (new_session [] [] []))"
    by (rule run_step [OF run_refl step_publish])
  from session_queue_bounded [OF this] show ?thesis by blast
qed

text \<open>
  C3. What the client receives, however its reads are cut and whenever it looks: the payloads are the first
  of those the session sent, in order, and the event frames among them are the first of those its queue
  accepted, in the order of publication, each as it was published. While the client is active nothing accepted is lost: it was sent
  or waits in the queue. The queue of the code does not merge events of one type, although the documents of the broker say so.
\<close>

theorem client_receives_in_order:
  assumes "session_run (new_session bytes rio wio) ss" "read_frames n io (outbound ss) = Some qs"
  shows "(\<exists>fs. prefix fs (sent ss) \<and> qs = map frame_payload fs \<and> prefix (events_of fs) (accepted ss)) \<and>
    (active (send_st ss) \<longrightarrow> accepted ss = events_of (sent ss) @ event_queue (send_st ss))"
proof -
  have ok: "session_ok ss" using assms(1) by (rule session_run_ok) (rule session_ok_new)
  then obtain d lost where d: "outbound ss = write_many frame (map frame_payload (sent ss)) @ d" "unframe d = None"
    and a: "accepted ss = events_of (sent ss) @ event_queue (send_st ss) @ lost" "active (send_st ss) \<longrightarrow> lost = []"
    and f: "\<forall>f \<in> set (sent ss). frame_ok (frame_payload f)"
    by (auto simp: session_ok_def)
  have "n \<le> length (map frame_payload (sent ss)) \<and> qs = take n (map frame_payload (sent ss))"
    using f d(2) assms(2) unfolding d(1) by (intro read_frames_stream [where d = d]) auto
  moreover have "prefix (events_of (take n (sent ss))) (accepted ss)"
  proof -
    have "events_of (sent ss) = events_of (take n (sent ss)) @ events_of (drop n (sent ss))"
      by (metis append_take_drop_id events_of_append)
    then show ?thesis by (simp add: a(1))
  qed
  ultimately show ?thesis using a take_is_prefix by (auto simp: take_map)
qed

definition busy_session :: session where
  "busy_session =
     (let h = (\<lambda>req. (invalid_response [], [])); ss = new_session [] [] [Some 3, Some 9, Some 1, Some 4, Some 1]
      in publish_to ''c'' (iterate True ProbeNone h (iterate True ProbeNone h (publish_to ''b'' (publish_to ''a'' ss)))))"

lemma busy_session_run: "session_run (new_session [] [] [Some 3, Some 9, Some 1, Some 4, Some 1]) busy_session"
  unfolding busy_session_def Let_def
  by (intro run_step [OF _ step_publish] run_step [OF _ step_iterate] run_refl)

lemma busy_session_values:
  "outbound busy_session = frame ''a'' @ frame ''b''" "active (send_st busy_session)" "event_queue (send_st busy_session) = [''c'']"
proof -
  have "le_bytes 4 (Suc 0) = [CHR 0x01, CHR 0x00, CHR 0x00, CHR 0x00]" by code_simp
  then show "outbound busy_session = frame ''a'' @ frame ''b''" "active (send_st busy_session)" "event_queue (send_st busy_session) = [''c'']"
    by (simp_all add: busy_session_def Let_def new_session_def new_send_state_def publish_to_def enqueue_event_def iterate_def try_pop_def
        send_or_leave_def send_frame_def frame_def kMaxQueuedEventFrames_def kMaxQueuedEventBytes_def kMaxPayloadBytes_def)
qed

lemma busy_session_read: "read_frames 2 [Some 1, Some 3, Some 1, Some 4, Some 1] (outbound busy_session) = Some [''a'', ''b'']"
proof -
  have h: "le_bytes 4 (Suc 0) = [CHR 0x01, CHR 0x00, CHR 0x00, CHR 0x00]" "le_nat [CHR 0x01, CHR 0x00, CHR 0x00, CHR 0x00] = Suc 0"
    by code_simp+
  have l: "read_loop [Some (Suc 0), Some 3, Some (Suc 0), Some 4, Some (Suc 0)]
        [CHR 0x01, CHR 0x00, CHR 0x00, CHR 0x00, CHR ''a'', CHR 0x01, CHR 0x00, CHR 0x00, CHR 0x00, CHR ''b''] 4 [] =
      Some ([CHR 0x01, CHR 0x00, CHR 0x00, CHR 0x00], [CHR ''a'', CHR 0x01, CHR 0x00, CHR 0x00, CHR 0x00, CHR ''b''], [Some (Suc 0), Some 4, Some (Suc 0)])"
    "read_loop [Some 4, Some (Suc 0)] [CHR 0x01, CHR 0x00, CHR 0x00, CHR 0x00, CHR ''b''] 4 [] =
      Some ([CHR 0x01, CHR 0x00, CHR 0x00, CHR 0x00], [CHR ''b''], [Some (Suc 0)])"
    by code_simp+
  show ?thesis
    by (simp add: busy_session_values(1) numeral_2_eq_2 read_frame_def frame_def kMaxPayloadBytes_def h l Let_def)
qed

text \<open>Two events are sent in pieces, a third waits; the client reads two frames in other pieces.\<close>

lemma client_receives_in_order_witness:
  "(\<exists>fs. prefix fs (sent busy_session) \<and> [''a'', ''b''] = map frame_payload fs \<and> prefix (events_of fs) (accepted busy_session)) \<and>
    accepted busy_session = events_of (sent busy_session) @ [''c'']"
  using client_receives_in_order [OF busy_session_run busy_session_read] busy_session_values(2,3) by metis

text \<open>
  One request, one response. When the queue is empty, a frame has arrived and the pipe moves, an iteration
  writes exactly one frame: the handler's response to the request, or the response \<open>invalid_request\<close> with
  the id \<open>unknown\<close> and the parser's message when the frame is not a request; the session goes on, and the
  events the handler published to this client come after the response.
\<close>

theorem request_answered_once:
  assumes "\<not> finished ss" "active (send_st ss)" "event_queue (send_st ss) = []"
    and "read_frame (in_io ss) (inbound ss) = Some (frm, rest, io)"
    and "answer h frm = (res, es)" "frame_ok (serialize_response res)"
    and "live (4 + length (serialize_response res)) (out_io ss)"
  shows "sent (iterate True HeaderReady h ss) = sent ss @ [ResponseFrame (serialize_response res)] \<and>
    outbound (iterate True HeaderReady h ss) = outbound ss @ frame (serialize_response res) \<and>
    inbound (iterate True HeaderReady h ss) = rest \<and> \<not> finished (iterate True HeaderReady h ss) \<and>
    (\<forall>e. parse_request frm = Inl e \<longrightarrow> res = invalid_response e \<and> es = []) \<and>
    (\<forall>req. parse_request frm = Inr req \<longrightarrow> (res, es) = h req) \<and>
    (active (send_st (iterate True HeaderReady h ss)) \<longrightarrow> event_queue (send_st (iterate True HeaderReady h ss)) = es)"
  using assms by (rule answer_once)

lemma request_answered_once_witness:
  "let ss = new_session (frame []) [Some 4] (replicate 200 (Some 200));
       res = invalid_response ''Malformed JSON or root is not an object''
   in sent (iterate True HeaderReady (\<lambda>req. (invalid_response [], [])) ss) = [ResponseFrame (serialize_response res)]"
proof -
  let ?ss = "new_session (frame []) [Some 4] (replicate 200 (Some 200))"
  let ?res = "invalid_response ''Malformed JSON or root is not an object''"
  have l: "length (serialize_response ?res) = 159" by code_simp
  have p: "parse_request [] = Inl ''Malformed JSON or root is not an object''"
    by (simp add: parse_request_def parse_envelope_def parse_json_def)
  have le: "le_bytes 4 0 = [CHR 0x00, CHR 0x00, CHR 0x00, CHR 0x00]" by code_simp
  have rl: "read_loop [Some 4] [CHR 0x00, CHR 0x00, CHR 0x00, CHR 0x00] 4 [] = Some ([CHR 0x00, CHR 0x00, CHR 0x00, CHR 0x00], [], [])"
    by code_simp
  have r: "read_frame [Some 4] (frame []) = Some ([], [], [])"
    by (simp add: read_frame_def frame_def le rl Let_def)
  have "read_frame (in_io ?ss) (inbound ?ss) = Some ([], [], [])" by (simp add: new_session_def r)
  moreover have "answer (\<lambda>req. (invalid_response [], [])) [] = (?res, [])" by (simp add: answer_def p)
  moreover have "frame_ok (serialize_response ?res)" by (simp add: frame_ok_def l kMaxPayloadBytes_def)
  moreover have "live (4 + length (serialize_response ?res)) (out_io ?ss)"
    by (simp add: l live_def new_session_def)
  moreover have "\<not> finished ?ss" "active (send_st ?ss)" "event_queue (send_st ?ss) = []" "sent ?ss = []"
    by (simp_all add: new_session_def new_send_state_def)
  ultimately show ?thesis
    using request_answered_once [of ?ss "[]" "[]" "[]" "\<lambda>req. (invalid_response [], [])" ?res "[]"]
    unfolding Let_def by (metis append_Nil)
qed

text \<open>
  A slow client is cut off rather than served with gaps: an event that does not fit - 128 frames queued,
  more than a mebibyte itself, or more than two mebibytes together - discards the queue and deactivates the
  client, and the session's next iteration ends it; any other event is queued behind the others.
\<close>

theorem overflow_disconnects:
  assumes "active (send_st ss)" "queue_ok (send_st ss)"
  shows "if length (event_queue (send_st ss)) \<ge> 128 \<or> length s > 1048576 \<or>
            sum_list (map length (event_queue (send_st ss))) + length s > 2 * 1048576
    then event_queue (send_st (publish_to s ss)) = [] \<and> finished (iterate running probe h (publish_to s ss)) \<and>
         accepted (publish_to s ss) = accepted ss
    else active (send_st (publish_to s ss)) \<and> event_queue (send_st (publish_to s ss)) = event_queue (send_st ss) @ [s] \<and>
         accepted (publish_to s ss) = accepted ss @ [s]"
  using assms
  by (auto simp: publish_to_def enqueue_event_def Let_def queue_ok_def iterate_def leave_loop_def
      kMaxQueuedEventFrames_def kMaxQueuedEventBytes_def kMaxPayloadBytes_def)

lemma overflow_disconnects_witness:
  "let ss = new_session [] [] []; s = ''e''
   in active (send_st (publish_to s ss)) \<and> accepted (publish_to s ss) = [s]"
proof -
  have ss: "active (send_st (new_session [] [] []))" "queue_ok (send_st (new_session [] [] []))"
    "event_queue (send_st (new_session [] [] [])) = []" "accepted (new_session [] [] []) = []"
    using queue_ok_new by (simp_all add: new_session_def new_send_state_def)
  show ?thesis
    using overflow_disconnects [OF ss(1,2), of "''e''" True ProbeNone "\<lambda>req. (invalid_response [], [])"] ss(3,4)
    by (simp add: Let_def)
qed

text \<open>
  Queued events are delivered: as long as nothing arrives, the client stays and each write moves at least
  one byte, as many iterations as there are queued events write them all, in order, and empty the queue.
\<close>

theorem queue_drains:
  assumes "session_run (new_session bytes rio wio) ss" "\<not> finished ss" "active (send_st ss)"
    and "live (sum_list (map (\<lambda>s. 4 + length s) (event_queue (send_st ss)))) (out_io ss)"
  shows "sent (iterate_many (length (event_queue (send_st ss))) h ss) =
      sent ss @ map EventFrame (event_queue (send_st ss)) \<and>
    event_queue (send_st (iterate_many (length (event_queue (send_st ss))) h ss)) = []"
proof -
  have "session_ok ss" using assms(1) by (rule session_run_ok) (rule session_ok_new)
  then show ?thesis using assms(2-4) by (intro drain_queue) simp_all
qed

lemma queue_drains_witness:
  "let ss = publish_to ''b'' (publish_to ''a'' (new_session [] [] (replicate 20 (Some 3))))
   in sent (iterate_many 2 (\<lambda>req. (invalid_response [], [])) ss) = [EventFrame ''a'', EventFrame ''b'']"
proof -
  let ?s0 = "new_session [] [] (replicate 20 (Some 3))"
  let ?ss = "publish_to ''b'' (publish_to ''a'' ?s0)"
  have run: "session_run ?s0 ?ss"
    by (rule run_step [OF run_step [OF run_refl step_publish] step_publish])
  have st: "event_queue (send_st ?ss) = [''a'', ''b'']" "active (send_st ?ss)" "\<not> finished ?ss" "sent ?ss = []"
    "out_io ?ss = replicate 20 (Some 3)"
    by (simp_all add: send_st_publish enqueue_event_def Let_def new_session_def new_send_state_def
        kMaxQueuedEventFrames_def kMaxQueuedEventBytes_def kMaxPayloadBytes_def)
  have "live (sum_list (map (\<lambda>s. 4 + length s) (event_queue (send_st ?ss)))) (out_io ?ss)"
    by (simp add: st(1) live_def) (simp add: new_session_def)
  from queue_drains [OF run st(3,2) this, of "\<lambda>req. (invalid_response [], [])"] show ?thesis
    by (simp add: st Let_def numeral_2_eq_2) (simp add: new_session_def)
qed

end
