(* ===== verification/Event_Bus.thy ===== *)
theory Event_Bus
  imports Protocol "HOL-Library.AList" "HOL-Library.Multiset" "HOL-Library.Sublist"
begin

text \<open>
  The event bus of \<open>event_bus_v21.cpp\<close>. A sender is a callback, known to the model by the
  identity \<open>'c\<close> of what it calls, and \<open>None\<close> is an empty \<open>std::function\<close>. The two
  \<open>std::unordered_map\<close>s are association lists; the order in which \<open>Publish\<close> visits them is
  unspecified, so it is an argument. A \<open>std::set\<close> of patterns is a \<open>std::map\<close> to \<open>unit\<close>.
  Every operation holds the mutex throughout, so an operation is one step.
\<close>

section \<open>State and operations\<close>

record 'c event_bus =
  client_senders :: "(string \<times> 'c option) list"
  client_subscriptions :: "(string \<times> (string \<times> unit) list) list"

definition empty_bus :: "'c event_bus" where
  "empty_bus = \<lparr>client_senders = [], client_subscriptions = []\<rparr>"

definition matches_pattern :: "string \<Rightarrow> string \<Rightarrow> bool" where
  "matches_pattern pattern event_name =
     (if pattern = ''*'' \<or> pattern = event_name then True
      else if 2 < length pattern \<and> last pattern = CHR ''*'' then
        (let prefix = take (length pattern - 1) pattern in take (length prefix) event_name = prefix)
      else False)"

definition register_client :: "string \<Rightarrow> 'c option \<Rightarrow> 'c event_bus \<Rightarrow> 'c event_bus" where
  "register_client client_id sender bus =
     bus\<lparr>client_senders := AList.update client_id sender (client_senders bus)\<rparr>"

definition unregister_client :: "string \<Rightarrow> 'c event_bus \<Rightarrow> 'c event_bus" where
  "unregister_client client_id bus =
     bus\<lparr>client_senders := AList.delete client_id (client_senders bus),
         client_subscriptions := AList.delete client_id (client_subscriptions bus)\<rparr>"

definition subscribe :: "string \<Rightarrow> string \<Rightarrow> 'c event_bus \<Rightarrow> bool \<times> 'c event_bus" where
  "subscribe client_id pattern bus =
     (case map_of (client_senders bus) client_id of
        None \<Rightarrow> (False, bus)
      | Some _ \<Rightarrow>
          (let patterns = (case map_of (client_subscriptions bus) client_id of None \<Rightarrow> [] | Some ps \<Rightarrow> ps)
           in (True, bus\<lparr>client_subscriptions :=
                 AList.update client_id (map_put pattern () patterns) (client_subscriptions bus)\<rparr>)))"

definition unsubscribe :: "string \<Rightarrow> string \<Rightarrow> 'c event_bus \<Rightarrow> bool \<times> 'c event_bus" where
  "unsubscribe client_id pattern bus =
     (case map_of (client_subscriptions bus) client_id of
        Some patterns \<Rightarrow>
          (True, bus\<lparr>client_subscriptions :=
             AList.update client_id (filter (\<lambda>(p, _). p \<noteq> pattern) patterns) (client_subscriptions bus)\<rparr>)
      | None \<Rightarrow> (False, bus))"

definition reset_bus :: "'c event_bus \<Rightarrow> 'c event_bus" where
  "reset_bus bus = bus\<lparr>client_senders := [], client_subscriptions := []\<rparr>"

text \<open>The loop over one client's patterns, left at the first match.\<close>

fun any_match :: "(string \<times> unit) list \<Rightarrow> string \<Rightarrow> bool" where
  "any_match [] event_name = False"
| "any_match ((pattern, _) # ps) event_name =
     (if matches_pattern pattern event_name then True else any_match ps event_name)"

text \<open>
  The loop of \<open>Publish\<close> over \<open>client_subscriptions_\<close>, in the order \<open>order\<close> of its keys, and the
  calls made once the mutex is released.
\<close>

fun matched_senders :: "'c event_bus \<Rightarrow> string \<Rightarrow> string list \<Rightarrow> 'c list" where
  "matched_senders bus event_name [] = []"
| "matched_senders bus event_name (client_id # order) =
     (case map_of (client_subscriptions bus) client_id of
        None \<Rightarrow> matched_senders bus event_name order
      | Some patterns \<Rightarrow>
          if any_match patterns event_name then
            (case map_of (client_senders bus) client_id of
               Some (Some sender) \<Rightarrow> sender # matched_senders bus event_name order
             | _ \<Rightarrow> matched_senders bus event_name order)
          else matched_senders bus event_name order)"

definition publish :: "u64 \<Rightarrow> string list \<Rightarrow> string \<Rightarrow> json_object \<Rightarrow> 'c event_bus \<Rightarrow> ('c \<times> broker_event) list" where
  "publish now order event_name payload bus =
     (let ev = \<lparr>ev_protocol = kProtocolVersion, ev_event = event_name, ev_payload = payload,
                ev_timestamp_ms = now\<rparr>
      in map (\<lambda>sender. (sender, ev)) (matched_senders bus event_name order))"

fun subscriber_count_loop :: "(string \<times> (string \<times> unit) list) list \<Rightarrow> string \<Rightarrow> nat" where
  "subscriber_count_loop [] event_name = 0"
| "subscriber_count_loop ((client_id, patterns) # subs) event_name =
     (if any_match patterns event_name then 1 else 0) + subscriber_count_loop subs event_name"

definition subscriber_count :: "string \<Rightarrow> 'c event_bus \<Rightarrow> nat" where
  "subscriber_count event_name bus = subscriber_count_loop (client_subscriptions bus) event_name"

definition active_client_count :: "'c event_bus \<Rightarrow> nat" where
  "active_client_count bus = length (client_senders bus)"

section \<open>Histories of the bus\<close>

datatype 'c bus_op =
    Register string "'c option"
  | Unregister string
  | Subscribe string string
  | Unsubscribe string string
  | Reset

fun bus_exec :: "'c bus_op \<Rightarrow> 'c event_bus \<Rightarrow> 'c event_bus" where
  "bus_exec (Register c s) bus = register_client c s bus"
| "bus_exec (Unregister c) bus = unregister_client c bus"
| "bus_exec (Subscribe c p) bus = snd (subscribe c p bus)"
| "bus_exec (Unsubscribe c p) bus = snd (unsubscribe c p bus)"
| "bus_exec Reset bus = reset_bus bus"

definition bus_run :: "'c bus_op list \<Rightarrow> 'c event_bus" where
  "bus_run ops = foldl (\<lambda>bus op. bus_exec op bus) empty_bus ops"

definition bus_ok :: "'c event_bus \<Rightarrow> bool" where
  "bus_ok bus \<longleftrightarrow> distinct (map fst (client_senders bus)) \<and> distinct (map fst (client_subscriptions bus)) \<and>
     fst ` set (client_subscriptions bus) \<subseteq> fst ` set (client_senders bus) \<and>
     (\<forall>(c, ps) \<in> set (client_subscriptions bus). map_ok ps)"

lemmas bus_defs [state_defs] = register_client_def unregister_client_def subscribe_def unsubscribe_def
  reset_bus_def empty_bus_def

lemma map_ok_filter [wf_intros]: "map_ok kvs \<Longrightarrow> map_ok (filter P kvs)"
  by (induction kvs) (auto simp: map_ok_Cons)

lemma set_AList_update: "set (AList.update k v kvs) \<subseteq> insert (k, v) (set kvs)"
  by (induction kvs) auto

lemma keys_AList_update: "fst ` set (AList.update k v kvs) = insert k (fst ` set kvs)"
  by (simp add: dom_map_of_conv_image_fst [symmetric] update_conv')

lemma set_AList_delete: "set (AList.delete k kvs) \<subseteq> set kvs"
  by (induction kvs) auto

lemma keys_AList_delete: "fst ` set (AList.delete k kvs) = fst ` set kvs - {k}"
  using delete_keys [of k kvs] by (metis list.set_map set_removeAll)

lemma bus_exec_ok: "bus_ok bus \<Longrightarrow> bus_ok (bus_exec op bus)"
proof (cases op)
  case (Subscribe c p)
  assume ok: "bus_ok bus"
  have "map_ok ps" if "map_of (client_subscriptions bus) c = Some ps" for ps
    using ok that by (auto simp: bus_ok_def dest: map_of_SomeD)
  then have "map_ok (map_put p () (case map_of (client_subscriptions bus) c of None \<Rightarrow> [] | Some ps \<Rightarrow> ps))"
    by (auto split: option.splits intro: map_ok_put simp: map_ok_Cons)
  moreover have "c \<in> fst ` set (client_senders bus)" if "map_of (client_senders bus) c = Some s" for s
    using that by (metis domI dom_map_of_conv_image_fst)
  ultimately show ?thesis
    using ok Subscribe
    by (auto simp: bus_ok_def subscribe_def keys_AList_update distinct_update split: option.splits
        dest!: subsetD [OF set_AList_update] intro: map_ok_put)
next
  case (Unsubscribe c p)
  assume ok: "bus_ok bus"
  have "map_ok (filter P ps)" if "map_of (client_subscriptions bus) c = Some ps" for P ps
    using ok that by (auto simp: bus_ok_def intro!: map_ok_filter dest: map_of_SomeD)
  moreover have "c \<in> fst ` set (client_subscriptions bus)" if "map_of (client_subscriptions bus) c = Some ps" for ps
    using that by (metis domI dom_map_of_conv_image_fst)
  ultimately show ?thesis
    using ok Unsubscribe
    by (auto simp: bus_ok_def unsubscribe_def keys_AList_update distinct_update split: option.splits
        dest!: subsetD [OF set_AList_update])
qed (auto simp: bus_ok_def bus_defs keys_AList_update keys_AList_delete distinct_update distinct_delete
    dest: subsetD [OF set_AList_delete])

lemma bus_run_ok: "bus_ok (bus_run ops)"
proof -
  have "bus_ok bus \<Longrightarrow> bus_ok (foldl (\<lambda>bus op. bus_exec op bus) bus ops)" for bus
    by (induction ops arbitrary: bus) (auto intro: bus_exec_ok)
  moreover have "bus_ok empty_bus" by (simp add: bus_ok_def empty_bus_def)
  ultimately show ?thesis by (simp add: bus_run_def)
qed

section \<open>Delivery\<close>

lemma any_match_iff: "any_match ps e \<longleftrightarrow> (\<exists>p \<in> fst ` set ps. matches_pattern p e)"
  by (induction ps e rule: any_match.induct) auto

definition wants :: "'c event_bus \<Rightarrow> string \<Rightarrow> string \<Rightarrow> bool" where
  "wants bus event_name c \<longleftrightarrow>
     (\<exists>ps. map_of (client_subscriptions bus) c = Some ps \<and> any_match ps event_name)"

lemma matched_senders_map:
  "matched_senders bus e order =
     map (\<lambda>c. the (the (map_of (client_senders bus) c)))
       (filter (\<lambda>c. wants bus e c \<and> (\<exists>s. map_of (client_senders bus) c = Some (Some s))) order)"
  by (induction order) (auto simp: wants_def split: option.splits)

lemma subscriber_count_filter:
  "distinct (map fst (client_subscriptions bus)) \<Longrightarrow>
     subscriber_count e bus = card {c. wants bus e c}"
proof -
  assume d: "distinct (map fst (client_subscriptions bus))"
  have loop: "subscriber_count_loop subs e = length (filter (\<lambda>(c, ps). any_match ps e) subs)" for subs
    by (induction subs e rule: subscriber_count_loop.induct) auto
  let ?f = "filter (\<lambda>(c, ps). any_match ps e) (client_subscriptions bus)"
  have df: "distinct (map fst ?f)" using d by (rule distinct_map_filter)
  have "{c. wants bus e c} = fst ` set ?f"
    using d by (force simp: wants_def)
  then have "card {c. wants bus e c} = length ?f"
    using df by (metis distinct_card length_map list.set_map)
  then show ?thesis by (simp add: subscriber_count_def loop)
qed

section \<open>What the bus promises\<close>

text \<open>
  The abstract bus: for each registered client its sender and the set of its patterns. An operation changes
  only the client it names.
\<close>

type_synonym 'c bus_view = "string \<Rightarrow> ('c option \<times> string set) option"

fun spec_exec :: "'c bus_op \<Rightarrow> 'c bus_view \<Rightarrow> 'c bus_view" where
  "spec_exec (Register c s) A = A(c := Some (s, case A c of None \<Rightarrow> {} | Some (_, P) \<Rightarrow> P))"
| "spec_exec (Unregister c) A = A(c := None)"
| "spec_exec (Subscribe c p) A = (case A c of None \<Rightarrow> A | Some (s, P) \<Rightarrow> A(c := Some (s, insert p P)))"
| "spec_exec (Unsubscribe c p) A = (case A c of None \<Rightarrow> A | Some (s, P) \<Rightarrow> A(c := Some (s, P - {p})))"
| "spec_exec Reset A = (\<lambda>_. None)"

definition spec_run :: "'c bus_op list \<Rightarrow> 'c bus_view" where
  "spec_run ops = foldl (\<lambda>A op. spec_exec op A) (\<lambda>_. None) ops"

definition patterns_of :: "'c event_bus \<Rightarrow> string \<Rightarrow> string set" where
  "patterns_of bus c = (case map_of (client_subscriptions bus) c of None \<Rightarrow> {} | Some ps \<Rightarrow> fst ` set ps)"

definition bus_view :: "'c event_bus \<Rightarrow> 'c bus_view" where
  "bus_view bus c = map_option (\<lambda>s. (s, patterns_of bus c)) (map_of (client_senders bus) c)"

lemma map_of_update: "map_of (AList.update k v kvs) c = (if c = k then Some v else map_of kvs c)"
  by (simp add: update_conv')

lemma map_of_delete: "map_of (AList.delete k kvs) c = (if c = k then None else map_of kvs c)"
  by (simp add: delete_conv')

lemma unknown_client: "bus_ok bus \<Longrightarrow> map_of (client_senders bus) c = None \<Longrightarrow> map_of (client_subscriptions bus) c = None"
  by (auto simp: bus_ok_def map_of_eq_None_iff)

lemma bus_view_exec: "bus_ok bus \<Longrightarrow> bus_view (bus_exec op bus) = spec_exec op (bus_view bus)"
proof (rule ext)
  fix c assume ok: "bus_ok bus"
  show "bus_view (bus_exec op bus) c = spec_exec op (bus_view bus) c"
  proof (cases op)
    case (Register d s)
    then show ?thesis using unknown_client [OF ok, of d]
      by (auto simp: bus_view_def patterns_of_def register_client_def map_of_update split: option.split)
  next
    case (Unsubscribe d p)
    then show ?thesis using unknown_client [OF ok, of d]
      by (auto simp: bus_view_def patterns_of_def unsubscribe_def map_of_update split: option.split)
  qed (auto simp: bus_view_def patterns_of_def bus_defs map_of_update map_of_delete fst_set_map_put
      split: option.split)
qed

lemma bus_view_run: "bus_view (bus_run ops) = spec_run (ops :: 'c bus_op list)"
proof -
  have "bus_ok bus \<Longrightarrow> bus_view (foldl (\<lambda>bus op. bus_exec op bus) bus ops) =
      foldl (\<lambda>A op. spec_exec op A) (bus_view bus) ops" for bus :: "'c event_bus"
    by (induction ops arbitrary: bus) (simp_all add: bus_exec_ok bus_view_exec)
  moreover have "bus_ok (empty_bus :: 'c event_bus)" "bus_view (empty_bus :: 'c event_bus) = (\<lambda>_. None)"
    by (auto simp: bus_ok_def empty_bus_def bus_view_def)
  ultimately show ?thesis by (simp add: bus_run_def spec_run_def)
qed

text \<open>Who is to receive an event, in the abstract bus.\<close>

definition recipients :: "'c bus_view \<Rightarrow> string \<Rightarrow> string set" where
  "recipients A e = {c. \<exists>s P. A c = Some (Some s, P) \<and> (\<exists>p \<in> P. matches_pattern p e)}"

lemma recipients_view:
  assumes "bus_ok bus" "set order = fst ` set (client_subscriptions bus)"
  shows "recipients (bus_view bus) e =
    set (filter (\<lambda>c. wants bus e c \<and> (\<exists>s. map_of (client_senders bus) c = Some (Some s))) order)"
proof -
  have "map_of (client_subscriptions bus) c = Some ps \<Longrightarrow> c \<in> set order" for c ps
    using assms(2) by (force dest: map_of_SomeD)
  then show ?thesis
    by (auto simp: recipients_def bus_view_def patterns_of_def wants_def any_match_iff split: option.splits)
qed

lemma wants_registered: "bus_ok bus \<Longrightarrow> {c. wants bus e c} \<subseteq> fst ` set (client_senders bus)"
proof
  fix c assume ok: "bus_ok bus" and "c \<in> {c. wants bus e c}"
  then obtain ps where "map_of (client_subscriptions bus) c = Some ps" by (auto simp: wants_def)
  then have "c \<in> fst ` set (client_subscriptions bus)" by (force dest: map_of_SomeD)
  then show "c \<in> fst ` set (client_senders bus)" using ok by (auto simp: bus_ok_def)
qed

text \<open>The calls of one \<open>Publish\<close>, in any order of the hash map.\<close>

lemma mset_publish:
  assumes "distinct order" "set order = fst ` set (client_subscriptions (bus_run ops))"
  shows "mset (publish now order e p (bus_run ops)) =
    image_mset (\<lambda>c. (the (fst (the (spec_run ops c))),
        \<lparr>ev_protocol = kProtocolVersion, ev_event = e, ev_payload = p, ev_timestamp_ms = now\<rparr>))
      (mset_set (recipients (spec_run ops) e))"
proof -
  let ?bus = "bus_run ops"
  let ?f = "\<lambda>c. wants ?bus e c \<and> (\<exists>s. map_of (client_senders ?bus) c = Some (Some s))"
  let ?ev = "\<lparr>ev_protocol = kProtocolVersion, ev_event = e, ev_payload = p, ev_timestamp_ms = now\<rparr>"
  have r: "recipients (spec_run ops) e = set (filter ?f order)"
    using recipients_view [OF bus_run_ok assms(2)] by (simp add: bus_view_run)
  have v: "the (fst (the (spec_run ops c))) = the (the (map_of (client_senders ?bus) c))" if "?f c" for c
    using that by (auto simp: bus_view_run [symmetric] bus_view_def)
  have "mset (publish now order e p ?bus) =
      image_mset (\<lambda>c. (the (the (map_of (client_senders ?bus) c)), ?ev)) (mset (filter ?f order))"
    by (simp add: publish_def matched_senders_map Let_def image_mset.compositionality comp_def)
  also have "\<dots> = image_mset (\<lambda>c. (the (fst (the (spec_run ops c))), ?ev)) (mset (filter ?f order))"
    by (rule image_mset_cong) (use v in auto)
  finally show ?thesis
    unfolding r by (simp only: mset_set_set [OF distinct_filter [OF assms(1)]])
qed

section \<open>Properties\<close>

text \<open>
  A pattern matches an event when it is the single star, the event's name itself, or a prefix of at
  least two bytes followed by a star; a one-byte prefix with a star, such as \<open>a*\<close>, matches only its own name.
\<close>

theorem pattern_semantics:
  "matches_pattern pattern e \<longleftrightarrow>
     pattern = ''*'' \<or> pattern = e \<or> (\<exists>q. 2 \<le> length q \<and> pattern = q @ ''*'' \<and> prefix q e)"
proof (cases pattern rule: rev_cases)
  case (snoc q c)
  have "take (length q) e = q \<longleftrightarrow> prefix q e"
    by (metis append_eq_conv_conj append_take_drop_id prefix_def)
  then show ?thesis using snoc by (auto simp: matches_pattern_def Let_def)
qed (simp add: matches_pattern_def)

text \<open>
  C31. The two maps of the bus behave as one: after any history of registrations, subscriptions and their
  reverses the bus shows, for every client, exactly the sender and the patterns of the abstract bus; no
  subscription outlives its client, and never more clients are counted as subscribers than are active.
\<close>

theorem bus_refines_spec:
  "bus_view (bus_run ops) = spec_run ops \<and> bus_ok (bus_run ops) \<and>
   subscriber_count e (bus_run ops) \<le> active_client_count (bus_run ops)"
proof -
  have ok: "bus_ok (bus_run ops)" by (rule bus_run_ok)
  have "subscriber_count e (bus_run ops) = card {c. wants (bus_run ops) e c}"
    using ok by (intro subscriber_count_filter) (simp add: bus_ok_def)
  also have "\<dots> \<le> card (fst ` set (client_senders (bus_run ops)))"
    by (rule card_mono [OF _ wants_registered [OF ok]]) simp
  also have "\<dots> \<le> active_client_count (bus_run ops)"
    unfolding active_client_count_def by (metis card_length length_map list.set_map)
  finally show ?thesis using ok bus_view_run by blast
qed

text \<open>
  C32. A published event goes exactly once to each client that has a sender and a matching pattern, whatever
  the order in which the hash map is visited and however many of the client's patterns match, and to no one
  else; everyone gets the same event.
\<close>

theorem publish_exactly_once:
  assumes "distinct order" "set order = fst ` set (client_subscriptions (bus_run ops))"
  shows "mset (publish now order e p (bus_run ops)) =
    image_mset (\<lambda>c. (the (fst (the (spec_run ops c))),
        \<lparr>ev_protocol = kProtocolVersion, ev_event = e, ev_payload = p, ev_timestamp_ms = now\<rparr>))
      (mset_set (recipients (spec_run ops) e))"
  using assms by (rule mset_publish)

lemma publish_exactly_once_witness:
  "let ops = [Register ''a'' (Some (7 :: nat)), Register ''b'' (Some 2), Subscribe ''a'' ''job.*'', Subscribe ''a'' ''*'',
              Subscribe ''b'' ''clip.*'', Subscribe ''c'' ''*'']
   in mset (map fst (publish 5 [''b'', ''a''] ''job.started'' [] (bus_run ops))) = {#7#}"
proof -
  let ?ops = "[Register ''a'' (Some (7 :: nat)), Register ''b'' (Some 2), Subscribe ''a'' ''job.*'', Subscribe ''a'' ''*'',
              Subscribe ''b'' ''clip.*'', Subscribe ''c'' ''*'']"
  have s: "spec_run ?ops = [''a'' \<mapsto> (Some 7, {''*'', ''job.*''}), ''b'' \<mapsto> (Some 2, {''clip.*''})]"
    by (auto simp: spec_run_def fun_eq_iff)
  have r: "recipients (spec_run ?ops) ''job.started'' = {''a''}"
    unfolding s by (auto simp: recipients_def matches_pattern_def Let_def split: if_splits)
  have "set [''b'', ''a''] = fst ` set (client_subscriptions (bus_run ?ops))"
    by (auto simp: bus_run_def bus_defs)
  then show ?thesis
    using arg_cong [OF publish_exactly_once [of "[''b'', ''a'']" ?ops 5 "''job.started''" "[]"], of "image_mset fst"]
    by (simp add: s r [unfolded s])
qed

end
