(* ===== verification/Job_Manager.thy ===== *)
theory Job_Manager
  imports Protocol
begin

text \<open>
  The background jobs of \<open>job_manager_v21.cpp\<close>: \<open>SubmitJob\<close>, \<open>CancelJob\<close>, \<open>Initialize\<close>,
  \<open>Shutdown\<close>, \<open>Reset\<close> and the worker threads. A step is one section under \<open>mutex_\<close> or a job's
  \<open>info_mutex\<close>, or one access to an atomic outside them, so \<open>SubmitJob\<close>, \<open>CancelJob\<close>, \<open>Shutdown\<close> and the worker
  loop are several steps each, and any thread may move between two of them. Events are published one at a time
  after the lock is released: a caller's go to \<open>outbox\<close>, a worker's to its own \<open>w_pending\<close>, which
  it empties before it goes on. What the job function does is a choice of the environment.

  A job object outlives its entry in \<open>jobs_\<close> (it is a \<open>shared_ptr\<close>), so \<open>store\<close> holds every object
  made and \<open>jobs\<close> the retained ids. Two steps of the source have no defined outcome: \<open>Initialize\<close> between
  the two parts of \<open>Shutdown\<close>, which drops threads that are not joined and ends the process (\<open>crashed\<close>, after which
  nothing happens), and the unlock of a mutex that was destroyed under its guard, which is recorded in
  \<open>dead_unlocks\<close>; the run goes on as if it had had no effect. The entries that \<open>SubmitJob\<close> visits in the unordered map, and their order, are an
  argument; leaving an entry out stands for a job that finishes after the loop has passed it. \<open>next_job_id_\<close> is a natural: the 64-bit counter does not wrap in any real run.
\<close>

section \<open>State\<close>

datatype job_state = JobQueued | JobRunning | JobCompleted | JobFailed | JobCancelled

fun job_state_to_string :: "job_state \<Rightarrow> string" where
  "job_state_to_string JobQueued = ''queued''"
| "job_state_to_string JobRunning = ''running''"
| "job_state_to_string JobCompleted = ''completed''"
| "job_state_to_string JobFailed = ''failed''"
| "job_state_to_string JobCancelled = ''cancelled''"

record job_info =
  ji_id :: string
  ji_type :: string
  ji_state :: job_state
  ji_progress :: double
  ji_error :: string
  ji_created :: nat
  ji_updated :: nat

record internal_job =
  jb_info :: job_info
  cancel_flag :: bool
  has_func :: bool

type_synonym publication = "string \<times> json_object"

datatype worker_phase = Waiting | Popped string | Checked string | Executing string | Exited

text \<open>\<open>w_job\<close> is the \<open>shared_ptr\<close> of the current turn of the loop; it lives until the turn ends.\<close>

record worker =
  w_phase :: worker_phase
  w_job :: "string option"
  w_pending :: "publication list"

text \<open>A call of \<open>SubmitJob\<close> or \<open>CancelJob\<close> between two of its sections, with its local variables.\<close>

datatype caller = Checked_Submit string | Numbered_Submit string string nat | Found_Cancel string

record manager =
  jobs :: "string list"
  store :: "string \<rightharpoonup> internal_job"
  queue :: "string list"
  workers :: "worker list"
  mgr_running :: bool
  stopping :: bool
  next_job_id :: nat
  callers :: "caller list"
  outbox :: "publication list list"
  published :: "publication list"
  dead_unlocks :: "string list"
  crashed :: bool

definition kMaxRetainedJobs :: nat where
  "kMaxRetainedJobs = 512"

definition kMaxQueuedJobs :: nat where
  "kMaxQueuedJobs = 256"

definition new_manager :: manager where
  "new_manager = \<lparr>jobs = [], store = Map.empty, queue = [], workers = [], mgr_running = False, stopping = False,
     next_job_id = 1, callers = [], outbox = [], published = [], dead_unlocks = [], crashed = False\<rparr>"

definition job_name :: "nat \<Rightarrow> string" where
  "job_name n = ''job-'' @ nat_dec n"

fun terminal :: "job_state \<Rightarrow> bool" where
  "terminal JobCompleted = True"
| "terminal JobFailed = True"
| "terminal JobCancelled = True"
| "terminal _ = False"

definition state_of :: "manager \<Rightarrow> string \<Rightarrow> job_state option" where
  "state_of m i = map_option (\<lambda>j. ji_state (jb_info j)) (store m i)"

section \<open>Operations of callers\<close>

definition both_events :: "string \<Rightarrow> json_object \<Rightarrow> publication list" where
  "both_events name payload = [(''job.'' @ name, payload), (''operation.'' @ name, payload)]"

text \<open>The loop that makes room: it drops finished jobs until one slot is free.\<close>

fun purge_loop :: "manager \<Rightarrow> string list \<Rightarrow> string list \<Rightarrow> string list" where
  "purge_loop m [] js = js"
| "purge_loop m (i # order) js =
     (if length js < kMaxRetainedJobs then js
      else (case state_of m i of
          Some s \<Rightarrow> if terminal s then purge_loop m order (removeAll i js) else purge_loop m order js
        | None \<Rightarrow> purge_loop m order js))"

lemma purge_same: "state_of m' = state_of m \<Longrightarrow> purge_loop m' order js = purge_loop m order js"
  by (induction m order js rule: purge_loop.induct) (auto split: option.split)

definition new_job :: "nat \<Rightarrow> string \<Rightarrow> string \<Rightarrow> internal_job" where
  "new_job now i typ =
     \<lparr>jb_info = \<lparr>ji_id = i, ji_type = typ, ji_state = JobQueued, ji_progress = double_of_int 0,
                 ji_error = [], ji_created = now, ji_updated = now\<rparr>,
      cancel_flag = False, has_func = True\<rparr>"

text \<open>
  Who else holds a reference to the object of a job: a worker in its turn, or a \<open>CancelJob\<close> that has found it. An object that the
  loop drops without one is destroyed while \<open>info_lock\<close> holds its mutex.
\<close>

definition worker_holds :: "string \<Rightarrow> worker \<Rightarrow> bool" where
  "worker_holds i w \<longleftrightarrow> w_job w = Some i \<and> (w_phase w \<noteq> Waiting \<and> w_phase w \<noteq> Exited \<or> w_pending w \<noteq> [])"

definition referenced :: "manager \<Rightarrow> string \<Rightarrow> bool" where
  "referenced m i \<longleftrightarrow> (\<exists>w \<in> set (workers m). worker_holds i w) \<or> Found_Cancel i \<in> set (callers m)"

definition destroyed :: "manager \<Rightarrow> string list \<Rightarrow> string list" where
  "destroyed m js = filter (\<lambda>i. i \<notin> set js \<and> \<not> referenced m i) (jobs m)"

text \<open>\<open>SubmitJob\<close>: the test in front, the number, and the section under the lock.\<close>

definition submit_allowed :: "string \<Rightarrow> bool \<Rightarrow> manager \<Rightarrow> bool" where
  "submit_allowed typ func m \<longleftrightarrow> typ \<noteq> [] \<and> func \<and> mgr_running m"

definition submit_number :: "manager \<Rightarrow> string \<times> manager" where
  "submit_number m = (job_name (next_job_id m), m\<lparr>next_job_id := Suc (next_job_id m)\<rparr>)"

definition submit_insert :: "string list \<Rightarrow> nat \<Rightarrow> string \<Rightarrow> string \<Rightarrow> manager \<Rightarrow> string \<times> manager" where
  "submit_insert order now i typ m =
     (if \<not> mgr_running m then ([], m)
      else
        let js = (if kMaxRetainedJobs \<le> length (jobs m) then purge_loop m order (jobs m) else jobs m);
            m1 = m\<lparr>jobs := js, dead_unlocks := dead_unlocks m @ destroyed m js\<rparr>
        in if kMaxRetainedJobs \<le> length js \<or> kMaxQueuedJobs \<le> length (queue m)
           then ([], m1)
           else (i, m1\<lparr>jobs := js @ [i], store := (store m)(i \<mapsto> new_job now i typ),
                       queue := queue m @ [i],
                       outbox := outbox m @
                         [both_events ''started'' (object_of
                            [(''jobId'', JStr i), (''operationId'', JStr i), (''type'', JStr typ),
                             (''state'', JStr (job_state_to_string JobQueued))])]\<rparr>))"

text \<open>The whole of it, when no other thread moves in between.\<close>

definition submit_job :: "string list \<Rightarrow> nat \<Rightarrow> string \<Rightarrow> bool \<Rightarrow> manager \<Rightarrow> string \<times> manager" where
  "submit_job order now typ func m =
     (if \<not> submit_allowed typ func m then ([], m)
      else case submit_number m of (i, m) \<Rightarrow> submit_insert order now i typ m)"

text \<open>\<open>CancelJob\<close>: the look-up under the lock, and the section under the job's own.\<close>

definition cancel_find :: "string \<Rightarrow> manager \<Rightarrow> bool" where
  "cancel_find i m \<longleftrightarrow> i \<in> set (jobs m)"

definition cancel_mark :: "nat \<Rightarrow> string \<Rightarrow> manager \<Rightarrow> bool \<times> manager" where
  "cancel_mark now i m =
     (case store m i of
        None \<Rightarrow> (False, m)
      | Some j \<Rightarrow>
          if ji_state (jb_info j) \<noteq> JobQueued \<and> ji_state (jb_info j) \<noteq> JobRunning then (False, m)
          else
            let j' = j\<lparr>cancel_flag := True,
                       jb_info := (jb_info j)\<lparr>ji_state := JobCancelled, ji_error := ''cancelled'', ji_updated := now\<rparr>\<rparr>
            in (True, m\<lparr>store := (store m)(i \<mapsto> j'),
                        outbox := outbox m @
                          [both_events ''cancelled'' (object_of
                             [(''jobId'', JStr i), (''operationId'', JStr i),
                              (''state'', JStr (job_state_to_string JobCancelled))])]\<rparr>))"

definition cancel_job :: "nat \<Rightarrow> string \<Rightarrow> manager \<Rightarrow> bool \<times> manager" where
  "cancel_job now i m = (if cancel_find i m then cancel_mark now i m else (False, m))"

text \<open>\<open>cancel_flag\<close> of every job in \<open>jobs_\<close>, as \<open>Shutdown\<close> and \<open>Reset\<close> set it.\<close>

definition flag_all :: "manager \<Rightarrow> string \<rightharpoonup> internal_job" where
  "flag_all m = (\<lambda>i. if i \<in> set (jobs m) then map_option (\<lambda>j. j\<lparr>cancel_flag := True\<rparr>) (store m i) else store m i)"

text \<open>
  \<open>Initialize\<close> sees only \<open>running_\<close>. While a \<open>Shutdown\<close> is still joining, it clears a vector of threads that are not joined, which ends the
  process; once they are joined but not cleared both threads change the vector at once.
\<close>

definition initialize :: "nat \<Rightarrow> manager \<Rightarrow> manager" where
  "initialize worker_count m =
     (if mgr_running m then m
      else if stopping m then m\<lparr>crashed := True\<rparr>
      else m\<lparr>mgr_running := True,
             workers := replicate (clamp worker_count 1 16) \<lparr>w_phase = Waiting, w_job = None, w_pending = []\<rparr>\<rparr>)"

definition shutdown_begin :: "manager \<Rightarrow> manager" where
  "shutdown_begin m =
     (if \<not> mgr_running m then m else m\<lparr>mgr_running := False, stopping := True, store := flag_all m\<rparr>)"

definition shutdown_join :: "manager \<Rightarrow> manager" where
  "shutdown_join m = m\<lparr>workers := [], stopping := False\<rparr>"

definition reset_jobs :: "manager \<Rightarrow> manager" where
  "reset_jobs m = m\<lparr>store := flag_all m, jobs := [], queue := []\<rparr>"

definition active_job_count :: "manager \<Rightarrow> nat" where
  "active_job_count m =
     length (filter (\<lambda>i. state_of m i = Some JobQueued \<or> state_of m i = Some JobRunning) (jobs m))"

definition get_job_info :: "string \<Rightarrow> manager \<Rightarrow> job_info option" where
  "get_job_info i m = (if i \<in> set (jobs m) then map_option jb_info (store m i) else None)"

section \<open>The worker loop\<close>

definition set_phase :: "nat \<Rightarrow> worker_phase \<Rightarrow> manager \<Rightarrow> manager" where
  "set_phase k ph m = m\<lparr>workers := (workers m)[k := (workers m ! k)\<lparr>w_phase := ph\<rparr>]\<rparr>"

definition set_job :: "string \<Rightarrow> (internal_job \<Rightarrow> internal_job) \<Rightarrow> manager \<Rightarrow> manager" where
  "set_job i f m = m\<lparr>store := (store m)(i := map_option f (store m i))\<rparr>"

definition set_pending :: "nat \<Rightarrow> publication list \<Rightarrow> manager \<Rightarrow> manager" where
  "set_pending k ps m = m\<lparr>workers := (workers m)[k := (workers m ! k)\<lparr>w_pending := ps\<rparr>]\<rparr>"

definition take_job :: "nat \<Rightarrow> string \<Rightarrow> manager \<Rightarrow> manager" where
  "take_job k i m = m\<lparr>workers := (workers m)[k := (workers m ! k)\<lparr>w_phase := Popped i, w_job := Some i\<rparr>]\<rparr>"

text \<open>The first section: wait, leave when stopped, take the front of the queue.\<close>

definition worker_pop :: "nat \<Rightarrow> manager \<Rightarrow> manager" where
  "worker_pop k m =
     (if \<not> mgr_running m then set_phase k Exited m
      else case queue m of [] \<Rightarrow> m
        | i # q \<Rightarrow>
            (if i \<in> set (jobs m) then take_job k i (m\<lparr>queue := q\<rparr>) else m\<lparr>queue := q\<rparr>))"

definition worker_check :: "nat \<Rightarrow> string \<Rightarrow> manager \<Rightarrow> manager" where
  "worker_check k i m =
     (case store m i of None \<Rightarrow> m
      | Some j \<Rightarrow> if cancel_flag j then set_phase k Waiting m else set_phase k (Checked i) m)"

definition worker_begin :: "nat \<Rightarrow> nat \<Rightarrow> string \<Rightarrow> manager \<Rightarrow> manager" where
  "worker_begin k now i m =
     (if state_of m i = Some JobCancelled then set_phase k Waiting m
      else set_phase k (Executing i)
        (set_job i (\<lambda>j. j\<lparr>jb_info := (jb_info j)\<lparr>ji_state := JobRunning, ji_updated := now\<rparr>\<rparr>) m))"

definition progress_events :: "string \<Rightarrow> double \<Rightarrow> publication list" where
  "progress_events i p = both_events ''progress'' (object_of
     [(''jobId'', JStr i), (''operationId'', JStr i), (''progress'', JDouble p),
      (''state'', JStr (job_state_to_string JobRunning))])"

text \<open>The callback given to the job function.\<close>

definition worker_progress :: "nat \<Rightarrow> nat \<Rightarrow> double \<Rightarrow> string \<Rightarrow> manager \<Rightarrow> manager" where
  "worker_progress k now p i m =
     (if \<not> is_finite p then m
      else if state_of m i = Some JobCancelled then m
      else let q = double_clamp p (double_of_int 0) (double_of_int 100) in
        set_pending k (progress_events i q)
          (set_job i (\<lambda>j. j\<lparr>jb_info := (jb_info j)\<lparr>ji_progress := q, ji_updated := now\<rparr>\<rparr>) m))"

text \<open>How the job function ends: its result and error text, or an exception.\<close>

datatype job_outcome = JobReturns bool string | JobThrows

definition final_info :: "nat \<Rightarrow> job_outcome \<Rightarrow> internal_job \<Rightarrow> job_info" where
  "final_info now out j =
     (let (ok, err) = (case out of JobReturns b e \<Rightarrow> (b, e) | JobThrows \<Rightarrow> (False, ''unhandled_job_exception''));
          nfo = jb_info j;
          nfo' = (if cancel_flag j \<or> ji_state nfo = JobCancelled then
                    nfo\<lparr>ji_state := JobCancelled,
                        ji_error := (if ji_error nfo = [] then ''cancelled'' else ji_error nfo)\<rparr>
                  else if ok then nfo\<lparr>ji_state := JobCompleted, ji_progress := double_of_int 100\<rparr>
                  else nfo\<lparr>ji_state := JobFailed, ji_error := (if err = [] then ''job_failed'' else err)\<rparr>)
      in nfo'\<lparr>ji_updated := now\<rparr>)"

definition final_events :: "job_info \<Rightarrow> publication list" where
  "final_events nfo =
     (let payload = [(''jobId'', JStr (ji_id nfo)), (''operationId'', JStr (ji_id nfo)),
                     (''state'', JStr (job_state_to_string (ji_state nfo)))]
      in case ji_state nfo of
          JobCompleted \<Rightarrow> both_events ''completed'' (object_of payload)
        | JobFailed \<Rightarrow> both_events ''failed'' (object_of (payload @ [(''error'', JStr (ji_error nfo))]))
        | JobCancelled \<Rightarrow> both_events ''cancelled'' (object_of payload)
        | _ \<Rightarrow> [])"

definition worker_finish :: "nat \<Rightarrow> nat \<Rightarrow> job_outcome \<Rightarrow> string \<Rightarrow> manager \<Rightarrow> manager" where
  "worker_finish k now out i m =
     (case store m i of None \<Rightarrow> m
      | Some j \<Rightarrow>
          set_phase k Waiting (set_pending k (final_events (final_info now out j))
            (set_job i (\<lambda>j. j\<lparr>jb_info := final_info now out j, has_func := False\<rparr>) m)))"

section \<open>Runs\<close>

text \<open>
  The steps of all threads. A step of worker \<open>k\<close> is enabled in the phase it leaves and once the
  worker has published what it owes; a step that is not enabled leaves the state as it is.
\<close>

datatype job_event =
    SubmitCheck string bool
  | SubmitNumber nat nat
  | SubmitInsert nat "string list"
  | CancelFind string
  | CancelMark nat nat
  | Initialize nat
  | ShutdownBegin
  | ShutdownJoin
  | ResetJobs
  | OutboxPublish nat
  | WorkerPop nat
  | WorkerCheck nat
  | WorkerBegin nat nat
  | WorkerProgress nat nat double
  | WorkerFinish nat nat job_outcome
  | WorkerPublish nat

definition outbox_publish :: "nat \<Rightarrow> manager \<Rightarrow> manager" where
  "outbox_publish n m =
     (if n < length (outbox m) \<and> outbox m ! n \<noteq> [] then
        m\<lparr>outbox := (outbox m)[n := tl (outbox m ! n)], published := published m @ [hd (outbox m ! n)]\<rparr>
      else m)"

definition worker_publish :: "nat \<Rightarrow> manager \<Rightarrow> manager" where
  "worker_publish k m =
     (case w_pending (workers m ! k) of [] \<Rightarrow> m
      | p # ps \<Rightarrow> (set_pending k ps m)\<lparr>published := published m @ [p]\<rparr>)"

text \<open>Worker \<open>k\<close> exists and owes no event: the phase it is in.\<close>

definition ready_phase :: "manager \<Rightarrow> nat \<Rightarrow> worker_phase option" where
  "ready_phase m k =
     (if k < length (workers m) \<and> w_pending (workers m ! k) = [] then Some (w_phase (workers m ! k)) else None)"

text \<open>The call \<open>n\<close> that is under way, and the others when it has returned.\<close>

definition caller_at :: "manager \<Rightarrow> nat \<Rightarrow> caller option" where
  "caller_at m n = (if n < length (callers m) then Some (callers m ! n) else None)"

definition returned :: "nat \<Rightarrow> manager \<Rightarrow> manager" where
  "returned n m = m\<lparr>callers := take n (callers m) @ drop (Suc n) (callers m)\<rparr>"

fun job_step :: "job_event \<Rightarrow> manager \<Rightarrow> manager" where
  "job_step (SubmitCheck typ func) m =
     (if submit_allowed typ func m then m\<lparr>callers := callers m @ [Checked_Submit typ]\<rparr> else m)"
| "job_step (SubmitNumber n now) m =
     (case caller_at m n of
        Some (Checked_Submit typ) \<Rightarrow> (case submit_number m of (i, m) \<Rightarrow> m\<lparr>callers := (callers m)[n := Numbered_Submit i typ now]\<rparr>)
      | _ \<Rightarrow> m)"
| "job_step (SubmitInsert n order) m =
     (case caller_at m n of
        Some (Numbered_Submit i typ now) \<Rightarrow> returned n (snd (submit_insert order now i typ m)) | _ \<Rightarrow> m)"
| "job_step (CancelFind i) m = (if cancel_find i m then m\<lparr>callers := callers m @ [Found_Cancel i]\<rparr> else m)"
| "job_step (CancelMark n now) m =
     (case caller_at m n of Some (Found_Cancel i) \<Rightarrow> returned n (snd (cancel_mark now i m)) | _ \<Rightarrow> m)"
| "job_step (Initialize n) m = initialize n m"
| "job_step ShutdownBegin m = shutdown_begin m"
| "job_step ShutdownJoin m =
     (if stopping m \<and> (\<forall>w \<in> set (workers m). w_phase w = Exited \<and> w_pending w = [])
      then shutdown_join m else m)"
| "job_step ResetJobs m = reset_jobs m"
| "job_step (OutboxPublish n) m = outbox_publish n m"
| "job_step (WorkerPop k) m = (if ready_phase m k = Some Waiting then worker_pop k m else m)"
| "job_step (WorkerCheck k) m = (case ready_phase m k of Some (Popped i) \<Rightarrow> worker_check k i m | _ \<Rightarrow> m)"
| "job_step (WorkerBegin k now) m = (case ready_phase m k of Some (Checked i) \<Rightarrow> worker_begin k now i m | _ \<Rightarrow> m)"
| "job_step (WorkerProgress k now p) m =
     (case ready_phase m k of Some (Executing i) \<Rightarrow> worker_progress k now p i m | _ \<Rightarrow> m)"
| "job_step (WorkerFinish k now out) m =
     (case ready_phase m k of Some (Executing i) \<Rightarrow> worker_finish k now out i m | _ \<Rightarrow> m)"
| "job_step (WorkerPublish k) m = (if k < length (workers m) then worker_publish k m else m)"

text \<open>When the process has ended nothing moves.\<close>

definition job_exec :: "job_event \<Rightarrow> manager \<Rightarrow> manager" where
  "job_exec e m = (if crashed m then m else job_step e m)"

fun job_run :: "job_event list \<Rightarrow> manager \<Rightarrow> manager" where
  "job_run [] m = m"
| "job_run (e # es) m = job_run es (job_exec e m)"

inductive jobs_reachable :: "manager \<Rightarrow> bool" where
  reach_new: "jobs_reachable new_manager"
| reach_step: "jobs_reachable m \<Longrightarrow> jobs_reachable (job_exec e m)"

text \<open>The sections in a row are the whole operations.\<close>

lemma submit_insert_callers:
  "submit_insert order now i typ (m\<lparr>callers := callers m @ [Numbered_Submit a b c]\<rparr>) =
    (case submit_insert order now i typ m of (r, m') \<Rightarrow> (r, m'\<lparr>callers := callers m @ [Numbered_Submit a b c]\<rparr>))"
proof -
  let ?m = "m\<lparr>callers := callers m @ [Numbered_Submit a b c]\<rparr>"
  have "purge_loop ?m order js = purge_loop m order js" for js by (rule purge_same) (simp add: state_of_def fun_eq_iff)
  moreover have "destroyed ?m js = destroyed m js" for js by (simp add: destroyed_def referenced_def)
  ultimately show ?thesis by (simp add: submit_insert_def Let_def)
qed

lemma submit_insert_frame: "callers (snd (submit_insert order now i typ m)) = callers m" "crashed (snd (submit_insert order now i typ m)) = crashed m"
  by (simp_all add: submit_insert_def Let_def)

lemma submit_sections:
  assumes "\<not> crashed m" "submit_allowed typ func m"
  shows "job_run [SubmitCheck typ func, SubmitNumber (length (callers m)) now, SubmitInsert (length (callers m)) order] m =
    snd (submit_job order now typ func m)"
proof -
  let ?i = "job_name (next_job_id m)"
  let ?m1 = "m\<lparr>next_job_id := Suc (next_job_id m)\<rparr>"
  let ?m2 = "?m1\<lparr>callers := callers m @ [Numbered_Submit ?i typ now]\<rparr>"
  have "job_run [SubmitCheck typ func, SubmitNumber (length (callers m)) now] m = ?m2"
    using assms by (simp add: job_exec_def caller_at_def submit_number_def)
  moreover have "job_exec (SubmitInsert (length (callers m)) order) ?m2 = snd (submit_insert order now ?i typ ?m1)"
    using assms submit_insert_callers [of order now "?i" "typ" "?m1"] submit_insert_frame [of order now "?i" "typ" "?m1"]
    by (simp add: job_exec_def caller_at_def returned_def split_beta)
  ultimately show ?thesis using assms(2) by (simp add: submit_job_def submit_number_def)
qed

lemma cancel_sections:
  assumes "\<not> crashed m" "cancel_find i m"
  shows "job_run [CancelFind i, CancelMark (length (callers m)) now] m = snd (cancel_job now i m)"
  using assms by (auto simp: job_exec_def cancel_job_def caller_at_def returned_def cancel_mark_def Let_def split: option.split)

lemma jobs_reachable_run: "jobs_reachable m \<Longrightarrow> jobs_reachable (job_run es m)"
  by (induction es arbitrary: m) (simp_all add: reach_step)

end
