(* ===== verification/Job_Invariants.thy ===== *)
theory Job_Invariants
  imports Job_Manager
begin

text \<open>
  What holds of the job manager in every interleaving: the bounds on retained and queued jobs,
  a job is in the queue or with one worker at most, its state agrees with where it is, and a
  state only moves forward.
\<close>

section \<open>The invariant\<close>

fun held :: "worker_phase \<Rightarrow> string list" where
  "held (Popped i) = [i]"
| "held (Checked i) = [i]"
| "held (Executing i) = [i]"
| "held _ = []"

definition in_flight :: "manager \<Rightarrow> string list" where
  "in_flight m = queue m @ concat (map (\<lambda>w. held (w_phase w)) (workers m))"

definition progress_ok :: "double \<Rightarrow> bool" where
  "progress_ok p \<longleftrightarrow> is_finite p \<and> \<not> double_less p (double_of_int 0) \<and> \<not> double_less (double_of_int 100) p"

lemma progress_ok_bounds:
  "progress_ok (double_of_int 0)" "progress_ok (double_of_int 100)"
  "is_finite p \<Longrightarrow> progress_ok (double_clamp p (double_of_int 0) (double_of_int 100))"
  using double_clamp_bounds [of p "double_of_int 0" "double_of_int 100"]
  by (simp_all add: progress_ok_def double_of_int_0 double_of_int_100)

definition job_ok :: "string \<Rightarrow> nat \<Rightarrow> internal_job \<Rightarrow> bool" where
  "job_ok i n j \<longleftrightarrow>
     ji_id (jb_info j) = i \<and> (\<exists>k < n. i = job_name k) \<and> progress_ok (ji_progress (jb_info j)) \<and>
     (ji_state (jb_info j) = JobCancelled \<longrightarrow> cancel_flag j) \<and>
     (ji_state (jb_info j) = JobCompleted \<longrightarrow> ji_progress (jb_info j) = double_of_int 100) \<and>
     (ji_state (jb_info j) \<in> {JobFailed, JobCancelled} \<longrightarrow> ji_error (jb_info j) \<noteq> [])"

fun phase_ok :: "manager \<Rightarrow> worker_phase \<Rightarrow> bool" where
  "phase_ok m (Popped i) = (state_of m i \<in> {Some JobQueued, Some JobCancelled})"
| "phase_ok m (Checked i) = (state_of m i \<in> {Some JobQueued, Some JobCancelled})"
| "phase_ok m (Executing i) = (state_of m i \<in> {Some JobRunning, Some JobCancelled})"
| "phase_ok m _ = True"

definition core_ok :: "manager \<Rightarrow> bool" where
  "core_ok m \<longleftrightarrow>
     distinct (in_flight m) \<and> distinct (jobs m) \<and>
     length (jobs m) \<le> kMaxRetainedJobs \<and> length (queue m) \<le> kMaxQueuedJobs \<and>
     (\<forall>i \<in> set (jobs m). store m i \<noteq> None) \<and>
     (\<forall>i \<in> set (queue m). state_of m i \<in> {Some JobQueued, Some JobCancelled}) \<and>
     (\<forall>w \<in> set (workers m). phase_ok m (w_phase w)) \<and>
     (\<forall>i j. store m i = Some j \<longrightarrow> job_ok i (next_job_id m) j) \<and>
     (\<forall>i. state_of m i = Some JobRunning \<longrightarrow> (\<exists>w \<in> set (workers m). w_phase w = Executing i))"

lemma core_okD:
  assumes "core_ok m"
  shows "distinct (in_flight m)" "distinct (jobs m)" "length (jobs m) \<le> kMaxRetainedJobs"
    "length (queue m) \<le> kMaxQueuedJobs" "i \<in> set (jobs m) \<Longrightarrow> store m i \<noteq> None"
    "i \<in> set (queue m) \<Longrightarrow> state_of m i \<in> {Some JobQueued, Some JobCancelled}"
    "w \<in> set (workers m) \<Longrightarrow> phase_ok m (w_phase w)"
    "store m i = Some j \<Longrightarrow> job_ok i (next_job_id m) j"
    "state_of m i = Some JobRunning \<Longrightarrow> \<exists>w \<in> set (workers m). w_phase w = Executing i"
  using assms by (auto simp: core_ok_def)

lemma job_name_inject [simp]: "job_name a = job_name b \<longleftrightarrow> a = b"
  by (simp add: job_name_def nat_dec_inject)

lemma fresh_job: "core_ok m \<Longrightarrow> store m (job_name (next_job_id m)) = None"
proof (rule ccontr)
  assume ok: "core_ok m" and "store m (job_name (next_job_id m)) \<noteq> None"
  then obtain j where "store m (job_name (next_job_id m)) = Some j" by auto
  then have "job_ok (job_name (next_job_id m)) (next_job_id m) j" using core_okD(8) ok by blast
  then show False by (auto simp: job_ok_def)
qed

lemma phase_ok_cong:
  "(\<And>i. i \<in> set (held ph) \<Longrightarrow> state_of m' i = state_of m i) \<Longrightarrow> phase_ok m' ph = phase_ok m ph"
  by (cases ph) auto

lemma phase_ok_known: "phase_ok m ph \<Longrightarrow> i \<in> set (held ph) \<Longrightarrow> state_of m i \<noteq> None"
  by (cases ph) auto

text \<open>A change that leaves the states, the queue and the workers alone.\<close>

lemma core_ok_frame:
  assumes "core_ok m" "queue m' = queue m" "workers m' = workers m" "state_of m' = state_of m"
    and "distinct (jobs m')" "length (jobs m') \<le> kMaxRetainedJobs" "\<forall>i \<in> set (jobs m'). store m' i \<noteq> None"
    and "\<forall>i j. store m' i = Some j \<longrightarrow> job_ok i (next_job_id m') j"
  shows "core_ok m'"
proof -
  have "phase_ok m' ph = phase_ok m ph" for ph by (rule phase_ok_cong) (simp add: assms(4))
  then show ?thesis using assms by (simp add: core_ok_def in_flight_def)
qed

section \<open>Steps of callers\<close>

lemma state_of_flag_all: "store m' = flag_all m \<Longrightarrow> state_of m' = state_of m"
  by (auto simp: fun_eq_iff state_of_def flag_all_def option.map_comp comp_def)

lemma job_ok_flag: "job_ok i n j \<Longrightarrow> job_ok i n (j\<lparr>cancel_flag := True\<rparr>)"
  by (auto simp: job_ok_def)

lemma job_ok_Suc: "job_ok i n j \<Longrightarrow> job_ok i (Suc n) j"
  by (auto simp: job_ok_def intro: less_SucI)

lemma flag_all_ok: "core_ok m \<Longrightarrow> flag_all m i = Some j \<Longrightarrow> job_ok i (next_job_id m) j"
  by (auto simp: flag_all_def job_ok_flag dest: core_okD(8) split: if_splits)

lemma flag_all_dom: "(\<exists>j. flag_all m i = Some j) \<longleftrightarrow> (\<exists>j. store m i = Some j)"
  by (auto simp: flag_all_def)

lemma core_ok_shutdown: "core_ok m \<Longrightarrow> core_ok (shutdown_begin m)"
proof (cases "mgr_running m")
  case True
  assume ok: "core_ok m"
  have "state_of (m\<lparr>mgr_running := False, stopping := True, store := flag_all m\<rparr>) = state_of m"
    by (rule state_of_flag_all) simp
  then show ?thesis unfolding shutdown_begin_def using True ok
    by (auto intro!: core_ok_frame [OF ok] dest: core_okD(2-5) flag_all_ok simp: flag_all_dom)
qed (simp add: shutdown_begin_def)

lemma purge_loop_subset:
  "set (purge_loop m order js) \<subseteq> set js \<and> (distinct js \<longrightarrow> distinct (purge_loop m order js)) \<and>
     length (purge_loop m order js) \<le> length js"
proof (induction m order js rule: purge_loop.induct)
  case (2 m i order js)
  have "length (removeAll i js) \<le> length js" by simp
  with 2 show ?case
    by (auto split: option.splits simp: distinct_removeAll simp del: length_removeAll_less_eq)
qed simp

lemma core_ok_number: "core_ok m \<Longrightarrow> core_ok (snd (submit_number m))"
proof -
  assume ok: "core_ok m"
  have s: "state_of (m\<lparr>next_job_id := n\<rparr>) = state_of m" for n by (simp add: state_of_def fun_eq_iff)
  show ?thesis unfolding submit_number_def snd_conv
    by (rule core_ok_frame [OF ok]) (use s core_okD(2-5,8) [OF ok] in \<open>auto intro: job_ok_Suc\<close>)
qed

text \<open>The number that \<open>SubmitInsert\<close> uses belongs to no object yet.\<close>

lemma core_ok_insert:
  assumes ok: "core_ok m" and fresh: "store m i = None" "\<exists>k < next_job_id m. i = job_name k"
  shows "core_ok (snd (submit_insert order now i typ m))"
proof -
  let ?js = "if kMaxRetainedJobs \<le> length (jobs m) then purge_loop m order (jobs m) else jobs m"
  have js: "set ?js \<subseteq> set (jobs m)" "distinct ?js" "length ?js \<le> kMaxRetainedJobs"
    using purge_loop_subset [of m order "jobs m"] core_okD(2,3) [OF ok] by auto
  have st: "state_of m i = None" by (simp add: state_of_def fresh)
  have no: "i \<notin> set (in_flight m)" "i \<notin> set (jobs m)"
    using st fresh core_okD(5-7) [OF ok] phase_ok_known [of m]
    by (fastforce simp: in_flight_def)+
  consider (no) "\<not> mgr_running m"
    | (full) "mgr_running m" "kMaxRetainedJobs \<le> length ?js \<or> kMaxQueuedJobs \<le> length (queue m)"
    | (room) "mgr_running m" "length ?js < kMaxRetainedJobs" "length (queue m) < kMaxQueuedJobs"
    by linarith
  then show ?thesis
  proof cases
    case no
    then show ?thesis using ok by (simp add: submit_insert_def)
  next
    case full
    then have e: "snd (submit_insert order now i typ m) = m\<lparr>jobs := ?js, dead_unlocks := dead_unlocks m @ destroyed m ?js\<rparr>"
      by (simp add: submit_insert_def Let_def)
    show ?thesis unfolding e
      by (rule core_ok_frame [OF ok]) (use js core_okD(5,8) [OF ok] in \<open>auto simp: state_of_def fun_eq_iff\<close>)
  next
    case room
    let ?m = "snd (submit_insert order now i typ m)"
    have f: "queue ?m = queue m @ [i]" "workers ?m = workers m" "jobs ?m = ?js @ [i]"
      "store ?m = (store m)(i \<mapsto> new_job now i typ)" "next_job_id ?m = next_job_id m"
      using room by (auto simp: submit_insert_def Let_def)
    have s: "state_of ?m = (state_of m)(i \<mapsto> JobQueued)"
      by (auto simp: state_of_def f(4) new_job_def fun_eq_iff)
    have ph: "phase_ok ?m (w_phase w) = phase_ok m (w_phase w)" if "w \<in> set (workers m)" for w
      using that no(1) by (intro phase_ok_cong) (auto simp: s in_flight_def)
    have nj: "job_ok i (next_job_id m) (new_job now i typ)"
      using fresh(2) by (auto simp: job_ok_def new_job_def progress_ok_bounds)
    show ?thesis
      unfolding core_ok_def in_flight_def f s
      using ok no js room nj ph st
      by (auto simp: core_ok_def in_flight_def)
  qed
qed

text \<open>A job whose object is replaced by one in the state \<open>s\<close>.\<close>

lemma state_of_upd: "store m' = (store m)(i \<mapsto> j) \<Longrightarrow> state_of m' = (state_of m)(i \<mapsto> ji_state (jb_info j))"
  by (auto simp: state_of_def fun_eq_iff)

lemma core_ok_mark: "core_ok m \<Longrightarrow> core_ok (snd (cancel_mark now i m))"
proof (cases "snd (cancel_mark now i m) = m")
  case False
  assume ok: "core_ok m"
  obtain j where j: "store m i = Some j" "ji_state (jb_info j) \<in> {JobQueued, JobRunning}"
    using False by (auto simp: cancel_mark_def split: option.splits if_splits)
  let ?m = "snd (cancel_mark now i m)"
  let ?j = "j\<lparr>cancel_flag := True,
     jb_info := (jb_info j)\<lparr>ji_state := JobCancelled, ji_error := ''cancelled'', ji_updated := now\<rparr>\<rparr>"
  have f: "queue ?m = queue m" "workers ?m = workers m" "jobs ?m = jobs m" "next_job_id ?m = next_job_id m"
      "store ?m = (store m)(i \<mapsto> ?j)"
    using j by (auto simp: cancel_mark_def Let_def)
  have s: "state_of ?m = (state_of m)(i \<mapsto> JobCancelled)" by (simp add: state_of_upd [OF f(5)])
  have ph: "phase_ok ?m (w_phase w)" if "w \<in> set (workers m)" for w
    using core_okD(7) [OF ok that] by (cases "w_phase w") (auto simp: s)
  have jk: "job_ok i (next_job_id m) ?j"
    using core_okD(8) [OF ok j(1)] by (auto simp: job_ok_def)
  show ?thesis
    unfolding core_ok_def in_flight_def f s using ok jk ph by (auto simp: core_ok_def in_flight_def)
qed simp

lemma core_ok_initialize: "core_ok m \<Longrightarrow> workers m = [] \<or> mgr_running m \<or> stopping m \<Longrightarrow> core_ok (initialize n m)"
proof -
  assume ok: "core_ok m" and w: "workers m = [] \<or> mgr_running m \<or> stopping m"
  have s: "state_of (m\<lparr>mgr_running := True, workers := ws\<rparr>) = state_of m" "state_of (m\<lparr>crashed := True\<rparr>) = state_of m" for ws
    by (simp_all add: state_of_def fun_eq_iff)
  have none: "concat (map (\<lambda>w. held (w_phase w)) (replicate k \<lparr>w_phase = Waiting, w_job = None, w_pending = []\<rparr>)) = []" for k
    by (induction k) simp_all
  have "core_ok (m\<lparr>crashed := True\<rparr>)"
    using core_okD(2-5,8) [OF ok] by (intro core_ok_frame [OF ok]) (auto simp: s)
  then show ?thesis
    using ok w none by (auto simp: core_ok_def in_flight_def initialize_def s)
qed

lemma core_ok_join:
  assumes "core_ok m" "\<forall>w \<in> set (workers m). w_phase w = Exited"
  shows "core_ok (shutdown_join m)"
proof -
  have s: "state_of (m\<lparr>workers := [], stopping := False\<rparr>) = state_of m" by (simp add: state_of_def fun_eq_iff)
  show ?thesis using assms by (auto simp: core_ok_def in_flight_def shutdown_join_def s)
qed

lemma core_ok_reset: "core_ok m \<Longrightarrow> core_ok (reset_jobs m)"
proof -
  assume ok: "core_ok m"
  have s: "state_of (reset_jobs m) = state_of m"
    by (rule state_of_flag_all) (simp add: reset_jobs_def)
  have "phase_ok (reset_jobs m) ph = phase_ok m ph" for ph by (rule phase_ok_cong) (simp add: s)
  then show ?thesis
    using ok flag_all_ok [OF ok] unfolding core_ok_def in_flight_def s
    by (simp add: reset_jobs_def core_ok_def in_flight_def)
qed

section \<open>Steps of workers\<close>

text \<open>Worker \<open>k\<close> among the others.\<close>

lemma worker_split:
  assumes "k < length ws"
  obtains as x bs where "ws = as @ x # bs" "length as = k" "ws ! k = x"
  using assms id_take_nth_drop [of k ws] by (metis length_take min.absorb4)

lemma ready_phaseD:
  assumes "ready_phase m k = Some ph"
  shows "k < length (workers m)" "w_phase (workers m ! k) = ph" "w_pending (workers m ! k) = []"
  using assms by (auto simp: ready_phase_def split: if_splits)

text \<open>
  A worker step: worker \<open>k\<close> leaves phase \<open>ph\<close> for \<open>ph'\<close>, the queue may lose its front, one job may
  change its object, and jobs no worker and no queue holds are untouched.
\<close>

lemma core_ok_worker:
  assumes ok: "core_ok m" and k: "k < length (workers m)" "w_phase (workers m ! k) = ph"
    and w': "workers m' = (workers m)[k := w]" "jobs m' = jobs m" "next_job_id m' = next_job_id m"
    and q: "distinct (queue m' @ held (w_phase w))"
      "set (queue m') \<union> set (held (w_phase w)) \<subseteq> set (queue m) \<union> set (held ph)"
      "length (queue m') \<le> length (queue m)" "set (queue m') \<subseteq> set (queue m)"
    and st: "\<forall>i. i \<notin> set (held ph) \<longrightarrow> store m' i = store m i"
      "\<forall>i j. i \<in> set (held ph) \<longrightarrow> store m' i = Some j \<longrightarrow> job_ok i (next_job_id m) j"
      "\<forall>i. store m i \<noteq> None \<longrightarrow> store m' i \<noteq> None"
    and ph': "phase_ok m' (w_phase w)"
      "\<forall>i \<in> set (held ph). state_of m' i = Some JobRunning \<longrightarrow> w_phase w = Executing i"
  shows "core_ok m'"
proof -
  obtain as x bs where ws: "workers m = as @ x # bs" "length as = k" and x: "w_phase x = ph"
    using worker_split [OF k(1)] k(2) by blast
  let ?oth = "concat (map (\<lambda>w. held (w_phase w)) as) @ concat (map (\<lambda>w. held (w_phase w)) bs)"
  have ws': "workers m' = as @ w # bs"
    unfolding w'(1) ws(1) by (simp add: list_update_append flip: ws(2))
  have d: "distinct (queue m)" "distinct (held ph)" "distinct ?oth" "set (queue m) \<inter> set (held ph) = {}"
      "set (queue m) \<inter> set ?oth = {}" "set (held ph) \<inter> set ?oth = {}"
    using core_okD(1) [OF ok] x unfolding in_flight_def ws(1) by auto
  have same: "state_of m' i = state_of m i" if "i \<notin> set (held ph)" for i
    using st(1) that by (simp add: state_of_def)
  have oth: "phase_ok m' (w_phase v) \<longleftrightarrow> phase_ok m (w_phase v)" if "v \<in> set (as @ bs)" for v
    using that d(6) by (intro phase_ok_cong same) auto
  have e: "(set (queue m') \<union> set (held (w_phase w))) \<inter> set ?oth = {}" using q(2) d(5,6) by blast
  have "distinct (in_flight m')"
    using d(3) q(1) e unfolding in_flight_def ws' by (simp, blast)
  moreover have "\<forall>i \<in> set (queue m'). state_of m' i \<in> {Some JobQueued, Some JobCancelled}"
    using core_okD(6) [OF ok] q(4) d(4) same by (metis (no_types) IntI empty_iff subsetD)
  moreover have "\<forall>v \<in> set (workers m'). phase_ok m' (w_phase v)"
    using core_okD(7) [OF ok] oth ph'(1) unfolding ws' by (auto simp: ws(1))
  moreover have "\<forall>i j. store m' i = Some j \<longrightarrow> job_ok i (next_job_id m') j"
    using core_okD(8) [OF ok] st w'(3) by metis
  moreover have "\<forall>i. state_of m' i = Some JobRunning \<longrightarrow> (\<exists>v \<in> set (workers m'). w_phase v = Executing i)"
  proof (intro allI impI)
    fix i assume r: "state_of m' i = Some JobRunning"
    show "\<exists>v \<in> set (workers m'). w_phase v = Executing i"
    proof (cases "i \<in> set (held ph)")
      case True
      then show ?thesis using ph'(2) r by (auto simp: ws')
    next
      case False
      then obtain v where v: "v \<in> set (workers m)" "w_phase v = Executing i"
        using core_okD(9) [OF ok] r same by metis
      have "v \<noteq> x" using v(2) x False by auto
      then have "v \<in> set as \<union> set bs" using v(1) unfolding ws(1) by simp
      then show ?thesis using v(2) by (auto simp: ws')
    qed
  qed
  ultimately show ?thesis
    using core_okD(2-5) [OF ok] q(3) st(3) w'(2) by (auto simp: core_ok_def)
qed

text \<open>A worker step that changes its phase only.\<close>

lemma core_ok_set_phase:
  assumes "core_ok m" "k < length (workers m)" "w_phase (workers m ! k) = ph"
    and "set (held ph') \<subseteq> set (held ph)" "distinct (held ph')" "phase_ok m ph'"
    and "\<forall>i \<in> set (held ph). state_of m i = Some JobRunning \<longrightarrow> ph' = Executing i"
  shows "core_ok (set_phase k ph' m)"
proof -
  have s: "state_of (set_phase k ph' m) = state_of m" by (simp add: set_phase_def state_of_def fun_eq_iff)
  have "set (held ph) \<inter> set (queue m) = {}"
    using core_okD(1) [OF assms(1)] nth_mem [OF assms(2)] assms(3) by (force simp: in_flight_def)
  then show ?thesis
    using assms core_okD(1) [OF assms(1)] core_okD(8) [OF assms(1)] phase_ok_cong [of ph' "set_phase k ph' m" m]
    by (intro core_ok_worker [OF assms(1-3), where w = "(workers m ! k)\<lparr>w_phase := ph'\<rparr>"])
       (auto simp: set_phase_def s [unfolded set_phase_def] in_flight_def)
qed

lemma core_ok_pop:
  assumes ok: "core_ok m" and r: "ready_phase m k = Some Waiting"
  shows "core_ok (worker_pop k m)"
proof (cases "mgr_running m")
  case False
  then show ?thesis
    using ready_phaseD [OF r] by (simp add: worker_pop_def core_ok_set_phase [OF ok])
next
  case True
  show ?thesis
  proof (cases "queue m")
    case (Cons i q)
    define m1 where "m1 = m\<lparr>queue := q\<rparr>"
    note k = ready_phaseD [OF r]
    have st: "state_of m1 = state_of m" by (simp add: m1_def state_of_def fun_eq_iff)
    have q: "distinct (i # q)" "state_of m i \<in> {Some JobQueued, Some JobCancelled}"
      using core_okD(1,6) [OF ok] Cons by (auto simp: in_flight_def)
    show ?thesis
    proof (cases "i \<in> set (jobs m)")
      case False
      have "phase_ok m1 ph = phase_ok m ph" for ph by (rule phase_ok_cong) (simp add: st)
      then have "core_ok m1"
        using ok q Cons unfolding core_ok_def in_flight_def st by (auto simp: m1_def)
      then show ?thesis using False Cons True by (simp add: worker_pop_def m1_def)
    next
      case in_jobs: True
      have s: "state_of (take_job k i m1) = state_of m"
        by (simp add: m1_def take_job_def state_of_def fun_eq_iff)
      have "core_ok (take_job k i m1)"
        using q Cons core_okD(8) [OF ok]
        by (intro core_ok_worker [OF ok k(1,2), where w = "(workers m ! k)\<lparr>w_phase := Popped i, w_job := Some i\<rparr>"])
           (auto simp: m1_def take_job_def s [unfolded m1_def take_job_def, simplified])
      then show ?thesis using in_jobs Cons True by (simp add: worker_pop_def m1_def)
    qed
  qed (use ok True in \<open>simp add: worker_pop_def\<close>)
qed

lemma core_ok_check:
  assumes ok: "core_ok m" and r: "ready_phase m k = Some (Popped i)"
  shows "core_ok (worker_check k i m)"
proof -
  note k = ready_phaseD [OF r]
  have "state_of m i \<in> {Some JobQueued, Some JobCancelled}"
    using core_okD(7) [OF ok nth_mem [OF k(1)]] k(2) by simp
  then show ?thesis using ok k
    by (auto simp: worker_check_def intro!: core_ok_set_phase [OF ok k(1,2)] split: option.splits)
qed

text \<open>A step that replaces the object of the job worker \<open>k\<close> holds.\<close>

lemma set_phase_set_job:
  "workers (set_phase k ph (set_job i f m)) = (workers m)[k := (workers m ! k)\<lparr>w_phase := ph\<rparr>]"
  "jobs (set_phase k ph (set_job i f m)) = jobs m" "queue (set_phase k ph (set_job i f m)) = queue m"
  "next_job_id (set_phase k ph (set_job i f m)) = next_job_id m"
  "store (set_phase k ph (set_job i f m)) = (store m)(i := map_option f (store m i))"
  by (simp_all add: set_phase_def set_job_def)

lemma set_job_fields [simp]:
  "workers (set_job i f m) = workers m" "jobs (set_job i f m) = jobs m" "queue (set_job i f m) = queue m"
  "next_job_id (set_job i f m) = next_job_id m"
  by (simp_all add: set_job_def)

lemma core_ok_begin:
  assumes ok: "core_ok m" and r: "ready_phase m k = Some (Checked i)"
  shows "core_ok (worker_begin k now i m)"
proof -
  note k = ready_phaseD [OF r]
  have st: "state_of m i \<in> {Some JobQueued, Some JobCancelled}"
    using core_okD(7) [OF ok nth_mem [OF k(1)]] k(2) by simp
  show ?thesis
  proof (cases "state_of m i = Some JobCancelled")
    case True
    then show ?thesis using k by (simp add: worker_begin_def core_ok_set_phase [OF ok])
  next
    case False
    let ?f = "\<lambda>j. j\<lparr>jb_info := (jb_info j)\<lparr>ji_state := JobRunning, ji_updated := now\<rparr>\<rparr>"
    let ?m = "set_phase k (Executing i) (set_job i ?f m)"
    obtain j where j: "store m i = Some j" "ji_state (jb_info j) = JobQueued"
      using st False by (auto simp: state_of_def)
    have sm: "store ?m = (store m)(i \<mapsto> ?f j)" by (simp add: set_phase_set_job j(1))
    have jk: "job_ok i (next_job_id m) (?f j)" using core_okD(8) [OF ok j(1)] by (simp add: job_ok_def)
    have "distinct (queue m @ [i])"
      using core_okD(1) [OF ok] nth_mem [OF k(1)] k(2) by (force simp: in_flight_def)
    then have "core_ok ?m"
      using jk by (intro core_ok_worker [OF ok k(1,2), where w = "(workers m ! k)\<lparr>w_phase := Executing i\<rparr>"])
        (auto simp: set_phase_set_job(1-4) sm state_of_upd [OF sm])
    then show ?thesis using False by (simp add: worker_begin_def)
  qed
qed

lemma core_ok_pending: "core_ok m \<Longrightarrow> core_ok (set_pending k ps m)"
proof -
  assume ok: "core_ok m"
  have s: "state_of (set_pending k ps m) = state_of m" by (simp add: set_pending_def state_of_def fun_eq_iff)
  have ph: "phase_ok (set_pending k ps m) ph = phase_ok m ph" for ph by (rule phase_ok_cong) (simp add: s)
  have mp: "map w_phase (workers (set_pending k ps m)) = map w_phase (workers m)"
    by (cases "k < length (workers m)") (simp_all add: set_pending_def map_update list_update_same_conv list_update_beyond)
  have flight: "in_flight m = queue m @ concat (map held (map w_phase (workers m)))" for m
    by (simp add: in_flight_def comp_def)
  have w: "w_phase ` set (workers (set_pending k ps m)) = w_phase ` set (workers m)"
    using mp by (metis list.set_map)
  have fl: "in_flight (set_pending k ps m) = in_flight m"
    unfolding flight mp by (simp add: set_pending_def)
  have "(\<forall>w \<in> set (workers m'). P (w_phase w)) = (\<forall>ph \<in> w_phase ` set (workers m'). P ph)"
    for P and m' :: manager by simp
  then have ws: "(\<forall>w \<in> set (workers (set_pending k ps m)). P (w_phase w)) = (\<forall>w \<in> set (workers m). P (w_phase w))" for P
    using w by metis
  have ex: "(\<exists>v \<in> set (workers (set_pending k ps m)). w_phase v = ph) = (\<exists>v \<in> set (workers m). w_phase v = ph)" for ph
    using ws [of "\<lambda>x. x \<noteq> ph"] by blast
  have "jobs (set_pending k ps m) = jobs m" "queue (set_pending k ps m) = queue m"
    "store (set_pending k ps m) = store m" "next_job_id (set_pending k ps m) = next_job_id m"
    by (simp_all add: set_pending_def)
  then show ?thesis
    unfolding core_ok_def fl s ph ws ex using ok by (simp add: core_ok_def)
qed

lemma core_ok_publish: "core_ok m \<Longrightarrow> core_ok (m\<lparr>outbox := o', published := p'\<rparr>)"
proof -
  assume ok: "core_ok m"
  have s: "state_of (m\<lparr>outbox := o', published := p'\<rparr>) = state_of m" by (simp add: state_of_def fun_eq_iff)
  show ?thesis
    using core_okD(2-5,8) [OF ok] by (intro core_ok_frame [OF ok]) (auto simp: s)
qed

lemma core_ok_finish:
  assumes ok: "core_ok m" and r: "ready_phase m k = Some (Executing i)"
  shows "core_ok (worker_finish k now out i m)"
proof -
  note k = ready_phaseD [OF r]
  have st: "state_of m i \<in> {Some JobRunning, Some JobCancelled}"
    using core_okD(7) [OF ok nth_mem [OF k(1)]] k(2) by simp
  then obtain j where j: "store m i = Some j" by (auto simp: state_of_def)
  let ?f = "\<lambda>j. j\<lparr>jb_info := final_info now out j, has_func := False\<rparr>"
  let ?m = "set_phase k Waiting (set_job i ?f m)"
  have sm: "store ?m = (store m)(i \<mapsto> ?f j)" by (simp add: set_phase_set_job j)
  have jk: "job_ok i (next_job_id m) (?f j)"
    using core_okD(8) [OF ok j] st j
    by (auto simp: job_ok_def final_info_def Let_def progress_ok_bounds state_of_def split: job_outcome.splits)
  have nr: "ji_state (final_info now out j) \<noteq> JobRunning"
    by (simp add: final_info_def Let_def split: job_outcome.splits)
  have "core_ok ?m"
    using jk nr core_okD(1) [OF ok]
    by (intro core_ok_worker [OF ok k(1,2), where w = "(workers m ! k)\<lparr>w_phase := Waiting\<rparr>"])
       (auto simp: set_phase_set_job(1-4) sm state_of_upd [OF sm] in_flight_def)
  then have "core_ok (set_pending k (final_events (final_info now out j)) ?m)" by (rule core_ok_pending)
  moreover have "worker_finish k now out i m = set_pending k (final_events (final_info now out j)) ?m"
    using k(1) by (cases "workers m ! k") (simp add: worker_finish_def j set_phase_def set_pending_def set_job_def)
  ultimately show ?thesis by simp
qed

lemma core_ok_progress:
  assumes ok: "core_ok m" and r: "ready_phase m k = Some (Executing i)"
  shows "core_ok (worker_progress k now p i m)"
proof (cases "is_finite p \<and> state_of m i \<noteq> Some JobCancelled")
  case True
  note k = ready_phaseD [OF r]
  have "state_of m i = Some JobRunning"
    using core_okD(7) [OF ok nth_mem [OF k(1)]] k(2) True by simp
  then obtain j where j: "store m i = Some j" "ji_state (jb_info j) = JobRunning" by (auto simp: state_of_def)
  let ?q = "double_clamp p (double_of_int 0) (double_of_int 100)"
  let ?f = "\<lambda>j. j\<lparr>jb_info := (jb_info j)\<lparr>ji_progress := ?q, ji_updated := now\<rparr>\<rparr>"
  let ?m = "set_job i ?f m"
  have sm: "store ?m = (store m)(i \<mapsto> ?f j)" by (simp add: set_job_def j(1))
  have s: "state_of ?m = state_of m" by (auto simp: fun_eq_iff state_of_def sm j)
  have jk: "job_ok i (next_job_id m) (?f j)"
    using core_okD(8) [OF ok j(1)] True j(2) by (simp add: job_ok_def progress_ok_bounds)
  have "core_ok ?m"
    using core_okD(2-5) [OF ok] core_okD(8) [OF ok] jk
    by (intro core_ok_frame [OF ok]) (auto simp: s sm)
  then have "core_ok (set_pending k (progress_events i ?q) ?m)" by (rule core_ok_pending)
  then show ?thesis using True by (simp add: worker_progress_def Let_def)
qed (auto simp: worker_progress_def ok)

section \<open>Calls under way\<close>

fun number_of :: "caller \<Rightarrow> string list" where
  "number_of (Numbered_Submit i typ now) = [i]"
| "number_of _ = []"

definition numbered :: "manager \<Rightarrow> string list" where
  "numbered m = concat (map number_of (callers m))"

text \<open>
  A number is used once, a job that was found exists, and a manager that neither runs nor stops has no workers.
\<close>

definition calls_ok :: "manager \<Rightarrow> bool" where
  "calls_ok m \<longleftrightarrow> distinct (numbered m) \<and> (\<forall>i \<in> set (numbered m). store m i = None \<and> (\<exists>k < next_job_id m. i = job_name k)) \<and>
     (\<forall>i. Found_Cancel i \<in> set (callers m) \<longrightarrow> store m i \<noteq> None) \<and> (mgr_running m \<longrightarrow> \<not> stopping m) \<and>
     (workers m = [] \<or> mgr_running m \<or> stopping m)"

definition mgr_ok :: "manager \<Rightarrow> bool" where
  "mgr_ok m \<longleftrightarrow> core_ok m \<and> calls_ok m"

lemma mgr_ok_parts: "mgr_ok m \<Longrightarrow> core_ok m" "mgr_ok m \<Longrightarrow> calls_ok m"
  by (simp_all add: mgr_ok_def)

lemma calls_okD:
  assumes "calls_ok m"
  shows "distinct (numbered m)" "i \<in> set (numbered m) \<Longrightarrow> store m i = None" "i \<in> set (numbered m) \<Longrightarrow> \<exists>k < next_job_id m. i = job_name k"
    "Found_Cancel i \<in> set (callers m) \<Longrightarrow> store m i \<noteq> None" "mgr_running m \<Longrightarrow> \<not> stopping m" "workers m = [] \<or> mgr_running m \<or> stopping m"
  using assms by (auto simp: calls_ok_def)

text \<open>Steps that leave the calls and the control of the workers alone.\<close>

definition calls_same :: "manager \<Rightarrow> manager \<Rightarrow> bool" where
  "calls_same m m' \<longleftrightarrow> callers m' = callers m \<and> (\<forall>i. store m' i = None \<longleftrightarrow> store m i = None) \<and> next_job_id m' = next_job_id m \<and>
     mgr_running m' = mgr_running m \<and> stopping m' = stopping m \<and> length (workers m') = length (workers m)"

lemma calls_ok_same: "calls_ok m \<Longrightarrow> calls_same m m' \<Longrightarrow> calls_ok m'"
proof -
  assume ok: "calls_ok m" and same: "calls_same m m'"
  have "numbered m' = numbered m" "workers m' = [] \<longleftrightarrow> workers m = []" using same by (auto simp: numbered_def calls_same_def)
  then show ?thesis using ok same unfolding calls_ok_def calls_same_def by auto
qed

lemma calls_same_refl [simp]: "calls_same m m"
  by (simp add: calls_same_def)

lemma calls_same_trans: "calls_same a b \<Longrightarrow> calls_same b c \<Longrightarrow> calls_same a c"
  by (simp add: calls_same_def)

lemma set_job_known: "(store (set_job i f m) a = None) = (store m a = None)"
  by (simp add: set_job_def)

lemma step_fields [simp]:
  "callers (set_phase k ph m) = callers m" "mgr_running (set_phase k ph m) = mgr_running m" "stopping (set_phase k ph m) = stopping m"
  "store (set_phase k ph m) = store m" "next_job_id (set_phase k ph m) = next_job_id m" "length (workers (set_phase k ph m)) = length (workers m)"
  "callers (set_pending k ps m) = callers m" "mgr_running (set_pending k ps m) = mgr_running m" "stopping (set_pending k ps m) = stopping m"
  "store (set_pending k ps m) = store m" "next_job_id (set_pending k ps m) = next_job_id m" "length (workers (set_pending k ps m)) = length (workers m)"
  "callers (take_job k i m) = callers m" "mgr_running (take_job k i m) = mgr_running m" "stopping (take_job k i m) = stopping m"
  "store (take_job k i m) = store m" "next_job_id (take_job k i m) = next_job_id m" "length (workers (take_job k i m)) = length (workers m)"
  "callers (set_job i f m) = callers m" "mgr_running (set_job i f m) = mgr_running m" "stopping (set_job i f m) = stopping m"
  by (simp_all add: set_phase_def set_pending_def take_job_def set_job_def)

lemma calls_same_basic [simp]:
  "calls_same m (set_phase k ph m') = calls_same m m'" "calls_same m (set_pending k ps m') = calls_same m m'"
  "calls_same m (set_job i f m') = calls_same m m'" "calls_same m (take_job k i m') = calls_same m m'"
  "calls_same m (m'\<lparr>queue := q\<rparr>) = calls_same m m'" "calls_same m (m'\<lparr>published := pb\<rparr>) = calls_same m m'"
  "calls_same m (m'\<lparr>outbox := ob\<rparr>) = calls_same m m'" "calls_same m (m'\<lparr>crashed := b\<rparr>) = calls_same m m'"
  by (simp_all add: calls_same_def set_job_known)

lemma calls_same_flags: "calls_same m (m\<lparr>store := flag_all m\<rparr>)"
  by (simp add: calls_same_def flag_all_def)

lemma calls_same_workers:
  "calls_same m (worker_pop k m)" "calls_same m (worker_check k i m)" "calls_same m (worker_begin k now i m)"
  "calls_same m (worker_progress k now p i m)" "calls_same m (worker_finish k now out i m)" "calls_same m (outbox_publish k m)"
  "calls_same m (worker_publish k m)" "calls_same m (reset_jobs m)"
proof -
  show "calls_same m (outbox_publish k m)" by (auto simp: outbox_publish_def calls_same_def)
  show "calls_same m (reset_jobs m)" using calls_same_flags [of m] by (simp add: reset_jobs_def calls_same_def)
qed (auto simp: worker_pop_def worker_check_def worker_begin_def worker_progress_def worker_finish_def worker_publish_def Let_def
    split: list.split option.split)

lemma calls_same_mark: "calls_same m (snd (cancel_mark now i m))"
  by (auto simp: cancel_mark_def calls_same_def Let_def split: option.split)

lemma caller_atD: "caller_at m n = Some c \<Longrightarrow> n < length (callers m) \<and> callers m = take n (callers m) @ c # drop (Suc n) (callers m)"
  by (auto simp: caller_at_def id_take_nth_drop split: if_splits)

text \<open>A call that returns leaves the others.\<close>

lemma numbered_at:
  assumes "caller_at m n = Some c"
  shows "numbered m = concat (map number_of (take n (callers m))) @ number_of c @ concat (map number_of (drop (Suc n) (callers m)))"
    "numbered (returned n m) = concat (map number_of (take n (callers m))) @ concat (map number_of (drop (Suc n) (callers m)))"
proof -
  have "callers m = take n (callers m) @ c # drop (Suc n) (callers m)" using caller_atD [OF assms] by blast
  then have "map number_of (callers m) = map number_of (take n (callers m)) @ number_of c # map number_of (drop (Suc n) (callers m))"
    by (metis list.simps(9) map_append)
  then show "numbered m = concat (map number_of (take n (callers m))) @ number_of c @ concat (map number_of (drop (Suc n) (callers m)))"
    unfolding numbered_def by simp
qed (simp add: numbered_def returned_def)

lemma returned_callers: "set (callers (returned n m)) \<subseteq> set (callers m)"
  by (auto simp: returned_def dest: in_set_takeD in_set_dropD)

lemma returned_numbered: "caller_at m n = Some c \<Longrightarrow> distinct (numbered m) \<Longrightarrow> distinct (numbered (returned n m)) \<and>
    set (numbered (returned n m)) \<subseteq> set (numbered m) \<and> set (numbered (returned n m)) \<inter> set (number_of c) = {}"
  using numbered_at [of m n c] by auto

lemma returned_fields [simp]:
  "store (returned n m) = store m" "next_job_id (returned n m) = next_job_id m" "mgr_running (returned n m) = mgr_running m"
  "stopping (returned n m) = stopping m" "workers (returned n m) = workers m" "jobs (returned n m) = jobs m" "queue (returned n m) = queue m"
  "state_of (returned n m) = state_of m" "in_flight (returned n m) = in_flight m"
  by (simp_all add: returned_def state_of_def in_flight_def fun_eq_iff)

lemma core_ok_same: "core_ok m \<Longrightarrow> store m' = store m \<Longrightarrow> next_job_id m' = next_job_id m \<Longrightarrow> workers m' = workers m \<Longrightarrow> jobs m' = jobs m \<Longrightarrow>
    queue m' = queue m \<Longrightarrow> core_ok m'"
  by (rule core_ok_frame [of m]) (auto simp: state_of_def fun_eq_iff dest: core_okD(2-5,8))

lemma calls_ok_returned: "caller_at m n = Some c \<Longrightarrow> calls_ok m \<Longrightarrow> calls_ok (returned n m)"
  using returned_numbered [of m n c] returned_callers [of n m] unfolding calls_ok_def by auto

lemma callers_snoc: "numbered (m\<lparr>callers := callers m @ [c]\<rparr>) = numbered m @ number_of c"
  by (simp add: numbered_def)

lemma job_name_less: "\<exists>k < n. i = job_name k \<Longrightarrow> \<exists>k < Suc n. i = job_name k"
  using less_SucI by blast

text \<open>Each section of a caller keeps both invariants.\<close>

lemma mgr_ok_numbered:
  assumes ok: "mgr_ok m" and c: "caller_at m n = Some (Checked_Submit ty)"
  shows "mgr_ok (job_step (SubmitNumber n now) m)"
proof -
  let ?i = "job_name (next_job_id m)"
  let ?m = "m\<lparr>next_job_id := Suc (next_job_id m), callers := (callers m)[n := Numbered_Submit ?i ty now]\<rparr>"
  have e: "job_step (SubmitNumber n now) m = ?m" using c by (simp add: submit_number_def)
  have l: "n < length (callers m)" using caller_atD [OF c] by blast
  have "callers ?m = take n (callers m) @ Numbered_Submit ?i ty now # drop (Suc n) (callers m)"
    using l by (simp add: upd_conv_take_nth_drop)
  then have n: "numbered ?m = concat (map number_of (take n (callers m))) @ ?i # concat (map number_of (drop (Suc n) (callers m)))"
    unfolding numbered_def by simp
  have o: "numbered m = concat (map number_of (take n (callers m))) @ concat (map number_of (drop (Suc n) (callers m)))"
    using numbered_at(1) [OF c] by simp
  have new: "store m ?i = None" "?i \<notin> set (numbered m)"
    using fresh_job [OF mgr_ok_parts(1) [OF ok]] calls_okD(3) [OF mgr_ok_parts(2) [OF ok], of ?i] by auto
  have set: "set (numbered ?m) = insert ?i (set (numbered m))" "distinct (numbered ?m)"
    using new(2) calls_okD(1) [OF mgr_ok_parts(2) [OF ok]] unfolding n o by auto
  have found: "Found_Cancel a \<in> set (callers ?m) \<Longrightarrow> Found_Cancel a \<in> set (callers m)" for a
    using set_update_subset_insert [of "callers m" n "Numbered_Submit ?i ty now"] by auto
  have "calls_ok ?m"
    using mgr_ok_parts(2) [OF ok] set new(1) found unfolding calls_ok_def by (auto intro: job_name_less)
  moreover have "core_ok ?m"
    using core_ok_same [OF core_ok_number [OF mgr_ok_parts(1) [OF ok]], of ?m] by (simp add: submit_number_def)
  ultimately show ?thesis unfolding e by (simp add: mgr_ok_def)
qed

lemma mgr_ok_inserted:
  assumes ok: "mgr_ok m" and c: "caller_at m n = Some (Numbered_Submit i ty now)"
  shows "mgr_ok (returned n (snd (submit_insert order now i ty m)))"
proof -
  let ?m = "snd (submit_insert order now i ty m)"
  have i: "i \<in> set (numbered m)" using numbered_at(1) [OF c] by simp
  note C = mgr_ok_parts(2) [OF ok]
  have core: "core_ok ?m" by (rule core_ok_insert [OF mgr_ok_parts(1) [OF ok] calls_okD(2,3) [OF C i]])
  have f: "callers ?m = callers m" "next_job_id ?m = next_job_id m" "mgr_running ?m = mgr_running m" "stopping ?m = stopping m"
      "workers ?m = workers m" "store ?m = store m \<or> store ?m = (store m)(i \<mapsto> new_job now i ty)"
    by (auto simp: submit_insert_def Let_def)
  have r: "numbered (returned n ?m) = numbered (returned n m)" "callers (returned n ?m) = callers (returned n m)"
    using f(1) by (simp_all add: numbered_def returned_def)
  have d: "distinct (numbered (returned n m))" "set (numbered (returned n m)) \<subseteq> set (numbered m)" "i \<notin> set (numbered (returned n m))"
    using returned_numbered [OF c calls_okD(1) [OF C]] by auto
  have same: "a \<in> set (numbered (returned n m)) \<Longrightarrow> store ?m a = None" for a
    using f(6) d(2,3) calls_okD(2) [OF C] by auto
  have "calls_ok (returned n ?m)"
    using d same returned_callers [of n m] calls_okD(3-6) [OF C] f unfolding calls_ok_def r returned_fields by fastforce
  moreover have "core_ok (returned n ?m)" by (rule core_ok_same [OF core]) simp_all
  ultimately show ?thesis by (simp add: mgr_ok_def)
qed

lemma mgr_ok_marked:
  assumes ok: "mgr_ok m" and c: "caller_at m n = Some cl"
  shows "mgr_ok (returned n (snd (cancel_mark now i m)))"
proof -
  let ?m = "snd (cancel_mark now i m)"
  have "callers ?m = callers m" using calls_same_mark [of m now i] by (simp only: calls_same_def)
  then have "caller_at ?m n = Some cl" using c by (simp only: caller_at_def)
  then have "calls_ok (returned n ?m)"
    using calls_ok_returned calls_ok_same [OF mgr_ok_parts(2) [OF ok] calls_same_mark] by blast
  moreover have "core_ok (returned n ?m)"
    using core_ok_mark [OF mgr_ok_parts(1) [OF ok], of now i] by (rule core_ok_same) simp_all
  ultimately show ?thesis by (simp add: mgr_ok_def)
qed

lemma mgr_ok_call: "mgr_ok m \<Longrightarrow> number_of c = [] \<Longrightarrow> (\<And>i. c = Found_Cancel i \<Longrightarrow> store m i \<noteq> None) \<Longrightarrow> mgr_ok (m\<lparr>callers := callers m @ [c]\<rparr>)"
proof -
  assume ok: "mgr_ok m" and c: "number_of c = []" "\<And>i. c = Found_Cancel i \<Longrightarrow> store m i \<noteq> None"
  have "calls_ok (m\<lparr>callers := callers m @ [c]\<rparr>)"
    using mgr_ok_parts(2) [OF ok] c unfolding calls_ok_def callers_snoc by auto
  moreover have "core_ok (m\<lparr>callers := callers m @ [c]\<rparr>)" using mgr_ok_parts(1) [OF ok] by (rule core_ok_same) simp_all
  ultimately show ?thesis by (simp add: mgr_ok_def)
qed

lemma mgr_ok_initialize: "mgr_ok m \<Longrightarrow> mgr_ok (initialize n m)"
proof -
  assume ok: "mgr_ok m"
  have "core_ok (initialize n m)"
    using core_ok_initialize [OF mgr_ok_parts(1) [OF ok]] calls_okD(6) [OF mgr_ok_parts(2) [OF ok]] by blast
  moreover have "calls_ok (initialize n m)"
    using mgr_ok_parts(2) [OF ok] unfolding calls_ok_def initialize_def numbered_def by auto
  ultimately show ?thesis by (simp add: mgr_ok_def)
qed

lemma mgr_ok_shutdown: "mgr_ok m \<Longrightarrow> mgr_ok (shutdown_begin m)"
proof -
  assume ok: "mgr_ok m"
  have "calls_ok (m\<lparr>store := flag_all m\<rparr>)" using calls_ok_same [OF mgr_ok_parts(2) [OF ok] calls_same_flags] .
  then have "calls_ok (shutdown_begin m)"
    using mgr_ok_parts(2) [OF ok] unfolding shutdown_begin_def calls_ok_def numbered_def by auto
  then show ?thesis using core_ok_shutdown mgr_ok_parts(1) [OF ok] by (simp add: mgr_ok_def)
qed

lemma mgr_ok_join: "mgr_ok m \<Longrightarrow> \<forall>w \<in> set (workers m). w_phase w = Exited \<Longrightarrow> mgr_ok (shutdown_join m)"
  using core_ok_join [of m] unfolding mgr_ok_def calls_ok_def by (auto simp: shutdown_join_def numbered_def)

text \<open>The operations as a whole, for callers that are not interrupted.\<close>

lemma mgr_ok_submit: "mgr_ok m \<Longrightarrow> mgr_ok (snd (submit_job order now ty func m))"
proof -
  assume ok: "mgr_ok m"
  let ?i = "job_name (next_job_id m)" and ?m = "m\<lparr>next_job_id := Suc (next_job_id m)\<rparr>"
  have core: "core_ok ?m" using core_ok_number [OF mgr_ok_parts(1) [OF ok]] by (simp add: submit_number_def)
  have fresh: "store ?m ?i = None" "\<exists>k < next_job_id ?m. ?i = job_name k" using fresh_job [OF mgr_ok_parts(1) [OF ok]] by auto
  have n: "?i \<notin> set (numbered m)" using calls_okD(3) [OF mgr_ok_parts(2) [OF ok], of ?i] by auto
  have calls: "calls_ok ?m" using mgr_ok_parts(2) [OF ok] unfolding calls_ok_def numbered_def by (auto intro: job_name_less)
  let ?r = "snd (submit_insert order now ?i ty ?m)"
  have f: "callers ?r = callers m" "next_job_id ?r = next_job_id ?m" "mgr_running ?r = mgr_running m" "stopping ?r = stopping m"
      "workers ?r = workers m" "store ?r = store m \<or> store ?r = (store m)(?i \<mapsto> new_job now ?i ty)"
    by (auto simp: submit_insert_def Let_def)
  have "numbered ?r = numbered m" using f(1) by (simp add: numbered_def)
  then have "calls_ok ?r" using calls f n unfolding calls_ok_def numbered_def by fastforce
  then show ?thesis using ok core_ok_insert [OF core fresh] by (auto simp: submit_job_def submit_number_def mgr_ok_def)
qed

lemma mgr_ok_cancel: "mgr_ok m \<Longrightarrow> mgr_ok (snd (cancel_job now i m))"
  using core_ok_mark calls_ok_same [OF _ calls_same_mark] by (auto simp: cancel_job_def mgr_ok_def)

section \<open>Every step\<close>

lemma core_ok_worker_publish: "core_ok m \<Longrightarrow> core_ok (worker_publish k m)"
proof -
  assume ok: "core_ok m"
  have "core_ok ((set_pending k ps m)\<lparr>outbox := outbox (set_pending k ps m), published := p\<rparr>)" for ps p
    by (intro core_ok_publish core_ok_pending ok)
  then have "core_ok ((set_pending k ps m)\<lparr>published := p\<rparr>)" for ps p by simp
  then show ?thesis using ok by (auto simp: worker_publish_def split: list.split)
qed

lemma mgr_ok_by_parts: "mgr_ok m \<Longrightarrow> core_ok m' \<Longrightarrow> calls_same m m' \<Longrightarrow> mgr_ok m'"
  using calls_ok_same [of m m'] unfolding mgr_ok_def by blast

lemma mgr_ok_workers:
  assumes ok: "mgr_ok m" and r: "ready_phase m k = Some ph"
  shows "ph = Waiting \<Longrightarrow> mgr_ok (worker_pop k m)" "ph = Popped i \<Longrightarrow> mgr_ok (worker_check k i m)"
    "ph = Checked i \<Longrightarrow> mgr_ok (worker_begin k now i m)" "ph = Executing i \<Longrightarrow> mgr_ok (worker_progress k now p i m)"
    "ph = Executing i \<Longrightarrow> mgr_ok (worker_finish k now out i m)"
  using r mgr_ok_by_parts [OF ok core_ok_pop [OF mgr_ok_parts(1) [OF ok]] calls_same_workers(1)]
    mgr_ok_by_parts [OF ok core_ok_check [OF mgr_ok_parts(1) [OF ok]] calls_same_workers(2)]
    mgr_ok_by_parts [OF ok core_ok_begin [OF mgr_ok_parts(1) [OF ok]] calls_same_workers(3)]
    mgr_ok_by_parts [OF ok core_ok_progress [OF mgr_ok_parts(1) [OF ok]] calls_same_workers(4)]
    mgr_ok_by_parts [OF ok core_ok_finish [OF mgr_ok_parts(1) [OF ok]] calls_same_workers(5)]
  by simp_all

lemma mgr_ok_publishing: "mgr_ok m \<Longrightarrow> mgr_ok (outbox_publish n m)" "mgr_ok m \<Longrightarrow> mgr_ok (worker_publish k m)" "mgr_ok m \<Longrightarrow> mgr_ok (reset_jobs m)"
proof -
  assume ok: "mgr_ok m"
  have "core_ok (outbox_publish n m)" using mgr_ok_parts(1) [OF ok] by (auto simp: outbox_publish_def core_ok_publish)
  then show "mgr_ok (outbox_publish n m)" by (rule mgr_ok_by_parts [OF ok _ calls_same_workers(6)])
  show "mgr_ok (worker_publish k m)"
    using core_ok_worker_publish [OF mgr_ok_parts(1) [OF ok]] by (rule mgr_ok_by_parts [OF ok _ calls_same_workers(7)])
  show "mgr_ok (reset_jobs m)"
    using core_ok_reset [OF mgr_ok_parts(1) [OF ok]] by (rule mgr_ok_by_parts [OF ok _ calls_same_workers(8)])
qed

lemma mgr_ok_calls:
  assumes ok: "mgr_ok m"
  shows "mgr_ok (job_step (SubmitCheck ty func) m)" "mgr_ok (job_step (CancelFind i) m)" "mgr_ok (job_step (SubmitInsert n order) m)"
    "mgr_ok (job_step (CancelMark n now) m)" "mgr_ok (job_step (SubmitNumber n now) m)"
proof -
  show "mgr_ok (job_step (SubmitCheck ty func) m)" using ok mgr_ok_call [OF ok, of "Checked_Submit ty"] by simp
  have "cancel_find i m \<Longrightarrow> store m i \<noteq> None"
    using core_okD(5) [OF mgr_ok_parts(1) [OF ok]] by (simp add: cancel_find_def)
  then show "mgr_ok (job_step (CancelFind i) m)" using ok mgr_ok_call [OF ok, of "Found_Cancel i"] by simp
  show "mgr_ok (job_step (SubmitInsert n order) m)"
    using ok by (auto simp: mgr_ok_inserted [OF ok] split: option.split caller.split)
  show "mgr_ok (job_step (CancelMark n now) m)"
    using ok by (auto simp: mgr_ok_marked [OF ok] split: option.split caller.split)
  show "mgr_ok (job_step (SubmitNumber n now) m)"
  proof (cases "\<exists>ty. caller_at m n = Some (Checked_Submit ty)")
    case True
    then show ?thesis using mgr_ok_numbered [OF ok] by blast
  next
    case False
    then have "job_step (SubmitNumber n now) m = m" by (auto split: option.split caller.split)
    then show ?thesis using ok by simp
  qed
qed

lemma mgr_ok_step: "mgr_ok m \<Longrightarrow> mgr_ok (job_step e m)"
proof -
  assume ok: "mgr_ok m"
  show ?thesis
    by (cases e) (simp_all only: mgr_ok_calls [OF ok],
      auto simp: ok mgr_ok_initialize mgr_ok_shutdown mgr_ok_join mgr_ok_publishing mgr_ok_workers [OF ok]
        split: option.split worker_phase.split)
qed

lemma mgr_ok_exec: "mgr_ok m \<Longrightarrow> mgr_ok (job_exec e m)"
  by (simp add: job_exec_def mgr_ok_step)

lemma mgr_ok_new: "mgr_ok new_manager"
  by (simp add: mgr_ok_def core_ok_def calls_ok_def numbered_def new_manager_def in_flight_def state_of_def)

lemma reachable_ok: "jobs_reachable m \<Longrightarrow> mgr_ok m"
  by (induction rule: jobs_reachable.induct) (simp_all add: mgr_ok_new mgr_ok_exec)

section \<open>States move forward\<close>

text \<open>The moves a step may make with the state of a job.\<close>

definition state_move :: "job_state \<Rightarrow> job_state \<Rightarrow> bool" where
  "state_move s s' \<longleftrightarrow> s' = s \<or> s = JobQueued \<and> s' \<in> {JobRunning, JobCancelled} \<or>
     s = JobRunning \<and> s' \<in> {JobCompleted, JobFailed, JobCancelled}"

lemma state_move_refl [simp]: "state_move s s"
  by (simp add: state_move_def)

lemma state_of_fields [simp]:
  "state_of (m\<lparr>workers := ws\<rparr>) = state_of m" "state_of (m\<lparr>outbox := ob\<rparr>) = state_of m"
  "state_of (m\<lparr>published := pb\<rparr>) = state_of m" "state_of (m\<lparr>queue := q\<rparr>) = state_of m"
  "state_of (m\<lparr>jobs := js\<rparr>) = state_of m" "state_of (m\<lparr>mgr_running := b\<rparr>) = state_of m"
  "state_of (m\<lparr>next_job_id := n\<rparr>) = state_of m"
  "state_of (m\<lparr>callers := cs\<rparr>) = state_of m" "state_of (m\<lparr>crashed := b\<rparr>) = state_of m"
  "state_of (m\<lparr>stopping := b\<rparr>) = state_of m" "state_of (m\<lparr>dead_unlocks := dl\<rparr>) = state_of m"
  "state_of (set_phase k ph m) = state_of m" "state_of (set_pending k ps m) = state_of m" "state_of (take_job k i m) = state_of m"
  by (simp_all add: state_of_def fun_eq_iff set_phase_def set_pending_def take_job_def)

lemma state_of_set_job:
  "state_of (set_job i f m) a =
     (if a = i then map_option (\<lambda>j. ji_state (jb_info (f j))) (store m i) else state_of m a)"
  by (simp add: state_of_def set_job_def option.map_comp comp_def)

lemma state_of_progress: "state_of (worker_progress k now p i m) = state_of m"
  by (auto simp: worker_progress_def Let_def fun_eq_iff state_of_set_job state_of_def [of m])

text \<open>What a step can be, by the part of the code that runs.\<close>

lemma job_step_cases:
  obtains (stay) "job_step e m = m"
  | (check) ty where "job_step e m = m\<lparr>callers := callers m @ [Checked_Submit ty]\<rparr>"
  | (number) n i ty now where "job_step e m = (snd (submit_number m))\<lparr>callers := (callers m)[n := Numbered_Submit i ty now]\<rparr>"
  | (insert) n order i ty now where "caller_at m n = Some (Numbered_Submit i ty now)"
      "job_step e m = returned n (snd (submit_insert order now i ty m))"
  | (find) i where "e = CancelFind i" "job_step e m = m\<lparr>callers := callers m @ [Found_Cancel i]\<rparr>"
  | (mark) n now i where "caller_at m n = Some (Found_Cancel i)" "job_step e m = returned n (snd (cancel_mark now i m))"
  | (initialize) n where "job_step e m = initialize n m"
  | (shutdown) "job_step e m = shutdown_begin m"
  | (join) "job_step e m = shutdown_join m"
  | (reset) "job_step e m = reset_jobs m"
  | (outbox) n where "job_step e m = outbox_publish n m"
  | (pop) k where "job_step e m = worker_pop k m"
  | (work) k i where "ready_phase m k = Some (Popped i)" "job_step e m = worker_check k i m"
  | (start) k now i where "ready_phase m k = Some (Checked i)" "job_step e m = worker_begin k now i m"
  | (progress) k now p i where "ready_phase m k = Some (Executing i)" "job_step e m = worker_progress k now p i m"
  | (finish) k now res i where "ready_phase m k = Some (Executing i)" "job_step e m = worker_finish k now res i m"
  | (publish) k where "job_step e m = worker_publish k m"
proof (cases e)
  case (SubmitCheck ty func)
  then show ?thesis using stay check [of ty] by (cases "submit_allowed ty func m") simp_all
next
  case (SubmitNumber n now)
  show ?thesis
  proof (cases "\<exists>ty. caller_at m n = Some (Checked_Submit ty)")
    case True
    then obtain ty where "caller_at m n = Some (Checked_Submit ty)" by blast
    then show ?thesis using SubmitNumber by (intro number [of n "job_name (next_job_id m)" ty now]) (simp add: submit_number_def)
  next
    case False
    then show ?thesis using SubmitNumber by (intro stay) (auto split: option.split caller.split)
  qed
next
  case (SubmitInsert n order)
  show ?thesis
  proof (cases "\<exists>i ty now. caller_at m n = Some (Numbered_Submit i ty now)")
    case True
    then obtain i ty now where "caller_at m n = Some (Numbered_Submit i ty now)" by blast
    then show ?thesis using SubmitInsert insert [of n i ty now order] by simp
  next
    case False
    then show ?thesis using SubmitInsert by (intro stay) (auto split: option.split caller.split)
  qed
next
  case (CancelFind i)
  then show ?thesis using stay find [of i] by (cases "cancel_find i m") simp_all
next
  case (CancelMark n now)
  show ?thesis
  proof (cases "\<exists>i. caller_at m n = Some (Found_Cancel i)")
    case True
    then obtain i where "caller_at m n = Some (Found_Cancel i)" by blast
    then show ?thesis using CancelMark mark [of n i now] by simp
  next
    case False
    then show ?thesis using CancelMark by (intro stay) (auto split: option.split caller.split)
  qed
next
  case (WorkerCheck k)
  show ?thesis
  proof (cases "\<exists>i. ready_phase m k = Some (Popped i)")
    case True
    then show ?thesis using WorkerCheck work [of k] by auto
  next
    case False
    then show ?thesis using WorkerCheck by (intro stay) (auto split: option.split worker_phase.split)
  qed
next
  case (WorkerBegin k now)
  show ?thesis
  proof (cases "\<exists>i. ready_phase m k = Some (Checked i)")
    case True
    then show ?thesis using WorkerBegin start [of k] by auto
  next
    case False
    then show ?thesis using WorkerBegin by (intro stay) (auto split: option.split worker_phase.split)
  qed
next
  case (WorkerProgress k now p)
  show ?thesis
  proof (cases "\<exists>i. ready_phase m k = Some (Executing i)")
    case True
    then show ?thesis using WorkerProgress progress [of k] by auto
  next
    case False
    then show ?thesis using WorkerProgress by (intro stay) (auto split: option.split worker_phase.split)
  qed
next
  case (WorkerFinish k now res)
  show ?thesis
  proof (cases "\<exists>i. ready_phase m k = Some (Executing i)")
    case True
    then show ?thesis using WorkerFinish finish [of k] by auto
  next
    case False
    then show ?thesis using WorkerFinish by (intro stay) (auto split: option.split worker_phase.split)
  qed
next
  case ShutdownJoin
  then show ?thesis using stay join by (metis job_step.simps(8))
next
  case (WorkerPop k)
  then show ?thesis using stay pop [of k] by (metis job_step.simps(11))
next
  case (WorkerPublish k)
  then show ?thesis using stay publish [of k] by (metis job_step.simps(16))
next
  case (Initialize n)
  then show ?thesis using initialize [of n] by simp
next
  case (OutboxPublish n)
  then show ?thesis using outbox [of n] by simp
qed (simp_all add: shutdown reset)

text \<open>What the sections of a caller do to the state of a job.\<close>

lemma state_of_insert: "store m i = None \<Longrightarrow> state_of m a \<noteq> None \<Longrightarrow> state_of (snd (submit_insert order now i ty m)) a = state_of m a"
  by (auto simp: submit_insert_def Let_def state_of_def)

lemma state_of_mark:
  "state_of (snd (cancel_mark now i m)) a = state_of m a \<or>
     a = i \<and> state_of m a \<in> {Some JobQueued, Some JobRunning} \<and> state_of (snd (cancel_mark now i m)) a = Some JobCancelled"
  by (auto simp: cancel_mark_def Let_def state_of_def split: option.split)

lemma state_of_sections:
  "state_of (shutdown_begin m) = state_of m" "state_of (reset_jobs m) = state_of m" "state_of (snd (submit_number m)) = state_of m"
  "state_of (initialize n m) = state_of m" "state_of (shutdown_join m) = state_of m" "state_of (outbox_publish n m) = state_of m"
  "state_of (worker_pop k m) = state_of m" "state_of (worker_check k i m) = state_of m" "state_of (worker_publish k m) = state_of m"
proof -
  have "state_of (m\<lparr>mgr_running := False, stopping := True, store := flag_all m\<rparr>) = state_of m" by (rule state_of_flag_all) simp
  then show "state_of (shutdown_begin m) = state_of m" by (simp add: shutdown_begin_def)
  show "state_of (reset_jobs m) = state_of m" by (rule state_of_flag_all) (simp add: reset_jobs_def)
qed (auto simp: submit_number_def initialize_def shutdown_join_def outbox_publish_def worker_pop_def worker_check_def worker_publish_def
    split: list.split option.split)

lemma numbered_at_free: "mgr_ok m \<Longrightarrow> caller_at m n = Some (Numbered_Submit i ty now) \<Longrightarrow> i \<in> set (numbered m) \<and> store m i = None"
  using numbered_at(1) [of m n] calls_okD(2) [of m i] by (simp add: mgr_ok_def)

text \<open>Every step moves the state of a job forward or leaves it.\<close>

lemma step_state_move:
  assumes "mgr_ok m" "state_of m i = Some s"
  shows "\<exists>s'. state_of (job_step e m) i = Some s' \<and> state_move s s'"
proof (cases rule: job_step_cases [of e m])
  case (insert n order a ty now)
  then show ?thesis using assms(2) numbered_at_free [OF assms(1) insert(1)] by (simp add: state_of_insert)
next
  case (mark n now a)
  then show ?thesis using assms(2) state_of_mark [of now a m i] by (auto simp: state_move_def)
next
  case (start k now a)
  have "state_of m a \<in> {Some JobQueued, Some JobCancelled}"
    using core_okD(7) [OF mgr_ok_parts(1) [OF assms(1)] nth_mem] ready_phaseD [OF start(1)] by force
  then show ?thesis using assms(2) start(2)
    by (auto simp: worker_begin_def state_of_set_job state_move_def state_of_def [of m a])
next
  case (finish k now res a)
  have "state_of m a \<in> {Some JobRunning, Some JobCancelled}"
    using core_okD(7) [OF mgr_ok_parts(1) [OF assms(1)] nth_mem] ready_phaseD [OF finish(1)] by force
  moreover have "ji_state (jb_info j) = JobRunning \<Longrightarrow> ji_state (final_info now res j) \<in> {JobCompleted, JobFailed, JobCancelled}"
    "ji_state (jb_info j) = JobCancelled \<Longrightarrow> ji_state (final_info now res j) = JobCancelled" for j
    by (auto simp: final_info_def Let_def split: job_outcome.splits)
  ultimately show ?thesis using assms(2) finish(2)
    by (fastforce simp: worker_finish_def state_of_set_job state_move_def state_of_def [of m])
qed (simp_all add: assms(2) state_of_sections state_of_progress)

lemma exec_state_move: "mgr_ok m \<Longrightarrow> state_of m i = Some s \<Longrightarrow> \<exists>s'. state_of (job_exec e m) i = Some s' \<and> state_move s s'"
  using step_state_move [of m i s e] by (simp add: job_exec_def)

lemma state_move_terminal: "state_move s s' \<Longrightarrow> terminal s \<Longrightarrow> s' = s"
  by (cases s) (auto simp: state_move_def)

lemma run_terminal:
  "mgr_ok m \<Longrightarrow> state_of m i = Some s \<Longrightarrow> terminal s \<Longrightarrow> state_of (job_run es m) i = Some s"
proof (induction es arbitrary: m)
  case (Cons e es)
  then have "state_of (job_exec e m) i = Some s"
    using exec_state_move [of m i s e] state_move_terminal by blast
  then show ?case using Cons mgr_ok_exec by simp
qed simp

lemma run_ok: "mgr_ok m \<Longrightarrow> mgr_ok (job_run es m)"
  by (induction es arbitrary: m) (simp_all add: mgr_ok_exec)

lemma job_run_append: "job_run (es @ es') m = job_run es' (job_run es m)"
  by (induction es arbitrary: m) simp_all

section \<open>Jobs that no thread will touch\<close>

lemma held_in_flight: "k < length (workers m) \<Longrightarrow> a \<in> set (held (w_phase (workers m ! k))) \<Longrightarrow> a \<in> set (in_flight m)"
  by (force simp: in_flight_def dest: nth_mem)

lemma in_flight_update:
  "set (in_flight (m\<lparr>queue := q, workers := (workers m)[k := w]\<rparr>)) \<subseteq>
     set q \<union> set (held (w_phase w)) \<union> set (in_flight m)"
  using set_update_subset_insert [of "workers m" k w] by (fastforce simp: in_flight_def)

lemma in_flight_set_phase: "set (in_flight (set_phase k ph m)) \<subseteq> set (held ph) \<union> set (in_flight m)"
  using in_flight_update [where m = m and q = "queue m" and k = k and w = "(workers m ! k)\<lparr>w_phase := ph\<rparr>"]
  by (auto simp: set_phase_def in_flight_def)

lemma in_flight_set_pending: "set (in_flight (set_pending k ps m)) \<subseteq> set (in_flight m)"
proof (cases "k < length (workers m)")
  case True
  then show ?thesis
    using in_flight_update [where m = m and q = "queue m" and k = k and w = "(workers m ! k)\<lparr>w_pending := ps\<rparr>"] held_in_flight [OF True]
    by (auto simp: set_pending_def in_flight_def)
qed (simp add: set_pending_def in_flight_def list_update_beyond)

lemma in_flight_frame [simp]:
  "in_flight (set_job i f m) = in_flight m" "in_flight (m\<lparr>published := pb\<rparr>) = in_flight m"
  "in_flight (m\<lparr>outbox := ob, published := pb\<rparr>) = in_flight m" "in_flight (m\<lparr>callers := cs\<rparr>) = in_flight m"
  "in_flight (m\<lparr>mgr_running := b, stopping := b', store := st\<rparr>) = in_flight m"
  "in_flight (m\<lparr>store := st, outbox := ob\<rparr>) = in_flight m" "in_flight (m\<lparr>crashed := b\<rparr>) = in_flight m"
  by (simp_all add: in_flight_def)

lemma in_flight_workers:
  "set (in_flight (worker_pop k m)) \<subseteq> set (in_flight m)"
  "set (in_flight (worker_check k i m)) \<subseteq> insert i (set (in_flight m))" "set (in_flight (worker_begin k now i m)) \<subseteq> insert i (set (in_flight m))"
  "set (in_flight (worker_progress k now p i m)) \<subseteq> set (in_flight m)" "set (in_flight (worker_finish k now out i m)) \<subseteq> set (in_flight m)"
  "set (in_flight (worker_publish k m)) \<subseteq> set (in_flight m)"
proof -
  show "set (in_flight (worker_pop k m)) \<subseteq> set (in_flight m)"
  proof (cases "mgr_running m \<and> (\<exists>i q. queue m = i # q)")
    case True
    then obtain i q where q: "mgr_running m" "queue m = i # q" by blast
    have "set (in_flight (take_job k i (m\<lparr>queue := q\<rparr>))) \<subseteq> set (in_flight m)"
      using in_flight_update [where m = "m\<lparr>queue := q\<rparr>" and q = q and k = k and w = "(workers m ! k)\<lparr>w_phase := Popped i, w_job := Some i\<rparr>"] q(2)
      by (auto simp: in_flight_def take_job_def)
    moreover have "set (in_flight (m\<lparr>queue := q\<rparr>)) \<subseteq> set (in_flight m)" using q(2) by (auto simp: in_flight_def)
    ultimately show ?thesis using q by (auto simp: worker_pop_def)
  next
    case False
    then show ?thesis using in_flight_set_phase [of k Exited m] by (auto simp: worker_pop_def split: list.split)
  qed
qed (auto simp: worker_check_def worker_begin_def worker_progress_def worker_finish_def worker_publish_def Let_def
    split: option.splits if_splits list.splits dest!: subsetD [OF in_flight_set_phase] subsetD [OF in_flight_set_pending])

lemma in_flight_calls:
  "set (in_flight (snd (submit_insert order now i ty m))) \<subseteq> insert i (set (in_flight m))" "in_flight (snd (cancel_mark now i m)) = in_flight m"
  "in_flight (snd (submit_number m)) = in_flight m"
  "set (in_flight (initialize n m)) \<subseteq> set (in_flight m)" "set (in_flight (shutdown_begin m)) \<subseteq> set (in_flight m)"
  "set (in_flight (shutdown_join m)) \<subseteq> set (in_flight m)" "set (in_flight (reset_jobs m)) \<subseteq> set (in_flight m)"
  "set (in_flight (outbox_publish n m)) \<subseteq> set (in_flight m)"
  by (auto simp: submit_insert_def cancel_mark_def submit_number_def initialize_def shutdown_begin_def shutdown_join_def reset_jobs_def
      outbox_publish_def in_flight_def Let_def split: option.splits if_splits)

lemma held_ready: "ready_phase m k = Some ph \<Longrightarrow> a \<in> set (held ph) \<Longrightarrow> a \<in> set (in_flight m)"
  using held_in_flight [of k m a] ready_phaseD [of m k ph] by simp

lemma step_in_flight: "set (in_flight (job_step e m)) \<subseteq> set (numbered m) \<union> set (in_flight m)"
proof (cases rule: job_step_cases [of e m])
  case (number n i ty now)
  then show ?thesis by (simp add: in_flight_calls(3))
next
  case (insert n order i ty now)
  then show ?thesis using numbered_at(1) [of m n] in_flight_calls(1) [of order now i ty m] by auto
next
  case (work k i)
  then show ?thesis using held_ready [of m k _ i] in_flight_workers(2) [of k i m] by auto
next
  case (start k now i)
  then show ?thesis using held_ready [of m k _ i] in_flight_workers(3) [of k now i m] by auto
qed ((rule le_supI2, simp add: in_flight_workers in_flight_calls)+)

text \<open>No thread has job \<open>i\<close> in hand, and none is about to cancel it.\<close>

definition let_alone :: "string \<Rightarrow> manager \<Rightarrow> bool" where
  "let_alone i m \<longleftrightarrow> i \<notin> set (in_flight m) \<and> Found_Cancel i \<notin> set (callers m)"

lemma step_callers: "Found_Cancel i \<in> set (callers (job_step e m)) \<Longrightarrow> Found_Cancel i \<in> set (callers m) \<or> e = CancelFind i"
proof (cases rule: job_step_cases [of e m])
  case (number n j ty now)
  assume "Found_Cancel i \<in> set (callers (job_step e m))"
  then show ?thesis using number set_update_subset_insert [of "callers m" n "Numbered_Submit j ty now"] by auto
next
  case (insert n order j ty now)
  assume "Found_Cancel i \<in> set (callers (job_step e m))"
  then have "Found_Cancel i \<in> set (callers (snd (submit_insert order now j ty m)))"
    using insert(2) returned_callers [of n "snd (submit_insert order now j ty m)"] by auto
  then show ?thesis by (simp add: submit_insert_frame)
next
  case (mark n now j)
  assume "Found_Cancel i \<in> set (callers (job_step e m))"
  then show ?thesis using mark(2) returned_callers [of n "snd (cancel_mark now j m)"] calls_same_mark [of m now j]
    by (auto simp only: calls_same_def)
qed (use calls_same_workers in \<open>auto simp: calls_same_def initialize_def shutdown_begin_def shutdown_join_def split: if_splits\<close>)

lemma step_let_alone:
  assumes ok: "mgr_ok m" and "let_alone i m" "state_of m i = Some s" "e \<noteq> CancelFind i"
  shows "let_alone i (job_step e m) \<and> state_of (job_step e m) i = Some s"
proof
  have out: "i \<notin> set (in_flight m)" "Found_Cancel i \<notin> set (callers m)" using assms(2) by (simp_all add: let_alone_def)
  have "i \<notin> set (numbered m)" using calls_okD(2) [OF mgr_ok_parts(2) [OF ok]] assms(3) by (auto simp: state_of_def)
  then show "let_alone i (job_step e m)"
    using step_in_flight [of e m] step_callers [of i e m] out assms(4) unfolding let_alone_def by blast
  show "state_of (job_step e m) i = Some s"
  proof (cases rule: job_step_cases [of e m])
    case (insert n order a ty now)
    then show ?thesis using assms(3) numbered_at_free [OF ok insert(1)] by (simp add: state_of_insert)
  next
    case (mark n now a)
    have "Found_Cancel a \<in> set (callers m)" using caller_atD [OF mark(1)] by (metis in_set_conv_decomp)
    then show ?thesis using assms(3) mark(2) out(2) state_of_mark [of now a m i] by auto
  next
    case (start k now a)
    then show ?thesis using assms(3) out(1) held_ready [OF start(1), of i] by (auto simp: worker_begin_def state_of_set_job)
  next
    case (finish k now res a)
    then show ?thesis using assms(3) out(1) held_ready [OF finish(1), of i]
      by (auto simp: worker_finish_def state_of_set_job split: option.split)
  qed (simp_all add: assms(3) state_of_sections state_of_progress)
qed

lemma run_let_alone:
  "mgr_ok m \<Longrightarrow> let_alone i m \<Longrightarrow> state_of m i = Some s \<Longrightarrow> CancelFind i \<notin> set es \<Longrightarrow> state_of (job_run es m) i = Some s"
proof (induction es arbitrary: m)
  case (Cons e es)
  then show ?case using step_let_alone [of m i s e] mgr_ok_step [of m e] by (auto simp: job_exec_def)
qed simp

section \<open>Executions of a job\<close>

text \<open>How often a run takes job \<open>i\<close> into execution.\<close>

fun start_count :: "string \<Rightarrow> job_event list \<Rightarrow> manager \<Rightarrow> nat" where
  "start_count i [] m = 0"
| "start_count i (e # es) m =
     (if state_of m i \<noteq> Some JobRunning \<and> state_of (job_exec e m) i = Some JobRunning then 1 else 0) +
     start_count i es (job_exec e m)"

lemma start_count_bound:
  "mgr_ok m \<Longrightarrow> start_count i es m \<le> (if state_of m i = None \<or> state_of m i = Some JobQueued then 1 else 0)"
proof (induction es arbitrary: m)
  case (Cons e es)
  have IH: "start_count i es (job_exec e m) \<le>
      (if state_of (job_exec e m) i = None \<or> state_of (job_exec e m) i = Some JobQueued then 1 else 0)"
    using Cons mgr_ok_exec by blast
  show ?case
  proof (cases "state_of m i")
    case None
    then show ?thesis using IH by (auto split: if_splits)
  next
    case (Some s)
    then obtain s' where "state_of (job_exec e m) i = Some s'" "state_move s s'"
      using exec_state_move [OF Cons.prems Some, of e] by blast
    then show ?thesis using IH Some by (auto simp: state_move_def split: if_splits)
  qed
qed simp

section \<open>Properties\<close>

text \<open>
  C33. In every interleaving of the sections of submissions, cancellations, initialisations, shutdowns, resets and worker turns the
  manager keeps its bounds and its invariant: at most 512 retained and 256 queued jobs, no job
  is twice among the queue and the workers, no two calls have the same number. An \<open>Initialize\<close> that falls into a \<open>Shutdown\<close> ends the process, and with it the
  run; the unlock of a mutex destroyed under its guard is recorded in \<open>dead_unlocks\<close> and taken as without effect.
\<close>

theorem job_manager_invariant:
  "length (jobs (job_run es new_manager)) \<le> 512 \<and> length (queue (job_run es new_manager)) \<le> 256 \<and>
   distinct (in_flight (job_run es new_manager)) \<and> mgr_ok (job_run es new_manager)"
  using run_ok [OF mgr_ok_new, of es] core_okD(1,3,4) [of "job_run es new_manager"] mgr_ok_parts(1)
  by (simp add: kMaxRetainedJobs_def kMaxQueuedJobs_def)

text \<open>
  C5. A job that has completed, failed or been cancelled stays so, whatever happens afterwards: a
  worker that finishes a cancelled job does not turn it into a completed one.
\<close>

theorem job_terminal_forever:
  assumes "state_of (job_run es new_manager) i = Some s" "terminal s"
  shows "state_of (job_run (es @ es') new_manager) i = Some s"
  using run_terminal [OF run_ok [OF mgr_ok_new] assms] by (simp add: job_run_append)

definition cancelled_while_running :: "job_event list" where
  "cancelled_while_running =
     [Initialize 1, SubmitCheck ''copy'' True, SubmitNumber 0 1, SubmitInsert 0 [], WorkerPop 0, WorkerCheck 0, WorkerBegin 0 2, CancelFind ''job-1'', CancelMark 0 3]"

lemma job_name_1: "job_name (Suc 0) = ''job-1''"
  by code_simp

lemmas job_steps = job_exec_def initialize_def submit_allowed_def submit_number_def submit_insert_def cancel_find_def cancel_mark_def
  caller_at_def returned_def take_job_def destroyed_def worker_pop_def worker_check_def worker_begin_def
  worker_finish_def worker_publish_def outbox_publish_def shutdown_begin_def shutdown_join_def flag_all_def
  ready_phase_def set_phase_def set_pending_def set_job_def state_of_def new_manager_def new_job_def
  final_info_def final_events_def both_events_def Let_def

lemma cancelled_while_running_state:
  "state_of (job_run cancelled_while_running new_manager) ''job-1'' = Some JobCancelled"
  by (simp add: cancelled_while_running_def job_steps job_name_1 kMaxRetainedJobs_def kMaxQueuedJobs_def)

theorem job_terminal_forever_witness:
  "state_of (job_run (cancelled_while_running @ [WorkerFinish 0 4 (JobReturns True [])]) new_manager) ''job-1'' =
     Some JobCancelled"
  by (rule job_terminal_forever [OF cancelled_while_running_state]) simp

text \<open>
  No run takes the same job into execution twice, not even across a shutdown and a restart of
  the workers.
\<close>

theorem job_started_at_most_once: "start_count i es new_manager \<le> 1"
  using start_count_bound [OF mgr_ok_new, of i es] by (auto split: if_splits)

text \<open>
  A job that is accepted, taken by an idle worker and not cancelled ends as its function says:
  completed with progress 100, or failed with the function's error text (\<open>job_failed\<close> when it gives
  none, \<open>unhandled_job_exception\<close> when it throws), and the worker is idle again, owing the two events.
\<close>

theorem job_lifecycle:
  assumes "mgr_running m" "\<not> crashed m" "ready_phase m k = Some Waiting" "queue m = i # q" "i \<in> set (jobs m)"
    and "store m i = Some j" "ji_id (jb_info j) = i" "ji_state (jb_info j) = JobQueued" "\<not> cancel_flag j"
  shows "let m' = job_run [WorkerPop k, WorkerCheck k, WorkerBegin k t, WorkerFinish k t' out] m;
             ok = (case out of JobReturns b e \<Rightarrow> b | JobThrows \<Rightarrow> False)
         in state_of m' i = Some (if ok then JobCompleted else JobFailed) \<and> queue m' = q \<and>
            w_phase (workers m' ! k) = Waiting \<and>
            map fst (w_pending (workers m' ! k)) =
              (if ok then [''job.completed'', ''operation.completed''] else [''job.failed'', ''operation.failed'']) \<and>
            map_option ji_error (get_job_info i m') = Some
              (if ok then ji_error (jb_info j)
               else case out of JobReturns b e \<Rightarrow> if e = [] then ''job_failed'' else e
                 | JobThrows \<Rightarrow> ''unhandled_job_exception'')"
proof -
  have k: "k < length (workers m)" "w_phase (workers m ! k) = Waiting" "w_pending (workers m ! k) = []"
    using ready_phaseD [OF assms(3)] by auto
  show ?thesis
    using assms k by (cases out) (auto simp: job_steps get_job_info_def)
qed

definition one_queued :: manager where
  "one_queued = job_run [Initialize 1, SubmitCheck ''copy'' True, SubmitNumber 0 1, SubmitInsert 0 []] new_manager"

lemma one_queued_facts:
  "mgr_running one_queued" "\<not> crashed one_queued" "ready_phase one_queued 0 = Some Waiting" "queue one_queued = [''job-1'']"
  "''job-1'' \<in> set (jobs one_queued)" "store one_queued ''job-1'' = Some (new_job 1 ''job-1'' ''copy'')"
  by (simp_all add: one_queued_def job_steps job_name_1 kMaxRetainedJobs_def kMaxQueuedJobs_def)

theorem job_lifecycle_witness:
  "let m' = job_run [WorkerPop 0, WorkerCheck 0, WorkerBegin 0 2, WorkerFinish 0 3 (JobReturns False ''disk full'')] one_queued
   in state_of m' ''job-1'' = Some JobFailed \<and> map_option ji_error (get_job_info ''job-1'' m') = Some ''disk full''"
  using job_lifecycle [OF one_queued_facts(1-6), of 2 3 "JobReturns False ''disk full''"]
  by (simp add: Let_def new_job_def)

definition stuck_run :: "job_event list" where
  "stuck_run =
     [Initialize 1, SubmitCheck ''copy'' True, SubmitNumber 0 1, SubmitInsert 0 [], ShutdownBegin, WorkerPop 0, ShutdownJoin,
      Initialize 1, WorkerPop 0, WorkerCheck 0]"

lemma stuck_state:
  "state_of (job_run stuck_run new_manager) ''job-1'' = Some JobQueued"
  "let_alone ''job-1'' (job_run stuck_run new_manager)"
  "mgr_running (job_run stuck_run new_manager)"
  by (simp_all add: stuck_run_def job_steps job_name_1 kMaxRetainedJobs_def kMaxQueuedJobs_def let_alone_def in_flight_def)

text \<open>
  A job that was still queued at a shutdown is lost when the workers are started again: the
  first worker takes it from the queue, sees the flag that \<open>Shutdown\<close> set and drops it. From then
  on no step but an explicit cancel changes it: it stays queued for ever and no event reports it.
\<close>

theorem restart_loses_queued_job:
  assumes "CancelFind ''job-1'' \<notin> set es"
  shows "mgr_running (job_run stuck_run new_manager) \<and>
    state_of (job_run (stuck_run @ es) new_manager) ''job-1'' = Some JobQueued"
  using run_let_alone [OF run_ok [OF mgr_ok_new, of stuck_run] stuck_state(2,1) assms] stuck_state(3)
  by (simp add: job_run_append)

theorem restart_loses_queued_job_witness:
  "state_of (job_run (stuck_run @ [WorkerPop 0, WorkerPop 0, SubmitCheck ''move'' True, SubmitNumber 0 2, SubmitInsert 0 []]) new_manager) ''job-1'' =
     Some JobQueued"
  using restart_loses_queued_job [of "[WorkerPop 0, WorkerPop 0, SubmitCheck ''move'' True, SubmitNumber 0 2, SubmitInsert 0 []]"] by simp

definition fast_worker_run :: "job_event list" where
  "fast_worker_run =
     [Initialize 1, SubmitCheck ''copy'' True, SubmitNumber 0 1, SubmitInsert 0 [], WorkerPop 0, WorkerCheck 0, WorkerBegin 0 2,
      WorkerFinish 0 3 (JobReturns True []), WorkerPublish 0, WorkerPublish 0,
      OutboxPublish 0, OutboxPublish 0]"

definition cancel_running_run :: "job_event list" where
  "cancel_running_run =
     [Initialize 1, SubmitCheck ''copy'' True, SubmitNumber 0 1, SubmitInsert 0 [], OutboxPublish 0, OutboxPublish 0,
      WorkerPop 0, WorkerCheck 0, WorkerBegin 0 2, CancelFind ''job-1'', CancelMark 0 3, OutboxPublish 1, OutboxPublish 1,
      WorkerFinish 0 4 (JobReturns False ''stopped''), WorkerPublish 0, WorkerPublish 0]"

text \<open>
  Because the events are published after the locks are released, a subscriber can see a job
  completed before it sees it started, and a job cancelled while it runs is reported as cancelled
  twice, once by the caller and once by the worker.
\<close>

theorem job_event_order:
  "map fst (published (job_run fast_worker_run new_manager)) =
     [''job.completed'', ''operation.completed'', ''job.started'', ''operation.started''] \<and>
   map fst (published (job_run cancel_running_run new_manager)) =
     [''job.started'', ''operation.started'', ''job.cancelled'', ''operation.cancelled'',
      ''job.cancelled'', ''operation.cancelled'']"
  by (simp add: fast_worker_run_def cancel_running_run_def job_steps job_name_1
      kMaxRetainedJobs_def kMaxQueuedJobs_def)

text \<open>
  \<open>Initialize\<close> during a \<open>Shutdown\<close> that has not come back finds \<open>running_\<close> cleared and drops threads that
  are still joinable: the process ends. From then on nothing moves.
\<close>

theorem initialize_during_shutdown_crashes:
  "crashed (job_run ([Initialize 2, ShutdownBegin, Initialize 1] @ es) new_manager)"
proof -
  have "crashed m \<Longrightarrow> job_run es m = m" for m by (induction es) (simp_all add: job_exec_def)
  then show ?thesis by (simp add: job_run_append job_steps)
qed

text \<open>
  A full manager whose first visited job is finished drops it, and when no worker and no \<open>CancelJob\<close>
  refers to it, its mutex is destroyed under the guard that unlocks it afterwards.
\<close>

theorem purge_unlocks_destroyed_mutex:
  assumes "mgr_running m" "kMaxRetainedJobs \<le> length (jobs m)" "i \<in> set (jobs m)" "state_of m i = Some s" "terminal s"
    and "\<not> referenced m i"
  shows "i \<in> set (dead_unlocks (snd (submit_insert (i # order) now n ty m)))"
proof -
  have "i \<notin> set (purge_loop m (i # order) (jobs m))"
    using purge_loop_subset [of m order "removeAll i (jobs m)"] assms(2,4,5) by auto
  then have "i \<in> set (destroyed m (purge_loop m (i # order) (jobs m)))" using assms(3,6) by (simp add: destroyed_def)
  then show ?thesis using assms(1,2) by (simp add: submit_insert_def Let_def)
qed

definition full_manager :: manager where
  "full_manager = new_manager\<lparr>mgr_running := True, jobs := map job_name [1..<513], next_job_id := 513,
     store := (\<lambda>i. if i \<in> set (map job_name [1..<513]) then
         Some ((new_job 0 i ''copy'')\<lparr>jb_info := (jb_info (new_job 0 i ''copy''))\<lparr>ji_state := JobFailed, ji_error := ''job_failed''\<rparr>\<rparr>)
       else None)\<rparr>"

theorem purge_unlocks_destroyed_mutex_witness:
  "job_name 1 \<in> set (dead_unlocks (snd (submit_insert [job_name 1] 7 (job_name 513) ''copy'' full_manager)))"
proof (rule purge_unlocks_destroyed_mutex)
  show "job_name 1 \<in> set (jobs full_manager)" by (simp add: full_manager_def del: upt_Suc)
  then show "state_of full_manager (job_name 1) = Some JobFailed"
    by (simp add: full_manager_def state_of_def new_job_def del: upt_Suc)
qed (simp_all add: full_manager_def new_manager_def kMaxRetainedJobs_def referenced_def)

end
