(* ===== verification/Recent_Log.thy ===== *)
theory Recent_Log
  imports Prelude
begin

text \<open>
  Several services keep the latest \<open>n\<close> items of something and drop the oldest: notifications,
  clipboard entries, the continuity journal. The locale \<open>recent_log\<close> is that contract: what the
  log shows after a push, newest first.
\<close>

locale recent_log =
  fixes push :: "'a \<Rightarrow> 's \<Rightarrow> 's"
    and newest :: "'s \<Rightarrow> 'a list"
    and cap :: nat
    and inv :: "'s \<Rightarrow> bool"
  assumes newest_push: "inv s \<Longrightarrow> newest (push x s) = take cap (x # newest s)"
    and inv_push: "inv s \<Longrightarrow> inv (push x s)"
    and newest_bound: "inv s \<Longrightarrow> length (newest s) \<le> cap"
begin

lemma inv_pushes: "inv s \<Longrightarrow> inv (fold push xs s)"
  by (induction xs arbitrary: s) (simp_all add: inv_push)

text \<open>Any number of pushes: the last \<open>cap\<close> items, in reverse order of pushing.\<close>

lemma newest_pushes: "inv s \<Longrightarrow> newest (fold push xs s) = take cap (rev xs @ newest s)"
proof (induction xs arbitrary: s)
  case (Cons x xs)
  have "take cap (rev xs @ take cap (x # newest s)) = take cap (rev xs @ x # newest s)"
    by (simp add: min_def)
  then show ?case using Cons by (simp add: newest_push inv_push)
qed (simp add: newest_bound)

lemma newest_last: "inv s \<Longrightarrow> 0 < cap \<Longrightarrow> hd (newest (push x s)) = x"
  by (simp add: newest_push take_Cons')

lemma newest_push_subset: "inv s \<Longrightarrow> set (newest (push x s)) \<subseteq> insert x (set (newest s))"
  using set_take_subset [of cap "x # newest s"] by (simp add: newest_push)

lemma pushes_bound: "inv s \<Longrightarrow> length (newest (fold push xs s)) \<le> cap"
  by (rule newest_bound) (rule inv_pushes)

end

section \<open>A deque with the newest item in front\<close>

text \<open>\<open>push_front\<close>, then \<open>pop_back\<close> when the size exceeds the limit.\<close>

definition push_front_capped :: "nat \<Rightarrow> 'a \<Rightarrow> 'a list \<Rightarrow> 'a list" where
  "push_front_capped n x xs = (if n < length (x # xs) then butlast (x # xs) else x # xs)"

lemma push_front_capped_take: "length xs \<le> n \<Longrightarrow> push_front_capped n x xs = take n (x # xs)"
proof (cases "n = length xs")
  case False
  then show "length xs \<le> n \<Longrightarrow> push_front_capped n x xs = take n (x # xs)"
    by (simp add: push_front_capped_def)
qed (simp add: push_front_capped_def butlast_conv_take)

interpretation front_deque: recent_log "push_front_capped n" "\<lambda>xs. xs" n "\<lambda>xs. length xs \<le> n" for n
  by unfold_locales (simp_all add: push_front_capped_take)

section \<open>A vector with the newest item at the end\<close>

text \<open>\<open>push_back\<close>, then the surplus is erased from the front.\<close>

definition keep_last :: "nat \<Rightarrow> 'a list \<Rightarrow> 'a list" where
  "keep_last n xs = (if n < length xs then drop (length xs - n) xs else xs)"

lemma keep_last_rev: "rev (keep_last n xs) = take n (rev xs)"
  by (simp add: keep_last_def take_rev)

lemma length_keep_last [simp]: "length (keep_last n xs) = min n (length xs)"
  by (auto simp: keep_last_def)

lemma keep_last_id [simp]: "length xs \<le> n \<Longrightarrow> keep_last n xs = xs"
  by (simp add: keep_last_def)

lemma set_keep_last: "set (keep_last n xs) \<subseteq> set xs"
  by (simp add: keep_last_def set_drop_subset)

interpretation back_vector: recent_log "\<lambda>x xs. keep_last n (xs @ [x])" rev n "\<lambda>xs. length xs \<le> n" for n
  by unfold_locales (simp_all add: keep_last_rev)

end
