(* ===== verification/Notifications.thy ===== *)
theory Notifications
  imports Recent_Log Protocol
begin

text \<open>
  The notification centre, \<open>notification_service_v26.cpp\<close>. Each operation takes the mutex once and
  publishes after releasing it, so it is a function from a state to a state and the events it
  publishes. The local time is an argument of \<open>post\<close>.
\<close>

record notification =
  nt_id :: u64
  nt_timestamp :: string
  nt_title :: string
  nt_message :: string
  nt_severity :: string
  nt_app_id :: string
  nt_read :: bool

record notification_service =
  notifications :: "notification list"
  next_id :: u64

definition kMaxNotifications :: nat where
  "kMaxNotifications = 64"

definition new_notifications :: notification_service where
  "new_notifications = \<lparr>notifications = [], next_id = 1\<rparr>"

definition notification_json :: "notification \<Rightarrow> json_object" where
  "notification_json n = object_of
     [(''id'', JInt (sint (nt_id n))), (''timestamp'', JStr (nt_timestamp n)), (''title'', JStr (nt_title n)),
      (''message'', JStr (nt_message n)), (''severity'', JStr (nt_severity n)),
      (''app_id'', JStr (nt_app_id n)), (''read'', JBool (nt_read n))]"

definition post :: "string \<Rightarrow> string \<Rightarrow> string \<Rightarrow> string \<Rightarrow> string \<Rightarrow> notification_service \<Rightarrow>
    u64 \<times> (string \<times> json_object) list \<times> notification_service" where
  "post now title message severity app_id s =
     (let item = \<lparr>nt_id = next_id s, nt_timestamp = now, nt_title = title, nt_message = message,
                  nt_severity = (if severity = [] then ''info'' else severity), nt_app_id = app_id,
                  nt_read = False\<rparr>
      in (nt_id item, [(''notification.posted'', notification_json item)],
          s\<lparr>next_id := next_id s + 1,
            notifications := push_front_capped kMaxNotifications item (notifications s)\<rparr>))"

fun count_unread :: "notification list \<Rightarrow> nat" where
  "count_unread [] = 0"
| "count_unread (n # ns) = (if \<not> nt_read n then 1 else 0) + count_unread ns"

fun erase_first :: "u64 \<Rightarrow> notification list \<Rightarrow> notification list option" where
  "erase_first i [] = None"
| "erase_first i (n # ns) = (if nt_id n = i then Some ns else map_option ((#) n) (erase_first i ns))"

definition dismiss :: "u64 \<Rightarrow> notification_service \<Rightarrow> bool \<times> (string \<times> json_object) list \<times> notification_service" where
  "dismiss i s =
     (case erase_first i (notifications s) of
        None \<Rightarrow> (False, [], s)
      | Some ns \<Rightarrow> (True, [(''notification.dismissed'', object_of [(''id'', JInt (sint i))])],
                    s\<lparr>notifications := ns\<rparr>))"

definition clear_notifications :: "notification_service \<Rightarrow> (string \<times> json_object) list \<times> notification_service" where
  "clear_notifications s =
     ([(''notification.cleared'', object_of [(''cleared'', JBool True)])], s\<lparr>notifications := []\<rparr>)"

fun mark_first :: "u64 \<Rightarrow> notification list \<Rightarrow> notification list option" where
  "mark_first i [] = None"
| "mark_first i (n # ns) =
     (if nt_id n = i then Some (n\<lparr>nt_read := True\<rparr> # ns) else map_option ((#) n) (mark_first i ns))"

definition mark_read :: "u64 \<Rightarrow> notification_service \<Rightarrow> bool \<times> notification_service" where
  "mark_read i s =
     (case mark_first i (notifications s) of None \<Rightarrow> (False, s) | Some ns \<Rightarrow> (True, s\<lparr>notifications := ns\<rparr>))"

definition mark_all_read :: "notification_service \<Rightarrow> notification_service" where
  "mark_all_read s = s\<lparr>notifications := map (\<lambda>n. n\<lparr>nt_read := True\<rparr>) (notifications s)\<rparr>"

section \<open>Runs\<close>

datatype notification_op =
    Post string string string string string
  | Dismiss u64
  | Clear
  | MarkRead u64
  | MarkAllRead

fun notification_exec :: "notification_op \<Rightarrow> notification_service \<Rightarrow> notification_service" where
  "notification_exec (Post now t m sev app) s = snd (snd (post now t m sev app s))"
| "notification_exec (Dismiss i) s = snd (snd (dismiss i s))"
| "notification_exec Clear s = snd (clear_notifications s)"
| "notification_exec (MarkRead i) s = snd (mark_read i s)"
| "notification_exec MarkAllRead s = mark_all_read s"

definition notification_run :: "notification_op list \<Rightarrow> notification_service" where
  "notification_run ops = fold notification_exec ops new_notifications"

text \<open>Newest first, by strictly falling ids below the next one, and no more than the limit.\<close>

definition notifications_ok :: "notification_service \<Rightarrow> bool" where
  "notifications_ok s \<longleftrightarrow>
     length (notifications s) \<le> kMaxNotifications \<and>
     sorted_wrt (>) (next_id s # map nt_id (notifications s))"

lemma next_id_less: "unat i + 1 < 2 ^ 64 \<Longrightarrow> i < i + (1 :: u64)"
  by (simp add: word_less_nat_alt unat_word_ariths)

lemma notifications_ok_new [wf_intros]: "notifications_ok new_notifications"
  by (simp add: notifications_ok_def new_notifications_def)

lemma post_ok:
  assumes ok: "notifications_ok s" and "unat (next_id s) + 1 < 2 ^ 64"
  shows "notifications_ok (snd (snd (post now t m sev app s)))"
proof -
  let ?ids = "next_id s # map nt_id (notifications s)"
  have lt: "next_id s < next_id s + 1" using assms(2) by (rule next_id_less)
  have s: "sorted_wrt (>) ?ids" using ok by (simp add: notifications_ok_def)
  then have "\<forall>i \<in> set ?ids. i < next_id s + 1" using lt by (auto intro: less_trans)
  then have "sorted_wrt (>) ((next_id s + 1) # take kMaxNotifications ?ids)"
    using sorted_wrt_take [OF s, of kMaxNotifications] set_take_subset [of kMaxNotifications ?ids] by auto
  moreover have "map nt_id (notifications (snd (snd (post now t m sev app s)))) = take kMaxNotifications ?ids"
    using ok by (simp add: notifications_ok_def post_def Let_def push_front_capped_take take_map [symmetric]
        del: take_Suc_Cons)
  ultimately show ?thesis
    using ok by (simp add: notifications_ok_def post_def Let_def push_front_capped_take)
qed

text \<open>\<open>Dismiss\<close> and \<open>MarkRead\<close> act on the first item with the id.\<close>

lemma erase_first_None: "erase_first i ns = None \<longleftrightarrow> i \<notin> nt_id ` set ns"
  by (induction i ns rule: erase_first.induct) auto

lemma erase_first_Some:
  "erase_first i ns = Some ns' \<Longrightarrow> \<exists>as n bs. ns = as @ n # bs \<and> nt_id n = i \<and> ns' = as @ bs"
proof (induction i ns arbitrary: ns' rule: erase_first.induct)
  case (2 i n ns)
  show ?case
  proof (cases "nt_id n = i")
    case True
    then show ?thesis using "2.prems" by (intro exI [of _ "[]"]) simp
  next
    case False
    then obtain rs where "erase_first i ns = Some rs" "ns' = n # rs" using "2.prems" by auto
    then obtain as k bs where "ns = as @ k # bs" "nt_id k = i" "rs = as @ bs" using "2.IH" False by blast
    then show ?thesis using \<open>ns' = n # rs\<close> by (intro exI [of _ "n # as"]) auto
  qed
qed simp

lemma mark_first_ids: "mark_first i ns = Some ns' \<Longrightarrow> map nt_id ns' = map nt_id ns"
  by (induction i ns arbitrary: ns' rule: mark_first.induct) (auto split: if_splits)

lemma dismiss_ok: "notifications_ok s \<Longrightarrow> notifications_ok (snd (snd (dismiss i s)))"
  by (auto simp: dismiss_def notifications_ok_def sorted_wrt_append split: option.splits dest!: erase_first_Some)

lemma mark_read_ok: "notifications_ok s \<Longrightarrow> notifications_ok (snd (mark_read i s))"
  using mark_first_ids [of i "notifications s"]
proof (cases "mark_first i (notifications s)")
  case (Some ns)
  assume "notifications_ok s"
  moreover have ids: "map nt_id ns = map nt_id (notifications s)" using Some by (rule mark_first_ids)
  moreover have "length ns = length (notifications s)" using ids by (metis length_map)
  ultimately show ?thesis unfolding notifications_ok_def by (simp only: mark_read_def Some) simp
qed (simp add: mark_read_def)

lemma mark_all_ok: "notifications_ok s \<Longrightarrow> notifications_ok (mark_all_read s)"
  by (simp add: mark_all_read_def notifications_ok_def comp_def)

lemma clear_ok: "notifications_ok (snd (clear_notifications s))"
  by (simp add: clear_notifications_def notifications_ok_def)

lemma notification_exec_ok:
  "notifications_ok s \<Longrightarrow> unat (next_id s) + 1 < 2 ^ 64 \<Longrightarrow> notifications_ok (notification_exec op s)"
  by (cases op) (auto simp: post_ok dismiss_ok mark_read_ok mark_all_ok clear_ok)

lemma notification_exec_next_id:
  "unat (next_id s) + n < 2 ^ 64 \<Longrightarrow> 0 < n \<Longrightarrow> unat (next_id (notification_exec op s)) \<le> unat (next_id s) + 1"
  by (cases op) (auto simp: post_def dismiss_def mark_read_def mark_all_read_def clear_notifications_def Let_def
      unat_word_ariths split: option.splits)

lemma notification_run_ok:
  "notifications_ok s \<Longrightarrow> unat (next_id s) + length ops < 2 ^ 64 \<Longrightarrow> notifications_ok (fold notification_exec ops s)"
proof (induction ops arbitrary: s)
  case (Cons op ops)
  have "unat (next_id s) + 1 < 2 ^ 64" using Cons.prems(2) by simp
  moreover have "unat (next_id (notification_exec op s)) \<le> unat (next_id s) + 1"
    using notification_exec_next_id [of s "length (op # ops)"] Cons.prems(2) by simp
  ultimately show ?case using Cons.IH [of "notification_exec op s"] notification_exec_ok [OF Cons.prems(1)] Cons.prems(2) by simp
qed simp

lemma post_items:
  "notifications (snd (snd (post now t m sev app s))) =
     push_front_capped kMaxNotifications
       \<lparr>nt_id = next_id s, nt_timestamp = now, nt_title = t, nt_message = m,
        nt_severity = (if sev = [] then ''info'' else sev), nt_app_id = app, nt_read = False\<rparr> (notifications s)"
  by (simp add: post_def Let_def)

lemma posts_titles:
  "length (notifications s) \<le> kMaxNotifications \<Longrightarrow>
   map nt_title (notifications (fold notification_exec (map (\<lambda>(now, t, m, sev, app). Post now t m sev app) ps) s)) =
     take kMaxNotifications (rev (map (\<lambda>(now, t, m, sev, app). t) ps) @ map nt_title (notifications s))"
proof (induction ps arbitrary: s)
  case (Cons p ps)
  obtain now t m sev app where p: "p = (now, t, m, sev, app)" by (metis prod_cases5)
  let ?s = "snd (snd (post now t m sev app s))"
  have "map nt_title (notifications ?s) = take kMaxNotifications (t # map nt_title (notifications s))"
    using Cons.prems by (simp add: post_items push_front_capped_take take_map [symmetric] del: take_Suc_Cons)
  moreover have "length (notifications ?s) \<le> kMaxNotifications"
    using Cons.prems by (simp add: post_items push_front_capped_take)
  ultimately show ?case
    using Cons.IH [of ?s] by (simp add: p min_def)
qed simp

section \<open>Properties\<close>

text \<open>
  Whatever is posted, dismissed, marked or cleared, the list holds at most 64 notifications with
  distinct ids, newest first, all below the next id (as long as the 64-bit counter has not wrapped).
\<close>

theorem notifications_invariant:
  assumes "length ops < 2 ^ 64 - 1"
  shows "length (notifications (notification_run ops)) \<le> 64 \<and>
    distinct (map nt_id (notifications (notification_run ops))) \<and> notifications_ok (notification_run ops)"
proof -
  have ok: "notifications_ok (notification_run ops)"
    unfolding notification_run_def using assms
    by (intro notification_run_ok notifications_ok_new) (simp add: new_notifications_def)
  then have "sorted_wrt (>) (map nt_id (notifications (notification_run ops)))" by (simp add: notifications_ok_def)
  then have "distinct (map nt_id (notifications (notification_run ops)))"
    by (rule sorted_gt_distinct)
  with ok show ?thesis by (simp add: notifications_ok_def kMaxNotifications_def)
qed

text \<open>
  After any number of posts the list shows the latest 64 titles, newest first: only the oldest
  are dropped.
\<close>

theorem notifications_keep_newest:
  "map nt_title (notifications (notification_run (map (\<lambda>(now, t, m, sev, app). Post now t m sev app) ps))) =
     take 64 (rev (map (\<lambda>(now, t, m, sev, app). t) ps))"
  using posts_titles [of new_notifications ps]
  by (simp add: notification_run_def new_notifications_def kMaxNotifications_def)

text \<open>
  \<open>Dismiss\<close> reports success exactly when the id is present; it then removes that notification
  alone, keeps the order of the others and publishes one event, and otherwise it changes and
  publishes nothing.
\<close>

theorem dismiss_exact:
  assumes "notifications_ok s" "dismiss i s = (found, events, s')"
  shows "found = (i \<in> set (map nt_id (notifications s))) \<and>
    map nt_id (notifications s') = removeAll i (map nt_id (notifications s)) \<and>
    map fst events = (if found then [''notification.dismissed''] else [])"
proof (cases "erase_first i (notifications s)")
  case None
  then show ?thesis using assms(2) erase_first_None [of i "notifications s"]
    by (auto simp: dismiss_def)
next
  case (Some ns)
  obtain as n bs where ns: "notifications s = as @ n # bs" "nt_id n = i" "ns = as @ bs"
    using erase_first_Some [OF Some] by blast
  have "distinct (map nt_id (notifications s))"
    using assms(1) by (intro sorted_gt_distinct) (simp add: notifications_ok_def)
  then have "i \<notin> nt_id ` set as" "i \<notin> nt_id ` set bs" by (auto simp: ns)
  then show ?thesis using assms(2) Some ns by (auto simp: dismiss_def)
qed

definition two_posts :: "notification_op list" where
  "two_posts = [Post ''t1'' ''a'' [] [] [], Post ''t2'' ''b'' [] ''warning'' []]"

theorem notifications_invariant_witness:
  "length (notifications (notification_run two_posts)) \<le> 64"
  using notifications_invariant [of two_posts] by (simp add: two_posts_def)

theorem dismiss_exact_witness:
  "fst (dismiss 1 (notification_run two_posts)) = True \<and>
   map nt_id (notifications (snd (snd (dismiss 1 (notification_run two_posts))))) = [2]"
proof -
  have ids: "map nt_id (notifications (notification_run two_posts)) = [2, 1]"
    by (simp add: two_posts_def notification_run_def post_items new_notifications_def kMaxNotifications_def
        push_front_capped_def) (simp add: post_def Let_def)
  have "notifications_ok (notification_run two_posts)"
    unfolding notification_run_def by (intro notification_run_ok notifications_ok_new)
      (simp add: two_posts_def new_notifications_def)
  moreover obtain f es s where d: "dismiss 1 (notification_run two_posts) = (f, es, s)" by (metis prod_cases3)
  ultimately show ?thesis using dismiss_exact [of "notification_run two_posts" 1 f es s] ids by simp
qed

end
