(* ===== verification/Clipboard.thy ===== *)
theory Clipboard
  imports Recent_Log Protocol
begin

text \<open>
  The clipboard history, \<open>clipboard_service_v26.cpp\<close>: what \<open>CaptureCurrentClipboard\<close> records when
  the clipboard changes, and \<open>GetHistory\<close> and \<open>Clear\<close>. The content of the Windows clipboard, the
  local time and the conversion \<open>WideCharToMultiByte\<close> are arguments. The message window, its thread
  and \<open>SetText\<close>, which only calls the Windows clipboard, are not modelled.
\<close>

record clipboard_item =
  cb_id :: u64
  cb_timestamp :: string
  cb_type :: string
  cb_preview :: string
  cb_full_text :: string
  cb_files :: "string list"
  cb_data_bytes :: nat
  cb_image_width :: int
  cb_image_height :: int

record clipboard_service =
  history :: "clipboard_item list"
  clip_next_id :: u64

definition kMaxHistoryItems :: nat where
  "kMaxHistoryItems = 30"

definition kMaxItemTextLength :: nat where
  "kMaxItemTextLength = 65536"

definition new_clipboard :: clipboard_service where
  "new_clipboard = \<lparr>history = [], clip_next_id = 1\<rparr>"

definition clipboard_item_json :: "bool \<Rightarrow> clipboard_item \<Rightarrow> json_object" where
  "clipboard_item_json include_full_text c = object_of
     ([(''id'', JInt (sint (cb_id c))), (''timestamp'', JStr (cb_timestamp c)), (''type'', JStr (cb_type c)),
       (''preview'', JStr (cb_preview c))] @
      (if include_full_text \<and> cb_full_text c \<noteq> [] then [(''full_text'', JStr (cb_full_text c))] else []) @
      [(''data_bytes'', JDouble (double_of_int (int (cb_data_bytes c))))] @
      (if cb_type c = ''image'' then
         [(''image_width'', JDouble (double_of_int (cb_image_width c))),
          (''image_height'', JDouble (double_of_int (cb_image_height c)))]
       else []) @
      (if cb_files c \<noteq> [] then [(''files'', JArr (map JStr (cb_files c)))] else []))"

text \<open>
  What the clipboard offers: the UTF-16 text, the names of dropped files (in UTF-8), the width,
  height and size in a bitmap header, or none of these.
\<close>

datatype clipboard_content =
    ClipText "16 word list"
  | ClipFiles "string list"
  | ClipImage int int nat
  | ClipNothing

definition text_preview :: "string \<Rightarrow> string" where
  "text_preview u8 =
     map (\<lambda>c. if c = CHR 0x0D \<or> c = CHR 0x0A then CHR '' '' else c) (take (min (length u8) 120) u8)"

definition blank_item :: "u64 \<Rightarrow> string \<Rightarrow> clipboard_item" where
  "blank_item i now = \<lparr>cb_id = i, cb_timestamp = now, cb_type = ''text'', cb_preview = [], cb_full_text = [],
     cb_files = [], cb_data_bytes = 0, cb_image_width = 0, cb_image_height = 0\<rparr>"

text \<open>The item of a capture, or nothing when no format could be read.\<close>

definition capture_item ::
  "(16 word list \<Rightarrow> string) \<Rightarrow> clipboard_content \<Rightarrow> clipboard_item \<Rightarrow> clipboard_item option" where
  "capture_item wide_to_utf8 content item =
     (case content of
        ClipText ws \<Rightarrow>
          if ws = [] then None
          else let u8 = wide_to_utf8 ws;
                   cut = (if kMaxItemTextLength < length u8 then take kMaxItemTextLength u8 else u8)
               in Some (item\<lparr>cb_type := ''text'', cb_data_bytes := length u8, cb_full_text := cut,
                             cb_preview := text_preview cut\<rparr>)
      | ClipFiles files \<Rightarrow>
          if files = [] then None
          else Some (item\<lparr>cb_type := ''files'', cb_files := files, cb_data_bytes := length files,
                     cb_preview := nat_dec (length files) @ '' arquivo(s) copiado(s): '' @ files ! 0\<rparr>)
      | ClipImage w h bytes \<Rightarrow>
          Some (item\<lparr>cb_type := ''image'', cb_image_width := w, cb_image_height := \<bar>h\<bar>,
                     cb_data_bytes := bytes,
                     cb_preview := ''Imagem ('' @ int_dec w @ ''x'' @ int_dec \<bar>h\<bar> @ '')''\<rparr>)
      | ClipNothing \<Rightarrow> None)"

definition capture ::
  "(16 word list \<Rightarrow> string) \<Rightarrow> string \<Rightarrow> bool \<Rightarrow> clipboard_content \<Rightarrow> clipboard_service \<Rightarrow>
     (string \<times> json_object) list \<times> clipboard_service" where
  "capture wide_to_utf8 now opened content s =
     (if \<not> opened then ([], s)
      else
        let s1 = s\<lparr>clip_next_id := clip_next_id s + 1\<rparr> in
        case capture_item wide_to_utf8 content (blank_item (clip_next_id s) now) of
          None \<Rightarrow> ([], s1)
        | Some item \<Rightarrow>
            if history s \<noteq> [] \<and> cb_type (hd (history s)) = cb_type item \<and>
               cb_preview (hd (history s)) = cb_preview item
            then ([], s1)
            else ([(''clipboard.changed'', object_of
                     [(''id'', JInt (sint (cb_id item))), (''type'', JStr (cb_type item)),
                      (''preview'', JStr (cb_preview item))])],
                  s1\<lparr>history := push_front_capped kMaxHistoryItems item (history s)\<rparr>))"

definition get_history :: "nat \<Rightarrow> clipboard_service \<Rightarrow> clipboard_item list" where
  "get_history limit s = take (min limit (length (history s))) (history s)"

definition clear_clipboard :: "bool \<Rightarrow> clipboard_service \<Rightarrow> (bool \<times> string) \<times> (string \<times> json_object) list \<times> clipboard_service" where
  "clear_clipboard opened s =
     (if \<not> opened then ((False, ''OpenClipboard failed''), [], s)
      else ((True, []), [(''clipboard.changed'', object_of [(''cleared'', JBool True)])], s\<lparr>history := []\<rparr>))"

section \<open>Invariant\<close>

text \<open>Neighbours differ in what the duplicate test compares.\<close>

fun no_repeats :: "clipboard_item list \<Rightarrow> bool" where
  "no_repeats (a # b # cs) = ((cb_type a, cb_preview a) \<noteq> (cb_type b, cb_preview b) \<and> no_repeats (b # cs))"
| "no_repeats _ = True"

definition item_ok :: "clipboard_item \<Rightarrow> bool" where
  "item_ok c \<longleftrightarrow> length (cb_full_text c) \<le> kMaxItemTextLength \<and>
     (cb_type c = ''text'' \<longrightarrow> length (cb_preview c) \<le> 120 \<and>
        CHR 0x0A \<notin> set (cb_preview c) \<and> CHR 0x0D \<notin> set (cb_preview c))"

definition clipboard_ok :: "clipboard_service \<Rightarrow> bool" where
  "clipboard_ok s \<longleftrightarrow> length (history s) \<le> kMaxHistoryItems \<and> no_repeats (history s) \<and>
     (\<forall>c \<in> set (history s). item_ok c)"

lemma no_repeats_take: "no_repeats cs \<Longrightarrow> no_repeats (take n cs)"
proof (induction cs arbitrary: n rule: no_repeats.induct)
  case (1 a b cs)
  show ?case
  proof (cases "n = 0 \<or> n = 1")
    case False
    then obtain m where "n = Suc (Suc m)" by (metis One_nat_def not0_implies_Suc)
    then show ?thesis using "1.IH" [of "Suc m"] "1.prems" by auto
  qed auto
qed (auto simp: take_Cons')

lemma no_repeats_Cons:
  "no_repeats (a # cs) \<longleftrightarrow>
     no_repeats cs \<and> (cs = [] \<or> \<not> (cb_type (hd cs) = cb_type a \<and> cb_preview (hd cs) = cb_preview a))"
  by (cases cs) auto

lemma capture_item_ok:
  "capture_item f content (blank_item i now) = Some c \<Longrightarrow> item_ok c"
  by (cases content)
     (auto simp: capture_item_def item_ok_def blank_item_def text_preview_def Let_def kMaxItemTextLength_def
       split: if_splits)

lemma capture_ok: "clipboard_ok s \<Longrightarrow> clipboard_ok (snd (capture f now opened content s))"
proof (cases "history (snd (capture f now opened content s)) = history s")
  case False
  assume ok: "clipboard_ok s"
  obtain c where c: "capture_item f content (blank_item (clip_next_id s) now) = Some c"
    "\<not> (history s \<noteq> [] \<and> cb_type (hd (history s)) = cb_type c \<and> cb_preview (hd (history s)) = cb_preview c)"
    "history (snd (capture f now opened content s)) = push_front_capped kMaxHistoryItems c (history s)"
    using False by (auto simp: capture_def Let_def split: option.splits if_splits)
  have "no_repeats (take kMaxHistoryItems (c # history s))"
    using ok c(2) by (intro no_repeats_take) (auto simp: no_repeats_Cons clipboard_ok_def)
  moreover have "\<forall>x \<in> set (take kMaxHistoryItems (c # history s)). item_ok x"
    using ok capture_item_ok [OF c(1)] set_take_subset [of kMaxHistoryItems "c # history s"]
    by (auto simp: clipboard_ok_def)
  ultimately show ?thesis
    using ok c(3) by (simp add: clipboard_ok_def push_front_capped_take)
qed (simp add: clipboard_ok_def)

section \<open>Runs\<close>

datatype clipboard_op = Capture string bool clipboard_content | ClearHistory bool

fun clipboard_exec :: "(16 word list \<Rightarrow> string) \<Rightarrow> clipboard_op \<Rightarrow> clipboard_service \<Rightarrow> clipboard_service" where
  "clipboard_exec f (Capture now opened content) s = snd (capture f now opened content s)"
| "clipboard_exec f (ClearHistory opened) s = snd (snd (clear_clipboard opened s))"

lemma clear_clipboard_ok: "clipboard_ok s \<Longrightarrow> clipboard_ok (snd (snd (clear_clipboard opened s)))"
  by (simp add: clear_clipboard_def clipboard_ok_def)

lemma clipboard_exec_ok: "clipboard_ok s \<Longrightarrow> clipboard_ok (clipboard_exec f op s)"
  by (cases op) (simp_all add: capture_ok clear_clipboard_ok)

lemma clipboard_run_ok: "clipboard_ok s \<Longrightarrow> clipboard_ok (fold (clipboard_exec f) ops s)"
  by (induction ops arbitrary: s) (simp_all add: clipboard_exec_ok)

section \<open>Properties\<close>

text \<open>
  For every conversion to UTF-8 and every sequence of captures and clears the history holds at
  most 30 items, each with at most 64 KiB of text and, when it is text, a one-line preview of at most
  120 bytes; no item repeats the type and preview of its neighbour.
\<close>

theorem clipboard_invariant:
  "length (history (fold (clipboard_exec f) ops new_clipboard)) \<le> 30 \<and>
   no_repeats (history (fold (clipboard_exec f) ops new_clipboard)) \<and>
   clipboard_ok (fold (clipboard_exec f) ops new_clipboard)"
proof -
  have "clipboard_ok new_clipboard" by (simp add: clipboard_ok_def new_clipboard_def)
  then have "clipboard_ok (fold (clipboard_exec f) ops new_clipboard)" by (rule clipboard_run_ok)
  then show ?thesis by (simp add: clipboard_ok_def kMaxHistoryItems_def)
qed

text \<open>
  The duplicate test compares previews, not texts: a new text that agrees with the latest one in
  its first 120 bytes (up to line breaks) is dropped, whatever follows them. The history keeps the
  older text, no event is published, and only an id is used up.
\<close>

theorem clipboard_drops_different_text:
  assumes "history s \<noteq> []" "cb_type (hd (history s)) = ''text''" "ws \<noteq> []"
    and "text_preview (take kMaxItemTextLength (f ws)) = cb_preview (hd (history s))"
  shows "capture f now True (ClipText ws) s = ([], s\<lparr>clip_next_id := clip_next_id s + 1\<rparr>)"
proof -
  let ?cut = "if kMaxItemTextLength < length (f ws) then take kMaxItemTextLength (f ws) else f ws"
  have "?cut = take kMaxItemTextLength (f ws)" by simp
  then have "text_preview ?cut = cb_preview (hd (history s))" using assms(4) by simp
  then show ?thesis
    using assms by (simp add: capture_def capture_item_def Let_def blank_item_def)
qed

text \<open>Two 121-letter texts that differ in the last letter, read as Latin letters.\<close>

definition narrow :: "16 word list \<Rightarrow> string" where
  "narrow ws = map (\<lambda>w. char_of (unat w mod 256)) ws"

definition two_texts :: "clipboard_service" where
  "two_texts = snd (capture narrow [] True (ClipText (replicate 120 97 @ [98])) new_clipboard)"

theorem clipboard_drops_different_text_witness:
  "capture narrow [] True (ClipText (replicate 120 97 @ [99])) two_texts =
     ([], two_texts\<lparr>clip_next_id := clip_next_id two_texts + 1\<rparr>) \<and>
   narrow (replicate 120 97 @ [99]) \<noteq> cb_full_text (hd (history two_texts))"
proof -
  have n: "narrow (replicate 120 97 @ [w]) = replicate 120 (char_of (97 :: nat)) @ narrow [w]" for w
    by (simp add: narrow_def)
  have h: "history two_texts = [the (capture_item narrow (ClipText (replicate 120 97 @ [98])) (blank_item 1 []))]"
    by (simp add: two_texts_def capture_def capture_item_def Let_def new_clipboard_def push_front_capped_def
        kMaxHistoryItems_def)
  have char_eq: "char_of (97 :: nat) \<noteq> CHR 0x0D" "char_of (97 :: nat) \<noteq> CHR 0x0A" by code_simp+
  have len: "\<not> kMaxItemTextLength < length (narrow (replicate 120 97 @ [w]))"
    "take kMaxItemTextLength (narrow (replicate 120 97 @ [w])) = narrow (replicate 120 97 @ [w])" for w
    by (simp_all add: narrow_def kMaxItemTextLength_def)
  have p: "text_preview (narrow (replicate 120 97 @ [w])) = replicate 120 (char_of (97 :: nat))" for w
    by (simp add: n text_preview_def narrow_def map_replicate_const char_eq)
  have "narrow [99] \<noteq> narrow [98]" by (simp add: narrow_def)
  then have ne: "narrow (replicate 120 97 @ [99]) \<noteq> narrow (replicate 120 97 @ [98])" by (simp add: n)
  have "cb_type (hd (history two_texts)) = ''text''"
    "cb_preview (hd (history two_texts)) = text_preview (narrow (replicate 120 97 @ [98]))"
    "cb_full_text (hd (history two_texts)) = narrow (replicate 120 97 @ [98])" "history two_texts \<noteq> []"
    using len(1) by (simp_all add: h capture_item_def Let_def)
  then show ?thesis
    using clipboard_drops_different_text [of two_texts "replicate 120 97 @ [99]" narrow "[]"] ne
    by (simp add: len(2) p)
qed

end
