(* ===== verification/Path_Translation.thy ===== *)
theory Path_Translation
  imports Prelude
begin

text \<open>
  Translation of paths between Windows and the WSL distributions, \<open>WindowsToLinux\<close> and
  \<open>LinuxToWindows\<close> of \<open>path_translation_v21.cpp\<close>. The distribution WSL reports as its default is an
  argument. \<open>GetMountPoints\<close> and \<open>PathExists\<close> only ask the operating system.
\<close>

section \<open>Characters of the C locale\<close>

definition backslash :: char where
  "backslash = CHR 0x5C"

definition to_lower :: "char \<Rightarrow> char" where
  "to_lower c = (let n = of_char c :: nat in if 65 \<le> n \<and> n \<le> 90 then char_of (n + 32) else c)"

definition to_upper :: "char \<Rightarrow> char" where
  "to_upper c = (let n = of_char c :: nat in if 97 \<le> n \<and> n \<le> 122 then char_of (n - 32) else c)"

definition is_alpha :: "char \<Rightarrow> bool" where
  "is_alpha c = (let n = of_char c :: nat in (65 \<le> n \<and> n \<le> 90) \<or> (97 \<le> n \<and> n \<le> 122))"

definition replace_char :: "char \<Rightarrow> char \<Rightarrow> string \<Rightarrow> string" where
  "replace_char a b s = map (\<lambda>c. if c = a then b else c) s"

text \<open>\<open>s.rfind(p, 0) == 0\<close>.\<close>

definition starts_with :: "string \<Rightarrow> string \<Rightarrow> bool" where
  "starts_with p s \<longleftrightarrow> take (length p) s = p"

text \<open>What follows the distribution in \<open>//host/distro/rest\<close>: the path from the next slash on.\<close>

definition after_distro :: "nat \<Rightarrow> string \<Rightarrow> string" where
  "after_distro n s = (case dropWhile (\<lambda>c. c \<noteq> CHR ''/'') (drop n s) of [] \<Rightarrow> ''/'' | r \<Rightarrow> r)"

section \<open>Translations\<close>

definition windows_to_linux :: "string \<Rightarrow> string" where
  "windows_to_linux win_path =
     (if win_path = [] then ''/''
      else let normalized = replace_char backslash (CHR ''/'') win_path;
               lower = map to_lower normalized in
        if starts_with ''//wsl.localhost/'' lower then after_distro (length ''//wsl.localhost/'') normalized
        else if starts_with ''//wsl$/'' lower then after_distro (length ''//wsl$/'') normalized
        else if 2 \<le> length normalized \<and> is_alpha (normalized ! 0) \<and> normalized ! 1 = CHR '':'' then
          (let drive = to_lower (normalized ! 0) in
           if length normalized = 2 then ''/mnt/'' @ [drive]
           else if normalized ! 2 = CHR ''/'' then ''/mnt/'' @ [drive] @ drop 2 normalized
           else ''/mnt/'' @ [drive] @ ''/'' @ drop 2 normalized)
        else if hd normalized = CHR ''/'' then normalized
        else CHR ''/'' # normalized)"

text \<open>\<open>default_distro\<close> is \<open>WslServiceV21::GetDefaultDistribution\<close>.\<close>

definition resolve_distro :: "string \<Rightarrow> string \<Rightarrow> string" where
  "resolve_distro default_distro distro =
     (let r = (if distro = [] then default_distro else distro) in if r = [] then ''Ubuntu'' else r)"

definition unc_prefix :: "string \<Rightarrow> string" where
  "unc_prefix d = [backslash, backslash] @ ''wsl.localhost'' @ [backslash] @ d"

definition linux_to_windows :: "string \<Rightarrow> string \<Rightarrow> string \<Rightarrow> string" where
  "linux_to_windows default_distro distro linux_path =
     (if linux_path = [] then ''C:'' @ [backslash]
      else let normalized = replace_char (CHR ''/'') backslash linux_path;
               lower = map to_lower normalized;
               drive = to_upper (lower ! 5);
               native =
                 (let prefix = unc_prefix (resolve_distro default_distro distro) in
                  if normalized = [] \<or> normalized = [backslash] then prefix @ [backslash]
                  else if hd normalized = backslash then prefix @ normalized
                  else prefix @ [backslash] @ normalized) in
        if 2 \<le> length normalized \<and> is_alpha (normalized ! 0) \<and> normalized ! 1 = CHR '':'' then normalized
        else if starts_with [backslash, backslash] normalized then normalized
        else if starts_with ([backslash] @ ''mnt'' @ [backslash]) lower \<and> 6 \<le> length lower \<and> is_alpha drive then
          (if length lower = 6 then [drive] @ '':'' @ [backslash]
           else if lower ! 6 = backslash then [drive] @ '':'' @ drop 6 normalized
           else native)
        else native)"

section \<open>Facts about the characters\<close>

lemma replace_char_simps [simp]:
  "replace_char a b [] = []" "replace_char a b (c # s) = (if c = a then b else c) # replace_char a b s"
  "replace_char a b (s @ t) = replace_char a b s @ replace_char a b t"
  "length (replace_char a b s) = length s"
  by (simp_all add: replace_char_def)

lemma replace_char_absent: "a \<notin> set s \<Longrightarrow> replace_char a b s = s"
  by (induction s) auto

lemma replace_char_removes: "a \<noteq> b \<Longrightarrow> a \<notin> set (replace_char a b s)"
  by (auto simp: replace_char_def)

lemma replace_char_back: "b \<notin> set s \<Longrightarrow> replace_char b a (replace_char a b s) = s"
  by (induction s) auto

lemma slash_neq [simp]: "backslash \<noteq> CHR ''/''" "CHR ''/'' \<noteq> backslash"
  by (simp_all add: backslash_def)

lemma to_lower_separators [simp]:
  "to_lower backslash = backslash" "to_lower (CHR ''/'') = CHR ''/''"
  by (simp_all add: to_lower_def backslash_def)

lemma char_code_small: "(of_char c :: nat) - 32 < 256"
  using nat_of_char_less_256 [of c] by linarith

lemma to_lower_code: "of_char (to_lower c) = (let n = of_char c :: nat in if 65 \<le> n \<and> n \<le> 90 then n + 32 else n)"
  by (simp add: to_lower_def Let_def)

lemma to_upper_code: "of_char (to_upper c) = (let n = of_char c :: nat in if 97 \<le> n \<and> n \<le> 122 then n - 32 else n)"
  using char_code_small [of c] by (simp add: to_upper_def Let_def)

lemma char_code_eqI: "(of_char c :: nat) = of_char d \<Longrightarrow> c = d"
  by simp

lemma upper_lower_alpha:
  assumes "is_alpha c" "to_upper c = c"
  shows "to_upper (to_lower c) = c" "is_alpha (to_lower c)"
proof -
  have "(of_char (to_upper c) :: nat) = of_char c" by (simp add: assms(2))
  then have r: "65 \<le> (of_char c :: nat) \<and> (of_char c :: nat) \<le> 90"
    using assms(1) unfolding to_upper_code by (simp add: is_alpha_def Let_def split: if_splits)
  then show "to_upper (to_lower c) = c"
    by (intro char_code_eqI) (simp add: to_upper_code to_lower_code Let_def)
  show "is_alpha (to_lower c)" using r by (simp add: is_alpha_def to_lower_code Let_def)
qed

lemma starts_with_append [simp]: "starts_with p (p @ s)"
  by (simp add: starts_with_def)

lemma starts_withE: "starts_with p s \<Longrightarrow> \<exists>r. s = p @ r"
  unfolding starts_with_def by (metis append_take_drop_id)

lemma after_distro_cases:
  "after_distro n s = ''/'' \<or> (hd (after_distro n s) = CHR ''/'' \<and> after_distro n s \<noteq> [] \<and> set (after_distro n s) \<subseteq> set s)"
proof (cases "dropWhile (\<lambda>c. c \<noteq> CHR ''/'') (drop n s)")
  case (Cons c r)
  then have "c = CHR ''/''" using hd_dropWhile [of "\<lambda>c. c \<noteq> CHR ''/''" "drop n s"] by auto
  moreover have "set (c # r) \<subseteq> set s"
    using set_dropWhileD [of _ "\<lambda>c. c \<noteq> CHR ''/''" "drop n s"] set_drop_subset [of n s] unfolding Cons by blast
  ultimately show ?thesis by (simp add: after_distro_def Cons)
qed (simp add: after_distro_def del: dropWhile_eq_Nil_conv)

lemma after_distro_found:
  assumes "CHR ''/'' \<notin> set d" "length p = n"
  shows "after_distro n (p @ d @ CHR ''/'' # r) = CHR ''/'' # r"
proof -
  have "dropWhile (\<lambda>c. c \<noteq> CHR ''/'') (d @ CHR ''/'' # r) = CHR ''/'' # r"
    using assms(1) by (subst dropWhile_append2) auto
  then show ?thesis using assms(2) by (simp add: after_distro_def)
qed

lemma to_lower_not_backslash: "to_lower c \<noteq> backslash" if "c \<noteq> backslash"
proof
  assume "to_lower c = backslash"
  then have "(of_char (to_lower c) :: nat) = of_char backslash" by simp
  then have "(of_char c :: nat) = of_char backslash"
    unfolding to_lower_code by (auto simp: backslash_def Let_def split: if_splits)
  then show False using that by simp
qed

lemma linux_drive_path:
  assumes "is_alpha c" "to_upper c = c" "backslash \<notin> set t"
  shows "linux_to_windows dd di (''/mnt/'' @ [to_lower c] @ CHR ''/'' # t) =
    [c] @ '':'' @ replace_char (CHR ''/'') backslash (CHR ''/'' # t)"
proof -
  have l: "to_lower (to_lower c) = to_lower c"
    by (rule char_code_eqI) (auto simp: to_lower_code Let_def)
  have nb: "to_lower c \<noteq> CHR ''/''"
  proof
    assume "to_lower c = CHR ''/''"
    then have "(of_char (to_lower c) :: nat) = of_char CHR ''/''" by simp
    then show False using assms(1) by (auto simp: to_lower_code is_alpha_def Let_def split: if_splits)
  qed
  have low: "map to_lower ''mnt'' = ''mnt''" by code_simp
  have bs: "\<not> is_alpha backslash" by (simp add: is_alpha_def backslash_def Let_def)
  have m: "to_lower CHR ''m'' = CHR ''m''" "to_lower CHR ''n'' = CHR ''n''" "to_lower CHR ''t'' = CHR ''t''"
    using low by simp_all
  have neq: "CHR ''m'' \<noteq> backslash" by (simp add: backslash_def)
  show ?thesis
    using upper_lower_alpha [OF assms(1,2)] l nb m neq bs
    by (simp add: linux_to_windows_def starts_with_def Let_def assms(1))
qed

lemma lower_undo:
  "backslash \<notin> set s \<Longrightarrow>
     replace_char backslash (CHR ''/'') (map to_lower (replace_char (CHR ''/'') backslash s)) = map to_lower s"
  by (induction s) (auto simp: to_lower_not_backslash)

lemma wsl_host_chars: "replace_char backslash (CHR ''/'') ''wsl.localhost'' = ''wsl.localhost''"
  by (simp add: backslash_def)

lemma wsl_host_lower: "map to_lower ''//wsl.localhost/'' = ''//wsl.localhost/''"
  by code_simp

section \<open>Properties\<close>

text \<open>
  Whatever the Windows path, its translation is an absolute Linux path: it starts with a slash
  and holds no backslash.
\<close>

theorem windows_to_linux_absolute:
  "hd (windows_to_linux p) = CHR ''/'' \<and> windows_to_linux p \<noteq> [] \<and> backslash \<notin> set (windows_to_linux p)"
proof (cases "p = []")
  case False
  let ?n = "replace_char backslash (CHR ''/'') p"
  have ne: "?n \<noteq> []" using False by (metis length_0_conv replace_char_simps(4))
  have nb: "backslash \<notin> set ?n" by (rule replace_char_removes) simp
  then have nd: "backslash \<notin> set (drop 2 ?n)" using set_drop_subset [of 2 ?n] by blast
  have ad: "hd (after_distro k ?n) = CHR ''/'' \<and> after_distro k ?n \<noteq> [] \<and> backslash \<notin> set (after_distro k ?n)" for k
    using after_distro_cases [of k ?n] nb by (auto simp: backslash_def)
  have dr: "to_lower (?n ! 0) \<noteq> backslash"
    using ne nb by (intro to_lower_not_backslash) (metis length_greater_0_conv nth_mem)
  show ?thesis
    using False ne nb nd ad dr by (auto simp: windows_to_linux_def Let_def backslash_def)
qed (simp add: windows_to_linux_def backslash_def)

text \<open>
  A path on a Windows drive, with an upper-case drive letter and backslashes only, survives the
  way to Linux and back.
\<close>

theorem drive_path_roundtrip:
  assumes "is_alpha c" "to_upper c = c" "CHR ''/'' \<notin> set t"
  shows "linux_to_windows dd di (windows_to_linux ([c] @ '':'' @ [backslash] @ t)) = [c] @ '':'' @ [backslash] @ t"
proof -
  have sl: "c \<noteq> backslash" "c \<noteq> CHR ''/''" using assms(1) by (auto simp: is_alpha_def backslash_def Let_def)
  have lo: "to_lower c \<noteq> CHR ''/''"
  proof
    assume "to_lower c = CHR ''/''"
    then have "(of_char (to_lower c) :: nat) = of_char CHR ''/''" by simp
    then show False using assms(1) by (auto simp: to_lower_code is_alpha_def Let_def split: if_splits)
  qed
  have col: "CHR '':'' \<noteq> backslash" by (simp add: backslash_def)
  let ?t = "replace_char backslash (CHR ''/'') t"
  have "windows_to_linux ([c] @ '':'' @ [backslash] @ t) = ''/mnt/'' @ [to_lower c] @ CHR ''/'' # ?t"
    using assms(1) sl lo col by (simp add: windows_to_linux_def Let_def starts_with_def)
  moreover have "backslash \<notin> set ?t" by (rule replace_char_removes) simp
  ultimately show ?thesis
    using linux_drive_path [OF assms(1,2), of ?t] replace_char_back [OF assms(3), of backslash] by simp
qed

theorem drive_path_roundtrip_witness:
  "linux_to_windows [] [] (windows_to_linux (''C:'' @ [backslash] @ ''Users'')) = ''C:'' @ [backslash] @ ''Users''"
  using drive_path_roundtrip [of "CHR ''C''" "''Users''" "[]" "[]"] by (simp add: is_alpha_def to_upper_def)

text \<open>
  An absolute Linux path outside \<open>/mnt\<close>, without backslashes and not starting with two slashes,
  survives the way to Windows and back, through whichever distribution is resolved.
\<close>

theorem native_path_roundtrip:
  assumes "hd p = CHR ''/''" "p \<noteq> []" "backslash \<notin> set p" "\<not> starts_with ''//'' p"
    and "\<not> starts_with ''/mnt/'' (map to_lower p)"
    and "CHR ''/'' \<notin> set (resolve_distro dd di)" "backslash \<notin> set (resolve_distro dd di)"
  shows "windows_to_linux (linux_to_windows dd di p) = p"
proof -
  obtain q where p: "p = CHR ''/'' # q" using assms(1,2) by (cases p) auto
  let ?d = "resolve_distro dd di" and ?b = "replace_char (CHR ''/'') backslash"
  have bs: "\<not> is_alpha backslash" by (simp add: is_alpha_def backslash_def Let_def)
  have unc: "\<not> starts_with [backslash, backslash] (?b p)"
  proof (cases q)
    case (Cons c r)
    then show ?thesis using assms(3,4) p by (auto simp: starts_with_def)
  qed (simp add: p starts_with_def)
  have mnt: "\<not> starts_with ([backslash] @ ''mnt'' @ [backslash]) (map to_lower (?b p))"
  proof
    assume "starts_with ([backslash] @ ''mnt'' @ [backslash]) (map to_lower (?b p))"
    then obtain r where "map to_lower (?b p) = ([backslash] @ ''mnt'' @ [backslash]) @ r"
      using starts_withE by blast
    then have "map to_lower p = replace_char backslash (CHR ''/'') (([backslash] @ ''mnt'' @ [backslash]) @ r)"
      using lower_undo [OF assms(3)] by simp
    then have "starts_with ''/mnt/'' (map to_lower p)" by (simp add: starts_with_def backslash_def)
    then show False using assms(5) by simp
  qed
  have "linux_to_windows dd di p = unc_prefix ?d @ ?b p"
    using bs unc mnt by (auto simp: linux_to_windows_def Let_def p)
  moreover have "replace_char backslash (CHR ''/'') (unc_prefix ?d @ ?b p) = ''//wsl.localhost/'' @ ?d @ p"
    using replace_char_back [OF assms(3), of "CHR ''/''"] replace_char_absent [OF assms(7)] wsl_host_chars
    by (simp add: unc_prefix_def)
  moreover have "starts_with ''//wsl.localhost/'' (map to_lower (''//wsl.localhost/'' @ ?d @ p))"
    using wsl_host_lower by (simp add: starts_with_def)
  ultimately have "windows_to_linux (linux_to_windows dd di p) = after_distro (length ''//wsl.localhost/'') (''//wsl.localhost/'' @ ?d @ p)"
    by (simp add: windows_to_linux_def Let_def unc_prefix_def)
  also have "\<dots> = p" unfolding p by (rule after_distro_found [OF assms(6) refl])
  finally show ?thesis .
qed

theorem native_path_roundtrip_witness:
  "windows_to_linux (linux_to_windows ''Ubuntu'' [] ''/home/ana'') = ''/home/ana''"
proof -
  have "resolve_distro ''Ubuntu'' [] = ''Ubuntu''" by (simp add: resolve_distro_def)
  then show ?thesis
    by (intro native_path_roundtrip) (simp_all add: backslash_def starts_with_def to_lower_def Let_def)
qed

end
