(* ===== verification/Health_Signal.thy ===== *)
theory Health_Signal
  imports Prelude
begin

text \<open>
  The health page that the shell shares with its supervisor: the writer
  \<open>NativeHealthSignalV9\<close> (\<open>native_health_signal_v9.h\<close>) and the reader \<open>ReadHealthSnapshot\<close>
  (\<open>CloudOS.NativeRecovery/main.cpp\<close>), a sequence lock over a 96-byte structure.

  Writer and reader run in different processes with no lock between them, so the page is a history
  of stores to single fields, and a copy reads each field at some moment of that history. Time is
  the number of stores done so far. The 64-bit sequence number is a natural: it takes \<open>2 ^ 63\<close>
  writes to wrap.
\<close>

section \<open>The page\<close>

datatype health_field =
    HMagic | HSchema | HStructureSize | HState | HProcessId | HSessionId | HUiThreadId | HReserved0
  | HSequence
  | HStartedTick | HReadyTick | HHeartbeatTick | HHeartbeatCount | HMainWindow
  | HGdiObjects | HUserObjects | HHandleCount | HReserved1

type_synonym health_page = "health_field \<Rightarrow> nat"
type_synonym health_store = "health_field \<times> nat"

definition health_magic :: nat where
  "health_magic = 0x39484F43"

definition health_schema :: nat where
  "health_schema = 9"

definition health_structure_size :: nat where
  "health_structure_size = 96"

definition state_starting :: nat where "state_starting = 1"
definition state_ready :: nat where "state_ready = 2"
definition state_shutting_down :: nat where "state_shutting_down = 3"

text \<open>The fields in the order of their offsets, the order in which \<open>memcpy\<close> copies them.\<close>

definition field_order :: "health_field list" where
  "field_order = [HMagic, HSchema, HStructureSize, HState, HProcessId, HSessionId, HUiThreadId, HReserved0,
     HSequence, HStartedTick, HReadyTick, HHeartbeatTick, HHeartbeatCount, HMainWindow,
     HGdiObjects, HUserObjects, HHandleCount, HReserved1]"

fun field_index :: "health_field \<Rightarrow> nat" where
  "field_index HMagic = 0" | "field_index HSchema = 1" | "field_index HStructureSize = 2"
| "field_index HState = 3" | "field_index HProcessId = 4" | "field_index HSessionId = 5"
| "field_index HUiThreadId = 6" | "field_index HReserved0 = 7" | "field_index HSequence = 8"
| "field_index HStartedTick = 9" | "field_index HReadyTick = 10" | "field_index HHeartbeatTick = 11"
| "field_index HHeartbeatCount = 12" | "field_index HMainWindow = 13" | "field_index HGdiObjects = 14"
| "field_index HUserObjects = 15" | "field_index HHandleCount = 16" | "field_index HReserved1 = 17"

lemma field_order_index: "map field_index field_order = [0..<18]"
  by (simp add: field_order_def upt_rec)

section \<open>The writer\<close>

text \<open>
  The process handle counts (\<open>None\<close> when \<open>GetProcessHandleCount\<close> fails), the tick and the window
  are what the operating system answers.
\<close>

record resources =
  rs_gdi :: nat
  rs_user :: nat
  rs_handles :: "nat option"

datatype health_op =
    MarkReady nat nat resources
  | Pulse nat nat resources
  | MarkShuttingDown nat nat resources

definition refresh_resources :: "resources \<Rightarrow> health_store list" where
  "refresh_resources rs =
     [(HGdiObjects, rs_gdi rs), (HUserObjects, rs_user rs)] @
     (case rs_handles rs of None \<Rightarrow> [] | Some n \<Rightarrow> [(HHandleCount, n)])"

definition store_all :: "health_store list \<Rightarrow> health_page \<Rightarrow> health_page" where
  "store_all ss m = foldl (\<lambda>m (f, v). m(f := v)) m ss"

text \<open>The page after \<open>Initialize\<close>, which no reader accepts before its magic is there.\<close>

definition initial_page :: "nat \<Rightarrow> nat \<Rightarrow> nat \<Rightarrow> nat \<Rightarrow> resources \<Rightarrow> health_page" where
  "initial_page pid session thread now rs = store_all
     ([(HMagic, health_magic), (HSchema, health_schema), (HStructureSize, health_structure_size),
       (HState, state_starting), (HProcessId, pid), (HSessionId, session), (HUiThreadId, thread),
       (HStartedTick, now), (HHeartbeatTick, now)] @ refresh_resources rs) (\<lambda>_. 0)"

fun op_body :: "health_op \<Rightarrow> health_page \<Rightarrow> health_store list" where
  "op_body (MarkReady now window rs) m =
     [(HState, state_ready)] @ (if m HReadyTick = 0 then [(HReadyTick, now)] else []) @
     [(HHeartbeatTick, now), (HHeartbeatCount, m HHeartbeatCount + 1), (HMainWindow, window)] @
     refresh_resources rs"
| "op_body (Pulse now window rs) m =
     [(HHeartbeatTick, now), (HHeartbeatCount, m HHeartbeatCount + 1), (HMainWindow, window)] @
     refresh_resources rs"
| "op_body (MarkShuttingDown now window rs) m =
     [(HState, state_shutting_down), (HHeartbeatTick, now), (HHeartbeatCount, m HHeartbeatCount + 1),
      (HMainWindow, window)] @ refresh_resources rs"

text \<open>\<open>BeginWrite\<close>, the body, \<open>EndWrite\<close>.\<close>

definition op_stores :: "health_op \<Rightarrow> health_page \<Rightarrow> health_store list" where
  "op_stores op m = [(HSequence, m HSequence + 1)] @ op_body op m @ [(HSequence, m HSequence + 2)]"

fun history :: "health_op list \<Rightarrow> health_page \<Rightarrow> health_store list" where
  "history [] m = []"
| "history (op # ops) m = op_stores op m @ history ops (store_all (op_stores op m) m)"

text \<open>The page after \<open>t\<close> stores of a history.\<close>

definition page_at :: "health_store list \<Rightarrow> health_page \<Rightarrow> nat \<Rightarrow> health_page" where
  "page_at h m t = store_all (take t h) m"

section \<open>The reader\<close>

text \<open>A copy of the page, each field read at its own time.\<close>

definition copy_page :: "health_store list \<Rightarrow> health_page \<Rightarrow> (health_field \<Rightarrow> nat) \<Rightarrow> health_page" where
  "copy_page h m at = (\<lambda>f. page_at h m (at f) f)"

datatype attempt = Retry | Invalid | Accepted health_page

definition read_attempt :: "health_page \<Rightarrow> health_page \<Rightarrow> attempt" where
  "read_attempt first second =
     (if odd (first HSequence) then Retry
      else if first HSequence \<noteq> second HSequence \<or> odd (second HSequence) then Retry
      else if second HMagic \<noteq> health_magic \<or> second HSchema \<noteq> health_schema \<or>
              second HStructureSize \<noteq> health_structure_size then Invalid
      else Accepted second)"

fun read_loop :: "nat \<Rightarrow> (health_page \<times> health_page) list \<Rightarrow> health_page option" where
  "read_loop 0 copies = None"
| "read_loop (Suc n) [] = None"
| "read_loop (Suc n) ((first, second) # copies) =
     (case read_attempt first second of
        Retry \<Rightarrow> read_loop n copies
      | Invalid \<Rightarrow> None
      | Accepted s \<Rightarrow> Some s)"

definition read_health_snapshot :: "(health_page \<times> health_page) list \<Rightarrow> health_page option" where
  "read_health_snapshot copies = read_loop 8 copies"

text \<open>
  The times of one attempt: within a copy fields are read in the order of their offsets, and the
  second copy follows the first.
\<close>

definition attempt_times :: "(health_field \<Rightarrow> nat) \<Rightarrow> (health_field \<Rightarrow> nat) \<Rightarrow> bool" where
  "attempt_times at1 at2 \<longleftrightarrow>
     (\<forall>f g. field_index f \<le> field_index g \<longrightarrow> at1 f \<le> at1 g \<and> at2 f \<le> at2 g) \<and>
     at1 HReserved1 \<le> at2 HMagic"

section \<open>The sequence number\<close>

fun sequence_stores :: "health_store list \<Rightarrow> nat" where
  "sequence_stores [] = 0"
| "sequence_stores ((f, v) # ss) = (if f = HSequence then 1 else 0) + sequence_stores ss"

lemma sequence_stores_append [simp]: "sequence_stores (xs @ ys) = sequence_stores xs + sequence_stores ys"
  by (induction xs rule: sequence_stores.induct) simp_all

lemma store_all_simps [simp]:
  "store_all [] m = m" "store_all ((f, v) # ss) m = store_all ss (m(f := v))"
  "store_all (xs @ ys) m = store_all ys (store_all xs m)"
  by (simp_all add: store_all_def)

lemma op_body_sequence: "sequence_stores (op_body op m) = 0"
  by (cases op) (auto simp: refresh_resources_def split: option.split)

lemma store_all_no_sequence: "sequence_stores ss = 0 \<Longrightarrow> store_all ss m HSequence = m HSequence"
  by (induction ss arbitrary: m rule: sequence_stores.induct) (auto split: if_splits)

lemma sequence_stores_take: "sequence_stores ss = 0 \<Longrightarrow> sequence_stores (take n ss) = 0"
  by (metis add_is_0 append_take_drop_id sequence_stores_append)

text \<open>The sequence number counts the stores to it, and where it is even a write begins.\<close>

lemma history_sequence:
  "page_at (history ops m) m t HSequence = m HSequence + sequence_stores (take t (history ops m)) \<and>
   (even (sequence_stores (take t (history ops m))) \<longrightarrow> t < length (history ops m) \<longrightarrow>
      fst (history ops m ! t) = HSequence)"
proof (induction ops arbitrary: m t)
  case (Cons op ops)
  let ?b = "op_body op m" and ?m = "store_all (op_stores op m) m"
  have seq: "?m HSequence = m HSequence + 2" by (simp add: op_stores_def)
  have n: "sequence_stores (op_stores op m) = 2" by (simp add: op_stores_def op_body_sequence)
  have len: "length (op_stores op m) = length ?b + 2" by (simp add: op_stores_def)
  consider (zero) "t = 0" | (inside) "0 < t" "t < length ?b + 2" | (after) "length ?b + 2 \<le> t" by linarith
  then show ?case
  proof cases
    case zero
    then show ?thesis by (simp add: page_at_def op_stores_def)
  next
    case inside
    then obtain k where k: "t = Suc k" "k \<le> length ?b" by (cases t) auto
    have tk: "take t (history (op # ops) m) = (HSequence, m HSequence + 1) # take k ?b"
      using k by (simp add: op_stores_def)
    have "sequence_stores (take k ?b) = 0" by (rule sequence_stores_take) (rule op_body_sequence)
    then show ?thesis unfolding page_at_def tk by (simp add: store_all_no_sequence)
  next
    case after
    then obtain k where k: "t = length (op_stores op m) + k" by (metis le_Suc_ex len)
    have tk: "take t (history (op # ops) m) = op_stores op m @ take k (history ops ?m)" by (simp add: k)
    have nth: "history (op # ops) m ! t = history ops ?m ! k" by (simp add: k nth_append)
    show ?thesis
      using Cons.IH [of ?m k] unfolding tk nth by (auto simp: page_at_def tk seq n k)
  qed
qed (simp add: page_at_def)

lemma sequence_stores_mono: "t \<le> t' \<Longrightarrow> sequence_stores (take t h) \<le> sequence_stores (take t' h)"
  by (metis le_add1 le_Suc_ex sequence_stores_append take_add)

text \<open>Two moments with the same even sequence number are the same moment, or no store is left.\<close>

lemma same_even_sequence:
  assumes "t \<le> t'" "even (m HSequence)" "even (page_at (history ops m) m t HSequence)"
    and "page_at (history ops m) m t HSequence = page_at (history ops m) m t' HSequence"
  shows "t = t' \<or> length (history ops m) \<le> t"
proof (rule ccontr)
  assume neg: "\<not> (t = t' \<or> length (history ops m) \<le> t)"
  let ?h = "history ops m"
  have lt: "t < length ?h" "Suc t \<le> t'" using neg assms(1) by auto
  have "even (sequence_stores (take t ?h))" using assms(2,3) history_sequence [of ops m t] by simp
  then have "fst (?h ! t) = HSequence" using history_sequence [of ops m t] lt(1) by blast
  then have "sequence_stores (take (Suc t) ?h) = Suc (sequence_stores (take t ?h))"
    using lt(1) by (cases "?h ! t") (simp add: take_Suc_conv_app_nth)
  then have "sequence_stores (take t ?h) < sequence_stores (take t' ?h)"
    using sequence_stores_mono [OF lt(2), of ?h] by simp
  then show False using assms(4) history_sequence [of ops m t] history_sequence [of ops m t'] by simp
qed

lemma page_at_end: "length h \<le> t \<Longrightarrow> page_at h m t = page_at h m (length h)"
  by (simp add: page_at_def)

text \<open>The page between two writes: after the first \<open>k\<close> operations.\<close>

definition stable_page :: "health_op list \<Rightarrow> health_page \<Rightarrow> nat \<Rightarrow> health_page" where
  "stable_page ops m k = store_all (history (take k ops) m) m"

lemma even_boundary:
  "even (sequence_stores (take t (history ops m))) \<Longrightarrow> t \<le> length (history ops m) \<Longrightarrow>
     \<exists>k \<le> length ops. take t (history ops m) = history (take k ops) m"
proof (induction ops arbitrary: m t)
  case (Cons op ops)
  let ?b = "op_body op m" and ?m = "store_all (op_stores op m) m"
  have len: "length (op_stores op m) = length ?b + 2" by (simp add: op_stores_def)
  consider (zero) "t = 0" | (inside) "0 < t" "t < length ?b + 2" | (after) "length ?b + 2 \<le> t" by linarith
  then show ?case
  proof cases
    case zero
    then show ?thesis by (intro exI [of _ 0]) simp
  next
    case inside
    then obtain k where k: "t = Suc k" "k \<le> length ?b" by (cases t) auto
    have "take t (history (op # ops) m) = (HSequence, m HSequence + 1) # take k ?b"
      using k by (simp add: op_stores_def)
    moreover have "sequence_stores (take k ?b) = 0" by (rule sequence_stores_take) (rule op_body_sequence)
    ultimately show ?thesis using Cons.prems(1) by simp
  next
    case after
    then obtain j where j: "t = length (op_stores op m) + j" by (metis le_Suc_ex len)
    have n: "sequence_stores (op_stores op m) = 2" by (simp add: op_stores_def op_body_sequence)
    obtain k where "k \<le> length ops" "take j (history ops ?m) = history (take k ops) ?m"
      using Cons.IH [of j ?m] Cons.prems by (auto simp: j n)
    then show ?thesis by (intro exI [of _ "Suc k"]) (simp add: j)
  qed
qed simp

lemma page_at_stable:
  assumes "even (m HSequence)" "even (page_at (history ops m) m t HSequence)"
  shows "\<exists>k \<le> length ops. page_at (history ops m) m t = stable_page ops m k"
proof -
  let ?t = "min t (length (history ops m))"
  have "take t (history ops m) = take ?t (history ops m)" by (cases "t \<le> length (history ops m)") simp_all
  moreover have "even (sequence_stores (take t (history ops m)))"
    using assms history_sequence [of ops m t] by simp
  ultimately obtain k where "k \<le> length ops" "take t (history ops m) = history (take k ops) m"
    using even_boundary [of ?t ops m] by auto
  then show ?thesis by (auto simp: page_at_def stable_page_def)
qed

section \<open>Properties\<close>

text \<open>
  What the sequence lock guarantees: the identity and state fields of an accepted snapshot, all
  that lie before the sequence number in the page, are those of the page between two writes, however
  the reads of the two copies fall among the stores of the writer.
\<close>

theorem accepted_snapshot_prefix:
  assumes "even (m HSequence)" "attempt_times at1 at2"
    and "read_attempt (copy_page (history ops m) m at1) (copy_page (history ops m) m at2) = Accepted s"
  shows "\<exists>k \<le> length ops. \<forall>f. field_index f \<le> field_index HSequence \<longrightarrow> s f = stable_page ops m k f"
proof -
  let ?h = "history ops m" and ?t = "at1 HSequence" and ?t' = "at2 HSequence"
  have acc: "s = copy_page ?h m at2" "even (page_at ?h m ?t HSequence)"
    "page_at ?h m ?t HSequence = page_at ?h m ?t' HSequence"
    using assms(3) by (auto simp: read_attempt_def copy_page_def split: if_splits)
  have t1: "?t \<le> at1 HReserved1" and t2: "at1 HReserved1 \<le> at2 HMagic" and t3: "at2 HMagic \<le> ?t'"
    using assms(2) by (auto simp: attempt_times_def)
  have eq: "?t = ?t' \<or> length ?h \<le> ?t"
    using t1 t2 t3 acc(2,3) assms(1) by (intro same_even_sequence) auto
  obtain k where k: "k \<le> length ops" "page_at ?h m ?t = stable_page ops m k"
    using page_at_stable [OF assms(1) acc(2)] by blast
  have "s f = stable_page ops m k f" if "field_index f \<le> field_index HSequence" for f
  proof -
    have "at2 HMagic \<le> at2 f" "at2 f \<le> ?t'" using assms(2) that by (auto simp: attempt_times_def)
    then have "?t \<le> at2 f" "at2 f \<le> ?t'" using t1 t2 by auto
    then have "page_at ?h m (at2 f) = page_at ?h m ?t" using eq page_at_end [of ?h] by (metis le_antisym le_trans)
    then show ?thesis using k(2) by (simp add: acc(1) copy_page_def)
  qed
  with k(1) show ?thesis by blast
qed

definition sample_resources :: resources where
  "sample_resources = \<lparr>rs_gdi = 5, rs_user = 6, rs_handles = Some 7\<rparr>"

definition sample_page :: health_page where
  "sample_page = initial_page 4321 1 99 50 sample_resources"

definition sample_ops :: "health_op list" where
  "sample_ops = [MarkReady 100 1 sample_resources, Pulse 200 1 sample_resources]"

text \<open>
  Both copies are begun after the first write; the second copy has read the heartbeat tick when the
  writer makes its second write, and reads the heartbeat count after it.
\<close>

definition early_times :: "health_field \<Rightarrow> nat" where
  "early_times f = 10"

definition torn_times :: "health_field \<Rightarrow> nat" where
  "torn_times f = (if field_index f \<le> field_index HHeartbeatTick then 10 else 18)"

definition torn_snapshot :: health_page where
  "torn_snapshot = copy_page (history sample_ops sample_page) sample_page torn_times"

lemma sample_attempt:
  "read_attempt (copy_page (history sample_ops sample_page) sample_page early_times) torn_snapshot = Accepted torn_snapshot"
  by (simp add: read_attempt_def torn_snapshot_def copy_page_def page_at_def early_times_def torn_times_def
      sample_ops_def sample_page_def initial_page_def sample_resources_def refresh_resources_def op_stores_def
      health_magic_def health_schema_def health_structure_size_def)

lemma sample_times: "attempt_times early_times torn_times"
  by (auto simp: attempt_times_def early_times_def torn_times_def)

theorem accepted_snapshot_prefix_witness:
  "\<exists>k \<le> 2. torn_snapshot HProcessId = stable_page sample_ops sample_page k HProcessId"
proof -
  have "even (sample_page HSequence)"
    by (simp add: sample_page_def initial_page_def sample_resources_def refresh_resources_def)
  from accepted_snapshot_prefix [OF this sample_times sample_attempt [unfolded torn_snapshot_def], folded torn_snapshot_def]
  obtain k where "k \<le> length sample_ops" "torn_snapshot HProcessId = stable_page sample_ops sample_page k HProcessId"
    by auto
  then show ?thesis by (intro exI [of _ k]) (simp add: sample_ops_def)
qed

text \<open>
  What it does not guarantee: the reader returns the copy it made after the second look at the
  sequence number, so the fields behind the number are not covered. Here it accepts, as a valid
  snapshot, a heartbeat tick with the heartbeat count of the next write, a pair that the page never
  held between two writes.
\<close>

theorem accepted_snapshot_torn:
  "attempt_times early_times torn_times \<and>
   read_health_snapshot [(copy_page (history sample_ops sample_page) sample_page early_times, torn_snapshot)] =
     Some torn_snapshot \<and>
   (\<nexists>k. (torn_snapshot HHeartbeatTick, torn_snapshot HHeartbeatCount) =
      (stable_page sample_ops sample_page k HHeartbeatTick, stable_page sample_ops sample_page k HHeartbeatCount))"
proof -
  have torn: "torn_snapshot HHeartbeatTick = 100" "torn_snapshot HHeartbeatCount = 2"
    by (simp_all add: torn_snapshot_def copy_page_def page_at_def torn_times_def
      sample_ops_def sample_page_def initial_page_def sample_resources_def refresh_resources_def op_stores_def)
  have st: "(stable_page sample_ops sample_page k HHeartbeatTick, stable_page sample_ops sample_page k HHeartbeatCount)
      \<in> {(50, 0), (100, 1), (200, 2)}" for k
  proof -
    consider "k = 0" | "k = 1" | "2 \<le> k" by linarith
    then show ?thesis
      by cases (simp_all add: stable_page_def sample_ops_def sample_page_def initial_page_def
          sample_resources_def refresh_resources_def op_stores_def)
  qed
  have "(100 :: nat, 2 :: nat) \<notin> {(50, 0), (100, 1), (200, 2)}" by simp
  then have never: "\<nexists>k. (torn_snapshot HHeartbeatTick, torn_snapshot HHeartbeatCount) =
      (stable_page sample_ops sample_page k HHeartbeatTick, stable_page sample_ops sample_page k HHeartbeatCount)"
    using st unfolding torn by metis
  have "read_loop (Suc 7) [(copy_page (history sample_ops sample_page) sample_page early_times, torn_snapshot)] =
      Some torn_snapshot"
    by (simp only: read_loop.simps sample_attempt attempt.case)
  then have "read_health_snapshot [(copy_page (history sample_ops sample_page) sample_page early_times, torn_snapshot)] =
      Some torn_snapshot" by (simp add: read_health_snapshot_def)
  with sample_times never show ?thesis by blast
qed

end
