(* ===== verification/Supervisor.thy ===== *)
theory Supervisor
  imports Health_Signal
begin

text \<open>
  The process supervisor (\<open>CloudOS.NativeRecovery\<close>): it launches the shell, waits until the shell's
  health page says it is ready, watches its heartbeat and restarts it, until too many failures make
  it hand the session over to the Windows Explorer. From \<open>main.cpp\<close> come the waiting and monitoring
  loops, the restart delay, the options and the fallback; from \<open>main_v22.cpp\<close> the supervisor loop
  \<open>RunSupervisorV22\<close> with its window of recent failures and the persisted states.

  What the operating system answers is an argument: one record per round of a loop, one record per
  launch. A loop that runs out of answers is still waiting, and its result is \<open>None\<close>. Ticks are
  64-bit words, as \<open>GetTickCount64\<close> returns them; exit codes are 32-bit words.
\<close>

unbundle bit_operations_syntax

section \<open>Constants and options\<close>

definition kStatusControlCExit :: u32 where "kStatusControlCExit = 0xC000013A"
definition kSupervisorHangExit :: u32 where "kSupervisorHangExit = 0xC0000409"
definition kStableRunResetMs :: u64 where "kStableRunResetMs = 120000"
definition kV22CrashWindowMs :: u64 where "kV22CrashWindowMs = 60000"

record supervisor_options =
  ready_timeout_ms :: nat
  heartbeat_timeout_ms :: nat
  maximum_failures :: nat
  probe_ready_once :: bool
  probe_failure_loop :: bool
  suppress_explorer :: bool

definition default_options :: supervisor_options where
  "default_options = \<lparr>ready_timeout_ms = 30000, heartbeat_timeout_ms = 5000, maximum_failures = 3,
     probe_ready_once = False, probe_failure_loop = False, suppress_explorer = False\<rparr>"

text \<open>Command-line arguments are wide strings; \<open>_wcsicmp\<close> compares them without case.\<close>

type_synonym wstring = "16 word list"

definition wide :: "string \<Rightarrow> wstring" where
  "wide s = map (\<lambda>c. word_of_nat (of_char c)) s"

definition wide_lower :: "16 word \<Rightarrow> 16 word" where
  "wide_lower w = (if 65 \<le> w \<and> w \<le> 90 then w + 32 else w)"

definition wcsicmp_eq :: "wstring \<Rightarrow> wstring \<Rightarrow> bool" where
  "wcsicmp_eq a b \<longleftrightarrow> map wide_lower a = map wide_lower b"

definition wide_digit :: "16 word \<Rightarrow> bool" where
  "wide_digit w \<longleftrightarrow> 48 \<le> w \<and> w \<le> 57"

definition wide_space :: "16 word \<Rightarrow> bool" where
  "wide_space w \<longleftrightarrow> w = 32 \<or> (9 \<le> w \<and> w \<le> 13)"

definition digits_value :: "wstring \<Rightarrow> nat" where
  "digits_value ds = foldl (\<lambda>n w. 10 * n + (unat w - 48)) 0 ds"

text \<open>
  \<open>wcstoul\<close> in base 10 as its caller uses it: the value when the whole argument is a number and no
  overflow is reported. A minus sign negates in 32 bits.
\<close>

definition wcstoul_whole :: "wstring \<Rightarrow> nat option" where
  "wcstoul_whole s =
     (let t = dropWhile wide_space s;
          neg = (t \<noteq> [] \<and> hd t = 45);
          u = (if t \<noteq> [] \<and> (hd t = 45 \<or> hd t = 43) then tl t else t);
          n = digits_value u
      in if u = [] \<or> \<not> list_all wide_digit u then None
         else if 2 ^ 32 \<le> n then None
         else Some (if neg then (2 ^ 32 - n) mod 2 ^ 32 else n))"

fun has_argument_loop :: "wstring \<Rightarrow> wstring list \<Rightarrow> bool" where
  "has_argument_loop expected [] = False"
| "has_argument_loop expected (a # as) = (wcsicmp_eq a expected \<or> has_argument_loop expected as)"

text \<open>The first argument is the program.\<close>

definition has_argument :: "wstring list \<Rightarrow> wstring \<Rightarrow> bool" where
  "has_argument arguments expected = has_argument_loop expected (drop (min 1 (length arguments)) arguments)"

fun try_read_loop :: "wstring \<Rightarrow> nat \<Rightarrow> nat \<Rightarrow> wstring list \<Rightarrow> nat option" where
  "try_read_loop name lo hi (a # b # as) =
     (if \<not> wcsicmp_eq a name then try_read_loop name lo hi (b # as)
      else (case wcstoul_whole b of None \<Rightarrow> None
        | Some n \<Rightarrow> if n < lo \<or> hi < n then None else Some n))"
| "try_read_loop name lo hi _ = None"

definition try_read_unsigned :: "wstring list \<Rightarrow> wstring \<Rightarrow> nat \<Rightarrow> nat \<Rightarrow> nat option" where
  "try_read_unsigned arguments name lo hi = try_read_loop name lo hi (tl arguments)"

definition parse_options :: "wstring list \<Rightarrow> supervisor_options" where
  "parse_options arguments =
     \<lparr>ready_timeout_ms =
        (case try_read_unsigned arguments (wide ''--ready-timeout-ms'') 1000 300000 of Some n \<Rightarrow> n
         | None \<Rightarrow> ready_timeout_ms default_options),
      heartbeat_timeout_ms =
        (case try_read_unsigned arguments (wide ''--heartbeat-timeout-ms'') 1000 120000 of Some n \<Rightarrow> n
         | None \<Rightarrow> heartbeat_timeout_ms default_options),
      maximum_failures =
        (case try_read_unsigned arguments (wide ''--max-failures'') 1 10 of Some n \<Rightarrow> n
         | None \<Rightarrow> maximum_failures default_options),
      probe_ready_once = has_argument arguments (wide ''--probe-ready-once''),
      probe_failure_loop = has_argument arguments (wide ''--probe-failure-loop''),
      suppress_explorer = has_argument arguments (wide ''--probe-no-explorer'')\<rparr>"

section \<open>Judging the shell\<close>

definition heartbeat_fresh :: "u64 \<Rightarrow> health_page \<Rightarrow> nat \<Rightarrow> bool" where
  "heartbeat_fresh now snapshot maximum_age_ms =
     (let tick = word_of_nat (snapshot HHeartbeatTick) :: u64 in
      if now + 2000 < tick then False
      else if now < tick then True
      else now - tick \<le> word_of_nat maximum_age_ms)"

definition is_failure_exit_code :: "u32 \<Rightarrow> bool" where
  "is_failure_exit_code exit_code =
     (if exit_code = 0 \<or> exit_code = kStatusControlCExit then False
      else exit_code AND 0x80000000 \<noteq> 0)"

text \<open>One round of \<open>WaitForReady\<close>.\<close>

record ready_obs =
  ro_now :: u64
  ro_exit :: "u32 option"
  ro_snapshot :: "health_page option"
  ro_fresh_now :: u64

definition before_deadline :: "u64 \<Rightarrow> ready_obs \<Rightarrow> bool" where
  "before_deadline deadline ob \<longleftrightarrow> ro_now ob < deadline"

datatype wait_outcome = Ready | WaitNormalExit u32 | WaitFailure u32 | WaitTimedOut

definition snapshot_ready :: "nat \<Rightarrow> health_page \<Rightarrow> bool" where
  "snapshot_ready process_id s \<longleftrightarrow> s HProcessId = process_id \<and> s HState = state_ready"

fun wait_for_ready :: "u64 \<Rightarrow> nat \<Rightarrow> nat \<Rightarrow> ready_obs list \<Rightarrow> wait_outcome option" where
  "wait_for_ready deadline process_id hb [] = None"
| "wait_for_ready deadline process_id hb (ob # obs) =
     (if \<not> ro_now ob < deadline then Some WaitTimedOut
      else case ro_exit ob of
        Some code \<Rightarrow> Some (if code = 0 then WaitNormalExit code else WaitFailure code)
      | None \<Rightarrow>
          (case ro_snapshot ob of
             Some s \<Rightarrow>
               if snapshot_ready process_id s \<and> s HReadyTick \<noteq> 0 \<and> heartbeat_fresh (ro_fresh_now ob) s hb
               then Some Ready else wait_for_ready deadline process_id hb obs
           | None \<Rightarrow> wait_for_ready deadline process_id hb obs))"

text \<open>One round of \<open>MonitorShell\<close>: how the one-second wait ended, and what was read after it.\<close>

datatype process_wait = Signaled u32 | StillRunning | WaitError

record monitor_obs =
  mo_wait :: process_wait
  mo_snapshot :: "health_page option"
  mo_fresh_now :: u64
  mo_now :: u64

datatype monitor_outcome = MonitorNormalExit u32 | MonitorFailure u32 | HeartbeatStale

fun monitor_loop :: "nat \<Rightarrow> nat \<Rightarrow> u64 \<Rightarrow> monitor_obs list \<Rightarrow> monitor_outcome option" where
  "monitor_loop process_id hb last_fresh [] = None"
| "monitor_loop process_id hb last_fresh (ob # obs) =
     (case mo_wait ob of
        Signaled code \<Rightarrow> Some (if is_failure_exit_code code then MonitorFailure code else MonitorNormalExit code)
      | WaitError \<Rightarrow> Some (MonitorFailure 1)
      | StillRunning \<Rightarrow>
          if (case mo_snapshot ob of Some s \<Rightarrow> snapshot_ready process_id s \<and> heartbeat_fresh (mo_fresh_now ob) s hb
              | None \<Rightarrow> False)
          then monitor_loop process_id hb (mo_now ob) obs
          else if word_of_nat hb < mo_now ob - last_fresh then Some HeartbeatStale
          else monitor_loop process_id hb last_fresh obs)"

section \<open>Stopping the shell\<close>

text \<open>\<open>ProbeReadyHeartbeatV22\<close>: three more heartbeats within twelve seconds.\<close>

record probe_obs =
  po_now :: u64
  po_exited :: bool
  po_snapshot :: "health_page option"
  po_fresh_now :: u64

fun probe_loop :: "u64 \<Rightarrow> nat \<Rightarrow> nat \<Rightarrow> nat \<Rightarrow> probe_obs list \<Rightarrow> bool option" where
  "probe_loop deadline process_id hb target [] = None"
| "probe_loop deadline process_id hb target (ob # obs) =
     (if \<not> po_now ob < deadline then Some False
      else if po_exited ob then Some False
      else if (case po_snapshot ob of
                 Some s \<Rightarrow> s HProcessId = process_id \<and> target \<le> s HHeartbeatCount \<and>
                   heartbeat_fresh (po_fresh_now ob) s hb
               | None \<Rightarrow> False)
      then Some True else probe_loop deadline process_id hb target obs)"

definition probe_ready_heartbeat ::
  "nat \<Rightarrow> nat \<Rightarrow> health_page option \<Rightarrow> u64 \<Rightarrow> probe_obs list \<Rightarrow> bool option" where
  "probe_ready_heartbeat process_id hb initial start obs =
     (case initial of None \<Rightarrow> Some False
      | Some s \<Rightarrow>
          if s HProcessId \<noteq> process_id then Some False
          else probe_loop (start + 12000) process_id hb (s HHeartbeatCount + 3) obs)"

text \<open>
  \<open>RequestGracefulExitV22\<close>: the desktop window's process, whether the message was posted, the plain
  five-second wait, the polls within five seconds (did the process end, what did the health page
  say) and the extension granted when the shell said it was shutting down.
\<close>

record graceful_env =
  ge_window_process :: "nat option"
  ge_posted :: bool
  ge_primary_wait :: bool
  ge_polls :: "(bool \<times> health_page option) list"
  ge_extension_wait :: bool

fun graceful_polls :: "nat \<Rightarrow> bool \<Rightarrow> (bool \<times> health_page option) list \<Rightarrow> bool \<times> bool" where
  "graceful_polls process_id ack [] = (False, ack)"
| "graceful_polls process_id ack ((exited, snap) # polls) =
     (if exited then (True, ack)
      else graceful_polls process_id
        (ack \<or> (case snap of Some s \<Rightarrow> s HProcessId = process_id \<and> s HState = state_shutting_down | None \<Rightarrow> False))
        polls)"

definition request_graceful_exit :: "nat \<Rightarrow> graceful_env \<Rightarrow> bool" where
  "request_graceful_exit process_id env =
     (case ge_window_process env of
        None \<Rightarrow> ge_primary_wait env
      | Some p \<Rightarrow>
          if p \<noteq> process_id \<or> \<not> ge_posted env then ge_primary_wait env
          else (case graceful_polls process_id False (ge_polls env) of
              (True, ack) \<Rightarrow> True
            | (False, ack) \<Rightarrow> if \<not> ack then False else ge_extension_wait env))"

section \<open>Restart delay, fallback, failure window\<close>

definition restart_backoff :: "nat \<Rightarrow> nat" where
  "restart_backoff failure_count =
     (let shift = min (if 0 < failure_count then failure_count - 1 else 0) 3
      in min 4000 (500 * 2 ^ shift))"

record explorer_env =
  explorer_present :: bool
  explorer_opened :: bool

definition fallback_to_explorer :: "explorer_env \<Rightarrow> bool \<Rightarrow> int" where
  "fallback_to_explorer env suppress =
     (if explorer_present env then 0 else if suppress then 42
      else if explorer_opened env then 0 else 43)"

definition purge_old_failures :: "u64 \<Rightarrow> u64 list \<Rightarrow> u64 list" where
  "purge_old_failures now failures = dropWhile (\<lambda>t. kV22CrashWindowMs < now - t) failures"

definition record_failure :: "u64 \<Rightarrow> nat \<Rightarrow> u64 list \<Rightarrow> bool \<times> u64 list" where
  "record_failure now maximum failures =
     (let fs = purge_old_failures now failures @ [now] in (maximum \<le> length fs, fs))"

section \<open>The supervisor loop\<close>

datatype supervisor_state =
    SupStarting | SupHealthy | SupDegraded | SupRestarting | SupCrashLoop | SupSafeMode | SupStopping

fun supervisor_state_name :: "supervisor_state \<Rightarrow> string" where
  "supervisor_state_name SupStarting = ''STARTING''"
| "supervisor_state_name SupHealthy = ''HEALTHY''"
| "supervisor_state_name SupDegraded = ''DEGRADED''"
| "supervisor_state_name SupRestarting = ''RESTARTING''"
| "supervisor_state_name SupCrashLoop = ''CRASH_LOOP''"
| "supervisor_state_name SupSafeMode = ''SAFE_MODE''"
| "supervisor_state_name SupStopping = ''STOPPING''"

text \<open>What \<open>PersistSupervisorStateV22\<close> writes, apart from the clock and the process ids.\<close>

record persisted =
  ps_state :: supervisor_state
  ps_reason :: string
  ps_shell_pid :: nat
  ps_failures :: nat
  ps_exit_code :: u32
  ps_job_assigned :: bool

definition persist ::
  "supervisor_state \<Rightarrow> string \<Rightarrow> nat \<Rightarrow> nat \<Rightarrow> u32 \<Rightarrow> bool \<Rightarrow> persisted" where
  "persist st reason pid failures code job =
     \<lparr>ps_state = st, ps_reason = reason, ps_shell_pid = pid, ps_failures = failures,
      ps_exit_code = code, ps_job_assigned = job\<rparr>"

text \<open>
  One launch of the shell and what the system answers from then on. \<open>cy_end_tick\<close> is the tick of the
  stability check and \<open>cy_record_tick\<close> the one taken in \<open>RecordFailureV22\<close>.
\<close>

datatype launch = LaunchFailed u32 | Launched nat bool

record cycle =
  cy_launch :: launch
  cy_launch_tick :: u64
  cy_wait_start :: u64
  cy_wait :: "ready_obs list"
  cy_probe_initial :: "health_page option"
  cy_probe_start :: u64
  cy_probe :: "probe_obs list"
  cy_graceful :: graceful_env
  cy_monitor_start :: u64
  cy_monitor :: "monitor_obs list"
  cy_end_tick :: u64
  cy_record_tick :: u64

text \<open>How a launch ends: not yet, with the end of the supervisor, or with a failure to be counted.\<close>

datatype cycle_end = Blocked | Quit int | Failed u32

definition launch_cycle ::
  "supervisor_options \<Rightarrow> nat \<Rightarrow> nat \<Rightarrow> bool \<Rightarrow> cycle \<Rightarrow> persisted list \<times> cycle_end" where
  "launch_cycle opts failures pid job c =
     (let started = persist SupStarting
            (if job then ''CloudOS.exe created suspended, assigned to kill-on-close/breakaway Job Object, then resumed''
             else ''CloudOS.exe created suspended and resumed; Job Object ownership unavailable'') pid failures 0 job
      in case wait_for_ready (cy_wait_start c + word_of_nat (ready_timeout_ms opts)) pid
                (heartbeat_timeout_ms opts) (cy_wait c) of
        None \<Rightarrow> ([started], Blocked)
      | Some (WaitNormalExit code) \<Rightarrow>
          ([started, persist SupStopping ''CloudOS.exe exited normally before readiness'' pid failures code job], Quit 0)
      | Some WaitTimedOut \<Rightarrow>
          ([started, persist SupDegraded ''readiness deadline exceeded; graceful shutdown requested'' pid failures
             kSupervisorHangExit job], Failed kSupervisorHangExit)
      | Some (WaitFailure code) \<Rightarrow>
          ([started, persist SupDegraded ''CloudOS.exe failed before or after readiness'' pid failures code job], Failed code)
      | Some Ready \<Rightarrow>
          (let healthy = persist (if job then SupHealthy else SupDegraded)
                 (if job then ''readiness and heartbeat healthy; process tree supervised''
                  else ''readiness healthy but Job Object ownership unavailable'') pid failures 0 job
           in if probe_ready_once opts then
             (case probe_ready_heartbeat pid (heartbeat_timeout_ms opts) (cy_probe_initial c) (cy_probe_start c) (cy_probe c) of
                None \<Rightarrow> ([started, healthy], Blocked)
              | Some heartbeat_ok \<Rightarrow>
                  ([started, healthy, persist SupStopping ''ready probe requested graceful shutdown'' pid failures 0 job],
                   Quit (if heartbeat_ok \<and> request_graceful_exit pid (cy_graceful c) then 0 else 44)))
           else
             (case monitor_loop pid (heartbeat_timeout_ms opts) (cy_monitor_start c) (cy_monitor c) of
                None \<Rightarrow> ([started, healthy], Blocked)
              | Some (MonitorNormalExit code) \<Rightarrow>
                  ([started, healthy, persist SupStopping ''CloudOS.exe exited normally'' pid failures code job], Quit 0)
              | Some HeartbeatStale \<Rightarrow>
                  ([started, healthy, persist SupDegraded ''heartbeat became stale; graceful shutdown requested'' pid failures
                     kSupervisorHangExit job], Failed kSupervisorHangExit)
              | Some (MonitorFailure code) \<Rightarrow> ([started, healthy], Failed code))))"

record supervisor =
  failure_count :: nat
  recent_failures :: "u64 list"
  sup_log :: "persisted list"
  sup_sleeps :: "nat list"

definition new_supervisor :: supervisor where
  "new_supervisor = \<lparr>failure_count = 0, recent_failures = [],
     sup_log = [persist SupStarting ''supervisor authority started'' 0 0 0 False], sup_sleeps = []\<rparr>"

definition enter_safe_mode :: "nat \<Rightarrow> u32 \<Rightarrow> string \<Rightarrow> persisted list" where
  "enter_safe_mode failures code reason =
     [persist SupCrashLoop reason 0 failures code False,
      persist SupSafeMode ''restart budget exhausted; Windows Explorer fallback requested'' 0 failures code False]"

text \<open>
  What follows a failed launch or run: count it, record its tick, and give up or wait before the next
  launch. \<open>before\<close> is the record written between the count and the decision.
\<close>

datatype round_result = Exits int | Again | Waiting

definition count_failure ::
  "supervisor_options \<Rightarrow> explorer_env \<Rightarrow> u64 \<Rightarrow> u32 \<Rightarrow> (nat \<Rightarrow> persisted list) \<Rightarrow> string \<Rightarrow> string \<Rightarrow> supervisor \<Rightarrow>
     round_result \<times> supervisor" where
  "count_failure opts env now code before give_up again s =
     (let n = failure_count s + 1;
          (crash_loop, fs) = record_failure now (maximum_failures opts) (recent_failures s);
          s1 = s\<lparr>failure_count := n, recent_failures := fs, sup_log := sup_log s @ before n\<rparr>
      in if crash_loop \<or> maximum_failures opts \<le> n
         then (Exits (fallback_to_explorer env (suppress_explorer opts)),
               s1\<lparr>sup_log := sup_log s1 @ enter_safe_mode n code give_up\<rparr>)
         else (Again,
               s1\<lparr>sup_log := sup_log s1 @ [persist SupRestarting again 0 n code False],
                  sup_sleeps := sup_sleeps s1 @ [restart_backoff n]\<rparr>))"

text \<open>One round of the \<open>for\<close> loop; \<open>Waiting\<close> when the system's answers end inside it.\<close>

definition supervisor_round ::
  "supervisor_options \<Rightarrow> explorer_env \<Rightarrow> cycle \<Rightarrow> supervisor \<Rightarrow> round_result \<times> supervisor" where
  "supervisor_round opts env c s =
     (case cy_launch c of
        LaunchFailed err \<Rightarrow>
          count_failure opts env (cy_record_tick c) err
            (\<lambda>n. [persist SupDegraded ''CloudOS.exe suspended launch/resume failed'' 0 n err False])
            ''repeated CloudOS.exe launch failures'' ''bounded restart after launch failure'' s
      | Launched pid job \<Rightarrow>
          (let (log, ending) = launch_cycle opts (failure_count s) pid job c;
               s1 = s\<lparr>sup_log := sup_log s @ log\<rparr>
           in case ending of
             Blocked \<Rightarrow> (Waiting, s1)
           | Quit code \<Rightarrow> (Exits code, s1)
           | Failed code \<Rightarrow>
               (let s2 = (if kStableRunResetMs \<le> cy_end_tick c - cy_launch_tick c
                          then s1\<lparr>failure_count := 0, recent_failures := []\<rparr> else s1)
                in count_failure opts env (cy_record_tick c) code (\<lambda>n. [])
                     ''restart budget exhausted inside the rolling crash window''
                     ''bounded restart scheduled'' s2)))"

fun supervisor_loop ::
  "supervisor_options \<Rightarrow> explorer_env \<Rightarrow> cycle list \<Rightarrow> supervisor \<Rightarrow> int option \<times> supervisor" where
  "supervisor_loop opts env [] s = (None, s)"
| "supervisor_loop opts env (c # cs) s =
     (case supervisor_round opts env c s of
        (Exits code, s') \<Rightarrow> (Some code, s')
      | (Again, s') \<Rightarrow> supervisor_loop opts env cs s'
      | (Waiting, s') \<Rightarrow> (None, s'))"

datatype mutex_result = MutexUnavailable | MutexExists | MutexOwned

definition run_supervisor ::
  "mutex_result \<Rightarrow> supervisor_options \<Rightarrow> explorer_env \<Rightarrow> cycle list \<Rightarrow> int option" where
  "run_supervisor mutex opts env cycles =
     (case mutex of
        MutexUnavailable \<Rightarrow> Some 20
      | MutexExists \<Rightarrow> Some 0
      | MutexOwned \<Rightarrow> fst (supervisor_loop opts env cycles new_supervisor))"

section \<open>Facts about the loop\<close>

definition supervisor_ok :: "supervisor_options \<Rightarrow> supervisor \<Rightarrow> bool" where
  "supervisor_ok opts s \<longleftrightarrow>
     length (recent_failures s) \<le> failure_count s \<and>
     (failure_count s < maximum_failures opts \<or> maximum_failures opts = 0)"

lemma length_purge: "length (purge_old_failures now fs) \<le> length fs"
  by (simp add: purge_old_failures_def length_dropWhile_le)

text \<open>The window never decides: whenever it is full the plain count has reached the limit too.\<close>

lemma window_implies_count:
  "length (recent_failures s) \<le> failure_count s \<Longrightarrow>
     fst (record_failure now m (recent_failures s)) \<Longrightarrow> m \<le> failure_count s + 1"
  using length_purge [of now "recent_failures s"] by (simp add: record_failure_def Let_def)

lemma count_failure_cases:
  assumes "length (recent_failures s) \<le> failure_count s"
    and "count_failure opts env now code before give_up again s = (r, s')"
  shows "failure_count s' = failure_count s + 1 \<and> length (recent_failures s') \<le> failure_count s' \<and>
    r = (if maximum_failures opts \<le> failure_count s + 1
         then Exits (fallback_to_explorer env (suppress_explorer opts)) else Again)"
proof -
  obtain b fs where r: "record_failure now (maximum_failures opts) (recent_failures s) = (b, fs)" by fastforce
  have fs: "length fs \<le> failure_count s + 1"
    using r length_purge [of now "recent_failures s"] assms(1) by (auto simp: record_failure_def Let_def)
  have "b \<Longrightarrow> maximum_failures opts \<le> failure_count s + 1"
    using window_implies_count [OF assms(1), of now "maximum_failures opts"] r by simp
  then show ?thesis
    using assms(2) fs by (auto simp: count_failure_def r Let_def split: if_splits)
qed

lemma fallback_codes: "fallback_to_explorer env b \<in> {0, 42, 43}"
  by (simp add: fallback_to_explorer_def)

definition round_ok :: "supervisor_options \<Rightarrow> round_result \<times> supervisor \<Rightarrow> bool" where
  "round_ok opts res \<longleftrightarrow> (case res of
       (Exits code, s) \<Rightarrow> code \<in> {0, 42, 43, 44}
     | (_, s) \<Rightarrow> supervisor_ok opts s)"

lemma count_failure_ok:
  assumes "length (recent_failures s) \<le> failure_count s"
  shows "round_ok opts (count_failure opts env now code before give_up again s)"
proof -
  obtain r s' where c: "count_failure opts env now code before give_up again s = (r, s')" by fastforce
  show ?thesis
    using count_failure_cases [OF assms c] fallback_codes [of env "suppress_explorer opts"]
    unfolding c by (auto simp: round_ok_def supervisor_ok_def)
qed

lemma launch_cycle_codes:
  "launch_cycle opts failures pid job c = (log, Quit code) \<Longrightarrow> code \<in> {0, 44}"
  by (auto simp: launch_cycle_def Let_def split: option.splits wait_outcome.splits monitor_outcome.splits if_splits)

lemma round_ok_round:
  assumes ok: "supervisor_ok opts s"
  shows "round_ok opts (supervisor_round opts env c s)"
proof (cases "cy_launch c")
  case (LaunchFailed err)
  then show ?thesis using ok by (simp add: supervisor_round_def count_failure_ok supervisor_ok_def)
next
  case (Launched pid job)
  obtain log e where lc: "launch_cycle opts (failure_count s) pid job c = (log, e)" by fastforce
  show ?thesis
  proof (cases e)
    case (Failed code)
    then show ?thesis using ok Launched lc
      by (auto simp: supervisor_round_def Let_def supervisor_ok_def intro!: count_failure_ok)
  next
    case (Quit code)
    then show ?thesis using launch_cycle_codes lc Launched
      by (fastforce simp: supervisor_round_def round_ok_def)
  next
    case Blocked
    then show ?thesis using Launched lc ok by (simp add: supervisor_round_def round_ok_def supervisor_ok_def)
  qed
qed

lemma supervisor_ok_new: "0 < maximum_failures opts \<Longrightarrow> supervisor_ok opts new_supervisor"
  by (simp add: supervisor_ok_def new_supervisor_def)

lemma supervisor_loop_codes:
  "supervisor_ok opts s \<Longrightarrow> fst (supervisor_loop opts env cs s) = Some code \<Longrightarrow> code \<in> {0, 42, 43, 44}"
proof (induction cs arbitrary: s)
  case (Cons c cs)
  obtain r s' where r: "supervisor_round opts env c s = (r, s')" by fastforce
  have "round_ok opts (r, s')" using round_ok_round [OF Cons.prems(1), of env c] r by simp
  then show ?case using Cons r by (cases r) (auto simp: round_ok_def)
qed simp

lemma count_failure_window:
  "length (recent_failures s) \<le> failure_count s \<Longrightarrow>
     length (recent_failures (snd (count_failure opts env now code before give_up again s))) \<le>
     failure_count (snd (count_failure opts env now code before give_up again s))"
  by (metis count_failure_cases prod.collapse)

lemma round_window:
  assumes "length (recent_failures s) \<le> failure_count s" "supervisor_round opts env c s = (r, s')"
  shows "length (recent_failures s') \<le> failure_count s'"
proof -
  have "s' = snd (supervisor_round opts env c s)" using assms(2) by simp
  then show ?thesis using assms(1)
    by (auto simp: supervisor_round_def Let_def intro!: count_failure_window
        split: launch.split prod.split cycle_end.split)
qed

lemma supervisor_loop_window:
  "length (recent_failures s) \<le> failure_count s \<Longrightarrow>
     length (recent_failures (snd (supervisor_loop opts env cs s))) \<le> failure_count (snd (supervisor_loop opts env cs s))"
proof (induction cs arbitrary: s)
  case (Cons c cs)
  obtain r s' where r: "supervisor_round opts env c s = (r, s')" by fastforce
  have "length (recent_failures s') \<le> failure_count s'"
    using round_window [OF Cons.prems r] .
  then show ?case using Cons.IH [of s'] r by (cases r) simp_all
qed simp

section \<open>A crash loop ends\<close>

text \<open>A launch that fails, or a run that ends in a failure before it counts as stable.\<close>

definition crashes :: "supervisor_options \<Rightarrow> cycle \<Rightarrow> bool" where
  "crashes opts c \<longleftrightarrow>
     (case cy_launch c of
        LaunchFailed err \<Rightarrow> True
      | Launched pid job \<Rightarrow>
          (\<exists>code. snd (launch_cycle opts 0 pid job c) = Failed code) \<and>
          cy_end_tick c - cy_launch_tick c < kStableRunResetMs)"

lemma launch_cycle_end: "snd (launch_cycle opts n pid job c) = snd (launch_cycle opts 0 pid job c)"
  by (simp add: launch_cycle_def Let_def split: option.splits wait_outcome.splits monitor_outcome.splits)

lemma crash_round:
  assumes "crashes opts c" "length (recent_failures s) \<le> failure_count s"
    and "supervisor_round opts env c s = (r, s')"
  shows "failure_count s' = failure_count s + 1 \<and> length (recent_failures s') \<le> failure_count s' \<and>
    r = (if maximum_failures opts \<le> failure_count s + 1
         then Exits (fallback_to_explorer env (suppress_explorer opts)) else Again)"
proof (cases "cy_launch c")
  case (LaunchFailed err)
  then show ?thesis using assms(3) by (intro count_failure_cases [OF assms(2)]) (simp add: supervisor_round_def)
next
  case (Launched pid job)
  obtain log e where lc: "launch_cycle opts (failure_count s) pid job c = (log, e)" by fastforce
  obtain code where e: "e = Failed code" and st: "\<not> kStableRunResetMs \<le> cy_end_tick c - cy_launch_tick c"
    using assms(1) Launched lc launch_cycle_end [of opts "failure_count s" pid job c] by (auto simp: crashes_def not_le)
  have "count_failure opts env (cy_record_tick c) code (\<lambda>n. [])
      ''restart budget exhausted inside the rolling crash window'' ''bounded restart scheduled''
      (s\<lparr>sup_log := sup_log s @ log\<rparr>) = (r, s')"
    using assms(3) Launched lc e st by (simp add: supervisor_round_def Let_def)
  from count_failure_cases [OF _ this] show ?thesis using assms(2) by simp
qed

lemma crash_loop_exit:
  assumes "\<forall>c \<in> set cs. crashes opts c" "length (recent_failures s) \<le> failure_count s"
    and "failure_count s < maximum_failures opts" "maximum_failures opts \<le> failure_count s + length cs"
  shows "fst (supervisor_loop opts env cs s) = Some (fallback_to_explorer env (suppress_explorer opts))"
  using assms
proof (induction cs arbitrary: s)
  case (Cons c cs)
  obtain r s' where r: "supervisor_round opts env c s = (r, s')" by fastforce
  note cr = crash_round [OF _ Cons.prems(2) r]
  show ?case
  proof (cases "maximum_failures opts \<le> failure_count s + 1")
    case True
    then show ?thesis using cr Cons.prems(1) r by simp
  next
    case False
    then have "fst (supervisor_loop opts env cs s') = Some (fallback_to_explorer env (suppress_explorer opts))"
      using cr Cons.prems by (intro Cons.IH) auto
    then show ?thesis using cr Cons.prems(1) r False by simp
  qed
qed simp

section \<open>Detecting a hang\<close>

lemma heartbeat_fresh_bound:
  assumes "heartbeat_fresh now s hb" "s HHeartbeatTick \<le> t" "t < 2 ^ 63" "hb < 2 ^ 32"
  shows "unat now \<le> t + hb"
proof -
  let ?k = "word_of_nat (s HHeartbeatTick) :: u64"
  have k: "unat ?k = s HHeartbeatTick" using assms(2,3) by (simp add: unat_of_nat)
  have h: "unat (word_of_nat hb :: u64) = hb" using assms(4) by (simp add: unat_of_nat)
  consider "now < ?k" | "?k \<le> now" "now - ?k \<le> word_of_nat hb"
    using assms(1) by (auto simp: heartbeat_fresh_def Let_def split: if_splits)
  then show ?thesis
  proof cases
    case 1
    then show ?thesis using k assms(2) by (simp add: word_less_nat_alt)
  next
    case 2
    then have "unat now - s HHeartbeatTick \<le> hb" using k h by (simp add: word_le_nat_alt unat_sub)
    then show ?thesis using assms(2) by linarith
  qed
qed

lemma monitor_stale:
  assumes "\<forall>ob \<in> set obs. mo_wait ob = StillRunning \<and> mo_fresh_now ob = mo_now ob \<and>
      (\<forall>s. mo_snapshot ob = Some s \<longrightarrow> s HHeartbeatTick \<le> t)"
    and "sorted_wrt (\<le>) (last_fresh # map mo_now obs)"
    and "unat last_fresh \<le> t + hb" "t < 2 ^ 63" "hb < 2 ^ 32"
    and "\<exists>ob \<in> set obs. t + 2 * hb < unat (mo_now ob)"
  shows "monitor_loop pid hb last_fresh obs = Some HeartbeatStale"
  using assms
proof (induction obs arbitrary: last_fresh)
  case (Cons ob obs)
  let ?fresh = "case mo_snapshot ob of Some s \<Rightarrow> snapshot_ready pid s \<and> heartbeat_fresh (mo_fresh_now ob) s hb
    | None \<Rightarrow> False"
  have h: "unat (word_of_nat hb :: u64) = hb" using Cons.prems(5) by (simp add: unat_of_nat)
  have le: "last_fresh \<le> mo_now ob" and so: "sorted_wrt (\<le>) (mo_now ob # map mo_now obs)"
    "sorted_wrt (\<le>) (last_fresh # map mo_now obs)" using Cons.prems(2) by auto
  show ?case
  proof (cases ?fresh)
    case True
    then obtain s where s: "mo_snapshot ob = Some s" "heartbeat_fresh (mo_now ob) s hb"
      using Cons.prems(1) by (auto split: option.splits)
    have now: "unat (mo_now ob) \<le> t + hb"
      using heartbeat_fresh_bound [OF s(2), of t] s(1) Cons.prems by simp
    then have "\<exists>ob \<in> set obs. t + 2 * hb < unat (mo_now ob)" using Cons.prems(6) by auto
    then have "monitor_loop pid hb (mo_now ob) obs = Some HeartbeatStale"
      using Cons.prems now so by (intro Cons.IH) auto
    then show ?thesis using True Cons.prems(1) by simp
  next
    case False
    show ?thesis
    proof (cases "word_of_nat hb < mo_now ob - last_fresh")
      case stale: True
      then show ?thesis using False Cons.prems(1) by simp
    next
      case fresh: False
      then have "unat (mo_now ob) - unat last_fresh \<le> hb"
        using le h by (simp add: not_less word_le_nat_alt unat_sub)
      then have "unat (mo_now ob) \<le> t + 2 * hb" using Cons.prems(3) by linarith
      then have "\<exists>ob \<in> set obs. t + 2 * hb < unat (mo_now ob)" using Cons.prems(6) by auto
      then have "monitor_loop pid hb last_fresh obs = Some HeartbeatStale"
        using Cons.prems so by (intro Cons.IH) auto
      then show ?thesis using False fresh Cons.prems(1) by simp
    qed
  qed
qed simp

section \<open>Options\<close>

lemma try_read_bounds: "try_read_unsigned as name lo hi = Some n \<Longrightarrow> lo \<le> n \<and> n \<le> hi"
proof -
  have "try_read_loop name lo hi as = Some n \<Longrightarrow> lo \<le> n \<and> n \<le> hi" for as
    by (induction name lo hi as rule: try_read_loop.induct) (auto split: if_splits option.splits)
  then show "try_read_unsigned as name lo hi = Some n \<Longrightarrow> lo \<le> n \<and> n \<le> hi"
    by (simp add: try_read_unsigned_def)
qed

lemma parse_options_bounds:
  "1000 \<le> ready_timeout_ms (parse_options as)" "ready_timeout_ms (parse_options as) \<le> 300000"
  "1000 \<le> heartbeat_timeout_ms (parse_options as)" "heartbeat_timeout_ms (parse_options as) \<le> 120000"
  "1 \<le> maximum_failures (parse_options as)" "maximum_failures (parse_options as) \<le> 10"
  by (auto simp: parse_options_def default_options_def split: option.split dest!: try_read_bounds)

section \<open>Properties\<close>

text \<open>
  Whatever the command line, the operating system and the shell do, the supervisor ends, if it
  ends, with one of five exit codes: 0, 20 (no mutex), 42 (fallback suppressed), 43 (Explorer could
  not be opened) or 44 (failed probe).
\<close>

theorem supervisor_exit_codes:
  "run_supervisor mutex (parse_options args) env cycles \<in> {None, Some 0, Some 20, Some 42, Some 43, Some 44}"
proof -
  have "supervisor_ok (parse_options args) new_supervisor"
    using parse_options_bounds(5) [of args] by (intro supervisor_ok_new) simp
  then show ?thesis
    using supervisor_loop_codes [of "parse_options args" new_supervisor env cycles]
    by (cases "fst (supervisor_loop (parse_options args) env cycles new_supervisor)")
       (auto simp: run_supervisor_def split: mutex_result.split)
qed

text \<open>
  C38. A crash loop ends: when as many launches as the options allow (at most ten) fail or crash within
  two minutes, the supervisor gives up and asks for the Windows Explorer; it does not restart the
  shell again.
\<close>

theorem crash_loop_ends:
  assumes "\<forall>c \<in> set cycles. crashes (parse_options args) c"
    and "maximum_failures (parse_options args) \<le> length cycles"
  shows "run_supervisor MutexOwned (parse_options args) env cycles =
    Some (fallback_to_explorer env (suppress_explorer (parse_options args)))"
  using crash_loop_exit [OF assms(1), of new_supervisor env] assms(2) parse_options_bounds(5) [of args]
  by (simp add: run_supervisor_def new_supervisor_def)

definition no_graceful :: graceful_env where
  "no_graceful = \<lparr>ge_window_process = None, ge_posted = False, ge_primary_wait = False, ge_polls = [],
     ge_extension_wait = False\<rparr>"

text \<open>A launch at the given tick whose process exits with code 1 after the given time.\<close>

definition crash_after :: "u64 \<Rightarrow> u64 \<Rightarrow> cycle" where
  "crash_after tick duration =
     \<lparr>cy_launch = Launched 4321 True, cy_launch_tick = tick, cy_wait_start = tick,
      cy_wait = [\<lparr>ro_now = tick, ro_exit = Some 1, ro_snapshot = None, ro_fresh_now = tick\<rparr>],
      cy_probe_initial = None, cy_probe_start = 0, cy_probe = [], cy_graceful = no_graceful,
      cy_monitor_start = 0, cy_monitor = [], cy_end_tick = tick + duration, cy_record_tick = tick + duration\<rparr>"

definition no_explorer :: explorer_env where
  "no_explorer = \<lparr>explorer_present = False, explorer_opened = False\<rparr>"

lemma parse_no_options: "parse_options [] = default_options"
  by (simp add: parse_options_def try_read_unsigned_def has_argument_def default_options_def)

lemma crash_after_crashes:
  "tick < tick + 30000 \<Longrightarrow> d < 120000 \<Longrightarrow> crashes default_options (crash_after tick d)"
  by (simp add: crashes_def launch_cycle_def crash_after_def Let_def default_options_def kStableRunResetMs_def)

theorem crash_loop_ends_witness:
  "run_supervisor MutexOwned (parse_options []) no_explorer [crash_after 0 10, crash_after 510 10, crash_after 1520 10] =
     Some 43"
proof -
  have "\<forall>c \<in> set [crash_after 0 10, crash_after 510 10, crash_after 1520 10]. crashes (parse_options []) c"
    by (simp add: parse_no_options crash_after_crashes)
  from crash_loop_ends [OF this, of no_explorer] show ?thesis
    by (simp add: parse_no_options default_options_def fallback_to_explorer_def no_explorer_def)
qed

text \<open>
  The rolling window of failures never decides anything: at every point of every run a full window
  implies that the plain count of failures has reached the limit as well, so the test in
  \<open>RunSupervisorV22\<close> is the count alone.
\<close>

theorem failure_window_redundant:
  "let s = snd (supervisor_loop (parse_options args) env cycles new_supervisor);
       m = maximum_failures (parse_options args)
   in (fst (record_failure now m (recent_failures s)) \<or> m \<le> failure_count s + 1) = (m \<le> failure_count s + 1)"
proof -
  have "length (recent_failures (snd (supervisor_loop (parse_options args) env cycles new_supervisor))) \<le>
      failure_count (snd (supervisor_loop (parse_options args) env cycles new_supervisor))"
    by (rule supervisor_loop_window) (simp add: new_supervisor_def)
  then show ?thesis using window_implies_count by (auto simp: Let_def)
qed

text \<open>
  So the supervisor gives up, and reports a restart budget \<^emph>\<open>exhausted inside the rolling crash
  window\<close>, for failures that lie outside the 60-second window: three runs of 100 seconds each, after
  which the window holds the last failure only.
\<close>

definition slow_crashes :: "cycle list" where
  "slow_crashes = [crash_after 0 100000, crash_after 101000 100000, crash_after 202000 100000]"

theorem slow_crashes_give_up:
  "let (r, s) = supervisor_loop (parse_options []) no_explorer slow_crashes new_supervisor in
     r = Some 43 \<and> recent_failures s = [302000] \<and>
     map ps_reason (drop (length (sup_log s) - 2) (sup_log s)) =
       [''restart budget exhausted inside the rolling crash window'',
        ''restart budget exhausted; Windows Explorer fallback requested'']"
  by (simp add: slow_crashes_def parse_no_options default_options_def crash_after_def supervisor_round_def
      launch_cycle_def count_failure_def record_failure_def purge_old_failures_def new_supervisor_def
      enter_safe_mode_def persist_def fallback_to_explorer_def no_explorer_def
      kStableRunResetMs_def kV22CrashWindowMs_def Let_def)

text \<open>
  A hang is found: when the heartbeat has stopped at tick \<open>t\<close> (no snapshot carries a later one)
  while the process lives on, the monitor reports it as stale by the first poll after two heartbeat
  timeouts, provided the clock does not run backwards.
\<close>

theorem hang_detected:
  assumes "\<forall>ob \<in> set obs. mo_wait ob = StillRunning \<and> mo_fresh_now ob = mo_now ob \<and>
      (\<forall>s. mo_snapshot ob = Some s \<longrightarrow> s HHeartbeatTick \<le> t)"
    and "sorted_wrt (\<le>) (last_fresh # map mo_now obs)" "unat last_fresh \<le> t + hb"
    and "t < 2 ^ 63" "hb < 2 ^ 32" "\<exists>ob \<in> set obs. t + 2 * hb < unat (mo_now ob)"
  shows "monitor_loop pid hb last_fresh obs = Some HeartbeatStale"
  using assms by (rule monitor_stale)

definition hung_obs :: "nat \<Rightarrow> monitor_obs" where
  "hung_obs now = \<lparr>mo_wait = StillRunning,
     mo_snapshot = Some (stable_page sample_ops sample_page 2), mo_fresh_now = word_of_nat now,
     mo_now = word_of_nat now\<rparr>"

theorem hang_detected_witness:
  "monitor_loop 4321 5000 200 (map hung_obs [1200, 2200, 5100, 6100, 10300]) = Some HeartbeatStale"
proof -
  have t: "stable_page sample_ops sample_page 2 HHeartbeatTick = 200"
    by (simp add: stable_page_def sample_ops_def sample_page_def initial_page_def sample_resources_def
        refresh_resources_def op_stores_def)
  show ?thesis
    by (rule hang_detected [where t = 200]) (auto simp: hung_obs_def t)
qed

text \<open>
  The shell is taken for ready only on a snapshot of the launched process itself, in the ready
  state, with a ready tick and a fresh heartbeat, seen before the deadline.
\<close>

theorem ready_only_when_seen:
  assumes "wait_for_ready deadline pid hb obs = Some Ready"
  shows "\<exists>ob s. ob \<in> set obs \<and> before_deadline deadline ob \<and> ro_snapshot ob = Some s \<and> s HProcessId = pid \<and>
    s HState = state_ready \<and> s HReadyTick \<noteq> 0 \<and> heartbeat_fresh (ro_fresh_now ob) s hb"
  using assms
  by (induction deadline pid hb obs rule: wait_for_ready.induct)
     (auto simp: snapshot_ready_def before_deadline_def split: if_splits option.splits)

definition ready_now :: ready_obs where
  "ready_now = \<lparr>ro_now = 150, ro_exit = None, ro_snapshot = Some (stable_page sample_ops sample_page 1),
     ro_fresh_now = 150\<rparr>"

theorem ready_only_when_seen_witness:
  "\<exists>ob s. ob \<in> set [ready_now] \<and> ro_snapshot ob = Some s \<and> s HProcessId = 4321"
proof -
  have "wait_for_ready 30000 4321 5000 [ready_now] = Some Ready"
    by (simp add: ready_now_def snapshot_ready_def heartbeat_fresh_def state_ready_def stable_page_def
        sample_ops_def sample_page_def initial_page_def sample_resources_def refresh_resources_def op_stores_def)
  from ready_only_when_seen [OF this] show ?thesis by blast
qed

text \<open>
  The delay before a restart is half a second, doubled with every failure up to four seconds.
\<close>

theorem restart_backoff_values:
  "restart_backoff n = (if n \<le> 1 then 500 else if n = 2 then 1000 else if n = 3 then 2000 else 4000)"
proof -
  consider "n \<le> 1" | "n = 2" | "n = 3" | "4 \<le> n" by linarith
  then show ?thesis
  proof cases
    case 4
    then have "min (if 0 < n then n - 1 else 0) 3 = 3" by simp
    then show ?thesis using 4 by (simp add: restart_backoff_def)
  qed (auto simp: restart_backoff_def le_Suc_eq)
qed

end
