(* ===== verification/Continuity.thy ===== *)
theory Continuity
  imports Recent_Log
begin

text \<open>
  The session continuity store of the native shell, \<open>NativeSessionContinuityStore\<close> in
  \<open>native_session_continuity_model.cpp\<close>: preferences, window checkpoints per workspace and a journal
  of events, with the operations that add to them and keep them within their limits. The file it is
  kept in is modelled in \<open>Continuity_File\<close>. Wide strings are lists of 16-bit units; the \<open>LONG\<close>s of a
  rectangle are kept as their 32 bits.
\<close>

type_synonym wide_string = "16 word list"

definition kMaximumCheckpoints :: nat where "kMaximumCheckpoints = 128"
definition kMaximumEvents :: nat where "kMaximumEvents = 512"
definition kMaximumWindows :: nat where "kMaximumWindows = 128"
definition kMaximumString :: nat where "kMaximumString = 2048"
definition kMaximumRetention :: u32 where "kMaximumRetention = 32"

datatype event_kind =
    SessionStarted | SessionRecovered | SessionClosedCleanly | WorkspaceChanged | CheckpointCreated
  | CheckpointRestored | CheckpointFailed | TopologyChanged | WindowFocusChanged | ManualSave
  | SettingsChanged | StoreRecoveredFromBackup

record continuity_preferences =
  pf_enabled :: bool
  pf_auto_checkpoint :: bool
  pf_restore_after_unclean :: bool
  pf_restore_last_workspace :: bool
  pf_record_focus_history :: bool
  pf_interval :: u32
  pf_retention :: u32

record window_state =
  ws_process_name :: wide_string
  ws_window_class :: wide_string
  ws_title_hint :: wide_string
  ws_monitor_device :: wide_string
  ws_left :: u32
  ws_top :: u32
  ws_right :: u32
  ws_bottom :: u32
  ws_floating :: bool
  ws_show_command :: u32

record checkpoint =
  ck_id :: u32
  ck_workspace :: int
  ck_created :: u64
  ck_reason :: wide_string
  ck_windows :: "window_state list"

record journal_event =
  je_sequence :: u64
  je_created :: u64
  je_kind :: event_kind
  je_workspace :: int
  je_title :: wide_string
  je_detail :: wide_string

record continuity_store =
  preferences :: continuity_preferences
  checkpoints :: "checkpoint list"
  journal :: "journal_event list"
  last_workspace :: int
  next_checkpoint_id :: u32
  next_event_sequence :: u64
  loaded_from_backup :: bool

definition default_preferences :: continuity_preferences where
  "default_preferences = \<lparr>pf_enabled = True, pf_auto_checkpoint = True, pf_restore_after_unclean = True,
     pf_restore_last_workspace = True, pf_record_focus_history = True, pf_interval = 20, pf_retention = 8\<rparr>"

definition default_store :: continuity_store where
  "default_store = \<lparr>preferences = default_preferences, checkpoints = [], journal = [], last_workspace = 0,
     next_checkpoint_id = 1, next_event_sequence = 1, loaded_from_backup = False\<rparr>"

section \<open>Counters\<close>

text \<open>The value handed out and the counter after it; zero is skipped.\<close>

definition take_id :: "'a::len word \<Rightarrow> 'a word \<times> 'a word" where
  "take_id counter =
     (let value = counter;
          c1 = counter + 1;
          c2 = (if c1 = 0 then 1 else c1)
      in if value = 0 then (c2, c2 + 1) else (value, c2))"

definition next_checkpoint :: "continuity_store \<Rightarrow> u32 \<times> continuity_store" where
  "next_checkpoint s = (let (v, c) = take_id (next_checkpoint_id s) in (v, s\<lparr>next_checkpoint_id := c\<rparr>))"

definition next_event :: "continuity_store \<Rightarrow> u64 \<times> continuity_store" where
  "next_event s = (let (v, c) = take_id (next_event_sequence s) in (v, s\<lparr>next_event_sequence := c\<rparr>))"

definition repair_counter :: "'a::len word list \<Rightarrow> 'a word \<Rightarrow> 'a word" where
  "repair_counter ids counter =
     (let maximum = foldl max 0 ids in
      if counter \<le> maximum then (if maximum + 1 = 0 then 1 else maximum + 1) else counter)"

definition repair_counters :: "continuity_store \<Rightarrow> continuity_store" where
  "repair_counters s = s
     \<lparr>next_checkpoint_id := repair_counter (map ck_id (checkpoints s)) (next_checkpoint_id s),
      next_event_sequence := repair_counter (map je_sequence (journal s)) (next_event_sequence s)\<rparr>"

section \<open>Operations\<close>

definition clamp_preferences :: "continuity_preferences \<Rightarrow> continuity_preferences" where
  "clamp_preferences p = p\<lparr>pf_interval := clamp (pf_interval p) 5 3600,
     pf_retention := clamp (pf_retention p) 1 kMaximumRetention\<rparr>"

text \<open>The loop of \<open>Trim\<close>, from the newest checkpoint to the oldest, with the counts per workspace.\<close>

fun trim_loop :: "nat \<Rightarrow> (int \<Rightarrow> nat) \<Rightarrow> checkpoint list \<Rightarrow> checkpoint list" where
  "trim_loop retention kept [] = []"
| "trim_loop retention kept (c # cs) =
     (let w = clamp (ck_workspace c) 0 3 in
      if retention \<le> kept w then trim_loop retention kept cs
      else c # trim_loop retention (kept(w := kept w + 1)) cs)"

definition trim :: "continuity_store \<Rightarrow> continuity_store" where
  "trim s =
     (let p = clamp_preferences (preferences s);
          kept = rev (trim_loop (unat (pf_retention p)) (\<lambda>_. 0) (rev (checkpoints s)))
      in s\<lparr>preferences := p, checkpoints := keep_last kMaximumCheckpoints kept,
           journal := keep_last kMaximumEvents (journal s)\<rparr>)"

definition set_last_workspace :: "int \<Rightarrow> continuity_store \<Rightarrow> continuity_store" where
  "set_last_workspace w s = s\<lparr>last_workspace := clamp w 0 3\<rparr>"

definition add_checkpoint :: "u64 \<Rightarrow> checkpoint \<Rightarrow> continuity_store \<Rightarrow> continuity_store" where
  "add_checkpoint now c s =
     (let (i, s1) = (if ck_id c = 0 then next_checkpoint s else (ck_id c, s));
          c1 = c\<lparr>ck_id := i,
                 ck_created := (if ck_created c = 0 then now else ck_created c),
                 ck_workspace := clamp (ck_workspace c) 0 3,
                 ck_windows := take kMaximumWindows (ck_windows c)\<rparr>
      in trim (s1\<lparr>checkpoints := checkpoints s1 @ [c1]\<rparr>))"

definition add_event :: "u64 \<Rightarrow> event_kind \<Rightarrow> int \<Rightarrow> wide_string \<Rightarrow> wide_string \<Rightarrow> continuity_store \<Rightarrow> continuity_store" where
  "add_event now kind w title detail s =
     (let (q, s1) = next_event s;
          ev = \<lparr>je_sequence = q, je_created = now, je_kind = kind, je_workspace = clamp w 0 3,
                je_title = title, je_detail = detail\<rparr>
      in s1\<lparr>journal := keep_last kMaximumEvents (journal s1 @ [ev])\<rparr>)"

definition clear_checkpoints :: "continuity_store \<Rightarrow> continuity_store" where
  "clear_checkpoints s = s\<lparr>checkpoints := []\<rparr>"

definition clear_journal :: "continuity_store \<Rightarrow> continuity_store" where
  "clear_journal s = s\<lparr>journal := []\<rparr>"

definition latest_checkpoint :: "int \<Rightarrow> continuity_store \<Rightarrow> checkpoint option" where
  "latest_checkpoint w s = find (\<lambda>c. ck_workspace c = clamp w 0 3) (rev (checkpoints s))"

definition find_checkpoint :: "u32 \<Rightarrow> continuity_store \<Rightarrow> checkpoint option" where
  "find_checkpoint i s = find (\<lambda>c. ck_id c = i) (checkpoints s)"

section \<open>What \<open>Trim\<close> keeps\<close>

definition in_workspace :: "int \<Rightarrow> checkpoint \<Rightarrow> bool" where
  "in_workspace w c \<longleftrightarrow> clamp (ck_workspace c) 0 3 = w"

lemma trim_loop_workspace:
  "filter (in_workspace w) (trim_loop r kept cs) = take (r - kept w) (filter (in_workspace w) cs)"
proof (induction cs arbitrary: kept)
  case (Cons c cs)
  let ?w = "clamp (ck_workspace c) 0 3"
  show ?case
  proof (cases "r \<le> kept ?w")
    case True
    then show ?thesis using Cons.IH [of kept] by (auto simp: in_workspace_def Let_def)
  next
    case False
    have IH: "filter (in_workspace w) (trim_loop r (kept(?w := kept ?w + 1)) cs) =
        take (r - (kept(?w := kept ?w + 1)) w) (filter (in_workspace w) cs)"
      by (rule Cons.IH)
    have loop: "trim_loop r kept (c # cs) = c # trim_loop r (kept(?w := kept ?w + 1)) cs"
      using False by (simp add: Let_def del: fun_upd_apply)
    show ?thesis
    proof (cases "?w = w")
      case eq: True
      obtain d where d: "r - kept w = Suc d" using False eq by (metis Suc_diff_Suc not_le)
      then have "r - Suc (kept w) = d" by simp
      then show ?thesis unfolding loop using IH eq d by (simp add: in_workspace_def [abs_def])
    next
      case neq: False
      then show ?thesis unfolding loop using IH by (simp add: in_workspace_def [abs_def])
    qed
  qed
qed simp

lemma trim_loop_subset: "set (trim_loop r kept cs) \<subseteq> set cs"
  by (induction cs arbitrary: kept) (auto simp: Let_def simp del: fun_upd_apply)

text \<open>Each checkpoint is in exactly one of the four workspaces.\<close>

lemma length_by_workspace:
  "length cs = (\<Sum>w \<leftarrow> [0, 1, 2, 3]. length (filter (in_workspace w) cs))"
proof (induction cs)
  case (Cons c cs)
  have "clamp (ck_workspace c) 0 3 \<in> {0, 1, 2, 3}" using clamp_bounds [of 0 "3 :: int" "ck_workspace c"] by auto
  then show ?case using Cons by (auto simp: in_workspace_def)
qed simp

lemma trim_loop_length: "length (trim_loop r (\<lambda>_. 0) cs) \<le> 4 * r"
proof -
  have "length (filter (in_workspace w) (trim_loop r (\<lambda>_. 0) cs)) \<le> r" for w
    by (simp add: trim_loop_workspace)
  then have "(\<Sum>w \<leftarrow> [0, 1, 2, 3]. length (filter (in_workspace w) (trim_loop r (\<lambda>_. 0) cs))) \<le> (\<Sum>w \<leftarrow> [0, 1, 2, 3 :: int]. r)"
    by (intro sum_list_mono) auto
  then show ?thesis using length_by_workspace [of "trim_loop r (\<lambda>_. 0) cs"] by simp
qed

lemma retention_bounds:
  "1 \<le> unat (pf_retention (clamp_preferences p))" "unat (pf_retention (clamp_preferences p)) \<le> 32"
proof -
  have "1 \<le> pf_retention (clamp_preferences p) \<and> pf_retention (clamp_preferences p) \<le> 32"
    using clamp_bounds [of 1 "32 :: u32" "pf_retention p"] by (simp add: clamp_preferences_def kMaximumRetention_def)
  then show "1 \<le> unat (pf_retention (clamp_preferences p))" "unat (pf_retention (clamp_preferences p)) \<le> 32"
    by (auto simp: word_le_nat_alt)
qed

text \<open>The limit on all checkpoints never bites: four workspaces of at most 32 make 128.\<close>

lemma trim_checkpoints:
  "checkpoints (trim s) =
     rev (trim_loop (unat (pf_retention (clamp_preferences (preferences s)))) (\<lambda>_. 0) (rev (checkpoints s)))"
proof -
  have "length (trim_loop (unat (pf_retention (clamp_preferences (preferences s)))) (\<lambda>_. 0) (rev (checkpoints s))) \<le> 128"
    using trim_loop_length [of "unat (pf_retention (clamp_preferences (preferences s)))" "rev (checkpoints s)"]
      retention_bounds(2) [of "preferences s"] by linarith
  then show ?thesis by (simp add: trim_def Let_def kMaximumCheckpoints_def)
qed

lemma trim_workspace:
  "filter (in_workspace w) (checkpoints (trim s)) =
     keep_last (unat (pf_retention (preferences (trim s)))) (filter (in_workspace w) (checkpoints s))"
proof -
  have p: "preferences (trim s) = clamp_preferences (preferences s)" by (simp add: trim_def Let_def)
  have "rev (filter (in_workspace w) (checkpoints (trim s))) =
      take (unat (pf_retention (clamp_preferences (preferences s)))) (rev (filter (in_workspace w) (checkpoints s)))"
    by (simp add: trim_checkpoints trim_loop_workspace rev_filter)
  then show ?thesis unfolding p by (metis keep_last_rev rev_rev_ident)
qed

section \<open>Invariant\<close>

definition store_ok :: "continuity_store \<Rightarrow> bool" where
  "store_ok s \<longleftrightarrow>
     length (checkpoints s) \<le> kMaximumCheckpoints \<and>
     (\<forall>c \<in> set (checkpoints s). ck_workspace c \<in> {0..3} \<and> length (ck_windows c) \<le> kMaximumWindows) \<and>
     length (journal s) \<le> kMaximumEvents \<and> (\<forall>e \<in> set (journal s). je_workspace e \<in> {0..3}) \<and>
     last_workspace s \<in> {0..3}"

lemma store_ok_default [wf_intros]: "store_ok default_store"
  by (simp add: store_ok_def default_store_def)

lemma clamp_preferences_idem [simp]: "clamp_preferences (clamp_preferences p) = clamp_preferences p"
  by (simp add: clamp_preferences_def kMaximumRetention_def)

lemma clamp_workspace: "clamp w 0 3 \<in> {0..3 :: int}"
  using clamp_bounds [of 0 "3 :: int" w] by simp

text \<open>\<open>Trim\<close> restores the limits on the numbers, whatever they were.\<close>

lemma store_ok_trim:
  assumes "\<forall>c \<in> set (checkpoints s). ck_workspace c \<in> {0..3} \<and> length (ck_windows c) \<le> kMaximumWindows"
    and "\<forall>e \<in> set (journal s). je_workspace e \<in> {0..3}" "last_workspace s \<in> {0..3}"
  shows "store_ok (trim s)"
proof -
  have sub: "set (checkpoints (trim s)) \<subseteq> set (checkpoints s)"
    using trim_loop_subset by (fastforce simp: trim_checkpoints)
  have "length (checkpoints (trim s)) \<le> kMaximumCheckpoints" by (simp add: trim_def Let_def)
  moreover have "set (journal (trim s)) \<subseteq> set (journal s)" "length (journal (trim s)) \<le> kMaximumEvents"
    using set_keep_last by (fastforce simp: trim_def Let_def)+
  moreover have "last_workspace (trim s) = last_workspace s"
    "preferences (trim s) = clamp_preferences (preferences s)" by (simp_all add: trim_def Let_def)
  ultimately show ?thesis
    using assms sub by (auto simp: store_ok_def trim_workspace)
qed

lemma store_ok_add_checkpoint [wf_intros]:
  assumes "store_ok s"
  shows "store_ok (add_checkpoint now c s)"
proof -
  obtain i s1 where i: "(if ck_id c = 0 then next_checkpoint s else (ck_id c, s)) = (i, s1)" by fastforce
  then have "checkpoints s1 = checkpoints s" "journal s1 = journal s" "last_workspace s1 = last_workspace s"
    by (auto simp: next_checkpoint_def split: if_splits prod.splits)
  then have "\<forall>d \<in> set (checkpoints (s1\<lparr>checkpoints := checkpoints s1 @ [c1]\<rparr>)).
      ck_workspace d \<in> {0..3} \<and> length (ck_windows d) \<le> kMaximumWindows"
    "\<forall>e \<in> set (journal (s1\<lparr>checkpoints := checkpoints s1 @ [c1]\<rparr>)). je_workspace e \<in> {0..3}"
    "last_workspace (s1\<lparr>checkpoints := checkpoints s1 @ [c1]\<rparr>) \<in> {0..3}"
    if "ck_workspace c1 \<in> {0..3}" "length (ck_windows c1) \<le> kMaximumWindows" for c1
    using assms that by (auto simp: store_ok_def)
  from store_ok_trim [OF this] show ?thesis
    unfolding add_checkpoint_def i using clamp_workspace [of "ck_workspace c"] by (auto simp: Let_def)
qed

lemma store_ok_add_event [wf_intros]: "store_ok s \<Longrightarrow> store_ok (add_event now kind w title detail s)"
proof -
  assume ok: "store_ok s"
  obtain q s1 where q: "next_event s = (q, s1)" by fastforce
  then have "checkpoints s1 = checkpoints s" "journal s1 = journal s" "last_workspace s1 = last_workspace s"
    by (auto simp: next_event_def split: prod.splits)
  then show ?thesis
    using ok clamp_workspace [of w] set_keep_last [of kMaximumEvents]
    by (fastforce simp: store_ok_def add_event_def q Let_def)
qed

lemma store_ok_other [wf_intros]:
  "store_ok s \<Longrightarrow> store_ok (set_last_workspace w s)" "store_ok s \<Longrightarrow> store_ok (clear_checkpoints s)"
  "store_ok s \<Longrightarrow> store_ok (clear_journal s)" "store_ok s \<Longrightarrow> store_ok (repair_counters s)"
  "store_ok s \<Longrightarrow> store_ok (s\<lparr>preferences := p\<rparr>)" "store_ok s \<Longrightarrow> store_ok (snd (next_checkpoint s))"
  using clamp_workspace [of w]
  by (auto simp: store_ok_def set_last_workspace_def clear_checkpoints_def clear_journal_def repair_counters_def
      next_checkpoint_def split: prod.split)

lemma store_ok_trim_ok [wf_intros]: "store_ok s \<Longrightarrow> store_ok (trim s)"
  by (rule store_ok_trim) (auto simp: store_ok_def)

section \<open>Runs of the store\<close>

text \<open>What the shell does with a loaded store; the preferences are a mutable reference.\<close>

datatype store_op =
    Add_Checkpoint u64 checkpoint
  | Add_Event u64 event_kind int wide_string wide_string
  | Set_Last_Workspace int
  | Set_Preferences continuity_preferences
  | Next_Checkpoint_Id
  | Trim_Store
  | Clear_Checkpoints
  | Clear_Journal

fun store_exec :: "store_op \<Rightarrow> continuity_store \<Rightarrow> continuity_store" where
  "store_exec (Add_Checkpoint now c) s = add_checkpoint now c s"
| "store_exec (Add_Event now kind w title detail) s = add_event now kind w title detail s"
| "store_exec (Set_Last_Workspace w) s = set_last_workspace w s"
| "store_exec (Set_Preferences p) s = s\<lparr>preferences := p\<rparr>"
| "store_exec Next_Checkpoint_Id s = snd (next_checkpoint s)"
| "store_exec Trim_Store s = trim s"
| "store_exec Clear_Checkpoints s = clear_checkpoints s"
| "store_exec Clear_Journal s = clear_journal s"

lemma store_ok_exec: "store_ok s \<Longrightarrow> store_ok (store_exec op s)"
  by (cases op) (auto intro: wf_intros)

lemma store_ok_run: "store_ok s \<Longrightarrow> store_ok (fold store_exec ops s)"
  by (induction ops arbitrary: s) (auto intro: store_ok_exec)

section \<open>The newest checkpoint survives\<close>

lemma retention_pos: "0 < unat (pf_retention (clamp_preferences p))"
  using retention_bounds(1) [of p] by simp

lemma trim_snoc:
  assumes "checkpoints s = cs @ [c]"
  obtains ds where "checkpoints (trim s) = ds @ [c]" "set ds \<subseteq> set cs"
proof -
  let ?r = "unat (pf_retention (clamp_preferences (preferences s)))"
  have "trim_loop ?r (\<lambda>_. 0) (rev (checkpoints s)) =
      c # trim_loop ?r ((\<lambda>_. 0)(clamp (ck_workspace c) 0 3 := 1)) (rev cs)"
    using retention_pos [of "preferences s"] assms by (simp add: Let_def)
  then have "checkpoints (trim s) = rev (trim_loop ?r ((\<lambda>_. 0)(clamp (ck_workspace c) 0 3 := 1)) (rev cs)) @ [c]"
    by (simp add: trim_checkpoints)
  moreover have "set (rev (trim_loop ?r ((\<lambda>_. 0)(clamp (ck_workspace c) 0 3 := 1)) (rev cs))) \<subseteq> set cs"
    using trim_loop_subset by (metis set_rev)
  ultimately show ?thesis by (rule that)
qed

lemma foldl_max_ge: "m \<le> foldl max (m :: 'a::linorder) xs \<and> (\<forall>x \<in> set xs. x \<le> foldl max m xs)"
proof (induction xs arbitrary: m)
  case (Cons x xs)
  show ?case using Cons.IH [of "max m x"] by auto
qed simp

lemma repair_counter_fresh:
  assumes "foldl max 0 ids \<noteq> (- 1 :: 'a::len word)" "i \<in> set ids"
  shows "i < repair_counter ids counter"
proof -
  let ?m = "foldl max 0 ids"
  have "i \<le> ?m" using foldl_max_ge [of 0 ids] assms(2) by blast
  moreover have "?m + 1 \<noteq> 0" using assms(1) by (simp add: add_eq_0_iff2)
  then have "?m < ?m + 1" by (simp add: word_less_nat_alt unatSuc add.commute)
  ultimately show ?thesis using \<open>?m + 1 \<noteq> 0\<close> by (auto simp: repair_counter_def Let_def)
qed

section \<open>Lookups\<close>

lemma find_rev_last: "find P (rev xs) = (if filter P xs = [] then None else Some (last (filter P xs)))"
  by (induction xs rule: rev_induct) auto

lemma last_keep_last: "0 < n \<Longrightarrow> xs \<noteq> [] \<Longrightarrow> last (keep_last n xs) = last xs"
  by (simp add: keep_last_def)

lemma keep_last_Nil: "0 < n \<Longrightarrow> keep_last n xs = [] \<longleftrightarrow> xs = []"
  by (auto simp: keep_last_def)

text \<open>With workspaces in range, as the invariant says, a lookup sees the newest checkpoint.\<close>

lemma latest_checkpoint_last:
  assumes "\<forall>c \<in> set (checkpoints s). ck_workspace c \<in> {0..3}"
  shows "latest_checkpoint w s =
    (let cs = filter (in_workspace (clamp w 0 3)) (checkpoints s) in if cs = [] then None else Some (last cs))"
proof -
  have "filter (\<lambda>c. ck_workspace c = clamp w 0 3) (checkpoints s) = filter (in_workspace (clamp w 0 3)) (checkpoints s)"
    using assms by (intro filter_cong) (auto simp: in_workspace_def)
  then show ?thesis by (simp add: latest_checkpoint_def find_rev_last Let_def)
qed

lemma latest_trim:
  assumes "\<forall>c \<in> set (checkpoints s). ck_workspace c \<in> {0..3}"
  shows "latest_checkpoint w (trim s) = latest_checkpoint w s"
proof -
  have sub: "\<forall>c \<in> set (checkpoints (trim s)). ck_workspace c \<in> {0..3}"
    using assms trim_loop_subset by (fastforce simp: trim_checkpoints)
  have p: "preferences (trim s) = clamp_preferences (preferences s)" by (simp add: trim_def Let_def)
  show ?thesis
    unfolding latest_checkpoint_last [OF assms] latest_checkpoint_last [OF sub] trim_workspace p
    by (simp add: Let_def last_keep_last keep_last_Nil retention_pos)
qed

lemma trim_loop_id:
  "(\<And>w. kept w + length (filter (in_workspace w) cs) \<le> r) \<Longrightarrow> trim_loop r kept cs = cs"
proof (induction cs arbitrary: kept)
  case (Cons c cs)
  let ?w = "clamp (ck_workspace c) 0 3"
  have "kept ?w < r" using Cons.prems [of ?w] by (simp add: in_workspace_def)
  moreover have "trim_loop r (kept(?w := kept ?w + 1)) cs = cs"
  proof (rule Cons.IH)
    show "(kept(?w := kept ?w + 1)) w + length (filter (in_workspace w) cs) \<le> r" for w
      using Cons.prems [of w] by (auto simp: in_workspace_def [abs_def] split: if_splits)
  qed
  ultimately show ?case by (simp add: Let_def del: fun_upd_apply)
qed simp

section \<open>Properties\<close>

text \<open>
  However the shell uses a fresh store - adding checkpoints and events, changing preferences, drawing
  ids, clearing - the store keeps within its limits: at most 128 checkpoints of at most 128 windows, at
  most 512 events, and only workspaces 0 to 3.
\<close>

theorem continuity_invariant: "store_ok (fold store_exec ops default_store)"
  by (intro store_ok_run store_ok_default)

text \<open>
  \<open>Trim\<close> keeps, of each workspace, exactly the newest checkpoints up to the retention, in order;
  the overall limit of 128 never drops another one, and trimming again changes nothing.
\<close>

theorem trim_keeps_newest:
  "filter (in_workspace w) (checkpoints (trim s)) =
     keep_last (unat (pf_retention (preferences (trim s)))) (filter (in_workspace w) (checkpoints s)) \<and>
   trim (trim s) = trim s"
proof (rule conjI)
  show "filter (in_workspace w) (checkpoints (trim s)) =
     keep_last (unat (pf_retention (preferences (trim s)))) (filter (in_workspace w) (checkpoints s))"
    by (rule trim_workspace)
  let ?r = "unat (pf_retention (clamp_preferences (preferences s)))"
  have p: "preferences (trim s) = clamp_preferences (preferences s)" by (simp add: trim_def Let_def)
  have "length (filter (in_workspace w) (rev (checkpoints (trim s)))) \<le> ?r" for w
    by (simp add: trim_workspace p flip: rev_filter)
  then have "checkpoints (trim (trim s)) = checkpoints (trim s)"
    unfolding trim_checkpoints [of "trim s"] p clamp_preferences_idem by (subst trim_loop_id) auto
  moreover have "preferences (trim (trim s)) = preferences (trim s)" "journal (trim (trim s)) = journal (trim s)"
    "continuity_store.more (trim (trim s)) = continuity_store.more (trim s)"
    "last_workspace (trim (trim s)) = last_workspace (trim s)"
    "next_checkpoint_id (trim (trim s)) = next_checkpoint_id (trim s)"
    "next_event_sequence (trim (trim s)) = next_event_sequence (trim s)"
    "loaded_from_backup (trim (trim s)) = loaded_from_backup (trim s)"
    by (simp_all add: trim_def Let_def)
  ultimately show "trim (trim s) = trim s" by (intro continuity_store.equality) simp_all
qed

text \<open>
  A checkpoint that was just added is the one \<open>LatestCheckpoint\<close> finds in its workspace, with its
  window list cut to 128, a fresh nonzero id and a creation time when it had none; the latest checkpoint of
  every other workspace is not affected.
\<close>

theorem added_checkpoint_is_latest:
  assumes "store_ok s"
  shows "(\<exists>i. i \<noteq> 0 \<and> latest_checkpoint (ck_workspace c) (add_checkpoint now c s) =
      Some (c\<lparr>ck_id := i, ck_created := (if ck_created c = 0 then now else ck_created c),
              ck_workspace := clamp (ck_workspace c) 0 3, ck_windows := take 128 (ck_windows c)\<rparr>)) \<and>
    (clamp w 0 3 \<noteq> clamp (ck_workspace c) 0 3 \<longrightarrow>
      latest_checkpoint w (add_checkpoint now c s) = latest_checkpoint w s)"
proof -
  obtain i s1 where i: "(if ck_id c = 0 then next_checkpoint s else (ck_id c, s)) = (i, s1)" by fastforce
  then have s1: "checkpoints s1 = checkpoints s" and "i \<noteq> 0"
    by (auto simp: next_checkpoint_def take_id_def Let_def split: if_splits prod.splits)
  let ?c = "c\<lparr>ck_id := i, ck_created := (if ck_created c = 0 then now else ck_created c),
              ck_workspace := clamp (ck_workspace c) 0 3, ck_windows := take 128 (ck_windows c)\<rparr>"
  let ?s = "s1\<lparr>checkpoints := checkpoints s1 @ [?c]\<rparr>"
  have add: "add_checkpoint now c s = trim ?s"
    by (simp add: add_checkpoint_def i Let_def kMaximumWindows_def)
  have "\<forall>d \<in> set (checkpoints ?s). ck_workspace d \<in> {0..3}"
    using assms clamp_workspace [of "ck_workspace c"] s1 by (auto simp: store_ok_def)
  then have "latest_checkpoint v (add_checkpoint now c s) = latest_checkpoint v ?s" for v
    unfolding add by (rule latest_trim)
  then show ?thesis using \<open>i \<noteq> 0\<close> by (auto simp: latest_checkpoint_def s1)
qed

lemma added_checkpoint_is_latest_witness:
  "let c = \<lparr>ck_id = 0, ck_workspace = 7, ck_created = 5, ck_reason = [77], ck_windows = []\<rparr> in
   (\<exists>i. i \<noteq> 0 \<and> latest_checkpoint 7 (add_checkpoint 9 c default_store) =
      Some \<lparr>ck_id = i, ck_workspace = 3, ck_created = 5, ck_reason = [77], ck_windows = []\<rparr>) \<and>
   latest_checkpoint 0 (add_checkpoint 9 c default_store) = None"
  using added_checkpoint_is_latest [of default_store "\<lparr>ck_id = 0, ck_workspace = 7, ck_created = 5, ck_reason = [77], ck_windows = []\<rparr>" 9 0]
  by (simp add: store_ok_default clamp_def latest_checkpoint_def [of _ default_store] default_store_def [THEN arg_cong, of checkpoints])

end
