(* ===== verification/File_Replace.thy ===== *)
theory File_Replace
  imports Prelude
begin

text \<open>
  How the stores of the shell replace their files: the new content goes to a temporary file, the old file is
  copied to a backup, and a move puts the new one in its place. The theory models the disk, the steps and what
  the system may answer to each; the locale \<open>file_store\<close> is the contract of a store that is kept this way, and
  the stores of \<open>Continuity_File\<close> and \<open>Workspace_Studio\<close> are its instances.
\<close>

section \<open>Replacing the file\<close>

text \<open>
  The three paths of the store with the readable content of each file, when it exists. What the system
  does in one \<open>Save\<close> is chosen by a record: whether the known folder is found, whether the temporary file
  is created, whether its writing and flushing succeed (\<open>None\<close>) or fail with some bytes on disk, how the
  copy to the backup ends, and whether the move and the deletion succeed. \<open>save_trace\<close> lists every state the
  disk goes through, so a crash is any of them: the move replaces the file atomically, as
  \<open>MoveFileExW\<close> does on one volume.
\<close>

record disk =
  main_file :: "string option"
  temp_file :: "string option"
  backup_file :: "string option"

datatype copy_outcome = Copied | Copy_Refused | Copy_Broken nat

record save_io =
  io_directory :: bool
  io_create :: bool
  io_written :: "nat option"
  io_copy :: copy_outcome
  io_moved :: bool
  io_deleted :: bool

definition grow :: "(string \<Rightarrow> disk) \<Rightarrow> string \<Rightarrow> nat \<Rightarrow> disk list" where
  "grow put bytes n = map (\<lambda>k. put (take k bytes)) [0..<Suc (min n (length bytes))]"

definition write_to_path :: "save_io \<Rightarrow> string \<Rightarrow> disk \<Rightarrow> disk list \<times> bool" where
  "write_to_path io img fs =
     (if \<not> io_create io then ([], False)
      else (grow (\<lambda>b. fs\<lparr>temp_file := Some b\<rparr>) img
              (case io_written io of None \<Rightarrow> length img | Some n \<Rightarrow> n), io_written io = None))"

definition copy_backup :: "save_io \<Rightarrow> disk \<Rightarrow> disk list" where
  "copy_backup io fs =
     (case main_file fs of None \<Rightarrow> []
      | Some m \<Rightarrow> (case io_copy io of
            Copied \<Rightarrow> grow (\<lambda>b. fs\<lparr>backup_file := Some b\<rparr>) m (length m)
          | Copy_Refused \<Rightarrow> []
          | Copy_Broken n \<Rightarrow> grow (\<lambda>b. fs\<lparr>backup_file := Some b\<rparr>) m n))"

definition delete_temp :: "save_io \<Rightarrow> disk \<Rightarrow> disk list" where
  "delete_temp io fs = (if io_deleted io then [fs\<lparr>temp_file := None\<rparr>] else [])"

definition save_trace :: "save_io \<Rightarrow> string \<Rightarrow> disk \<Rightarrow> disk list \<times> bool" where
  "save_trace io img fs =
     (if \<not> io_directory io then ([fs], False)
      else let (ws, ok) = write_to_path io img fs; f1 = last (fs # ws) in
        if \<not> ok then ((fs # ws) @ delete_temp io f1, False)
        else let cs = copy_backup io f1; f2 = last (f1 # cs) in
          if \<not> io_moved io then ((fs # ws) @ cs @ delete_temp io f2, False)
          else ((fs # ws) @ cs @ [f2\<lparr>main_file := temp_file f2, temp_file := None\<rparr>], True))"

lemma grow_last: "n = length bytes \<Longrightarrow> last (fs # grow put bytes n) = put bytes"
  by (simp add: grow_def)

lemma grow_states: "f \<in> set (grow put bytes n) \<Longrightarrow> \<exists>k. f = put (take k bytes)"
  by (auto simp: grow_def)

lemma last_grow: "last (fs # grow put bytes n) \<in> set (grow put bytes n)"
  by (simp add: grow_def)

text \<open>Until the move, the main file is what it was.\<close>

lemma write_to_path_states:
  "write_to_path io img fs = (ws, ok) \<Longrightarrow> f \<in> set (fs # ws) \<Longrightarrow> \<exists>t. f = fs\<lparr>temp_file := t\<rparr>"
  by (cases fs) (auto simp: write_to_path_def split: if_splits dest!: grow_states)

lemma write_to_path_done:
  "write_to_path io img fs = (ws, True) \<Longrightarrow> last (fs # ws) = fs\<lparr>temp_file := Some img\<rparr>"
  by (auto simp: write_to_path_def grow_def split: if_splits)

lemma copy_backup_states: "f \<in> set (fs # copy_backup io fs) \<Longrightarrow> \<exists>b. f = fs\<lparr>backup_file := b\<rparr>"
  by (cases fs; cases "io_copy io"; cases "main_file fs") (auto simp: copy_backup_def dest!: grow_states)

lemma last_Cons_in: "last (x # xs) \<in> set (x # xs)"
  by (rule last_in_set) simp

lemma copy_backup_last:
  "main_file (last (fs # copy_backup io fs)) = main_file fs"
  "temp_file (last (fs # copy_backup io fs)) = temp_file fs"
  using copy_backup_states [OF last_Cons_in, of fs io] by auto

lemma write_to_path_last: "write_to_path io img fs = (ws, ok) \<Longrightarrow> main_file (last (fs # ws)) = main_file fs"
  using write_to_path_states [OF _ last_Cons_in] by fastforce

text \<open>The three ways a save ends, with the states of each.\<close>

lemma save_trace_cases:
  assumes "save_trace io img fs = (fss, ok)"
  obtains "\<not> io_directory io" "fss = [fs]" "\<not> ok"
  | ws where "write_to_path io img fs = (ws, False)" "fss = fs # ws @ delete_temp io (last (fs # ws))" "\<not> ok"
  | ws cs f2 where "write_to_path io img fs = (ws, True)" "cs = copy_backup io (last (fs # ws))"
      "f2 = last (last (fs # ws) # cs)" "fss = fs # ws @ cs @ delete_temp io f2" "\<not> ok" "\<not> io_moved io"
  | ws cs f2 where "write_to_path io img fs = (ws, True)" "cs = copy_backup io (last (fs # ws))"
      "f2 = last (last (fs # ws) # cs)"
      "fss = fs # ws @ cs @ [f2\<lparr>main_file := temp_file f2, temp_file := None\<rparr>]" "ok" "io_moved io"
proof -
  obtain ws w where w: "write_to_path io img fs = (ws, w)" by fastforce
  define f1 where "f1 = last (fs # ws)"
  define cs where "cs = copy_backup io f1"
  define f2 where "f2 = last (f1 # cs)"
  have tr: "(fss, ok) =
     (if \<not> io_directory io then ([fs], False)
      else if \<not> w then (fs # ws @ delete_temp io f1, False)
      else if \<not> io_moved io then (fs # ws @ cs @ delete_temp io f2, False)
      else (fs # ws @ cs @ [f2\<lparr>main_file := temp_file f2, temp_file := None\<rparr>], True))"
    unfolding assms [symmetric] by (simp add: save_trace_def w f1_def cs_def f2_def Let_def del: last.simps)
  consider (no) "\<not> io_directory io" | (unwritten) "io_directory io" "\<not> w"
    | (unmoved) "io_directory io" w "\<not> io_moved io" | (moved) "io_directory io" w "io_moved io" by blast
  then show ?thesis
  proof cases
    case no then show ?thesis using tr that(1) by simp
  next
    case unwritten then show ?thesis using tr w that(2) [of ws] by (simp add: f1_def del: last.simps)
  next
    case unmoved
    then show ?thesis using tr w that(3) [OF _ cs_def [unfolded f1_def] f2_def [unfolded f1_def]] by (simp del: last.simps)
  next
    case moved
    then show ?thesis using tr w that(4) [OF _ cs_def [unfolded f1_def] f2_def [unfolded f1_def]] by (simp del: last.simps)
  qed
qed

text \<open>Until the move, the main file is what it was; the move is the last state.\<close>

lemma before_move:
  assumes "write_to_path io img fs = (ws, w)" "f \<in> set (fs # ws) \<or> f \<in> set (copy_backup io (last (fs # ws)))"
  shows "main_file f = main_file fs"
  using assms(2)
proof
  show "f \<in> set (fs # ws) \<Longrightarrow> ?thesis" using write_to_path_states [OF assms(1)] by fastforce
  show "f \<in> set (copy_backup io (last (fs # ws))) \<Longrightarrow> ?thesis"
    using copy_backup_states [of f "last (fs # ws)" io] write_to_path_last [OF assms(1)] by auto
qed

lemma delete_temp_main: "f \<in> set (delete_temp io g) \<Longrightarrow> main_file f = main_file g"
  by (simp add: delete_temp_def split: if_splits)

lemma move_main:
  assumes "write_to_path io img fs = (ws, True)" "f2 = last (last (fs # ws) # copy_backup io (last (fs # ws)))"
  shows "main_file f2 = main_file fs" "temp_file f2 = Some img"
  unfolding assms(2) copy_backup_last write_to_path_done [OF assms(1)] by simp_all

lemma save_trace_main:
  assumes tr: "save_trace io img fs = (fss, ok)" and f: "f \<in> set fss"
  shows "main_file f = main_file fs \<or> main_file f = Some img"
  using tr
proof (cases rule: save_trace_cases)
  case (2 ws)
  from f 2(2) consider "f \<in> set (fs # ws)" | "f \<in> set (delete_temp io (last (fs # ws)))"
    by (auto simp del: last.simps)
  then show ?thesis
  proof cases
    case a: 2
    show ?thesis using delete_temp_main [OF a] write_to_path_last [OF 2(1)] by simp
  qed (use before_move [OF 2(1)] in blast)
next
  case (3 ws cs f2)
  note before = before_move [OF 3(1), of f] and m = move_main [OF 3(1) 3(3) [unfolded 3(2)]]
  from f 3(4) consider "f \<in> set (fs # ws)" | "f \<in> set cs" | "f \<in> set (delete_temp io f2)" by auto
  then show ?thesis using before m delete_temp_main 3(2) by cases auto
next
  case (4 ws cs f2)
  note before = before_move [OF 4(1), of f] and m = move_main [OF 4(1) 4(3) [unfolded 4(2)]]
  from f 4(4) consider "f \<in> set (fs # ws)" | "f \<in> set cs" | "f = f2\<lparr>main_file := temp_file f2, temp_file := None\<rparr>"
    by auto
  then show ?thesis using before m 4(2) by cases auto
qed (use f in simp)

lemma save_trace_saved:
  assumes tr: "save_trace io img fs = (fss, True)"
  shows "main_file (last fss) = Some img"
  using tr
proof (cases rule: save_trace_cases)
  case (4 ws cs f2)
  then show ?thesis using move_main [OF 4(1) 4(3) [unfolded 4(2)]] by simp
qed simp_all

section \<open>A store that is replaced this way\<close>

text \<open>
  \<open>image\<close> is what a store writes, \<open>parse\<close> what a load reads back, \<open>kept\<close> the part of a store that a file keeps and
  \<open>restored\<close> what a load does with a store after reading it. A save touches the main file only in its last step.
\<close>

locale file_store =
  fixes image :: "'s \<Rightarrow> string"
    and parse :: "string \<Rightarrow> 's option"
    and kept :: "'s \<Rightarrow> 's"
    and restored :: "'s \<Rightarrow> 's"
    and load :: "disk \<Rightarrow> bool \<times> 's"
    and save :: "save_io \<Rightarrow> string \<Rightarrow> disk \<Rightarrow> disk list \<times> bool"
    and ok :: "'s \<Rightarrow> bool"
  assumes parse_image: "ok s \<Longrightarrow> parse (image s) = Some (kept s)"
    and load_main: "main_file f = Some m \<Longrightarrow> parse m = Some s \<Longrightarrow> load f = (True, restored s)"
    and save_main: "save io img fs = (fss, b) \<Longrightarrow> f \<in> set fss \<Longrightarrow> main_file f = main_file fs \<or> main_file f = Some img"
    and save_done: "save io img fs = (fss, True) \<Longrightarrow> main_file (last fss) = Some img"
begin

lemma load_saved: "ok s \<Longrightarrow> save io (image s) fs = (fss, True) \<Longrightarrow> load (last fss) = (True, restored (kept s))"
  by (rule load_main [OF save_done parse_image])

lemma crash_safe:
  assumes "ok s" "main_file fs = Some m" "parse m = Some s0" "save io (image s) fs = (fss, b)" "f \<in> set fss"
  shows "load f \<in> {(True, restored s0), (True, restored (kept s))}"
  using save_main [OF assms(4,5)] load_main [OF _ assms(3)] load_main [OF _ parse_image [OF assms(1)]] assms(2) by auto

text \<open>Saves one after the other: each ends in the store of the last one that succeeded.\<close>

fun saves :: "(save_io \<times> 's) list \<Rightarrow> disk \<Rightarrow> disk" where
  "saves [] fs = fs"
| "saves ((io, s) # ops) fs = saves ops (last (fs # fst (save io (image s) fs)))"

lemma main_after_save: "main_file (last (fs # fst (save io (image s) fs))) \<in> {main_file fs, Some (image s)}"
proof -
  obtain fss b where sv: "save io (image s) fs = (fss, b)" by fastforce
  have "last (fs # fss) \<in> set (fs # fss)" by (rule last_in_set) simp
  then show ?thesis using save_main [OF sv] sv by auto
qed

lemma saves_loadable:
  assumes "main_file fs = Some m" "parse m = Some s0" "\<forall>(io, s) \<in> set ops. ok s"
  shows "load (saves ops fs) \<in> insert (True, restored s0) ((\<lambda>(io, s). (True, restored (kept s))) ` set ops)"
  using assms
proof (induction ops arbitrary: fs m s0)
  case Nil
  then show ?case by (simp add: load_main)
next
  case (Cons op ops)
  obtain io s where op: "op = (io, s)" by fastforce
  let ?f = "last (fs # fst (save io (image s) fs))"
  have s: "ok s" using Cons.prems(3) op by auto
  from main_after_save [of fs io s] Cons.prems(1)
  consider "main_file ?f = Some m" | "main_file ?f = Some (image s)" by auto
  then show ?case
  proof cases
    case 1
    then show ?thesis using Cons.IH [of ?f m s0] Cons.prems op by auto
  next
    case 2
    then show ?thesis using Cons.IH [of ?f "image s" "kept s"] parse_image [OF s] Cons.prems(3) op by auto
  qed
qed

end

end
