(* ===== verification/Continuity_File.thy ===== *)
theory Continuity_File
  imports Continuity Codec File_Replace "HOL-Library.Monad_Syntax"
begin

text \<open>
  The file of the continuity store and the way it is replaced: \<open>WriteToPath\<close>, \<open>LoadFromPath\<close>, \<open>Save\<close> and
  \<open>Load\<close> of \<open>native_session_continuity_model.cpp\<close>. The structures go to the file as they lie in memory on a
  64-bit little-endian Windows; the four bytes the compiler leaves between \<open>next_checkpoint_id\<close> and
  \<open>next_event_sequence\<close> of the header are written as they happen to be, the parameter \<open>pad\<close>.
  A file is the string of bytes that can be read from it: a failing \<open>ReadFile\<close> is a shorter string.
\<close>

unbundle bit_operations_syntax

definition kMagic :: u32 where "kMagic = 0x33434F43"
definition kVersion :: u32 where "kVersion = 3"

section \<open>Words and wide strings\<close>

definition word_bytes :: "'a::len word \<Rightarrow> string" where
  "word_bytes w = le_bytes (LENGTH('a) div 8) (unat w)"

definition read_word :: "string \<Rightarrow> ('a::len word \<times> string) option" where
  "read_word s = do { (k, r) \<leftarrow> read_le (LENGTH('a) div 8) s; Some (word_of_nat k, r) }"

text \<open>\<open>ReadString\<close> and \<open>WriteString\<close>: \<open>wchar_t\<close> has 16 bits, and only 2,048 of them are written.\<close>

definition string_length :: "wide_string \<Rightarrow> u32" where
  "string_length v = word_of_nat (min (length v) kMaximumString)"

definition write_string :: "wide_string \<Rightarrow> string" where
  "write_string v = write_many word_bytes (take (unat (string_length v)) v)"

definition read_string :: "u32 \<Rightarrow> string \<Rightarrow> (wide_string \<times> string) option" where
  "read_string len s = (if kMaximumString < unat len then None else read_many read_word (unat len) s)"

section \<open>Flags\<close>

definition encode_flags :: "continuity_preferences \<Rightarrow> u32" where
  "encode_flags p =
     (let f1 = (if pf_enabled p then 0 OR push_bit 0 1 else 0);
          f2 = (if pf_auto_checkpoint p then f1 OR push_bit 1 1 else f1);
          f3 = (if pf_restore_after_unclean p then f2 OR push_bit 2 1 else f2);
          f4 = (if pf_restore_last_workspace p then f3 OR push_bit 3 1 else f3)
      in if pf_record_focus_history p then f4 OR push_bit 4 1 else f4)"

definition decode_preferences :: "u32 \<Rightarrow> u32 \<Rightarrow> u32 \<Rightarrow> continuity_preferences" where
  "decode_preferences flags interval retention =
     \<lparr>pf_enabled = (flags AND push_bit 0 1 \<noteq> 0), pf_auto_checkpoint = (flags AND push_bit 1 1 \<noteq> 0),
      pf_restore_after_unclean = (flags AND push_bit 2 1 \<noteq> 0), pf_restore_last_workspace = (flags AND push_bit 3 1 \<noteq> 0),
      pf_record_focus_history = (flags AND push_bit 4 1 \<noteq> 0),
      pf_interval = clamp interval 5 3600, pf_retention = clamp retention 1 kMaximumRetention\<rparr>"

section \<open>The records of the file\<close>

record file_header =
  fh_magic :: u32
  fh_version :: u32
  fh_flags :: u32
  fh_interval :: u32
  fh_retention :: u32
  fh_last_workspace :: u32
  fh_next_checkpoint :: u32
  fh_next_event :: u64
  fh_checkpoints :: u32
  fh_events :: u32

record checkpoint_disk =
  cd_id :: u32
  cd_workspace :: u32
  cd_created :: u64
  cd_reason :: u32
  cd_windows :: u32

record window_disk =
  wd_process :: u32
  wd_class :: u32
  wd_title :: u32
  wd_monitor :: u32
  wd_left :: u32
  wd_top :: u32
  wd_right :: u32
  wd_bottom :: u32
  wd_floating :: u32
  wd_show :: u32

record event_disk =
  ed_sequence :: u64
  ed_created :: u64
  ed_kind :: u32
  ed_workspace :: u32
  ed_title :: u32
  ed_detail :: u32

definition header_bytes :: "string \<Rightarrow> file_header \<Rightarrow> string" where
  "header_bytes pad h = word_bytes (fh_magic h) @ word_bytes (fh_version h) @ word_bytes (fh_flags h) @
     word_bytes (fh_interval h) @ word_bytes (fh_retention h) @ word_bytes (fh_last_workspace h) @
     word_bytes (fh_next_checkpoint h) @ pad @ word_bytes (fh_next_event h) @
     word_bytes (fh_checkpoints h) @ word_bytes (fh_events h)"

definition read_header :: "string \<Rightarrow> (file_header \<times> string) option" where
  "read_header s = do {
     (magic, s) \<leftarrow> read_word s; (version, s) \<leftarrow> read_word s; (flags, s) \<leftarrow> read_word s;
     (interval, s) \<leftarrow> read_word s; (retention, s) \<leftarrow> read_word s; (last, s) \<leftarrow> read_word s;
     (ncp, s) \<leftarrow> read_word s; (_, s) \<leftarrow> read_bytes 4 s; (nev, s) \<leftarrow> read_word s;
     (cps, s) \<leftarrow> read_word s; (evs, s) \<leftarrow> read_word s;
     Some (\<lparr>fh_magic = magic, fh_version = version, fh_flags = flags, fh_interval = interval,
            fh_retention = retention, fh_last_workspace = last, fh_next_checkpoint = ncp,
            fh_next_event = nev, fh_checkpoints = cps, fh_events = evs\<rparr>, s) }"

definition checkpoint_disk_bytes :: "checkpoint_disk \<Rightarrow> string" where
  "checkpoint_disk_bytes d = word_bytes (cd_id d) @ word_bytes (cd_workspace d) @ word_bytes (cd_created d) @
     word_bytes (cd_reason d) @ word_bytes (cd_windows d)"

definition read_checkpoint_disk :: "string \<Rightarrow> (checkpoint_disk \<times> string) option" where
  "read_checkpoint_disk s = do {
     (i, s) \<leftarrow> read_word s; (w, s) \<leftarrow> read_word s; (t, s) \<leftarrow> read_word s;
     (r, s) \<leftarrow> read_word s; (n, s) \<leftarrow> read_word s;
     Some (\<lparr>cd_id = i, cd_workspace = w, cd_created = t, cd_reason = r, cd_windows = n\<rparr>, s) }"

definition window_disk_bytes :: "window_disk \<Rightarrow> string" where
  "window_disk_bytes d = word_bytes (wd_process d) @ word_bytes (wd_class d) @ word_bytes (wd_title d) @
     word_bytes (wd_monitor d) @ word_bytes (wd_left d) @ word_bytes (wd_top d) @ word_bytes (wd_right d) @
     word_bytes (wd_bottom d) @ word_bytes (wd_floating d) @ word_bytes (wd_show d)"

definition read_window_disk :: "string \<Rightarrow> (window_disk \<times> string) option" where
  "read_window_disk s = do {
     (p, s) \<leftarrow> read_word s; (c, s) \<leftarrow> read_word s; (t, s) \<leftarrow> read_word s; (m, s) \<leftarrow> read_word s;
     (l, s) \<leftarrow> read_word s; (u, s) \<leftarrow> read_word s; (r, s) \<leftarrow> read_word s; (b, s) \<leftarrow> read_word s;
     (f, s) \<leftarrow> read_word s; (w, s) \<leftarrow> read_word s;
     Some (\<lparr>wd_process = p, wd_class = c, wd_title = t, wd_monitor = m, wd_left = l, wd_top = u,
            wd_right = r, wd_bottom = b, wd_floating = f, wd_show = w\<rparr>, s) }"

definition event_disk_bytes :: "event_disk \<Rightarrow> string" where
  "event_disk_bytes d = word_bytes (ed_sequence d) @ word_bytes (ed_created d) @ word_bytes (ed_kind d) @
     word_bytes (ed_workspace d) @ word_bytes (ed_title d) @ word_bytes (ed_detail d)"

definition read_event_disk :: "string \<Rightarrow> (event_disk \<times> string) option" where
  "read_event_disk s = do {
     (q, s) \<leftarrow> read_word s; (t, s) \<leftarrow> read_word s; (k, s) \<leftarrow> read_word s; (w, s) \<leftarrow> read_word s;
     (n, s) \<leftarrow> read_word s; (d, s) \<leftarrow> read_word s;
     Some (\<lparr>ed_sequence = q, ed_created = t, ed_kind = k, ed_workspace = w, ed_title = n, ed_detail = d\<rparr>, s) }"

text \<open>The words of the file are 16, 32 and 64 bits wide.\<close>

lemma read_word_append:
  assumes "LENGTH('a::len) = 8 * (LENGTH('a) div 8)"
  shows "read_word (word_bytes (w :: 'a word) @ r) = Some (w, r)"
proof -
  have "unat w < 2 ^ LENGTH('a)" by (rule unsigned_less)
  also have "\<dots> = 256 ^ (LENGTH('a) div 8)" by (subst assms) (simp add: power_mult)
  finally show ?thesis by (simp add: read_word_def word_bytes_def read_le_append)
qed

interpretation u16_codec: codec word_bytes read_word "\<lambda>w :: 16 word. True"
  by unfold_locales (rule read_word_append, simp)

interpretation u32_codec: codec word_bytes read_word "\<lambda>w :: 32 word. True"
  by unfold_locales (rule read_word_append, simp)

interpretation u64_codec: codec word_bytes read_word "\<lambda>w :: 64 word. True"
  by unfold_locales (rule read_word_append, simp)

lemmas word_reads [codec_simps] = u16_codec.rd_wr [OF TrueI] u32_codec.rd_wr [OF TrueI] u64_codec.rd_wr [OF TrueI]

interpretation header_codec: codec "header_bytes pad" read_header "\<lambda>_. length pad = 4" for pad
  by unfold_locales (simp add: header_bytes_def read_header_def codec_simps)

interpretation checkpoint_disk_codec: codec checkpoint_disk_bytes read_checkpoint_disk "\<lambda>_. True"
  by unfold_locales (simp add: checkpoint_disk_bytes_def read_checkpoint_disk_def codec_simps)

interpretation window_disk_codec: codec window_disk_bytes read_window_disk "\<lambda>_. True"
  by unfold_locales (simp add: window_disk_bytes_def read_window_disk_def codec_simps)

interpretation event_disk_codec: codec event_disk_bytes read_event_disk "\<lambda>_. True"
  by unfold_locales (simp add: event_disk_bytes_def read_event_disk_def codec_simps)

lemma string_length_take: "unat (string_length v) = min (length v) 2048"
  by (simp add: string_length_def kMaximumString_def unat_of_nat)

lemma read_string_append [codec_simps]:
  "read_string (string_length v) (write_string v @ r) = Some (take 2048 v, r)"
proof -
  have "length (take (unat (string_length v)) v) = unat (string_length v)" by (simp add: string_length_take)
  then show ?thesis
    using u16_codec.read_write_many [of "take (unat (string_length v)) v" r]
    by (simp add: read_string_def write_string_def string_length_take kMaximumString_def min_def split: if_splits)
qed

lemma decode_encode: "decode_preferences (encode_flags p) (pf_interval p) (pf_retention p) = clamp_preferences p"
  by (cases p) (auto simp: decode_preferences_def encode_flags_def clamp_preferences_def Let_def)

section \<open>Windows, checkpoints and events\<close>

definition write_window :: "window_state \<Rightarrow> string" where
  "write_window w =
     window_disk_bytes
       \<lparr>wd_process = string_length (ws_process_name w), wd_class = string_length (ws_window_class w),
        wd_title = string_length (ws_title_hint w), wd_monitor = string_length (ws_monitor_device w),
        wd_left = ws_left w, wd_top = ws_top w, wd_right = ws_right w, wd_bottom = ws_bottom w,
        wd_floating = (if ws_floating w then 1 else 0), wd_show = ws_show_command w\<rparr> @
     write_string (ws_process_name w) @ write_string (ws_window_class w) @
     write_string (ws_title_hint w) @ write_string (ws_monitor_device w)"

definition read_window :: "string \<Rightarrow> (window_state \<times> string) option" where
  "read_window s = do {
     (d, s) \<leftarrow> read_window_disk s;
     if unat (wd_process d) \<le> kMaximumString \<and> unat (wd_class d) \<le> kMaximumString \<and>
        unat (wd_title d) \<le> kMaximumString \<and> unat (wd_monitor d) \<le> kMaximumString
     then do {
       (p, s) \<leftarrow> read_string (wd_process d) s;
       (c, s) \<leftarrow> read_string (wd_class d) s;
       (t, s) \<leftarrow> read_string (wd_title d) s;
       (m, s) \<leftarrow> read_string (wd_monitor d) s;
       Some (\<lparr>ws_process_name = p, ws_window_class = c, ws_title_hint = t, ws_monitor_device = m,
              ws_left = wd_left d, ws_top = wd_top d, ws_right = wd_right d, ws_bottom = wd_bottom d,
              ws_floating = (wd_floating d \<noteq> 0), ws_show_command = wd_show d\<rparr>, s) }
     else None }"

definition write_checkpoint :: "checkpoint \<Rightarrow> string" where
  "write_checkpoint c =
     (let n = min (length (ck_windows c)) kMaximumWindows in
      checkpoint_disk_bytes
        \<lparr>cd_id = ck_id c, cd_workspace = word_of_int (clamp (ck_workspace c) 0 3),
         cd_created = ck_created c, cd_reason = string_length (ck_reason c), cd_windows = word_of_nat n\<rparr> @
      write_string (ck_reason c) @ write_many write_window (take n (ck_windows c)))"

definition read_checkpoint :: "string \<Rightarrow> (checkpoint \<times> string) option" where
  "read_checkpoint s = do {
     (d, s) \<leftarrow> read_checkpoint_disk s;
     if unat (cd_reason d) \<le> kMaximumString \<and> unat (cd_windows d) \<le> kMaximumWindows
     then do {
       (reason, s) \<leftarrow> read_string (cd_reason d) s;
       (ws, s) \<leftarrow> read_many read_window (unat (cd_windows d)) s;
       Some (\<lparr>ck_id = cd_id d, ck_workspace = clamp (sint (cd_workspace d)) 0 3, ck_created = cd_created d,
              ck_reason = reason, ck_windows = ws\<rparr>, s) }
     else None }"

definition event_kinds :: "event_kind list" where
  "event_kinds = [SessionStarted, SessionRecovered, SessionClosedCleanly, WorkspaceChanged, CheckpointCreated,
     CheckpointRestored, CheckpointFailed, TopologyChanged, WindowFocusChanged, ManualSave,
     SettingsChanged, StoreRecoveredFromBackup]"

fun event_kind_code :: "event_kind \<Rightarrow> u32" where
  "event_kind_code SessionStarted = 0"
| "event_kind_code SessionRecovered = 1"
| "event_kind_code SessionClosedCleanly = 2"
| "event_kind_code WorkspaceChanged = 3"
| "event_kind_code CheckpointCreated = 4"
| "event_kind_code CheckpointRestored = 5"
| "event_kind_code CheckpointFailed = 6"
| "event_kind_code TopologyChanged = 7"
| "event_kind_code WindowFocusChanged = 8"
| "event_kind_code ManualSave = 9"
| "event_kind_code SettingsChanged = 10"
| "event_kind_code StoreRecoveredFromBackup = 11"

definition write_event :: "journal_event \<Rightarrow> string" where
  "write_event e =
     event_disk_bytes
       \<lparr>ed_sequence = je_sequence e, ed_created = je_created e, ed_kind = event_kind_code (je_kind e),
        ed_workspace = word_of_int (clamp (je_workspace e) 0 3),
        ed_title = string_length (je_title e), ed_detail = string_length (je_detail e)\<rparr> @
     write_string (je_title e) @ write_string (je_detail e)"

definition read_event :: "string \<Rightarrow> (journal_event \<times> string) option" where
  "read_event s = do {
     (d, s) \<leftarrow> read_event_disk s;
     if unat (ed_title d) \<le> kMaximumString \<and> unat (ed_detail d) \<le> kMaximumString \<and>
        ed_kind d \<le> event_kind_code StoreRecoveredFromBackup
     then do {
       (t, s) \<leftarrow> read_string (ed_title d) s;
       (x, s) \<leftarrow> read_string (ed_detail d) s;
       Some (\<lparr>je_sequence = ed_sequence d, je_created = ed_created d, je_kind = event_kinds ! unat (ed_kind d),
              je_workspace = clamp (sint (ed_workspace d)) 0 3, je_title = t, je_detail = x\<rparr>, s) }
     else None }"

section \<open>What a file keeps\<close>

text \<open>Writing cuts what is too long; the rest comes back. An item fits when nothing is cut.\<close>

definition clip_window :: "window_state \<Rightarrow> window_state" where
  "clip_window w = w\<lparr>ws_process_name := take 2048 (ws_process_name w), ws_window_class := take 2048 (ws_window_class w),
     ws_title_hint := take 2048 (ws_title_hint w), ws_monitor_device := take 2048 (ws_monitor_device w)\<rparr>"

definition clip_checkpoint :: "checkpoint \<Rightarrow> checkpoint" where
  "clip_checkpoint c = c\<lparr>ck_workspace := clamp (ck_workspace c) 0 3, ck_reason := take 2048 (ck_reason c),
     ck_windows := map clip_window (take 128 (ck_windows c))\<rparr>"

definition clip_event :: "journal_event \<Rightarrow> journal_event" where
  "clip_event e = e\<lparr>je_workspace := clamp (je_workspace e) 0 3, je_title := take 2048 (je_title e),
     je_detail := take 2048 (je_detail e)\<rparr>"

lemma read_many_map:
  "(\<And>x r. rd (wr x @ r) = Some (f x, r)) \<Longrightarrow> read_many rd (length xs) (write_many wr xs @ r) = Some (map f xs, r)"
  by (induction xs) simp_all

lemma string_length_ok [simp]: "unat (string_length v) \<le> kMaximumString"
  by (simp add: string_length_take kMaximumString_def)

lemma read_write_window: "read_window (write_window w @ r) = Some (clip_window w, r)"
  by (simp add: read_window_def write_window_def clip_window_def codec_simps window_disk_codec.rd_wr)

lemma sint_clamp: "clamp (sint (word_of_int (clamp w 0 3) :: u32)) 0 3 = clamp w 0 3"
proof -
  have "clamp w 0 3 \<in> {0, 1, 2, 3}" using clamp_workspace [of w] by auto
  then show ?thesis by auto
qed

lemma take_min_length: "take (min (length xs) n) xs = take n xs"
  by (simp add: min_def)

lemma read_write_checkpoint: "read_checkpoint (write_checkpoint c @ r) = Some (clip_checkpoint c, r)"
proof -
  let ?ws = "take (min (length (ck_windows c)) kMaximumWindows) (ck_windows c)"
  have n: "unat (word_of_nat (length ?ws) :: u32) = length ?ws" by (simp add: unat_of_nat kMaximumWindows_def)
  have "length ?ws = min (length (ck_windows c)) kMaximumWindows" by simp
  moreover have "read_many read_window (length ?ws) (write_many write_window ?ws @ r) = Some (map clip_window ?ws, r)"
    by (rule read_many_map) (rule read_write_window)
  ultimately show ?thesis
    using n unfolding write_checkpoint_def Let_def read_checkpoint_def
    by (simp add: checkpoint_disk_codec.rd_wr codec_simps clip_checkpoint_def sint_clamp take_min_length kMaximumWindows_def)
qed

lemma event_kinds_code [simp]: "event_kinds ! unat (event_kind_code k) = k" "event_kind_code k \<le> 11"
  by (cases k; simp add: event_kinds_def)+

lemma read_write_event: "read_event (write_event e @ r) = Some (clip_event e, r)"
  by (simp add: read_event_def write_event_def clip_event_def event_disk_codec.rd_wr codec_simps sint_clamp)

section \<open>The store\<close>

text \<open>\<open>WriteToPath\<close> with all its writes done, and \<open>LoadFromPath\<close> on the bytes of a file.\<close>

definition write_store :: "string \<Rightarrow> continuity_store \<Rightarrow> string" where
  "write_store pad s =
     (let n = min (length (checkpoints s)) kMaximumCheckpoints;
          m = min (length (journal s)) kMaximumEvents;
          p = preferences s
      in header_bytes pad
           \<lparr>fh_magic = kMagic, fh_version = kVersion, fh_flags = encode_flags p,
            fh_interval = clamp (pf_interval p) 5 3600,
            fh_retention = clamp (pf_retention p) 1 kMaximumRetention,
            fh_last_workspace = word_of_int (clamp (last_workspace s) 0 3),
            fh_next_checkpoint = next_checkpoint_id s, fh_next_event = next_event_sequence s,
            fh_checkpoints = word_of_nat n, fh_events = word_of_nat m\<rparr> @
         write_many write_checkpoint (take n (checkpoints s)) @
         write_many write_event (take m (journal s)))"

definition read_store :: "string \<Rightarrow> continuity_store option" where
  "read_store s = do {
     (h, s) \<leftarrow> read_header s;
     if fh_magic h = kMagic \<and> fh_version h = kVersion \<and>
        unat (fh_checkpoints h) \<le> kMaximumCheckpoints \<and> unat (fh_events h) \<le> kMaximumEvents
     then do {
       (cs, s) \<leftarrow> read_many read_checkpoint (unat (fh_checkpoints h)) s;
       (es, s) \<leftarrow> read_many read_event (unat (fh_events h)) s;
       Some \<lparr>preferences = decode_preferences (fh_flags h) (fh_interval h) (fh_retention h),
             checkpoints = cs, journal = es, last_workspace = clamp (sint (fh_last_workspace h)) 0 3,
             next_checkpoint_id = max 1 (fh_next_checkpoint h),
             next_event_sequence = max 1 (fh_next_event h), loaded_from_backup = False\<rparr> }
     else None }"

definition clip_store :: "continuity_store \<Rightarrow> continuity_store" where
  "clip_store s = s
     \<lparr>preferences := clamp_preferences (preferences s),
      checkpoints := map clip_checkpoint (take 128 (checkpoints s)),
      journal := map clip_event (take 512 (journal s)),
      last_workspace := clamp (last_workspace s) 0 3,
      next_checkpoint_id := max 1 (next_checkpoint_id s),
      next_event_sequence := max 1 (next_event_sequence s),
      loaded_from_backup := False\<rparr>"

lemma decode_clamped:
  "decode_preferences (encode_flags p) (clamp (pf_interval p) 5 3600) (clamp (pf_retention p) 1 kMaximumRetention) =
     clamp_preferences p"
  using decode_encode [of "clamp_preferences p"]
  by (simp add: clamp_preferences_def encode_flags_def kMaximumRetention_def)

lemma read_write_store: "length pad = 4 \<Longrightarrow> read_store (write_store pad s @ r) = Some (clip_store s)"
proof -
  assume pad: "length pad = 4"
  let ?n = "min (length (checkpoints s)) 128" and ?m = "min (length (journal s)) 512"
  have "read_many read_checkpoint (length (take ?n (checkpoints s))) (write_many write_checkpoint (take ?n (checkpoints s)) @ t) =
      Some (map clip_checkpoint (take ?n (checkpoints s)), t)" for t
    by (rule read_many_map) (rule read_write_checkpoint)
  moreover have "read_many read_event (length (take ?m (journal s))) (write_many write_event (take ?m (journal s)) @ t) =
      Some (map clip_event (take ?m (journal s)), t)" for t
    by (rule read_many_map) (rule read_write_event)
  moreover have "unat (word_of_nat ?n :: u32) = ?n" "unat (word_of_nat ?m :: u32) = ?m"
    by (simp_all add: unat_of_nat)
  ultimately show ?thesis
    by (simp add: write_store_def read_store_def Let_def header_codec.rd_wr pad kMaximumCheckpoints_def
        kMaximumEvents_def decode_clamped sint_clamp take_min_length clip_store_def)
qed

section \<open>Loading and saving\<close>

definition load_store :: "disk \<Rightarrow> bool \<times> continuity_store" where
  "load_store fs =
     (case Option.bind (main_file fs) read_store of
        Some s \<Rightarrow> (True, trim (repair_counters s))
      | None \<Rightarrow> (case Option.bind (backup_file fs) read_store of
            Some s \<Rightarrow> (True, trim (repair_counters (s\<lparr>loaded_from_backup := True\<rparr>)))
          | None \<Rightarrow> (False, default_store)))"

interpretation continuity_file: file_store "write_store pad" read_store clip_store "\<lambda>s. trim (repair_counters s)"
    load_store save_trace "\<lambda>_. length pad = 4" for pad
proof
  fix s assume "length pad = 4"
  then show "read_store (write_store pad s) = Some (clip_store s)" using read_write_store [of pad s "[]"] by simp
next
  fix f :: disk and m s assume "main_file f = Some m" "read_store m = Some s"
  then show "load_store f = (True, trim (repair_counters s))" by (simp add: load_store_def)
qed (rule save_trace_main save_trace_saved; assumption)+

section \<open>Properties\<close>

text \<open>
  A saved store comes back: reading the bytes that \<open>WriteToPath\<close> wrote, whatever the padding bytes of
  the header and whatever follows the last event, gives the store with its strings cut to 2,048 units, its
  lists to 128 checkpoints, 128 windows and 512 events, its preferences and workspaces in range and its
  counters at least one.
\<close>

theorem store_file_roundtrip:
  assumes "length pad = 4"
  shows "read_store (write_store pad s @ r) = Some (clip_store s)"
  using assms by (rule read_write_store)

lemma store_file_roundtrip_witness:
  "length (write_store ''pad!'' default_store) = 48 \<and>
   read_store (write_store ''pad!'' default_store @ ''junk'') = Some default_store"
  using store_file_roundtrip [of "''pad!''" default_store "''junk''"]
  by (simp add: write_store_def header_bytes_def word_bytes_def clip_store_def default_store_def default_preferences_def
      clamp_preferences_def clamp_def kMaximumRetention_def)

text \<open>
  C4. \<open>Save\<close> is crash safe: when the main file holds a readable store, then at every moment of a save -
  whichever call fails, and wherever the machine stops - a load succeeds and gives either the store of the
  old file or the one being saved; once \<open>Save\<close> has returned true it gives the saved one.
\<close>

theorem save_crash_safe:
  assumes "main_file fs = Some m" "read_store m = Some s0" "length pad = 4"
    and "save_trace io (write_store pad s) fs = (fss, ok)"
  shows "(\<forall>f \<in> set fss. load_store f \<in> {(True, trim (repair_counters s0)), (True, trim (repair_counters (clip_store s)))}) \<and>
    (ok \<longrightarrow> load_store (last fss) = (True, trim (repair_counters (clip_store s))))"
  using continuity_file.crash_safe [OF assms(3,1,2,4)] continuity_file.load_saved [OF assms(3), of io s fs fss] assms(4)
  by (cases ok) auto

lemma save_crash_safe_witness:
  "let s = add_event 5 ManualSave 2 [83] [] default_store;
       old = \<lparr>main_file = Some (write_store ''0000'' default_store), temp_file = None, backup_file = None\<rparr>;
       io = \<lparr>io_directory = True, io_create = True, io_written = Some 9, io_copy = Copied, io_moved = True, io_deleted = False\<rparr>
   in \<forall>f \<in> set (fst (save_trace io (write_store ''0000'' s) old)).
        load_store f \<in> {(True, trim (repair_counters default_store)), (True, trim (repair_counters (clip_store s)))}"
proof -
  have d: "clip_store default_store = default_store"
    by (simp add: clip_store_def default_store_def default_preferences_def clamp_preferences_def kMaximumRetention_def)
  have r: "read_store (write_store ''0000'' default_store) = Some default_store"
    using read_write_store [of "''0000''" default_store "[]"] by (simp add: d)
  show ?thesis unfolding Let_def
    by (rule conjunct1 [OF save_crash_safe [OF _ r _ prod.collapse [symmetric]]]) simp_all
qed

text \<open>
  The backup can be lost. When the main file is damaged and the store was loaded from the backup, a
  \<open>Save\<close> that gets as far as the copy first overwrites the good backup with the damaged main file; when the move
  then fails, \<open>Save\<close> reports failure, deletes the file it wrote, and nothing on disk loads any more.
\<close>

theorem save_can_lose_backup:
  assumes "main_file fs = Some m" "read_store m = None" "backup_file fs = Some b" "read_store b = Some s0"
    and "io_directory io" "io_create io" "io_written io = None" "io_copy io = Copied" "\<not> io_moved io"
  shows "fst (load_store fs) \<and> \<not> snd (save_trace io img fs) \<and> \<not> fst (load_store (last (fst (save_trace io img fs))))"
proof -
  let ?f1 = "fs\<lparr>temp_file := Some img\<rparr>" and ?f2 = "fs\<lparr>temp_file := Some img, backup_file := Some m\<rparr>"
  have "\<exists>ws. write_to_path io img fs = (ws, True) \<and> last (fs # ws) = ?f1"
    using assms by (simp add: write_to_path_def grow_def)
  then obtain ws where ws: "write_to_path io img fs = (ws, True)" "last (fs # ws) = ?f1" by blast
  have cs: "last (?f1 # copy_backup io ?f1) = ?f2" using assms by (simp add: copy_backup_def grow_def)
  obtain fss ok where tr: "save_trace io img fs = (fss, ok)" by fastforce
  then have "\<not> ok \<and> last fss \<in> {?f2, ?f2\<lparr>temp_file := None\<rparr>}"
  proof (cases rule: save_trace_cases)
    case 1
    then show ?thesis using assms by simp
  next
    case (3 us ds f2)
    then have "us = ws" "f2 = ?f2" using ws cs by auto
    moreover have "last fss = last (f2 # delete_temp io f2)"
      using 3(2-4) by (simp add: last_append)
    ultimately show ?thesis using 3(5) by (simp add: delete_temp_def)
  qed (use assms ws in auto)
  then show ?thesis using tr assms by (auto simp: load_store_def)
qed

lemma save_can_lose_backup_witness:
  "let good = write_store ''0000'' default_store;
       fs = \<lparr>main_file = Some [], temp_file = None, backup_file = Some good\<rparr>;
       io = \<lparr>io_directory = True, io_create = True, io_written = None, io_copy = Copied, io_moved = False, io_deleted = True\<rparr>
   in fst (load_store fs) \<and> \<not> fst (load_store (last (fst (save_trace io good fs))))"
proof -
  have e: "read_store [] = None" by (simp add: read_store_def read_header_def read_word_def read_le_def read_bytes_def)
  show ?thesis unfolding Let_def
    using save_can_lose_backup [OF _ e _ read_write_store [of "''0000''" default_store "[]", simplified],
        of "\<lparr>main_file = Some [], temp_file = None, backup_file = Some (write_store ''0000'' default_store)\<rparr>"
           "\<lparr>io_directory = True, io_create = True, io_written = None, io_copy = Copied, io_moved = False, io_deleted = True\<rparr>"]
    by simp
qed

end
