(* ===== verification/Geometry.thy ===== *)
theory Geometry
  imports Prelude "HOL-Library.Signed_Division"
begin

text \<open>
  Rectangles and where windows go: the arithmetic of \<open>TileCurrentWorkspace\<close>, \<open>SnapWindow\<close>, \<open>SnapActive\<close> and
  \<open>HandleDisplayTopologyChanged\<close> in \<open>native_window_manager.cpp\<close>, of \<open>ValidRestoreBounds\<close> in
  \<open>native_window_manager_recovery.cpp\<close>, and of \<open>ApplyPreset\<close>, \<open>NormalizeBounds\<close> and \<open>DenormalizeBounds\<close> in
  \<open>native_workspace_automation.cpp\<close>. Coordinates are integers and \<open>/\<close> is the division of C++, which is \<open>div\<close> on the
  sizes and \<open>sdiv\<close> where an operand can be negative; the screen coordinates of Windows have 16 bits, so nothing here
  comes near the range of \<open>LONG\<close>.
\<close>

record rect =
  rc_left :: int
  rc_top :: int
  rc_right :: int
  rc_bottom :: int

definition rect_width :: "rect \<Rightarrow> int" where
  "rect_width r = max 0 (rc_right r - rc_left r)"

definition rect_height :: "rect \<Rightarrow> int" where
  "rect_height r = max 0 (rc_bottom r - rc_top r)"

text \<open>The points of a rectangle, and a rectangle from the four numbers of \<open>SetWindowPos\<close>.\<close>

definition covers :: "rect \<Rightarrow> int \<times> int \<Rightarrow> bool" where
  "covers r p \<longleftrightarrow> rc_left r \<le> fst p \<and> fst p < rc_right r \<and> rc_top r \<le> snd p \<and> snd p < rc_bottom r"

definition box :: "int \<Rightarrow> int \<Rightarrow> int \<Rightarrow> int \<Rightarrow> rect" where
  "box x y w h = \<lparr>rc_left = x, rc_top = y, rc_right = x + w, rc_bottom = y + h\<rparr>"

definition inside :: "rect \<Rightarrow> rect \<Rightarrow> bool" where
  "inside r area \<longleftrightarrow> rc_left area \<le> rc_left r \<and> rc_top area \<le> rc_top r \<and>
     rc_right r \<le> rc_right area \<and> rc_bottom r \<le> rc_bottom area"

lemma covers_inside: "inside r area \<Longrightarrow> covers r p \<Longrightarrow> covers area p"
  by (auto simp: inside_def covers_def)

section \<open>Tiling\<close>

text \<open>The place of window \<open>i\<close> of \<open>n\<close> on a monitor: all of it, halves, or a master and a stack.\<close>

definition tile_target :: "rect \<Rightarrow> nat \<Rightarrow> nat \<Rightarrow> rect" where
  "tile_target area n i =
     (if n = 2 then
        (let half = rect_width area div 2 in
         if i = 0 then area\<lparr>rc_right := rc_left area + half\<rparr> else area\<lparr>rc_left := rc_left area + half\<rparr>)
      else if 3 \<le> n then
        (let master = rect_width area div 2 in
         if i = 0 then area\<lparr>rc_right := rc_left area + master\<rparr>
         else let stack = rect_height area div int (n - 1); top = rc_top area + int (i - 1) * stack in
           area\<lparr>rc_left := rc_left area + master, rc_top := top,
                rc_bottom := (if i = n - 1 then rc_bottom area else top + stack)\<rparr>)
      else area)"

text \<open>The presets of the workspace studio. Their width and height are at least one.\<close>

definition columns_target :: "rect \<Rightarrow> nat \<Rightarrow> nat \<Rightarrow> rect" where
  "columns_target work n i =
     (let column_width = max 1 (rc_right work - rc_left work) div int n;
          left = rc_left work + int i * column_width
      in work\<lparr>rc_left := left, rc_right := (if i + 1 = n then rc_right work else left + column_width)\<rparr>)"

text \<open>
  \<open>ceil(sqrt(count))\<close>: the square root of a double is the nearest one, so below \<open>2 ^ 52\<close> windows the result is the
  least \<open>k\<close> with \<open>n \<le> k * k\<close>.
\<close>

definition ceil_sqrt :: "nat \<Rightarrow> nat" where
  "ceil_sqrt n = hd (filter (\<lambda>k. n \<le> k * k) [0..<Suc n])"

definition grid_columns :: "nat \<Rightarrow> nat" where
  "grid_columns n = (if n \<le> 2 then n else ceil_sqrt n)"

definition grid_rows :: "nat \<Rightarrow> nat" where
  "grid_rows n = (n + grid_columns n - 1) div grid_columns n"

definition grid_target :: "rect \<Rightarrow> nat \<Rightarrow> nat \<Rightarrow> rect" where
  "grid_target work n i =
     (let columns = grid_columns n; rows = grid_rows n;
          cell_width = max 1 (rc_right work - rc_left work) div int (max 1 columns);
          cell_height = max 1 (rc_bottom work - rc_top work) div int (max 1 rows);
          column = i mod columns; row = i div columns;
          left = rc_left work + int column * cell_width; top = rc_top work + int row * cell_height
      in \<lparr>rc_left = left, rc_top = top,
          rc_right = (if column + 1 = columns then rc_right work else left + cell_width),
          rc_bottom = (if row + 1 = rows then rc_bottom work else top + cell_height)\<rparr>)"

definition focus_target :: "rect \<Rightarrow> rect" where
  "focus_target work =
     (let inset_x = max 1 (rc_right work - rc_left work) div 12; inset_y = max 1 (rc_bottom work - rc_top work) div 12
      in \<lparr>rc_left = rc_left work + inset_x, rc_top = rc_top work + inset_y,
          rc_right = rc_right work - inset_x, rc_bottom = rc_bottom work - inset_y\<rparr>)"

section \<open>Snapping\<close>

datatype snap_direction = Snap_Left | Snap_Right | Snap_Up | Snap_Down

definition snap_active_target :: "rect \<Rightarrow> snap_direction \<Rightarrow> rect" where
  "snap_active_target area d =
     (case d of
        Snap_Left \<Rightarrow> area\<lparr>rc_right := rc_left area + rect_width area div 2\<rparr>
      | Snap_Right \<Rightarrow> area\<lparr>rc_left := rc_left area + rect_width area div 2\<rparr>
      | Snap_Up \<Rightarrow> area\<lparr>rc_bottom := rc_top area + rect_height area div 2\<rparr>
      | Snap_Down \<Rightarrow> area\<lparr>rc_top := rc_top area + rect_height area div 2\<rparr>)"

text \<open>\<open>SnapTarget\<close> arrives as a number; what \<open>SnapWindow\<close> does with each.\<close>

datatype snap_action = Snap_Box rect | Snap_Maximize | Snap_Restore | Snap_Refused

definition snap_box :: "rect \<Rightarrow> u32 \<Rightarrow> snap_action" where
  "snap_box area target =
     (let x = rc_left area; y = rc_top area; w = rect_width area; h = rect_height area in
      if target = 1 then Snap_Box (box x y (w div 2) h)
      else if target = 2 then Snap_Box (box (x + w div 2) y (w - w div 2) h)
      else if target = 3 \<or> target = 4 then Snap_Maximize
      else if target = 5 then Snap_Restore
      else if target = 6 then Snap_Box (box x y (w div 2) (h div 2))
      else if target = 7 then Snap_Box (box (x + w div 2) y (w - w div 2) (h div 2))
      else if target = 8 then Snap_Box (box x (y + h div 2) (w div 2) (h - h div 2))
      else if target = 9 then Snap_Box (box (x + w div 2) (y + h div 2) (w - w div 2) (h - h div 2))
      else Snap_Refused)"

section \<open>Keeping a window on the screen\<close>

text \<open>\<open>HandleDisplayTopologyChanged\<close> for one window of size and place \<open>rc\<close>.\<close>

definition fit_to_area :: "rect \<Rightarrow> rect \<Rightarrow> rect" where
  "fit_to_area area rc =
     (let w = min (rect_width rc) (rect_width area); h = min (rect_height rc) (rect_height area);
          x1 = max (rc_left rc) (rc_left area); y1 = max (rc_top rc) (rc_top area);
          x = (if rc_right area < x1 + w then max (rc_left area) (rc_right area - w) else x1);
          y = (if rc_bottom area < y1 + h then max (rc_top area) (rc_bottom area - h) else y1)
      in box x y w h)"

text \<open>
  \<open>ValidRestoreBounds\<close> once the monitor is known. \<open>MulDiv\<close> is the function of Windows, an argument here; a \<open>dpi\<close> of zero
  counts as 96.
\<close>

definition restore_left :: "int \<Rightarrow> rect \<Rightarrow> int \<Rightarrow> int \<Rightarrow> int" where
  "restore_left reach work width x =
     (let x2 = (if rc_right work < x + reach then rc_right work - reach else x);
          x3 = (if x2 + width - reach < rc_left work then rc_left work - width + reach else x2)
      in if width \<le> max 1 (rc_right work - rc_left work) then clamp x3 (rc_left work) (rc_right work - width) else x3)"

definition restore_top :: "int \<Rightarrow> rect \<Rightarrow> int \<Rightarrow> int \<Rightarrow> int" where
  "restore_top reach work height y =
     (let y2 = (if rc_bottom work < y + reach then rc_bottom work - reach else y);
          y3 = (if y2 < rc_top work then rc_top work else y2)
      in if height \<le> max 1 (rc_bottom work - rc_top work) then clamp y3 (rc_top work) (rc_bottom work - height) else y3)"

definition valid_restore_bounds :: "(int \<Rightarrow> int \<Rightarrow> int \<Rightarrow> int) \<Rightarrow> int \<Rightarrow> rect \<Rightarrow> rect \<Rightarrow> rect" where
  "valid_restore_bounds mul_div dpi0 work requested =
     (let dpi = (if dpi0 = 0 then 96 else dpi0);
          minimum_width = max 64 (mul_div 160 dpi 96); minimum_height = max 48 (mul_div 120 dpi 96);
          width = min (max minimum_width (rc_right requested - rc_left requested)) (max 1 (rc_right work - rc_left work));
          height = min (max minimum_height (rc_bottom requested - rc_top requested)) (max 1 (rc_bottom work - rc_top work));
          reachable_x = max 32 (mul_div 96 dpi 96); reachable_y = max 24 (mul_div 40 dpi 96)
      in box (restore_left reachable_x work width (rc_left requested))
           (restore_top reachable_y work height (rc_top requested)) width height)"

section \<open>Relative bounds\<close>

definition kNormalizedScale :: int where "kNormalizedScale = 10000"

definition normalize_bounds :: "rect \<Rightarrow> rect \<Rightarrow> rect" where
  "normalize_bounds bounds work =
     (let width = max 1 (rc_right work - rc_left work); height = max 1 (rc_bottom work - rc_top work);
          limit = (\<lambda>x. clamp x (- kNormalizedScale) (kNormalizedScale * 2))
      in \<lparr>rc_left = limit (((rc_left bounds - rc_left work) * kNormalizedScale) sdiv width),
          rc_top = limit (((rc_top bounds - rc_top work) * kNormalizedScale) sdiv height),
          rc_right = limit (((rc_right bounds - rc_left work) * kNormalizedScale) sdiv width),
          rc_bottom = limit (((rc_bottom bounds - rc_top work) * kNormalizedScale) sdiv height)\<rparr>)"

definition denormalize_bounds :: "rect \<Rightarrow> rect \<Rightarrow> rect" where
  "denormalize_bounds n work =
     (let width = max 1 (rc_right work - rc_left work); height = max 1 (rc_bottom work - rc_top work);
          left = rc_left work + (rc_left n * width) sdiv kNormalizedScale;
          top = rc_top work + (rc_top n * height) sdiv kNormalizedScale;
          right = rc_left work + (rc_right n * width) sdiv kNormalizedScale;
          bottom = rc_top work + (rc_bottom n * height) sdiv kNormalizedScale
      in \<lparr>rc_left = left, rc_top = top,
          rc_right = (if right - left < 160 then left + 160 else right),
          rc_bottom = (if bottom - top < 120 then top + 120 else bottom)\<rparr>)"

section \<open>Strips\<close>

text \<open>
  What the layouts have in common: a range cut into \<open>n\<close> strips of equal size, the last one up to the end. Every point is
  in exactly one strip.
\<close>

definition in_strip :: "int \<Rightarrow> int \<Rightarrow> nat \<Rightarrow> nat \<Rightarrow> int \<Rightarrow> bool" where
  "in_strip lo hi n i y \<longleftrightarrow>
     (let s = (hi - lo) div int n; a = lo + int i * s in a \<le> y \<and> y < (if i + 1 = n then hi else a + s))"

lemma strip_size:
  assumes "lo \<le> hi" "0 < n"
  shows "0 \<le> (hi - lo) div int n" "int n * ((hi - lo) div int n) \<le> hi - lo"
proof -
  show "0 \<le> (hi - lo) div int n" using assms by (simp add: pos_imp_zdiv_nonneg_iff)
  have "0 \<le> (hi - lo) mod int n" using assms by simp
  then show "int n * ((hi - lo) div int n) \<le> hi - lo"
    by (metis le_add_same_cancel1 mult_div_mod_eq)
qed

lemma in_strip_range: "lo \<le> hi \<Longrightarrow> i < n \<Longrightarrow> in_strip lo hi n i y \<Longrightarrow> lo \<le> y \<and> y < hi"
proof -
  assume le: "lo \<le> hi" and i: "i < n" and st: "in_strip lo hi n i y"
  let ?s = "(hi - lo) div int n"
  note sz = strip_size [OF le, of n]
  have "0 \<le> int i * ?s" using sz i by simp
  then have "lo \<le> y" using st unfolding in_strip_def Let_def by linarith
  moreover have "y < hi" if "i + 1 \<noteq> n"
  proof -
    have "int (i + 1) * ?s \<le> int n * ?s" using i sz(1) by (intro mult_right_mono) simp_all
    then have "lo + int i * ?s + ?s \<le> hi" using sz i by (simp add: algebra_simps)
    then show ?thesis using st that by (simp add: in_strip_def Let_def)
  qed
  ultimately show ?thesis using st by (cases "i + 1 = n") (auto simp: in_strip_def Let_def)
qed

lemma in_strip_inj:
  assumes le: "lo \<le> hi" and n: "i < n" "j < n" and st: "in_strip lo hi n i y" "in_strip lo hi n j y"
  shows "i = j"
proof -
  have False if "i < j" "j < n" "in_strip lo hi n i y" "in_strip lo hi n j y" for i j
  proof -
    let ?s = "(hi - lo) div int n"
    have "int (i + 1) * ?s \<le> int j * ?s" using that strip_size(1) [OF le, of n] by (intro mult_right_mono) simp_all
    then show False using that by (simp add: in_strip_def Let_def algebra_simps)
  qed
  with n st show ?thesis by (meson linorder_neqE_nat)
qed

lemma in_strip_ex:
  assumes y: "lo \<le> y" "y < hi" and n: "0 < n"
  shows "\<exists>i < n. in_strip lo hi n i y"
proof (cases "lo + int (n - 1) * ((hi - lo) div int n) \<le> y")
  case True
  with y n show ?thesis by (intro exI [of _ "n - 1"]) (simp add: in_strip_def Let_def)
next
  case False
  let ?s = "(hi - lo) div int n" and ?q = "(y - lo) div ((hi - lo) div int n)"
  have s: "0 < ?s"
    using False y n strip_size(1) [of lo hi n] by (cases "?s = 0") auto
  have q: "0 \<le> ?q" "?q * ?s \<le> y - lo" "y - lo < ?q * ?s + ?s"
  proof -
    show "0 \<le> ?q" using y s by (simp add: pos_imp_zdiv_nonneg_iff)
    have "?q * ?s + (y - lo) mod ?s = y - lo" by (rule div_mult_mod_eq)
    moreover have "0 \<le> (y - lo) mod ?s" "(y - lo) mod ?s < ?s" using s by simp_all
    ultimately show "?q * ?s \<le> y - lo" "y - lo < ?q * ?s + ?s" by linarith+
  qed
  have "?q * ?s < int (n - 1) * ?s" using q(2) False by linarith
  then have "?q < int (n - 1)" using s by (simp add: mult_less_cancel_right)
  then have "nat ?q < n" "nat ?q + 1 < n" using n q(1) by linarith+
  moreover have "in_strip lo hi n (nat ?q) y"
    using q \<open>nat ?q + 1 < n\<close> by (simp add: in_strip_def Let_def)
  ultimately show ?thesis by blast
qed

lemma in_strip_unique: "lo \<le> y \<Longrightarrow> y < hi \<Longrightarrow> 0 < n \<Longrightarrow> \<exists>!i. i < n \<and> in_strip lo hi n i y"
  using in_strip_ex [of lo y hi n] in_strip_inj [of lo hi _ n _ y] by fastforce

section \<open>Layouts leave no gap and no overlap\<close>

lemma rect_size [simp]:
  "rc_left r < rc_right r \<Longrightarrow> rect_width r = rc_right r - rc_left r"
  "rc_top r < rc_bottom r \<Longrightarrow> rect_height r = rc_bottom r - rc_top r"
  by (simp_all add: rect_width_def rect_height_def)

lemma half_strip: "0 \<le> w \<Longrightarrow> 0 \<le> w div (2 :: int) \<and> w div 2 \<le> w"
  by auto

lemma covers_nonempty: "covers area p \<Longrightarrow> rc_left area < rc_right area \<and> rc_top area < rc_bottom area"
  by (auto simp: covers_def)

lemma tile_stack:
  assumes "3 \<le> n" "0 < i" "i < n" "rc_left area < rc_right area" "rc_top area < rc_bottom area"
  shows "covers (tile_target area n i) p \<longleftrightarrow>
    rc_left area + (rc_right area - rc_left area) div 2 \<le> fst p \<and> fst p < rc_right area \<and>
    in_strip (rc_top area) (rc_bottom area) (n - 1) (i - 1) (snd p)"
  using assms by (auto simp: tile_target_def covers_def in_strip_def Let_def)

lemma tile_first:
  assumes "3 \<le> n" "rc_left area < rc_right area"
  shows "covers (tile_target area n 0) p \<longleftrightarrow>
    covers area p \<and> fst p < rc_left area + (rc_right area - rc_left area) div 2"
  using assms half_strip [of "rc_right area - rc_left area"] by (auto simp: tile_target_def covers_def Let_def)

lemma tile_in_area:
  assumes "0 < n" "i < n" "rc_left area < rc_right area" "rc_top area < rc_bottom area" "covers (tile_target area n i) p"
  shows "covers area p"
proof (cases "3 \<le> n")
  case True
  then show ?thesis
    using assms tile_first [OF True, of area p] tile_stack [OF True, of i area p]
      in_strip_range [of "rc_top area" "rc_bottom area" "i - 1" "n - 1" "snd p"]
      half_strip [of "rc_right area - rc_left area"]
    by (cases "i = 0") (auto simp: covers_def)
next
  case False
  then have "n = 1 \<or> n = 2" using assms(1) by linarith
  then show ?thesis
    using assms half_strip [of "rc_right area - rc_left area"]
    by (auto simp: tile_target_def covers_def Let_def split: if_splits)
qed

lemma tile_unique:
  assumes n: "0 < n" and p: "covers area p"
  shows "\<exists>!i. i < n \<and> covers (tile_target area n i) p"
proof -
  note ne = covers_nonempty [OF p]
  consider "n = 1" | "n = 2" | "3 \<le> n" using n by linarith
  then show ?thesis
  proof cases
    case 1
    then show ?thesis using p by (simp add: tile_target_def)
  next
    case 2
    then have "covers (tile_target area n i) p \<longleftrightarrow>
        (i = 0 \<longleftrightarrow> fst p < rc_left area + (rc_right area - rc_left area) div 2)" for i
      using p ne half_strip [of "rc_right area - rc_left area"] by (auto simp: tile_target_def covers_def Let_def)
    moreover have "i < n \<longleftrightarrow> i = 0 \<or> i = 1" for i using 2 by auto
    ultimately show ?thesis by (metis zero_neq_one)
  next
    case 3
    let ?left = "fst p < rc_left area + (rc_right area - rc_left area) div 2"
    have stack: "\<exists>!j. j < n - 1 \<and> in_strip (rc_top area) (rc_bottom area) (n - 1) j (snd p)"
      using p 3 by (intro in_strip_unique) (auto simp: covers_def)
    show ?thesis
    proof (cases ?left)
      case True
      then have "covers (tile_target area n i) p \<longleftrightarrow> i = 0" if "i < n" for i
        using that p ne 3 tile_first [OF 3, of area p] tile_stack [OF 3, of i area p] by (cases "i = 0") auto
      then show ?thesis using n by blast
    next
      case False
      have tile: "covers (tile_target area n i) p \<longleftrightarrow>
          0 < i \<and> in_strip (rc_top area) (rc_bottom area) (n - 1) (i - 1) (snd p)" if "i < n" for i
        using that p ne 3 False tile_first [OF 3, of area p] tile_stack [OF 3, of i area p]
        by (cases "i = 0") (auto simp: covers_def)
      from stack obtain j where j: "j < n - 1" "in_strip (rc_top area) (rc_bottom area) (n - 1) j (snd p)"
        and u: "\<And>k. k < n - 1 \<Longrightarrow> in_strip (rc_top area) (rc_bottom area) (n - 1) k (snd p) \<Longrightarrow> k = j" by blast
      show ?thesis
      proof (rule ex1I [of _ "Suc j"])
        show "Suc j < n \<and> covers (tile_target area n (Suc j)) p" using j tile [of "Suc j"] by simp
        fix i assume i: "i < n \<and> covers (tile_target area n i) p"
        then have "0 < i" "i - 1 = j" using tile [of i] u [of "i - 1"] by auto
        then show "i = Suc j" by simp
      qed
    qed
  qed
qed

lemma columns_strip:
  assumes "rc_left work < rc_right work"
  shows "covers (columns_target work n i) p \<longleftrightarrow>
    in_strip (rc_left work) (rc_right work) n i (fst p) \<and> rc_top work \<le> snd p \<and> snd p < rc_bottom work"
  using assms by (auto simp: columns_target_def covers_def in_strip_def Let_def)

lemma columns_unique: "0 < n \<Longrightarrow> covers work p \<Longrightarrow> \<exists>!i. i < n \<and> covers (columns_target work n i) p"
proof -
  assume n: "0 < n" and p: "covers work p"
  from p have "rc_top work \<le> snd p" "snd p < rc_bottom work" "rc_left work \<le> fst p" "fst p < rc_right work"
    by (simp_all add: covers_def)
  then show ?thesis
    using in_strip_unique [of "rc_left work" "fst p" "rc_right work" n] covers_nonempty [OF p] n by (simp add: columns_strip)
qed

lemma ceil_sqrt_bound: "n \<le> ceil_sqrt n * ceil_sqrt n"
proof -
  let ?ks = "filter (\<lambda>k. n \<le> k * k) [0..<Suc n]"
  have "n \<in> set ?ks" by (cases n) auto
  then have "?ks \<noteq> []" by (metis list.distinct(1) list.set_cases)
  then have "hd ?ks \<in> set ?ks" by (rule hd_in_set)
  then show ?thesis unfolding ceil_sqrt_def set_filter by blast
qed

lemma grid_columns_pos: "0 < n \<Longrightarrow> 0 < grid_columns n"
  using ceil_sqrt_bound [of n] by (cases "ceil_sqrt n = 0") (auto simp: grid_columns_def)

lemma grid_rows_bounds:
  assumes "0 < n"
  shows "0 < grid_rows n" "n \<le> grid_rows n * grid_columns n" "grid_rows n * grid_columns n < n + grid_columns n"
proof -
  let ?c = "grid_columns n"
  have c: "0 < ?c" using assms by (rule grid_columns_pos)
  have eq: "grid_rows n * ?c + (n + ?c - 1) mod ?c = n + ?c - 1" unfolding grid_rows_def by (rule div_mult_mod_eq)
  have "(n + ?c - 1) mod ?c < ?c" using c by simp
  with eq c assms show "n \<le> grid_rows n * ?c" "grid_rows n * ?c < n + ?c" by linarith+
  with assms show "0 < grid_rows n" by (cases "grid_rows n") simp_all
qed

lemma grid_strips:
  assumes "rc_left work < rc_right work" "rc_top work < rc_bottom work" "0 < n"
  shows "covers (grid_target work n i) p \<longleftrightarrow>
    in_strip (rc_left work) (rc_right work) (grid_columns n) (i mod grid_columns n) (fst p) \<and>
    in_strip (rc_top work) (rc_bottom work) (grid_rows n) (i div grid_columns n) (snd p)"
  using assms grid_columns_pos [of n] grid_rows_bounds(1) [of n]
  by (auto simp: grid_target_def covers_def in_strip_def Let_def max_def)

lemma grid_cell:
  assumes n: "0 < n" and p: "covers work p"
  shows "\<exists>!i. i < grid_rows n * grid_columns n \<and> covers (grid_target work n i) p"
proof -
  let ?c = "grid_columns n" and ?r = "grid_rows n"
  have c: "0 < ?c" "0 < ?r" using n grid_columns_pos grid_rows_bounds(1) by blast+
  note strips = grid_strips [OF _ _ n, of work _ p] and ne = covers_nonempty [OF p]
  have "\<exists>!j. j < ?c \<and> in_strip (rc_left work) (rc_right work) ?c j (fst p)"
    using p c by (intro in_strip_unique) (auto simp: covers_def)
  then obtain j where j: "j < ?c" "in_strip (rc_left work) (rc_right work) ?c j (fst p)"
    and uj: "\<And>k. k < ?c \<Longrightarrow> in_strip (rc_left work) (rc_right work) ?c k (fst p) \<Longrightarrow> k = j" by blast
  have "\<exists>!k. k < ?r \<and> in_strip (rc_top work) (rc_bottom work) ?r k (snd p)"
    using p c by (intro in_strip_unique) (auto simp: covers_def)
  then obtain k where k: "k < ?r" "in_strip (rc_top work) (rc_bottom work) ?r k (snd p)"
    and uk: "\<And>l. l < ?r \<Longrightarrow> in_strip (rc_top work) (rc_bottom work) ?r l (snd p) \<Longrightarrow> l = k" by blast
  show ?thesis
  proof (rule ex1I [of _ "k * ?c + j"])
    have "k * ?c + j < k * ?c + ?c" using j by simp
    also have "\<dots> \<le> ?r * ?c" using k mult_le_mono1 [of "Suc k" ?r ?c] by simp
    finally show "k * ?c + j < ?r * ?c \<and> covers (grid_target work n (k * ?c + j)) p"
      using strips ne j k c by simp
    fix i assume i: "i < ?r * ?c \<and> covers (grid_target work n i) p"
    then have "i mod ?c = j" "i div ?c = k"
      using strips ne c uj uk by (auto simp: less_mult_imp_div_less)
    then show "i = k * ?c + j" by (metis div_mult_mod_eq)
  qed
qed

section \<open>Snapping and fitting\<close>

lemma snap_boxes:
  "snap_box area 1 = Snap_Box (box (rc_left area) (rc_top area) (rect_width area div 2) (rect_height area))"
  "snap_box area 2 = Snap_Box (box (rc_left area + rect_width area div 2) (rc_top area)
     (rect_width area - rect_width area div 2) (rect_height area))"
  "snap_box area 6 = Snap_Box (box (rc_left area) (rc_top area) (rect_width area div 2) (rect_height area div 2))"
  "snap_box area 7 = Snap_Box (box (rc_left area + rect_width area div 2) (rc_top area)
     (rect_width area - rect_width area div 2) (rect_height area div 2))"
  "snap_box area 8 = Snap_Box (box (rc_left area) (rc_top area + rect_height area div 2)
     (rect_width area div 2) (rect_height area - rect_height area div 2))"
  "snap_box area 9 = Snap_Box (box (rc_left area + rect_width area div 2) (rc_top area + rect_height area div 2)
     (rect_width area - rect_width area div 2) (rect_height area - rect_height area div 2))"
  by (simp_all add: snap_box_def Let_def)

definition snaps_over :: "rect \<Rightarrow> int \<times> int \<Rightarrow> u32 \<Rightarrow> bool" where
  "snaps_over area p t = (case snap_box area t of Snap_Box r \<Rightarrow> covers r p | _ \<Rightarrow> False)"

lemma snaps_over_simps:
  assumes "covers area p"
  shows "snaps_over area p 1 \<longleftrightarrow> fst p < rc_left area + rect_width area div 2"
    "snaps_over area p 2 \<longleftrightarrow> \<not> fst p < rc_left area + rect_width area div 2"
    "snaps_over area p 6 \<longleftrightarrow> fst p < rc_left area + rect_width area div 2 \<and> snd p < rc_top area + rect_height area div 2"
    "snaps_over area p 7 \<longleftrightarrow> \<not> fst p < rc_left area + rect_width area div 2 \<and> snd p < rc_top area + rect_height area div 2"
    "snaps_over area p 8 \<longleftrightarrow> fst p < rc_left area + rect_width area div 2 \<and> \<not> snd p < rc_top area + rect_height area div 2"
    "snaps_over area p 9 \<longleftrightarrow> \<not> fst p < rc_left area + rect_width area div 2 \<and> \<not> snd p < rc_top area + rect_height area div 2"
  using assms covers_nonempty [OF assms] half_strip [of "rc_right area - rc_left area"] half_strip [of "rc_bottom area - rc_top area"]
  by (auto simp: snaps_over_def snap_boxes covers_def box_def)

lemma fit_inside:
  "rc_left area \<le> rc_right area \<Longrightarrow> rc_top area \<le> rc_bottom area \<Longrightarrow> inside (fit_to_area area rc) area"
  by (auto simp: fit_to_area_def inside_def box_def rect_width_def rect_height_def Let_def)

lemma fit_same:
  "inside rc area \<Longrightarrow> rc_left rc \<le> rc_right rc \<Longrightarrow> rc_top rc \<le> rc_bottom rc \<Longrightarrow> fit_to_area area rc = rc"
  by (auto simp: fit_to_area_def inside_def box_def rect_width_def rect_height_def Let_def intro!: rect.equality)

section \<open>Restored bounds\<close>

lemma restore_left_range:
  "rc_left work < rc_right work \<Longrightarrow> width \<le> rc_right work - rc_left work \<Longrightarrow>
     rc_left work \<le> restore_left reach work width x \<and> restore_left reach work width x + width \<le> rc_right work"
  by (simp add: restore_left_def Let_def clamp_def)

lemma restore_top_range:
  "rc_top work < rc_bottom work \<Longrightarrow> height \<le> rc_bottom work - rc_top work \<Longrightarrow>
     rc_top work \<le> restore_top reach work height y \<and> restore_top reach work height y + height \<le> rc_bottom work"
  by (simp add: restore_top_def Let_def clamp_def)

lemma restore_inside:
  assumes "rc_left work < rc_right work" "rc_top work < rc_bottom work"
  shows "inside (valid_restore_bounds mul_div dpi work requested) work"
  using assms restore_left_range [OF assms(1)] restore_top_range [OF assms(2)]
  by (simp add: valid_restore_bounds_def Let_def inside_def box_def)

text \<open>With the whole window clamped into the work area at the end, the adjustments before the clamp do not matter.\<close>

lemma restore_left_clamp:
  "rc_left work < rc_right work \<Longrightarrow> width \<le> rc_right work - rc_left work \<Longrightarrow> reach \<le> width \<Longrightarrow>
     restore_left reach work width x = clamp x (rc_left work) (rc_right work - width)"
  by (simp add: restore_left_def Let_def clamp_def)

lemma restore_top_clamp:
  "rc_top work < rc_bottom work \<Longrightarrow> height \<le> rc_bottom work - rc_top work \<Longrightarrow> reach \<le> height \<Longrightarrow>
     restore_top reach work height y = clamp y (rc_top work) (rc_bottom work - height)"
  by (simp add: restore_top_def Let_def clamp_def)

section \<open>Relative bounds there and back\<close>

lemma sdiv_nonneg: "0 \<le> a \<Longrightarrow> 0 < b \<Longrightarrow> a sdiv b = (a :: int) div b"
  by (simp add: signed_divide_int_def sgn_if)

lemma sdiv_neg: "(- a) sdiv b = - (a sdiv (b :: int))"
  by (simp add: signed_divide_int_def)

lemma scale_error_pos:
  fixes d w s :: int
  assumes "0 \<le> d" "0 < w" "0 < s"
  shows "(((d * s) div w) * w) div s \<le> d" "d - (((d * s) div w) * w) div s \<le> w div s + 1"
proof -
  let ?n = "(d * s) div w" let ?r = "(?n * w) div s"
  have n: "?n * w \<le> d * s" "d * s < ?n * w + w"
    using div_mult_mod_eq [of "d * s" w] pos_mod_bound [of w "d * s"] pos_mod_sign [of w "d * s"] assms by linarith+
  have r: "?r * s \<le> ?n * w" "?n * w < ?r * s + s"
    using div_mult_mod_eq [of "?n * w" s] pos_mod_bound [of s "?n * w"] pos_mod_sign [of s "?n * w"] assms by linarith+
  from n r have "?r * s \<le> d * s" by linarith
  then show "?r \<le> d" using assms by simp
  from n r have "d * s < ?r * s + s + w" by linarith
  then have "(d - ?r - 1) * s < w" by (simp add: algebra_simps)
  then have "(d - ?r - 1) * s div s \<le> w div s" using assms by (intro zdiv_mono1) simp_all
  then have "d - ?r - 1 \<le> w div s" using assms by simp
  then show "d - ?r \<le> w div s + 1" by simp
qed

lemma scale_error:
  fixes d w s :: int
  assumes "0 < w" "0 < s"
  shows "\<bar>(((d * s) sdiv w) * w) sdiv s - d\<bar> \<le> w div s + 1"
proof (cases "0 \<le> d")
  case True
  with scale_error_pos [OF True assms] assms show ?thesis
    by (simp add: sdiv_nonneg pos_imp_zdiv_nonneg_iff)
next
  case False
  then have d: "0 \<le> - d" by simp
  have "(((d * s) sdiv w) * w) sdiv s = - ((((- d * s) sdiv w) * w) sdiv s)"
    using sdiv_neg [of "- d * s" w] sdiv_neg [of "((- d * s) sdiv w) * w" s] by simp
  also have "\<dots> = - ((((- d * s) div w) * w) div s)"
    using d assms mult_nonneg_nonneg [of "- d" s]
    by (simp only: sdiv_nonneg pos_imp_zdiv_nonneg_iff mult_nonneg_nonneg order.strict_implies_order)
  finally show ?thesis using scale_error_pos [OF d assms] by linarith
qed

section \<open>Properties\<close>

text \<open>
  Tiling covers a monitor exactly once: for any number of windows, every point of the work area is in the rectangle
  of exactly one of them, and no rectangle reaches outside the work area.
\<close>

theorem tiles_cover_once:
  assumes "0 < n" "rc_left area < rc_right area" "rc_top area < rc_bottom area"
  shows "(covers area p \<longrightarrow> (\<exists>!i. i < n \<and> covers (tile_target area n i) p)) \<and>
    (\<forall>i < n. covers (tile_target area n i) p \<longrightarrow> covers area p)"
  using tile_unique [OF assms(1), of area p] tile_in_area [OF assms(1) _ assms(2,3), of _ p] by blast

lemma tiles_cover_once_witness:
  "\<exists>!i. i < 3 \<and> covers (tile_target (box 0 0 1920 1040) 3 i) (1200, 600)"
  using tiles_cover_once [of 3 "box 0 0 1920 1040" "(1200, 600)"] by (simp add: box_def covers_def)

text \<open>
  The column and grid presets never overlap. The columns cover the work area exactly once. Every point of the work
  area is in exactly one cell of the grid, and the cells without a window are fewer than the columns: only the last
  row has gaps.
\<close>

theorem presets_cover_once:
  assumes "0 < n" "covers work p"
  shows "(\<exists>!i. i < n \<and> covers (columns_target work n i) p) \<and>
    (\<exists>!i. i < grid_rows n * grid_columns n \<and> covers (grid_target work n i) p) \<and>
    n \<le> grid_rows n * grid_columns n \<and> grid_rows n * grid_columns n - n < grid_columns n"
  using columns_unique [OF assms] grid_cell [OF assms] grid_rows_bounds [OF assms(1)] by auto

lemma presets_cover_once_witness:
  "covers (box 0 0 1920 1040) (700, 500) \<and> grid_columns 5 = 3 \<and> grid_rows 5 = 2 \<and>
   (\<exists>!i. i < grid_rows 5 * grid_columns 5 \<and> covers (grid_target (box 0 0 1920 1040) 5 i) (700, 500))"
proof -
  have c: "covers (box 0 0 1920 1040) (700, 500)" by (simp add: box_def covers_def)
  have "grid_columns 5 = 3" "grid_rows 5 = 2" by code_simp+
  then show ?thesis using c presets_cover_once [of 5, OF _ c] by simp
qed

text \<open>
  The four corner snaps cover the work area exactly once, and so do the left and the right one.
\<close>

theorem snaps_cover_once:
  assumes "covers area p"
  shows "(\<exists>!t. t \<in> {6, 7, 8, 9} \<and> snaps_over area p t) \<and> (\<exists>!t. t \<in> {1, 2} \<and> snaps_over area p t)"
proof -
  note over = snaps_over_simps [OF assms]
  define left up where lu: "left \<longleftrightarrow> fst p < rc_left area + rect_width area div 2"
    "up \<longleftrightarrow> snd p < rc_top area + rect_height area div 2"
  have one: "\<exists>!t. t \<in> insert a A \<and> P t" if "P a" "\<forall>t \<in> A. \<not> P t" for a :: u32 and A P using that by blast
  have corners: "\<exists>!t. t \<in> {6, 7, 8, 9} \<and> snaps_over area p t"
  proof -
    consider "left" "up" | "\<not> left" "up" | "left" "\<not> up" | "\<not> left" "\<not> up" by blast
    then show ?thesis
    proof cases
      case 1 then show ?thesis using over lu by (intro one) simp_all
    next
      case 2 then show ?thesis using over lu by (subst insert_commute, intro one) simp_all
    next
      case 3 then show ?thesis using over lu one [of "snaps_over area p" 8 "{6, 7, 9}"] by (simp add: insert_commute)
    next
      case 4 then show ?thesis using over lu one [of "snaps_over area p" 9 "{6, 7, 8}"] by (simp add: insert_commute)
    qed
  qed
  have "\<exists>!t. t \<in> {1, 2} \<and> snaps_over area p t"
    using over(1,2) one [of "snaps_over area p" 1 "{2}"] one [of "snaps_over area p" 2 "{1}"]
    by (cases "left") (simp_all add: lu insert_commute)
  with corners show ?thesis by blast
qed

lemma snaps_cover_once_witness: "\<exists>!t. t \<in> {6, 7, 8, 9} \<and> snaps_over (box 0 0 801 601) (400, 300) t"
  by (rule snaps_cover_once [THEN conjunct1]) (simp add: box_def covers_def)

text \<open>
  A restored window is on the screen: its rectangle lies inside the work area, whatever was asked for. The code that
  first keeps a strip of the title bar reachable has no effect on the result while the strip is no wider than
  the window: the final clamp alone decides.
\<close>

theorem restored_on_screen:
  assumes "rc_left work < rc_right work" "rc_top work < rc_bottom work"
  shows "inside (valid_restore_bounds mul_div dpi work requested) work \<and>
    (\<forall>width reach. width \<le> rc_right work - rc_left work \<and> reach \<le> width \<longrightarrow>
      restore_left reach work width x = clamp x (rc_left work) (rc_right work - width))"
  using restore_inside [OF assms] restore_left_clamp [OF assms(1)] by blast

lemma restored_on_screen_witness:
  "inside (valid_restore_bounds (\<lambda>a b c. a * b div c) 0 (box 0 0 1920 1040) (box 5000 (- 80) 300 200)) (box 0 0 1920 1040)"
  by (rule restored_on_screen [THEN conjunct1]) (simp_all add: box_def)

text \<open>
  A layout keeps its place: normalising bounds to the work area and back moves the left and the top edge by at most
  one part in 10,000 of the area plus one pixel, while the window is not further than the area's own width to the
  left of it or twice that to the right.
\<close>

theorem relative_bounds_error:
  assumes "rc_left work < rc_right work" "rc_top work < rc_bottom work"
    and "\<bar>rc_left b - rc_left work\<bar> \<le> rc_right work - rc_left work" "\<bar>rc_top b - rc_top work\<bar> \<le> rc_bottom work - rc_top work"
  shows "\<bar>rc_left (denormalize_bounds (normalize_bounds b work) work) - rc_left b\<bar> \<le> rect_width work div 10000 + 1 \<and>
    \<bar>rc_top (denormalize_bounds (normalize_bounds b work) work) - rc_top b\<bar> \<le> rect_height work div 10000 + 1"
proof -
  have lim: "clamp ((d * 10000) sdiv w) (- 10000) 20000 = (d * 10000) sdiv w" if "0 < w" "\<bar>d\<bar> \<le> w" for d w :: int
  proof (cases "0 \<le> d")
    case True
    then have "(d * 10000) div w \<le> (w * 10000) div w" using that by (intro zdiv_mono1) simp_all
    moreover have "0 \<le> (d * 10000) div w" using True that by (simp add: pos_imp_zdiv_nonneg_iff)
    ultimately show ?thesis using True that by (simp add: sdiv_nonneg)
  next
    case False
    then have "(- d * 10000) div w \<le> (w * 10000) div w" using that by (intro zdiv_mono1) simp_all
    moreover have "0 \<le> - d * 10000" using False by simp
    then have "0 \<le> (- d * 10000) div w" using that(1) by (simp only: pos_imp_zdiv_nonneg_iff)
    moreover have "(d * 10000) sdiv w = - ((- d * 10000) div w)"
      using sdiv_neg [of "- d * 10000" w] sdiv_nonneg [of "- d * 10000" w] False that by simp
    ultimately show ?thesis using that by simp
  qed
  show ?thesis
    using assms scale_error [of "rc_right work - rc_left work" 10000 "rc_left b - rc_left work"]
      scale_error [of "rc_bottom work - rc_top work" 10000 "rc_top b - rc_top work"]
      lim [OF _ assms(3)] lim [OF _ assms(4)]
    by (simp add: denormalize_bounds_def normalize_bounds_def Let_def kNormalizedScale_def algebra_simps)
qed

lemma relative_bounds_error_witness:
  "\<bar>rc_left (denormalize_bounds (normalize_bounds (box 333 77 640 480) (box 0 0 1920 1040)) (box 0 0 1920 1040)) - 333\<bar> \<le> 1"
  using relative_bounds_error [of "box 0 0 1920 1040" "box 333 77 640 480"] by (simp add: box_def)

end
