(* ===== verification/Workspace_Studio.thy ===== *)
theory Workspace_Studio
  imports Continuity Geometry
begin

text \<open>
  The workspace studio of the native shell: \<open>NativeWorkspaceStudioStore\<close> in \<open>native_workspace_studio_model.cpp\<close> with the
  profiles of the four workspaces, the window rules, the start-up entries and the saved layouts, and the commands
  of \<open>native_workspace_studio_window.cpp\<close> that edit them. The enumerations of the source are kept as the \<open>uint32_t\<close>
  they are, because a file can hold any value; \<open>int\<close> and \<open>LONG\<close> values are integers. \<open>Studio_File\<close> has the file.
\<close>

definition kWorkspaceStudioCount :: nat where "kWorkspaceStudioCount = 4"

section \<open>Enumerations\<close>

definition layout_free :: u32 where "layout_free = 0"
definition layout_master_stack :: u32 where "layout_master_stack = 1"
definition layout_columns :: u32 where "layout_columns = 2"
definition layout_grid :: u32 where "layout_grid = 3"
definition layout_focus :: u32 where "layout_focus = 4"

definition field_process_name :: u32 where "field_process_name = 0"
definition field_window_title :: u32 where "field_window_title = 1"
definition field_window_class :: u32 where "field_window_class = 2"

definition mode_contains :: u32 where "mode_contains = 0"
definition mode_exact :: u32 where "mode_exact = 1"
definition mode_prefix :: u32 where "mode_prefix = 2"
definition mode_wildcard :: u32 where "mode_wildcard = 3"

lemmas studio_enums = layout_free_def layout_master_stack_def layout_columns_def layout_grid_def layout_focus_def
  field_process_name_def field_window_title_def field_window_class_def
  mode_contains_def mode_exact_def mode_prefix_def mode_wildcard_def

text \<open>A literal of the source as wide characters; \<open>\<acute>\<close> letters are written by their code.\<close>

definition wide :: "string \<Rightarrow> wide_string" where
  "wide s = map (\<lambda>c. word_of_nat (of_char c)) s"

definition layout_name :: "u32 \<Rightarrow> wide_string" where
  "layout_name p =
     (if p = layout_master_stack then wide ''Mestre + pilha''
      else if p = layout_columns then wide ''Colunas''
      else if p = layout_grid then wide ''Grade''
      else if p = layout_focus then wide ''Foco''
      else wide ''Livre'')"

definition field_name :: "u32 \<Rightarrow> wide_string" where
  "field_name f =
     (if f = field_window_title then wide ''T'' @ [0xED] @ wide ''tulo''
      else if f = field_window_class then wide ''Classe''
      else wide ''Processo'')"

definition mode_name :: "u32 \<Rightarrow> wide_string" where
  "mode_name m =
     (if m = mode_exact then wide ''Exato''
      else if m = mode_prefix then wide ''Prefixo''
      else if m = mode_wildcard then wide ''Wildcard''
      else wide ''Cont'' @ [0xE9] @ wide ''m'')"

section \<open>State\<close>

record workspace_profile =
  pr_name :: wide_string
  pr_wallpaper_path :: wide_string
  pr_layout :: u32
  pr_auto_tile :: bool
  pr_auto_launch :: bool
  pr_apply_wallpaper :: bool

record workspace_rule =
  ru_id :: u32
  ru_enabled :: bool
  ru_field :: u32
  ru_mode :: u32
  ru_pattern :: wide_string
  ru_workspace :: int
  ru_floating :: bool
  ru_maximize :: bool

record launch_entry =
  la_id :: u32
  la_enabled :: bool
  la_workspace :: int
  la_cloudos_app :: bool
  la_target :: wide_string
  la_arguments :: wide_string
  la_delay_ms :: u32

record layout_window =
  lw_process_name :: wide_string
  lw_window_class :: wide_string
  lw_title_hint :: wide_string
  lw_monitor_device :: wide_string
  lw_bounds :: rect
  lw_floating :: bool
  lw_show_command :: u32

record workspace_snapshot =
  sn_id :: u32
  sn_workspace :: int
  sn_name :: wide_string
  sn_created :: u64
  sn_windows :: "layout_window list"

record studio_store =
  st_profiles :: "workspace_profile list"
  st_rules :: "workspace_rule list"
  st_launches :: "launch_entry list"
  st_snapshots :: "workspace_snapshot list"
  st_next_rule :: u32
  st_next_launch :: u32
  st_next_snapshot :: u32

definition area_name :: wide_string where
  "area_name = 0xC1 # wide ''rea''"

definition default_profile :: "nat \<Rightarrow> workspace_profile" where
  "default_profile i = \<lparr>pr_name = area_name @ wide '' '' @ wide (nat_dec (i + 1)), pr_wallpaper_path = [],
     pr_layout = layout_free, pr_auto_tile = False, pr_auto_launch = False, pr_apply_wallpaper = False\<rparr>"

definition reset_defaults :: "studio_store \<Rightarrow> studio_store" where
  "reset_defaults s = s\<lparr>st_profiles := map default_profile [0..<kWorkspaceStudioCount], st_rules := [], st_launches := [],
     st_snapshots := [], st_next_rule := 1, st_next_launch := 1, st_next_snapshot := 1\<rparr>"

definition default_studio :: studio_store where
  "default_studio = \<lparr>st_profiles = map default_profile [0..<kWorkspaceStudioCount], st_rules = [], st_launches = [],
     st_snapshots = [], st_next_rule = 1, st_next_launch = 1, st_next_snapshot = 1\<rparr>"

lemma reset_defaults_default [simp]: "reset_defaults s = default_studio"
  by (cases s) (simp add: reset_defaults_def default_studio_def)

section \<open>Operations of the store\<close>

definition next_rule_id :: "studio_store \<Rightarrow> u32 \<times> studio_store" where
  "next_rule_id s = (st_next_rule s, s\<lparr>st_next_rule := st_next_rule s + 1\<rparr>)"

definition next_launch_id :: "studio_store \<Rightarrow> u32 \<times> studio_store" where
  "next_launch_id s = (st_next_launch s, s\<lparr>st_next_launch := st_next_launch s + 1\<rparr>)"

definition next_snapshot_id :: "studio_store \<Rightarrow> u32 \<times> studio_store" where
  "next_snapshot_id s = (st_next_snapshot s, s\<lparr>st_next_snapshot := st_next_snapshot s + 1\<rparr>)"

definition workspace_name :: "int \<Rightarrow> studio_store \<Rightarrow> wide_string" where
  "workspace_name w s =
     (if w < 0 \<or> int kWorkspaceStudioCount \<le> w then area_name
      else let name = pr_name (st_profiles s ! nat w) in
        if name \<noteq> [] then name else area_name @ wide '' '' @ wide (nat_dec (nat w + 1)))"

section \<open>Commands of the window\<close>

text \<open>
  What the controls hold is an argument. A combo box answers \<open>-1\<close> when nothing is selected, so its value is an
  integer that the code clamps; the selected workspace indexes the array of profiles and is one of the four.
\<close>

definition save_profile :: "nat \<Rightarrow> wide_string \<Rightarrow> wide_string \<Rightarrow> int \<Rightarrow> bool \<Rightarrow> bool \<Rightarrow> bool \<Rightarrow> studio_store \<Rightarrow> studio_store" where
  "save_profile w name wallpaper layout tile launch apply s =
     s\<lparr>st_profiles := (st_profiles s)[w :=
        \<lparr>pr_name = name, pr_wallpaper_path = wallpaper, pr_layout = word_of_int (clamp layout 0 4),
         pr_auto_tile = tile, pr_auto_launch = launch, pr_apply_wallpaper = apply\<rparr>]\<rparr>"

definition add_rule :: "int \<Rightarrow> int \<Rightarrow> wide_string \<Rightarrow> int \<Rightarrow> bool \<Rightarrow> bool \<Rightarrow> studio_store \<Rightarrow> studio_store \<times> bool" where
  "add_rule field mode pattern w floating maximize s =
     (let (i, s) = next_rule_id s;
          rule = \<lparr>ru_id = i, ru_enabled = True, ru_field = word_of_int (clamp field 0 2), ru_mode = word_of_int (clamp mode 0 3),
                  ru_pattern = pattern, ru_workspace = clamp w 0 3, ru_floating = floating, ru_maximize = maximize\<rparr>
      in if pattern = [] then (s, False) else (s\<lparr>st_rules := st_rules s @ [rule]\<rparr>, True))"

definition delete_rule :: "u32 \<Rightarrow> studio_store \<Rightarrow> studio_store \<times> bool" where
  "delete_rule i s =
     (let rules = filter (\<lambda>r. ru_id r \<noteq> i) (st_rules s)
      in (s\<lparr>st_rules := rules\<rparr>, length rules \<noteq> length (st_rules s)))"

fun toggle_first :: "u32 \<Rightarrow> workspace_rule list \<Rightarrow> workspace_rule list" where
  "toggle_first i [] = []"
| "toggle_first i (r # rs) = (if ru_id r = i then r\<lparr>ru_enabled := \<not> ru_enabled r\<rparr> # rs else r # toggle_first i rs)"

definition toggle_rule :: "u32 \<Rightarrow> studio_store \<Rightarrow> studio_store" where
  "toggle_rule i s = s\<lparr>st_rules := toggle_first i (st_rules s)\<rparr>"

definition add_startup_entry :: "bool \<Rightarrow> wide_string \<Rightarrow> wide_string \<Rightarrow> int \<Rightarrow> studio_store \<Rightarrow> studio_store \<times> bool" where
  "add_startup_entry app target arguments w s =
     (let (i, s) = next_launch_id s;
          entry = \<lparr>la_id = i, la_enabled = True, la_workspace = clamp w 0 3, la_cloudos_app = app, la_target = target,
                   la_arguments = arguments, la_delay_ms = 0\<rparr>
      in if target = [] then (s, False) else (s\<lparr>st_launches := st_launches s @ [entry]\<rparr>, True))"

definition delete_startup_entry :: "u32 \<Rightarrow> studio_store \<Rightarrow> studio_store" where
  "delete_startup_entry i s = s\<lparr>st_launches := filter (\<lambda>e. la_id e \<noteq> i) (st_launches s)\<rparr>"

definition delete_layout :: "u32 \<Rightarrow> studio_store \<Rightarrow> studio_store" where
  "delete_layout i s = s\<lparr>st_snapshots := filter (\<lambda>n. sn_id n \<noteq> i) (st_snapshots s)\<rparr>"

text \<open>
  \<open>Capture\<close> takes its id and clamps its workspace; the windows it finds are an argument here and come from
  \<open>Workspace_Automation\<close>. An empty name becomes the id's.
\<close>

definition new_snapshot :: "int \<Rightarrow> wide_string \<Rightarrow> u64 \<Rightarrow> layout_window list \<Rightarrow> studio_store \<Rightarrow> workspace_snapshot \<times> studio_store" where
  "new_snapshot w name now ws s =
     (let (i, s) = next_snapshot_id s in
      (\<lparr>sn_id = i, sn_workspace = clamp w 0 3,
        sn_name = (if name = [] then wide ''Layout '' @ wide (nat_dec (unat i)) else name),
        sn_created = now, sn_windows = ws\<rparr>, s))"

definition capture_layout :: "int \<Rightarrow> wide_string \<Rightarrow> u64 \<Rightarrow> layout_window list \<Rightarrow> studio_store \<Rightarrow> studio_store" where
  "capture_layout w name now ws s =
     (let (n, s) = new_snapshot w name now ws s in s\<lparr>st_snapshots := st_snapshots s @ [n]\<rparr>)"

lemmas studio_ops = next_rule_id_def next_launch_id_def next_snapshot_id_def save_profile_def add_rule_def delete_rule_def
  toggle_rule_def add_startup_entry_def delete_startup_entry_def delete_layout_def new_snapshot_def capture_layout_def

section \<open>Identifiers\<close>

text \<open>
  The lists of the window find an item by its id, so ids must be distinct. They are while the ids in use are below
  their counters, which are below some bound that the 32 bits can hold.
\<close>

definition ids_below :: "u32 \<Rightarrow> u32 list \<Rightarrow> bool" where
  "ids_below c ids \<longleftrightarrow> distinct ids \<and> (\<forall>i \<in> set ids. i < c)"

definition studio_ids :: "nat \<Rightarrow> studio_store \<Rightarrow> bool" where
  "studio_ids n s \<longleftrightarrow>
     ids_below (st_next_rule s) (map ru_id (st_rules s)) \<and>
     ids_below (st_next_launch s) (map la_id (st_launches s)) \<and>
     ids_below (st_next_snapshot s) (map sn_id (st_snapshots s)) \<and>
     0 < st_next_rule s \<and> 0 < st_next_launch s \<and> 0 < st_next_snapshot s \<and>
     unat (st_next_rule s) \<le> n \<and> unat (st_next_launch s) \<le> n \<and> unat (st_next_snapshot s) \<le> n"

lemma ids_below_snoc: "ids_below c ids \<Longrightarrow> c < c + 1 \<Longrightarrow> ids_below (c + 1) (ids @ [c])"
  by (auto simp: ids_below_def)

lemma ids_below_sub: "ids_below c ids \<Longrightarrow> c \<le> d \<Longrightarrow> distinct js \<Longrightarrow> set js \<subseteq> set ids \<Longrightarrow> ids_below d js"
  by (force simp: ids_below_def)

lemma ids_below_step: "ids_below c ids \<Longrightarrow> c < d \<Longrightarrow> ids_below d ids"
  by (force simp: ids_below_def)

lemma ids_below_filter: "ids_below c (map f xs) \<Longrightarrow> c \<le> d \<Longrightarrow> ids_below d (map f (filter P xs))"
  by (rule ids_below_sub [of c "map f xs"]) (auto simp: ids_below_def distinct_map_filter)

lemma ids_below_take: "ids_below c (map f xs) \<Longrightarrow> c \<le> d \<Longrightarrow> ids_below d (map f (take n xs))"
  by (rule ids_below_sub [of c "map f xs"])
     (auto simp: ids_below_def take_map [symmetric] dest: in_set_takeD)

lemma unat_next_id:
  assumes "unat (c :: u32) \<le> n" "Suc n < 4294967296"
  shows "c < c + 1" "unat (c + 1) \<le> Suc n" "0 < c + 1"
proof -
  have "unat (c + 1) = Suc (unat c)" using assms by (simp add: unat_word_ariths)
  then show "c < c + 1" "unat (c + 1) \<le> Suc n" "0 < c + 1"
    using assms by (simp_all add: word_less_nat_alt)
qed

lemma map_toggle_first [simp]: "map ru_id (toggle_first i rs) = map ru_id rs"
  by (induction i rs rule: toggle_first.induct) simp_all

section \<open>Any sequence of commands\<close>

datatype studio_op =
    Save_Profile nat wide_string wide_string int bool bool bool
  | Add_Rule int int wide_string int bool bool
  | Delete_Rule u32
  | Toggle_Rule u32
  | Add_Startup_Entry bool wide_string wide_string int
  | Delete_Startup_Entry u32
  | Capture_Layout int wide_string u64 "layout_window list"
  | Delete_Layout u32

fun studio_exec :: "studio_op \<Rightarrow> studio_store \<Rightarrow> studio_store" where
  "studio_exec (Save_Profile w name wallpaper layout tile launch apply) s = save_profile w name wallpaper layout tile launch apply s"
| "studio_exec (Add_Rule field mode pattern w floating maximize) s = fst (add_rule field mode pattern w floating maximize s)"
| "studio_exec (Delete_Rule i) s = fst (delete_rule i s)"
| "studio_exec (Toggle_Rule i) s = toggle_rule i s"
| "studio_exec (Add_Startup_Entry app target arguments w) s = fst (add_startup_entry app target arguments w s)"
| "studio_exec (Delete_Startup_Entry i) s = delete_startup_entry i s"
| "studio_exec (Capture_Layout w name now ws) s = capture_layout w name now ws s"
| "studio_exec (Delete_Layout i) s = delete_layout i s"

text \<open>What every command keeps: four profiles, rules and entries for existing workspaces, distinct ids.\<close>

definition studio_ok :: "studio_store \<Rightarrow> bool" where
  "studio_ok s \<longleftrightarrow> length (st_profiles s) = 4 \<and>
     (\<forall>r \<in> set (st_rules s). 0 \<le> ru_workspace r \<and> ru_workspace r \<le> 3) \<and>
     (\<forall>e \<in> set (st_launches s). 0 \<le> la_workspace e \<and> la_workspace e \<le> 3) \<and>
     (\<forall>n \<in> set (st_snapshots s). 0 \<le> sn_workspace n \<and> sn_workspace n \<le> 3)"

lemma studio_ok_default [simp, wf_intros]: "studio_ok default_studio"
  by (simp add: studio_ok_def default_studio_def kWorkspaceStudioCount_def)

lemma studio_ids_default: "studio_ids 1 default_studio"
  by (simp add: studio_ids_def default_studio_def ids_below_def)

lemma toggle_first_workspaces:
  "(\<forall>r \<in> set (toggle_first i rs). P (ru_workspace r)) \<longleftrightarrow> (\<forall>r \<in> set rs. P (ru_workspace r))"
  by (induction i rs rule: toggle_first.induct) auto

lemma studio_ok_exec [wf_intros]: "studio_ok s \<Longrightarrow> studio_ok (studio_exec op s)"
  using clamp_workspace
  by (cases op)
     (auto simp: studio_ok_def studio_ops Let_def clamp_bounds
        toggle_first_workspaces [where P = "\<lambda>w. 0 \<le> w \<and> w \<le> 3"])

lemma studio_ids_exec:
  assumes "studio_ids n s" "Suc n < 4294967296"
  shows "studio_ids (Suc n) (studio_exec op s)"
  using assms unat_next_id [OF _ assms(2)]
  by (cases op)
     (auto simp: studio_ids_def studio_ops Let_def le_SucI intro: ids_below_snoc ids_below_step ids_below_filter)

end
