(* ===== verification/Studio_File.thy ===== *)
theory Studio_File
  imports Workspace_Studio Continuity_File
begin

text \<open>
  The file of the workspace studio: the writers and readers of \<open>native_workspace_studio_model.cpp\<close>, \<open>ReadStore\<close>,
  \<open>Load\<close> and \<open>Save\<close>. A stream is the list of bytes not yet read. \<open>ReadStore\<close> fills the store while it reads, so a
  file that turns out to be damaged leaves a half-filled store behind; the readers that end in \<open>_into\<close> return
  what is in the variable after the call, with nothing as the rest of the stream when the call failed.
\<close>

definition kMagicStudio :: string where "kMagicStudio = ''CLDWST2'' @ [CHR 0x00]"
definition kVersionStudio :: u32 where "kVersionStudio = 2"
definition kMaximumCollection :: nat where "kMaximumCollection = 4096"
definition kMaximumStringLength :: nat where "kMaximumStringLength = 32768"

section \<open>Primitive values\<close>

definition write_bool :: "bool \<Rightarrow> string" where
  "write_bool b = [if b then CHR 0x01 else CHR 0x00]"

definition read_bool :: "string \<Rightarrow> (bool \<times> string) option" where
  "read_bool s = (case s of [] \<Rightarrow> None | c # r \<Rightarrow> Some (c \<noteq> CHR 0x00, r))"

text \<open>A \<open>LONG\<close> is the signed reading of its 32 bits.\<close>

definition long :: "int \<Rightarrow> int" where
  "long x = sint (word_of_int x :: u32)"

definition write_rect :: "rect \<Rightarrow> string" where
  "write_rect r = word_bytes (word_of_int (rc_left r) :: u32) @ word_bytes (word_of_int (rc_top r) :: u32) @
     word_bytes (word_of_int (rc_right r) :: u32) @ word_bytes (word_of_int (rc_bottom r) :: u32)"

definition read_rect :: "string \<Rightarrow> (rect \<times> string) option" where
  "read_rect s = do {
     (l :: u32, s) \<leftarrow> read_word s; (t :: u32, s) \<leftarrow> read_word s; (r :: u32, s) \<leftarrow> read_word s; (b :: u32, s) \<leftarrow> read_word s;
     Some (\<lparr>rc_left = sint l, rc_top = sint t, rc_right = sint r, rc_bottom = sint b\<rparr>, s) }"

definition write_wstring :: "wide_string \<Rightarrow> string" where
  "write_wstring v =
     (let n = min (length v) kMaximumStringLength in word_bytes (word_of_nat n :: u32) @ write_many word_bytes (take n v))"

definition read_wstring :: "string \<Rightarrow> (wide_string \<times> string) option" where
  "read_wstring s = do {
     (n :: u32, s) \<leftarrow> read_word s;
     if kMaximumStringLength < unat n then None else read_many read_word (unat n) s }"

text \<open>A count, then that many items; a writer stops after \<open>kMaximumCollection\<close>.\<close>

definition write_items :: "('a \<Rightarrow> string) \<Rightarrow> 'a list \<Rightarrow> string" where
  "write_items wr xs =
     (let n = min (length xs) kMaximumCollection in word_bytes (word_of_nat n :: u32) @ write_many wr (take n xs))"

definition read_items :: "(string \<Rightarrow> ('a \<times> string) option) \<Rightarrow> string \<Rightarrow> ('a list \<times> string) option" where
  "read_items rd s = do {
     (n :: u32, s) \<leftarrow> read_word s;
     if kMaximumCollection < unat n then None else read_many rd (unat n) s }"

interpretation bool_codec: codec write_bool read_bool "\<lambda>_. True"
  by unfold_locales (simp add: read_bool_def write_bool_def)

interpretation rect_codec: lossy_codec write_rect read_rect
    "\<lambda>r. \<lparr>rc_left = long (rc_left r), rc_top = long (rc_top r), rc_right = long (rc_right r), rc_bottom = long (rc_bottom r)\<rparr>"
  by unfold_locales (simp add: write_rect_def read_rect_def codec_simps long_def)

text \<open>Counted lists of a lossy codec are one, whatever the items are.\<close>

lemma items_codec:
  assumes "lossy_codec wr rd clip"
  shows "lossy_codec (write_items wr) (read_items rd) (\<lambda>xs. map clip (take 4096 xs))"
proof
  fix xs :: "'a list" and r :: string
  let ?n = "min (length xs) 4096"
  have "unat (word_of_nat ?n :: u32) = ?n" by (simp add: unat_of_nat)
  then show "read_items rd (write_items wr xs @ r) = Some (map clip (take 4096 xs), r)"
    using lossy_codec.read_clip_many [OF assms, of "take ?n xs" r]
    by (simp add: read_items_def write_items_def Let_def kMaximumCollection_def codec_simps take_min_length)
qed

interpretation wstring_codec: lossy_codec write_wstring read_wstring "take 32768"
proof
  fix v :: wide_string and r
  let ?n = "min (length v) 32768"
  have "unat (word_of_nat ?n :: u32) = ?n" by (simp add: unat_of_nat)
  then show "read_wstring (write_wstring v @ r) = Some (take 32768 v, r)"
    using u16_codec.read_write_many [of "take ?n v" r]
    by (simp add: read_wstring_def write_wstring_def Let_def kMaximumStringLength_def codec_simps take_min_length)
qed

lemmas studio_reads [codec_simps] = bool_codec.rd_wr [OF TrueI] rect_codec.rd_clip wstring_codec.rd_clip

section \<open>Records\<close>

definition write_profile :: "workspace_profile \<Rightarrow> string" where
  "write_profile p = write_wstring (pr_name p) @ write_wstring (pr_wallpaper_path p) @ word_bytes (pr_layout p) @
     write_bool (pr_auto_tile p) @ write_bool (pr_auto_launch p) @ write_bool (pr_apply_wallpaper p)"

definition write_rule :: "workspace_rule \<Rightarrow> string" where
  "write_rule r = word_bytes (ru_id r) @ write_bool (ru_enabled r) @ word_bytes (ru_field r) @ word_bytes (ru_mode r) @
     write_wstring (ru_pattern r) @ word_bytes (word_of_int (clamp (ru_workspace r) 0 3) :: u32) @
     write_bool (ru_floating r) @ write_bool (ru_maximize r)"

definition read_rule :: "string \<Rightarrow> (workspace_rule \<times> string) option" where
  "read_rule s = do {
     (i, s) \<leftarrow> read_word s; (e, s) \<leftarrow> read_bool s; (f, s) \<leftarrow> read_word s; (m, s) \<leftarrow> read_word s;
     (p, s) \<leftarrow> read_wstring s; (w :: u32, s) \<leftarrow> read_word s; (fl, s) \<leftarrow> read_bool s; (mx, s) \<leftarrow> read_bool s;
     Some (\<lparr>ru_id = i, ru_enabled = e, ru_field = f, ru_mode = m, ru_pattern = p, ru_workspace = uint (min w 3),
            ru_floating = fl, ru_maximize = mx\<rparr>, s) }"

definition write_launch :: "launch_entry \<Rightarrow> string" where
  "write_launch e = word_bytes (la_id e) @ write_bool (la_enabled e) @
     word_bytes (word_of_int (clamp (la_workspace e) 0 3) :: u32) @ write_bool (la_cloudos_app e) @
     write_wstring (la_target e) @ write_wstring (la_arguments e) @ word_bytes (la_delay_ms e)"

definition read_launch :: "string \<Rightarrow> (launch_entry \<times> string) option" where
  "read_launch s = do {
     (i, s) \<leftarrow> read_word s; (e, s) \<leftarrow> read_bool s; (w :: u32, s) \<leftarrow> read_word s; (a, s) \<leftarrow> read_bool s;
     (t, s) \<leftarrow> read_wstring s; (g, s) \<leftarrow> read_wstring s; (d, s) \<leftarrow> read_word s;
     Some (\<lparr>la_id = i, la_enabled = e, la_workspace = uint (min w 3), la_cloudos_app = a, la_target = t,
            la_arguments = g, la_delay_ms = d\<rparr>, s) }"

definition write_snapshot_window :: "layout_window \<Rightarrow> string" where
  "write_snapshot_window w = write_wstring (lw_process_name w) @ write_wstring (lw_window_class w) @
     write_wstring (lw_title_hint w) @ write_wstring (lw_monitor_device w) @ write_rect (lw_bounds w) @
     write_bool (lw_floating w) @ word_bytes (lw_show_command w)"

definition read_snapshot_window :: "string \<Rightarrow> (layout_window \<times> string) option" where
  "read_snapshot_window s = do {
     (p, s) \<leftarrow> read_wstring s; (c, s) \<leftarrow> read_wstring s; (t, s) \<leftarrow> read_wstring s; (m, s) \<leftarrow> read_wstring s;
     (b, s) \<leftarrow> read_rect s; (f, s) \<leftarrow> read_bool s; (w, s) \<leftarrow> read_word s;
     Some (\<lparr>lw_process_name = p, lw_window_class = c, lw_title_hint = t, lw_monitor_device = m, lw_bounds = b,
            lw_floating = f, lw_show_command = w\<rparr>, s) }"

definition write_snapshot :: "workspace_snapshot \<Rightarrow> string" where
  "write_snapshot n = word_bytes (sn_id n) @ word_bytes (word_of_int (clamp (sn_workspace n) 0 3) :: u32) @
     write_wstring (sn_name n) @ word_bytes (sn_created n) @ write_items write_snapshot_window (sn_windows n)"

definition read_snapshot :: "string \<Rightarrow> (workspace_snapshot \<times> string) option" where
  "read_snapshot s = do {
     (i, s) \<leftarrow> read_word s; (w :: u32, s) \<leftarrow> read_word s; (n, s) \<leftarrow> read_wstring s; (t, s) \<leftarrow> read_word s;
     (ws, s) \<leftarrow> read_items read_snapshot_window s;
     Some (\<lparr>sn_id = i, sn_workspace = uint (min w 3), sn_name = n, sn_created = t, sn_windows = ws\<rparr>, s) }"

text \<open>What a file keeps of each.\<close>

definition clip_profile :: "workspace_profile \<Rightarrow> workspace_profile" where
  "clip_profile p = p\<lparr>pr_name := take 32768 (pr_name p), pr_wallpaper_path := take 32768 (pr_wallpaper_path p)\<rparr>"

definition clip_rule :: "workspace_rule \<Rightarrow> workspace_rule" where
  "clip_rule r = r\<lparr>ru_pattern := take 32768 (ru_pattern r), ru_workspace := clamp (ru_workspace r) 0 3\<rparr>"

definition clip_launch :: "launch_entry \<Rightarrow> launch_entry" where
  "clip_launch e = e\<lparr>la_workspace := clamp (la_workspace e) 0 3, la_target := take 32768 (la_target e),
     la_arguments := take 32768 (la_arguments e)\<rparr>"

definition clip_layout_window :: "layout_window \<Rightarrow> layout_window" where
  "clip_layout_window w = w\<lparr>lw_process_name := take 32768 (lw_process_name w), lw_window_class := take 32768 (lw_window_class w),
     lw_title_hint := take 32768 (lw_title_hint w), lw_monitor_device := take 32768 (lw_monitor_device w),
     lw_bounds := \<lparr>rc_left = long (rc_left (lw_bounds w)), rc_top = long (rc_top (lw_bounds w)),
                   rc_right = long (rc_right (lw_bounds w)), rc_bottom = long (rc_bottom (lw_bounds w))\<rparr>\<rparr>"

definition clip_snapshot :: "workspace_snapshot \<Rightarrow> workspace_snapshot" where
  "clip_snapshot n = n\<lparr>sn_workspace := clamp (sn_workspace n) 0 3, sn_name := take 32768 (sn_name n),
     sn_windows := map clip_layout_window (take 4096 (sn_windows n))\<rparr>"

lemma uint_workspace: "uint (min (word_of_int (clamp w 0 3) :: u32) 3) = clamp w 0 3"
proof -
  have "clamp w 0 3 \<in> {0, 1, 2, 3}" using clamp_workspace [of w] by auto
  then show ?thesis by auto
qed

interpretation rule_codec: lossy_codec write_rule read_rule clip_rule
  by unfold_locales (simp add: write_rule_def read_rule_def clip_rule_def codec_simps uint_workspace)

interpretation launch_codec: lossy_codec write_launch read_launch clip_launch
  by unfold_locales (simp add: write_launch_def read_launch_def clip_launch_def codec_simps uint_workspace)

interpretation snapshot_window_codec: lossy_codec write_snapshot_window read_snapshot_window clip_layout_window
  by unfold_locales (simp add: write_snapshot_window_def read_snapshot_window_def clip_layout_window_def codec_simps)

interpretation snapshot_windows_codec: lossy_codec "write_items write_snapshot_window" "read_items read_snapshot_window"
    "\<lambda>xs. map clip_layout_window (take 4096 xs)"
  by (rule items_codec) unfold_locales

interpretation snapshot_codec: lossy_codec write_snapshot read_snapshot clip_snapshot
  by unfold_locales
     (simp add: write_snapshot_def read_snapshot_def clip_snapshot_def codec_simps uint_workspace snapshot_windows_codec.rd_clip)

section \<open>Reading in place\<close>

text \<open>
  A step of a reader that fills a structure: the structure after the step, and the unread bytes unless the step
  failed. \<open>and_then\<close> is the \<open>&&\<close> of the source, \<open>into\<close> a reader whose target is a field.
\<close>

type_synonym 'a filler = "'a \<Rightarrow> string \<Rightarrow> 'a \<times> string option"

definition and_then :: "'a filler \<Rightarrow> 'a filler \<Rightarrow> 'a filler" where
  "and_then f g x s = (case f x s of (y, None) \<Rightarrow> (y, None) | (y, Some r) \<Rightarrow> g y r)"

definition into :: "('a \<Rightarrow> 'f) \<Rightarrow> (('f \<Rightarrow> 'f) \<Rightarrow> 'a \<Rightarrow> 'a) \<Rightarrow> 'f filler \<Rightarrow> 'a filler" where
  "into sel upd rd x s = (case rd (sel x) s of (v, r) \<Rightarrow> (upd (\<lambda>_. v) x, r))"

text \<open>
  \<open>in.read\<close> stores the bytes there are: a short read overwrites the low bytes of an integer, and the front of a
  string that \<open>assign\<close> filled with zeros.
\<close>

definition read_u32_into :: "u32 filler" where
  "read_u32_into v s =
     (word_of_nat (le_nat (take 4 s @ drop (length s) (word_bytes v))), if length s < 4 then None else Some (drop 4 s))"

definition read_bool_into :: "bool filler" where
  "read_bool_into v s = (case read_bool s of None \<Rightarrow> (v, None) | Some (b, r) \<Rightarrow> (b, Some r))"

definition read_wstring_into :: "wide_string filler" where
  "read_wstring_into v s =
     (case read_word s of None \<Rightarrow> (v, None)
      | Some (n :: u32, r) \<Rightarrow>
          if kMaximumStringLength < unat n then (v, None)
          else let k = unat n; filled = take (2 * k) r @ replicate (2 * k - length r) (CHR 0x00) in
            ((case read_many read_word k filled of None \<Rightarrow> [] | Some (u, _) \<Rightarrow> u),
             if length r < 2 * k then None else Some (drop (2 * k) r)))"

definition read_profile_into :: "workspace_profile filler" where
  "read_profile_into =
     and_then (into pr_name pr_name_update read_wstring_into)
     (and_then (into pr_wallpaper_path pr_wallpaper_path_update read_wstring_into)
       (\<lambda>p s. case read_word s of None \<Rightarrow> (p, None)
         | Some (layout, r) \<Rightarrow>
             and_then (into pr_auto_tile pr_auto_tile_update read_bool_into)
             (and_then (into pr_auto_launch pr_auto_launch_update read_bool_into)
             (and_then (into pr_apply_wallpaper pr_apply_wallpaper_update read_bool_into)
               (\<lambda>p s. (p\<lparr>pr_layout := layout\<rparr>, Some s)))) p r))"

fun read_profiles_into :: "workspace_profile list filler" where
  "read_profiles_into [] s = ([], Some s)"
| "read_profiles_into (p # ps) s =
     (case read_profile_into p s of
        (q, None) \<Rightarrow> (q # ps, None)
      | (q, Some r) \<Rightarrow> (case read_profiles_into ps r of (qs, t) \<Rightarrow> (q # qs, t)))"

text \<open>The items read before one fails stay in the vector, which is cleared once the count is accepted.\<close>

fun read_prefix :: "(string \<Rightarrow> ('a \<times> string) option) \<Rightarrow> nat \<Rightarrow> string \<Rightarrow> 'a list \<times> string option" where
  "read_prefix rd 0 s = ([], Some s)"
| "read_prefix rd (Suc n) s =
     (case rd s of None \<Rightarrow> ([], None)
      | Some (x, r) \<Rightarrow> (case read_prefix rd n r of (xs, t) \<Rightarrow> (x # xs, t)))"

definition read_items_into :: "(string \<Rightarrow> ('a \<times> string) option) \<Rightarrow> 'a list filler" where
  "read_items_into rd xs s =
     (case read_word s of None \<Rightarrow> (xs, None)
      | Some (n :: u32, r) \<Rightarrow> if kMaximumCollection < unat n then (xs, None) else read_prefix rd (unat n) r)"

text \<open>\<open>while (store->NextRuleId() < next) {}\<close>: the counter moves at least once, and past \<open>next\<close>.\<close>

function advance :: "u32 \<Rightarrow> u32 \<Rightarrow> u32" where
  "advance c n = (if c < n then advance (c + 1) n else c + 1)"
  by auto
termination
proof (relation "measure (\<lambda>(c, n). unat n - unat c)")
  fix c n :: u32
  assume "c < n"
  then have "unat c < unat n" by (simp add: word_less_nat_alt)
  moreover have "unat n < 2 ^ 32" using unsigned_less [of n] by simp
  ultimately have "unat (c + 1) = Suc (unat c)" by (simp add: unat_word_ariths)
  with \<open>unat c < unat n\<close> show "((c + 1, n), (c, n)) \<in> measure (\<lambda>(c, n). unat n - unat c)" by simp
qed simp

declare advance.simps [simp del]

definition read_counters :: "studio_store filler" where
  "read_counters st s =
     (let (n1, s1) = read_u32_into 1 s;
          (n2, s2) = (case s1 of None \<Rightarrow> (1, None) | Some r \<Rightarrow> read_u32_into 1 r);
          (n3, s3) = (case s2 of None \<Rightarrow> (1, None) | Some r \<Rightarrow> read_u32_into 1 r)
      in (st\<lparr>st_next_rule := advance (st_next_rule st) n1, st_next_launch := advance (st_next_launch st) n2,
             st_next_snapshot := advance (st_next_snapshot st) n3\<rparr>, Some (case s3 of None \<Rightarrow> [] | Some r \<Rightarrow> r)))"

definition read_body :: "studio_store filler" where
  "read_body =
     and_then (into st_profiles st_profiles_update read_profiles_into)
     (and_then (into st_rules st_rules_update (read_items_into read_rule))
     (and_then (into st_launches st_launches_update (read_items_into read_launch))
     (and_then (into st_snapshots st_snapshots_update (read_items_into read_snapshot))
       read_counters)))"

definition read_studio :: "string \<Rightarrow> studio_store \<Rightarrow> studio_store \<times> bool" where
  "read_studio bytes st =
     (case read_bytes 8 bytes of None \<Rightarrow> (st, False)
      | Some (magic, s) \<Rightarrow>
          if magic \<noteq> kMagicStudio then (st, False)
          else (case read_word s of None \<Rightarrow> (st, False)
             | Some (version, s) \<Rightarrow>
                 if version \<noteq> kVersionStudio then (st, False)
                 else (case read_body st s of (st', r) \<Rightarrow> (st', r \<noteq> None))))"

text \<open>The file does not open when it does not exist.\<close>

definition read_studio_file :: "string option \<Rightarrow> studio_store \<Rightarrow> studio_store \<times> bool" where
  "read_studio_file file st = (case file of None \<Rightarrow> (st, False) | Some bytes \<Rightarrow> read_studio bytes st)"

section \<open>Saving and loading\<close>

definition write_studio :: "studio_store \<Rightarrow> string" where
  "write_studio st = kMagicStudio @ word_bytes kVersionStudio @ write_many write_profile (st_profiles st) @
     write_items write_rule (st_rules st) @ write_items write_launch (st_launches st) @
     write_items write_snapshot (st_snapshots st) @
     word_bytes (st_next_rule st) @ word_bytes (st_next_launch st) @ word_bytes (st_next_snapshot st)"

text \<open>
  \<open>Save\<close> on the disk, with the choices of the system as in \<open>File_Replace\<close>. The temporary file stays when a
  write or the move fails.
\<close>

definition studio_save_trace :: "save_io \<Rightarrow> string \<Rightarrow> disk \<Rightarrow> disk list \<times> bool" where
  "studio_save_trace io img fs =
     (if \<not> io_directory io then ([fs], False)
      else let (ws, ok) = write_to_path io img fs; f1 = last (fs # ws) in
        if \<not> ok then (fs # ws, False)
        else let cs = copy_backup io f1; f2 = last (f1 # cs) in
          if \<not> io_moved io then ((fs # ws) @ cs, False)
          else ((fs # ws) @ cs @ [f2\<lparr>main_file := temp_file f2, temp_file := None\<rparr>], True))"

text \<open>\<open>Load\<close> with the states of the disk it causes, its result and the store it leaves.\<close>

definition load_studio :: "save_io \<Rightarrow> studio_store \<Rightarrow> disk \<Rightarrow> disk list \<times> bool \<times> studio_store" where
  "load_studio io st fs =
     (let st0 = reset_defaults st; (st1, ok1) = read_studio_file (main_file fs) st0 in
      if ok1 then ([fs], True, st1)
      else let (st2, ok2) = read_studio_file (backup_file fs) st1 in
        if ok2 then (fst (studio_save_trace io (write_studio st2) fs), True, st2)
        else ([fs], False, reset_defaults st2))"

section \<open>What the readers in place do\<close>

lemma advance_max: "advance c n = max c n + 1"
proof (induction c n rule: advance.induct)
  case (1 c n)
  show ?case
  proof (cases "c < n")
    case True
    then have "c + 1 \<le> n" by (rule inc_le)
    with True 1 show ?thesis by (auto simp: advance.simps [of c n] max_def)
  qed (simp add: advance.simps [of c n] max_def)
qed

fun words16 :: "nat \<Rightarrow> string \<Rightarrow> wide_string" where
  "words16 0 s = []"
| "words16 (Suc k) s = word_of_nat (le_nat (take 2 s)) # words16 k (drop 2 s)"

lemma read_many_words:
  "read_many read_word k s = (if length s < 2 * k then None else Some (words16 k s, drop (2 * k) s))"
proof (induction k arbitrary: s)
  case (Suc k)
  show ?case using Suc [of "drop 2 s"] by (auto simp: read_word_def read_le_def read_bytes_def)
qed simp

lemma words16_take: "2 * k \<le> length s \<Longrightarrow> words16 k (take (2 * k) s) = words16 k s"
proof (induction k arbitrary: s)
  case (Suc k)
  have "take (2 * k) (drop 2 s) = drop 2 (take (2 * Suc k) s)" by (simp add: drop_take)
  with Suc.IH [of "drop 2 s"] Suc.prems show ?case by (simp add: min_def)
qed simp

text \<open>A string read in place is the string, or nothing more is read.\<close>

lemma read_wstring_into_eq:
  "read_wstring s = Some (v, r) \<Longrightarrow> read_wstring_into v0 s = (v, Some r)"
  "read_wstring s = None \<Longrightarrow> snd (read_wstring_into v0 s) = None"
  by (auto simp: read_wstring_def read_wstring_into_def read_many_words words16_take Let_def
      split: option.splits if_splits bind_splits)

lemma read_prefix_done: "read_many rd n s = Some (xs, r) \<Longrightarrow> read_prefix rd n s = (xs, Some r)"
  by (induction n arbitrary: s xs r) (fastforce split: option.splits)+

lemma read_prefix_fails: "read_many rd n s = None \<Longrightarrow> snd (read_prefix rd n s) = None"
proof (induction n arbitrary: s)
  case (Suc n)
  show ?case
  proof (cases "rd s")
    case (Some xr)
    obtain x r where xr: "xr = (x, r)" by fastforce
    with Some Suc.prems have "read_many rd n r = None" by (simp split: option.splits prod.splits)
    then have "snd (read_prefix rd n r) = None" by (rule Suc.IH)
    with Some xr show ?thesis by (cases "read_prefix rd n r") simp
  qed simp
qed simp

lemmas read_prefix_eq = read_prefix_done read_prefix_fails

lemma read_items_into_eq:
  "read_items rd s = Some (xs, r) \<Longrightarrow> read_items_into rd xs0 s = (xs, Some r)"
  "read_items rd s = None \<Longrightarrow> snd (read_items_into rd xs0 s) = None"
  by (auto simp: read_items_def read_items_into_def read_prefix_eq split: option.splits if_splits bind_splits)

lemma read_u32_into_write [simp]: "read_u32_into v (word_bytes w @ r) = (w, Some r)"
proof -
  have "le_nat (word_bytes w) = unat w" using le_nat_bytes [of "unat w" 4] unsigned_less [of w] by (simp add: word_bytes_def)
  then show ?thesis by (simp add: read_u32_into_def word_bytes_def)
qed

lemma read_u32_into_write_nil [simp]: "read_u32_into v (word_bytes w) = (w, Some [])"
  using read_u32_into_write [of v w "[]"] by simp

lemma filler_steps:
  "f x s = (y, Some r) \<Longrightarrow> and_then f g x s = g y r"
  "rd (sel x) s = (v, t) \<Longrightarrow> into sel upd rd x s = (upd (\<lambda>_. v) x, t)"
  by (simp_all add: and_then_def into_def)

lemma read_write_profile: "read_profile_into p (write_profile q @ r) = (clip_profile q, Some r)"
  by (cases p; cases q)
     (simp add: read_profile_into_def write_profile_def and_then_def into_def clip_profile_def read_bool_into_def
      read_wstring_into_eq codec_simps)

lemma read_write_profiles:
  "length ps = length qs \<Longrightarrow> read_profiles_into ps (write_many write_profile qs @ r) = (map clip_profile qs, Some r)"
  by (induction ps qs rule: list_induct2) (simp_all add: read_write_profile)

text \<open>What a file keeps of a store: a load also moves each counter one past the saved value.\<close>

definition clip_studio :: "studio_store \<Rightarrow> studio_store" where
  "clip_studio st = \<lparr>st_profiles = map clip_profile (st_profiles st), st_rules = map clip_rule (take 4096 (st_rules st)),
     st_launches = map clip_launch (take 4096 (st_launches st)), st_snapshots = map clip_snapshot (take 4096 (st_snapshots st)),
     st_next_rule = max 1 (st_next_rule st) + 1, st_next_launch = max 1 (st_next_launch st) + 1,
     st_next_snapshot = max 1 (st_next_snapshot st) + 1\<rparr>"

interpretation rules_codec: lossy_codec "write_items write_rule" "read_items read_rule" "\<lambda>xs. map clip_rule (take 4096 xs)"
  by (rule items_codec) unfold_locales

interpretation launches_codec: lossy_codec "write_items write_launch" "read_items read_launch" "\<lambda>xs. map clip_launch (take 4096 xs)"
  by (rule items_codec) unfold_locales

interpretation snapshots_codec: lossy_codec "write_items write_snapshot" "read_items read_snapshot" "\<lambda>xs. map clip_snapshot (take 4096 xs)"
  by (rule items_codec) unfold_locales

lemma read_write_studio:
  assumes "length (st_profiles st) = length (st_profiles st0)" "st_next_rule st0 = 1" "st_next_launch st0 = 1" "st_next_snapshot st0 = 1"
  shows "read_studio (write_studio st @ r) st0 = (clip_studio st, True)"
  using assms
  by (cases st0)
     (simp add: read_studio_def write_studio_def kMagicStudio_def read_bytes_def codec_simps read_body_def and_then_def
      into_def read_write_profiles read_items_into_eq rules_codec.rd_clip launches_codec.rd_clip snapshots_codec.rd_clip
      read_counters_def clip_studio_def advance_max)

section \<open>A half-read store never shows\<close>

text \<open>
  \<open>agrees E F f\<close>: on structures that agree by \<open>E\<close> the filler fails on both or succeeds on both, and then it leaves the
  same bytes and structures that agree by \<open>F\<close>. With equality as the last \<open>F\<close>, nothing of what was there remains.
\<close>

definition agrees :: "('a \<Rightarrow> 'a \<Rightarrow> bool) \<Rightarrow> ('a \<Rightarrow> 'a \<Rightarrow> bool) \<Rightarrow> 'a filler \<Rightarrow> bool" where
  "agrees E F f \<longleftrightarrow> (\<forall>x y s. E x y \<longrightarrow>
     snd (f x s) = snd (f y s) \<and> (snd (f x s) \<noteq> None \<longrightarrow> F (fst (f x s)) (fst (f y s))))"

definition any :: "'a \<Rightarrow> 'a \<Rightarrow> bool" where
  "any x y = True"

lemma and_then_alt:
  "and_then f g x s = (case snd (f x s) of None \<Rightarrow> (fst (f x s), None) | Some r \<Rightarrow> g (fst (f x s)) r)"
  by (simp add: and_then_def split: prod.splits option.splits)

lemma agrees_and_then: "agrees E F f \<Longrightarrow> agrees F G g \<Longrightarrow> agrees E G (and_then f g)"
  unfolding agrees_def and_then_alt by (auto split: option.splits)

lemma into_alt: "into sel upd rd x s = (upd (\<lambda>_. fst (rd (sel x) s)) x, snd (rd (sel x) s))"
  by (simp add: into_def split: prod.splits)

lemma agrees_into:
  assumes "agrees A (=) rd" "\<And>x y. E x y \<Longrightarrow> A (sel x) (sel y)"
    and "\<And>x y v. E x y \<Longrightarrow> F (upd (\<lambda>_. v) x) (upd (\<lambda>_. v) y)"
  shows "agrees E F (into sel upd rd)"
  using assms unfolding agrees_def into_alt by (auto; metis)

lemma agrees_wstring: "agrees any (=) read_wstring_into"
  by (auto simp: agrees_def read_wstring_into_def Let_def split: option.splits)

lemma agrees_bool: "agrees any (=) read_bool_into"
  by (auto simp: agrees_def read_bool_into_def split: option.splits)

lemma agrees_items: "agrees any (=) (read_items_into rd)"
  by (auto simp: agrees_def read_items_into_def split: option.splits)

lemma other_fields:
  "pr_name (x :: workspace_profile) = pr_name y \<Longrightarrow> pr_wallpaper_path x = pr_wallpaper_path y \<Longrightarrow>
     x\<lparr>pr_auto_tile := t, pr_auto_launch := l, pr_apply_wallpaper := a, pr_layout := k\<rparr> =
     y\<lparr>pr_auto_tile := t, pr_auto_launch := l, pr_apply_wallpaper := a, pr_layout := k\<rparr>"
  by (cases x; cases y) simp

lemma agrees_profile: "agrees any (=) read_profile_into"
  unfolding read_profile_into_def
proof (intro agrees_and_then)
  show "agrees any (\<lambda>p q. pr_name p = pr_name q) (into pr_name pr_name_update read_wstring_into)"
    by (rule agrees_into [OF agrees_wstring]) (simp_all add: any_def)
  show "agrees (\<lambda>p q. pr_name p = pr_name q) (\<lambda>p q. pr_name p = pr_name q \<and> pr_wallpaper_path p = pr_wallpaper_path q)
      (into pr_wallpaper_path pr_wallpaper_path_update read_wstring_into)"
    by (rule agrees_into [OF agrees_wstring]) (simp_all add: any_def)
  show "agrees (\<lambda>p q. pr_name p = pr_name q \<and> pr_wallpaper_path p = pr_wallpaper_path q) (=)
     (\<lambda>p :: workspace_profile. \<lambda>s. case read_word s of None \<Rightarrow> (p, None)
         | Some (layout, r) \<Rightarrow>
             and_then (into pr_auto_tile pr_auto_tile_update read_bool_into)
             (and_then (into pr_auto_launch pr_auto_launch_update read_bool_into)
             (and_then (into pr_apply_wallpaper pr_apply_wallpaper_update read_bool_into)
               (\<lambda>p s. (p\<lparr>pr_layout := layout\<rparr>, Some s)))) p r)"
    by (simp add: agrees_def)
       (auto simp: and_then_def into_def read_bool_into_def split: option.splits intro: other_fields)
qed

lemma read_profiles_alt:
  "read_profiles_into (p # ps) s =
     (case snd (read_profile_into p s) of
        None \<Rightarrow> (fst (read_profile_into p s) # ps, None)
      | Some r \<Rightarrow> (fst (read_profile_into p s) # fst (read_profiles_into ps r), snd (read_profiles_into ps r)))"
  by (simp split: prod.splits option.splits)

lemma agrees_profiles: "agrees (\<lambda>ps qs. length ps = length qs) (=) read_profiles_into"
proof -
  have "snd (read_profiles_into ps s) = snd (read_profiles_into qs s) \<and>
      (snd (read_profiles_into ps s) \<noteq> None \<longrightarrow> fst (read_profiles_into ps s) = fst (read_profiles_into qs s))"
    if "length ps = length qs" for ps qs s
    using that
  proof (induction ps qs arbitrary: s rule: list_induct2)
    case (Cons p ps q qs)
    have pq: "snd (read_profile_into p s) = snd (read_profile_into q s)"
        "snd (read_profile_into q s) \<noteq> None \<longrightarrow> fst (read_profile_into p s) = fst (read_profile_into q s)"
      using agrees_profile unfolding agrees_def any_def by metis+
    show ?case
    proof (cases "snd (read_profile_into q s)")
      case (Some r)
      then show ?thesis unfolding read_profiles_alt using pq Cons.IH [of r] by simp
    next
      case None
      then show ?thesis unfolding read_profiles_alt using pq(1) by simp
    qed
  qed simp
  then show ?thesis unfolding agrees_def by blast
qed

text \<open>The fields that are alike after each step; the counters are alike from the start.\<close>

definition same_counters :: "studio_store \<Rightarrow> studio_store \<Rightarrow> bool" where
  "same_counters x y \<longleftrightarrow> length (st_profiles x) = length (st_profiles y) \<and> st_next_rule x = st_next_rule y \<and>
     st_next_launch x = st_next_launch y \<and> st_next_snapshot x = st_next_snapshot y"

lemma agrees_profiles_field:
  "agrees same_counters (\<lambda>x y. same_counters x y \<and> st_profiles x = st_profiles y)
     (into st_profiles st_profiles_update read_profiles_into)"
  by (rule agrees_into [OF agrees_profiles]) (simp_all add: same_counters_def)

lemma agrees_body: "agrees same_counters (=) read_body"
proof -
  let ?P = "\<lambda>x y. same_counters x y \<and> st_profiles x = st_profiles y"
  let ?R = "\<lambda>x y. ?P x y \<and> st_rules x = st_rules y"
  let ?L = "\<lambda>x y. ?R x y \<and> st_launches x = st_launches y"
  let ?S = "\<lambda>x y. ?L x y \<and> st_snapshots x = st_snapshots y"
  have "agrees ?P ?R (into st_rules st_rules_update (read_items_into read_rule))"
    by (rule agrees_into [OF agrees_items]) (simp_all add: same_counters_def any_def)
  moreover have "agrees ?R ?L (into st_launches st_launches_update (read_items_into read_launch))"
    by (rule agrees_into [OF agrees_items]) (simp_all add: same_counters_def any_def)
  moreover have "agrees ?L ?S (into st_snapshots st_snapshots_update (read_items_into read_snapshot))"
    by (rule agrees_into [OF agrees_items]) (simp_all add: same_counters_def any_def)
  moreover have "agrees ?S (=) read_counters"
  proof -
    have "x = y" if "?S x y" for x y using that by (auto simp: same_counters_def intro: studio_store.equality)
    then show ?thesis by (auto simp: agrees_def)
  qed
  ultimately show ?thesis unfolding read_body_def
    by (blast intro: agrees_and_then agrees_profiles_field)
qed

lemma keeps_body_counters: "snd (read_body st s) = None \<Longrightarrow> same_counters (fst (read_body st s)) st"
proof -
  have len: "length (fst (read_profiles_into ps s)) = length ps" for ps s
    by (induction ps s rule: read_profiles_into.induct) (auto split: prod.splits option.splits)
  assume "snd (read_body st s) = None"
  then show ?thesis
    by (auto simp: read_body_def and_then_alt into_alt same_counters_def len read_counters_def Let_def
        split: option.splits prod.splits)
qed

text \<open>\<open>ReadStore\<close> on a fresh store, as a function of the bytes alone.\<close>

definition parse_studio :: "string \<Rightarrow> studio_store option" where
  "parse_studio bytes = (case read_studio bytes default_studio of (st, ok) \<Rightarrow> if ok then Some st else None)"

lemma read_studio_fresh:
  assumes "same_counters st default_studio"
  shows "read_studio bytes st = (case parse_studio bytes of Some st' \<Rightarrow> (st', True) | None \<Rightarrow> (fst (read_studio bytes st), False))"
    and "\<not> snd (read_studio bytes st) \<Longrightarrow> same_counters (fst (read_studio bytes st)) default_studio"
proof -
  have ag: "snd (read_body st s) = snd (read_body default_studio s) \<and>
      (snd (read_body st s) \<noteq> None \<longrightarrow> fst (read_body st s) = fst (read_body default_studio s))" for s
    using agrees_body assms unfolding agrees_def by blast
  show "read_studio bytes st = (case parse_studio bytes of Some st' \<Rightarrow> (st', True) | None \<Rightarrow> (fst (read_studio bytes st), False))"
    using ag by (auto simp: parse_studio_def read_studio_def split: option.splits prod.splits if_splits) (metis snd_conv fst_conv)+
  show "\<not> snd (read_studio bytes st) \<Longrightarrow> same_counters (fst (read_studio bytes st)) default_studio"
    using keeps_body_counters [of st] assms
    by (auto simp: read_studio_def same_counters_def split: option.splits prod.splits if_splits) (metis fst_conv snd_conv)+
qed

section \<open>The store as a replaced file\<close>

lemma deletion_later [simp]:
  "write_to_path (io\<lparr>io_deleted := d\<rparr>) img fs = write_to_path io img fs"
  "copy_backup (io\<lparr>io_deleted := d\<rparr>) fs = copy_backup io fs"
  by (simp_all add: write_to_path_def copy_backup_def cong: option.case_cong copy_outcome.case_cong)

lemma studio_save_trace_eq: "studio_save_trace io img fs = save_trace (io\<lparr>io_deleted := False\<rparr>) img fs"
  by (simp add: studio_save_trace_def save_trace_def delete_temp_def Let_def split: prod.splits del: last.simps)

lemma parse_write_studio: "length (st_profiles st) = 4 \<Longrightarrow> parse_studio (write_studio st @ r) = Some (clip_studio st)"
  by (simp add: parse_studio_def read_write_studio default_studio_def kWorkspaceStudioCount_def)

lemma same_counters_default [simp]: "same_counters default_studio default_studio"
  by (simp add: same_counters_def)

lemma load_studio_main:
  "main_file fs = Some m \<Longrightarrow> parse_studio m = Some s \<Longrightarrow> load_studio io st fs = ([fs], True, s)"
  using read_studio_fresh(1) [OF same_counters_default, of m]
  by (simp add: load_studio_def read_studio_file_def)

interpretation studio_file: file_store write_studio parse_studio clip_studio "\<lambda>s. s" "\<lambda>f. snd (load_studio io st f)"
    studio_save_trace "\<lambda>s. length (st_profiles s) = 4" for io st
proof
  fix s :: studio_store assume "length (st_profiles s) = 4"
  then show "parse_studio (write_studio s) = Some (clip_studio s)" using parse_write_studio [of s "[]"] by simp
qed (auto simp: studio_save_trace_eq load_studio_main dest: save_trace_main save_trace_saved)

text \<open>A file that cannot be read leaves a store that the next read treats as a fresh one.\<close>

lemma read_file_fresh:
  assumes "same_counters st default_studio"
  shows "snd (read_studio_file file st) \<longleftrightarrow> Option.bind file parse_studio \<noteq> None"
    and "Option.bind file parse_studio = Some s \<Longrightarrow> fst (read_studio_file file st) = s"
    and "\<not> snd (read_studio_file file st) \<Longrightarrow> same_counters (fst (read_studio_file file st)) default_studio"
proof -
  have "snd (read_studio b st) \<longleftrightarrow> parse_studio b \<noteq> None" for b
    by (subst read_studio_fresh(1) [OF assms]) (simp split: option.split)
  then show "snd (read_studio_file file st) \<longleftrightarrow> Option.bind file parse_studio \<noteq> None"
    by (simp add: read_studio_file_def split: option.split)
  have "parse_studio b = Some s \<Longrightarrow> fst (read_studio b st) = s" for b
    by (subst read_studio_fresh(1) [OF assms]) simp
  then show "Option.bind file parse_studio = Some s \<Longrightarrow> fst (read_studio_file file st) = s"
    by (cases "file") (simp_all add: read_studio_file_def)
  show "\<not> snd (read_studio_file file st) \<Longrightarrow> same_counters (fst (read_studio_file file st)) default_studio"
    using assms read_studio_fresh(2) [OF assms] by (cases "file") (simp_all add: read_studio_file_def)
qed

section \<open>Properties\<close>

text \<open>
  \<open>Load\<close> reads into the store in place, and after a damaged main file it reads the backup into whatever the
  first attempt left there. The outcome is nevertheless a function of the two files alone: the store of the main
  file if it can be read from scratch, otherwise that of the backup, otherwise the default store.
\<close>

theorem studio_load_from_files:
  "snd (load_studio io st fs) =
     (case Option.bind (main_file fs) parse_studio of
        Some s \<Rightarrow> (True, s)
      | None \<Rightarrow> (case Option.bind (backup_file fs) parse_studio of
            Some s \<Rightarrow> (True, s)
          | None \<Rightarrow> (False, default_studio)))"
proof -
  obtain st1 ok1 where r1: "read_studio_file (main_file fs) default_studio = (st1, ok1)" by fastforce
  obtain st2 ok2 where r2: "read_studio_file (backup_file fs) st1 = (st2, ok2)" by fastforce
  note one = read_file_fresh [OF same_counters_default, of "main_file fs", unfolded r1 fst_conv snd_conv]
  show ?thesis
  proof (cases ok1)
    case True
    with one r1 show ?thesis by (auto simp: load_studio_def)
  next
    case False
    note two = read_file_fresh [OF one(3) [OF False], of "backup_file fs", unfolded r2 fst_conv snd_conv]
    from one(1) two(1,2) False show ?thesis by (auto simp: load_studio_def r1 r2)
  qed
qed

lemma studio_load_from_files_witness:
  "\<forall>io. snd (load_studio io default_studio
     \<lparr>main_file = Some ''CLDW'', temp_file = None, backup_file = None\<rparr>) = (False, default_studio)"
proof -
  have "parse_studio ''CLDW'' = None" by (simp add: parse_studio_def read_studio_def read_bytes_def)
  then show ?thesis by (simp add: studio_load_from_files)
qed

text \<open>
  C36. A saved studio comes back, whatever follows it in the file: names, patterns and paths cut to 32,768 units, the
  lists to 4,096 items, workspaces in range. Only the counters differ: a load moves each one past the saved value.
\<close>

theorem studio_file_roundtrip:
  assumes "length (st_profiles st) = 4"
  shows "parse_studio (write_studio st @ r) = Some (clip_studio st)"
  using assms by (rule parse_write_studio)

lemma studio_file_roundtrip_witness:
  "parse_studio (write_studio (studio_exec (Add_Rule 1 3 [42] 9 True False) default_studio)) =
     Some (default_studio
       \<lparr>st_rules := [\<lparr>ru_id = 1, ru_enabled = True, ru_field = 1, ru_mode = 3, ru_pattern = [42], ru_workspace = 3,
                    ru_floating = True, ru_maximize = False\<rparr>],
        st_next_rule := 3, st_next_launch := 2, st_next_snapshot := 2\<rparr>)"
  using studio_file_roundtrip [of "studio_exec (Add_Rule 1 3 [42] 9 True False) default_studio" "[]"]
  by (simp add: default_studio_def kWorkspaceStudioCount_def clip_studio_def clip_rule_def clip_profile_def add_rule_def
      next_rule_id_def clamp_def default_profile_def area_name_def wide_def nat_dec.simps upt_rec)

text \<open>
  Saving the studio is crash safe: while the main file holds a readable studio, a load at any moment of a save
  gives that one or the one being saved, and the latter once \<open>Save\<close> has returned true.
\<close>

theorem studio_save_crash_safe:
  assumes "main_file fs = Some m" "parse_studio m = Some s0" "length (st_profiles s) = 4"
    and "studio_save_trace io (write_studio s) fs = (fss, ok)"
  shows "(\<forall>f \<in> set fss. snd (load_studio io' st f) \<in> {(True, s0), (True, clip_studio s)}) \<and>
    (ok \<longrightarrow> snd (load_studio io' st (last fss)) = (True, clip_studio s))"
  using studio_file.crash_safe [OF assms(3,1,2,4)] studio_file.load_saved [OF assms(3), of io fs fss] assms(4)
  by (cases ok) auto

lemma studio_save_crash_safe_witness:
  "let s = studio_exec (Toggle_Rule 5) default_studio; m = write_studio default_studio;
       old = \<lparr>main_file = Some m, temp_file = None, backup_file = None\<rparr>;
       io = \<lparr>io_directory = True, io_create = True, io_written = Some 9, io_copy = Copied, io_moved = True, io_deleted = False\<rparr>
   in \<forall>f \<in> set (fst (studio_save_trace io (write_studio s) old)).
        snd (load_studio io s f) \<in> {(True, clip_studio default_studio), (True, clip_studio s)}"
proof -
  have p: "parse_studio (write_studio default_studio) = Some (clip_studio default_studio)"
    using parse_write_studio [of default_studio "[]"] by (simp add: default_studio_def kWorkspaceStudioCount_def)
  show ?thesis unfolding Let_def
    by (rule conjunct1 [OF studio_save_crash_safe [OF _ p _ prod.collapse [symmetric]]])
       (simp_all add: toggle_rule_def default_studio_def kWorkspaceStudioCount_def)
qed

text \<open>
  A recovery has a moment at which both files are bad. When the main file is damaged and the backup is good, \<open>Load\<close>
  succeeds and saves what it read; that save first copies the damaged file over the backup. Even when every call
  succeeds, a crash after the copy and before the move leaves a disk from which nothing loads but the defaults.
\<close>

theorem studio_recovery_window:
  assumes "main_file fs = Some m" "parse_studio m = None" "backup_file fs = Some b" "parse_studio b = Some s"
    and "io_directory io" "io_create io" "io_written io = None" "io_copy io = Copied" "io_moved io"
  shows "snd (load_studio io st fs) = (True, s) \<and>
    (\<exists>f \<in> set (fst (load_studio io st fs)). snd (load_studio io st f) = (False, default_studio))"
proof -
  let ?img = "write_studio s"
  let ?f1 = "fs\<lparr>temp_file := Some ?img\<rparr>" and ?f2 = "fs\<lparr>temp_file := Some ?img, backup_file := Some m\<rparr>"
  have ok: "snd (load_studio io st fs) = (True, s)" using assms by (simp add: studio_load_from_files)
  obtain ws where ws: "write_to_path io ?img fs = (ws, True)" "last (fs # ws) = ?f1"
    using assms by (simp add: write_to_path_def grow_def)
  have last: "last (?f1 # copy_backup io ?f1) = ?f2" and cs: "?f2 \<in> set (copy_backup io ?f1)"
    using assms by (auto simp: copy_backup_def grow_def image_iff intro!: bexI [of _ "length m"])
  have "fst (load_studio io st fs) = fst (studio_save_trace io ?img fs)"
  proof -
    obtain st1 ok1 where r1: "read_studio_file (main_file fs) default_studio = (st1, ok1)" by fastforce
    obtain st2 ok2 where r2: "read_studio_file (backup_file fs) st1 = (st2, ok2)" by fastforce
    have "\<not> ok1" using read_file_fresh(1) [OF same_counters_default, of "main_file fs"] r1 assms by simp
    with ok show ?thesis by (auto simp: load_studio_def r1 r2 split: if_splits)
  qed
  also have "?f2 \<in> set (fst (studio_save_trace io ?img fs))"
    using cs assms by (auto simp: studio_save_trace_def ws Let_def simp del: last.simps)
  finally have "?f2 \<in> set (fst (load_studio io st fs))" .
  moreover have "snd (load_studio io st ?f2) = (False, default_studio)"
    using assms by (simp add: studio_load_from_files)
  ultimately show ?thesis using ok by blast
qed

lemma studio_recovery_window_witness:
  "let good = write_studio default_studio;
       fs = \<lparr>main_file = Some ''CLDW'', temp_file = None, backup_file = Some good\<rparr>;
       io = \<lparr>io_directory = True, io_create = True, io_written = None, io_copy = Copied, io_moved = True, io_deleted = True\<rparr>
   in \<exists>f \<in> set (fst (load_studio io default_studio fs)). snd (load_studio io default_studio f) = (False, default_studio)"
proof -
  have e: "parse_studio ''CLDW'' = None" by (simp add: parse_studio_def read_studio_def read_bytes_def)
  have p: "parse_studio (write_studio default_studio) = Some (clip_studio default_studio)"
    using parse_write_studio [of default_studio "[]"] by (simp add: default_studio_def kWorkspaceStudioCount_def)
  show ?thesis unfolding Let_def by (rule conjunct2 [OF studio_recovery_window [OF _ e _ p]]) simp_all
qed

text \<open>Sessions of the studio: commands, and restarts that save the store and load it back.\<close>

datatype studio_step = Command studio_op | Restart

fun studio_run :: "studio_step list \<Rightarrow> studio_store \<Rightarrow> studio_store" where
  "studio_run [] s = s"
| "studio_run (Command op # steps) s = studio_run steps (studio_exec op s)"
| "studio_run (Restart # steps) s =
     studio_run steps (case parse_studio (write_studio s) of Some s' \<Rightarrow> s' | None \<Rightarrow> default_studio)"

lemma studio_ok_clip: "studio_ok s \<Longrightarrow> studio_ok (clip_studio s)"
  by (auto simp: studio_ok_def clip_studio_def clip_rule_def clip_launch_def clip_snapshot_def dest!: in_set_takeD)

lemma clip_ids [simp]:
  "ru_id (clip_rule r) = ru_id r" "la_id (clip_launch e) = la_id e" "sn_id (clip_snapshot n) = sn_id n"
  by (simp_all add: clip_rule_def clip_launch_def clip_snapshot_def)

lemma studio_ids_clip:
  assumes "studio_ids n s" "Suc n < 4294967296"
  shows "studio_ids (Suc n) (clip_studio s)"
proof -
  have one: "max 1 c = c" if "0 < c" for c :: u32
  proof (rule max_absorb2)
    from that have "0 < unat c" by (simp add: word_less_nat_alt)
    then show "1 \<le> c" by (simp add: word_le_nat_alt)
  qed
  have take: "ids_below (c + 1) (map f (map g (take 4096 xs)))"
    if "ids_below c (map f xs)" "unat c \<le> n" "\<And>x. f (g x) = f x" for c f and g :: "'x \<Rightarrow> 'x" and xs
    using ids_below_take [OF that(1), of "c + 1" 4096] unat_next_id(1) [OF that(2) assms(2)] that(3) by (simp add: comp_def)
  show ?thesis
    using assms(1) unat_next_id [OF _ assms(2)]
    by (simp add: studio_ids_def clip_studio_def one take del: map_map)
qed

lemma studio_run_ok:
  "studio_ok s \<Longrightarrow> studio_ids n s \<Longrightarrow> n + length steps < 4294967296 \<Longrightarrow>
     studio_ok (studio_run steps s) \<and> studio_ids (n + length steps) (studio_run steps s)"
proof (induction steps s arbitrary: n rule: studio_run.induct)
  case (2 op steps s)
  then show ?case using "2.IH" [of "Suc n"] studio_ok_exec studio_ids_exec by simp
next
  case (3 steps s)
  have "parse_studio (write_studio s) = Some (clip_studio s)"
    using parse_write_studio [of s "[]"] "3.prems"(1) by (simp add: studio_ok_def)
  with 3 show ?case using "3.IH" [of "Suc n"] studio_ok_clip studio_ids_clip by simp
qed simp

text \<open>
  C37. The ids of the studio stay distinct. After any commands and restarts, fewer than 2 ^ 32 - 1 of them, there are
  four profiles, every rule, entry and layout belongs to one of the four workspaces, and no two rules, entries or
  layouts have the same id.
\<close>

theorem studio_ids_distinct:
  assumes "length steps < 4294967295"
  shows "studio_ok (studio_run steps default_studio) \<and>
    distinct (map ru_id (st_rules (studio_run steps default_studio))) \<and>
    distinct (map la_id (st_launches (studio_run steps default_studio))) \<and>
    distinct (map sn_id (st_snapshots (studio_run steps default_studio)))"
  using studio_run_ok [OF studio_ok_default studio_ids_default, of steps] assms
  by (simp add: studio_ids_def ids_below_def)

lemma studio_ids_distinct_witness:
  "distinct (map ru_id (st_rules (studio_run
     [Command (Add_Rule 0 0 [7] 1 True True), Restart, Command (Add_Rule 1 1 [8] 2 True True)] default_studio)))"
  by (rule studio_ids_distinct [THEN conjunct2, THEN conjunct1]) simp

text \<open>
  The counters are read without a check. A file that ends before its counters - twelve bytes short - is accepted
  like a complete one, and its counters restart at two, below the ids it contains.
\<close>

theorem studio_cut_file_accepted:
  assumes "length (st_profiles st) = 4" "img = write_studio st"
  shows "\<exists>st'. parse_studio (take (length img - 12) img) = Some st' \<and>
    st' = clip_studio st\<lparr>st_next_rule := 2, st_next_launch := 2, st_next_snapshot := 2\<rparr> \<and>
    (2 \<in> ru_id ` set (take 4096 (st_rules st)) \<and> pattern \<noteq> [] \<longrightarrow>
      \<not> distinct (map ru_id (st_rules (studio_exec (Add_Rule f k pattern w fl mx) st'))))"
proof -
  let ?st' = "clip_studio st\<lparr>st_next_rule := 2, st_next_launch := 2, st_next_snapshot := 2\<rparr>"
  have "take (length img - 12) img = kMagicStudio @ word_bytes kVersionStudio @ write_many write_profile (st_profiles st) @
     write_items write_rule (st_rules st) @ write_items write_launch (st_launches st) @ write_items write_snapshot (st_snapshots st)"
    using assms(2) by (simp add: write_studio_def word_bytes_def)
  moreover have "length (st_profiles default_studio) = 4" by (simp add: default_studio_def kWorkspaceStudioCount_def)
  moreover have "read_u32_into 1 [] = (1, None)" by code_simp
  moreover have "st_next_rule default_studio = 1" "st_next_launch default_studio = 1" "st_next_snapshot default_studio = 1"
    by (simp_all add: default_studio_def)
  ultimately have "parse_studio (take (length img - 12) img) = Some ?st'" using assms(1)
    by (simp add: parse_studio_def read_studio_def kMagicStudio_def read_bytes_def codec_simps read_body_def and_then_def
        into_def read_write_profiles read_items_into_eq rules_codec.rd_clip launches_codec.rd_clip
        snapshots_codec.rd_clip snapshots_codec.rd_clip [where r = "[]", simplified] read_counters_def clip_studio_def advance_max)
  moreover have "\<not> distinct (map ru_id (st_rules (studio_exec (Add_Rule f k pattern w fl mx) ?st')))"
    if "2 \<in> ru_id ` set (take 4096 (st_rules st))" "pattern \<noteq> []"
    using that by (auto simp: add_rule_def next_rule_id_def clip_studio_def image_image)
  ultimately show ?thesis by blast
qed

lemma studio_cut_file_accepted_witness:
  "let st = studio_run [Command (Add_Rule 0 0 [7] 1 True True), Command (Add_Rule 1 1 [8] 2 True True)] default_studio;
       img = write_studio st
   in \<exists>st'. parse_studio (take (length img - 12) img) = Some st' \<and>
        \<not> distinct (map ru_id (st_rules (studio_exec (Add_Rule 0 0 [9] 0 True True) st')))"
proof -
  let ?st = "studio_run [Command (Add_Rule 0 0 [7] 1 True True), Command (Add_Rule 1 1 [8] 2 True True)] default_studio"
  have "length (st_profiles ?st) = 4" "2 \<in> ru_id ` set (take 4096 (st_rules ?st))"
    by (simp_all add: add_rule_def next_rule_id_def default_studio_def kWorkspaceStudioCount_def)
  then show ?thesis unfolding Let_def
    using studio_cut_file_accepted [of ?st "write_studio ?st" "[9]" 0 0 0 True True] by blast
qed

end
