(* ===== verification/Window_Manager.thy ===== *)
theory Window_Manager
  imports Geometry Workspace_Studio "HOL-Library.Monad_Syntax"
begin

unbundle bit_operations_syntax

text \<open>
  The window manager of the native shell: \<open>CloudOSNativeWindowManager\<close> in \<open>native_window_manager.cpp\<close>,
  \<open>native_window_manager_recovery.cpp\<close> and \<open>native_window_manager_workspace_studio.cpp\<close>. Its state is the list of managed
  windows with their workspaces; everything else belongs to Windows. What Windows answers during one call is the
  record \<open>os\<close>, one per call, so windows may die or change between any two calls; what the manager asks Windows to do is
  appended to the log \<open>wm_actions\<close>. A call that dereferences a null pointer has no result.
  The icon cache and the performance counters, which the manager only informs, are left out.
\<close>

section \<open>State\<close>

text \<open>A window handle; zero is the null handle.\<close>

type_synonym hwnd = u64

record managed_window =
  mw_hwnd :: hwnd
  mw_process_id :: u32
  mw_workspace :: int
  mw_floating :: bool
  mw_hidden :: bool
  mw_title :: wide_string
  mw_monitor :: u64
  mw_minimized :: bool
  mw_bounds :: rect
  mw_maximized :: bool
  mw_fullscreen :: bool
  mw_platform :: string
  mw_app_id :: string
  mw_owner :: hwnd
  mw_capabilities :: "string list"

datatype show_command = SW_Hide | SW_ShowNA | SW_ShowNoActivate | SW_Restore | SW_Minimize | SW_Maximize

datatype wm_action =
    Show hwnd show_command
  | Place hwnd rect
  | Set_Foreground hwnd
  | Bring_To_Top hwnd
  | Post_Close hwnd
  | Tag hwnd bool
  | Border hwnd bool
  | Model_Changed

record wm =
  wm_revision :: u64
  wm_sequence :: u64
  wm_sink :: hwnd
  wm_watching :: bool
  wm_active :: hwnd
  wm_current :: int
  wm_reserved :: int
  wm_tiling :: bool
  wm_windows :: "managed_window list"
  wm_actions :: "wm_action list"

text \<open>
  The answers of Windows: \<open>work_area\<close> is the work area of a window's monitor, \<open>monitor_near\<close> and \<open>monitor_primary\<close> the two
  ways to ask for the monitor, \<open>rect_after\<close> the rectangle after a placement, \<open>enumerated\<close> and \<open>local_windows\<close> what
  the two enumerations of a reconciliation call back with. \<open>lower\<close> and \<open>utf8\<close> are the conversions of text.
\<close>

record os =
  is_window :: "hwnd \<Rightarrow> bool"
  is_iconic :: "hwnd \<Rightarrow> bool"
  is_zoomed :: "hwnd \<Rightarrow> bool"
  is_visible :: "hwnd \<Rightarrow> bool"
  is_cloaked :: "hwnd \<Rightarrow> bool"
  is_tagged :: "hwnd \<Rightarrow> bool"
  process_of :: "hwnd \<Rightarrow> u32"
  process_alive :: "u32 \<Rightarrow> bool"
  process_name :: "u32 \<Rightarrow> wide_string"
  current_process :: u32
  root_of :: "hwnd \<Rightarrow> hwnd"
  owner_of :: "hwnd \<Rightarrow> hwnd"
  style_of :: "hwnd \<Rightarrow> u32"
  ex_style_of :: "hwnd \<Rightarrow> u32"
  class_of :: "hwnd \<Rightarrow> wide_string"
  title_of :: "hwnd \<Rightarrow> wide_string"
  rect_of :: "hwnd \<Rightarrow> rect option"
  rect_after :: "hwnd \<Rightarrow> rect option"
  monitor_near :: "hwnd \<Rightarrow> u64"
  monitor_primary :: "hwnd \<Rightarrow> u64"
  monitor_rect :: "u64 \<Rightarrow> rect option"
  work_area :: "hwnd \<Rightarrow> rect"
  foreground :: hwnd
  enumerated :: "(hwnd \<times> u32 \<times> bool) list"
  enumeration_ok :: bool
  local_windows :: "hwnd list"
  lower :: "16 word \<Rightarrow> 16 word"
  utf8 :: "wide_string \<Rightarrow> string"

definition kWorkspaceCount :: int where "kWorkspaceCount = 4"
definition zero_rect :: rect where "zero_rect = \<lparr>rc_left = 0, rc_top = 0, rc_right = 0, rc_bottom = 0\<rparr>"

definition act :: "wm_action \<Rightarrow> wm \<Rightarrow> wm" where
  "act a s = s\<lparr>wm_actions := wm_actions s @ [a]\<rparr>"

definition notify_changed :: "wm \<Rightarrow> wm" where
  "notify_changed s =
     (let s = s\<lparr>wm_revision := wm_revision s + 1, wm_sequence := wm_sequence s + 1\<rparr>
      in if wm_sink s \<noteq> 0 then act Model_Changed s else s)"

definition set_border_color :: "os \<Rightarrow> hwnd \<Rightarrow> bool \<Rightarrow> wm \<Rightarrow> wm" where
  "set_border_color os w active s = (if w = 0 \<or> \<not> is_window os w then s else act (Border w active) s)"

definition mark_workspace_hidden :: "os \<Rightarrow> hwnd \<Rightarrow> bool \<Rightarrow> wm \<Rightarrow> wm" where
  "mark_workspace_hidden os w hidden s = (if w = 0 \<or> \<not> is_window os w then s else act (Tag w hidden) s)"

definition update_borders :: "os \<Rightarrow> wm \<Rightarrow> wm" where
  "update_borders os s =
     fold (\<lambda>i. set_border_color os (mw_hwnd i) (mw_hwnd i = wm_active s \<and> mw_workspace i = wm_current s)) (wm_windows s) s"

section \<open>Finding and adding windows\<close>

definition find_window :: "hwnd \<Rightarrow> wm \<Rightarrow> managed_window option" where
  "find_window w s = find (\<lambda>i. mw_hwnd i = w) (wm_windows s)"

text \<open>A write through the pointer that \<open>Find\<close> returned: the first window with that handle.\<close>

fun update_first :: "('a \<Rightarrow> bool) \<Rightarrow> ('a \<Rightarrow> 'a) \<Rightarrow> 'a list \<Rightarrow> 'a list" where
  "update_first P f [] = []"
| "update_first P f (x # xs) = (if P x then f x # xs else x # update_first P f xs)"

definition update_window :: "hwnd \<Rightarrow> (managed_window \<Rightarrow> managed_window) \<Rightarrow> wm \<Rightarrow> wm" where
  "update_window w f s = s\<lparr>wm_windows := update_first (\<lambda>i. mw_hwnd i = w) f (wm_windows s)\<rparr>"

definition excluded_classes :: "string list" where
  "excluded_classes = [''CloudOS.NativeShell.Desktop.v2'', ''CloudOS.NativeShell.Taskbar.v2'', ''CloudOS.NativeShell.Start.v2'',
     ''Shell_TrayWnd'', ''Shell_SecondaryTrayWnd'', ''Progman'', ''WorkerW'', ''DV2ControlHost'', ''MultitaskingViewFrame'',
     ''XamlExplorerHostIslandWindow'', ''ForegroundStaging'', ''Shell_InputSwitchTopLevelWindow'', ''Windows.UI.Core.CoreWindow'']"

definition is_excluded_class :: "os \<Rightarrow> hwnd \<Rightarrow> bool" where
  "is_excluded_class os w \<longleftrightarrow> class_of os w \<noteq> [] \<and> class_of os w \<in> set (map wide excluded_classes)"

definition is_manageable :: "os \<Rightarrow> hwnd \<Rightarrow> u32 \<Rightarrow> bool \<Rightarrow> wm \<Rightarrow> bool" where
  "is_manageable os w pid require_visible s =
     (if w = 0 \<or> \<not> is_window os w \<or> pid = 0 \<or> w = wm_sink s \<or> root_of os w \<noteq> w then False
      else if require_visible \<and> \<not> is_visible os w then False
      else if style_of os w AND 0x08000000 \<noteq> 0 \<or> ex_style_of os w AND 0x80 \<noteq> 0 \<or> is_cloaked os w then False
      else if owner_of os w \<noteq> 0 \<and> ex_style_of os w AND 0x40000 = 0 \<and> find_window (owner_of os w) s = None \<and>
         \<not> list_ex (\<lambda>i. mw_process_id i = pid) (wm_windows s) then False
      else if is_excluded_class os w then False
      else if title_of os w = [] then False
      else (case rect_of os w of None \<Rightarrow> False | Some r \<Rightarrow> \<not> (rect_width r < 32 \<or> rect_height r < 32)))"

fun contains_text :: "'a list \<Rightarrow> 'a list \<Rightarrow> bool" where
  "contains_text pat [] = (pat = [])"
| "contains_text pat (c # cs) = (take (length pat) (c # cs) = pat \<or> contains_text pat cs)"

definition classify_window :: "os \<Rightarrow> wide_string \<Rightarrow> wide_string \<Rightarrow> string \<times> string \<times> string list" where
  "classify_window os class_name proc =
     (let common = [''canMinimize'', ''canMaximize'', ''canClose'', ''canMove'', ''canResize''] in
      if class_name = wide ''RAIL_WINDOW'' \<or> contains_text (wide ''RAIL_WINDOW'') class_name \<or>
         proc = wide ''wslhost.exe'' \<or> proc = wide ''msrdc.exe''
      then (''linux'', ''linux:wslg'', ''externalWindow'' # common)
      else if class_name = wide ''FLUTTER_RUNNER_WIN32_WINDOW'' \<or> proc = wide ''cloudos.fluttershell.exe'' \<or>
         proc = wide ''cloudos_flutter_shell.exe''
      then (''cloudos'', ''cloudos:shell'', ''flutterSurface'' # common)
      else (''windows'',
        (if proc = wide ''notepad.exe'' then ''windows:notepad''
         else if proc = wide ''calc.exe'' \<or> proc = wide ''calculatorapp.exe'' then ''windows:calculator''
         else if proc = wide ''code.exe'' then ''windows:vscode''
         else if proc = wide ''explorer.exe'' then ''windows:explorer''
         else ''windows:'' @ utf8 os proc),
        ''nativeManaged'' # common))"

definition new_window :: "os \<Rightarrow> hwnd \<Rightarrow> u32 \<Rightarrow> wm \<Rightarrow> managed_window" where
  "new_window os w pid s =
     (let (platform, app, caps) = classify_window os (class_of os w) (map (lower os) (process_name os pid)) in
      \<lparr>mw_hwnd = w, mw_process_id = pid, mw_workspace = wm_current s, mw_floating = False, mw_hidden = False,
       mw_title = title_of os w, mw_monitor = monitor_near os w, mw_minimized = is_iconic os w,
       mw_bounds = (case rect_of os w of None \<Rightarrow> zero_rect | Some r \<Rightarrow> r), mw_maximized = is_zoomed os w, mw_fullscreen = False,
       mw_platform = platform, mw_app_id = app, mw_owner = owner_of os w, mw_capabilities = caps\<rparr>)"

definition refreshed :: "os \<Rightarrow> managed_window \<Rightarrow> managed_window" where
  "refreshed os i = i\<lparr>mw_title := title_of os (mw_hwnd i), mw_monitor := monitor_near os (mw_hwnd i),
     mw_minimized := is_iconic os (mw_hwnd i), mw_maximized := is_zoomed os (mw_hwnd i),
     mw_bounds := (case rect_of os (mw_hwnd i) of None \<Rightarrow> zero_rect | Some r \<Rightarrow> r)\<rparr>"

definition add_or_refresh :: "os \<Rightarrow> hwnd \<Rightarrow> u32 \<Rightarrow> wm \<Rightarrow> wm" where
  "add_or_refresh os w pid s =
     (if w = 0 \<or> pid = 0 then s
      else case find_window w s of
        Some i \<Rightarrow> if refreshed os i \<noteq> i then notify_changed (update_window w (refreshed os) s) else s
      | None \<Rightarrow>
          if \<not> is_manageable os w pid True s then s
          else notify_changed (s\<lparr>wm_windows := wm_windows s @ [new_window os w pid s]\<rparr>))"

definition remove_window :: "os \<Rightarrow> hwnd \<Rightarrow> wm \<Rightarrow> wm" where
  "remove_window os w s =
     (let s = (if find_window w s \<noteq> None then notify_changed s else s);
          s = s\<lparr>wm_windows := filter (\<lambda>i. mw_hwnd i \<noteq> w) (wm_windows s)\<rparr>;
          s = (if wm_active s = w then s\<lparr>wm_active := 0\<rparr> else s)
      in update_borders os s)"

definition update_foreground :: "os \<Rightarrow> hwnd \<Rightarrow> wm \<Rightarrow> wm" where
  "update_foreground os w s =
     (case find_window w s of
        Some i \<Rightarrow>
          if mw_workspace i = wm_current s then
            if wm_active s = w then s else update_borders os ((notify_changed s)\<lparr>wm_active := w\<rparr>)
          else update_borders os s
      | None \<Rightarrow> update_borders os s)"

definition recover_tagged_window :: "os \<Rightarrow> hwnd \<Rightarrow> wm \<Rightarrow> wm" where
  "recover_tagged_window os w s =
     (if w = 0 \<or> \<not> is_window os w \<or> \<not> is_tagged os w then s
      else act (Show w SW_ShowNA) (mark_workspace_hidden os w False s))"

section \<open>Queries\<close>

definition current_workspace_windows :: "os \<Rightarrow> wm \<Rightarrow> managed_window list" where
  "current_workspace_windows os s =
     filter (\<lambda>i. mw_workspace i = wm_current s \<and> mw_hwnd i \<noteq> 0 \<and> is_window os (mw_hwnd i)) (wm_windows s)"

definition all_managed_windows :: "os \<Rightarrow> wm \<Rightarrow> managed_window list" where
  "all_managed_windows os s =
     map (\<lambda>i. if title_of os (mw_hwnd i) \<noteq> [] then i\<lparr>mw_title := title_of os (mw_hwnd i)\<rparr> else i)
       (filter (\<lambda>i. mw_hwnd i \<noteq> 0 \<and> is_window os (mw_hwnd i)) (wm_windows s))"

definition active_managed_window :: "os \<Rightarrow> wm \<Rightarrow> hwnd" where
  "active_managed_window os s =
     (if wm_active s \<noteq> 0 \<and> find_window (wm_active s) s \<noteq> None then wm_active s
      else case find_window (foreground os) s of
        Some i \<Rightarrow> if mw_workspace i = wm_current s then foreground os else 0
      | None \<Rightarrow> 0)"

definition workspace_for :: "hwnd \<Rightarrow> wm \<Rightarrow> int" where
  "workspace_for w s = (case find_window w s of Some i \<Rightarrow> mw_workspace i | None \<Rightarrow> - 1)"

definition work_area_for :: "os \<Rightarrow> hwnd \<Rightarrow> wm \<Rightarrow> rect" where
  "work_area_for os reference s =
     (let w = (if reference \<noteq> 0 then reference else wm_sink s); area = work_area os w in
      if wm_sink s = 0 \<or> wm_reserved s \<le> 0 then area
      else if monitor_primary os (wm_sink s) = monitor_primary os w
      then area\<lparr>rc_bottom := max (rc_top area) (rc_bottom area - wm_reserved s)\<rparr>
      else area)"

section \<open>Focus and tiling\<close>

text \<open>
  \<open>FocusWindow\<close> returns early for a window of another workspace, but only when the window is managed: for one that is
  not, and that \<open>AddOrRefresh\<close> does not accept, it goes on to read through the null pointer.
\<close>

definition focus_window :: "os \<Rightarrow> hwnd \<Rightarrow> wm \<Rightarrow> wm option" where
  "focus_window os w s =
     (if w = 0 \<or> \<not> is_window os w then Some s
      else let s = (if find_window w s = None \<and> process_of os w \<noteq> 0 then add_or_refresh os w (process_of os w) s else s) in
        case find_window w s of
          None \<Rightarrow> None
        | Some i \<Rightarrow>
            if mw_workspace i \<noteq> wm_current s then Some s
            else let s = (if mw_hidden i
                   then act (Show w SW_ShowNA) (mark_workspace_hidden os w False (update_window w (\<lambda>i. i\<lparr>mw_hidden := False\<rparr>) s))
                   else s);
                  s = (if is_iconic os w then act (Show w SW_Restore) s else s);
                  s = act (Bring_To_Top w) (act (Set_Foreground w) s)
              in Some (update_borders os (s\<lparr>wm_active := w\<rparr>)))"

definition focus_next :: "os \<Rightarrow> bool \<Rightarrow> wm \<Rightarrow> wm option" where
  "focus_next os reverse s =
     (let shown = filter (\<lambda>i. \<not> (mw_hidden i \<or> \<not> is_visible os (mw_hwnd i))) (current_workspace_windows os s);
          hwnds = map mw_hwnd shown; n = length hwnds; active = active_managed_window os s
      in if hwnds = [] then Some s
         else let index = length (takeWhile (\<lambda>w. w \<noteq> active) hwnds);
             next = (if index = n then (if reverse then n - 1 else 0)
                     else if reverse then (if index = 0 then n - 1 else index - 1)
                     else (index + 1) mod n)
           in focus_window os (hwnds ! next) s)"

text \<open>The windows to tile, grouped by monitor in the order in which a monitor first appears.\<close>

type_synonym monitor_group = "u64 \<times> rect \<times> hwnd list"

fun add_to_groups :: "u64 \<Rightarrow> rect \<Rightarrow> hwnd \<Rightarrow> monitor_group list \<Rightarrow> monitor_group list" where
  "add_to_groups m area w [] = [(m, area, [w])]"
| "add_to_groups m area w ((m', a, ws) # gs) =
     (if m' = m then (m', a, ws @ [w]) # gs else (m', a, ws) # add_to_groups m area w gs)"

definition tileable :: "os \<Rightarrow> wm \<Rightarrow> managed_window \<Rightarrow> bool" where
  "tileable os s i \<longleftrightarrow> \<not> (mw_workspace i \<noteq> wm_current s \<or> mw_floating i \<or> mw_hidden i \<or> mw_hwnd i = 0 \<or>
     \<not> is_window os (mw_hwnd i) \<or> is_iconic os (mw_hwnd i))"

definition tile_groups :: "os \<Rightarrow> wm \<Rightarrow> monitor_group list" where
  "tile_groups os s =
     fold (\<lambda>i gs. if tileable os s i then add_to_groups (monitor_near os (mw_hwnd i)) (work_area_for os (mw_hwnd i) s) (mw_hwnd i) gs else gs)
       (wm_windows s) []"

text \<open>\<open>SetWindowPos\<close> with the width and height of a rectangle.\<close>

definition placed :: "rect \<Rightarrow> rect" where
  "placed r = box (rc_left r) (rc_top r) (rect_width r) (rect_height r)"

definition tile_window :: "os \<Rightarrow> rect \<Rightarrow> nat \<Rightarrow> nat \<times> hwnd \<Rightarrow> wm \<Rightarrow> wm" where
  "tile_window os area n iw s =
     (let (i, w) = iw; s = (if is_zoomed os w then act (Show w SW_Restore) s else s)
      in act (Place w (placed (tile_target area n i))) s)"

definition tile_group :: "os \<Rightarrow> monitor_group \<Rightarrow> wm \<Rightarrow> wm" where
  "tile_group os g s =
     (let (m, area, ws) = g in
      if ws = [] \<or> rect_width area \<le> 0 \<or> rect_height area \<le> 0 then s
      else fold (tile_window os area (length ws)) (enumerate 0 ws) s)"

definition tile_current_workspace :: "os \<Rightarrow> wm \<Rightarrow> wm option" where
  "tile_current_workspace os s =
     (if \<not> wm_tiling s then Some s
      else let s = fold (tile_group os) (tile_groups os s) s in
        if wm_active s \<noteq> 0 then focus_window os (wm_active s) s else Some s)"

definition tile_if_enabled :: "os \<Rightarrow> wm \<Rightarrow> wm option" where
  "tile_if_enabled os s = (if wm_tiling s then tile_current_workspace os s else Some s)"

section \<open>Start, stop and events\<close>

definition shutdown_window :: "os \<Rightarrow> managed_window \<Rightarrow> wm \<Rightarrow> wm" where
  "shutdown_window os i s =
     (let w = mw_hwnd i in
      if w = 0 \<or> \<not> is_window os w then s
      else let s = (if mw_hidden i \<or> is_tagged os w then act (Show w SW_ShowNA) (mark_workspace_hidden os w False s) else s)
        in set_border_color os w False s)"

definition shutdown :: "os \<Rightarrow> wm \<Rightarrow> wm" where
  "shutdown os s =
     (let s = fold (shutdown_window os) (wm_windows s) (s\<lparr>wm_watching := False\<rparr>)
      in s\<lparr>wm_windows := [], wm_sink := 0, wm_active := 0\<rparr>)"

definition set_reserved_bottom_pixels :: "int \<Rightarrow> wm \<Rightarrow> wm" where
  "set_reserved_bottom_pixels n s = s\<lparr>wm_reserved := max 0 n\<rparr>"

definition runtime_enumeration :: "os \<Rightarrow> hwnd \<times> u32 \<times> bool \<Rightarrow> wm \<Rightarrow> wm" where
  "runtime_enumeration os wpv s =
     (let (w, pid, visible) = wpv;
          s = (if \<not> visible \<and> is_tagged os w then recover_tagged_window os w s else s)
      in add_or_refresh os w pid s)"

definition local_enumeration :: "os \<Rightarrow> hwnd \<Rightarrow> wm \<Rightarrow> wm" where
  "local_enumeration os w s =
     (if process_of os w = current_process os then add_or_refresh os w (process_of os w) s else s)"

definition enumerate_windows :: "os \<Rightarrow> wm \<Rightarrow> wm" where
  "enumerate_windows os s = fold (local_enumeration os) (local_windows os) (fold (runtime_enumeration os) (enumerated os) s)"

definition initialize :: "os \<Rightarrow> bool \<Rightarrow> hwnd \<Rightarrow> wm \<Rightarrow> (wm \<times> bool) option" where
  "initialize os events_start sink s =
     (let s = shutdown os s in
      if sink = 0 \<or> \<not> is_window os sink then Some (s, False)
      else let s = s\<lparr>wm_sink := sink, wm_windows := [], wm_current := 0, wm_active := 0\<rparr> in
        if \<not> enumeration_ok os then Some ((fold (runtime_enumeration os) (enumerated os) s)\<lparr>wm_sink := 0\<rparr>, False)
        else let s = enumerate_windows os s in
          if \<not> events_start then Some (s\<lparr>wm_windows := [], wm_sink := 0\<rparr>, False)
          else let s = s\<lparr>wm_watching := True\<rparr>;
              s = (if foreground os \<noteq> 0 then update_foreground os (foreground os) s else s)
            in do { s \<leftarrow> tile_if_enabled os s; Some (s, True) })"

datatype window_event = Window_Destroyed | Window_Foreground | Window_Created | Window_Shown | Window_Location | Window_Hidden | Window_Unknown

definition handle_runtime_event :: "os \<Rightarrow> window_event \<Rightarrow> hwnd \<Rightarrow> wm \<Rightarrow> wm option" where
  "handle_runtime_event os kind w s =
     (let add = (\<lambda>s. if w \<noteq> 0 \<and> is_window os w then add_or_refresh os w (process_of os w) s else s);
          s = (case kind of
                 Window_Destroyed \<Rightarrow> remove_window os w s
               | Window_Foreground \<Rightarrow> update_foreground os w (add s)
               | Window_Created \<Rightarrow> add s
               | Window_Shown \<Rightarrow> add s
               | Window_Location \<Rightarrow> add s
               | Window_Hidden \<Rightarrow> if find_window w s \<noteq> None then notify_changed s else s
               | Window_Unknown \<Rightarrow> s)
      in if wm_tiling s \<and> (kind = Window_Created \<or> kind = Window_Shown) then tile_current_workspace os s else Some s)"

definition reconcile :: "os \<Rightarrow> wm \<Rightarrow> wm" where
  "reconcile os s =
     (let s = s\<lparr>wm_windows := filter (\<lambda>i. mw_hwnd i \<noteq> 0 \<and> (is_window os (mw_hwnd i) \<or> process_alive os (mw_process_id i))) (wm_windows s)\<rparr>;
          s = enumerate_windows os s;
          s = (if wm_active s \<noteq> 0 \<and> \<not> is_window os (wm_active s) then s\<lparr>wm_active := 0\<rparr> else s)
      in if foreground os \<noteq> 0 then update_foreground os (foreground os) s else update_borders os s)"

definition fit_window :: "os \<Rightarrow> managed_window \<Rightarrow> wm \<Rightarrow> wm" where
  "fit_window os i s =
     (let w = mw_hwnd i in
      if w = 0 \<or> \<not> is_window os w then s
      else if is_iconic os w \<or> \<not> is_visible os w then s
      else let area = work_area_for os w s in
        if rect_width area \<le> 0 \<or> rect_height area \<le> 0 then s
        else if is_zoomed os w then s
        else (case rect_of os w of None \<Rightarrow> s | Some rc \<Rightarrow> act (Place w (fit_to_area area rc)) s))"

definition handle_display_topology_changed :: "os \<Rightarrow> wm \<Rightarrow> wm" where
  "handle_display_topology_changed os s =
     (let s = reconcile os s; s = fold (fit_window os) (wm_windows s) s
      in notify_changed (update_borders os s))"

section \<open>Commands on the active window\<close>

definition close_active :: "os \<Rightarrow> wm \<Rightarrow> wm" where
  "close_active os s = (let w = active_managed_window os s in if w \<noteq> 0 then act (Post_Close w) s else s)"

definition minimize_active :: "os \<Rightarrow> wm \<Rightarrow> wm" where
  "minimize_active os s = (let w = active_managed_window os s in if w \<noteq> 0 then act (Show w SW_Minimize) s else s)"

definition toggle_maximize_active :: "os \<Rightarrow> wm \<Rightarrow> wm" where
  "toggle_maximize_active os s =
     (let w = active_managed_window os s in
      if w \<noteq> 0 then act (Show w (if is_zoomed os w then SW_Restore else SW_Maximize)) s else s)"

definition snap_active :: "os \<Rightarrow> snap_direction \<Rightarrow> wm \<Rightarrow> wm option" where
  "snap_active os d s =
     (let w = active_managed_window os s in
      if w = 0 \<or> find_window w s = None then Some s
      else let s = (if is_zoomed os w then act (Show w SW_Restore) s else s); area = work_area_for os w s in
        if rect_width area \<le> 0 \<or> rect_height area \<le> 0 then Some s
        else focus_window os w (act (Place w (placed (snap_active_target area d))) (update_window w (\<lambda>i. i\<lparr>mw_floating := True\<rparr>) s)))"

definition toggle_tiling :: "os \<Rightarrow> wm \<Rightarrow> wm option" where
  "toggle_tiling os s = tile_if_enabled os (s\<lparr>wm_tiling := \<not> wm_tiling s\<rparr>)"

definition set_tiling_enabled :: "os \<Rightarrow> bool \<Rightarrow> wm \<Rightarrow> wm option" where
  "set_tiling_enabled os enabled s =
     (if wm_tiling s = enabled then (if enabled then tile_current_workspace os s else Some s)
      else do { s \<leftarrow> tile_if_enabled os (s\<lparr>wm_tiling := enabled\<rparr>); Some (update_borders os s) })"

definition toggle_floating_active :: "os \<Rightarrow> wm \<Rightarrow> wm option" where
  "toggle_floating_active os s =
     (let w = active_managed_window os s in
      if find_window w s = None then Some s
      else tile_if_enabled os (update_window w (\<lambda>i. i\<lparr>mw_floating := \<not> mw_floating i\<rparr>) s))"

text \<open>Several operations look a window up and adopt it when it is not managed yet.\<close>

definition find_or_add :: "os \<Rightarrow> hwnd \<Rightarrow> wm \<Rightarrow> wm" where
  "find_or_add os w s = (if find_window w s = None then add_or_refresh os w (process_of os w) s else s)"

definition set_window_floating :: "os \<Rightarrow> hwnd \<Rightarrow> bool \<Rightarrow> wm \<Rightarrow> wm option" where
  "set_window_floating os w floating s =
     (let s = (if w \<noteq> 0 \<and> is_window os w then find_or_add os w s else s) in
      if find_window w s = None then Some s
      else let s = update_window w (\<lambda>i. i\<lparr>mw_floating := floating\<rparr>) s in
        if wm_tiling s \<and> \<not> floating then tile_current_workspace os s else Some s)"

section \<open>Workspaces\<close>

text \<open>The two loops of \<open>SwitchWorkspace\<close>: the visible windows of the old workspace are hidden, those of the new one shown.\<close>

fun leave_windows :: "os \<Rightarrow> managed_window list \<Rightarrow> wm \<Rightarrow> managed_window list \<times> wm" where
  "leave_windows os [] s = ([], s)"
| "leave_windows os (i # is) s =
     (let w = mw_hwnd i;
          (j, s) = (if w \<noteq> 0 \<and> is_window os w \<and> mw_workspace i = wm_current s \<and> \<not> is_iconic os w \<and> is_visible os w
            then (i\<lparr>mw_hidden := True\<rparr>, act (Show w SW_Hide) (mark_workspace_hidden os w True s)) else (i, s));
          (js, s) = leave_windows os is s
      in (j # js, s))"

fun enter_windows :: "os \<Rightarrow> managed_window list \<Rightarrow> wm \<Rightarrow> managed_window list \<times> wm" where
  "enter_windows os [] s = ([], s)"
| "enter_windows os (i # is) s =
     (let w = mw_hwnd i;
          (j, s) = (if mw_workspace i = wm_current s \<and> mw_hidden i \<and> is_window os w
            then (i\<lparr>mw_hidden := False\<rparr>, act (Show w SW_ShowNA) (mark_workspace_hidden os w False s)) else (i, s));
          (js, s) = enter_windows os is s
      in (j # js, s))"

definition switch_workspace :: "os \<Rightarrow> int \<Rightarrow> wm \<Rightarrow> wm option" where
  "switch_workspace os workspace s =
     (if workspace < 0 \<or> kWorkspaceCount \<le> workspace \<or> workspace = wm_current s then Some s
      else let (is, s) = leave_windows os (wm_windows s) s;
          s = (notify_changed (s\<lparr>wm_windows := is, wm_current := workspace\<rparr>))\<lparr>wm_active := 0\<rparr>;
          (is, s) = enter_windows os (wm_windows s) s;
          s = s\<lparr>wm_windows := is\<rparr>
        in do { s \<leftarrow> tile_if_enabled os s; Some (update_borders os s) })"

definition move_active_to_workspace :: "os \<Rightarrow> int \<Rightarrow> wm \<Rightarrow> wm option" where
  "move_active_to_workspace os workspace s =
     (if workspace < 0 \<or> kWorkspaceCount \<le> workspace then Some s
      else let w = active_managed_window os s in
        case find_window w s of
          None \<Rightarrow> Some s
        | Some i \<Rightarrow>
            if mw_workspace i = workspace then Some s
            else let s = notify_changed (update_window w (\<lambda>i. i\<lparr>mw_workspace := workspace\<rparr>) s);
                s = (if workspace \<noteq> wm_current s \<and> is_window os w
                  then (update_window w (\<lambda>i. i\<lparr>mw_hidden := True\<rparr>) (act (Show w SW_Hide) (mark_workspace_hidden os w True s)))\<lparr>wm_active := 0\<rparr>
                  else s)
              in do { s \<leftarrow> tile_if_enabled os s; Some (update_borders os s) })"

definition move_window_to_workspace :: "os \<Rightarrow> hwnd \<Rightarrow> int \<Rightarrow> wm \<Rightarrow> wm option" where
  "move_window_to_workspace os w workspace0 s =
     (let workspace = clamp workspace0 0 3 in
      if w = 0 \<or> \<not> is_window os w then Some s
      else let s = find_or_add os w s in
        case find_window w s of
          None \<Rightarrow> Some s
        | Some i \<Rightarrow>
            if mw_workspace i = workspace then
              (if workspace = wm_current s \<and> mw_hidden i then
                 let s = update_window w (\<lambda>i. i\<lparr>mw_hidden := False\<rparr>) (mark_workspace_hidden os w False s)
                 in Some (if \<not> is_iconic os w then act (Show w SW_ShowNoActivate) s else s)
               else Some s)
            else let s = update_window w (\<lambda>i. i\<lparr>mw_workspace := workspace\<rparr>) s;
                s = (if workspace \<noteq> wm_current s then
                    let s = act (Show w SW_Hide) (update_window w (\<lambda>i. i\<lparr>mw_hidden := True\<rparr>) (mark_workspace_hidden os w True s))
                    in if wm_active s = w then s\<lparr>wm_active := 0\<rparr> else s
                  else
                    let s = update_window w (\<lambda>i. i\<lparr>mw_hidden := False\<rparr>) (mark_workspace_hidden os w False s)
                    in if \<not> is_visible os w \<and> \<not> is_iconic os w then act (Show w SW_ShowNoActivate) s else s)
              in do { s \<leftarrow> tile_if_enabled os s; Some (update_borders os s) })"

text \<open>
  \<open>RestoreWindowState\<close>; \<open>safe\<close> is what \<open>ValidRestoreBounds\<close> gives for the window and \<open>monitor\<close> the monitor of that
  rectangle. The show command is the number of Windows: 2 and 6 minimise, 3 maximises.
\<close>

definition restore_window_state ::
  "os \<Rightarrow> (hwnd \<Rightarrow> rect \<Rightarrow> rect) \<Rightarrow> (rect \<Rightarrow> u64) \<Rightarrow> hwnd \<Rightarrow> int \<Rightarrow> bool \<Rightarrow> rect \<Rightarrow> u32 \<Rightarrow> wm \<Rightarrow> wm \<times> bool" where
  "restore_window_state os safe_bounds monitor_from_rect w workspace0 floating bounds show s =
     (if w = 0 \<or> \<not> is_window os w then (s, False)
      else let s = find_or_add os w s in
        if find_window w s = None then (s, False)
        else let workspace = clamp workspace0 0 3;
            s = update_window w (\<lambda>i. i\<lparr>mw_workspace := workspace, mw_floating := floating\<rparr>) s;
            safe = safe_bounds w bounds;
            s = (if is_zoomed os w then act (Show w SW_Restore) s else s);
            s = act (Place w (box (rc_left safe) (rc_top safe) (max 1 (rc_right safe - rc_left safe)) (max 1 (rc_bottom safe - rc_top safe)))) s;
            s = update_window w (\<lambda>i. i\<lparr>mw_bounds := safe, mw_monitor := monitor_from_rect safe\<rparr>) s;
            s = (if workspace \<noteq> wm_current s
                 then act (Show w SW_Hide) (update_window w (\<lambda>i. i\<lparr>mw_hidden := True\<rparr>) (mark_workspace_hidden os w True s))
                 else act (Show w (if show = 3 then SW_Maximize else if show = 2 \<or> show = 6 then SW_Minimize else SW_ShowNoActivate))
                   (update_window w (\<lambda>i. i\<lparr>mw_hidden := False\<rparr>) (mark_workspace_hidden os w False s)))
          in (notify_changed (update_borders os s), True))"

section \<open>Commands on a given window\<close>

definition set_state :: "hwnd \<Rightarrow> bool \<Rightarrow> bool \<Rightarrow> bool \<Rightarrow> wm \<Rightarrow> wm" where
  "set_state w minimized maximized fullscreen s =
     update_window w (\<lambda>i. i\<lparr>mw_minimized := minimized, mw_maximized := maximized, mw_fullscreen := fullscreen\<rparr>) s"

definition minimize_window :: "os \<Rightarrow> hwnd \<Rightarrow> wm \<Rightarrow> wm" where
  "minimize_window os w s =
     (if w = 0 \<or> \<not> is_window os w then s
      else notify_changed (set_state w True False False (act (Show w SW_Minimize) s)))"

definition maximize_window :: "os \<Rightarrow> hwnd \<Rightarrow> wm \<Rightarrow> wm" where
  "maximize_window os w s =
     (if w = 0 \<or> \<not> is_window os w then s
      else notify_changed (set_state w False True False (act (Show w SW_Maximize) s)))"

definition restore_window :: "os \<Rightarrow> hwnd \<Rightarrow> wm \<Rightarrow> wm" where
  "restore_window os w s =
     (if w = 0 \<or> \<not> is_window os w then s
      else notify_changed (set_state w False False False (act (Show w SW_Restore) s)))"

definition close_window :: "os \<Rightarrow> hwnd \<Rightarrow> wm \<Rightarrow> wm" where
  "close_window os w s = (if w = 0 \<or> \<not> is_window os w then s else act (Post_Close w) s)"

definition set_window_bounds :: "os \<Rightarrow> hwnd \<Rightarrow> int \<Rightarrow> int \<Rightarrow> int \<Rightarrow> int \<Rightarrow> wm \<Rightarrow> wm \<times> bool" where
  "set_window_bounds os w x y width height s =
     (if w = 0 \<or> \<not> is_window os w then (s, False)
      else let s = (if is_iconic os w \<or> is_zoomed os w then act (Show w SW_Restore) s else s);
          s = act (Place w (box x y width height)) s;
          s = update_window w (\<lambda>i. case rect_after os w of None \<Rightarrow> i | Some r \<Rightarrow> i\<lparr>mw_bounds := r\<rparr>) s;
          s = set_state w False False False s
        in (notify_changed s, True))"

definition snap_window :: "os \<Rightarrow> hwnd \<Rightarrow> u32 \<Rightarrow> wm \<Rightarrow> wm \<times> bool" where
  "snap_window os w snap s =
     (if w = 0 \<or> \<not> is_window os w then (s, False)
      else let area = work_area_for os w s in
        if rect_width area \<le> 0 \<or> rect_height area \<le> 0 then (s, False)
        else (case snap_box area snap of
            Snap_Box r \<Rightarrow> set_window_bounds os w (rc_left r) (rc_top r) (rc_right r - rc_left r) (rc_bottom r - rc_top r) s
          | Snap_Maximize \<Rightarrow> (maximize_window os w s, True)
          | Snap_Restore \<Rightarrow> (restore_window os w s, True)
          | Snap_Refused \<Rightarrow> (s, False)))"

definition set_window_fullscreen :: "os \<Rightarrow> hwnd \<Rightarrow> bool \<Rightarrow> wm \<Rightarrow> wm" where
  "set_window_fullscreen os w fullscreen s =
     (if w = 0 \<or> \<not> is_window os w then s
      else let s = update_window w (\<lambda>i. i\<lparr>mw_fullscreen := fullscreen\<rparr>) s;
          s = (if fullscreen then
                 (case monitor_rect os (monitor_near os w) of None \<Rightarrow> s | Some r \<Rightarrow> act (Place w r) s)
               else restore_window os w s)
        in notify_changed s)"

text \<open>A command that another process sent; the numbers are those of \<open>WindowCommandAction\<close> and \<open>SnapTarget\<close>.\<close>

record window_command =
  wc_schema :: u32
  wc_action :: u32
  wc_hwnd :: hwnd
  wc_x :: int
  wc_y :: int
  wc_width :: int
  wc_height :: int
  wc_workspace :: int
  wc_snap :: u32

definition execute_window_command :: "os \<Rightarrow> window_command \<Rightarrow> wm \<Rightarrow> (wm \<times> bool) option" where
  "execute_window_command os c s =
     (let w = wc_hwnd c in
      if w = 0 \<or> \<not> is_window os w then Some (s, False)
      else if wc_action c = 1 then do { s \<leftarrow> focus_window os w s; Some (s, True) }
      else if wc_action c = 2 then Some (minimize_window os w s, True)
      else if wc_action c = 3 then Some (maximize_window os w s, True)
      else if wc_action c = 4 then Some (restore_window os w s, True)
      else if wc_action c = 5 then Some (close_window os w s, True)
      else if wc_action c = 6 \<or> wc_action c = 7 \<or> wc_action c = 8
        then Some (set_window_bounds os w (wc_x c) (wc_y c) (wc_width c) (wc_height c) s)
      else if wc_action c = 9 then Some (snap_window os w (wc_snap c) s)
      else if wc_action c = 10
        then do { s \<leftarrow> move_window_to_workspace os w (if 0 < wc_workspace c then wc_workspace c - 1 else 0) s; Some (s, True) }
      else if wc_action c = 11 then Some (set_window_fullscreen os w True s, True)
      else Some (s, False))"

section \<open>Any sequence of operations\<close>

datatype wm_op =
    Shutdown
  | Initialize bool hwnd
  | Set_Reserved int
  | Runtime_Event window_event hwnd
  | Reconcile
  | Topology_Changed
  | Focus_Window hwnd
  | Focus_Next bool
  | Close_Active
  | Minimize_Active
  | Toggle_Maximize_Active
  | Snap_Active snap_direction
  | Toggle_Tiling
  | Set_Tiling bool
  | Tile_Current
  | Toggle_Floating_Active
  | Set_Floating hwnd bool
  | Switch_Workspace int
  | Move_Active int
  | Move_Window hwnd int
  | Restore_State "hwnd \<Rightarrow> rect \<Rightarrow> rect" "rect \<Rightarrow> u64" hwnd int bool rect u32
  | Window_Command window_command

fun wm_exec :: "os \<Rightarrow> wm_op \<Rightarrow> wm \<Rightarrow> wm option" where
  "wm_exec os Shutdown s = Some (shutdown os s)"
| "wm_exec os (Initialize events sink) s = map_option fst (initialize os events sink s)"
| "wm_exec os (Set_Reserved n) s = Some (set_reserved_bottom_pixels n s)"
| "wm_exec os (Runtime_Event kind w) s = handle_runtime_event os kind w s"
| "wm_exec os Reconcile s = Some (reconcile os s)"
| "wm_exec os Topology_Changed s = Some (handle_display_topology_changed os s)"
| "wm_exec os (Focus_Window w) s = focus_window os w s"
| "wm_exec os (Focus_Next reverse) s = focus_next os reverse s"
| "wm_exec os Close_Active s = Some (close_active os s)"
| "wm_exec os Minimize_Active s = Some (minimize_active os s)"
| "wm_exec os Toggle_Maximize_Active s = Some (toggle_maximize_active os s)"
| "wm_exec os (Snap_Active d) s = snap_active os d s"
| "wm_exec os Toggle_Tiling s = toggle_tiling os s"
| "wm_exec os (Set_Tiling b) s = set_tiling_enabled os b s"
| "wm_exec os Tile_Current s = tile_current_workspace os s"
| "wm_exec os Toggle_Floating_Active s = toggle_floating_active os s"
| "wm_exec os (Set_Floating w b) s = set_window_floating os w b s"
| "wm_exec os (Switch_Workspace k) s = switch_workspace os k s"
| "wm_exec os (Move_Active k) s = move_active_to_workspace os k s"
| "wm_exec os (Move_Window w k) s = move_window_to_workspace os w k s"
| "wm_exec os (Restore_State safe mon w k floating bounds show) s =
     Some (fst (restore_window_state os safe mon w k floating bounds show s))"
| "wm_exec os (Window_Command c) s = map_option fst (execute_window_command os c s)"

fun wm_run :: "(os \<times> wm_op) list \<Rightarrow> wm \<Rightarrow> wm option" where
  "wm_run [] s = Some s"
| "wm_run ((os, op) # ops) s = do { s \<leftarrow> wm_exec os op s; wm_run ops s }"

definition new_wm :: wm where
  "new_wm = \<lparr>wm_revision = 0, wm_sequence = 1, wm_sink = 0, wm_watching = False, wm_active = 0, wm_current = 0,
     wm_reserved = 58, wm_tiling = False, wm_windows = [], wm_actions = []\<rparr>"

end
