(* ===== verification/Window_Manager_Inv.thy ===== *)
theory Window_Manager_Inv
  imports Window_Manager "HOL-Library.Multiset"
begin

text \<open>
  What holds of the window manager after any sequence of operations, whatever Windows answers: the list has no window
  twice, every window is in one of the four workspaces, the active window is managed. With that, exactly one
  operation can crash. A window hidden by its workspace is not in the current one, and the active window is not
  hidden - unless a window's state was restored, which breaks both.
\<close>

section \<open>Invariants\<close>

definition wm_ok :: "wm \<Rightarrow> bool" where
  "wm_ok s \<longleftrightarrow> distinct (map mw_hwnd (wm_windows s)) \<and>
     (\<forall>i \<in> set (wm_windows s). mw_hwnd i \<noteq> 0 \<and> 0 \<le> mw_workspace i \<and> mw_workspace i \<le> 3) \<and>
     0 \<le> wm_current s \<and> wm_current s \<le> 3 \<and>
     (wm_active s \<noteq> 0 \<longrightarrow> wm_active s \<in> mw_hwnd ` set (wm_windows s))"

text \<open>
  The second group, for the handles of a set \<open>A\<close>: what is hidden is elsewhere, and the active window is not hidden. A
  window that dies while its workspace is away keeps its mark, so in use \<open>A\<close> leaves out the handles that have died;
  with the empty set only the first group remains.
\<close>

definition hidden_elsewhere :: "hwnd set \<Rightarrow> wm \<Rightarrow> bool" where
  "hidden_elsewhere A s \<longleftrightarrow> (\<forall>i \<in> set (wm_windows s). mw_hidden i \<and> mw_hwnd i \<in> A \<longrightarrow>
     mw_workspace i \<noteq> wm_current s \<and> mw_hwnd i \<noteq> wm_active s)"

text \<open>The invariants do not look at the log, the counters and the settings.\<close>

definition same_windows :: "wm \<Rightarrow> wm \<Rightarrow> bool" where
  "same_windows s t \<longleftrightarrow> wm_windows s = wm_windows t \<and> wm_current s = wm_current t \<and> wm_active s = wm_active t"

lemma same_windows_refl [simp]: "same_windows s s"
  by (simp add: same_windows_def)

lemma same_windows_ok: "same_windows s t \<Longrightarrow> wm_ok s = wm_ok t \<and> hidden_elsewhere A s = hidden_elsewhere A t"
  by (simp add: same_windows_def wm_ok_def hidden_elsewhere_def)

lemma act_fields [simp]:
  "wm_windows (act a s) = wm_windows s" "wm_current (act a s) = wm_current s" "wm_active (act a s) = wm_active s"
  "wm_tiling (act a s) = wm_tiling s" "wm_sink (act a s) = wm_sink s" "wm_reserved (act a s) = wm_reserved s"
  "wm_actions (act a s) = wm_actions s @ [a]"
  by (simp_all add: act_def)

lemma notify_fields [simp]:
  "wm_windows (notify_changed s) = wm_windows s" "wm_current (notify_changed s) = wm_current s"
  "wm_active (notify_changed s) = wm_active s" "wm_tiling (notify_changed s) = wm_tiling s"
  "wm_sink (notify_changed s) = wm_sink s" "wm_reserved (notify_changed s) = wm_reserved s"
  by (simp_all add: notify_changed_def Let_def)

lemma mark_fields [simp]:
  "wm_windows (mark_workspace_hidden os w b s) = wm_windows s" "wm_current (mark_workspace_hidden os w b s) = wm_current s"
  "wm_active (mark_workspace_hidden os w b s) = wm_active s" "wm_tiling (mark_workspace_hidden os w b s) = wm_tiling s"
  "wm_sink (mark_workspace_hidden os w b s) = wm_sink s" "wm_reserved (mark_workspace_hidden os w b s) = wm_reserved s"
  by (simp_all add: mark_workspace_hidden_def)

lemma border_fields [simp]:
  "wm_windows (set_border_color os w b s) = wm_windows s" "wm_current (set_border_color os w b s) = wm_current s"
  "wm_active (set_border_color os w b s) = wm_active s" "wm_tiling (set_border_color os w b s) = wm_tiling s"
  "wm_sink (set_border_color os w b s) = wm_sink s" "wm_reserved (set_border_color os w b s) = wm_reserved s"
  by (simp_all add: set_border_color_def)

lemma update_fields [simp]:
  "wm_current (update_window w f s) = wm_current s" "wm_active (update_window w f s) = wm_active s"
  "wm_tiling (update_window w f s) = wm_tiling s" "wm_sink (update_window w f s) = wm_sink s"
  "wm_reserved (update_window w f s) = wm_reserved s"
  by (simp_all add: update_window_def)

lemma fold_field:
  assumes "\<And>x s. F (g x s) = F s"
  shows "F (fold g xs s) = F s"
  by (induction xs arbitrary: s) (simp_all add: assms)

lemma borders_fields [simp]:
  "wm_windows (update_borders os s) = wm_windows s" "wm_current (update_borders os s) = wm_current s"
  "wm_active (update_borders os s) = wm_active s" "wm_tiling (update_borders os s) = wm_tiling s"
  "wm_sink (update_borders os s) = wm_sink s" "wm_reserved (update_borders os s) = wm_reserved s"
  unfolding update_borders_def by (rule fold_field; simp)+

lemma find_window_Some: "find_window w s = Some i \<Longrightarrow> i \<in> set (wm_windows s) \<and> mw_hwnd i = w"
  by (auto simp: find_window_def find_Some_iff)

lemma find_window_None: "find_window w s = None \<longleftrightarrow> w \<notin> mw_hwnd ` set (wm_windows s)"
  by (auto simp: find_window_def find_None_iff)

lemma find_window_ex: "w \<in> mw_hwnd ` set (wm_windows s) \<Longrightarrow> \<exists>i. find_window w s = Some i"
  using find_window_None [of w s] by (cases "find_window w s") auto

section \<open>Updates of one window\<close>

lemma update_first_hwnds: "(\<And>i. mw_hwnd (f i) = mw_hwnd i) \<Longrightarrow> map mw_hwnd (update_first P f xs) = map mw_hwnd xs"
  by (induction xs) auto

lemma update_first_elem: "y \<in> set (update_first P f xs) \<Longrightarrow> y \<in> set xs \<or> (\<exists>x \<in> set xs. P x \<and> y = f x)"
  by (induction xs) (auto split: if_splits)

lemma update_first_distinct:
  "distinct (map mw_hwnd xs) \<Longrightarrow> update_first (\<lambda>i. mw_hwnd i = w) f xs = map (\<lambda>i. if mw_hwnd i = w then f i else i) xs"
proof (induction xs)
  case (Cons x xs)
  show ?case
  proof (cases "mw_hwnd x = w")
    case True
    have "mw_hwnd i \<noteq> w" if "i \<in> set xs" for i
      using imageI [OF that, of mw_hwnd] Cons.prems True by auto
    then have "map (\<lambda>i. if mw_hwnd i = w then f i else i) xs = xs" by (intro map_idI) auto
    with True show ?thesis by simp
  qed (use Cons in simp)
qed simp

lemma update_window_map:
  "wm_ok s \<Longrightarrow> wm_windows (update_window w f s) = map (\<lambda>i. if mw_hwnd i = w then f i else i) (wm_windows s)"
  by (simp add: update_window_def update_first_distinct wm_ok_def)

lemma update_twice:
  assumes "\<And>i. mw_hwnd (f i) = mw_hwnd i"
  shows "update_first (\<lambda>i. mw_hwnd i = w) g (update_first (\<lambda>i. mw_hwnd i = w) f xs) = update_first (\<lambda>i. mw_hwnd i = w) (\<lambda>i. g (f i)) xs"
  by (induction xs) (simp_all add: assms)

lemma update_hwnds [simp]:
  assumes "\<And>i. mw_hwnd (f i) = mw_hwnd i"
  shows "map mw_hwnd (wm_windows (update_window w f s)) = map mw_hwnd (wm_windows s)"
  using update_first_hwnds [of f] assms by (simp add: update_window_def)

text \<open>Both groups at once.\<close>

definition wm_inv :: "hwnd set \<Rightarrow> wm \<Rightarrow> bool" where
  "wm_inv A s \<longleftrightarrow> wm_ok s \<and> hidden_elsewhere A s"

lemma wm_inv_none [simp]: "wm_inv {} s = wm_ok s"
  by (simp add: wm_inv_def hidden_elsewhere_def)

lemma wm_inv_mono: "wm_inv A s \<Longrightarrow> B \<subseteq> A \<Longrightarrow> wm_inv B s"
  by (auto simp: wm_inv_def hidden_elsewhere_def)

lemma wm_inv_same: "same_windows s t \<Longrightarrow> wm_inv A s = wm_inv A t"
  using same_windows_ok by (simp add: wm_inv_def)

lemma wm_inv_simps [simp]:
  "wm_inv A (act a s) = wm_inv A s"
  "wm_inv A (notify_changed s) = wm_inv A s"
  "wm_inv A (mark_workspace_hidden os w h s) = wm_inv A s"
  "wm_inv A (set_border_color os w h s) = wm_inv A s"
  "wm_inv A (update_borders os s) = wm_inv A s"
  "wm_inv A (s\<lparr>wm_tiling := t\<rparr>) = wm_inv A s"
  "wm_inv A (s\<lparr>wm_sink := k\<rparr>) = wm_inv A s"
  "wm_inv A (s\<lparr>wm_watching := t\<rparr>) = wm_inv A s"
  "wm_inv A (s\<lparr>wm_reserved := n\<rparr>) = wm_inv A s"
  by (rule wm_inv_same; simp add: same_windows_def)+

lemma wm_inv_no_active: "wm_inv A s \<Longrightarrow> wm_inv A (s\<lparr>wm_active := 0\<rparr>)"
  by (auto simp: wm_inv_def wm_ok_def hidden_elsewhere_def)

lemma wm_inv_empty: "0 \<le> wm_current s \<Longrightarrow> wm_current s \<le> 3 \<Longrightarrow> wm_windows s = [] \<Longrightarrow> wm_active s = 0 \<Longrightarrow> wm_inv A s"
  by (simp add: wm_inv_def wm_ok_def hidden_elsewhere_def)

lemma wm_inv_update:
  assumes inv: "wm_inv A s" and hw: "\<And>i. mw_hwnd (f i) = mw_hwnd i"
    and ws: "\<And>i. 0 \<le> mw_workspace i \<Longrightarrow> mw_workspace i \<le> 3 \<Longrightarrow> 0 \<le> mw_workspace (f i) \<and> mw_workspace (f i) \<le> 3"
    and hid: "\<And>i. w \<in> A \<Longrightarrow> i \<in> set (wm_windows s) \<Longrightarrow> mw_hwnd i = w \<Longrightarrow> mw_hidden (f i) \<Longrightarrow>
      mw_workspace (f i) \<noteq> wm_current s \<and> w \<noteq> wm_active s"
  shows "wm_inv A (update_window w f s)"
proof -
  have m: "map mw_hwnd (wm_windows (update_window w f s)) = map mw_hwnd (wm_windows s)" using hw by (rule update_hwnds)
  then have st: "mw_hwnd ` set (wm_windows (update_window w f s)) = mw_hwnd ` set (wm_windows s)" by (metis set_map)
  have el: "i \<in> set (wm_windows s) \<or> (\<exists>j \<in> set (wm_windows s). mw_hwnd j = w \<and> i = f j)"
    if "i \<in> set (wm_windows (update_window w f s))" for i
    using that by (auto simp: update_window_def dest!: update_first_elem)
  have "0 \<le> mw_workspace i \<and> mw_workspace i \<le> 3 \<and> mw_hwnd i \<noteq> 0" if "i \<in> set (wm_windows (update_window w f s))" for i
    using el [OF that]
  proof (elim disjE bexE)
    fix j assume "j \<in> set (wm_windows s)" "mw_hwnd j = w \<and> i = f j"
    then show ?thesis using inv ws [of j] hw [of j] by (auto simp: wm_inv_def wm_ok_def)
  qed (use inv in \<open>simp add: wm_inv_def wm_ok_def\<close>)
  then have "wm_ok (update_window w f s)"
    using inv unfolding wm_inv_def wm_ok_def m st by simp
  moreover have "mw_workspace i \<noteq> wm_current s \<and> mw_hwnd i \<noteq> wm_active s"
    if "mw_hwnd i \<in> A" "i \<in> set (wm_windows (update_window w f s))" "mw_hidden i" for i
    using el [OF that(2)]
  proof (elim disjE bexE)
    fix j assume "j \<in> set (wm_windows s)" "mw_hwnd j = w \<and> i = f j"
    then show ?thesis using hid [of j] hw [of j] that by simp
  qed (use inv that in \<open>simp add: wm_inv_def hidden_elsewhere_def\<close>)
  ultimately show ?thesis by (simp add: wm_inv_def hidden_elsewhere_def)
qed

lemma wm_inv_filter:
  assumes "wm_inv A s" "wm_active s \<noteq> 0 \<longrightarrow> (\<forall>i \<in> set (wm_windows s). mw_hwnd i = wm_active s \<longrightarrow> P i)"
  shows "wm_inv A (s\<lparr>wm_windows := filter P (wm_windows s)\<rparr>)"
  using assms by (auto simp: wm_inv_def wm_ok_def hidden_elsewhere_def distinct_map_filter)

lemma wm_inv_refreshed: "wm_inv A s \<Longrightarrow> wm_inv A (update_window w (refreshed os) s)"
  by (rule wm_inv_update) (auto simp: refreshed_def wm_inv_def hidden_elsewhere_def)

lemma is_manageable_new: "is_manageable os w pid v s \<Longrightarrow> w \<noteq> 0"
  by (simp add: is_manageable_def split: if_splits)

lemma wm_inv_add: "wm_inv A s \<Longrightarrow> wm_inv A (add_or_refresh os w pid s)"
proof -
  assume inv: "wm_inv A s"
  have "wm_inv A (s\<lparr>wm_windows := wm_windows s @ [new_window os w pid s]\<rparr>)"
    if "find_window w s = None" "w \<noteq> 0"
    using inv that by (auto simp: wm_inv_def wm_ok_def hidden_elsewhere_def new_window_def find_window_None split: prod.splits)
  then show ?thesis using inv wm_inv_refreshed [OF inv]
    by (auto simp: add_or_refresh_def split: option.splits)
qed

lemma add_keeps [simp]:
  "wm_current (add_or_refresh os w pid s) = wm_current s" "wm_active (add_or_refresh os w pid s) = wm_active s"
  "wm_tiling (add_or_refresh os w pid s) = wm_tiling s"
  by (simp_all add: add_or_refresh_def split: option.splits)

lemma wm_inv_find_or_add: "wm_inv A s \<Longrightarrow> wm_inv A (find_or_add os w s)"
  by (simp add: find_or_add_def wm_inv_add)

lemma find_or_add_keeps [simp]:
  "wm_current (find_or_add os w s) = wm_current s" "wm_active (find_or_add os w s) = wm_active s"
  "wm_tiling (find_or_add os w s) = wm_tiling s"
  by (simp_all add: find_or_add_def)

lemma find_other: "v \<noteq> w \<Longrightarrow> map_option (\<lambda>i. if mw_hwnd i = w then f i else i) (find (\<lambda>i. mw_hwnd i = v) xs) = find (\<lambda>i. mw_hwnd i = v) xs"
proof (cases "find (\<lambda>i. mw_hwnd i = v) xs")
  case (Some i)
  then have "mw_hwnd i = v" by (auto simp: find_Some_iff)
  then show "v \<noteq> w \<Longrightarrow> ?thesis" by (simp add: Some)
qed simp

lemma find_update [simp]:
  assumes "\<And>i. mw_hwnd (f i) = mw_hwnd i"
  shows "find_window v (update_window w f s) =
    map_option (\<lambda>i. if mw_hwnd i = w then f i else i) (find_window v s)"
proof -
  have "find (\<lambda>i. mw_hwnd i = v) (update_first (\<lambda>i. mw_hwnd i = w) f xs) =
      map_option (\<lambda>i. if mw_hwnd i = w then f i else i) (find (\<lambda>i. mw_hwnd i = v) xs)" for xs
  proof (induction xs)
    case (Cons x xs)
    then show ?case using assms find_other [of v w f xs] by (cases "mw_hwnd x = w"; cases "v = w") simp_all
  qed simp
  then show ?thesis by (simp add: find_window_def update_window_def)
qed

section \<open>Every operation keeps them\<close>

text \<open>What \<open>Find\<close> returns is the window, and with distinct handles there is only one.\<close>

lemma find_unique: "wm_ok s \<Longrightarrow> find_window w s = Some i \<Longrightarrow> j \<in> set (wm_windows s) \<Longrightarrow> mw_hwnd j = w \<Longrightarrow> j = i"
  using find_window_Some [of w s i] by (auto simp: wm_ok_def distinct_map inj_on_def)

lemma wm_inv_active:
  "wm_inv A s \<Longrightarrow> find_window w s = Some i \<Longrightarrow> \<not> mw_hidden i \<Longrightarrow> wm_inv A (s\<lparr>wm_active := w\<rparr>)"
  using find_unique [of s w i] find_window_Some [of w s i]
  by (fastforce simp: wm_inv_def wm_ok_def hidden_elsewhere_def)

lemma hidden_not_active: "wm_inv A s \<Longrightarrow> w \<in> A \<Longrightarrow> find_window w s = Some i \<Longrightarrow> mw_hidden i \<Longrightarrow> mw_workspace i \<noteq> wm_current s \<and> w \<noteq> wm_active s"
  using find_window_Some by (fastforce simp: wm_inv_def hidden_elsewhere_def)

lemma find_simps [simp]:
  "find_window w (act a s) = find_window w s"
  "find_window w (notify_changed s) = find_window w s"
  "find_window w (mark_workspace_hidden os v h s) = find_window w s"
  "find_window w (update_borders os s) = find_window w s"
  by (simp_all add: find_window_def)

lemma wm_inv_unhide: "wm_inv A s \<Longrightarrow> wm_inv A (update_window w (\<lambda>i. i\<lparr>mw_hidden := False\<rparr>) s)"
  by (rule wm_inv_update) simp_all

lemma wm_inv_focus:
  assumes inv: "wm_inv A s" and foc: "focus_window os w s = Some t"
  shows "wm_inv A t"
proof -
  define s1 where "s1 = (if find_window w s = None \<and> process_of os w \<noteq> 0 then add_or_refresh os w (process_of os w) s else s)"
  have s1: "wm_inv A s1" using inv wm_inv_add by (simp add: s1_def)
  show ?thesis
  proof (cases "w = 0 \<or> \<not> is_window os w")
    case True
    then show ?thesis using inv foc by (auto simp: focus_window_def)
  next
    case False
    then obtain i where i: "find_window w s1 = Some i" using foc
      by (cases "find_window w s1") (auto simp: focus_window_def s1_def [symmetric] Let_def)
    show ?thesis
    proof (cases "mw_workspace i = wm_current s1")
      case here: True
      define s2 where "s2 = (if mw_hidden i then act (Show w SW_ShowNA) (mark_workspace_hidden os w False
          (update_window w (\<lambda>i. i\<lparr>mw_hidden := False\<rparr>) s1)) else s1)"
      define s3 where "s3 = act (Bring_To_Top w) (act (Set_Foreground w) (if is_iconic os w then act (Show w SW_Restore) s2 else s2))"
      have t: "t = update_borders os (s3\<lparr>wm_active := w\<rparr>)"
        using foc False i here by (simp add: focus_window_def s1_def [symmetric] s2_def [symmetric] s3_def Let_def)
      have "wm_inv A s2" using s1 wm_inv_unhide by (simp add: s2_def)
      then have "wm_inv A s3" by (simp add: s3_def)
      moreover have "\<exists>j. find_window w s2 = Some j \<and> \<not> mw_hidden j"
        using i find_window_Some [OF i] by (simp add: s2_def)
      then have "\<exists>j. find_window w s3 = Some j \<and> \<not> mw_hidden j" by (simp add: s3_def)
      ultimately show ?thesis using t wm_inv_active by auto
    qed (use foc False i s1 in \<open>auto simp: focus_window_def s1_def [symmetric] Let_def\<close>)
  qed
qed

text \<open>The one crash: a live window that is not managed and that the manager does not adopt either.\<close>

lemma focus_crash:
  "focus_window os w s = None \<longleftrightarrow>
     w \<noteq> 0 \<and> is_window os w \<and> find_window w s = None \<and> (process_of os w = 0 \<or> \<not> is_manageable os w (process_of os w) True s)"
proof -
  define s1 where "s1 = (if find_window w s = None \<and> process_of os w \<noteq> 0 then add_or_refresh os w (process_of os w) s else s)"
  have "focus_window os w s = None \<longleftrightarrow> w \<noteq> 0 \<and> is_window os w \<and> find_window w s1 = None"
    by (simp add: focus_window_def s1_def [symmetric] Let_def split: option.split)
  moreover have "find_window w (s\<lparr>wm_windows := wm_windows s @ [new_window os w pid s]\<rparr>) \<noteq> None" for pid
    by (simp only: find_window_None) (simp add: new_window_def split: prod.split)
  then have "find_window w s1 = None \<longleftrightarrow>
      find_window w s = None \<and> (process_of os w = 0 \<or> \<not> is_manageable os w (process_of os w) True s)" if "w \<noteq> 0"
    using that by (cases "find_window w s") (simp_all add: s1_def add_or_refresh_def)
  ultimately show ?thesis by blast
qed

lemma focus_managed: "find_window w s \<noteq> None \<Longrightarrow> \<exists>t. focus_window os w s = Some t"
  using focus_crash [of os w s] by auto

lemma wm_inv_fold: "(\<And>x s. wm_inv A s \<Longrightarrow> wm_inv A (f x s)) \<Longrightarrow> wm_inv A s \<Longrightarrow> wm_inv A (fold f xs s)"
  by (induction xs arbitrary: s) simp_all

lemma tile_keeps [simp]:
  "wm_windows (tile_group os g s) = wm_windows s" "wm_active (tile_group os g s) = wm_active s"
  "wm_current (tile_group os g s) = wm_current s"
proof -
  have w: "wm_windows (tile_window os a n iw s) = wm_windows s \<and> wm_active (tile_window os a n iw s) = wm_active s \<and>
      wm_current (tile_window os a n iw s) = wm_current s" for a n iw s
    by (simp add: tile_window_def Let_def split: prod.split)
  show "wm_windows (tile_group os g s) = wm_windows s" "wm_active (tile_group os g s) = wm_active s"
    "wm_current (tile_group os g s) = wm_current s"
    by (simp_all add: tile_group_def w fold_field split: prod.split)
qed

lemma tile_fold_same: "same_windows (fold (tile_group os) gs s) s"
  unfolding same_windows_def by (intro conjI) (rule fold_field; simp)+

text \<open>Tiling ends by focusing the active window, which is managed: it does not crash.\<close>

lemma tile_current:
  assumes "wm_inv A s"
  shows "\<exists>t. tile_current_workspace os s = Some t \<and> wm_inv A t"
proof -
  define t where "t = fold (tile_group os) (tile_groups os s) s"
  have same: "same_windows t s" by (simp add: t_def tile_fold_same)
  then have t: "wm_inv A t" using wm_inv_same assms by blast
  show ?thesis
  proof (cases "wm_tiling s \<and> wm_active t \<noteq> 0")
    case True
    then have "find_window (wm_active t) t \<noteq> None" using t by (auto simp: wm_inv_def wm_ok_def find_window_None)
    then obtain u where u: "focus_window os (wm_active t) t = Some u" using focus_managed by blast
    then have "tile_current_workspace os s = Some u" using True by (simp add: tile_current_workspace_def t_def [symmetric] Let_def)
    then show ?thesis using wm_inv_focus [OF t u] by blast
  qed (use assms t in \<open>auto simp: tile_current_workspace_def t_def [symmetric] Let_def\<close>)
qed

lemma tile_if: "wm_inv A s \<Longrightarrow> \<exists>t. tile_if_enabled os s = Some t \<and> wm_inv A t"
  using tile_current [of A s os] by (simp add: tile_if_enabled_def)

lemma swap_updates: "s\<lparr>wm_windows := xs, wm_active := a\<rparr> = s\<lparr>wm_active := a, wm_windows := xs\<rparr>" for s :: wm
  by simp

lemma wm_inv_remove: "wm_inv A s \<Longrightarrow> wm_inv A (remove_window os w s)"
proof -
  assume "wm_inv A s"
  moreover define s1 where "s1 = (if find_window w s \<noteq> None then notify_changed s else s)"
  ultimately have s1: "wm_inv A s1" by simp
  let ?t = "s1\<lparr>wm_windows := filter (\<lambda>i. mw_hwnd i \<noteq> w) (wm_windows s1)\<rparr>"
  have rm: "remove_window os w s = update_borders os (if wm_active ?t = w then ?t\<lparr>wm_active := 0\<rparr> else ?t)"
    unfolding remove_window_def s1_def Let_def by (rule refl)
  show ?thesis
  proof (cases "wm_active s1 = w")
    case True
    have "wm_inv A ((s1\<lparr>wm_active := 0\<rparr>)\<lparr>wm_windows := filter (\<lambda>i. mw_hwnd i \<noteq> w) (wm_windows s1)\<rparr>)"
      using wm_inv_filter [OF wm_inv_no_active [OF s1], of "\<lambda>i. mw_hwnd i \<noteq> w"] by simp
    then show ?thesis using True by (simp add: rm swap_updates)
  next
    case False
    then have "wm_inv A (s1\<lparr>wm_windows := filter (\<lambda>i. mw_hwnd i \<noteq> w) (wm_windows s1)\<rparr>)"
      by (intro wm_inv_filter [OF s1]) auto
    then show ?thesis using False by (simp add: rm)
  qed
qed

lemma wm_inv_foreground: "wm_inv A s \<Longrightarrow> wm_inv A (update_foreground os w s)"
proof -
  assume inv: "wm_inv A s"
  have "wm_inv A ((notify_changed s)\<lparr>wm_active := w\<rparr>)" if "find_window w s = Some i" "mw_workspace i = wm_current s" for i
  proof -
    have "w \<in> A \<Longrightarrow> \<not> mw_hidden i" using hidden_not_active [OF inv] that by auto
    then show ?thesis using inv that find_unique [of s w] find_window_Some [OF that(1)]
      by (fastforce simp: wm_inv_def wm_ok_def hidden_elsewhere_def)
  qed
  then show ?thesis using inv by (auto simp: update_foreground_def split: option.split)
qed

lemma wm_inv_enumerate: "wm_inv A s \<Longrightarrow> wm_inv A (enumerate_windows os s)"
  unfolding enumerate_windows_def
  by (intro wm_inv_fold)
     (auto simp: runtime_enumeration_def local_enumeration_def recover_tagged_window_def wm_inv_add Let_def split: prod.split)

text \<open>Adding windows does not look at the active one.\<close>

lemma new_window_active [simp]: "new_window os w pid (s\<lparr>wm_active := a\<rparr>) = new_window os w pid s"
  by (simp add: new_window_def)

lemma find_active [simp]: "find_window w (s\<lparr>wm_active := a\<rparr>) = find_window w s"
  by (simp add: find_window_def)

lemma commute_active:
  "act x (s\<lparr>wm_active := a\<rparr>) = (act x s)\<lparr>wm_active := a\<rparr>"
  "notify_changed (s\<lparr>wm_active := a\<rparr>) = (notify_changed s)\<lparr>wm_active := a\<rparr>"
  "mark_workspace_hidden os w h (s\<lparr>wm_active := a\<rparr>) = (mark_workspace_hidden os w h s)\<lparr>wm_active := a\<rparr>"
  "update_window w f (s\<lparr>wm_active := a\<rparr>) = (update_window w f s)\<lparr>wm_active := a\<rparr>"
  "is_manageable os w pid v (s\<lparr>wm_active := a\<rparr>) = is_manageable os w pid v s"
  by (simp_all add: act_def notify_changed_def mark_workspace_hidden_def update_window_def is_manageable_def Let_def)

lemma add_active: "add_or_refresh os w pid (s\<lparr>wm_active := a\<rparr>) = (add_or_refresh os w pid s)\<lparr>wm_active := a\<rparr>"
  by (simp add: add_or_refresh_def commute_active swap_updates [symmetric] split: option.split)

lemma fold_commute_active:
  "(\<And>x s. f x (s\<lparr>wm_active := a\<rparr>) = (f x s)\<lparr>wm_active := a\<rparr>) \<Longrightarrow> fold f xs (s\<lparr>wm_active := a\<rparr>) = (fold f xs s)\<lparr>wm_active := a\<rparr>"
  by (induction xs arbitrary: s) simp_all

lemma enumerate_active: "enumerate_windows os (s\<lparr>wm_active := a\<rparr>) = (enumerate_windows os s)\<lparr>wm_active := a\<rparr>"
proof -
  have "runtime_enumeration os x (s\<lparr>wm_active := a\<rparr>) = (runtime_enumeration os x s)\<lparr>wm_active := a\<rparr>" for x s
    by (simp add: runtime_enumeration_def recover_tagged_window_def add_active commute_active Let_def split: prod.split)
  moreover have "local_enumeration os x (s\<lparr>wm_active := a\<rparr>) = (local_enumeration os x s)\<lparr>wm_active := a\<rparr>" for x s
    by (simp add: local_enumeration_def add_active)
  ultimately show ?thesis by (simp add: enumerate_windows_def fold_commute_active)
qed

lemma enumerate_keeps [simp]:
  "wm_active (enumerate_windows os s) = wm_active s" "wm_current (enumerate_windows os s) = wm_current s"
proof -
  have "wm_active (runtime_enumeration os x s) = wm_active s \<and> wm_current (runtime_enumeration os x s) = wm_current s" for x s
    by (simp add: runtime_enumeration_def recover_tagged_window_def Let_def split: prod.split)
  moreover have "wm_active (local_enumeration os x s) = wm_active s \<and> wm_current (local_enumeration os x s) = wm_current s" for x s
    by (simp add: local_enumeration_def)
  ultimately show "wm_active (enumerate_windows os s) = wm_active s" "wm_current (enumerate_windows os s) = wm_current s"
    by (simp_all add: enumerate_windows_def fold_field)
qed

lemma wm_inv_reconcile: "wm_inv A s \<Longrightarrow> wm_inv A (reconcile os s)"
proof -
  assume inv: "wm_inv A s"
  let ?P = "\<lambda>i. mw_hwnd i \<noteq> 0 \<and> (is_window os (mw_hwnd i) \<or> process_alive os (mw_process_id i))"
  define s1 where "s1 = s\<lparr>wm_windows := filter ?P (wm_windows s)\<rparr>"
  define s2 where "s2 = enumerate_windows os s1"
  define s3 where "s3 = (if wm_active s2 \<noteq> 0 \<and> \<not> is_window os (wm_active s2) then s2\<lparr>wm_active := 0\<rparr> else s2)"
  have "wm_inv A s3"
  proof (cases "wm_active s \<noteq> 0 \<and> \<not> is_window os (wm_active s)")
    case True
    then have "s3 = enumerate_windows os (s1\<lparr>wm_active := 0\<rparr>)" by (simp add: s3_def s2_def s1_def enumerate_active)
    moreover have "wm_inv A (s1\<lparr>wm_active := 0\<rparr>)"
      using wm_inv_filter [OF wm_inv_no_active [OF inv], of ?P] by (simp add: s1_def swap_updates)
    ultimately show ?thesis using wm_inv_enumerate by simp
  next
    case False
    then have "wm_inv A s1" unfolding s1_def by (intro wm_inv_filter [OF inv]) auto
    moreover have "s3 = enumerate_windows os s1" using False by (auto simp: s3_def s2_def s1_def)
    ultimately show ?thesis using wm_inv_enumerate by simp
  qed
  moreover have "reconcile os s = (if foreground os \<noteq> 0 then update_foreground os (foreground os) s3 else update_borders os s3)"
    unfolding reconcile_def s1_def s2_def s3_def Let_def by (rule refl)
  ultimately show ?thesis using wm_inv_foreground by simp
qed

lemma wm_inv_topology: "wm_inv A s \<Longrightarrow> wm_inv A (handle_display_topology_changed os s)"
proof -
  assume "wm_inv A s"
  then have "wm_inv A (fold (fit_window os) (wm_windows (reconcile os s)) (reconcile os s))"
    by (intro wm_inv_fold wm_inv_reconcile) (simp add: fit_window_def Let_def split: option.split)
  then show ?thesis by (simp add: handle_display_topology_changed_def Let_def)
qed

text \<open>The loops of a switch: what becomes of each window.\<close>

definition leaves :: "os \<Rightarrow> int \<Rightarrow> managed_window \<Rightarrow> bool" where
  "leaves os c i \<longleftrightarrow> mw_hwnd i \<noteq> 0 \<and> is_window os (mw_hwnd i) \<and> mw_workspace i = c \<and>
     \<not> is_iconic os (mw_hwnd i) \<and> is_visible os (mw_hwnd i)"

definition enters :: "os \<Rightarrow> int \<Rightarrow> managed_window \<Rightarrow> bool" where
  "enters os c i \<longleftrightarrow> mw_workspace i = c \<and> mw_hidden i \<and> is_window os (mw_hwnd i)"

lemma leave_windows_map:
  "fst (leave_windows os is s) = map (\<lambda>i. if leaves os (wm_current s) i then i\<lparr>mw_hidden := True\<rparr> else i) is \<and>
   same_windows (snd (leave_windows os is s)) s \<and> wm_tiling (snd (leave_windows os is s)) = wm_tiling s"
proof (induction "is" arbitrary: s)
  case (Cons i "is")
  let ?s = "if leaves os (wm_current s) i then act (Show (mw_hwnd i) SW_Hide) (mark_workspace_hidden os (mw_hwnd i) True s) else s"
  have "leave_windows os (i # is) s =
      ((if leaves os (wm_current s) i then i\<lparr>mw_hidden := True\<rparr> else i) # fst (leave_windows os is ?s), snd (leave_windows os is ?s))"
    by (simp add: leaves_def Let_def split: prod.split)
  with Cons.IH [of ?s] show ?case by (simp add: same_windows_def)
qed simp

lemma enter_windows_map:
  "fst (enter_windows os is s) = map (\<lambda>i. if enters os (wm_current s) i then i\<lparr>mw_hidden := False\<rparr> else i) is \<and>
   same_windows (snd (enter_windows os is s)) s \<and> wm_tiling (snd (enter_windows os is s)) = wm_tiling s"
proof (induction "is" arbitrary: s)
  case (Cons i "is")
  let ?s = "if enters os (wm_current s) i then act (Show (mw_hwnd i) SW_ShowNA) (mark_workspace_hidden os (mw_hwnd i) False s) else s"
  have "enter_windows os (i # is) s =
      ((if enters os (wm_current s) i then i\<lparr>mw_hidden := False\<rparr> else i) # fst (enter_windows os is ?s), snd (enter_windows os is ?s))"
    by (simp add: enters_def Let_def split: prod.split)
  with Cons.IH [of ?s] show ?case by (simp add: same_windows_def)
qed simp

definition switched :: "os \<Rightarrow> int \<Rightarrow> int \<Rightarrow> managed_window \<Rightarrow> managed_window" where
  "switched os old new i =
     (let j = (if leaves os old i then i\<lparr>mw_hidden := True\<rparr> else i) in if enters os new j then j\<lparr>mw_hidden := False\<rparr> else j)"

text \<open>The state in which \<open>SwitchWorkspace\<close> tiles.\<close>

lemma switch_workspace_before_tiling:
  assumes "0 \<le> workspace" "workspace < 4" "workspace \<noteq> wm_current s"
  shows "\<exists>t. wm_windows t = map (switched os (wm_current s) workspace) (wm_windows s) \<and> wm_current t = workspace \<and>
    wm_active t = 0 \<and> wm_tiling t = wm_tiling s \<and>
    switch_workspace os workspace s = do { u \<leftarrow> tile_if_enabled os t; Some (update_borders os u) }"
proof -
  obtain is1 s1 where l: "leave_windows os (wm_windows s) s = (is1, s1)" by fastforce
  define s2 where "s2 = (notify_changed (s1\<lparr>wm_windows := is1, wm_current := workspace\<rparr>))\<lparr>wm_active := 0\<rparr>"
  obtain is2 s3 where e: "enter_windows os (wm_windows s2) s2 = (is2, s3)" by fastforce
  note lm = leave_windows_map [of os "wm_windows s" s, unfolded l fst_conv snd_conv]
  note em = enter_windows_map [of os "wm_windows s2" s2, unfolded e fst_conv snd_conv]
  have w2: "wm_windows s2 = is1" "wm_current s2 = workspace" "wm_active s2 = 0" "wm_tiling s2 = wm_tiling s1"
    by (simp_all add: s2_def)
  let ?t = "s3\<lparr>wm_windows := is2\<rparr>"
  have "wm_windows ?t = map (switched os (wm_current s) workspace) (wm_windows s)"
    using lm em w2 by (simp add: switched_def Let_def comp_def)
  moreover have "wm_current ?t = workspace" "wm_active ?t = 0" "wm_tiling ?t = wm_tiling s"
    using lm em w2 by (simp_all add: same_windows_def)
  moreover have "switch_workspace os workspace s = do { u \<leftarrow> tile_if_enabled os ?t; Some (update_borders os u) }"
    using assms by (simp add: switch_workspace_def kWorkspaceCount_def l s2_def [symmetric] e [unfolded w2(1)] w2 Let_def)
  ultimately show ?thesis by blast
qed

lemma switched_fields [simp]: "mw_hwnd (switched os a c i) = mw_hwnd i" "mw_workspace (switched os a c i) = mw_workspace i"
  by (simp_all add: switched_def Let_def)

text \<open>A window of the new workspace stays hidden only when it no longer exists.\<close>

lemma switched_hidden:
  "mw_workspace i = new \<Longrightarrow> mw_hidden (switched os old new i) \<longleftrightarrow> mw_hidden (if leaves os old i then i\<lparr>mw_hidden := True\<rparr> else i) \<and> \<not> is_window os (mw_hwnd i)"
  by (auto simp: switched_def enters_def Let_def)

lemma tile_then_borders: "wm_inv A s \<Longrightarrow> \<exists>t. do { u \<leftarrow> tile_if_enabled os s; Some (update_borders os u) } = Some t \<and> wm_inv A t"
  using tile_if [of A s os] by auto

lemma wm_inv_switch:
  assumes inv: "wm_inv A s" and live: "\<And>i. i \<in> set (wm_windows s) \<Longrightarrow> mw_hwnd i \<in> A \<Longrightarrow> is_window os (mw_hwnd i)"
  shows "\<exists>t. switch_workspace os workspace s = Some t \<and> wm_inv A t"
proof (cases "0 \<le> workspace \<and> workspace < 4 \<and> workspace \<noteq> wm_current s")
  case True
  then obtain t where t: "wm_windows t = map (switched os (wm_current s) workspace) (wm_windows s)" "wm_current t = workspace"
      "wm_active t = 0" "switch_workspace os workspace s = do { u \<leftarrow> tile_if_enabled os t; Some (update_borders os u) }"
    using switch_workspace_before_tiling by blast
  have hw: "map mw_hwnd (wm_windows t) = map mw_hwnd (wm_windows s)" by (simp add: t(1) comp_def)
  have "wm_ok t" unfolding wm_ok_def hw using inv True by (auto simp: t wm_inv_def wm_ok_def)
  moreover have "hidden_elsewhere A t"
    using inv live by (auto simp: t wm_inv_def wm_ok_def hidden_elsewhere_def switched_hidden)
  ultimately have "wm_inv A t" by (simp add: wm_inv_def)
  then show ?thesis unfolding t(4) by (rule tile_then_borders)
next
  case False
  with inv show ?thesis by (auto simp: switch_workspace_def kWorkspaceCount_def)
qed

text \<open>Moving a window to another workspace and hiding it there, when it is not the active one.\<close>

lemma wm_inv_move_hide:
  "wm_inv A s \<Longrightarrow> 0 \<le> k \<Longrightarrow> k \<le> 3 \<Longrightarrow> k \<noteq> wm_current s \<Longrightarrow> w \<noteq> wm_active s \<Longrightarrow>
     wm_inv A (update_window w (\<lambda>i. i\<lparr>mw_hidden := True\<rparr>) (update_window w (\<lambda>i. i\<lparr>mw_workspace := k\<rparr>) s))"
proof -
  assume a: "wm_inv A s" "0 \<le> k" "k \<le> 3" "k \<noteq> wm_current s" "w \<noteq> wm_active s"
  have inv1: "wm_inv A (update_window w (\<lambda>i. i\<lparr>mw_workspace := k\<rparr>) s)" by (rule wm_inv_update [OF a(1)]) (use a in simp_all)
  have wsk: "mw_workspace i = k" if "i \<in> set (wm_windows (update_window w (\<lambda>i. i\<lparr>mw_workspace := k\<rparr>) s))" "mw_hwnd i = w" for i
  proof -
    have "i \<in> (\<lambda>i. if mw_hwnd i = w then i\<lparr>mw_workspace := k\<rparr> else i) ` set (wm_windows s)"
      using that(1) a(1) by (simp only: update_window_map wm_inv_def set_map)
    then obtain j where "i = (if mw_hwnd j = w then j\<lparr>mw_workspace := k\<rparr> else j)" by blast
    then show ?thesis using that(2) by (cases "mw_hwnd j = w") simp_all
  qed
  show ?thesis by (rule wm_inv_update [OF inv1]) (simp_all add: wsk a(4,5))
qed

lemma wm_inv_workspace:
  "wm_inv A s \<Longrightarrow> 0 \<le> k \<Longrightarrow> k \<le> 3 \<Longrightarrow> (\<And>i. i \<in> set (wm_windows s) \<Longrightarrow> mw_hwnd i = w \<Longrightarrow> w \<in> A \<Longrightarrow> \<not> mw_hidden i) \<Longrightarrow>
     wm_inv A (update_window w (\<lambda>i. i\<lparr>mw_workspace := k\<rparr>) s)"
  by (rule wm_inv_update) auto

lemma update_commute_active: "update_window w f (s\<lparr>wm_active := a\<rparr>) = (update_window w f s)\<lparr>wm_active := a\<rparr>"
  by (simp add: update_window_def)

lemma update_act [simp]:
  "wm_inv A (update_window w f (act a s)) = wm_inv A (update_window w f s)"
  "wm_inv A (update_window w f (mark_workspace_hidden os v h s)) = wm_inv A (update_window w f s)"
  "wm_inv A (update_window w f (notify_changed s)) = wm_inv A (update_window w f s)"
  by (rule wm_inv_same; simp add: same_windows_def update_window_def)+

text \<open>The other operations that can end in tiling or in a focus.\<close>

lemma active_managed: "active_managed_window os s \<noteq> 0 \<Longrightarrow> find_window (active_managed_window os s) s \<noteq> None"
  by (auto simp: active_managed_window_def split: if_splits option.splits)

lemma active_shown:
  assumes inv: "wm_inv A s" and f: "find_window (active_managed_window os s) s = Some i" and A: "active_managed_window os s \<in> A"
  shows "\<not> mw_hidden i"
proof
  assume "mw_hidden i"
  then have "mw_workspace i \<noteq> wm_current s" "active_managed_window os s \<noteq> wm_active s"
    using hidden_not_active [OF inv A f] by auto
  with f show False
    using inv find_window_Some [OF f]
    by (auto simp: active_managed_window_def wm_inv_def wm_ok_def split: if_splits option.splits)
qed

lemma wm_inv_floating: "wm_inv A s \<Longrightarrow> (\<And>i. mw_hwnd (f i) = mw_hwnd i \<and> mw_workspace (f i) = mw_workspace i \<and> mw_hidden (f i) = mw_hidden i) \<Longrightarrow>
   wm_inv A (update_window w f s)"
  by (rule wm_inv_update) (auto simp: wm_inv_def hidden_elsewhere_def)

lemma wm_inv_snap_active: "wm_inv A s \<Longrightarrow> \<exists>t. snap_active os d s = Some t \<and> wm_inv A t"
proof -
  assume inv: "wm_inv A s"
  define w where "w = active_managed_window os s"
  define s1 where "s1 = (if is_zoomed os w then act (Show w SW_Restore) s else s)"
  define s2 where "s2 = act (Place w (placed (snap_active_target (work_area_for os w s1) d))) (update_window w (\<lambda>i. i\<lparr>mw_floating := True\<rparr>) s1)"
  have s1: "wm_inv A s1" using inv by (simp add: s1_def)
  have s2: "wm_inv A s2" using wm_inv_floating [OF s1, of "\<lambda>i. i\<lparr>mw_floating := True\<rparr>"] by (simp add: s2_def)
  have eq: "snap_active os d s = (if w = 0 \<or> find_window w s = None then Some s
      else if rect_width (work_area_for os w s1) \<le> 0 \<or> rect_height (work_area_for os w s1) \<le> 0 then Some s1 else focus_window os w s2)"
    unfolding snap_active_def w_def s1_def s2_def Let_def by (rule refl)
  have "\<exists>t. focus_window os w s2 = Some t" if "find_window w s \<noteq> None"
    using that focus_managed [of w s2 os] by (auto simp: s2_def s1_def)
  then show ?thesis using eq inv s1 wm_inv_focus [OF s2] by auto
qed

lemma wm_inv_focus_next: "wm_inv A s \<Longrightarrow> \<exists>t. focus_next os r s = Some t \<and> wm_inv A t"
proof -
  assume inv: "wm_inv A s"
  define hs where "hs = map mw_hwnd (filter (\<lambda>i. \<not> (mw_hidden i \<or> \<not> is_visible os (mw_hwnd i))) (current_workspace_windows os s))"
  define k where "k = length (takeWhile (\<lambda>w. w \<noteq> active_managed_window os s) hs)"
  define n where "n = (if k = length hs then (if r then length hs - 1 else 0)
      else if r then (if k = 0 then length hs - 1 else k - 1) else (k + 1) mod length hs)"
  have eq: "focus_next os r s = (if hs = [] then Some s else focus_window os (hs ! n) s)"
    unfolding focus_next_def hs_def k_def n_def Let_def by (rule refl)
  show ?thesis
  proof (cases "hs = []")
    case False
    have "k \<le> length hs" by (simp add: k_def length_takeWhile_le)
    with False have "n < length hs" by (auto simp: n_def)
    then have "hs ! n \<in> set hs" by simp
    then have "hs ! n \<in> mw_hwnd ` set (wm_windows s)" by (auto simp: hs_def current_workspace_windows_def)
    then have "find_window (hs ! n) s \<noteq> None" using find_window_ex by fastforce
    then obtain t where t: "focus_window os (hs ! n) s = Some t" using focus_managed by blast
    with False eq wm_inv_focus [OF inv t] show ?thesis by simp
  qed (use inv eq in simp)
qed

lemma wm_inv_set_tiling: "wm_inv A s \<Longrightarrow> \<exists>t. set_tiling_enabled os e s = Some t \<and> wm_inv A t"
  using tile_current [of A s os] tile_then_borders [of A "s\<lparr>wm_tiling := e\<rparr>" os] by (auto simp: set_tiling_enabled_def)

lemma wm_inv_set_floating: "wm_inv A s \<Longrightarrow> \<exists>t. set_window_floating os w e s = Some t \<and> wm_inv A t"
proof -
  assume inv: "wm_inv A s"
  define s1 where "s1 = (if w \<noteq> 0 \<and> is_window os w then find_or_add os w s else s)"
  have s1: "wm_inv A s1" using inv wm_inv_find_or_add by (simp add: s1_def)
  then have s2: "wm_inv A (update_window w (\<lambda>i. i\<lparr>mw_floating := e\<rparr>) s1)" by (rule wm_inv_floating) simp
  have "set_window_floating os w e s = (if find_window w s1 = None then Some s1
      else if wm_tiling (update_window w (\<lambda>i. i\<lparr>mw_floating := e\<rparr>) s1) \<and> \<not> e
        then tile_current_workspace os (update_window w (\<lambda>i. i\<lparr>mw_floating := e\<rparr>) s1)
        else Some (update_window w (\<lambda>i. i\<lparr>mw_floating := e\<rparr>) s1))"
    unfolding set_window_floating_def s1_def Let_def by (rule refl)
  then show ?thesis using s1 s2 tile_current [OF s2, of os] by auto
qed

lemma wm_inv_toggle_floating: "wm_inv A s \<Longrightarrow> \<exists>t. toggle_floating_active os s = Some t \<and> wm_inv A t"
proof -
  assume inv: "wm_inv A s"
  have "wm_inv A (update_window w (\<lambda>i. i\<lparr>mw_floating := \<not> mw_floating i\<rparr>) s)" for w
    using inv by (rule wm_inv_floating) simp
  then show ?thesis using inv tile_if by (simp add: toggle_floating_active_def Let_def)
qed

lemma wm_inv_move_active: "wm_inv A s \<Longrightarrow> \<exists>t. move_active_to_workspace os k s = Some t \<and> wm_inv A t"
proof (cases "0 \<le> k \<and> k < 4")
  case k: True
  assume inv: "wm_inv A s"
  define w where "w = active_managed_window os s"
  show ?thesis
  proof (cases "find_window w s")
    case None
    then show ?thesis using inv k by (simp add: move_active_to_workspace_def w_def [symmetric] kWorkspaceCount_def Let_def)
  next
    case (Some i)
    have shown: "\<not> mw_hidden j" if "j \<in> set (wm_windows s)" "mw_hwnd j = w" "w \<in> A" for j
      using active_shown [OF inv Some [unfolded w_def]] find_unique [OF _ Some that(1,2)] that(3) inv
      by (simp add: w_def wm_inv_def)
    define s1 where "s1 = notify_changed (update_window w (\<lambda>i. i\<lparr>mw_workspace := k\<rparr>) s)"
    define s2 where "s2 = (if k \<noteq> wm_current s1 \<and> is_window os w
        then (update_window w (\<lambda>i. i\<lparr>mw_hidden := True\<rparr>) (act (Show w SW_Hide) (mark_workspace_hidden os w True s1)))\<lparr>wm_active := 0\<rparr> else s1)"
    have s1: "wm_inv A s1" using wm_inv_workspace [OF inv _ _ shown] k by (simp add: s1_def)
    have "w \<noteq> 0" using find_window_Some [OF Some] inv by (auto simp: wm_inv_def wm_ok_def)
    have "wm_inv A s2"
    proof (cases "k \<noteq> wm_current s1 \<and> is_window os w")
      case True
      have "wm_inv A (update_window w (\<lambda>i. i\<lparr>mw_hidden := True\<rparr>) (update_window w (\<lambda>i. i\<lparr>mw_workspace := k\<rparr>) (s\<lparr>wm_active := 0\<rparr>)))"
        using wm_inv_no_active [OF inv] k True \<open>w \<noteq> 0\<close> by (intro wm_inv_move_hide) (simp_all add: s1_def)
      moreover have "same_windows s2 (update_window w (\<lambda>i. i\<lparr>mw_hidden := True\<rparr>) (update_window w (\<lambda>i. i\<lparr>mw_workspace := k\<rparr>) (s\<lparr>wm_active := 0\<rparr>)))"
        using True by (simp add: s2_def s1_def same_windows_def update_window_def)
      ultimately show ?thesis using wm_inv_same by blast
    next
      case False
      then have "s2 = s1" unfolding s2_def by (rule if_not_P)
      then show ?thesis using s1 by simp
    qed
    moreover have "move_active_to_workspace os k s = (if mw_workspace i = k then Some s
        else do { u \<leftarrow> tile_if_enabled os s2; Some (update_borders os u) })"
      using k Some by (simp add: move_active_to_workspace_def w_def [symmetric] s1_def [symmetric] s2_def [symmetric] kWorkspaceCount_def Let_def)
    ultimately show ?thesis using inv tile_then_borders [of A s2 os] by auto
  qed
next
  case False
  assume "wm_inv A s"
  with False show ?thesis by (auto simp: move_active_to_workspace_def kWorkspaceCount_def)
qed

lemma wm_inv_move_window: "wm_inv A s \<Longrightarrow> \<exists>t. move_window_to_workspace os w k0 s = Some t \<and> wm_inv A t"
proof (cases "w = 0 \<or> \<not> is_window os w")
  case True
  assume "wm_inv A s"
  with True show ?thesis by (auto simp: move_window_to_workspace_def Let_def)
next
  case w: False
  assume inv: "wm_inv A s"
  define k where "k = clamp k0 0 3"
  have k: "0 \<le> k" "k \<le> 3" using clamp_workspace [of k0] by (auto simp: k_def)
  define s1 where "s1 = find_or_add os w s"
  have s1: "wm_inv A s1" using inv wm_inv_find_or_add by (simp add: s1_def)
  show ?thesis
  proof (cases "find_window w s1")
    case None
    then show ?thesis using s1 w by (simp add: move_window_to_workspace_def s1_def [symmetric] Let_def)
  next
    case (Some i)
    show ?thesis
    proof (cases "mw_workspace i = k")
      case True
      have "wm_inv A (update_window w (\<lambda>i. i\<lparr>mw_hidden := False\<rparr>) (mark_workspace_hidden os w False s1))"
        using wm_inv_unhide [OF s1] by simp
      then show ?thesis using True Some s1 w by (simp add: move_window_to_workspace_def s1_def [symmetric] k_def [symmetric] Let_def)
    next
      case False
      let ?m = "update_window w (\<lambda>i. i\<lparr>mw_workspace := k\<rparr>) s1"
      define s2 where "s2 = (if k \<noteq> wm_current ?m then
          let t = act (Show w SW_Hide) (update_window w (\<lambda>i. i\<lparr>mw_hidden := True\<rparr>) (mark_workspace_hidden os w True ?m))
          in if wm_active t = w then t\<lparr>wm_active := 0\<rparr> else t
        else let t = update_window w (\<lambda>i. i\<lparr>mw_hidden := False\<rparr>) (mark_workspace_hidden os w False ?m)
          in if \<not> is_visible os w \<and> \<not> is_iconic os w then act (Show w SW_ShowNoActivate) t else t)"
      have eq: "move_window_to_workspace os w k0 s = do { u \<leftarrow> tile_if_enabled os s2; Some (update_borders os u) }"
        using w Some False by (simp add: move_window_to_workspace_def s1_def [symmetric] k_def [symmetric] s2_def Let_def)
      have "wm_inv A s2"
      proof (cases "k = wm_current s1")
        case True
        let ?f = "\<lambda>i. i\<lparr>mw_workspace := k, mw_hidden := False\<rparr>"
        have "wm_inv A (update_window w ?f s1)" by (rule wm_inv_update [OF s1]) (use k in simp_all)
        moreover have "same_windows s2 (update_window w ?f s1)"
          using True by (simp add: s2_def Let_def same_windows_def update_window_def update_twice)
        ultimately show ?thesis using wm_inv_same by blast
      next
        case elsewhere: False
        let ?s0 = "if wm_active s1 = w then s1\<lparr>wm_active := 0\<rparr> else s1"
        have "wm_inv A ?s0" using s1 wm_inv_no_active by simp
        then have "wm_inv A (update_window w (\<lambda>i. i\<lparr>mw_hidden := True\<rparr>) (update_window w (\<lambda>i. i\<lparr>mw_workspace := k\<rparr>) ?s0))"
          using k elsewhere w by (intro wm_inv_move_hide) auto
        moreover have "same_windows s2 (update_window w (\<lambda>i. i\<lparr>mw_hidden := True\<rparr>) (update_window w (\<lambda>i. i\<lparr>mw_workspace := k\<rparr>) ?s0))"
          using elsewhere by (simp add: s2_def Let_def same_windows_def update_window_def)
        ultimately show ?thesis using wm_inv_same by blast
      qed
      then show ?thesis unfolding eq by (rule tile_then_borders)
    qed
  qed
qed

lemma wm_inv_set_state: "wm_inv A s \<Longrightarrow> wm_inv A (set_state w m x f s)"
  unfolding set_state_def by (rule wm_inv_floating) simp_all

lemma wm_inv_show_state:
  assumes "wm_inv A s"
  shows "wm_inv A (minimize_window os w s)" "wm_inv A (maximize_window os w s)" "wm_inv A (restore_window os w s)"
    "wm_inv A (close_window os w s)" "wm_inv A (fst (set_window_bounds os w x y cx cy s))"
    "wm_inv A (set_window_fullscreen os w b s)"
proof -
  show min: "wm_inv A (minimize_window os w s)" "wm_inv A (maximize_window os w s)" "wm_inv A (restore_window os w s)"
    "wm_inv A (close_window os w s)"
    using assms by (simp_all add: minimize_window_def maximize_window_def restore_window_def close_window_def wm_inv_set_state)
  show "wm_inv A (fst (set_window_bounds os w x y cx cy s))"
    using assms by (simp add: set_window_bounds_def Let_def) (auto intro!: wm_inv_set_state wm_inv_floating split: option.splits)
  have full: "wm_inv A (update_window w (\<lambda>i. i\<lparr>mw_fullscreen := b\<rparr>) s)" using assms by (rule wm_inv_floating) simp
  then have "wm_inv A (restore_window os w (update_window w (\<lambda>i. i\<lparr>mw_fullscreen := b\<rparr>) s))"
    by (simp add: restore_window_def wm_inv_set_state)
  with full show "wm_inv A (set_window_fullscreen os w b s)"
    using assms by (cases "b") (simp_all add: set_window_fullscreen_def Let_def split: option.split)
qed

lemma wm_inv_snap: "wm_inv A s \<Longrightarrow> wm_inv A (fst (snap_window os w n s))"
  by (simp add: snap_window_def Let_def wm_inv_show_state split: snap_action.split)

lemma wm_inv_command:
  assumes inv: "wm_inv A s" and c: "execute_window_command os c s = Some (t, b)"
  shows "wm_inv A t"
proof -
  have b: "set_window_bounds os (wc_hwnd c) x y cx cy s = (u, d) \<Longrightarrow> wm_inv A u"
    "snap_window os (wc_hwnd c) n s = (u, d) \<Longrightarrow> wm_inv A u" for x y cx cy n u d
    using wm_inv_show_state(5) [OF inv] wm_inv_snap [OF inv] by (metis fst_conv)+
  have m: "wm_inv A u" if "move_window_to_workspace os (wc_hwnd c) k s = Some u" for k u
    using wm_inv_move_window [OF inv, of os "wc_hwnd c" k] that by simp
  show ?thesis
    using c inv b m wm_inv_focus [OF inv]
    by (auto simp: execute_window_command_def Let_def wm_inv_show_state split: if_splits bind_splits)
qed

lemma wm_inv_shutdown: "wm_inv A s \<Longrightarrow> wm_inv A (shutdown os s)"
proof -
  assume "wm_inv A s"
  then have "wm_inv A (fold (shutdown_window os) (wm_windows s) (s\<lparr>wm_watching := False\<rparr>))"
    by (intro wm_inv_fold) (simp_all add: shutdown_window_def Let_def)
  then have "0 \<le> wm_current (fold (shutdown_window os) (wm_windows s) (s\<lparr>wm_watching := False\<rparr>))"
    "wm_current (fold (shutdown_window os) (wm_windows s) (s\<lparr>wm_watching := False\<rparr>)) \<le> 3"
    by (simp_all add: wm_inv_def wm_ok_def)
  then show ?thesis unfolding shutdown_def Let_def by (intro wm_inv_empty) simp_all
qed

lemma wm_inv_initialize: "wm_inv A s \<Longrightarrow> \<exists>t b. initialize os ev sink s = Some (t, b) \<and> wm_inv A t"
proof -
  assume inv: "wm_inv A s"
  define s1 where "s1 = (shutdown os s)\<lparr>wm_sink := sink, wm_windows := [], wm_current := 0, wm_active := 0\<rparr>"
  define s2 where "s2 = enumerate_windows os s1"
  define s3 where "s3 = (if foreground os \<noteq> 0 then update_foreground os (foreground os) (s2\<lparr>wm_watching := True\<rparr>) else s2\<lparr>wm_watching := True\<rparr>)"
  have s1: "wm_inv A s1" unfolding s1_def by (rule wm_inv_empty) simp_all
  then have s2: "wm_inv A s2" unfolding s2_def by (rule wm_inv_enumerate)
  have part: "wm_inv A (fold (runtime_enumeration os) (enumerated os) s1)"
    using s1 by (intro wm_inv_fold)
      (simp_all add: runtime_enumeration_def recover_tagged_window_def wm_inv_add Let_def split: prod.split)
  have s3: "wm_inv A s3" using s2 wm_inv_foreground by (simp add: s3_def)
  have none: "wm_inv A (s2\<lparr>wm_windows := [], wm_sink := 0\<rparr>)"
    by (rule wm_inv_empty) (simp_all add: s2_def s1_def)
  have eq: "initialize os ev sink s = (if sink = 0 \<or> \<not> is_window os sink then Some (shutdown os s, False)
      else if \<not> enumeration_ok os then Some ((fold (runtime_enumeration os) (enumerated os) s1)\<lparr>wm_sink := 0\<rparr>, False)
      else if \<not> ev then Some (s2\<lparr>wm_windows := [], wm_sink := 0\<rparr>, False)
      else do { u \<leftarrow> tile_if_enabled os s3; Some (u, True) })"
    unfolding initialize_def s1_def s2_def s3_def Let_def by (rule refl)
  show ?thesis
    using wm_inv_shutdown [OF inv] part none tile_if [OF s3, of os] unfolding eq by auto
qed

text \<open>Restoring a window keeps the first group only.\<close>

lemma wm_ok_restore: "wm_ok s \<Longrightarrow> wm_ok (fst (restore_window_state os safe mon w k0 fl bounds show s))"
proof -
  assume "wm_ok s"
  then have s: "wm_inv {} s" by simp
  then have ok: "wm_inv {} (find_or_add os w s)" by (rule wm_inv_find_or_add)
  have k: "0 \<le> clamp k0 0 3" "clamp k0 0 3 \<le> 3" using clamp_workspace [of k0] by simp_all
  have up: "wm_inv {} (update_window w f t)" if "wm_inv {} t" "\<And>i. mw_hwnd (f i) = mw_hwnd i"
      "\<And>i. 0 \<le> mw_workspace i \<Longrightarrow> mw_workspace i \<le> 3 \<Longrightarrow> 0 \<le> mw_workspace (f i) \<and> mw_workspace (f i) \<le> 3" for f t
    by (rule wm_inv_update [OF that]) blast+
  have "wm_inv {} (fst (restore_window_state os safe mon w k0 fl bounds show s))"
    using ok s k by (auto simp: restore_window_state_def Let_def simp del: wm_inv_none intro!: up)
  then show ?thesis by simp
qed

section \<open>The main facts\<close>

definition is_restore :: "wm_op \<Rightarrow> bool" where
  "is_restore op = (case op of Restore_State _ _ _ _ _ _ _ \<Rightarrow> True | _ \<Rightarrow> False)"

text \<open>The handle that an operation focuses on somebody's word.\<close>

definition focus_request :: "wm_op \<Rightarrow> hwnd option" where
  "focus_request op =
     (case op of Focus_Window w \<Rightarrow> Some w
      | Window_Command c \<Rightarrow> if wc_action c = 1 then Some (wc_hwnd c) else None
      | _ \<Rightarrow> None)"

lemma wm_exec_total:
  assumes inv: "wm_inv A s" and live: "\<And>i. i \<in> set (wm_windows s) \<Longrightarrow> mw_hwnd i \<in> A \<Longrightarrow> is_window os (mw_hwnd i)"
    and op: "is_restore op \<Longrightarrow> A = {}" and foc: "focus_request op = None"
  shows "\<exists>t. wm_exec os op s = Some t \<and> wm_inv A t"
proof (cases op)
  case (Initialize e k)
  then show ?thesis using wm_inv_initialize [OF inv, of os e k] by auto
next
  case (Runtime_Event kind w)
  have "wm_inv A (case kind of Window_Destroyed \<Rightarrow> remove_window os w s
      | Window_Foreground \<Rightarrow> update_foreground os w (if w \<noteq> 0 \<and> is_window os w then add_or_refresh os w (process_of os w) s else s)
      | Window_Hidden \<Rightarrow> if find_window w s \<noteq> None then notify_changed s else s
      | Window_Unknown \<Rightarrow> s | _ \<Rightarrow> if w \<noteq> 0 \<and> is_window os w then add_or_refresh os w (process_of os w) s else s)"
    using inv wm_inv_remove wm_inv_foreground wm_inv_add by (simp split: window_event.split)
  from tile_current [OF this, of os] this show ?thesis
    unfolding Runtime_Event wm_exec.simps handle_runtime_event_def Let_def by (cases kind) auto
next
  case (Window_Command c)
  have nm: "move_window_to_workspace os (wc_hwnd c) k s \<noteq> None" for k
    using wm_inv_move_window [OF inv, of os "wc_hwnd c" k] by auto
  have "execute_window_command os c s \<noteq> None"
    using foc Window_Command nm [of "wc_workspace c - 1"] nm [of 0]
    by (auto simp: execute_window_command_def focus_request_def Let_def split: if_splits bind_splits)
  then obtain t b where "execute_window_command os c s = Some (t, b)" by auto
  then show ?thesis using Window_Command wm_inv_command [OF inv] by auto
next
  case (Restore_State safe mon w k fl bounds cmd)
  then show ?thesis using inv op wm_ok_restore [of s] by (simp add: is_restore_def)
next
  case (Focus_Window w)
  then show ?thesis using foc by (simp add: focus_request_def)
qed (use inv in \<open>simp_all add: wm_inv_shutdown set_reserved_bottom_pixels_def wm_inv_reconcile wm_inv_topology wm_inv_focus_next
      close_active_def minimize_active_def toggle_maximize_active_def wm_inv_snap_active toggle_tiling_def tile_if wm_inv_set_tiling
      tile_current wm_inv_toggle_floating wm_inv_set_floating wm_inv_switch [OF inv live] wm_inv_move_active wm_inv_move_window Let_def\<close>)

lemma command_focus:
  "wc_action c = 1 \<Longrightarrow> map_option fst (execute_window_command os c s) = focus_window os (wc_hwnd c) s"
  by (simp add: execute_window_command_def Let_def focus_window_def [of os "wc_hwnd c"] split: bind_split)

lemma wm_exec_focus_eq: "focus_request op = Some w \<Longrightarrow> wm_exec os op s = focus_window os w s"
  by (cases op) (auto simp: focus_request_def command_focus split: if_splits)

lemma wm_exec_focus:
  assumes inv: "wm_inv A s" and foc: "focus_request op = Some w"
  shows "wm_exec os op s = None \<longleftrightarrow> focus_window os w s = None"
    and "wm_exec os op s = Some t \<Longrightarrow> wm_inv A t"
  using wm_exec_focus_eq [OF foc, of os s] wm_inv_focus [OF inv] by simp_all

text \<open>
  Reachable states. The first argument collects the managed handles that have died; Windows does not revive them, so a
  later call does not find them alive.
\<close>

inductive wm_reach :: "hwnd set \<Rightarrow> wm \<Rightarrow> bool" where
  reach_new: "wm_reach {} new_wm"
| reach_step: "wm_reach D s \<Longrightarrow> \<forall>w \<in> D. \<not> is_window os w \<Longrightarrow> \<not> is_restore op \<Longrightarrow> wm_exec os op s = Some t \<Longrightarrow>
    wm_reach (D \<union> {w \<in> mw_hwnd ` set (wm_windows s). \<not> is_window os w}) t"

lemma wm_inv_new: "wm_inv A new_wm"
  by (rule wm_inv_empty) (simp_all add: new_wm_def)

lemma wm_reach_inv: "wm_reach D s \<Longrightarrow> wm_inv (- D) s"
proof (induction rule: wm_reach.induct)
  case (reach_step D s os op t)
  let ?D = "D \<union> {w \<in> mw_hwnd ` set (wm_windows s). \<not> is_window os w}"
  have inv: "wm_inv (- ?D) s" using reach_step.IH by (rule wm_inv_mono) blast
  show ?case
  proof (cases "focus_request op")
    case None
    have "\<exists>t. wm_exec os op s = Some t \<and> wm_inv (- ?D) t"
      using reach_step.hyps(3) None by (intro wm_exec_total [OF inv]) auto
    with reach_step.hyps(4) show ?thesis by simp
  next
    case (Some w)
    show ?thesis by (rule wm_exec_focus(2) [OF inv Some reach_step.hyps(4)])
  qed
qed (rule wm_inv_new)

lemma wm_run_ok: "wm_ok s \<Longrightarrow> wm_run ops s = Some t \<Longrightarrow> wm_ok t"
proof (induction ops arbitrary: s)
  case (Cons oop ops)
  obtain os op where oop: "oop = (os, op)" by fastforce
  with Cons.prems obtain u where u: "wm_exec os op s = Some u" "wm_run ops u = Some t" by (auto split: bind_splits)
  have inv: "wm_inv {} s" using Cons.prems by simp
  have "wm_ok u"
  proof (cases "focus_request op")
    case None
    have "\<exists>t. wm_exec os op s = Some t \<and> wm_inv {} t" by (rule wm_exec_total [OF inv]) (simp_all add: None)
    with u show ?thesis by simp
  next
    case (Some w)
    show ?thesis using wm_exec_focus(2) [OF inv Some u(1)] by simp
  qed
  then show ?case using Cons.IH u by simp
qed simp

end
