(* ===== verification/Window_Effects.thy ===== *)
theory Window_Effects
  imports Window_Manager_Inv
begin

text \<open>
  What the window manager asks of Windows: which windows a switch of workspaces hides and shows, which rectangles tiling
  places, what restoring and moving a window leave behind. The properties of the window manager are stated here.
\<close>

section \<open>What the operations ask of Windows\<close>

definition shows_of :: "wm_action list \<Rightarrow> (hwnd \<times> show_command) list" where
  "shows_of as = List.map_filter (\<lambda>a. case a of Show w c \<Rightarrow> Some (w, c) | _ \<Rightarrow> None) as"

definition places_of :: "wm_action list \<Rightarrow> (hwnd \<times> rect) list" where
  "places_of as = List.map_filter (\<lambda>a. case a of Place w r \<Rightarrow> Some (w, r) | _ \<Rightarrow> None) as"

lemma actions_append [simp]:
  "shows_of (as @ bs) = shows_of as @ shows_of bs" "places_of (as @ bs) = places_of as @ places_of bs"
  "shows_of [] = []" "places_of [] = []"
  "shows_of (a # as) = (case a of Show w c \<Rightarrow> (w, c) # shows_of as | _ \<Rightarrow> shows_of as)"
  "places_of (a # as) = (case a of Place w r \<Rightarrow> (w, r) # places_of as | _ \<Rightarrow> places_of as)"
  by (simp_all add: shows_of_def places_of_def map_filter_def split: wm_action.split)

lemma quiet_actions [simp]:
  "shows_of (wm_actions (mark_workspace_hidden os w h s)) = shows_of (wm_actions s)"
  "shows_of (wm_actions (notify_changed s)) = shows_of (wm_actions s)"
  "shows_of (wm_actions (set_border_color os w h s)) = shows_of (wm_actions s)"
  "places_of (wm_actions (mark_workspace_hidden os w h s)) = places_of (wm_actions s)"
  "places_of (wm_actions (notify_changed s)) = places_of (wm_actions s)"
  "places_of (wm_actions (set_border_color os w h s)) = places_of (wm_actions s)"
  by (simp_all add: mark_workspace_hidden_def notify_changed_def set_border_color_def Let_def)

lemma borders_actions [simp]:
  "shows_of (wm_actions (update_borders os s)) = shows_of (wm_actions s)"
  "places_of (wm_actions (update_borders os s)) = places_of (wm_actions s)"
  unfolding update_borders_def by (rule fold_field [where F = "\<lambda>s. shows_of (wm_actions s)"], simp)
    (rule fold_field [where F = "\<lambda>s. places_of (wm_actions s)"], simp)

lemma leave_windows_shows:
  "shows_of (wm_actions (snd (leave_windows os is s))) =
     shows_of (wm_actions s) @ map (\<lambda>i. (mw_hwnd i, SW_Hide)) (filter (leaves os (wm_current s)) is)"
proof (induction "is" arbitrary: s)
  case (Cons i "is")
  let ?s = "if leaves os (wm_current s) i then act (Show (mw_hwnd i) SW_Hide) (mark_workspace_hidden os (mw_hwnd i) True s) else s"
  have "snd (leave_windows os (i # is) s) = snd (leave_windows os is ?s)"
    by (simp add: leaves_def Let_def split: prod.split)
  with Cons.IH [of ?s] show ?case by simp
qed simp

lemma enter_windows_shows:
  "shows_of (wm_actions (snd (enter_windows os is s))) =
     shows_of (wm_actions s) @ map (\<lambda>i. (mw_hwnd i, SW_ShowNA)) (filter (enters os (wm_current s)) is)"
proof (induction "is" arbitrary: s)
  case (Cons i "is")
  let ?s = "if enters os (wm_current s) i then act (Show (mw_hwnd i) SW_ShowNA) (mark_workspace_hidden os (mw_hwnd i) False s) else s"
  have "snd (enter_windows os (i # is) s) = snd (enter_windows os is ?s)"
    by (simp add: enters_def Let_def split: prod.split)
  with Cons.IH [of ?s] show ?case by simp
qed simp

text \<open>A switch without tiling, in full.\<close>

lemma switch_workspace_full:
  assumes "0 \<le> workspace" "workspace < 4" "workspace \<noteq> wm_current s" "\<not> wm_tiling s"
  shows "\<exists>t. switch_workspace os workspace s = Some t \<and> wm_current t = workspace \<and> wm_active t = 0 \<and> \<not> wm_tiling t \<and>
    wm_windows t = map (switched os (wm_current s) workspace) (wm_windows s) \<and>
    shows_of (wm_actions t) = shows_of (wm_actions s) @
      map (\<lambda>i. (mw_hwnd i, SW_Hide)) (filter (leaves os (wm_current s)) (wm_windows s)) @
      map (\<lambda>i. (mw_hwnd i, SW_ShowNA)) (filter (enters os workspace)
        (map (\<lambda>i. if leaves os (wm_current s) i then i\<lparr>mw_hidden := True\<rparr> else i) (wm_windows s)))"
proof -
  obtain is1 s1 where l: "leave_windows os (wm_windows s) s = (is1, s1)" by fastforce
  define s2 where "s2 = (notify_changed (s1\<lparr>wm_windows := is1, wm_current := workspace\<rparr>))\<lparr>wm_active := 0\<rparr>"
  obtain is2 s3 where e: "enter_windows os is1 s2 = (is2, s3)" by fastforce
  note lm = leave_windows_map [of os "wm_windows s" s, unfolded l fst_conv snd_conv]
    and em = enter_windows_map [of os is1 s2, unfolded e fst_conv snd_conv]
    and ls = leave_windows_shows [of os "wm_windows s" s, unfolded l snd_conv]
    and es = enter_windows_shows [of os is1 s2, unfolded e snd_conv]
  have w2: "wm_windows s2 = is1" "wm_current s2 = workspace" "wm_active s2 = 0" "wm_tiling s2 = wm_tiling s1"
    "shows_of (wm_actions s2) = shows_of (wm_actions s1)"
    by (simp_all add: s2_def notify_changed_def Let_def)
  have tiling: "\<not> wm_tiling s3" using assms(4) lm em w2 by (simp add: same_windows_def)
  then have "switch_workspace os workspace s = Some (update_borders os (s3\<lparr>wm_windows := is2\<rparr>))"
    using assms(1-3) by (simp add: switch_workspace_def kWorkspaceCount_def l s2_def [symmetric] e Let_def tile_if_enabled_def)
  moreover have "is2 = map (switched os (wm_current s) workspace) (wm_windows s)"
    using lm em w2 by (simp add: switched_def Let_def comp_def)
  ultimately show ?thesis using lm em ls es w2 tiling by (simp add: same_windows_def)
qed

text \<open>The groups of tiling: each window to tile is in exactly one group, the one of its monitor.\<close>

lemma mset_add_to_groups:
  "mset (concat (map (snd \<circ> snd) (add_to_groups m a w gs))) = add_mset w (mset (concat (map (snd \<circ> snd) gs)))"
  by (induction m a w gs rule: add_to_groups.induct) simp_all

lemma add_to_groups_ok:
  "distinct (map fst gs) \<Longrightarrow> \<forall>(m, a, ws) \<in> set gs. ws \<noteq> [] \<and> (\<forall>v \<in> set ws. mon v = m) \<Longrightarrow>
     distinct (map fst (add_to_groups (mon w) a w gs)) \<and> fst ` set (add_to_groups (mon w) a w gs) = insert (mon w) (fst ` set gs) \<and>
     (\<forall>(m, a, ws) \<in> set (add_to_groups (mon w) a w gs). ws \<noteq> [] \<and> (\<forall>v \<in> set ws. mon v = m))"
  by (induction "mon w" a w gs rule: add_to_groups.induct) auto

lemma tile_groups_ok:
  "mset (concat (map (snd \<circ> snd) (tile_groups os s))) = mset (map mw_hwnd (filter (tileable os s) (wm_windows s))) \<and>
   distinct (map fst (tile_groups os s)) \<and> (\<forall>(m, a, ws) \<in> set (tile_groups os s). ws \<noteq> [] \<and> (\<forall>v \<in> set ws. monitor_near os v = m))"
proof -
  let ?f = "\<lambda>i gs. if tileable os s i then add_to_groups (monitor_near os (mw_hwnd i)) (work_area_for os (mw_hwnd i) s) (mw_hwnd i) gs else gs"
  let ?ok = "\<lambda>gs. distinct (map fst gs) \<and> (\<forall>(m, a, ws) \<in> set gs. ws \<noteq> [] \<and> (\<forall>v \<in> set ws. monitor_near os v = m))"
  have "mset (concat (map (snd \<circ> snd) (fold ?f is gs))) =
      mset (map mw_hwnd (filter (tileable os s) is)) + mset (concat (map (snd \<circ> snd) gs))" for "is" gs
    by (induction "is" arbitrary: gs) (simp_all add: mset_add_to_groups)
  from this [of "wm_windows s" "[]"] have "mset (concat (map (snd \<circ> snd) (tile_groups os s))) =
      mset (map mw_hwnd (filter (tileable os s) (wm_windows s)))" by (simp add: tile_groups_def)
  moreover have "?ok (fold ?f is gs)" if "?ok gs" for "is" gs
    using that
  proof (induction "is" arbitrary: gs)
    case (Cons i "is")
    have "?ok (?f i gs)" using add_to_groups_ok [of gs "monitor_near os" "mw_hwnd i"] Cons.prems by auto
    then show ?case using Cons.IH [of "?f i gs"] by simp
  qed simp
  from this [of "[]" "wm_windows s"] have "?ok (tile_groups os s)" by (simp add: tile_groups_def)
  ultimately show ?thesis by simp
qed

lemma tile_group_places:
  "places_of (wm_actions (tile_group os (m, area, ws) s)) = places_of (wm_actions s) @
     (if rect_width area \<le> 0 \<or> rect_height area \<le> 0 then []
      else map (\<lambda>(i, w). (w, placed (tile_target area (length ws) i))) (enumerate 0 ws))"
proof -
  have "places_of (wm_actions (fold (tile_window os area n) iws s)) =
      places_of (wm_actions s) @ map (\<lambda>(i, w). (w, placed (tile_target area n i))) iws" for n iws s
    by (induction iws arbitrary: s) (auto simp: tile_window_def Let_def split: prod.splits)
  then show ?thesis by (auto simp: tile_group_def)
qed

section \<open>Windows carries the requests out\<close>

text \<open>What is visible after the requests to show and hide were carried out, in their order.\<close>

definition after_shows :: "(hwnd \<times> show_command) list \<Rightarrow> (hwnd \<Rightarrow> bool) \<Rightarrow> hwnd \<Rightarrow> bool" where
  "after_shows = fold (\<lambda>(w, c) v. v(w := (c \<noteq> SW_Hide)))"

lemma after_shows_map:
  "after_shows (map (\<lambda>i. (mw_hwnd i, c)) is) v w = (if w \<in> mw_hwnd ` set is then c \<noteq> SW_Hide else v w)"
  unfolding after_shows_def by (induction "is" arbitrary: v) auto

lemma after_shows_append: "after_shows (as @ bs) v = after_shows bs (after_shows as v)"
  by (simp add: after_shows_def)

text \<open>Every managed window is alive; the hidden ones are those of other workspaces that are not minimised, and Windows agrees.\<close>

definition settled :: "os \<Rightarrow> wm \<Rightarrow> bool" where
  "settled os s \<longleftrightarrow> (\<forall>i \<in> set (wm_windows s). is_window os (mw_hwnd i) \<and>
     (mw_hidden i \<longleftrightarrow> mw_workspace i \<noteq> wm_current s \<and> \<not> is_iconic os (mw_hwnd i)) \<and>
     (is_visible os (mw_hwnd i) \<longleftrightarrow> \<not> mw_hidden i))"

lemma settled_leaves:
  "settled os s \<Longrightarrow> wm_ok s \<Longrightarrow> i \<in> set (wm_windows s) \<Longrightarrow>
     leaves os (wm_current s) i \<longleftrightarrow> mw_workspace i = wm_current s \<and> \<not> is_iconic os (mw_hwnd i)"
  by (auto simp: settled_def leaves_def wm_ok_def)

lemma settled_enters:
  "settled os s \<Longrightarrow> i \<in> set (wm_windows s) \<Longrightarrow> k \<noteq> wm_current s \<Longrightarrow>
     enters os k (if leaves os (wm_current s) i then i\<lparr>mw_hidden := True\<rparr> else i) \<longleftrightarrow>
       mw_workspace i = k \<and> \<not> is_iconic os (mw_hwnd i)"
  by (auto simp: settled_def leaves_def enters_def)

lemma hwnd_unique: "wm_ok s \<Longrightarrow> i \<in> set (wm_windows s) \<Longrightarrow> j \<in> set (wm_windows s) \<Longrightarrow> mw_hwnd i = mw_hwnd j \<Longrightarrow> i = j"
  by (auto simp: wm_ok_def distinct_map dest: inj_onD)

lemma switched_settled:
  assumes "settled os s" "wm_ok s" "i \<in> set (wm_windows s)" "k \<noteq> wm_current s"
  shows "switched os (wm_current s) k i = i\<lparr>mw_hidden := (mw_workspace i \<noteq> k \<and> \<not> is_iconic os (mw_hwnd i))\<rparr>"
proof -
  have "mw_hwnd i \<noteq> 0" using assms(2,3) by (simp add: wm_ok_def)
  moreover have "is_window os (mw_hwnd i)" "mw_hidden i \<longleftrightarrow> mw_workspace i \<noteq> wm_current s \<and> \<not> is_iconic os (mw_hwnd i)"
    "is_visible os (mw_hwnd i) \<longleftrightarrow> \<not> mw_hidden i"
    using assms(1,3) by (auto simp: settled_def)
  ultimately show ?thesis using assms(4) by (cases i) (auto simp: switched_def leaves_def enters_def Let_def)
qed

definition moved_windows :: "os \<Rightarrow> int \<Rightarrow> show_command \<Rightarrow> managed_window list \<Rightarrow> (hwnd \<times> show_command) list" where
  "moved_windows os k c is = map (\<lambda>i. (mw_hwnd i, c)) (filter (\<lambda>i. mw_workspace i = k \<and> \<not> is_iconic os (mw_hwnd i)) is)"

definition switch_shows :: "os \<Rightarrow> int \<Rightarrow> wm \<Rightarrow> (hwnd \<times> show_command) list" where
  "switch_shows os k s = moved_windows os (wm_current s) SW_Hide (wm_windows s) @ moved_windows os k SW_ShowNA (wm_windows s)"

lemma switch_settled:
  assumes ok: "wm_ok s" and st: "settled os s" and tiling: "\<not> wm_tiling s" and k: "0 \<le> k" "k < 4" "k \<noteq> wm_current s"
  shows "\<exists>t. switch_workspace os k s = Some t \<and> wm_current t = k \<and> wm_active t = 0 \<and> \<not> wm_tiling t \<and>
    shows_of (wm_actions t) = shows_of (wm_actions s) @ switch_shows os k s \<and>
    wm_windows t = map (\<lambda>i. i\<lparr>mw_hidden := (mw_workspace i \<noteq> k \<and> \<not> is_iconic os (mw_hwnd i))\<rparr>) (wm_windows s)"
proof -
  obtain t where t: "switch_workspace os k s = Some t" "wm_current t = k" "wm_active t = 0" "\<not> wm_tiling t"
    "wm_windows t = map (switched os (wm_current s) k) (wm_windows s)"
    "shows_of (wm_actions t) = shows_of (wm_actions s) @
      map (\<lambda>i. (mw_hwnd i, SW_Hide)) (filter (leaves os (wm_current s)) (wm_windows s)) @
      map (\<lambda>i. (mw_hwnd i, SW_ShowNA)) (filter (enters os k)
        (map (\<lambda>i. if leaves os (wm_current s) i then i\<lparr>mw_hidden := True\<rparr> else i) (wm_windows s)))"
    using switch_workspace_full [OF k tiling, of os] by blast
  let ?mark = "\<lambda>i. if leaves os (wm_current s) i then i\<lparr>mw_hidden := True\<rparr> else i"
  have "wm_windows t = map (\<lambda>i. i\<lparr>mw_hidden := (mw_workspace i \<noteq> k \<and> \<not> is_iconic os (mw_hwnd i))\<rparr>) (wm_windows s)"
    unfolding t(5) using switched_settled [OF st ok _ k(3)] by (rule map_cong [OF refl])
  moreover have "filter (leaves os (wm_current s)) (wm_windows s) =
      filter (\<lambda>i. mw_workspace i = wm_current s \<and> \<not> is_iconic os (mw_hwnd i)) (wm_windows s)"
    using settled_leaves [OF st ok] by (rule filter_cong [OF refl])
  moreover have "map (\<lambda>i. (mw_hwnd i, SW_ShowNA)) (filter (enters os k) (map ?mark (wm_windows s))) =
      moved_windows os k SW_ShowNA (wm_windows s)"
  proof -
    have "filter (\<lambda>i. enters os k (?mark i)) (wm_windows s) =
        filter (\<lambda>i. mw_workspace i = k \<and> \<not> is_iconic os (mw_hwnd i)) (wm_windows s)"
      using settled_enters [OF st _ k(3)] by (rule filter_cong [OF refl])
    then show ?thesis by (simp add: filter_map comp_def moved_windows_def if_distrib [of mw_hwnd] cong: if_cong)
  qed
  ultimately show ?thesis using t by (simp add: switch_shows_def moved_windows_def)
qed

lemma settled_after_switch:
  assumes ok: "wm_ok s" and st: "settled os s" and k: "k \<noteq> wm_current s" and t: "wm_current t = k"
    "wm_windows t = map (\<lambda>i. i\<lparr>mw_hidden := (mw_workspace i \<noteq> k \<and> \<not> is_iconic os (mw_hwnd i))\<rparr>) (wm_windows s)"
  shows "settled (os\<lparr>is_visible := after_shows (switch_shows os k s) (is_visible os)\<rparr>) t"
proof -
  have moved: "mw_hwnd i \<in> mw_hwnd ` {x \<in> set (wm_windows s). mw_workspace x = c \<and> \<not> is_iconic os (mw_hwnd x)} \<longleftrightarrow>
      mw_workspace i = c \<and> \<not> is_iconic os (mw_hwnd i)" if "i \<in> set (wm_windows s)" for i c
    using hwnd_unique [OF ok that] that by (auto simp: image_iff)
  have "after_shows (switch_shows os k s) (is_visible os) (mw_hwnd i) \<longleftrightarrow> mw_workspace i = k \<or> is_iconic os (mw_hwnd i)"
    if i: "i \<in> set (wm_windows s)" for i
    using st i k moved [OF i]
    by (auto simp: switch_shows_def moved_windows_def after_shows_append after_shows_map settled_def)
  then show ?thesis using st by (auto simp: settled_def t)
qed

lemma switch_shows_visible [simp]: "switch_shows (os\<lparr>is_visible := v\<rparr>) k s = switch_shows os k s"
  by (simp add: switch_shows_def moved_windows_def)

lemma settled_visible: "settled os s \<Longrightarrow> \<forall>i \<in> set (wm_windows s). is_visible os (mw_hwnd i) \<longleftrightarrow> \<not> mw_hidden i"
  by (simp add: settled_def)

section \<open>Tiling\<close>

definition group_places :: "monitor_group \<Rightarrow> (hwnd \<times> rect) list" where
  "group_places g = (case g of (m, area, ws) \<Rightarrow> map (\<lambda>(i, w). (w, placed (tile_target area (length ws) i))) (enumerate 0 ws))"

definition usable :: "rect \<Rightarrow> bool" where
  "usable area \<longleftrightarrow> 0 < rect_width area \<and> 0 < rect_height area"

lemma tile_groups_places:
  "\<forall>(m, area, ws) \<in> set gs. usable area \<Longrightarrow>
     places_of (wm_actions (fold (tile_group os) gs s)) = places_of (wm_actions s) @ concat (map group_places gs)"
  by (induction gs arbitrary: s) (auto simp: tile_group_places group_places_def usable_def)

lemma add_to_groups_areas:
  "\<forall>g \<in> set gs. P (fst (snd g)) \<Longrightarrow> P area \<Longrightarrow> \<forall>g \<in> set (add_to_groups m area w gs). P (fst (snd g))"
  by (induction m area w gs rule: add_to_groups.induct) auto

lemma tile_groups_usable:
  assumes "\<forall>i \<in> set (wm_windows s). usable (work_area_for os (mw_hwnd i) s)"
  shows "\<forall>(m, area, ws) \<in> set (tile_groups os s). usable area"
proof -
  have "\<forall>g \<in> set (fold (\<lambda>i gs. if tileable os s i
      then add_to_groups (monitor_near os (mw_hwnd i)) (work_area_for os (mw_hwnd i) s) (mw_hwnd i) gs else gs) is gs). usable (fst (snd g))"
    if "\<forall>i \<in> set is. usable (work_area_for os (mw_hwnd i) s)" "\<forall>g \<in> set gs. usable (fst (snd g))" for "is" gs
    using that
  proof (induction "is" arbitrary: gs)
    case (Cons i "is")
    show ?case unfolding fold_simps comp_def
      by (rule Cons.IH) (use Cons.prems in \<open>auto intro: add_to_groups_areas [THEN bspec]\<close>)
  qed simp
  from this [of "wm_windows s" "[]"] show ?thesis using assms by (auto simp: tile_groups_def)
qed

lemma group_windows: "map fst (group_places g) = snd (snd g)"
  by (cases g) (simp add: group_places_def comp_def case_prod_unfold)

lemma groups_windows: "map fst (concat (map group_places gs)) = concat (map (snd \<circ> snd) gs)"
  by (induction gs) (simp_all add: group_windows)

lemma covers_placed [simp]: "covers (placed r) p = covers r p"
  by (auto simp: placed_def box_def covers_def rect_width_def rect_height_def max_def)

lemma group_places_disjoint:
  assumes "(v, r) \<in> set (group_places g)" "(w, r') \<in> set (group_places g)" "v \<noteq> w" "usable (fst (snd g))"
  shows "\<not> (covers r p \<and> covers r' p)"
proof
  assume p: "covers r p \<and> covers r' p"
  obtain m area ws where g: "g = (m, area, ws)" by (cases g) simp
  from assms(1,2) obtain i j where ij: "i < length ws" "v = ws ! i" "r = placed (tile_target area (length ws) i)"
    "j < length ws" "w = ws ! j" "r' = placed (tile_target area (length ws) j)"
    unfolding g group_places_def by (auto simp: in_set_enumerate_eq)
  have n: "0 < length ws" using ij(1) by linarith
  have pos: "rc_left area < rc_right area" "rc_top area < rc_bottom area"
    using assms(4) by (simp_all add: g usable_def rect_width_def rect_height_def max_def split: if_splits)
  have "covers area p" using tile_in_area [OF n ij(1) pos] p ij(3) by simp
  then have "i = j" using tile_unique [OF n, of area p] p ij by auto
  then show False using assms(3) ij by simp
qed

lemma update_actions [simp]: "wm_actions (update_window w f s) = wm_actions s"
  by (simp add: update_window_def)

lemma focus_places:
  "find_window w s \<noteq> None \<Longrightarrow> focus_window os w s = Some t \<Longrightarrow> places_of (wm_actions t) = places_of (wm_actions s)"
  by (auto simp: focus_window_def act_def Let_def split: option.splits if_splits)

lemma tile_current_places:
  assumes "wm_ok s" "wm_tiling s" "\<forall>i \<in> set (wm_windows s). usable (work_area_for os (mw_hwnd i) s)"
  shows "\<exists>t. tile_current_workspace os s = Some t \<and>
    places_of (wm_actions t) = places_of (wm_actions s) @ concat (map group_places (tile_groups os s))"
proof -
  define t where "t = fold (tile_group os) (tile_groups os s) s"
  have t: "places_of (wm_actions t) = places_of (wm_actions s) @ concat (map group_places (tile_groups os s))"
    unfolding t_def by (rule tile_groups_places [OF tile_groups_usable [OF assms(3)]])
  have same: "same_windows t s" by (simp add: t_def tile_fold_same)
  show ?thesis
  proof (cases "wm_active t = 0")
    case False
    then have m: "find_window (wm_active t) t \<noteq> None" using assms(1) same by (auto simp: same_windows_def wm_ok_def find_window_None)
    then obtain u where u: "focus_window os (wm_active t) t = Some u" using focus_managed by blast
    then have "tile_current_workspace os s = Some u" using assms(2) False by (simp add: tile_current_workspace_def t_def [symmetric] Let_def)
    then show ?thesis using focus_places [OF m u] t by simp
  qed (use assms(2) t in \<open>simp add: tile_current_workspace_def t_def [symmetric] Let_def\<close>)
qed

section \<open>A concrete desktop\<close>

text \<open>Two ordinary windows on one monitor, for the examples below.\<close>

definition sample_os :: os where
  "sample_os = \<lparr>is_window = (\<lambda>w. w < 100), is_iconic = (\<lambda>_. False), is_zoomed = (\<lambda>_. False), is_visible = (\<lambda>_. True),
     is_cloaked = (\<lambda>_. False), is_tagged = (\<lambda>_. False), process_of = (\<lambda>_. 7), process_alive = (\<lambda>_. True),
     process_name = (\<lambda>_. wide ''app.exe''), current_process = 1, root_of = (\<lambda>w. w), owner_of = (\<lambda>_. 0),
     style_of = (\<lambda>_. 0), ex_style_of = (\<lambda>_. 0), class_of = (\<lambda>_. wide ''App''), title_of = (\<lambda>w. if w < 10 then wide ''Window'' else []),
     rect_of = (\<lambda>_. Some (box 100 100 800 600)), rect_after = (\<lambda>_. None), monitor_near = (\<lambda>_. 1), monitor_primary = (\<lambda>_. 1),
     monitor_rect = (\<lambda>_. Some (box 0 0 1920 1080)), work_area = (\<lambda>_. box 0 0 1920 1040), foreground = 2,
     enumerated = [(2, 7, True), (3, 7, True)], enumeration_ok = True, local_windows = [],
     lower = (\<lambda>c. c), utf8 = (\<lambda>_. ''app.exe'')\<rparr>"

lemma sample_os_fields [simp]:
  "is_window sample_os = (\<lambda>w. w < 100)" "is_iconic sample_os = (\<lambda>_. False)" "is_zoomed sample_os = (\<lambda>_. False)"
  "is_visible sample_os = (\<lambda>_. True)" "is_tagged sample_os = (\<lambda>_. False)" "process_of sample_os = (\<lambda>_. 7)"
  "enumerated sample_os = [(2, 7, True), (3, 7, True)]" "enumeration_ok sample_os" "local_windows sample_os = []"
  "foreground sample_os = 2" "work_area sample_os = (\<lambda>_. box 0 0 1920 1040)"
  by (simp_all add: sample_os_def)

definition sample_window :: "hwnd \<Rightarrow> managed_window" where
  "sample_window w = new_window sample_os w 7 new_wm"

definition sample_wm :: "bool \<Rightarrow> wm" where
  "sample_wm tiling = new_wm\<lparr>wm_sink := 1, wm_active := 2, wm_tiling := tiling, wm_windows := [sample_window 2, sample_window 3]\<rparr>"

lemma sample_window_fields [simp]:
  "mw_hwnd (sample_window w) = w" "mw_workspace (sample_window w) = 0" "\<not> mw_hidden (sample_window w)"
  "\<not> mw_floating (sample_window w)"
  by (simp_all add: sample_window_def new_window_def new_wm_def split: prod.split)

lemma sample_wm_fields [simp]:
  "wm_ok (sample_wm b)" "wm_current (sample_wm b) = 0" "wm_active (sample_wm b) = 2" "wm_tiling (sample_wm b) = b"
  "settled sample_os (sample_wm b)" "wm_windows (sample_wm b) = [sample_window 2, sample_window 3]"
  "find_window w (sample_wm b) = (if w = 2 then Some (sample_window 2) else if w = 3 then Some (sample_window 3) else None)"
  by (simp_all add: sample_wm_def new_wm_def wm_ok_def settled_def find_window_def)

lemma sample_not_excluded: "\<not> is_excluded_class sample_os w"
proof
  assume "is_excluded_class sample_os w"
  then obtain c where c: "c \<in> set excluded_classes" "wide ''App'' = wide c" by (auto simp: is_excluded_class_def sample_os_def)
  have "\<forall>c \<in> set excluded_classes. length c \<noteq> 3" by code_simp
  moreover have "length c = 3" using arg_cong [OF c(2), of length] by (simp add: wide_def)
  ultimately show False using c(1) by blast
qed

lemma sample_adds:
  "w = 2 \<or> w = 3 \<Longrightarrow> find_window w s = None \<Longrightarrow> wm_sink s = 1 \<Longrightarrow>
     add_or_refresh sample_os w 7 s = notify_changed (s\<lparr>wm_windows := wm_windows s @ [new_window sample_os w 7 s]\<rparr>)"
  unfolding add_or_refresh_def is_manageable_def
  by (elim disjE) (simp_all add: sample_not_excluded, simp_all add: sample_os_def wide_def box_def rect_width_def rect_height_def)

lemma sample_initialize:
  "\<exists>s. wm_exec sample_os (Initialize True 1) new_wm = Some s \<and> map mw_hwnd (wm_windows s) = [2, 3] \<and> wm_current s = 0 \<and>
     (\<forall>i \<in> set (wm_windows s). \<not> mw_hidden i \<and> mw_workspace i = 0) \<and> \<not> wm_tiling s"
proof -
  let ?start = "(shutdown sample_os new_wm)\<lparr>wm_sink := 1, wm_windows := [], wm_current := 0, wm_active := 0\<rparr>"
  let ?mid = "enumerate_windows sample_os ?start"
  have hidden: "\<not> mw_hidden (new_window os w pid s) \<and> mw_hwnd (new_window os w pid s) = w \<and>
      mw_workspace (new_window os w pid s) = wm_current s" for os w pid s
    by (simp add: new_window_def split: prod.split)
  have mid: "map mw_hwnd (wm_windows ?mid) = [2, 3] \<and> (\<forall>i \<in> set (wm_windows ?mid). \<not> mw_hidden i \<and> mw_workspace i = 0) \<and>
      wm_current ?mid = 0 \<and> \<not> wm_tiling ?mid"
    by (simp add: enumerate_windows_def runtime_enumeration_def sample_adds find_window_def hidden shutdown_def new_wm_def)
  have "wm_exec sample_os (Initialize True 1) new_wm = Some (update_foreground sample_os 2 (?mid\<lparr>wm_watching := True\<rparr>))"
    using mid by (auto simp: initialize_def tile_if_enabled_def update_foreground_def Let_def split: option.split)
  moreover have "wm_windows (update_foreground sample_os 2 s) = wm_windows s \<and> wm_current (update_foreground sample_os 2 s) = wm_current s \<and>
      wm_tiling (update_foreground sample_os 2 s) = wm_tiling s" for s
    by (simp add: update_foreground_def split: option.split)
  ultimately show ?thesis using mid by (intro exI [of _ "update_foreground sample_os 2 (?mid\<lparr>wm_watching := True\<rparr>)"]) (simp del: wm_exec.simps)
qed

section \<open>Properties\<close>

text \<open>
  C6. The window manager after any operations, restores included, whatever Windows answers to each: no window is managed
  twice, every one has a handle and one of the four workspaces, the active window is managed. From such a state an
  operation fails to return only if it was asked - by a caller or by another process - to focus a live window
  that is not managed and that the manager does not adopt: \<open>FocusWindow\<close> then reads through a null pointer.
\<close>

theorem window_manager_invariant:
  assumes "wm_run ops new_wm = Some s"
  shows "wm_ok s \<and>
    (wm_exec os op s = None \<longleftrightarrow>
      (\<exists>w. focus_request op = Some w \<and> w \<noteq> 0 \<and> is_window os w \<and> find_window w s = None \<and>
        (process_of os w = 0 \<or> \<not> is_manageable os w (process_of os w) True s)))"
proof -
  have ok: "wm_ok s" using wm_run_ok [OF _ assms] wm_inv_new [of "{}"] by simp
  then have inv: "wm_inv {} s" by simp
  show ?thesis
  proof (cases "focus_request op")
    case None
    have "\<exists>t. wm_exec os op s = Some t \<and> wm_inv {} t" by (rule wm_exec_total [OF inv]) (simp_all add: None)
    then show ?thesis using ok None by auto
  next
    case (Some w)
    then show ?thesis using ok wm_exec_focus(1) [OF inv Some] focus_crash by simp
  qed
qed

lemma window_manager_invariant_witness:
  "\<exists>s. wm_run [(sample_os, Initialize True 1)] new_wm = Some s \<and> wm_ok s \<and> wm_exec sample_os (Focus_Window 50) s = None"
proof -
  obtain s where s: "wm_exec sample_os (Initialize True 1) new_wm = Some s" "map mw_hwnd (wm_windows s) = [2, 3]"
    using sample_initialize by (elim exE conjE)
  then have "find_window 50 s = None" unfolding find_window_None by (simp add: set_map [symmetric] del: set_map)
  moreover have "\<not> is_manageable sample_os 50 7 True s" by (simp add: is_manageable_def sample_os_def)
  moreover have "wm_run [(sample_os, Initialize True 1)] new_wm = Some s" by (simp del: wm_exec.simps add: s(1))
  ultimately show ?thesis
    using window_manager_invariant [of "[(sample_os, Initialize True 1)]" s sample_os "Focus_Window 50"]
    by (simp del: wm_exec.simps wm_run.simps add: focus_request_def)
qed

text \<open>
  A window hidden with its workspace is not in the current one, and the active window is not hidden - in every state
  that operations other than a restore can reach, for the windows that still exist.
\<close>

theorem hidden_windows_elsewhere:
  assumes "wm_reach D s" "i \<in> set (wm_windows s)" "mw_hidden i" "mw_hwnd i \<notin> D"
  shows "mw_workspace i \<noteq> wm_current s \<and> mw_hwnd i \<noteq> wm_active s"
  using wm_reach_inv [OF assms(1)] assms(2-4) by (simp add: wm_inv_def hidden_elsewhere_def)

lemma hidden_windows_elsewhere_witness:
  "\<exists>s t. wm_exec sample_os (Initialize True 1) new_wm = Some s \<and> wm_exec sample_os (Switch_Workspace 1) s = Some t \<and>
     (\<forall>i \<in> set (wm_windows t). mw_hidden i \<and> mw_workspace i \<noteq> wm_current t)"
proof -
  obtain s where s: "wm_exec sample_os (Initialize True 1) new_wm = Some s" "map mw_hwnd (wm_windows s) = [2, 3]"
    "wm_current s = 0" "\<forall>i \<in> set (wm_windows s). \<not> mw_hidden i \<and> mw_workspace i = 0" "\<not> wm_tiling s"
    using sample_initialize by (elim exE conjE)
  have hwnds: "mw_hwnd ` set (wm_windows s) = {2, 3}" using s(2) by (simp add: set_map [symmetric] del: set_map)
  obtain t where t: "switch_workspace sample_os 1 s = Some t" "wm_windows t = map (switched sample_os 0 1) (wm_windows s)"
    using switch_workspace_full [of 1 s sample_os] s(3,5) by auto
  have "wm_reach {} s" using reach_step [OF reach_new _ _ s(1)] by (simp add: is_restore_def new_wm_def)
  moreover have "{w \<in> mw_hwnd ` set (wm_windows s). \<not> is_window sample_os w} = {}" unfolding hwnds by auto
  moreover have "wm_reach {} s \<Longrightarrow> wm_reach ({} \<union> {w \<in> mw_hwnd ` set (wm_windows s). \<not> is_window sample_os w}) t"
    using reach_step [of "{}" s sample_os "Switch_Workspace 1" t] t(1) by (simp add: is_restore_def)
  ultimately have "wm_reach {} t" by (simp only: Un_empty_left)
  moreover have "\<forall>i \<in> set (wm_windows t). mw_hidden i"
  proof -
    have "mw_hwnd i = 2 \<or> mw_hwnd i = 3" if "i \<in> set (wm_windows s)" for i using hwnds that by blast
    then show ?thesis using s(4) unfolding t(2) by (fastforce simp: switched_def leaves_def enters_def Let_def)
  qed
  ultimately show ?thesis using hidden_windows_elsewhere [of "{}" t] s(1) t(1) by auto
qed

text \<open>
  C29. From a settled state without tiling, switching to another workspace hides exactly the windows of the old workspace
  that are not minimised, then shows exactly those of the new one, each once; when Windows has carried this out the
  state is settled again: what is hidden is what belongs to the other workspaces.
\<close>

theorem switch_shows_exactly:
  assumes "wm_ok s" "settled os s" "\<not> wm_tiling s" "0 \<le> k" "k < 4" "k \<noteq> wm_current s"
  shows "\<exists>t. switch_workspace os k s = Some t \<and> wm_current t = k \<and>
    shows_of (wm_actions t) = shows_of (wm_actions s) @
      map (\<lambda>i. (mw_hwnd i, SW_Hide)) (filter (\<lambda>i. mw_workspace i = wm_current s \<and> \<not> is_iconic os (mw_hwnd i)) (wm_windows s)) @
      map (\<lambda>i. (mw_hwnd i, SW_ShowNA)) (filter (\<lambda>i. mw_workspace i = k \<and> \<not> is_iconic os (mw_hwnd i)) (wm_windows s)) \<and>
    settled (os\<lparr>is_visible := after_shows (switch_shows os k s) (is_visible os)\<rparr>) t"
  using switch_settled [OF assms] settled_after_switch [OF assms(1,2,6)]
  unfolding switch_shows_def moved_windows_def by blast

lemma switch_shows_exactly_witness:
  "\<exists>t. switch_workspace sample_os 1 (sample_wm False) = Some t \<and>
     settled (sample_os\<lparr>is_visible := after_shows [(2, SW_Hide), (3, SW_Hide)] (\<lambda>_. True)\<rparr>) t"
  using switch_shows_exactly [of "sample_wm False" sample_os 1]
  by (auto simp: switch_shows_def moved_windows_def)

text \<open>
  Switching to another workspace and back, with Windows doing what was asked in between, gives every managed window
  back as it was: the same list, the same marks, the same visibility.
\<close>

theorem switch_round_trip:
  assumes "wm_ok s" "settled os s" "\<not> wm_tiling s" "0 \<le> k" "k < 4" "k \<noteq> wm_current s"
  shows "\<exists>t u. switch_workspace os k s = Some t \<and>
    switch_workspace (os\<lparr>is_visible := after_shows (switch_shows os k s) (is_visible os)\<rparr>) (wm_current s) t = Some u \<and>
    wm_windows u = wm_windows s \<and> wm_current u = wm_current s \<and>
    (\<forall>i \<in> set (wm_windows s).
      after_shows (switch_shows os (wm_current s) t) (after_shows (switch_shows os k s) (is_visible os)) (mw_hwnd i) =
        is_visible os (mw_hwnd i))"
proof -
  obtain t where t: "switch_workspace os k s = Some t" "wm_current t = k" "wm_active t = 0" "\<not> wm_tiling t"
    "wm_windows t = map (\<lambda>i. i\<lparr>mw_hidden := (mw_workspace i \<noteq> k \<and> \<not> is_iconic os (mw_hwnd i))\<rparr>) (wm_windows s)"
    using switch_settled [OF assms] by blast
  let ?os = "os\<lparr>is_visible := after_shows (switch_shows os k s) (is_visible os)\<rparr>"
  have st: "settled ?os t" by (rule settled_after_switch [OF assms(1,2,6) t(2,5)])
  have ok: "wm_ok t" "0 \<le> wm_current s" "wm_current s < 4" using assms(1,4,5) t by (auto simp: wm_ok_def comp_def)
  obtain u where u: "switch_workspace ?os (wm_current s) t = Some u" "wm_current u = wm_current s"
    "wm_windows u = map (\<lambda>i. i\<lparr>mw_hidden := (mw_workspace i \<noteq> wm_current s \<and> \<not> is_iconic ?os (mw_hwnd i))\<rparr>) (wm_windows t)"
    using switch_settled [OF ok(1) st t(4) ok(2,3)] assms(6) t(2) by metis
  have same: "wm_windows u = wm_windows s"
    using assms(2) unfolding u(3) t(5) by (simp add: settled_def map_idI comp_def)
  have "settled (?os\<lparr>is_visible := after_shows (switch_shows ?os (wm_current s) t) (is_visible ?os)\<rparr>) u"
    by (rule settled_after_switch [OF ok(1) st _ u(2,3)]) (use assms(6) t(2) in simp)
  from settled_visible [OF this] settled_visible [OF assms(2)] have "\<forall>i \<in> set (wm_windows s).
      after_shows (switch_shows os (wm_current s) t) (after_shows (switch_shows os k s) (is_visible os)) (mw_hwnd i) =
        is_visible os (mw_hwnd i)"
    by (simp add: same)
  then show ?thesis using t(1) u same by blast
qed

lemma switch_round_trip_witness:
  "\<exists>t u. switch_workspace sample_os 3 (sample_wm False) = Some t \<and>
     switch_workspace (sample_os\<lparr>is_visible := after_shows (switch_shows sample_os 3 (sample_wm False)) (is_visible sample_os)\<rparr>)
       0 t = Some u \<and> wm_windows u = [sample_window 2, sample_window 3]"
  using switch_round_trip [of "sample_wm False" sample_os 3] by auto

text \<open>
  C35. Tiling places each window of the current workspace that is not floating, hidden or minimised exactly once and no
  other window, and two windows of one monitor never get a common point.
\<close>

theorem tiling_places_once:
  assumes "wm_ok s" "wm_tiling s" "\<forall>i \<in> set (wm_windows s). usable (work_area_for os (mw_hwnd i) s)"
  shows "\<exists>t new. tile_current_workspace os s = Some t \<and> places_of (wm_actions t) = places_of (wm_actions s) @ new \<and>
    mset (map fst new) = mset (map mw_hwnd (filter (tileable os s) (wm_windows s))) \<and>
    (\<forall>(v, r) \<in> set new. \<forall>(w, r') \<in> set new. v \<noteq> w \<and> monitor_near os v = monitor_near os w \<longrightarrow>
      \<not> (\<exists>p. covers r p \<and> covers r' p))"
proof -
  let ?gs = "tile_groups os s" and ?new = "concat (map group_places (tile_groups os s))"
  obtain t where t: "tile_current_workspace os s = Some t" "places_of (wm_actions t) = places_of (wm_actions s) @ ?new"
    using tile_current_places [OF assms] by blast
  note ok = tile_groups_ok [of os s] and us = tile_groups_usable [OF assms(3)]
  have group: "fst g = monitor_near os v" if "(v, r) \<in> set (group_places g)" "g \<in> set ?gs" for v r g
  proof -
    have "v \<in> set (map fst (group_places g))" using that(1) by force
    then show ?thesis using ok that(2) by (cases g) (auto simp: group_windows)
  qed
  have "\<not> (\<exists>p. covers r p \<and> covers r' p)"
    if in_new: "(v, r) \<in> set ?new" "(w, r') \<in> set ?new" and ne: "v \<noteq> w" "monitor_near os v = monitor_near os w" for v r w r'
  proof -
    obtain g h where gh: "g \<in> set ?gs" "(v, r) \<in> set (group_places g)" "h \<in> set ?gs" "(w, r') \<in> set (group_places h)"
      using in_new by auto
    have "fst g = fst h" using group [OF gh(2,1)] group [OF gh(4,3)] ne(2) by simp
    then have "g = h" using ok gh(1,3) by (auto simp: distinct_map dest: inj_onD)
    moreover have "usable (fst (snd g))" using us gh(1) by (cases g) auto
    ultimately show ?thesis using group_places_disjoint [OF gh(2) _ ne(1)] gh(4) by blast
  qed
  then have "\<forall>(v, r) \<in> set ?new. \<forall>(w, r') \<in> set ?new. v \<noteq> w \<and> monitor_near os v = monitor_near os w \<longrightarrow>
      \<not> (\<exists>p. covers r p \<and> covers r' p)" by blast
  then show ?thesis using t ok unfolding groups_windows [symmetric] by blast
qed

lemma tiling_places_once_witness:
  "\<exists>t new. tile_current_workspace sample_os (sample_wm True) = Some t \<and>
     places_of (wm_actions t) = places_of (wm_actions (sample_wm True)) @ new \<and> mset (map fst new) = {#2, 3#}"
proof -
  have "map mw_hwnd (filter (tileable sample_os (sample_wm True)) (wm_windows (sample_wm True))) = [2, 3]"
    by (simp add: tileable_def)
  moreover have "usable (work_area_for sample_os w (sample_wm True))" for w
    by (simp add: usable_def work_area_for_def sample_wm_def new_wm_def box_def rect_width_def rect_height_def Let_def)
  ultimately show ?thesis using tiling_places_once [of "sample_wm True" sample_os] by (auto simp del: mset_map)
qed

text \<open>
  Restoring a saved window to another workspace hides it but leaves it the active window. Moving the active window to
  the current workspace then only relabels it: no request to show it is made, so without tiling a window of the current
  workspace stays invisible - the state that operations other than a restore never reach.
\<close>

theorem restore_then_move_hides:
  assumes "wm_ok s" "\<not> wm_tiling s" "wm_active s = w" "w \<noteq> 0" "is_window os w" "clamp k 0 3 \<noteq> wm_current s"
  shows "\<exists>t. move_active_to_workspace os (wm_current s)
      (fst (restore_window_state os safe_bounds monitor w k floating bounds n s)) = Some t \<and>
    (\<exists>i. find_window w t = Some i \<and> mw_workspace i = wm_current t \<and> mw_hidden i) \<and>
    shows_of (wm_actions t) = shows_of (wm_actions s) @ (if is_zoomed os w then [(w, SW_Restore)] else []) @ [(w, SW_Hide)]"
proof -
  obtain i where i: "find_window w s = Some i" using assms(1,3,4) find_window_ex [of w s] by (auto simp: wm_ok_def)
  then have "mw_hwnd i = w" using find_window_Some by blast
  note i = i this
  define u where "u = fst (restore_window_state os safe_bounds monitor w k floating bounds n s)"
  have u: "wm_current u = wm_current s" "wm_active u = w" "\<not> wm_tiling u"
    "\<exists>j. find_window w u = Some j \<and> mw_workspace j = clamp k 0 3 \<and> mw_hidden j"
    "shows_of (wm_actions u) = shows_of (wm_actions s) @ (if is_zoomed os w then [(w, SW_Restore)] else []) @ [(w, SW_Hide)]"
    using assms i by (simp_all add: u_def restore_window_state_def find_or_add_def Let_def)
  then obtain j where j: "find_window w u = Some j" "mw_workspace j = clamp k 0 3" "mw_hidden j" by blast
  have cur: "0 \<le> wm_current s" "wm_current s < 4" using assms(1) by (simp_all add: wm_ok_def)
  have "active_managed_window os u = w" using u j assms(4) by (simp add: active_managed_window_def)
  then have "move_active_to_workspace os (wm_current s) u =
      Some (update_borders os (notify_changed (update_window w (\<lambda>i. i\<lparr>mw_workspace := wm_current s\<rparr>) u)))"
    using u j cur assms(6) by (simp add: move_active_to_workspace_def kWorkspaceCount_def tile_if_enabled_def Let_def)
  moreover have "mw_hwnd j = w" using find_window_Some [OF j(1)] by blast
  ultimately show ?thesis using u j by (simp add: u_def [symmetric])
qed

lemma restore_then_move_hides_witness:
  "\<exists>t. move_active_to_workspace sample_os 0 (fst (restore_window_state sample_os (\<lambda>_ r. r) (\<lambda>_. 1) 2 1 False
      (box 0 0 400 300) 1 (sample_wm False))) = Some t \<and>
    (\<exists>i. find_window 2 t = Some i \<and> mw_workspace i = wm_current t \<and> mw_hidden i)"
proof -
  have "is_window sample_os 2" "clamp 1 0 3 \<noteq> (0 :: int)" by (simp_all add: clamp_def)
  then show ?thesis using restore_then_move_hides [of "sample_wm False" 2 sample_os 1 "\<lambda>_ r. r" "\<lambda>_. 1" False "box 0 0 400 300" 1] by auto
qed

end
