(* ===== verification/Wildcard.thy ===== *)
theory Wildcard
  imports Prelude
begin

text \<open>
  \<open>WildcardMatch\<close> of \<open>native_workspace_automation.cpp\<close>: a pattern with \<open>?\<close> for one character and \<open>*\<close> for any text, matched
  by a loop over two indices that remembers the last star. The reference is \<open>glob\<close>, by recursion on the pattern. The
  loop tries a character as a literal before it tries it as a star, so the two agree only on texts without stars.
\<close>

definition QM :: "16 word" where "QM = 0x3F"
definition STAR :: "16 word" where "STAR = 0x2A"

lemma QM_STAR: "QM \<noteq> STAR"
  by (simp add: QM_def STAR_def)

section \<open>The loop\<close>

text \<open>\<open>star\<close> is \<open>npos\<close> or the index of the last star, \<open>retry\<close> the position the star's text ends at.\<close>

function wildcard_loop :: "16 word list \<Rightarrow> 16 word list \<Rightarrow> nat \<Rightarrow> nat \<Rightarrow> nat option \<Rightarrow> nat \<Rightarrow> bool" where
  "wildcard_loop p v pi vi star retry =
     (if vi < length v then
        if pi < length p \<and> (p ! pi = QM \<or> p ! pi = v ! vi) then wildcard_loop p v (pi + 1) (vi + 1) star retry
        else if pi < length p \<and> p ! pi = STAR then wildcard_loop p v (pi + 1) vi (Some pi) vi
        else (case star of
            Some k \<Rightarrow> wildcard_loop p v (k + 1) (retry + 1) star (retry + 1)
          | None \<Rightarrow> False)
      else dropWhile (\<lambda>c. c = STAR) (drop pi p) = [])"
  by pat_completeness auto

text \<open>
  A star advances the last star, a retry advances the retry position, a match the position in the text. The first
  component covers states the loop never starts in, with the last star ahead of the pattern index.
\<close>

termination
  by (relation "measures [\<lambda>(p, v, pi, vi, star, retry). (case star of Some k \<Rightarrow> if pi \<le> k then 1 else 0 | None \<Rightarrow> 0),
        \<lambda>(p, v, pi, vi, star, retry). length p - (case star of Some k \<Rightarrow> Suc k | None \<Rightarrow> 0),
        \<lambda>(p, v, pi, vi, star, retry). length v - retry,
        \<lambda>(p, v, pi, vi, star, retry). length v - vi]")
    (auto split: option.splits if_splits)

declare wildcard_loop.simps [simp del]

definition wildcard_match :: "16 word list \<Rightarrow> 16 word list \<Rightarrow> bool" where
  "wildcard_match p v = wildcard_loop p v 0 0 None 0"

section \<open>The reference\<close>

fun glob :: "16 word list \<Rightarrow> 16 word list \<Rightarrow> bool" where
  "glob [] v = (v = [])"
| "glob (c # p) v =
     (if c = STAR then (\<exists>k \<le> length v. glob p (drop k v))
      else case v of [] \<Rightarrow> False | x # v' \<Rightarrow> (c = QM \<or> c = x) \<and> glob p v')"

lemma glob_stars: "glob p [] \<longleftrightarrow> dropWhile (\<lambda>c. c = STAR) p = []"
  by (induction p) auto

lemma glob_star: "glob (STAR # p) v \<longleftrightarrow> (\<exists>k \<le> length v. glob p (drop k v))"
  by simp

lemma glob_char: "c \<noteq> STAR \<Longrightarrow> glob (c # p) (x # v) \<longleftrightarrow> (c = QM \<or> c = x) \<and> glob p v"
  by simp

text \<open>A character of the pattern that matches as a literal, star or not, leaves a match of the rest a match.\<close>

lemma glob_literal: "c = QM \<or> c = x \<Longrightarrow> glob p v \<Longrightarrow> glob (c # p) (x # v)"
proof (cases "c = STAR")
  case True
  assume "glob p v"
  then show ?thesis using True by (auto intro!: exI [of _ 1])
qed auto

text \<open>A star before a rest: it may skip more.\<close>

lemma glob_star_later: "glob (STAR # p) (drop j v) \<Longrightarrow> i \<le> j \<Longrightarrow> glob (STAR # p) (drop i v)"
proof -
  assume "glob (STAR # p) (drop j v)" "i \<le> j"
  then obtain k where k: "k \<le> length v - j" "glob p (drop (k + j) v)" by (auto simp: add.commute)
  show ?thesis
  proof (cases "j \<le> length v")
    case True
    then show ?thesis unfolding glob_star using k \<open>i \<le> j\<close> by (intro exI [of _ "k + (j - i)"]) (auto simp: add.commute)
  next
    case False
    then have "glob p []" using k by simp
    then show ?thesis unfolding glob_star by (intro exI [of _ "length v - i"]) auto
  qed
qed

section \<open>Every match of the loop is a match\<close>

definition sound_state :: "16 word list \<Rightarrow> 16 word list \<Rightarrow> nat \<Rightarrow> nat \<Rightarrow> nat option \<Rightarrow> nat \<Rightarrow> bool" where
  "sound_state p v pi vi star retry \<longleftrightarrow>
     (glob (drop pi p) (drop vi v) \<longrightarrow> glob p v) \<and>
     (\<forall>k. star = Some k \<longrightarrow> (\<forall>j \<ge> retry. glob (drop (k + 1) p) (drop j v) \<longrightarrow> glob p v))"

lemma drop_at: "i < length xs \<Longrightarrow> drop i xs = xs ! i # drop (Suc i) xs"
  by (rule Cons_nth_drop_Suc [symmetric])

lemma wildcard_loop_sound:
  "wildcard_loop p v pi vi star retry \<Longrightarrow> sound_state p v pi vi star retry \<Longrightarrow> glob p v"
proof (induction p v pi vi star retry rule: wildcard_loop.induct)
  case (1 p v pi vi star retry)
  note loop = "1.prems"(1) [unfolded wildcard_loop.simps [of p v pi vi star retry]] and st = "1.prems"(2)
  consider (finished) "\<not> vi < length v"
    | (literal) "vi < length v" "pi < length p \<and> (p ! pi = QM \<or> p ! pi = v ! vi)"
    | (star) "vi < length v" "\<not> (pi < length p \<and> (p ! pi = QM \<or> p ! pi = v ! vi))" "pi < length p \<and> p ! pi = STAR"
    | (retry) "vi < length v" "\<not> (pi < length p \<and> (p ! pi = QM \<or> p ! pi = v ! vi))" "\<not> (pi < length p \<and> p ! pi = STAR)"
    by blast
  then show ?case
  proof cases
    case finished
    then show ?thesis using loop st by (simp add: sound_state_def glob_stars)
  next
    case literal
    have "glob (drop (pi + 1) p) (drop (vi + 1) v) \<Longrightarrow> glob (drop pi p) (drop vi v)"
      using literal glob_literal [of "p ! pi" "v ! vi" "drop (Suc pi) p" "drop (Suc vi) v"]
      by (simp add: drop_at del: glob.simps)
    then have "sound_state p v (pi + 1) (vi + 1) star retry" using st by (simp add: sound_state_def)
    then show ?thesis using "1.IH"(1) [OF literal] loop literal by simp
  next
    case star
    have *: "glob p v" if "vi \<le> j" "glob (drop (pi + 1) p) (drop j v)" for j
    proof -
      have "glob (STAR # drop (Suc pi) p) (drop j v)" using that(2) unfolding glob_star by (intro exI [of _ 0]) simp
      then have "glob (drop pi p) (drop vi v)" using glob_star_later that(1) star(3) by (simp add: drop_at del: glob.simps)
      then show ?thesis using st by (simp add: sound_state_def)
    qed
    then have "sound_state p v (pi + 1) vi (Some pi) vi" using * [of vi] by (simp add: sound_state_def)
    then show ?thesis using "1.IH"(2) [OF star] loop star by simp
  next
    case retry
    then obtain k where k: "star = Some k" using loop by (auto split: option.splits)
    have "glob p v" if "retry + 1 \<le> j" "glob (drop (k + 1) p) (drop j v)" for j
    proof -
      have "retry \<le> j" using that(1) by simp
      then show ?thesis using st that(2) unfolding sound_state_def k by blast
    qed
    then have "sound_state p v (k + 1) (retry + 1) star (retry + 1)" unfolding sound_state_def k by blast
    then show ?thesis using "1.IH"(3) [OF retry k] loop retry k by simp
  qed
qed

section \<open>On a text without stars every match is found\<close>

lemma glob_prefix:
  "glob q w \<Longrightarrow> n \<le> length q \<Longrightarrow> \<forall>x < n. q ! x \<noteq> STAR \<Longrightarrow> n \<le> length w \<and> glob (drop n q) (drop n w)"
proof (induction n arbitrary: q w)
  case (Suc n)
  then obtain c q' where q: "q = c # q'" by (cases q) auto
  with Suc.prems obtain x w' where w: "w = x # w'" by (cases w) auto
  have "c \<noteq> STAR" using Suc.prems(3) q by fastforce
  then have "glob q' w'" using Suc.prems(1) q w by simp
  moreover have "\<forall>x < n. q' ! x \<noteq> STAR" using Suc.prems(3) q by fastforce
  ultimately show ?case using Suc.IH [of q' w'] Suc.prems(2) q w by simp
qed simp

definition complete_state :: "16 word list \<Rightarrow> 16 word list \<Rightarrow> nat \<Rightarrow> nat \<Rightarrow> nat option \<Rightarrow> nat \<Rightarrow> bool" where
  "complete_state p v pi vi star retry \<longleftrightarrow> pi \<le> length p \<and> vi \<le> length v \<and>
     (glob (drop pi p) (drop vi v) \<or>
      (\<exists>k j. star = Some k \<and> retry < j \<and> j \<le> length v \<and> glob (drop (k + 1) p) (drop j v))) \<and>
     (\<forall>k. star = Some k \<longrightarrow> k < pi \<and> retry \<le> vi \<and> vi - retry = pi - (k + 1) \<and> (\<forall>x. k < x \<and> x < pi \<longrightarrow> p ! x \<noteq> STAR))"

text \<open>A later position of the last star's text carries the pattern up to the present index.\<close>

lemma complete_later:
  assumes "complete_state p v pi vi (Some k) retry" "retry < j" "j \<le> length v" "glob (drop (k + 1) p) (drop j v)"
  shows "vi < j + (pi - (k + 1)) \<and> j + (pi - (k + 1)) \<le> length v \<and> glob (drop pi p) (drop (j + (pi - (k + 1))) v)"
proof -
  let ?n = "pi - (k + 1)"
  have st: "k < pi" "retry \<le> vi" "vi - retry = ?n" "\<And>x. k < x \<Longrightarrow> x < pi \<Longrightarrow> p ! x \<noteq> STAR" "pi \<le> length p"
    using assms(1) by (auto simp: complete_state_def)
  have "\<forall>x < ?n. drop (k + 1) p ! x \<noteq> STAR" using st by (auto intro!: st(4))
  then have "?n \<le> length (drop j v) \<and> glob (drop ?n (drop (k + 1) p)) (drop ?n (drop j v))"
    using glob_prefix [OF assms(4)] st(5) by simp
  then show ?thesis using st assms(2,3) by (auto simp: add.commute)
qed

lemma wildcard_loop_complete:
  "complete_state p v pi vi star retry \<Longrightarrow> STAR \<notin> set v \<Longrightarrow> wildcard_loop p v pi vi star retry"
proof (induction p v pi vi star retry rule: wildcard_loop.induct)
  case (1 p v pi vi star retry)
  note st = "1.prems"(1)
  have bounds: "pi \<le> length p" "vi \<le> length v" using st by (auto simp: complete_state_def)
  consider (finished) "\<not> vi < length v"
    | (literal) "vi < length v" "pi < length p \<and> (p ! pi = QM \<or> p ! pi = v ! vi)"
    | (star) "vi < length v" "\<not> (pi < length p \<and> (p ! pi = QM \<or> p ! pi = v ! vi))" "pi < length p \<and> p ! pi = STAR"
    | (retry) "vi < length v" "\<not> (pi < length p \<and> (p ! pi = QM \<or> p ! pi = v ! vi))" "\<not> (pi < length p \<and> p ! pi = STAR)"
    by blast
  then show ?case
  proof cases
    case finished
    have "glob (drop pi p) (drop vi v)"
    proof (rule ccontr)
      assume "\<not> glob (drop pi p) (drop vi v)"
      then obtain k j where "star = Some k" "retry < j" "j \<le> length v" "glob (drop (k + 1) p) (drop j v)"
        using st by (auto simp: complete_state_def)
      then show False using complete_later [of p v pi vi k retry j] st finished by auto
    qed
    then show ?thesis using finished by (subst wildcard_loop.simps) (simp add: glob_stars)
  next
    case literal
    then have ns: "p ! pi \<noteq> STAR" using "1.prems"(2) nth_mem [OF literal(1)] QM_STAR by metis
    have "glob (drop pi p) (drop vi v) \<Longrightarrow> glob (drop (pi + 1) p) (drop (vi + 1) v)"
      using literal ns by (simp add: drop_at)
    moreover have "(k < x \<and> x < pi + 1 \<longrightarrow> p ! x \<noteq> STAR)" if "\<forall>x. k < x \<and> x < pi \<longrightarrow> p ! x \<noteq> STAR" for k x
      using that ns less_Suc_eq by auto
    ultimately have "complete_state p v (pi + 1) (vi + 1) star retry"
      using st literal unfolding complete_state_def by (auto simp: Suc_diff_le)
    then show ?thesis using "1.IH"(1) [OF literal _ "1.prems"(2)] literal by (subst wildcard_loop.simps) simp
  next
    case star
    have "glob (drop pi p) (drop vi v)"
    proof (rule ccontr)
      assume "\<not> glob (drop pi p) (drop vi v)"
      then obtain k j where k: "star = Some k" "retry < j" "j \<le> length v" "glob (drop (k + 1) p) (drop j v)"
        using st by (auto simp: complete_state_def)
      then have "vi \<le> j + (pi - (k + 1))" "glob (drop pi p) (drop (j + (pi - (k + 1))) v)"
        using complete_later [of p v pi vi k retry j] st by auto
      then have "glob (drop pi p) (drop vi v)" using star(3) glob_star_later by (simp add: drop_at del: glob.simps)
      then show False using \<open>\<not> glob (drop pi p) (drop vi v)\<close> by blast
    qed
    then obtain i where "i \<le> length v - vi" "glob (drop (pi + 1) p) (drop (vi + i) v)"
      using star(3) by (auto simp: drop_at add.commute)
    then have "complete_state p v (pi + 1) vi (Some pi) vi"
      using star bounds unfolding complete_state_def by (cases "i = 0") (auto intro: exI [of _ "vi + i"])
    then show ?thesis using "1.IH"(2) [OF star _ "1.prems"(2)] star by (subst wildcard_loop.simps) simp
  next
    case retry
    have "\<not> glob (drop pi p) (drop vi v)"
      using retry by (cases "pi < length p") (auto simp: drop_at)
    then obtain k j where k: "star = Some k" "retry < j" "j \<le> length v" "glob (drop (k + 1) p) (drop j v)"
      using st by (auto simp: complete_state_def)
    have "k < pi" "retry \<le> vi" using st k(1) by (auto simp: complete_state_def)
    then have "complete_state p v (k + 1) (retry + 1) star (retry + 1)"
      using k retry(1) bounds unfolding complete_state_def by (cases "j = retry + 1") auto
    then show ?thesis using "1.IH"(3) [OF retry k(1) _ "1.prems"(2)] retry k(1) by (subst wildcard_loop.simps) auto
  qed
qed

section \<open>Properties\<close>

text \<open>
  C26. The loop ends on every pattern and text. What it accepts the pattern matches; on a text without stars it accepts
  exactly what the pattern matches.
\<close>

theorem wildcard_match_correct:
  "(wildcard_match p v \<longrightarrow> glob p v) \<and> (STAR \<notin> set v \<longrightarrow> wildcard_match p v = glob p v)"
proof -
  have "wildcard_match p v \<Longrightarrow> glob p v"
    unfolding wildcard_match_def by (erule wildcard_loop_sound) (simp add: sound_state_def)
  moreover have "glob p v \<Longrightarrow> STAR \<notin> set v \<Longrightarrow> wildcard_match p v"
    unfolding wildcard_match_def by (rule wildcard_loop_complete) (simp_all add: complete_state_def)
  ultimately show ?thesis by blast
qed

lemma wildcard_match_correct_witness:
  "glob [STAR, 0x61, QM] [0x61, 0x61, 0x61, 0x62] \<and> \<not> glob [STAR, 0x61] [0x61, 0x62]"
proof -
  have "wildcard_match [STAR, 0x61, QM] [0x61, 0x61, 0x61, 0x62]" "\<not> wildcard_match [STAR, 0x61] [0x61, 0x62]"
    "STAR \<notin> set [0x61, 0x62]"
    by code_simp+
  then show ?thesis using wildcard_match_correct by blast
qed

text \<open>
  A text that itself begins with a star is lost: a pattern that starts with a star and has none later matches it only when
  the rest matches without the star's freedom. The pattern \<open>*\<close>, which should match everything, refuses each title that
  begins with a star and is longer - the titles of unsaved documents of several editors.
\<close>

theorem wildcard_star_title_lost: "glob [STAR] (STAR # v) \<and> (wildcard_match [STAR] (STAR # v) \<longleftrightarrow> v = [])"
proof -
  have "wildcard_match [STAR] (STAR # v) = wildcard_loop [STAR] (STAR # v) 1 1 None 0"
    unfolding wildcard_match_def by (subst wildcard_loop.simps) simp
  also have "\<dots> \<longleftrightarrow> v = []" by (subst wildcard_loop.simps) simp
  finally show ?thesis by auto
qed

end
