(* ===== verification/Workspace_Automation.thy ===== *)
theory Workspace_Automation
  imports Window_Manager_Inv Wildcard
begin

unbundle bit_operations_syntax

text \<open>
  \<open>native_workspace_automation.cpp\<close> and \<open>native_workspace_studio_service.cpp\<close>: window rules, layout presets, saved layouts, the
  focus history and the launches of a workspace, which drive the window manager through its public operations. What
  Windows answers may depend on what was asked of it before: a \<open>world\<close> maps the log of requests to the answers. A tick
  runs in one world; the next tick may run in any other.
\<close>

section \<open>Answers and state\<close>

text \<open>
  \<open>dk_fold\<close> is the folding of \<open>_wcsicmp\<close>, \<open>dk_text\<close> what \<open>GetWindowTextW\<close> writes into 1,024 characters, \<open>dk_area\<close> the
  work area of the parameters of the system, \<open>dk_clock\<close> hour, minute and second of \<open>GetLocalTime\<close>, \<open>dk_monitors\<close> the devices with their work areas.
\<close>

record desk =
  dk_os :: os
  dk_text :: "hwnd \<Rightarrow> wide_string"
  dk_image_path :: "u32 \<Rightarrow> wide_string option"
  dk_monitors :: "(wide_string \<times> rect) list"
  dk_device :: "u64 \<Rightarrow> wide_string option"
  dk_work :: "u64 \<Rightarrow> rect option"
  dk_area :: rect
  dk_desktop :: hwnd
  dk_show_command :: "hwnd \<Rightarrow> u32 option"
  dk_fold :: "16 word \<Rightarrow> 16 word"
  dk_now :: u64
  dk_clock :: "nat \<times> nat \<times> nat"

type_synonym world = "wm_action list \<Rightarrow> desk"

definition now_in :: "world \<Rightarrow> wm \<Rightarrow> desk" where
  "now_in W m = W (wm_actions m)"

definition os_in :: "world \<Rightarrow> wm \<Rightarrow> os" where
  "os_in W m = dk_os (now_in W m)"

record window_identity =
  id_hwnd :: hwnd
  id_process_id :: u32
  id_process_name :: wide_string
  id_title :: wide_string
  id_class :: wide_string

record focus_record =
  fr_hwnd :: hwnd
  fr_process_id :: u32
  fr_workspace :: int
  fr_process_name :: wide_string
  fr_title :: wide_string
  fr_touched :: u64

datatype launch_request =
    Apply_Wallpaper wide_string
  | Launch_App wide_string
  | Launch_External wide_string wide_string

record automation =
  au_processed :: "(hwnd \<times> u64) list"
  au_history :: "focus_record list"
  au_launched :: "bool list"
  au_last_workspace :: int
  au_last_foreground :: hwnd
  au_requests :: "launch_request list"

definition new_automation :: automation where
  "new_automation = \<lparr>au_processed = [], au_history = [], au_launched = [False, False, False, False],
     au_last_workspace = - 1, au_last_foreground = 0, au_requests = []\<rparr>"

definition reset_runtime_state :: "automation \<Rightarrow> automation" where
  "reset_runtime_state au = au\<lparr>au_processed := [], au_history := [], au_launched := map (\<lambda>_. False) (au_launched au),
     au_last_workspace := - 1, au_last_foreground := 0\<rparr>"

section \<open>Identities and rules\<close>

definition base_name :: "wide_string \<Rightarrow> wide_string" where
  "base_name path = rev (takeWhile (\<lambda>c. c \<noteq> 0x5C \<and> c \<noteq> 0x2F) (rev path))"

definition identify_window :: "desk \<Rightarrow> hwnd \<Rightarrow> u32 \<Rightarrow> window_identity" where
  "identify_window d w pid0 =
     (if w = 0 \<or> \<not> is_window (dk_os d) w then
        \<lparr>id_hwnd = w, id_process_id = pid0, id_process_name = [], id_title = [], id_class = []\<rparr>
      else let pid = (if pid0 = 0 then process_of (dk_os d) w else pid0) in
        \<lparr>id_hwnd = w, id_process_id = pid,
         id_process_name = (if pid = 0 then [] else case dk_image_path d pid of Some path \<Rightarrow> base_name path | None \<Rightarrow> []),
         id_title = dk_text d w, id_class = class_of (dk_os d) w\<rparr>)"

definition lower_text :: "desk \<Rightarrow> wide_string \<Rightarrow> wide_string" where
  "lower_text d s = map (lower (dk_os d)) s"

definition same_folded :: "desk \<Rightarrow> wide_string \<Rightarrow> wide_string \<Rightarrow> bool" where
  "same_folded d s t \<longleftrightarrow> map (dk_fold d) s = map (dk_fold d) t"

definition rule_matches :: "desk \<Rightarrow> workspace_rule \<Rightarrow> window_identity \<Rightarrow> bool" where
  "rule_matches d rule identity =
     (if \<not> ru_enabled rule \<or> ru_pattern rule = [] then False
      else let candidate = (if ru_field rule = field_window_title then id_title identity
              else if ru_field rule = field_window_class then id_class identity else id_process_name identity);
            pattern = lower_text d (ru_pattern rule); candidate = lower_text d candidate
        in if ru_mode rule = mode_exact then candidate = pattern
          else if ru_mode rule = mode_prefix then length pattern \<le> length candidate \<and> take (length pattern) candidate = pattern
          else if ru_mode rule = mode_wildcard then wildcard_match pattern candidate
          else contains_text pattern candidate)"

definition apply_rule :: "world \<Rightarrow> workspace_rule \<Rightarrow> window_identity \<Rightarrow> wm \<Rightarrow> wm option" where
  "apply_rule W rule identity m =
     (let w = id_hwnd identity in
      if w = 0 \<or> \<not> is_window (os_in W m) w then Some m
      else let workspace = clamp (ru_workspace rule) 0 3 in
        do { m \<leftarrow> set_window_floating (os_in W m) w (ru_floating rule) m;
             m \<leftarrow> move_window_to_workspace (os_in W m) w workspace m;
             Some (if ru_maximize rule \<and> workspace = wm_current m \<and> is_window (os_in W m) w
               then act (Show w SW_Maximize) m else m) })"

text \<open>The windows as they were listed before the first rule; only the first rule that matches is applied.\<close>

fun apply_rules_loop ::
  "world \<Rightarrow> u64 \<Rightarrow> workspace_rule list \<Rightarrow> managed_window list \<Rightarrow> wm \<times> automation \<Rightarrow> (wm \<times> automation) option" where
  "apply_rules_loop W now rules [] (m, au) = Some (m, au)"
| "apply_rules_loop W now rules (i # is) (m, au) =
     (if mw_hwnd i = 0 \<or> \<not> is_window (os_in W m) (mw_hwnd i) \<or> mw_hwnd i \<in> fst ` set (au_processed au)
      then apply_rules_loop W now rules is (m, au)
      else let identity = identify_window (now_in W m) (mw_hwnd i) (mw_process_id i) in
        do { m' \<leftarrow> (case find (\<lambda>r. rule_matches (now_in W m) r identity) rules of
                    Some r \<Rightarrow> apply_rule W r identity m | None \<Rightarrow> Some m);
             apply_rules_loop W now rules is (m', au\<lparr>au_processed := (mw_hwnd i, now) # au_processed au\<rparr>) })"

definition apply_rules_to_new_windows :: "world \<Rightarrow> studio_store \<Rightarrow> wm \<times> automation \<Rightarrow> (wm \<times> automation) option" where
  "apply_rules_to_new_windows W st ma =
     apply_rules_loop W (dk_now (now_in W (fst ma))) (st_rules st) (all_managed_windows (os_in W (fst ma)) (fst ma)) ma"

definition reapply_all_rules :: "world \<Rightarrow> studio_store \<Rightarrow> wm \<times> automation \<Rightarrow> (wm \<times> automation) option" where
  "reapply_all_rules W st ma = apply_rules_to_new_windows W st (fst ma, (snd ma)\<lparr>au_processed := []\<rparr>)"

section \<open>Saved layouts\<close>

definition identity_matches_snapshot :: "desk \<Rightarrow> window_identity \<Rightarrow> layout_window \<Rightarrow> bool" where
  "identity_matches_snapshot d identity saved =
     (if lw_process_name saved \<noteq> [] \<and> \<not> same_folded d (id_process_name identity) (lw_process_name saved) then False
      else if lw_window_class saved \<noteq> [] \<and> \<not> same_folded d (id_class identity) (lw_window_class saved) then False
      else if lw_title_hint saved \<noteq> [] then
        (let title = lower_text d (id_title identity); hint = lower_text d (lw_title_hint saved)
         in contains_text hint title \<or> contains_text title hint)
      else True)"

definition windows_for_workspace :: "os \<Rightarrow> int \<Rightarrow> wm \<Rightarrow> managed_window list" where
  "windows_for_workspace os workspace m =
     filter (\<lambda>i. mw_workspace i = workspace \<and> mw_hwnd i \<noteq> 0 \<and> is_window os (mw_hwnd i)) (all_managed_windows os m)"

definition work_area_by_device :: "desk \<Rightarrow> wide_string \<Rightarrow> hwnd \<Rightarrow> rect" where
  "work_area_by_device d device w =
     (case (if device = [] then None else find (\<lambda>(name, _). same_folded d name device) (dk_monitors d)) of
        Some (_, work) \<Rightarrow> work
      | None \<Rightarrow>
          let monitor = monitor_primary (dk_os d) (if w \<noteq> 0 then w else dk_desktop d) in
          case (if monitor \<noteq> 0 then dk_work d monitor else None) of Some work \<Rightarrow> work | None \<Rightarrow> dk_area d)"

definition position_window :: "world \<Rightarrow> hwnd \<Rightarrow> rect \<Rightarrow> wm \<Rightarrow> wm" where
  "position_window W w target m =
     (if w = 0 \<or> \<not> is_window (os_in W m) w then m
      else let m = (if is_zoomed (os_in W m) w then act (Show w SW_Restore) m else m)
        in act (Place w (box (rc_left target) (rc_top target) (max 160 (rc_right target - rc_left target))
             (max 120 (rc_bottom target - rc_top target)))) m)"

definition capture_window :: "desk \<Rightarrow> managed_window \<Rightarrow> layout_window option" where
  "capture_window d i =
     (case rect_of (dk_os d) (mw_hwnd i) of None \<Rightarrow> None
      | Some bounds \<Rightarrow>
          let monitor = monitor_near (dk_os d) (mw_hwnd i) in
          case (if monitor = 0 then None else dk_work d monitor) of None \<Rightarrow> None
          | Some work \<Rightarrow>
              let identity = identify_window d (mw_hwnd i) (mw_process_id i) in
              Some \<lparr>lw_process_name = id_process_name identity, lw_window_class = id_class identity,
                    lw_title_hint = take 48 (id_title identity),
                    lw_monitor_device = (case dk_device d monitor of Some name \<Rightarrow> name | None \<Rightarrow> []),
                    lw_bounds = normalize_bounds bounds work, lw_floating = mw_floating i,
                    lw_show_command = (case dk_show_command d (mw_hwnd i) of Some c \<Rightarrow> c | None \<Rightarrow> 1)\<rparr>)"

definition capture :: "desk \<Rightarrow> int \<Rightarrow> wide_string \<Rightarrow> wm \<Rightarrow> studio_store \<Rightarrow> workspace_snapshot \<times> studio_store" where
  "capture d workspace name m st =
     new_snapshot workspace name (dk_now d)
       (List.map_filter (capture_window d) (windows_for_workspace (dk_os d) (clamp workspace 0 3) m)) st"

text \<open>Each saved window takes the first listed window that is not taken and matches; the list of the taken ones comes back.\<close>

fun restore_loop :: "world \<Rightarrow> managed_window list \<Rightarrow> layout_window list \<Rightarrow> hwnd list \<Rightarrow> wm \<Rightarrow> (hwnd list \<times> wm) option" where
  "restore_loop W windows [] consumed m = Some (consumed, m)"
| "restore_loop W windows (saved # rest) consumed m =
     (case find (\<lambda>c. mw_hwnd c \<notin> set consumed \<and>
          identity_matches_snapshot (now_in W m) (identify_window (now_in W m) (mw_hwnd c) (mw_process_id c)) saved) windows of
        None \<Rightarrow> restore_loop W windows rest consumed m
      | Some c \<Rightarrow>
          let w = mw_hwnd c; target = denormalize_bounds (lw_bounds saved) (work_area_by_device (now_in W m) (lw_monitor_device saved) w) in
          do { m \<leftarrow> set_window_floating (os_in W m) w (lw_floating saved) m;
               let m = position_window W w target m;
                   m = (if lw_show_command saved = 3 then act (Show w SW_Maximize) m
                        else if lw_show_command saved = 2 \<or> lw_show_command saved = 6 then act (Show w SW_Minimize) m else m)
               in restore_loop W windows rest (consumed @ [w]) m })"

definition restore_layout :: "world \<Rightarrow> workspace_snapshot \<Rightarrow> wm \<Rightarrow> (wm \<times> bool) option" where
  "restore_layout W snapshot m =
     (if sn_workspace snapshot < 0 \<or> 4 \<le> sn_workspace snapshot \<or> sn_workspace snapshot \<noteq> wm_current m then Some (m, False)
      else do { (consumed, m) \<leftarrow> restore_loop W (windows_for_workspace (os_in W m) (sn_workspace snapshot) m) (sn_windows snapshot) [] m;
                Some (m, consumed \<noteq> []) })"

section \<open>Presets\<close>

fun float_windows :: "world \<Rightarrow> bool \<Rightarrow> managed_window list \<Rightarrow> wm \<Rightarrow> wm option" where
  "float_windows W b [] m = Some m"
| "float_windows W b (i # is) m = do { m \<leftarrow> set_window_floating (os_in W m) (mw_hwnd i) b m; float_windows W b is m }"

definition place_windows :: "world \<Rightarrow> (nat \<Rightarrow> rect) \<Rightarrow> managed_window list \<Rightarrow> wm \<Rightarrow> wm" where
  "place_windows W target is m = fold (\<lambda>(k, i). position_window W (mw_hwnd i) (target k)) (enumerate 0 is) m"

definition apply_preset :: "world \<Rightarrow> int \<Rightarrow> u32 \<Rightarrow> wm \<Rightarrow> wm option" where
  "apply_preset W workspace0 preset m =
     (let workspace = clamp workspace0 0 3 in
      if workspace \<noteq> wm_current m then Some m
      else let windows = windows_for_workspace (os_in W m) workspace m in
        if windows = [] then Some m
        else if preset = layout_free then set_tiling_enabled (os_in W m) False m
        else if preset = layout_master_stack then
          do { m \<leftarrow> float_windows W False windows m; m \<leftarrow> set_tiling_enabled (os_in W m) True m;
               tile_current_workspace (os_in W m) m }
        else
          do { m \<leftarrow> set_tiling_enabled (os_in W m) False m; m \<leftarrow> float_windows W True windows m;
               let work = work_area_by_device (now_in W m) [] (mw_hwnd (hd windows)); n = length windows
               in Some (if preset = layout_focus then
                   fold (\<lambda>i. act (Show (mw_hwnd i) SW_Minimize)) (tl windows)
                     (position_window W (mw_hwnd (hd windows)) (focus_target work) m)
                 else if preset = layout_columns then place_windows W (columns_target work n) windows m
                 else place_windows W (grid_target work n) windows m) })"

section \<open>The tick\<close>

definition launch_entries :: "int \<Rightarrow> studio_store \<Rightarrow> automation \<Rightarrow> automation" where
  "launch_entries workspace st au = au\<lparr>au_requests := au_requests au @
     map (\<lambda>e. if la_cloudos_app e then Launch_App (la_target e) else Launch_External (la_target e) (la_arguments e))
       (filter (\<lambda>e. \<not> (\<not> la_enabled e \<or> la_workspace e \<noteq> workspace \<or> la_target e = [])) (st_launches st))\<rparr>"

text \<open>Wallpaper and layout of a profile, shared by a change of workspace and by \<open>ApplyCurrentProfile\<close>.\<close>

definition apply_profile :: "world \<Rightarrow> int \<Rightarrow> studio_store \<Rightarrow> wm \<times> automation \<Rightarrow> (wm \<times> automation) option" where
  "apply_profile W workspace st ma =
     (let (m, au) = ma; profile = st_profiles st ! nat workspace;
          au = (if pr_apply_wallpaper profile \<and> pr_wallpaper_path profile \<noteq> []
            then au\<lparr>au_requests := au_requests au @ [Apply_Wallpaper (pr_wallpaper_path profile)]\<rparr> else au)
      in do { m \<leftarrow> (if pr_auto_tile profile \<or> pr_layout profile \<noteq> layout_free
                 then apply_preset W workspace (pr_layout profile) m else set_tiling_enabled (os_in W m) False m);
              Some (m, au) })"

definition handle_workspace_transition :: "world \<Rightarrow> int \<Rightarrow> studio_store \<Rightarrow> wm \<times> automation \<Rightarrow> (wm \<times> automation) option" where
  "handle_workspace_transition W workspace st ma =
     (if workspace < 0 \<or> 4 \<le> workspace then Some ma
      else do { (m, au) \<leftarrow> apply_profile W workspace st ma;
                Some (m, if pr_auto_launch (st_profiles st ! nat workspace) \<and> \<not> au_launched au ! nat workspace
                  then launch_entries workspace st (au\<lparr>au_launched := (au_launched au)[nat workspace := True]\<rparr>) else au) })"

definition track_focus :: "world \<Rightarrow> wm \<Rightarrow> automation \<Rightarrow> automation" where
  "track_focus W m au =
     (let w = foreground (os_in W m) in
      if w = 0 \<or> w = au_last_foreground au then au
      else let au = au\<lparr>au_last_foreground := w\<rparr>; workspace = workspace_for w m in
        if workspace < 0 then au
        else let pid = process_of (os_in W m) w; identity = identify_window (now_in W m) w pid;
            record = \<lparr>fr_hwnd = w, fr_process_id = pid, fr_workspace = workspace, fr_process_name = id_process_name identity,
                      fr_title = id_title identity, fr_touched = dk_now (now_in W m)\<rparr>;
            history = record # filter (\<lambda>r. fr_hwnd r \<noteq> w) (au_history au)
          in au\<lparr>au_history := (if 64 < length history then take 64 history else history)\<rparr>)"

definition focus_history_item :: "world \<Rightarrow> nat \<Rightarrow> wm \<times> automation \<Rightarrow> (wm \<times> bool) option" where
  "focus_history_item W index ma =
     (let (m, au) = ma in
      if length (au_history au) \<le> index then Some (m, False)
      else let record = au_history au ! index in
        if fr_hwnd record = 0 \<or> \<not> is_window (os_in W m) (fr_hwnd record) then Some (m, False)
        else do { m \<leftarrow> (if wm_current m \<noteq> fr_workspace record then switch_workspace (os_in W m) (fr_workspace record) m else Some m);
                  m \<leftarrow> focus_window (os_in W m) (fr_hwnd record) m;
                  Some (m, True) })"

definition clear_focus_history :: "automation \<Rightarrow> automation" where
  "clear_focus_history au = au\<lparr>au_history := []\<rparr>"

definition forget_dead :: "world \<Rightarrow> wm \<Rightarrow> automation \<Rightarrow> automation" where
  "forget_dead W m au =
     (let live = map mw_hwnd (filter (\<lambda>i. mw_hwnd i \<noteq> 0 \<and> is_window (os_in W m) (mw_hwnd i)) (all_managed_windows (os_in W m) m))
      in au\<lparr>au_processed := filter (\<lambda>p. fst p \<in> set live) (au_processed au)\<rparr>)"

definition tick :: "world \<Rightarrow> studio_store \<Rightarrow> wm \<times> automation \<Rightarrow> (wm \<times> automation) option" where
  "tick W st ma =
     do { (m, au) \<leftarrow> apply_rules_to_new_windows W st ma;
          let au = track_focus W m au; workspace = wm_current m in
          do { (m, au) \<leftarrow> (if workspace \<noteq> au_last_workspace au then
                 do { (m, au) \<leftarrow> handle_workspace_transition W workspace st (m, au);
                      Some (m, au\<lparr>au_last_workspace := workspace\<rparr>) }
               else Some (m, au));
               Some (m, forget_dead W m au) } }"

section \<open>The service\<close>

text \<open>The service with its manager registered and its message window created.\<close>

record studio_service =
  sv_observed :: u64
  sv_store :: studio_store
  sv_manager :: wm
  sv_automation :: automation

definition put_service :: "studio_service \<Rightarrow> wm \<times> automation \<Rightarrow> studio_service" where
  "put_service sv ma = sv\<lparr>sv_manager := fst ma, sv_automation := snd ma\<rparr>"

definition service_tick :: "world \<Rightarrow> studio_service \<Rightarrow> studio_service option" where
  "service_tick W sv =
     (let revision = wm_revision (sv_manager sv) in
      if sv_observed sv = revision then Some sv
      else do { ma \<leftarrow> tick W (sv_store sv) (sv_manager sv, sv_automation sv);
                Some (put_service (sv\<lparr>sv_observed := revision\<rparr>) ma) })"

definition service_reapply_rules :: "world \<Rightarrow> studio_service \<Rightarrow> studio_service option" where
  "service_reapply_rules W sv =
     (let m = reconcile (os_in W (sv_manager sv)) (sv_manager sv)
      in do { ma \<leftarrow> reapply_all_rules W (sv_store sv) (m, sv_automation sv); Some (put_service sv ma) })"

definition service_apply_profile :: "world \<Rightarrow> studio_service \<Rightarrow> studio_service option" where
  "service_apply_profile W sv =
     (let workspace = clamp (wm_current (sv_manager sv)) 0 3 in
      do { (m, au) \<leftarrow> apply_profile W workspace (sv_store sv) (sv_manager sv, sv_automation sv);
           Some (put_service sv (m, if pr_auto_launch (st_profiles (sv_store sv) ! nat workspace)
             then launch_entries workspace (sv_store sv) au else au)) })"

text \<open>
  \<open>swprintf_s\<close> into 96 characters: what does not fit with its terminator is an invalid parameter, whose handler ends the
  process.
\<close>

definition two_digits :: "nat \<Rightarrow> wide_string" where
  "two_digits n = (if n < 10 then wide ''0'' else []) @ wide (nat_dec n)"

definition quick_snapshot_name :: "nat \<times> nat \<times> nat \<Rightarrow> int \<Rightarrow> studio_store \<Rightarrow> wide_string option" where
  "quick_snapshot_name clock workspace st =
     (let (hour, minute, second) = clock;
          text = takeWhile (\<lambda>c. c \<noteq> 0) (workspace_name workspace st) @ wide '' '' @ [0xB7] @ wide '' '' @ two_digits hour @ wide '':''
            @ two_digits minute @ wide '':'' @ two_digits second
      in if length text < 96 then Some text else None)"

definition capture_quick_snapshot :: "world \<Rightarrow> studio_service \<Rightarrow> studio_service option" where
  "capture_quick_snapshot W sv =
     (let m = reconcile (os_in W (sv_manager sv)) (sv_manager sv); workspace = clamp (wm_current m) 0 3 in
      do { name \<leftarrow> quick_snapshot_name (dk_clock (now_in W m)) workspace (sv_store sv);
           let (snapshot, st) = capture (now_in W m) workspace name m (sv_store sv)
           in Some (sv\<lparr>sv_manager := m, sv_store := st\<lparr>st_snapshots := st_snapshots st @ [snapshot]\<rparr>\<rparr>) })"

text \<open>The first of the newest snapshots of a workspace.\<close>

definition latest_snapshot :: "int \<Rightarrow> workspace_snapshot list \<Rightarrow> workspace_snapshot option" where
  "latest_snapshot workspace sns =
     fold (\<lambda>n latest. if sn_workspace n \<noteq> workspace then latest
         else case latest of None \<Rightarrow> Some n | Some l \<Rightarrow> if sn_created l < sn_created n then Some n else latest) sns None"

definition restore_latest_snapshot :: "world \<Rightarrow> studio_service \<Rightarrow> (studio_service \<times> bool) option" where
  "restore_latest_snapshot W sv =
     (case latest_snapshot (clamp (wm_current (sv_manager sv)) 0 3) (st_snapshots (sv_store sv)) of
        None \<Rightarrow> Some (sv, False)
      | Some n \<Rightarrow> do { (m, ok) \<leftarrow> restore_layout W n (sv_manager sv); Some (sv\<lparr>sv_manager := m\<rparr>, ok) })"

text \<open>\<open>RestoreLayout\<close> of the window: it switches to the snapshot's workspace first.\<close>

definition restore_saved_layout :: "world \<Rightarrow> u32 \<Rightarrow> studio_service \<Rightarrow> (studio_service \<times> bool) option" where
  "restore_saved_layout W i sv =
     (case find (\<lambda>n. sn_id n = i) (st_snapshots (sv_store sv)) of
        None \<Rightarrow> Some (sv, False)
      | Some n \<Rightarrow>
          let m = sv_manager sv in
          do { m \<leftarrow> (if wm_current m \<noteq> sn_workspace n then switch_workspace (os_in W m) (sn_workspace n) m else Some m);
               (m, ok) \<leftarrow> restore_layout W n m;
               Some (sv\<lparr>sv_manager := m\<rparr>, ok) })"

definition new_service :: "studio_store \<Rightarrow> wm \<Rightarrow> studio_service" where
  "new_service st m = \<lparr>sv_observed = 0xFFFFFFFFFFFFFFFF, sv_store = st, sv_manager = m, sv_automation = new_automation\<rparr>"

definition service_reload :: "studio_store \<Rightarrow> studio_service \<Rightarrow> studio_service" where
  "service_reload st sv = sv\<lparr>sv_store := st, sv_automation := reset_runtime_state (sv_automation sv), sv_observed := 0xFFFFFFFFFFFFFFFF\<rparr>"

end
