(* ===== verification/Automation_Facts.thy ===== *)
theory Automation_Facts
  imports Workspace_Automation
begin

text \<open>
  What the automation leaves true. The locale \<open>kept_by_manager\<close> is the contract between the automation and the window
  manager: a property of the manager's state that each operation the automation calls keeps, and that no call crashes.
  Inside it every operation of the automation keeps the property too; it is interpreted on the manager's invariants and
  on the facts that the current workspace stays and that no window leaves the list.
\<close>

section \<open>Operations that stay on the workspace and lose no window\<close>

definition steady :: "wm \<Rightarrow> wm \<Rightarrow> bool" where
  "steady s t \<longleftrightarrow> wm_current t = wm_current s \<and> mw_hwnd ` set (wm_windows s) \<subseteq> mw_hwnd ` set (wm_windows t)"

lemma steady_refl [simp]: "steady s s"
  by (simp add: steady_def)

lemma steady_trans [trans]: "steady s t \<Longrightarrow> steady t u \<Longrightarrow> steady s u"
  by (auto simp: steady_def)

lemma steady_same: "same_windows t s \<Longrightarrow> steady s t"
  by (simp add: steady_def same_windows_def)

lemma steady_simps [simp]:
  "steady s (act a t) = steady s t" "steady s (notify_changed t) = steady s t"
  "steady s (mark_workspace_hidden os w h t) = steady s t" "steady s (update_borders os t) = steady s t"
  "steady s (t\<lparr>wm_active := w'\<rparr>) = steady s t" "steady s (t\<lparr>wm_tiling := b\<rparr>) = steady s t"
  by (simp_all add: steady_def)

lemma steady_update [simp]:
  assumes "\<And>i. mw_hwnd (f i) = mw_hwnd i"
  shows "steady s (update_window w f t) = steady s t"
proof -
  have "mw_hwnd ` set (wm_windows (update_window w f t)) = mw_hwnd ` set (wm_windows t)"
    using update_hwnds [of f w t] assms by (metis set_map)
  then show ?thesis by (simp add: steady_def)
qed

lemma steady_add: "steady s (add_or_refresh os w pid s)"
  by (auto simp: add_or_refresh_def refreshed_def steady_update split: option.split) (auto simp: steady_def)

lemma steady_find_or_add: "steady s (find_or_add os w s)"
  by (simp add: find_or_add_def steady_add)

lemma steady_focus: "focus_window os w s = Some t \<Longrightarrow> steady s t"
  using steady_add by (auto simp: focus_window_def Let_def split: option.splits if_splits)

lemma steady_tile: "tile_current_workspace os s = Some t \<Longrightarrow> steady s t"
  using steady_same [OF tile_fold_same] steady_focus steady_trans
  by (fastforce simp: tile_current_workspace_def Let_def split: if_splits)

lemma steady_tile_if: "tile_if_enabled os s = Some t \<Longrightarrow> steady s t"
  using steady_tile by (auto simp: tile_if_enabled_def split: if_splits)

lemma steady_set_tiling: "set_tiling_enabled os b s = Some t \<Longrightarrow> steady s t"
  using steady_tile steady_tile_if [of os "s\<lparr>wm_tiling := b\<rparr>"]
  by (auto simp: set_tiling_enabled_def split: if_splits bind_splits) (auto simp: steady_def)

lemma steady_set_floating: "set_window_floating os w b s = Some t \<Longrightarrow> steady s t"
proof -
  assume t: "set_window_floating os w b s = Some t"
  define s1 where "s1 = (if w \<noteq> 0 \<and> is_window os w then find_or_add os w s else s)"
  have s1: "steady s s1" by (simp add: s1_def steady_find_or_add)
  then have s2: "steady s (update_window w (\<lambda>i. i\<lparr>mw_floating := b\<rparr>) s1)" by simp
  have "set_window_floating os w b s = (if find_window w s1 = None then Some s1
      else if wm_tiling (update_window w (\<lambda>i. i\<lparr>mw_floating := b\<rparr>) s1) \<and> \<not> b
        then tile_current_workspace os (update_window w (\<lambda>i. i\<lparr>mw_floating := b\<rparr>) s1)
        else Some (update_window w (\<lambda>i. i\<lparr>mw_floating := b\<rparr>) s1))"
    unfolding set_window_floating_def s1_def Let_def by (rule refl)
  then show ?thesis using t s1 s2 steady_trans [OF s2 steady_tile] by (auto split: if_splits)
qed

lemma steady_move: "move_window_to_workspace os w k s = Some t \<Longrightarrow> steady s t"
proof -
  assume t: "move_window_to_workspace os w k s = Some t"
  have f: "steady s (find_or_add os w s)" by (rule steady_find_or_add)
  have tb: "steady s u" if "do { x \<leftarrow> tile_if_enabled os v; Some (update_borders os x) } = Some u" "steady s v" for u v
    using that steady_tile_if steady_trans by (fastforce split: bind_splits)
  show ?thesis using t f
    by (auto simp: move_window_to_workspace_def Let_def split: if_splits option.splits bind_splits dest!: steady_tile_if
        elim!: steady_trans [rotated])
qed

section \<open>Results\<close>

text \<open>\<open>yields P x\<close>: the computation does not crash and its result satisfies \<open>P\<close>.\<close>

definition yields :: "('a \<Rightarrow> bool) \<Rightarrow> 'a option \<Rightarrow> bool" where
  "yields P x \<longleftrightarrow> (\<exists>y. x = Some y \<and> P y)"

lemma yields_Some [simp]: "yields P (Some y) = P y"
  by (simp add: yields_def)

lemma yields_bind: "yields P x \<Longrightarrow> (\<And>y. P y \<Longrightarrow> yields Q (f y)) \<Longrightarrow> yields Q (x \<bind> f)"
  by (auto simp: yields_def)

lemma yields_mono: "yields P x \<Longrightarrow> (\<And>y. P y \<Longrightarrow> Q y) \<Longrightarrow> yields Q x"
  by (auto simp: yields_def)

lemma yieldsI: "\<exists>y. x = Some y \<and> P y \<Longrightarrow> yields P x"
  by (simp add: yields_def)

lemma yieldsE:
  assumes "yields P x"
  obtains y where "x = Some y" "P y"
  using assms by (auto simp: yields_def)

section \<open>The contract of the manager\<close>

locale kept_by_manager =
  fixes I :: "wm \<Rightarrow> bool"
  assumes acting: "I m \<Longrightarrow> I (act a m)"
    and floating: "I m \<Longrightarrow> yields I (set_window_floating os w b m)"
    and moving: "I m \<Longrightarrow> yields I (move_window_to_workspace os w k m)"
    and tiling: "I m \<Longrightarrow> yields I (set_tiling_enabled os b m)"
    and retiling: "I m \<Longrightarrow> yields I (tile_current_workspace os m)"
begin

lemma showing: "I m \<Longrightarrow> I (fold (\<lambda>x. act (f x)) xs m)"
  by (induction xs arbitrary: m) (simp_all add: acting)

lemma positioning: "I m \<Longrightarrow> I (position_window W w target m)"
  by (simp add: position_window_def Let_def acting)

lemma placing: "I m \<Longrightarrow> I (place_windows W target is m)"
proof -
  have "I (fold (\<lambda>(k, i). position_window W (mw_hwnd i) (target k)) xs m)" if "I m" for xs m
    using that by (induction xs arbitrary: m) (auto simp: positioning)
  then show "I m \<Longrightarrow> I (place_windows W target is m)" by (simp add: place_windows_def)
qed

lemma ruling: "I m \<Longrightarrow> yields I (apply_rule W rule identity m)"
  unfolding apply_rule_def Let_def by (auto intro!: yields_bind floating moving simp: acting)

lemma rules_loop: "I m \<Longrightarrow> yields (I \<circ> fst) (apply_rules_loop W now rules is (m, au))"
proof (induction "is" arbitrary: m au)
  case (Cons i "is")
  then show ?case
    unfolding apply_rules_loop.simps Let_def
    by (auto intro!: yields_bind [where P = I] ruling split: option.split)
qed simp

lemma new_windows: "I (fst ma) \<Longrightarrow> yields (I \<circ> fst) (apply_rules_to_new_windows W st ma)"
  using rules_loop by (cases ma) (simp add: apply_rules_to_new_windows_def)

lemma floats: "I m \<Longrightarrow> yields I (float_windows W b is m)"
  by (induction "is" arbitrary: m) (auto intro!: yields_bind floating)

lemma preset: "I m \<Longrightarrow> yields I (apply_preset W workspace layout m)"
  unfolding apply_preset_def Let_def
  by (auto intro!: yields_bind floats tiling retiling simp: positioning placing showing)

lemma profile: "I (fst ma) \<Longrightarrow> yields (I \<circ> fst) (apply_profile W workspace st ma)"
  unfolding apply_profile_def Let_def
  by (cases ma) (auto intro!: yields_bind [where P = I] preset tiling)

lemma transition: "I (fst ma) \<Longrightarrow> yields (I \<circ> fst) (handle_workspace_transition W workspace st ma)"
  unfolding handle_workspace_transition_def
  by (auto intro!: yields_bind [where P = "I \<circ> fst"] profile)

lemma ticking: "I (fst ma) \<Longrightarrow> yields (I \<circ> fst) (tick W st ma)"
  unfolding tick_def Let_def
  by (auto intro!: yields_bind [where P = "I \<circ> fst"] new_windows transition split: prod.split)

lemma restoring: "I m \<Longrightarrow> yields (I \<circ> snd) (restore_loop W windows saved consumed m)"
proof (induction saved arbitrary: consumed m)
  case (Cons n saved)
  then show ?case
    unfolding restore_loop.simps Let_def
    by (auto intro!: yields_bind [where P = I] floating simp: acting positioning split: option.split)
qed simp

lemma restored: "I m \<Longrightarrow> yields (I \<circ> fst) (restore_layout W snapshot m)"
  unfolding restore_layout_def
  by (auto intro!: yields_bind [where P = "I \<circ> snd"] restoring)

end

interpretation manager: kept_by_manager "\<lambda>m. wm_inv A m \<and> steady s m" for A s
proof
  fix m os w b k a
  assume I: "wm_inv A m \<and> steady s m"
  show "wm_inv A (act a m) \<and> steady s (act a m)"
    using I by simp
  show "yields (\<lambda>m. wm_inv A m \<and> steady s m) (set_window_floating os w b m)"
    using I wm_inv_set_floating [of A m os w b] steady_set_floating [of os w b m] steady_trans
    by (auto simp: yields_def)
  show "yields (\<lambda>m. wm_inv A m \<and> steady s m) (move_window_to_workspace os w k m)"
    using I wm_inv_move_window [of A m os w k] steady_move [of os w k m] steady_trans
    by (auto simp: yields_def)
  show "yields (\<lambda>m. wm_inv A m \<and> steady s m) (set_tiling_enabled os b m)"
    using I wm_inv_set_tiling [of A m os b] steady_set_tiling [of os b m] steady_trans
    by (auto simp: yields_def)
  show "yields (\<lambda>m. wm_inv A m \<and> steady s m) (tile_current_workspace os m)"
    using I tile_current [of A m os] steady_tile [of os m] steady_trans
    by (auto simp: yields_def)
qed

end
