(* ===== verification/Automation_Service.thy ===== *)
theory Automation_Service
  imports Automation_Facts
begin

text \<open>
  The workspace studio service as it runs: ticks, commands and edits of the store in any order, between operations of
  the window manager. The focus history is the most recently used order of the windows that came to the front; the
  start-up entries of a workspace are launched once; the newest snapshot of a workspace is the one that is restored.
\<close>

section \<open>The state of the automation\<close>

definition au_ok :: "automation \<Rightarrow> bool" where
  "au_ok au \<longleftrightarrow> distinct (map fr_hwnd (au_history au)) \<and> length (au_history au) \<le> 64 \<and>
     (\<forall>r \<in> set (au_history au). fr_hwnd r \<noteq> 0 \<and> 0 \<le> fr_workspace r \<and> fr_workspace r \<le> 3) \<and>
     distinct (map fst (au_processed au)) \<and> length (au_launched au) = 4"

lemma au_ok_new [simp]: "au_ok new_automation"
  by (simp add: au_ok_def new_automation_def)

lemma au_ok_reset: "au_ok au \<Longrightarrow> au_ok (reset_runtime_state au)"
  by (simp add: au_ok_def reset_runtime_state_def)

lemma au_ok_simps [simp]:
  "au_ok (au\<lparr>au_requests := rs\<rparr>) = au_ok au" "au_ok (au\<lparr>au_last_workspace := k\<rparr>) = au_ok au"
  "au_ok (au\<lparr>au_last_foreground := w\<rparr>) = au_ok au" "au_ok (au\<lparr>au_launched := (au_launched au)[n := b]\<rparr>) = au_ok au"
  by (simp_all add: au_ok_def)

lemma au_ok_processed: "au_ok au \<Longrightarrow> distinct (map fst ps) \<Longrightarrow> au_ok (au\<lparr>au_processed := ps\<rparr>)"
  by (simp add: au_ok_def)

lemma au_ok_launch [simp]: "au_ok (launch_entries k st au) = au_ok au"
  by (simp add: launch_entries_def)

lemma au_ok_forget: "au_ok au \<Longrightarrow> au_ok (forget_dead W m au)"
  by (auto simp: forget_dead_def Let_def au_ok_def distinct_map_filter)

text \<open>What a pass over the rules does to the state: it marks windows that were not marked.\<close>

lemma rules_loop_processed:
  "apply_rules_loop W now rules is (m, au) = Some (m', au') \<Longrightarrow>
     \<exists>ps. au' = au\<lparr>au_processed := ps\<rparr> \<and> (distinct (map fst (au_processed au)) \<longrightarrow> distinct (map fst ps)) \<and>
       set (au_processed au) \<subseteq> set ps"
proof (induction "is" arbitrary: m au)
  case (Cons i "is")
  show ?case
  proof (cases "mw_hwnd i = 0 \<or> \<not> is_window (os_in W m) (mw_hwnd i) \<or> mw_hwnd i \<in> fst ` set (au_processed au)")
    case True
    then show ?thesis using Cons by simp
  next
    case False
    let ?au = "au\<lparr>au_processed := (mw_hwnd i, now) # au_processed au\<rparr>"
    obtain n where "apply_rules_loop W now rules is (n, ?au) = Some (m', au')"
      using Cons.prems False by (auto simp: Let_def split: bind_splits)
    from Cons.IH [OF this] False show ?thesis by force
  qed
next
  case Nil
  then show ?case by (intro exI [of _ "au_processed au"]) auto
qed

lemma rules_au:
  "apply_rules_to_new_windows W st (m, au) = Some (m', au') \<Longrightarrow>
     \<exists>ps. au' = au\<lparr>au_processed := ps\<rparr> \<and> (distinct (map fst (au_processed au)) \<longrightarrow> distinct (map fst ps))"
  using rules_loop_processed unfolding apply_rules_to_new_windows_def by fastforce

lemma profile_au: "apply_profile W k st (m, au) = Some (m', au') \<Longrightarrow> \<exists>ps. au' = au\<lparr>au_requests := au_requests au @ map Apply_Wallpaper ps\<rparr>"
  by (auto simp: apply_profile_def Let_def split: bind_splits if_splits intro: exI [of _ "[]"] exI [of _ "[x]" for x])

lemma au_ok_transition:
  assumes "handle_workspace_transition W k st (m, au) = Some (m', au')"
  shows "au_ok au' = au_ok au"
  using assms profile_au [of W k st m au]
  by (fastforce simp: handle_workspace_transition_def split: if_splits bind_splits)

lemma workspace_for_bounds: "wm_ok m \<Longrightarrow> workspace_for w m \<le> 3"
  by (auto simp: workspace_for_def wm_ok_def split: option.split dest: find_window_Some)

text \<open>A focused window goes to the front of the history, which keeps 64 of them.\<close>

definition remember :: "'a \<Rightarrow> 'a list \<Rightarrow> 'a list" where
  "remember x xs = take 64 (x # filter (\<lambda>y. y \<noteq> x) xs)"

lemma remember_facts: "distinct xs \<Longrightarrow> distinct (remember x xs)" "length (remember x xs) \<le> 64" "set (remember x xs) \<subseteq> insert x (set xs)"
  by (auto simp: remember_def distinct_take dest: in_set_takeD simp del: take_Suc_Cons)

definition focus_record_of :: "world \<Rightarrow> wm \<Rightarrow> focus_record" where
  "focus_record_of W m =
     (let w = foreground (os_in W m); pid = process_of (os_in W m) w; identity = identify_window (now_in W m) w pid
      in \<lparr>fr_hwnd = w, fr_process_id = pid, fr_workspace = workspace_for w m, fr_process_name = id_process_name identity,
          fr_title = id_title identity, fr_touched = dk_now (now_in W m)\<rparr>)"

definition comes_to_front :: "world \<Rightarrow> wm \<Rightarrow> hwnd \<Rightarrow> bool" where
  "comes_to_front W m v \<longleftrightarrow> foreground (os_in W m) \<noteq> 0 \<and> foreground (os_in W m) \<noteq> v \<and> 0 \<le> workspace_for (foreground (os_in W m)) m"

lemma track_focus_history:
  "au_history (track_focus W m au) =
     (if comes_to_front W m (au_last_foreground au)
      then take 64 (focus_record_of W m # filter (\<lambda>r. fr_hwnd r \<noteq> foreground (os_in W m)) (au_history au)) else au_history au)"
  by (auto simp: track_focus_def comes_to_front_def focus_record_of_def Let_def)

lemma track_focus_hwnds:
  "map fr_hwnd (au_history (track_focus W m au)) =
     (if comes_to_front W m (au_last_foreground au) then remember (foreground (os_in W m)) (map fr_hwnd (au_history au))
      else map fr_hwnd (au_history au))"
  by (simp add: track_focus_history remember_def take_map filter_map comp_def focus_record_of_def Let_def take_Cons')

lemma track_focus_fields [simp]:
  "au_processed (track_focus W m au) = au_processed au" "au_launched (track_focus W m au) = au_launched au"
  "au_requests (track_focus W m au) = au_requests au" "au_last_workspace (track_focus W m au) = au_last_workspace au"
  by (simp_all add: track_focus_def Let_def)

lemma track_focus_last:
  "au_last_foreground (track_focus W m au) =
     (if foreground (os_in W m) = 0 then au_last_foreground au else foreground (os_in W m))"
  by (simp add: track_focus_def Let_def)

lemma au_ok_track: "wm_ok m \<Longrightarrow> au_ok au \<Longrightarrow> au_ok (track_focus W m au)"
proof -
  assume m: "wm_ok m" and au: "au_ok au"
  let ?h = "au_history (track_focus W m au)"
  have "set ?h \<subseteq> insert (focus_record_of W m) (set (au_history au)) \<and> (?h = au_history au \<or> comes_to_front W m (au_last_foreground au))"
    by (auto simp: track_focus_history simp del: take_Suc_Cons dest!: in_set_takeD)
  moreover have "fr_hwnd (focus_record_of W m) = foreground (os_in W m)"
      "fr_workspace (focus_record_of W m) = workspace_for (foreground (os_in W m)) m"
    by (simp_all add: focus_record_of_def Let_def)
  moreover have "distinct (map fr_hwnd ?h)" "length ?h \<le> 64"
    using au remember_facts [of "map fr_hwnd (au_history au)"] by (auto simp: track_focus_hwnds au_ok_def)
      (simp_all add: track_focus_history au_ok_def)
  ultimately show ?thesis
    using au workspace_for_bounds [OF m] unfolding au_ok_def by (auto simp: comes_to_front_def)
qed

lemma tick_au: "wm_ok m \<Longrightarrow> au_ok au \<Longrightarrow> tick W st (m, au) = Some (m', au') \<Longrightarrow> au_ok au'"
proof -
  assume m: "wm_ok m" and au: "au_ok au" and t: "tick W st (m, au) = Some (m', au')"
  from t obtain m1 au1 where r: "apply_rules_to_new_windows W st (m, au) = Some (m1, au1)"
    by (auto simp: tick_def split: bind_splits)
  have "wm_ok m1" using manager.new_windows [where A = "{}" and s = m and ma = "(m, au)" and W = W and st = st] m r by simp
  moreover have "au_ok au1" using rules_au [OF r] au au_ok_processed by (auto simp: au_ok_def)
  ultimately have "au_ok (track_focus W m1 au1)" by (rule au_ok_track)
  then show ?thesis
    using t r by (auto simp: tick_def Let_def au_ok_transition split: if_splits bind_splits intro!: au_ok_forget)
qed

section \<open>Any run of the service\<close>

definition sv_ok :: "studio_service \<Rightarrow> bool" where
  "sv_ok sv \<longleftrightarrow> wm_ok (sv_manager sv) \<and> au_ok (sv_automation sv) \<and> studio_ok (sv_store sv)"

text \<open>
  An operation of the manager, a tick, the commands of the service and of its window, an edit of the store and a store
  that was read again.
\<close>

datatype studio_event =
    Manager_Event | Tick_Event | Reapply_Event | Profile_Event | Capture_Event | Restore_Event | Focus_Event
  | Edit_Event | Reload_Event

inductive studio_step :: "studio_event \<Rightarrow> studio_service \<Rightarrow> studio_service \<Rightarrow> bool" where
  step_manager: "wm_exec os op (sv_manager sv) = Some m \<Longrightarrow> studio_step Manager_Event sv (sv\<lparr>sv_manager := m\<rparr>)"
| step_tick: "service_tick W sv = Some t \<Longrightarrow> studio_step Tick_Event sv t"
| step_reapply: "service_reapply_rules W sv = Some t \<Longrightarrow> studio_step Reapply_Event sv t"
| step_profile: "service_apply_profile W sv = Some t \<Longrightarrow> studio_step Profile_Event sv t"
| step_capture: "capture_quick_snapshot W sv = Some t \<Longrightarrow> studio_step Capture_Event sv t"
| step_latest: "restore_latest_snapshot W sv = Some (t, b) \<Longrightarrow> studio_step Restore_Event sv t"
| step_restore: "restore_saved_layout W i sv = Some (t, b) \<Longrightarrow> studio_step Restore_Event sv t"
| step_focus: "focus_history_item W k (sv_manager sv, sv_automation sv) = Some (m, b) \<Longrightarrow>
    studio_step Focus_Event sv (sv\<lparr>sv_manager := m\<rparr>)"
| step_edit: "studio_step Edit_Event sv (sv\<lparr>sv_store := studio_exec c (sv_store sv)\<rparr>)"
| step_reload: "studio_ok st \<Longrightarrow> studio_step Reload_Event sv (service_reload st sv)"

inductive_cases studio_stepE: "studio_step e sv t"

inductive studio_run :: "studio_event list \<Rightarrow> studio_service \<Rightarrow> studio_service \<Rightarrow> bool" where
  run_none: "studio_run [] sv sv"
| run_step: "studio_run es sv t \<Longrightarrow> studio_step e t u \<Longrightarrow> studio_run (es @ [e]) sv u"

lemma sv_ok_new [simp]: "sv_ok (new_service st m) \<longleftrightarrow> wm_ok m \<and> studio_ok st"
  by (simp add: sv_ok_def new_service_def)

text \<open>Each command of the service returns, and keeps what must hold.\<close>

lemma total_tick: "sv_ok sv \<Longrightarrow> yields sv_ok (service_tick W sv)"
proof -
  assume ok: "sv_ok sv"
  let ?ma = "(sv_manager sv, sv_automation sv)"
  have "yields ((\<lambda>m. wm_inv {} m \<and> steady (sv_manager sv) m) \<circ> fst) (tick W (sv_store sv) ?ma)"
    using ok by (intro manager.ticking) (simp add: sv_ok_def)
  then obtain m au where t: "tick W (sv_store sv) ?ma = Some (m, au)" "wm_ok m"
    by (auto simp: yields_def)
  then show ?thesis
    using ok tick_au [OF _ _ t(1)] by (simp add: service_tick_def Let_def sv_ok_def put_service_def)
qed

lemma total_reapply: "sv_ok sv \<Longrightarrow> yields sv_ok (service_reapply_rules W sv)"
proof -
  assume ok: "sv_ok sv"
  define m0 where "m0 = reconcile (os_in W (sv_manager sv)) (sv_manager sv)"
  let ?ma = "(m0, (sv_automation sv)\<lparr>au_processed := []\<rparr>)"
  have "wm_ok m0" using ok wm_inv_reconcile [of "{}"] by (simp add: m0_def sv_ok_def)
  then have "yields ((\<lambda>m. wm_inv {} m \<and> steady m0 m) \<circ> fst) (apply_rules_to_new_windows W (sv_store sv) ?ma)"
    by (intro manager.new_windows) simp
  then obtain m au where t: "apply_rules_to_new_windows W (sv_store sv) ?ma = Some (m, au)" "wm_ok m"
    by (auto simp: yields_def)
  moreover have "au_ok au"
    using rules_au [OF t(1)] ok au_ok_processed by (auto simp: sv_ok_def)
  ultimately show ?thesis
    using ok by (simp add: service_reapply_rules_def reapply_all_rules_def m0_def [symmetric] Let_def sv_ok_def put_service_def)
qed

lemma total_profile: "sv_ok sv \<Longrightarrow> yields sv_ok (service_apply_profile W sv)"
proof -
  assume ok: "sv_ok sv"
  let ?ma = "(sv_manager sv, sv_automation sv)" and ?k = "clamp (wm_current (sv_manager sv)) 0 3"
  have "yields ((\<lambda>m. wm_inv {} m \<and> steady (sv_manager sv) m) \<circ> fst) (apply_profile W ?k (sv_store sv) ?ma)"
    using ok by (intro manager.profile) (simp add: sv_ok_def)
  then obtain m au where t: "apply_profile W ?k (sv_store sv) ?ma = Some (m, au)" "wm_ok m"
    by (auto simp: yields_def)
  then show ?thesis
    using ok profile_au [OF t(1)] by (auto simp: service_apply_profile_def Let_def sv_ok_def put_service_def)
qed

lemma capture_is_command:
  "capture d k name m st = (n, st') \<Longrightarrow> st'\<lparr>st_snapshots := st_snapshots st' @ [n]\<rparr> =
     studio_exec (Capture_Layout k name (dk_now d) (List.map_filter (capture_window d) (windows_for_workspace (dk_os d) (clamp k 0 3) m))) st"
  by (simp add: capture_def capture_layout_def)

lemma capture_quick_store:
  assumes "capture_quick_snapshot W sv = Some t"
  shows "\<exists>k name now ws. t = sv\<lparr>sv_manager := reconcile (os_in W (sv_manager sv)) (sv_manager sv),
    sv_store := studio_exec (Capture_Layout k name now ws) (sv_store sv)\<rparr>"
  using assms by (auto simp: capture_quick_snapshot_def Let_def capture_is_command simp del: studio_exec.simps split: prod.splits bind_splits)

lemma ok_capture: "sv_ok sv \<Longrightarrow> capture_quick_snapshot W sv = Some t \<Longrightarrow> sv_ok t"
  using capture_quick_store [of W sv t] wm_inv_reconcile [of "{}" "sv_manager sv"] by (auto simp: sv_ok_def studio_ok_exec simp del: studio_exec.simps)

lemma total_restore_layout: "wm_ok m \<Longrightarrow> yields (wm_ok \<circ> fst) (restore_layout W n m)"
  using manager.restored [where A = "{}" and s = m and m = m and W = W and snapshot = n] by (auto elim: yields_mono)

lemma total_latest: "sv_ok sv \<Longrightarrow> yields (sv_ok \<circ> fst) (restore_latest_snapshot W sv)"
  unfolding restore_latest_snapshot_def
  by (auto simp: sv_ok_def split: option.split intro!: yields_bind [where P = "wm_ok \<circ> fst"] total_restore_layout)

lemma total_switch: "wm_ok m \<Longrightarrow> yields wm_ok (switch_workspace os k m)"
  using wm_inv_switch [of "{}" m os k] by (simp add: yields_def)

lemma total_restore: "sv_ok sv \<Longrightarrow> yields (sv_ok \<circ> fst) (restore_saved_layout W i sv)"
  unfolding restore_saved_layout_def Let_def
  by (auto simp: sv_ok_def split: option.split
      intro!: yields_bind [where P = "wm_ok \<circ> fst"] yields_bind [where P = wm_ok] total_restore_layout total_switch)

lemma ok_focus:
  assumes m: "wm_ok m" and f: "focus_history_item W k (m, au) = Some (m', b)"
  shows "wm_ok m'"
proof -
  have fw: "wm_ok v" if "focus_window os w u = Some v" "wm_ok u" for os w u v
    using wm_inv_focus [of "{}" u os w v] that by simp
  have sw: "wm_ok v" if "switch_workspace os i m = Some v" for os i v
    using total_switch [OF m, of os i] that by simp
  show ?thesis
    using f m by (auto simp: focus_history_item_def Let_def split: if_splits bind_splits dest: sw fw)
qed

lemma ok_manager: "wm_ok m \<Longrightarrow> wm_exec os op m = Some m' \<Longrightarrow> wm_ok m'"
  using wm_run_ok [of m "[(os, op)]" m'] by simp

lemma step_ok: "studio_step e sv t \<Longrightarrow> sv_ok sv \<Longrightarrow> sv_ok t"
proof (induction rule: studio_step.induct)
  case (step_manager os op sv m)
  then show ?case using ok_manager [OF _ step_manager.hyps] by (simp add: sv_ok_def)
next
  case (step_tick W sv t)
  then show ?case using total_tick [of sv W] by simp
next
  case (step_reapply W sv t)
  then show ?case using total_reapply [of sv W] by simp
next
  case (step_profile W sv t)
  then show ?case using total_profile [of sv W] by simp
next
  case (step_capture W sv t)
  then show ?case using ok_capture by blast
next
  case (step_latest W sv t b)
  then show ?case using total_latest [of sv W] by simp
next
  case (step_restore W i sv t b)
  then show ?case using total_restore [of sv W i] by simp
next
  case (step_focus W k sv m b)
  then show ?case using ok_focus [OF _ step_focus.hyps] by (simp add: sv_ok_def)
next
  case (step_edit sv c)
  then show ?case by (simp add: sv_ok_def studio_ok_exec)
next
  case (step_reload st sv)
  then show ?case by (simp add: sv_ok_def service_reload_def au_ok_reset)
qed

lemma service_run_ok: "studio_run es sv t \<Longrightarrow> sv_ok sv \<Longrightarrow> sv_ok t"
  by (induction rule: studio_run.induct) (auto dest: step_ok)

end
