(* ===== verification/Automation_Rules.thy ===== *)
theory Automation_Rules
  imports Automation_Service Window_Effects "HOL-Library.Sublist"
begin

text \<open>
  What a rule and a saved layout do to the windows: the place of a window (its workspace and whether it floats), which
  windows keep theirs, which rectangles are asked for, and that what was captured is recognised again.
\<close>

section \<open>The place of a window\<close>

definition place_of :: "hwnd \<Rightarrow> wm \<Rightarrow> (int \<times> bool) option" where
  "place_of w m = map_option (\<lambda>i. (mw_workspace i, mw_floating i)) (find_window w m)"

text \<open>The managed windows other than those of \<open>X\<close> keep their place.\<close>

definition keeps_places :: "hwnd set \<Rightarrow> wm \<Rightarrow> wm \<Rightarrow> bool" where
  "keeps_places X s t \<longleftrightarrow> (\<forall>v. v \<notin> X \<longrightarrow> place_of v s \<noteq> None \<longrightarrow> place_of v t = place_of v s)"

lemma keeps_refl [simp]: "keeps_places X s s"
  by (simp add: keeps_places_def)

lemma keeps_trans [trans]: "keeps_places X s t \<Longrightarrow> keeps_places X t u \<Longrightarrow> keeps_places X s u"
  by (simp add: keeps_places_def)

lemma keeps_mono: "keeps_places X s t \<Longrightarrow> X \<subseteq> Y \<Longrightarrow> keeps_places Y s t"
  by (auto simp: keeps_places_def)

lemma keeps_place: "keeps_places X s t \<Longrightarrow> place_of v s = Some p \<Longrightarrow> v \<notin> X \<Longrightarrow> place_of v t = Some p"
  by (simp add: keeps_places_def)

lemma place_windows_cong: "wm_windows t = wm_windows s \<Longrightarrow> place_of v t = place_of v s"
  by (simp add: place_of_def find_window_def)

lemma place_simps [simp]:
  "place_of v (act a s) = place_of v s" "place_of v (notify_changed s) = place_of v s"
  "place_of v (mark_workspace_hidden os w h s) = place_of v s" "place_of v (update_borders os s) = place_of v s"
  "place_of v (s\<lparr>wm_active := w'\<rparr>) = place_of v s" "place_of v (s\<lparr>wm_tiling := b\<rparr>) = place_of v s"
  by (rule place_windows_cong; simp)+

lemma place_update:
  assumes "\<And>i. mw_hwnd (f i) = mw_hwnd i"
  shows "place_of v (update_window w f s) =
    (if v = w then map_option (\<lambda>i. (mw_workspace (f i), mw_floating (f i))) (find_window w s) else place_of v s)"
  using assms by (cases "find_window v s") (auto simp: place_of_def dest: find_window_Some)

lemma place_update_same [simp]:
  "(\<And>i. mw_hwnd (f i) = mw_hwnd i \<and> mw_workspace (f i) = mw_workspace i \<and> mw_floating (f i) = mw_floating i) \<Longrightarrow>
     place_of v (update_window w f s) = place_of v s"
  by (simp add: place_update) (simp add: place_of_def)

lemma find_longer: "find P xs = Some x \<Longrightarrow> find P (xs @ ys) = Some x"
  by (induction xs) (auto split: if_splits)

lemma place_longer: "place_of v s \<noteq> None \<Longrightarrow> place_of v (s\<lparr>wm_windows := wm_windows s @ is\<rparr>) = place_of v s"
  by (auto simp: place_of_def find_window_def find_longer)

lemma place_add: "place_of v s \<noteq> None \<Longrightarrow> place_of v (add_or_refresh os w pid s) = place_of v s"
  by (simp add: add_or_refresh_def place_longer refreshed_def split: option.split)

lemma keeps_add: "keeps_places X s (add_or_refresh os w pid s)"
  by (simp add: keeps_places_def place_add)

lemma keeps_find_or_add: "keeps_places X s (find_or_add os w s)"
  by (simp add: find_or_add_def keeps_add)

lemma keeps_places_step: "(\<And>v. place_of v t = place_of v s) \<Longrightarrow> keeps_places X s t"
  by (simp add: keeps_places_def)

lemma keeps_focus: "focus_window os w s = Some t \<Longrightarrow> keeps_places {} s t"
  by (auto simp: focus_window_def Let_def keeps_places_def place_add split: option.splits if_splits)

lemma keeps_tile: "tile_current_workspace os s = Some t \<Longrightarrow> keeps_places {} s t"
proof -
  assume t: "tile_current_workspace os s = Some t"
  have "keeps_places {} s (fold (tile_group os) (tile_groups os s) s)"
    using tile_fold_same [of os "tile_groups os s" s] by (intro keeps_places_step place_windows_cong) (simp add: same_windows_def)
  then show ?thesis
    using t keeps_focus keeps_trans by (fastforce simp: tile_current_workspace_def Let_def split: if_splits)
qed

lemma keeps_tile_if: "tile_if_enabled os s = Some t \<Longrightarrow> keeps_places {} s t"
  using keeps_tile by (auto simp: tile_if_enabled_def split: if_splits)

text \<open>After \<open>SetWindowFloating\<close>: the window floats as asked, on its workspace; the others are where they were.\<close>

lemma floating_places:
  assumes t: "set_window_floating os w b s = Some t" and w: "place_of w s = Some (k, b')"
  shows "place_of w t = Some (k, b)" "keeps_places {w} s t"
proof -
  define s1 where "s1 = (if w \<noteq> 0 \<and> is_window os w then find_or_add os w s else s)"
  define s2 where "s2 = update_window w (\<lambda>i. i\<lparr>mw_floating := b\<rparr>) s1"
  have "keeps_places {} s s1" by (simp add: s1_def keeps_find_or_add)
  moreover have p1: "place_of w s1 = Some (k, b')" using keeps_place [OF calculation w] by simp
  moreover have p2: "place_of w s2 = Some (k, b)" using p1 by (auto simp: s2_def place_update) (auto simp: place_of_def)
  ultimately have k2: "keeps_places {w} s s2" by (simp add: s2_def place_update keeps_places_def)
  have "set_window_floating os w b s = (if find_window w s1 = None then Some s1
      else if wm_tiling s2 \<and> \<not> b then tile_current_workspace os s2 else Some s2)"
    unfolding set_window_floating_def s1_def s2_def Let_def by (rule refl)
  moreover have "find_window w s1 \<noteq> None" using p1 by (auto simp: place_of_def)
  ultimately have "keeps_places {} s2 t" using t keeps_tile by (auto split: if_splits)
  then show "place_of w t = Some (k, b)" "keeps_places {w} s t"
    using keeps_place [OF _ p2] keeps_trans [OF k2] keeps_mono by blast+
qed

lemma find_place: "find_window w s = Some i \<Longrightarrow> place_of w s = Some (mw_workspace i, mw_floating i)"
  by (simp add: place_of_def)

lemma tile_then_borders_places: "do { u \<leftarrow> tile_if_enabled os s; Some (update_borders os u) } = Some t \<Longrightarrow> keeps_places {} s t"
  using keeps_tile_if by (fastforce simp: keeps_places_def split: bind_splits)

lemma moving_places:
  assumes t: "move_window_to_workspace os w k s = Some t" and w: "place_of w s = Some (k', b)"
    and live: "w \<noteq> 0" "is_window os w"
  shows "place_of w t = Some (clamp k 0 3, b)" "keeps_places {w} s t"
proof -
  define s1 where "s1 = find_or_add os w s"
  have k1: "keeps_places {} s s1" by (simp add: s1_def keeps_find_or_add)
  have p1: "place_of w s1 = Some (k', b)" using keeps_place [OF k1 w] by simp
  then obtain i where i: "find_window w s1 = Some i" "mw_workspace i = k'" "mw_floating i = b" by (auto simp: place_of_def)
  have "(place_of w t = Some (clamp k 0 3, b) \<and> keeps_places {w} s1 t)"
  proof (cases "k' = clamp k 0 3")
    case True
    have "\<forall>v. place_of v t = place_of v s1"
      using t live i True by (auto simp: move_window_to_workspace_def s1_def [symmetric] Let_def split: if_splits)
    then show ?thesis using p1 True by (simp add: keeps_places_def)
  next
    case False
    define s2 where "s2 = update_window w (\<lambda>i. i\<lparr>mw_workspace := clamp k 0 3\<rparr>) s1"
    have p2: "place_of v s2 = (if v = w then Some (clamp k 0 3, b) else place_of v s1)" for v
      using i by (simp add: s2_def place_update)
    have "keeps_places {} s2 t"
      using t live i False
      by (auto simp: move_window_to_workspace_def s1_def [symmetric] s2_def [symmetric] Let_def split: if_splits
          dest!: tile_then_borders_places) (auto simp: keeps_places_def)
    then show ?thesis by (simp add: keeps_places_def p2)
  qed
  then show "place_of w t = Some (clamp k 0 3, b)" "keeps_places {w} s t"
    using keeps_trans [OF keeps_mono [OF k1]] by auto
qed

text \<open>
  Applying a rule to a managed window that lives: it ends on the workspace of the rule, clamped to the four, floating as the rule
  says; every other managed window keeps its workspace and whether it floats; the user stays on the current workspace.
\<close>

theorem rule_moves_window:
  assumes ok: "wm_ok m" and w: "place_of (id_hwnd identity) m = Some p" and live: "\<And>log. is_window (dk_os (W log)) (id_hwnd identity)"
  shows "yields (\<lambda>t. place_of (id_hwnd identity) t = Some (clamp (ru_workspace rule) 0 3, ru_floating rule) \<and>
     keeps_places {id_hwnd identity} m t \<and> wm_current t = wm_current m \<and> wm_ok t) (apply_rule W rule identity m)"
proof -
  let ?w = "id_hwnd identity"
  obtain k b where p: "place_of ?w m = Some (k, b)" using w by (cases p) auto
  have w0: "?w \<noteq> 0" using p ok by (auto simp: place_of_def wm_ok_def dest: find_window_Some)
  have lv: "is_window (os_in W n) ?w" for n using live by (simp add: os_in_def now_in_def)
  obtain m1 where m1: "set_window_floating (os_in W m) ?w (ru_floating rule) m = Some m1"
    using wm_inv_set_floating [of "{}" m] ok by fastforce
  obtain t where t: "apply_rule W rule identity m = Some t" "wm_ok t" "steady m t"
    using manager.ruling [where A = "{}" and s = m and m = m and W = W and rule = rule and identity = identity] ok
    by (auto simp: yields_def)
  from t(1) m1 w0 lv obtain m2 where m2: "move_window_to_workspace (os_in W m1) ?w (clamp (ru_workspace rule) 0 3) m1 = Some m2"
      "\<forall>v. place_of v t = place_of v m2"
    by (auto simp: apply_rule_def Let_def split: bind_splits if_splits)
  note f = floating_places [OF m1 p] and g = moving_places [OF m2(1) floating_places(1) [OF m1 p] w0 lv]
  have "keeps_places {?w} m t" using keeps_trans [OF f(2) g(2)] m2(2) by (simp add: keeps_places_def)
  then show ?thesis using t g(1) m2(2) by (simp add: steady_def clamp_clamp)
qed

text \<open>A desktop whose windows are those of the example of the window manager.\<close>

definition sample_desk :: desk where
  "sample_desk = \<lparr>dk_os = sample_os, dk_text = (\<lambda>_. wide ''Notes''), dk_image_path = (\<lambda>_. None), dk_monitors = [],
     dk_device = (\<lambda>_. None), dk_work = (\<lambda>_. Some (box 0 0 1920 1040)), dk_area = box 0 0 1920 1040, dk_desktop = 1,
     dk_show_command = (\<lambda>_. None), dk_fold = (\<lambda>c. c), dk_now = 5, dk_clock = (12, 30, 0)\<rparr>"

definition sample_rule :: workspace_rule where
  "sample_rule = \<lparr>ru_id = 1, ru_enabled = True, ru_field = 1, ru_mode = 0, ru_pattern = wide ''Notes'', ru_workspace = 7,
     ru_floating = True, ru_maximize = False\<rparr>"

definition sample_identity :: window_identity where
  "sample_identity = \<lparr>id_hwnd = 2, id_process_id = 7, id_process_name = [], id_title = wide ''Notes'', id_class = []\<rparr>"

lemma sample_places: "place_of 2 (sample_wm b) = Some (0, False)"
  by (simp add: place_of_def)

lemma rule_moves_window_witness:
  "\<exists>t. apply_rule (\<lambda>_. sample_desk) sample_rule sample_identity (sample_wm True) = Some t \<and> place_of 2 t = Some (3, True)"
  using rule_moves_window [of "sample_wm True" sample_identity "(0, False)" "\<lambda>_. sample_desk" sample_rule] sample_places [of True]
  by (auto simp: yields_def sample_identity_def sample_desk_def sample_rule_def clamp_def)

section \<open>A window is put under the rules once\<close>

lemma rules_loop_marks:
  assumes "apply_rules_loop W now rules is (m, au) = Some (m', au')"
    and "\<And>log w. is_window (dk_os (W log)) w = live w"
  shows "{mw_hwnd i | i. i \<in> set is \<and> mw_hwnd i \<noteq> 0 \<and> live (mw_hwnd i)} \<subseteq> fst ` set (au_processed au')"
  using assms(1)
proof (induction "is" arbitrary: m au)
  case (Cons i "is")
  have lv: "is_window (os_in W m) w = live w" for w by (simp add: os_in_def now_in_def assms(2))
  show ?case
  proof (cases "mw_hwnd i = 0 \<or> \<not> live (mw_hwnd i) \<or> mw_hwnd i \<in> fst ` set (au_processed au)")
    case True
    then have r: "apply_rules_loop W now rules is (m, au) = Some (m', au')" using Cons.prems by (simp add: lv)
    have "fst ` set (au_processed au) \<subseteq> fst ` set (au_processed au')" using rules_loop_processed [OF r] by force
    then show ?thesis using Cons.IH [OF r] True by auto
  next
    case False
    let ?au = "au\<lparr>au_processed := (mw_hwnd i, now) # au_processed au\<rparr>"
    obtain n where r: "apply_rules_loop W now rules is (n, ?au) = Some (m', au')"
      using Cons.prems False by (auto simp: Let_def lv split: bind_splits)
    have "mw_hwnd i \<in> fst ` set (au_processed au')" using rules_loop_processed [OF r] by force
    then show ?thesis using Cons.IH [OF r] by auto
  qed
qed simp

lemma rules_loop_skips:
  "\<forall>i \<in> set is. mw_hwnd i = 0 \<or> \<not> is_window (os_in W m) (mw_hwnd i) \<or> mw_hwnd i \<in> fst ` set (au_processed au) \<Longrightarrow>
     apply_rules_loop W now rules is (m, au) = Some (m, au)"
  by (induction "is") auto

lemma all_managed_hwnds: "mw_hwnd ` set (all_managed_windows os m) = {w \<in> mw_hwnd ` set (wm_windows m). w \<noteq> 0 \<and> is_window os w}"
proof -
  have "map mw_hwnd (all_managed_windows os m) = map mw_hwnd (filter (\<lambda>i. mw_hwnd i \<noteq> 0 \<and> is_window os (mw_hwnd i)) (wm_windows m))"
    by (simp add: all_managed_windows_def)
  from arg_cong [OF this, of set] show ?thesis by auto
qed

text \<open>
  After a pass over the rules a later pass changes nothing, whatever the rules are by then and wherever the windows have gone,
  as long as no live window has been added.
\<close>

theorem rules_apply_once:
  assumes first: "apply_rules_to_new_windows W st (m, au) = Some (m1, au1)"
    and live: "\<And>log w. is_window (dk_os (W log)) w = live w"
    and later: "{w \<in> mw_hwnd ` set (wm_windows m2). is_window (os_in W' m2) w} \<subseteq> {w \<in> mw_hwnd ` set (wm_windows m). live w}"
  shows "apply_rules_to_new_windows W' st' (m2, au1) = Some (m2, au1)"
proof -
  have lv: "is_window (os_in W m) w = live w" for w by (simp add: os_in_def now_in_def live)
  have "{mw_hwnd i | i. i \<in> set (all_managed_windows (os_in W m) m) \<and> mw_hwnd i \<noteq> 0 \<and> live (mw_hwnd i)} \<subseteq> fst ` set (au_processed au1)"
    using first by (intro rules_loop_marks) (auto simp: apply_rules_to_new_windows_def live)
  then have "w \<in> fst ` set (au_processed au1)" if "w \<in> mw_hwnd ` set (all_managed_windows (os_in W m) m)" "w \<noteq> 0" "live w" for w
    using that by blast
  then have marked: "w \<in> fst ` set (au_processed au1)" if "w \<in> mw_hwnd ` set (wm_windows m)" "w \<noteq> 0" "live w" for w
    using that all_managed_hwnds [of "os_in W m" m] by (auto simp: lv)
  have "mw_hwnd i = 0 \<or> mw_hwnd i \<in> fst ` set (au_processed au1)" if "i \<in> set (all_managed_windows (os_in W' m2) m2)" for i
  proof -
    have "mw_hwnd i \<in> {w \<in> mw_hwnd ` set (wm_windows m2). w \<noteq> 0 \<and> is_window (os_in W' m2) w}"
      using that all_managed_hwnds [of "os_in W' m2" m2] by blast
    then show ?thesis using later marked by blast
  qed
  then show ?thesis
    unfolding apply_rules_to_new_windows_def fst_conv by (intro rules_loop_skips) blast
qed

section \<open>What was captured is recognised\<close>

lemma contains_prefix: "contains_text (take n s) s"
proof -
  have "take (length (take n s)) s = take n s" by (metis append_eq_conv_conj append_take_drop_id)
  then show ?thesis by (cases s) (simp_all del: length_take)
qed

lemma capture_identity:
  "capture_window d i = Some n \<Longrightarrow> lw_process_name n = id_process_name (identify_window d (mw_hwnd i) (mw_process_id i)) \<and>
     lw_window_class n = id_class (identify_window d (mw_hwnd i) (mw_process_id i)) \<and>
     lw_title_hint n = take 48 (id_title (identify_window d (mw_hwnd i) (mw_process_id i)))"
  by (auto simp: capture_window_def Let_def split: option.splits if_splits)

text \<open>A saved entry matches the window it was taken from, while its title, class and program stay.\<close>

theorem captured_window_matches:
  assumes "capture_window d i = Some n"
  shows "identity_matches_snapshot d (identify_window d (mw_hwnd i) (mw_process_id i)) n"
  using capture_identity [OF assms]
  by (simp add: identity_matches_snapshot_def same_folded_def lower_text_def Let_def take_map [symmetric] contains_prefix)

lemma captured_window_matches_witness:
  "\<exists>n. capture_window sample_desk (sample_window 2) = Some n \<and>
     identity_matches_snapshot sample_desk (identify_window sample_desk 2 7) n"
proof -
  have "\<exists>n. capture_window sample_desk (sample_window 2) = Some n"
    by (simp add: capture_window_def sample_desk_def sample_os_def Let_def)
  then obtain n where n: "capture_window sample_desk (sample_window 2) = Some n" by blast
  have "mw_process_id (sample_window 2) = 7" by (simp add: sample_window_def new_window_def split: prod.split)
  then show ?thesis using captured_window_matches [OF n] n by auto
qed

lemma rules_apply_once_witness:
  "\<exists>m1 au1. apply_rules_to_new_windows (\<lambda>_. sample_desk) default_studio (sample_wm False, new_automation) = Some (m1, au1) \<and>
     apply_rules_to_new_windows (\<lambda>_. sample_desk) (default_studio\<lparr>st_rules := [sample_rule]\<rparr>) (sample_wm False, au1) =
       Some (sample_wm False, au1)"
proof -
  let ?W = "\<lambda>_. sample_desk"
  obtain m1 au1 where r: "apply_rules_to_new_windows ?W default_studio (sample_wm False, new_automation) = Some (m1, au1)"
    using manager.new_windows [where A = "{}" and s = "sample_wm False" and ma = "(sample_wm False, new_automation)" and W = ?W and st = default_studio]
    by (auto simp: yields_def)
  have "is_window (dk_os (?W log)) w = (w < 100)" for log :: "wm_action list" and w by (simp add: sample_desk_def)
  then show ?thesis
    using rules_apply_once [OF r, of "\<lambda>w. w < 100" "sample_wm False" ?W] r by (auto simp: os_in_def now_in_def)
qed

section \<open>The layout of a profile\<close>

text \<open>
  The setting that a layout is applied on entering a workspace has no effect: for each value the same is done, save
  with the free layout on a workspace without windows.
\<close>

theorem auto_tile_ignored:
  assumes "k = wm_current m" "0 \<le> k" "k \<le> 3" "length (st_profiles st) = 4"
    and "pr_layout (st_profiles st ! nat k) \<noteq> layout_free \<or> windows_for_workspace (os_in W m) k m \<noteq> []"
  shows "handle_workspace_transition W k (st\<lparr>st_profiles := (st_profiles st)[nat k := (st_profiles st ! nat k)\<lparr>pr_auto_tile := b\<rparr>]\<rparr>) (m, au) =
     handle_workspace_transition W k st (m, au)"
proof -
  let ?st = "st\<lparr>st_profiles := (st_profiles st)[nat k := (st_profiles st ! nat k)\<lparr>pr_auto_tile := b\<rparr>]\<rparr>"
  have n: "nat k < length (st_profiles st)" using assms by simp
  have "apply_preset W k layout_free m = set_tiling_enabled (os_in W m) False m" if "windows_for_workspace (os_in W m) k m \<noteq> []"
    using that assms by (simp add: apply_preset_def)
  then have "apply_profile W k ?st (m, au) = apply_profile W k st (m, au)"
    using n assms(5) by (auto simp: apply_profile_def Let_def)
  moreover have "launch_entries k ?st au' = launch_entries k st au'" for au'
    by (simp add: launch_entries_def)
  ultimately show ?thesis
    using n by (simp add: handle_workspace_transition_def cong: if_cong)
qed

lemma auto_tile_ignored_witness:
  "handle_workspace_transition (\<lambda>_. sample_desk) 0
     (default_studio\<lparr>st_profiles := (st_profiles default_studio)[nat 0 := (st_profiles default_studio ! nat 0)\<lparr>pr_auto_tile := True\<rparr>]\<rparr>)
     (sample_wm True, new_automation) = handle_workspace_transition (\<lambda>_. sample_desk) 0 default_studio (sample_wm True, new_automation)"
proof -
  have "windows_for_workspace (os_in (\<lambda>_. sample_desk) (sample_wm True)) 0 (sample_wm True) \<noteq> []"
    by (simp add: windows_for_workspace_def all_managed_windows_def os_in_def now_in_def sample_desk_def)
  then show ?thesis
    using auto_tile_ignored [of 0 "sample_wm True" default_studio "\<lambda>_. sample_desk" True new_automation]
    by (simp add: default_studio_def kWorkspaceStudioCount_def)
qed

section \<open>Restoring a layout\<close>

definition untiled :: "wm \<Rightarrow> (hwnd \<times> rect) list \<Rightarrow> bool" where
  "untiled m ps \<longleftrightarrow> \<not> wm_tiling m \<and> places_of (wm_actions m) = ps"

lemma untiled_add: "untiled (add_or_refresh os w pid m) ps = untiled m ps"
  by (simp add: untiled_def add_or_refresh_def split: option.split)

lemma untiled_floating: "set_window_floating os w b m = Some t \<Longrightarrow> untiled m ps \<Longrightarrow> untiled t ps"
proof -
  assume t: "set_window_floating os w b m = Some t" and m: "untiled m ps"
  define m1 where "m1 = (if w \<noteq> 0 \<and> is_window os w then find_or_add os w m else m)"
  have m1: "untiled m1 ps" using m by (simp add: m1_def find_or_add_def untiled_add)
  then have "untiled (update_window w (\<lambda>i. i\<lparr>mw_floating := b\<rparr>) m1) ps" by (simp add: untiled_def)
  moreover have "set_window_floating os w b m = (if find_window w m1 = None then Some m1
      else if wm_tiling (update_window w (\<lambda>i. i\<lparr>mw_floating := b\<rparr>) m1) \<and> \<not> b
        then tile_current_workspace os (update_window w (\<lambda>i. i\<lparr>mw_floating := b\<rparr>) m1)
        else Some (update_window w (\<lambda>i. i\<lparr>mw_floating := b\<rparr>) m1))"
    unfolding set_window_floating_def m1_def Let_def by (rule refl)
  ultimately show ?thesis using t m1 by (auto simp: untiled_def split: if_splits)
qed

text \<open>The rectangle asked for: at least 160 by 120, as the layout engine positions a window.\<close>

definition restored_rect :: "layout_window \<Rightarrow> rect \<Rightarrow> rect" where
  "restored_rect saved work =
     (let r = denormalize_bounds (lw_bounds saved) work
      in box (rc_left r) (rc_top r) (max 160 (rc_right r - rc_left r)) (max 120 (rc_bottom r - rc_top r)))"

lemma untiled_position:
  "untiled m ps \<Longrightarrow> w \<noteq> 0 \<Longrightarrow> is_window (os_in W m) w \<Longrightarrow>
     untiled (position_window W w target m) (ps @ [(w, box (rc_left target) (rc_top target)
       (max 160 (rc_right target - rc_left target)) (max 120 (rc_bottom target - rc_top target)))])"
  by (simp add: untiled_def position_window_def Let_def)

lemma untiled_show: "untiled (act (Show w c) m) ps = untiled m ps"
  by (simp add: untiled_def)

definition pairs_up :: "layout_window list \<Rightarrow> (hwnd \<times> rect) list \<Rightarrow> bool" where
  "pairs_up saved rs \<longleftrightarrow> (\<exists>ns. subseq ns saved \<and> list_all2 (\<lambda>n (w, r). \<exists>work. r = restored_rect n work) ns rs)"

lemma pairs_up_skip: "pairs_up saved rs \<Longrightarrow> pairs_up (n # saved) rs"
  by (auto simp: pairs_up_def)

lemma pairs_up_take: "pairs_up saved rs \<Longrightarrow> pairs_up (n # saved) ((w, restored_rect n work) # rs)"
  unfolding pairs_up_def by (elim exE conjE, rule_tac x = "n # ns" in exI) auto

lemma restore_loop_places:
  assumes "restore_loop W windows saved consumed m = Some (c, t)" "untiled m ps" "distinct consumed"
    and "\<And>log i. i \<in> set windows \<Longrightarrow> mw_hwnd i \<noteq> 0 \<and> is_window (dk_os (W log)) (mw_hwnd i)"
  shows "\<exists>rs. untiled t (ps @ rs) \<and> c = consumed @ map fst rs \<and> distinct c \<and> fst ` set rs \<subseteq> mw_hwnd ` set windows \<and> pairs_up saved rs"
  using assms(1-3)
proof (induction saved arbitrary: consumed m ps)
  case Nil
  then show ?case by (intro exI [of _ "[]"]) (auto simp: pairs_up_def)
next
  case (Cons n saved)
  define P where "P = (\<lambda>c :: managed_window. mw_hwnd c \<notin> set consumed \<and>
    identity_matches_snapshot (now_in W m) (identify_window (now_in W m) (mw_hwnd c) (mw_process_id c)) n)"
  show ?case
  proof (cases "find P windows")
    case None
    then have "restore_loop W windows saved consumed m = Some (c, t)" using Cons.prems(1) by (simp add: P_def)
    from Cons.IH [OF this Cons.prems(2,3)] show ?thesis using pairs_up_skip by blast
  next
    case (Some i)
    let ?w = "mw_hwnd i" and ?work = "work_area_by_device (now_in W m) (lw_monitor_device n) (mw_hwnd i)"
    have i: "i \<in> set windows" "?w \<notin> set consumed" using Some by (auto simp: find_Some_iff P_def)
    have live: "?w \<noteq> 0" "\<And>m. is_window (os_in W m) ?w" using assms(4) [OF i(1)] by (simp_all add: os_in_def now_in_def)
    obtain m1 where m1: "set_window_floating (os_in W m) ?w (lw_floating n) m = Some m1"
      using Cons.prems(1) Some by (auto simp: P_def Let_def split: bind_splits)
    define m2 where "m2 = position_window W ?w (denormalize_bounds (lw_bounds n) ?work) m1"
    define m3 where "m3 = (if lw_show_command n = 3 then act (Show ?w SW_Maximize) m2
      else if lw_show_command n = 2 \<or> lw_show_command n = 6 then act (Show ?w SW_Minimize) m2 else m2)"
    have "untiled m2 (ps @ [(?w, restored_rect n ?work)])"
      using untiled_position [OF untiled_floating [OF m1 Cons.prems(2)] live] by (simp add: m2_def restored_rect_def Let_def)
    then have m3: "untiled m3 (ps @ [(?w, restored_rect n ?work)])" by (simp add: m3_def untiled_show)
    have "restore_loop W windows saved (consumed @ [?w]) m3 = Some (c, t)"
      using Cons.prems(1) Some m1 by (auto simp: P_def Let_def m2_def m3_def split: if_splits)
    from Cons.IH [OF this m3] Cons.prems(3) i(2) obtain rs where
      "untiled t (ps @ (?w, restored_rect n ?work) # rs)" "c = consumed @ ?w # map fst rs" "distinct c"
      "fst ` set rs \<subseteq> mw_hwnd ` set windows" "pairs_up saved rs" by auto
    then show ?thesis
      using i(1) pairs_up_take by (intro exI [of _ "(?w, restored_rect n ?work) # rs"]) auto
  qed
qed

text \<open>
  Restoring a layout of the current workspace while tiling is off asks for one rectangle for each window it recognises: no window
  twice, only windows of that workspace, each rectangle from its own saved entry, in the order in which they were saved; it
  reports whether there was one.
\<close>

theorem restore_places_once:
  assumes "restore_layout W n m = Some (t, ok)" "\<not> wm_tiling m" "sn_workspace n = wm_current m" "wm_ok m"
    and "\<And>log w. is_window (dk_os (W log)) w = live w"
  shows "\<exists>rs. places_of (wm_actions t) = places_of (wm_actions m) @ rs \<and> distinct (map fst rs) \<and>
    fst ` set rs \<subseteq> mw_hwnd ` set (windows_for_workspace (os_in W m) (wm_current m) m) \<and>
    pairs_up (sn_windows n) rs \<and> (ok \<longleftrightarrow> rs \<noteq> [])"
proof -
  obtain c where c: "restore_loop W (windows_for_workspace (os_in W m) (wm_current m) m) (sn_windows n) [] m = Some (c, t)" "ok = (c \<noteq> [])"
    using assms(1,3,4) by (auto simp: restore_layout_def wm_ok_def split: bind_splits if_splits)
  have "untiled m (places_of (wm_actions m))" using assms(2) by (simp add: untiled_def)
  moreover have "mw_hwnd i \<noteq> 0 \<and> is_window (dk_os (W log)) (mw_hwnd i)"
    if "i \<in> set (windows_for_workspace (os_in W m) (wm_current m) m)" for i log
    using that by (auto simp: windows_for_workspace_def os_in_def now_in_def assms(5))
  ultimately show ?thesis using restore_loop_places [OF c(1)] c(2) by (fastforce simp: untiled_def)
qed

lemma restore_places_once_witness:
  "\<exists>t rs. restore_layout (\<lambda>_. sample_desk) \<lparr>sn_id = 1, sn_workspace = 0, sn_name = [], sn_created = 1, sn_windows = []\<rparr> (sample_wm False) = Some (t, False) \<and>
     places_of (wm_actions t) = places_of (wm_actions (sample_wm False)) @ rs \<and> rs = []"
proof -
  let ?n = "\<lparr>sn_id = 1, sn_workspace = 0, sn_name = [], sn_created = 1, sn_windows = []\<rparr>"
  have r: "restore_layout (\<lambda>_. sample_desk) ?n (sample_wm False) = Some (sample_wm False, False)" by (simp add: restore_layout_def)
  have "is_window (dk_os ((\<lambda>_. sample_desk) log)) w = (w < 100)" for log :: "wm_action list" and w by (simp add: sample_desk_def)
  then show ?thesis using restore_places_once [OF r, of "\<lambda>w. w < 100"] r by auto
qed

end
