(* ===== verification/Automation_Props.thy ===== *)
theory Automation_Props
  imports Automation_Rules
begin

text \<open>
  The properties of the automation: the service does not crash, save for a name that is too long; the focus history is
  an abstract most-recently-used list; start-up entries are launched once; the newest snapshot is restored; a window is
  put under its rule once, on the workspace of the rule; a captured window matches its own saved entry.
\<close>

section \<open>The service returns\<close>

text \<open>
  C25. From a manager and a store that hold their invariants, any sequence of steps leads to a state in which a tick, the rules, the
  profile and the saved layouts return, and each leaves the invariants.
\<close>

theorem studio_service_safe:
  assumes "wm_ok m" "studio_ok st" and "studio_run es (new_service st m) sv"
  shows "sv_ok sv \<and> yields sv_ok (service_tick W sv) \<and> yields sv_ok (service_reapply_rules W sv) \<and>
     yields sv_ok (service_apply_profile W sv) \<and> yields (sv_ok \<circ> fst) (restore_latest_snapshot W sv) \<and>
     yields (sv_ok \<circ> fst) (restore_saved_layout W i sv)"
  using service_run_ok [OF assms(3)] assms(1,2) total_tick total_reapply total_profile total_latest total_restore by simp

lemma new_wm_ok [simp]: "wm_ok new_wm"
  using wm_inv_new [of "{}"] by simp

lemma studio_service_safe_witness:
  "\<exists>sv. studio_run [Edit_Event] (new_service default_studio new_wm) sv \<and>
     (\<forall>W. sv_ok sv \<and> yields sv_ok (service_tick W sv))"
proof -
  let ?sv = "new_service default_studio new_wm"
  let ?t = "?sv\<lparr>sv_store := studio_exec (Delete_Layout 1) (sv_store ?sv)\<rparr>"
  have r: "studio_run [Edit_Event] ?sv ?t"
    using run_step [OF run_none [of ?sv] step_edit [of ?sv "Delete_Layout 1"]] by simp
  show ?thesis
    using studio_service_safe [OF new_wm_ok studio_ok_default r] r by blast
qed

section \<open>The quick snapshot\<close>

lemma length_two_digits: "n < 100 \<Longrightarrow> length (two_digits n) = 2"
  by (auto simp: two_digits_def wide_def nat_dec.simps)

lemma takeWhile_nonzero: "0 \<notin> set s \<Longrightarrow> takeWhile (\<lambda>c. c \<noteq> 0) s = s"
  by (induction s) auto

text \<open>
  The hot key of the quick snapshot ends the shell exactly when the name of the workspace is longer than 84 characters; the
  edit control does not limit it.
\<close>

theorem quick_snapshot_crash:
  assumes "dk_clock (now_in W (reconcile (os_in W (sv_manager sv)) (sv_manager sv))) = (hour, minute, second)"
    "hour < 24" "minute < 60" "second < 60" "0 \<notin> set name"
    "name = workspace_name (clamp (wm_current (reconcile (os_in W (sv_manager sv)) (sv_manager sv))) 0 3) (sv_store sv)"
  shows "capture_quick_snapshot W sv = None \<longleftrightarrow> 84 < length name"
proof -
  have t: "length (takeWhile (\<lambda>c. c \<noteq> 0) name) = length name" using assms(5) takeWhile_nonzero by metis
  show ?thesis
    using t length_two_digits [of hour] length_two_digits [of minute] length_two_digits [of second] assms(2-4)
    unfolding capture_quick_snapshot_def Let_def assms(1) quick_snapshot_name_def assms(6) [symmetric]
    by (auto simp: wide_def split: prod.split)
qed

definition long_names :: studio_store where
  "long_names = default_studio\<lparr>st_profiles := map (\<lambda>p. p\<lparr>pr_name := replicate 85 97\<rparr>) (st_profiles default_studio)\<rparr>"

lemma long_name: "workspace_name (clamp w 0 3) long_names = replicate 85 97"
proof -
  have "0 \<le> clamp w 0 3" "clamp w 0 3 < 4" by (auto simp: clamp_def)
  then show ?thesis by (simp add: workspace_name_def long_names_def default_studio_def kWorkspaceStudioCount_def)
qed

lemma quick_snapshot_crash_witness:
  "capture_quick_snapshot (\<lambda>_. sample_desk) (new_service long_names new_wm) = None"
proof -
  have "capture_quick_snapshot (\<lambda>_. sample_desk) (new_service long_names new_wm) = None \<longleftrightarrow> 84 < length (replicate 85 (97 :: 16 word))"
    by (rule quick_snapshot_crash [of _ _ 12 30 0]) (simp_all add: now_in_def sample_desk_def new_service_def long_name)
  then show ?thesis by simp
qed

section \<open>The newest snapshot\<close>

lemma latest_snapshot_snoc:
  "latest_snapshot k (ns @ [n]) = (if sn_workspace n \<noteq> k then latest_snapshot k ns
     else case latest_snapshot k ns of None \<Rightarrow> Some n | Some l \<Rightarrow> if sn_created l < sn_created n then Some n else Some l)"
  by (simp add: latest_snapshot_def split: option.split)

text \<open>The choice among the snapshots: of this workspace, none newer, the first of the newest.\<close>

theorem latest_snapshot_newest:
  "case latest_snapshot k ns of
     None \<Rightarrow> k \<notin> sn_workspace ` set ns
   | Some n \<Rightarrow> \<exists>ys zs. ns = ys @ n # zs \<and> sn_workspace n = k \<and>
       sn_created ` {l \<in> set ys. sn_workspace l = k} \<subseteq> {..<sn_created n} \<and>
       sn_created ` {l \<in> set zs. sn_workspace l = k} \<subseteq> {..sn_created n}"
proof (induction ns rule: rev_induct)
  case (snoc m ns)
  show ?case
  proof (cases "latest_snapshot k ns")
    case None
    have "ns @ [m] = ns @ m # [] \<and> sn_created ` {l \<in> set ns. sn_workspace l = k} \<subseteq> {..<sn_created m}" if "k \<notin> sn_workspace ` set ns"
      using that by auto
    then show ?thesis using snoc None by (fastforce simp: latest_snapshot_snoc)
  next
    case (Some n)
    with snoc obtain ys zs where e: "ns = ys @ n # zs" "sn_workspace n = k"
      "sn_created ` {l \<in> set ys. sn_workspace l = k} \<subseteq> {..<sn_created n}"
      "sn_created ` {l \<in> set zs. sn_workspace l = k} \<subseteq> {..sn_created n}" by auto
    show ?thesis
    proof (cases "sn_workspace m = k \<and> sn_created n < sn_created m")
      case True
      then have "ns @ [m] = ns @ m # [] \<and> sn_workspace m = k \<and> sn_created ` {l \<in> set ns. sn_workspace l = k} \<subseteq> {..<sn_created m}"
        using e by (fastforce simp: subset_iff image_iff)
      then show ?thesis using True Some by (fastforce simp: latest_snapshot_snoc)
    next
      case False
      then have "ns @ [m] = ys @ n # (zs @ [m]) \<and> sn_created ` {l \<in> set (zs @ [m]). sn_workspace l = k} \<subseteq> {..sn_created n}"
        using e by (auto simp: not_less)
      moreover have "latest_snapshot k (ns @ [m]) = Some n" using False Some by (auto simp: latest_snapshot_snoc)
      ultimately show ?thesis using e(2,3) by (simp only: option.case) blast
    qed
  qed
qed (simp add: latest_snapshot_def)

section \<open>The focus history\<close>

text \<open>The windows that came to the front, as the ticks saw them: a change of the foreground to a managed window.\<close>

fun came_to_front :: "hwnd \<Rightarrow> (world \<times> wm) list \<Rightarrow> hwnd list" where
  "came_to_front v [] = []"
| "came_to_front v ((W, m) # es) =
     (let w = foreground (os_in W m); rest = came_to_front (if w = 0 then v else w) es
      in if comes_to_front W m v then w # rest else rest)"

text \<open>Keeping 64 of them loses nothing that a longer list would show in its first 64 places.\<close>

lemma take_filter_less: "distinct xs \<Longrightarrow> take n (filter (\<lambda>y. y \<noteq> x) xs) = take n (filter (\<lambda>y. y \<noteq> x) (take (Suc n) xs))"
proof (induction xs arbitrary: n)
  case (Cons y xs)
  show ?case
  proof (cases "y = x")
    case True
    then have "filter (\<lambda>y. y \<noteq> x) xs = xs" "filter (\<lambda>y. y \<noteq> x) (take n xs) = take n xs"
      using Cons.prems by (auto simp: filter_id_conv dest: in_set_takeD)
    then show ?thesis using True by simp
  next
    case False
    then show ?thesis using Cons by (cases n) auto
  qed
qed simp

lemma remember_take: "distinct xs \<Longrightarrow> remember x (take 64 xs) = take 64 (x # filter (\<lambda>y. y \<noteq> x) xs)"
  using take_filter_less [of xs 63 x] by (simp add: remember_def numeral_eq_Suc)

lemma remdups_snoc: "remdups (ws @ [w]) = filter (\<lambda>v. v \<noteq> w) (remdups ws) @ [w]"
  by (induction ws) auto

lemma recent_snoc: "rev (remdups (ws @ [w])) = w # filter (\<lambda>v. v \<noteq> w) (rev (remdups ws))"
  by (simp add: remdups_snoc rev_filter)

lemma came_to_front_snoc:
  "came_to_front v (es @ [(W, m)]) = came_to_front v es @
     (if comes_to_front W m (fold (\<lambda>(W, m) v. if foreground (os_in W m) = 0 then v else foreground (os_in W m)) es v)
      then [foreground (os_in W m)] else [])"
  by (induction es arbitrary: v) (auto simp: Let_def)

definition tracked :: "(world \<times> wm) list \<Rightarrow> automation" where
  "tracked es = fold (\<lambda>(W, m). track_focus W m) es new_automation"

lemma tracked_last:
  "au_last_foreground (fold (\<lambda>(W, m). track_focus W m) es au) =
     fold (\<lambda>(W, m) v. if foreground (os_in W m) = 0 then v else foreground (os_in W m)) es (au_last_foreground au)"
  by (induction es arbitrary: au) (auto simp: track_focus_last)

text \<open>
  C28. The history refines a list of the most recently used windows: whatever the ticks saw, its handles are the first 64 of the
  windows that came to the front, latest first, each once.
\<close>

theorem focus_history_is_mru:
  "map fr_hwnd (au_history (tracked es)) = take 64 (rev (remdups (came_to_front 0 es)))"
proof (induction es rule: rev_induct)
  case (snoc e es)
  obtain W m where e: "e = (W, m)" by fastforce
  have l: "au_last_foreground (tracked es) = fold (\<lambda>(W, m) v. if foreground (os_in W m) = 0 then v else foreground (os_in W m)) es 0"
    by (simp add: tracked_def tracked_last new_automation_def)
  have "tracked (es @ [e]) = track_focus W m (tracked es)" by (simp add: tracked_def e)
  then show ?case
    using snoc by (simp add: e track_focus_hwnds l came_to_front_snoc remember_take recent_snoc)
qed (simp add: tracked_def new_automation_def)

section \<open>Start-up entries\<close>

fun is_launch :: "launch_request \<Rightarrow> bool" where
  "is_launch (Apply_Wallpaper path) = False"
| "is_launch r = True"

definition launches_of :: "automation \<Rightarrow> launch_request list" where
  "launches_of au = filter is_launch (au_requests au)"

definition launch_of :: "launch_entry \<Rightarrow> launch_request" where
  "launch_of e = (if la_cloudos_app e then Launch_App (la_target e) else Launch_External (la_target e) (la_arguments e))"

lemma is_launch_of [simp]: "is_launch (launch_of e)"
  by (simp add: launch_of_def)

definition entries_of :: "int \<Rightarrow> launch_entry list \<Rightarrow> launch_entry list" where
  "entries_of k es = filter (\<lambda>e. la_enabled e \<and> la_workspace e = k \<and> la_target e \<noteq> []) es"

lemma launch_entries_requests: "au_requests (launch_entries k st au) = au_requests au @ map launch_of (entries_of k (st_launches st))"
  by (auto simp: launch_entries_def launch_of_def entries_of_def intro!: arg_cong2 [where f = map] filter_cong)

lemma launches_launch_entries: "launches_of (launch_entries k st au) = launches_of au @ map launch_of (entries_of k (st_launches st))"
  by (simp add: launches_of_def launch_entries_requests filter_map comp_def)

lemma entries_once:
  "distinct ks \<Longrightarrow> mset (concat (map (\<lambda>k. entries_of k es) ks)) = filter_mset (\<lambda>e. la_enabled e \<and> la_workspace e \<in> set ks \<and> la_target e \<noteq> []) (mset es)"
proof (induction ks)
  case (Cons k ks)
  then have "filter_mset (\<lambda>e. la_enabled e \<and> la_workspace e \<in> set (k # ks) \<and> la_target e \<noteq> []) (mset es) =
      mset (entries_of k es) + filter_mset (\<lambda>e. la_enabled e \<and> la_workspace e \<in> set ks \<and> la_target e \<noteq> []) (mset es)"
    by (intro multiset_eqI) (auto simp: entries_of_def)
  with Cons show ?case by simp
qed (simp add: entries_of_def)

text \<open>The workspaces whose entries were launched, in order, each once; their flags are set.\<close>

definition launched_ok :: "launch_entry list \<Rightarrow> automation \<Rightarrow> bool" where
  "launched_ok es au \<longleftrightarrow> length (au_launched au) = 4 \<and>
     (\<exists>ks. distinct ks \<and> (\<forall>k \<in> set ks. 0 \<le> k \<and> k < 4 \<and> au_launched au ! nat k) \<and>
        launches_of au = concat (map (\<lambda>k. map launch_of (entries_of k es)) ks))"

lemma launched_ok_same:
  "au_launched au' = au_launched au \<Longrightarrow> launches_of au' = launches_of au \<Longrightarrow> launched_ok es au' = launched_ok es au"
  by (simp add: launched_ok_def)

lemma launched_subset: "launched_ok es au \<Longrightarrow> mset (launches_of au) \<subseteq># mset (map launch_of es)"
proof -
  assume "launched_ok es au"
  then obtain ks where ks: "distinct ks" "launches_of au = map launch_of (concat (map (\<lambda>k. entries_of k es) ks))"
    by (auto simp: launched_ok_def map_concat comp_def)
  show ?thesis
    unfolding ks(2) mset_map using entries_once [OF ks(1), of es]
    by (auto intro!: image_mset_subseteq_mono)
qed

lemma profile_launches:
  assumes "apply_profile W k st (m, au) = Some (m', au')"
  shows "au_launched au' = au_launched au" "launches_of au' = launches_of au"
  using profile_au [OF assms] by (auto simp: launches_of_def filter_map comp_def)

lemma transition_launches:
  assumes t: "handle_workspace_transition W k st (m, au) = Some (m', au')" and ok: "launched_ok (st_launches st) au"
  shows "launched_ok (st_launches st) au'"
proof (cases "k < 0 \<or> 4 \<le> k")
  case True
  then show ?thesis using t ok by (simp add: handle_workspace_transition_def)
next
  case False
  then obtain au1 where p: "apply_profile W k st (m, au) = Some (m', au1)"
      and a: "au' = (if pr_auto_launch (st_profiles st ! nat k) \<and> \<not> au_launched au1 ! nat k
        then launch_entries k st (au1\<lparr>au_launched := (au_launched au1)[nat k := True]\<rparr>) else au1)"
    using t by (auto simp: handle_workspace_transition_def split: bind_splits)
  have ok1: "launched_ok (st_launches st) au1" using ok profile_launches [OF p] launched_ok_same by blast
  show ?thesis
  proof (cases "pr_auto_launch (st_profiles st ! nat k) \<and> \<not> au_launched au1 ! nat k")
    case new: True
    obtain ks where ks: "distinct ks" "\<forall>k \<in> set ks. 0 \<le> k \<and> k < 4 \<and> au_launched au1 ! nat k" "length (au_launched au1) = 4"
        "launches_of au1 = concat (map (\<lambda>k. map launch_of (entries_of k (st_launches st))) ks)"
      using ok1 by (auto simp: launched_ok_def)
    have "launches_of au' = concat (map (\<lambda>k. map launch_of (entries_of k (st_launches st))) (ks @ [k]))"
      using a new ks(4) launches_launch_entries [of k st "au1\<lparr>au_launched := (au_launched au1)[nat k := True]\<rparr>"]
      by (simp add: launches_of_def)
    moreover have "au_launched au' = (au_launched au1)[nat k := True]" using a new by (simp add: launch_entries_def)
    moreover have "distinct (ks @ [k])" using ks(1,2) new by auto
    ultimately show ?thesis
      unfolding launched_ok_def using ks(2,3) False
      by (intro conjI exI [of _ "ks @ [k]"]) (auto simp: nth_list_update)
  next
    case False
    then have "au' = au1" unfolding a by (rule if_not_P)
    then show ?thesis using ok1 by simp
  qed
qed

lemma tick_launches:
  assumes t: "tick W st (m, au) = Some (m', au')" and ok: "launched_ok (st_launches st) au"
  shows "launched_ok (st_launches st) au'"
proof -
  let ?L = "launched_ok (st_launches st)"
  have keep: "?L (au\<lparr>au_processed := ps\<rparr>) = ?L au" "?L (au\<lparr>au_last_workspace := k\<rparr>) = ?L au"
      "?L (track_focus W m au) = ?L au" "?L (forget_dead W m au) = ?L au" for au ps k m
    by (rule launched_ok_same; simp add: launches_of_def forget_dead_def Let_def)+
  from t obtain m1 au1 where r: "apply_rules_to_new_windows W st (m, au) = Some (m1, au1)"
    by (auto simp: tick_def split: bind_splits)
  then have "?L (track_focus W m1 au1)" using rules_au [OF r] ok keep by auto
  then show ?thesis
    using t r by (auto simp: tick_def Let_def keep split: if_splits bind_splits dest!: transition_launches)
qed

definition keeps_launches :: "studio_event \<Rightarrow> bool" where
  "keeps_launches e \<longleftrightarrow> e \<notin> {Profile_Event, Edit_Event, Reload_Event}"

lemma step_launches:
  "studio_step e sv t \<Longrightarrow> keeps_launches e \<Longrightarrow> st_launches (sv_store sv) = es \<Longrightarrow> launched_ok es (sv_automation sv) \<Longrightarrow>
     st_launches (sv_store t) = es \<and> launched_ok es (sv_automation t)"
proof (induction rule: studio_step.induct)
  case (step_tick W sv t)
  show ?case
  proof (cases "sv_observed sv = wm_revision (sv_manager sv)")
    case True
    then show ?thesis using step_tick by (simp add: service_tick_def)
  next
    case False
    then obtain m au where m: "tick W (sv_store sv) (sv_manager sv, sv_automation sv) = Some (m, au)"
        "t = put_service (sv\<lparr>sv_observed := wm_revision (sv_manager sv)\<rparr>) (m, au)"
      using step_tick(1) by (auto simp: service_tick_def Let_def split: bind_splits)
    then show ?thesis using tick_launches [OF m(1)] step_tick by (simp add: put_service_def)
  qed
next
  case (step_reapply W sv t)
  then obtain m m' au where r: "apply_rules_to_new_windows W (sv_store sv) (m, (sv_automation sv)\<lparr>au_processed := []\<rparr>) = Some (m', au)"
      "t = put_service sv (m', au)"
    by (auto simp: service_reapply_rules_def reapply_all_rules_def Let_def split: bind_splits)
  obtain ps where "au = (sv_automation sv)\<lparr>au_processed := ps\<rparr>" using rules_au [OF r(1)] by auto
  then have "launched_ok es au = launched_ok es (sv_automation sv)" by (intro launched_ok_same) (simp_all add: launches_of_def)
  then show ?case using step_reapply r(2) by (simp add: put_service_def)
next
  case (step_capture W sv t)
  then show ?case using capture_quick_store [of W sv t] by (auto simp: studio_ops Let_def)
next
  case (step_latest W sv t b)
  then show ?case by (auto simp: restore_latest_snapshot_def split: option.splits bind_splits)
next
  case (step_restore W i sv t b)
  then show ?case by (auto simp: restore_saved_layout_def Let_def split: option.splits bind_splits if_splits)
qed (auto simp: keeps_launches_def)

text \<open>
  C27. However often the ticks come and the workspaces change, the requests to launch are among the start-up entries with their
  multiplicities: no entry is launched twice, until the store is read again or the user applies the profile.
\<close>

theorem startup_entries_once:
  assumes "studio_run evs (new_service st m) sv" and "\<forall>e \<in> set evs. keeps_launches e"
  shows "mset (launches_of (sv_automation sv)) \<subseteq># mset (map launch_of (st_launches st))"
proof -
  have "studio_run evs s sv \<Longrightarrow> s = new_service st m \<Longrightarrow> \<forall>e \<in> set evs. keeps_launches e \<Longrightarrow>
      st_launches (sv_store sv) = st_launches st \<and> launched_ok (st_launches st) (sv_automation sv)" for s
  proof (induction rule: studio_run.induct)
    case (run_none sv)
    then show ?case
      by (auto simp: new_service_def launched_ok_def new_automation_def launches_of_def intro!: exI [of _ "[]"])
  next
    case (run_step evs sv t e u)
    then show ?case using step_launches [of e t u] by simp
  qed
  then show ?thesis using assms launched_subset by blast
qed

lemma startup_entries_once_witness:
  "\<exists>sv. studio_run [Manager_Event] (new_service default_studio new_wm) sv \<and>
     mset (launches_of (sv_automation sv)) \<subseteq># mset (map launch_of (st_launches default_studio))"
proof -
  let ?sv = "new_service default_studio new_wm"
  let ?t = "?sv\<lparr>sv_manager := set_reserved_bottom_pixels 40 (sv_manager ?sv)\<rparr>"
  have "studio_run [Manager_Event] ?sv ?t"
    using run_step [OF run_none [of ?sv] step_manager [of undefined "Set_Reserved 40" ?sv]] by simp
  then show ?thesis using startup_entries_once [of "[Manager_Event]" default_studio new_wm ?t] by (auto simp: keeps_launches_def)
qed

end
