(* ===== verification/Broker_State.thy ===== *)
theory Broker_State
  imports Job_Manager Event_Bus Notifications Clipboard Path_Translation Window_Manager "HOL-Library.State_Monad"
begin

text \<open>
  The state on which the requests of \<open>broker_server_v21.cpp\<close> work. The components modelled in the other theories are
  fields; the registry is modelled as far as the requests use it; whatever else answers - the services that ask
  Windows, WSL, the file system and the shell - is a \<open>services\<close> record of functions on an unknown state \<open>'w\<close>, so the
  theorems hold for any of them. A request is a computation in the state monad.
\<close>

section \<open>The registry\<close>

text \<open>
  The keys the requests name: \<open>Run\<close>, \<open>Policies System\<close> and \<open>Winlogon\<close> of the user and \<open>Winlogon\<close> of the machine.
  \<open>rg_opens\<close> says whether \<open>RegOpenKeyExW\<close> succeeds for reading or (\<open>True\<close>) for setting, \<open>rg_creates\<close> whether \<open>RegCreateKeyExW\<close>
  does, and \<open>rg_sets\<close> whether a write or a deletion under the opened key does. A text is stored without its terminator.
\<close>

datatype reg_key = Run_Key | User_Policies | User_Winlogon | Machine_Winlogon

datatype reg_value = Reg_Sz wide_string | Reg_Expand wide_string | Reg_Other

record registry =
  rg_values :: "reg_key \<Rightarrow> string \<Rightarrow> reg_value option"
  rg_opens :: "reg_key \<Rightarrow> bool \<Rightarrow> bool"
  rg_creates :: "reg_key \<Rightarrow> bool"
  rg_sets :: "reg_key \<Rightarrow> bool"

text \<open>\<open>RegQueryValueExW\<close> into 1,024 characters: a longer text is \<open>ERROR_MORE_DATA\<close>; the result stops at a zero.\<close>

definition query_text :: "reg_key \<Rightarrow> string \<Rightarrow> registry \<Rightarrow> reg_value option" where
  "query_text k name r =
     (case rg_values r k name of
        Some (Reg_Sz t) \<Rightarrow> if length t < 1024 then Some (Reg_Sz (takeWhile (\<lambda>c. c \<noteq> 0) t)) else None
      | Some (Reg_Expand t) \<Rightarrow> if length t < 1024 then Some (Reg_Expand (takeWhile (\<lambda>c. c \<noteq> 0) t)) else None
      | v \<Rightarrow> v)"

definition read_registry_str :: "reg_key \<Rightarrow> string \<Rightarrow> registry \<Rightarrow> wide_string" where
  "read_registry_str k name r =
     (if \<not> rg_opens r k False then []
      else case query_text k name r of Some (Reg_Sz t) \<Rightarrow> t | Some (Reg_Expand t) \<Rightarrow> t | _ \<Rightarrow> [])"

definition set_value :: "reg_key \<Rightarrow> string \<Rightarrow> wide_string \<Rightarrow> registry \<Rightarrow> bool \<times> registry" where
  "set_value k name t r =
     (if rg_sets r k then (True, r\<lparr>rg_values := (rg_values r)(k := (rg_values r k)(name \<mapsto> Reg_Sz t))\<rparr>) else (False, r))"

text \<open>A key that was created can be opened from then on.\<close>

definition create_key :: "reg_key \<Rightarrow> registry \<Rightarrow> registry" where
  "create_key k r = r\<lparr>rg_opens := (rg_opens r)(k := \<lambda>_. True)\<rparr>"

text \<open>True also when there was nothing to delete.\<close>

definition delete_value :: "reg_key \<Rightarrow> string \<Rightarrow> registry \<Rightarrow> bool \<times> registry" where
  "delete_value k name r =
     (if rg_values r k name = None then (True, r)
      else if rg_sets r k then (True, r\<lparr>rg_values := (rg_values r)(k := (rg_values r k)(name := None))\<rparr>) else (False, r))"

section \<open>Services\<close>

record audio_state =
  aud_available :: bool
  aud_muted :: bool
  aud_json :: json_object

record bluetooth_status =
  bt_available :: bool
  bt_enabled :: bool
  bt_json :: json_object

record system_snapshot =
  sy_volume :: bool
  sy_brightness :: bool
  sy_wsl :: bool
  sy_battery :: bool
  sy_json :: json_object

record performance_metrics =
  pm_profile :: string
  pm_total_ram :: int
  pm_free_ram :: int
  pm_cores :: int
  pm_load :: int
  pm_low_end :: bool
  pm_on_battery :: bool
  pm_battery :: int
  pm_json :: json_object

record file_item =
  fi_name :: string
  fi_json :: json_object

text \<open>
  The answers of the services. A call that fails is \<open>Inl\<close> with its error text. \<open>sv_visit\<close> is the order in which
  \<open>Publish\<close> visits the clients; \<open>sv_command\<close> is the delivery of a window command to the shell, \<open>None\<close> when no shell
  listens. \<open>sv_fold\<close> is the folding of \<open>_wcsicmp\<close>; files are named relative to the \<open>CloudOS\<close> directory of the local
  application data, whose absence is \<open>None\<close>.
\<close>

record 'w services =
  sv_utf8 :: "wide_string \<Rightarrow> string"
  sv_wide :: "string \<Rightarrow> wide_string"
  sv_fold :: "16 word \<Rightarrow> 16 word"
  sv_tick :: "'w \<Rightarrow> u64"
  sv_now :: "'w \<Rightarrow> u64"
  sv_now_text :: "'w \<Rightarrow> string"
  sv_now_ms :: "'w \<Rightarrow> nat"
  sv_visit :: "'w \<Rightarrow> string list"
  sv_session :: "'w \<Rightarrow> u32"
  sv_pid :: "'w \<Rightarrow> u32"
  sv_remote :: "'w \<Rightarrow> bool"
  sv_process :: "string \<Rightarrow> 'w \<Rightarrow> u32"
  sv_module_dir :: "'w \<Rightarrow> wide_string"
  sv_local_data :: "'w \<Rightarrow> wide_string option"
  sv_read_file :: "string \<Rightarrow> 'w \<Rightarrow> string option"
  sv_file_exists :: "string \<Rightarrow> 'w \<Rightarrow> bool"
  sv_write_file :: "string \<Rightarrow> string \<Rightarrow> 'w \<Rightarrow> bool \<times> 'w"
  sv_launch_process :: "wide_string \<Rightarrow> 'w \<Rightarrow> bool \<times> 'w"
  sv_start_explorer :: "'w \<Rightarrow> unit \<times> 'w"
  sv_close_all :: "'w \<Rightarrow> unit \<times> 'w"
  sv_lock :: "'w \<Rightarrow> unit \<times> 'w"
  sv_capabilities :: "'w \<Rightarrow> string list \<times> 'w"
  sv_snapshot :: "'w \<Rightarrow> system_snapshot \<times> 'w"
  sv_set_volume :: "double \<Rightarrow> 'w \<Rightarrow> bool \<times> 'w"
  sv_set_brightness :: "double \<Rightarrow> 'w \<Rightarrow> bool \<times> 'w"
  sv_audio :: "'w \<Rightarrow> audio_state \<times> 'w"
  sv_audio_volume :: "double \<Rightarrow> 'w \<Rightarrow> bool \<times> 'w"
  sv_audio_mute :: "bool \<Rightarrow> 'w \<Rightarrow> bool \<times> 'w"
  sv_power :: "'w \<Rightarrow> json_object \<times> 'w"
  sv_bluetooth :: "'w \<Rightarrow> bluetooth_status \<times> 'w"
  sv_interfaces :: "'w \<Rightarrow> json_object list \<times> 'w"
  sv_wifi :: "'w \<Rightarrow> json_object list \<times> 'w"
  sv_storage :: "'w \<Rightarrow> json_object list \<times> 'w"
  sv_personalization :: "'w \<Rightarrow> json_object \<times> 'w"
  sv_set_personalization :: "json_object \<Rightarrow> 'w \<Rightarrow> (string + json_object) \<times> 'w"
  sv_datetime :: "'w \<Rightarrow> json_object \<times> 'w"
  sv_wsl_available :: "'w \<Rightarrow> bool \<times> 'w"
  sv_wsl_default :: "'w \<Rightarrow> string \<times> 'w"
  sv_wsl_distros :: "'w \<Rightarrow> string list \<times> 'w"
  sv_wsl_details :: "'w \<Rightarrow> json_object list \<times> 'w"
  sv_wsl_generation :: "'w \<Rightarrow> int \<times> 'w"
  sv_apps :: "'w \<Rightarrow> json_object list \<times> 'w"
  sv_apps_generation :: "'w \<Rightarrow> int \<times> 'w"
  sv_launch_app :: "string \<Rightarrow> 'w \<Rightarrow> (json_object \<times> string option) \<times> 'w"
  sv_allowed_location :: "string \<Rightarrow> bool"
  sv_list_location :: "string \<Rightarrow> 'w \<Rightarrow> (string + file_item list) \<times> 'w"
  sv_list_entry :: "string \<Rightarrow> 'w \<Rightarrow> (string + file_item list) \<times> 'w"
  sv_attributes :: "wide_string \<Rightarrow> 'w \<Rightarrow> bool option"
  sv_issue :: "wide_string \<Rightarrow> bool \<Rightarrow> 'w \<Rightarrow> string \<times> 'w"
  sv_open_entry :: "string \<Rightarrow> 'w \<Rightarrow> string option \<times> 'w"
  sv_create_folder :: "string \<Rightarrow> string \<Rightarrow> 'w \<Rightarrow> (string + json_object) \<times> 'w"
  sv_rename :: "string \<Rightarrow> string \<Rightarrow> 'w \<Rightarrow> (string + json_object) \<times> 'w"
  sv_delete :: "string list \<Rightarrow> bool \<Rightarrow> 'w \<Rightarrow> (string + string list) \<times> 'w"
  sv_recycle :: "'w \<Rightarrow> (int \<times> int) option"
  sv_empty_recycle :: "'w \<Rightarrow> bool \<times> 'w"
  sv_copy_or_move :: "string \<Rightarrow> string list \<Rightarrow> string \<Rightarrow> string \<Rightarrow> manager \<Rightarrow> 'w \<Rightarrow> ((string + string) \<times> manager) \<times> 'w"
  sv_drives :: "'w \<Rightarrow> (string + json_object list) \<times> 'w"
  sv_mounts :: "'w \<Rightarrow> json_object list \<times> 'w"
  sv_path_exists :: "string \<Rightarrow> string \<Rightarrow> 'w \<Rightarrow> bool \<times> 'w"
  sv_metrics :: "'w \<Rightarrow> performance_metrics \<times> 'w"
  sv_set_profile :: "string \<Rightarrow> 'w \<Rightarrow> bool \<times> 'w"
  sv_diagnostics :: "'w \<Rightarrow> json_object \<times> 'w"
  sv_window_snapshot :: "'w \<Rightarrow> (string + string) \<times> 'w"
  sv_command :: "window_command \<Rightarrow> 'w \<Rightarrow> bool option \<times> 'w"
  sv_monitors :: "'w \<Rightarrow> json_object list \<times> 'w"
  sv_modes :: "wide_string \<Rightarrow> 'w \<Rightarrow> json_object list \<times> 'w"
  sv_apply_mode :: "wide_string \<Rightarrow> string \<Rightarrow> 'w \<Rightarrow> string option \<times> 'w"
  sv_set_mode :: "wide_string \<Rightarrow> int \<Rightarrow> int \<Rightarrow> int \<Rightarrow> int \<Rightarrow> 'w \<Rightarrow> string option \<times> 'w"
  sv_restore_display :: "'w \<Rightarrow> string option \<times> 'w"
  sv_clipboard_text :: "'w \<Rightarrow> string \<times> 'w"
  sv_set_clipboard :: "string \<Rightarrow> 'w \<Rightarrow> string option \<times> 'w"
  sv_clipboard_opens :: "'w \<Rightarrow> bool \<times> 'w"
  sv_open_file :: "string \<Rightarrow> string \<Rightarrow> 'w \<Rightarrow> string option \<times> 'w"
  sv_associations :: "'w \<Rightarrow> json_object list \<times> 'w"
  sv_open_dialog :: "string \<Rightarrow> 'w \<Rightarrow> string option \<times> 'w"

text \<open>\<open>WideToUtf8\<close> and \<open>Utf8ToWide\<close>; \<open>sv_utf8\<close> and \<open>sv_wide\<close> are the conversions of Windows.\<close>

definition narrow :: "'w services \<Rightarrow> wide_string \<Rightarrow> string" where
  "narrow sv t = (if t = [] then [] else sv_utf8 sv t)"

definition widen :: "'w services \<Rightarrow> string \<Rightarrow> wide_string" where
  "widen sv s = (if s = [] then [] else sv_wide sv s)"

section \<open>The broker\<close>

record ('c, 'w) broker =
  bk_bus :: "'c event_bus"
  bk_jobs :: manager
  bk_notes :: notification_service
  bk_clip :: clipboard_service
  bk_registry :: registry
  bk_window_generation :: u64
  bk_world :: 'w
  bk_sent :: "('c \<times> broker_event) list"

type_synonym ('c, 'w, 'a) request_step = "(('c, 'w) broker, 'a) state"

definition ask :: "('w \<Rightarrow> 'a \<times> 'w) \<Rightarrow> ('c, 'w, 'a) request_step" where
  "ask f = State (\<lambda>b. let (x, w) = f (bk_world b) in (x, b\<lparr>bk_world := w\<rparr>))"

definition look :: "('w \<Rightarrow> 'a) \<Rightarrow> ('c, 'w, 'a) request_step" where
  "look f = State (\<lambda>b. (f (bk_world b), b))"

definition gets :: "(('c, 'w) broker \<Rightarrow> 'a) \<Rightarrow> ('c, 'w, 'a) request_step" where
  "gets f = State (\<lambda>b. (f b, b))"

definition on_bus :: "('c event_bus \<Rightarrow> 'a \<times> 'c event_bus) \<Rightarrow> ('c, 'w, 'a) request_step" where
  "on_bus f = State (\<lambda>b. let (x, s) = f (bk_bus b) in (x, b\<lparr>bk_bus := s\<rparr>))"

definition on_jobs :: "(manager \<Rightarrow> 'a \<times> manager) \<Rightarrow> ('c, 'w, 'a) request_step" where
  "on_jobs f = State (\<lambda>b. let (x, s) = f (bk_jobs b) in (x, b\<lparr>bk_jobs := s\<rparr>))"

definition on_registry :: "(registry \<Rightarrow> 'a \<times> registry) \<Rightarrow> ('c, 'w, 'a) request_step" where
  "on_registry f = State (\<lambda>b. let (x, s) = f (bk_registry b) in (x, b\<lparr>bk_registry := s\<rparr>))"

text \<open>\<open>Publish\<close>, and the two services that publish what they did.\<close>

definition publish_events :: "'w services \<Rightarrow> (string \<times> json_object) list \<Rightarrow> ('c, 'w, unit) request_step" where
  "publish_events sv events = State (\<lambda>b. ((), b\<lparr>bk_sent := bk_sent b @
     concat (map (\<lambda>(name, payload). publish (sv_now sv (bk_world b)) (sv_visit sv (bk_world b)) name payload (bk_bus b)) events)\<rparr>))"

definition on_notes :: "'w services \<Rightarrow> (notification_service \<Rightarrow> 'a \<times> (string \<times> json_object) list \<times> notification_service) \<Rightarrow>
    ('c, 'w, 'a) request_step" where
  "on_notes sv f = do {
     (x, events) \<leftarrow> State (\<lambda>b. let (x, events, s) = f (bk_notes b) in ((x, events), b\<lparr>bk_notes := s\<rparr>));
     _ \<leftarrow> publish_events sv events;
     State_Monad.return x }"

definition on_clip :: "'w services \<Rightarrow> (clipboard_service \<Rightarrow> 'a \<times> (string \<times> json_object) list \<times> clipboard_service) \<Rightarrow>
    ('c, 'w, 'a) request_step" where
  "on_clip sv f = do {
     (x, events) \<leftarrow> State (\<lambda>b. let (x, events, s) = f (bk_clip b) in ((x, events), b\<lparr>bk_clip := s\<rparr>));
     _ \<leftarrow> publish_events sv events;
     State_Monad.return x }"

section \<open>Replies and arguments\<close>

text \<open>What a branch of \<open>HandleRequest\<close> puts into the response before it returns.\<close>

datatype reply = Accepted json_object | Refused string string json_object

definition respond :: "string \<Rightarrow> reply \<Rightarrow> broker_response" where
  "respond i r =
     (case r of
        Accepted p \<Rightarrow> \<lparr>res_protocol = kProtocolVersion, res_id = i, res_ok = True, res_payload = p, res_error_code = [], res_error_message = []\<rparr>
      | Refused code message p \<Rightarrow>
          \<lparr>res_protocol = kProtocolVersion, res_id = i, res_ok = False, res_payload = p, res_error_code = code, res_error_message = message\<rparr>)"

definition accept :: "(string \<times> json) list \<Rightarrow> ('c, 'w, reply) request_step" where
  "accept kvs = State_Monad.return (Accepted (object_of kvs))"

definition refuse :: "string \<Rightarrow> string \<Rightarrow> ('c, 'w, reply) request_step" where
  "refuse code message = State_Monad.return (Refused code message [])"

definition invalid :: "string \<Rightarrow> ('c, 'w, reply) request_step" where
  "invalid message = refuse ''invalid_argument'' message"

text \<open>\<open>payload.find(k)\<close> with the test of its type, and the default otherwise.\<close>

definition string_arg :: "json_object \<Rightarrow> string \<Rightarrow> string option" where
  "string_arg p k = (case map_of p k of Some (JStr s) \<Rightarrow> Some s | _ \<Rightarrow> None)"

definition bool_arg :: "json_object \<Rightarrow> string \<Rightarrow> bool option" where
  "bool_arg p k = (case map_of p k of Some (JBool b) \<Rightarrow> Some b | _ \<Rightarrow> None)"

definition int_arg :: "json_object \<Rightarrow> string \<Rightarrow> int option" where
  "int_arg p k = (case map_of p k of Some (JInt i) \<Rightarrow> Some i | _ \<Rightarrow> None)"

definition double_arg :: "json_object \<Rightarrow> string \<Rightarrow> double option" where
  "double_arg p k = (case map_of p k of Some v \<Rightarrow> if is_double v then Some (as_double v (double_of_int 0)) else None | None \<Rightarrow> None)"

definition array_arg :: "json_object \<Rightarrow> string \<Rightarrow> json list option" where
  "array_arg p k = (case map_of p k of Some (JArr vs) \<Rightarrow> Some vs | _ \<Rightarrow> None)"

definition or_else :: "'a option \<Rightarrow> 'a \<Rightarrow> 'a" where
  "or_else x d = (case x of Some y \<Rightarrow> y | None \<Rightarrow> d)"

text \<open>\<open>static_cast<int>\<close> of a 64-bit integer.\<close>

definition to_int32 :: "int \<Rightarrow> int" where
  "to_int32 i = sint (word_of_int i :: 32 word)"

definition strings_of :: "json list \<Rightarrow> string list" where
  "strings_of vs = List.map_filter (\<lambda>v. case v of JStr s \<Rightarrow> Some s | _ \<Rightarrow> None) vs"

definition texts :: "string list \<Rightarrow> json" where
  "texts ss = JArr (map JStr ss)"

definition objects :: "json_object list \<Rightarrow> json" where
  "objects os = JArr (map JObj os)"

end
