(* ===== verification/Broker_Handlers.thy ===== *)
theory Broker_Handlers
  imports Broker_State
begin

text \<open>
  The branches of \<open>HandleRequest\<close> in \<open>broker_server_v21.cpp\<close>, one definition per method, in the order of the code.
  Each takes the services and the payload and gives the reply. The literal texts are the code's; an accented letter is
  its UTF-8 bytes.
\<close>

section \<open>Session, health, capabilities\<close>

definition handle_hello :: "'w services \<Rightarrow> string \<Rightarrow> ('c, 'w, reply) request_step" where
  "handle_hello sv client_id = do {
     session \<leftarrow> look (sv_session sv);
     caps \<leftarrow> ask (sv_capabilities sv);
     accept [(''brokerVersion'', JStr ''21.0.0''), (''protocolVersion'', JInt kProtocolVersion), (''clientId'', JStr client_id),
       (''serverInstanceId'', JStr (''broker-session-'' @ nat_dec (unat session))), (''capabilities'', texts caps)] }"

definition handle_ping :: "('c, 'w, reply) request_step" where
  "handle_ping = accept [(''pong'', JBool True), (''protocol'', JInt kProtocolVersion)]"

definition handle_health :: "('c, 'w, reply) request_step" where
  "handle_health = do {
     clients \<leftarrow> gets (\<lambda>b. active_client_count (bk_bus b));
     jobs \<leftarrow> gets (\<lambda>b. active_job_count (bk_jobs b));
     accept [(''status'', JStr ''healthy''), (''protocol'', JInt kProtocolVersion), (''activeClients'', JInt (int clients)),
       (''activeJobs'', JInt (int jobs))] }"

definition display_capability :: json_object where
  "display_capability = object_of [(''id'', JStr ''display''), (''supported'', JBool True), (''available'', JBool True),
     (''enabled'', JBool True), (''writable'', JBool True), (''features'', texts [''listModes'', ''applyMode'', ''restore''])]"

definition handle_capabilities :: "'w services \<Rightarrow> ('c, 'w, reply) request_step" where
  "handle_capabilities sv = do {
     caps \<leftarrow> ask (sv_capabilities sv);
     audio \<leftarrow> ask (sv_audio sv);
     _ \<leftarrow> ask (sv_power sv);
     bt \<leftarrow> ask (sv_bluetooth sv);
     wsl \<leftarrow> ask (sv_wsl_available sv);
     accept [(''capabilities'', texts caps), (''registry'', JObj (object_of
       [(''display'', JObj display_capability),
        (''audio'', JObj (object_of [(''id'', JStr ''audio''), (''supported'', JBool True), (''available'', JBool (aud_available audio)),
           (''enabled'', JBool (\<not> aud_muted audio)), (''writable'', JBool (aud_available audio))])),
        (''bluetooth'', JObj (object_of [(''id'', JStr ''bluetooth''), (''supported'', JBool True), (''available'', JBool (bt_available bt)),
           (''enabled'', JBool (bt_enabled bt)), (''writable'', JBool False),
           (''reason'', JStr (if bt_available bt then ''Adaptador Bluetooth em modo somente leitura''
              else ''Adaptador Bluetooth indispon'' @ [CHR 0xC3, CHR 0xAD] @ ''vel''))])),
        (''network'', JObj (object_of [(''id'', JStr ''network''), (''supported'', JBool True), (''available'', JBool True),
           (''enabled'', JBool True), (''writable'', JBool True)])),
        (''wsl'', JObj (object_of [(''id'', JStr ''wsl''), (''supported'', JBool True), (''available'', JBool wsl),
           (''enabled'', JBool wsl), (''writable'', JBool wsl)]))]))] }"

section \<open>Applications\<close>

definition handle_apps_list :: "'w services \<Rightarrow> ('c, 'w, reply) request_step" where
  "handle_apps_list sv = do {
     apps \<leftarrow> ask (sv_apps sv);
     generation \<leftarrow> ask (sv_apps_generation sv);
     accept [(''apps'', objects apps), (''generation'', JInt generation)] }"

definition handle_apps_launch :: "'w services \<Rightarrow> json_object \<Rightarrow> ('c, 'w, reply) request_step" where
  "handle_apps_launch sv p =
     (case string_arg p ''id'' of
        None \<Rightarrow> invalid (''Missing or invalid '' @ quoted ''id'' @ '' parameter in payload'')
      | Some app_id \<Rightarrow> do {
          (status, err) \<leftarrow> ask (sv_launch_app sv app_id);
          State_Monad.return (case err of Some e \<Rightarrow> Refused ''launch_failed'' e status | None \<Rightarrow> Accepted status) })"

section \<open>Files\<close>

text \<open>\<open>WriteFilesPayload\<close>: one page of the items.\<close>

definition files_payload :: "file_item list \<Rightarrow> nat \<Rightarrow> nat \<Rightarrow> (string \<times> json) list" where
  "files_payload items offset limit0 =
     (let total = length items; limit = (if limit0 = 0 \<or> 2000 < limit0 then 1500 else limit0);
          start = min offset total; stop = min (start + limit) total
      in [(''files'', JArr (map (\<lambda>i. JObj (fi_json i)) (take (stop - start) (drop start items)))),
          (''totalCount'', JDouble (double_of_int (int total))), (''offset'', JDouble (double_of_int (int start))),
          (''limit'', JDouble (double_of_int (int limit))), (''hasMore'', JBool (stop < total))])"

text \<open>
  The offset and the limit are taken when they are numbers, but always through \<open>AsInt\<close>, which gives 0 for a double; the
  query keeps the items whose name contains it, without regard to the case of ASCII letters.
\<close>

definition page_arg :: "json_object \<Rightarrow> string \<Rightarrow> int \<Rightarrow> nat \<Rightarrow> nat" where
  "page_arg p k least default_value =
     (case map_of p k of Some v \<Rightarrow> if is_int v \<or> is_double v then nat (max least (as_int v 0)) else default_value | None \<Rightarrow> default_value)"

definition matching_items :: "json_object \<Rightarrow> file_item list \<Rightarrow> file_item list" where
  "matching_items p items =
     (case string_arg p ''query'' of
        Some q \<Rightarrow> if q = [] then items else filter (\<lambda>i. contains_text (map to_lower q) (map to_lower (fi_name i))) items
      | None \<Rightarrow> items)"

definition page_of :: "json_object \<Rightarrow> file_item list \<Rightarrow> (string \<times> json) list" where
  "page_of p items = files_payload (matching_items p items) (page_arg p ''offset'' 0 0) (page_arg p ''limit'' 1 1500)"

definition handle_files_list :: "'w services \<Rightarrow> json_object \<Rightarrow> ('c, 'w, reply) request_step" where
  "handle_files_list sv p =
     (case string_arg p ''location'' of
        None \<Rightarrow> invalid (''Missing or invalid allowlisted '' @ quoted ''location'' @ '' id'')
      | Some location \<Rightarrow>
          if \<not> sv_allowed_location sv location
          then refuse ''location_not_allowed'' ''The requested Files location is not allowlisted''
          else do {
            r \<leftarrow> ask (sv_list_location sv location);
            case r of
              Inl err \<Rightarrow> refuse ''files_unavailable'' (if err = [] then ''The requested Files location is unavailable'' else err)
            | Inr items \<Rightarrow> accept ((''location'', JStr location) # page_of p items) })"

definition handle_files_list_entry :: "'w services \<Rightarrow> json_object \<Rightarrow> ('c, 'w, reply) request_step" where
  "handle_files_list_entry sv p =
     (case string_arg p ''entryId'' of
        None \<Rightarrow> invalid ''Missing or invalid Files entry capability''
      | Some entry \<Rightarrow> do {
          r \<leftarrow> ask (sv_list_entry sv entry);
          case r of
            Inl err \<Rightarrow> refuse ''entry_unavailable'' err
          | Inr items \<Rightarrow> accept ((''entryId'', JStr entry) # page_of p items) })"

definition handle_files_resolve :: "'w services \<Rightarrow> json_object \<Rightarrow> ('c, 'w, reply) request_step" where
  "handle_files_resolve sv p =
     (case string_arg p ''path'' of
        None \<Rightarrow> invalid (''Missing or invalid '' @ quoted ''path'')
      | Some path \<Rightarrow> do {
          attributes \<leftarrow> look (sv_attributes sv (widen sv path));
          case attributes of
            None \<Rightarrow> refuse ''not_found'' ''Path not found on filesystem''
          | Some is_dir \<Rightarrow> do {
              entry \<leftarrow> ask (sv_issue sv (widen sv path) is_dir);
              accept [(''entryId'', JStr entry), (''path'', JStr path), (''isFolder'', JBool is_dir)] } })"

definition handle_files_open :: "'w services \<Rightarrow> json_object \<Rightarrow> ('c, 'w, reply) request_step" where
  "handle_files_open sv p =
     (case string_arg p ''entryId'' of
        None \<Rightarrow> invalid ''Missing or invalid Files entry capability''
      | Some entry \<Rightarrow> do {
          err \<leftarrow> ask (sv_open_entry sv entry);
          case err of Some e \<Rightarrow> refuse ''entry_open_failed'' e | None \<Rightarrow> accept [(''opened'', JBool True)] })"

definition handle_files_create_folder :: "'w services \<Rightarrow> json_object \<Rightarrow> ('c, 'w, reply) request_step" where
  "handle_files_create_folder sv p =
     (case (string_arg p ''parentEntryId'', string_arg p ''name'') of
        (Some parent, Some name) \<Rightarrow> do {
          r \<leftarrow> ask (sv_create_folder sv parent name);
          case r of Inl err \<Rightarrow> refuse ''create_folder_failed'' err | Inr item \<Rightarrow> State_Monad.return (Accepted item) }
      | _ \<Rightarrow> invalid (''Missing or invalid '' @ quoted ''parentEntryId'' @ '' or '' @ quoted ''name''))"

definition handle_files_rename :: "'w services \<Rightarrow> json_object \<Rightarrow> ('c, 'w, reply) request_step" where
  "handle_files_rename sv p =
     (case (string_arg p ''entryId'', string_arg p ''newName'') of
        (Some entry, Some name) \<Rightarrow> do {
          r \<leftarrow> ask (sv_rename sv entry name);
          case r of Inl err \<Rightarrow> refuse ''rename_failed'' err | Inr item \<Rightarrow> State_Monad.return (Accepted item) }
      | _ \<Rightarrow> invalid (''Missing or invalid '' @ quoted ''entryId'' @ '' or '' @ quoted ''newName''))"

definition handle_files_delete :: "'w services \<Rightarrow> json_object \<Rightarrow> ('c, 'w, reply) request_step" where
  "handle_files_delete sv p =
     (case array_arg p ''entryIds'' of
        None \<Rightarrow> invalid (''Missing or invalid array '' @ quoted ''entryIds'')
      | Some entries \<Rightarrow> do {
          r \<leftarrow> ask (sv_delete sv (strings_of entries) (or_else (bool_arg p ''permanent'') False));
          case r of Inl err \<Rightarrow> refuse ''delete_failed'' err | Inr deleted \<Rightarrow> accept [(''deletedEntryIds'', texts deleted)] })"

definition handle_query_recycle_bin :: "'w services \<Rightarrow> ('c, 'w, reply) request_step" where
  "handle_query_recycle_bin sv = do {
     info \<leftarrow> look (sv_recycle sv);
     (case info of
        Some (n, bytes) \<Rightarrow> accept [(''itemCount'', JDouble (double_of_int n)), (''totalSizeBytes'', JDouble (double_of_int bytes))]
      | None \<Rightarrow> accept [(''itemCount'', JDouble (double_of_int 0)), (''totalSizeBytes'', JDouble (double_of_int 0))]) }"

definition handle_empty_recycle_bin :: "'w services \<Rightarrow> ('c, 'w, reply) request_step" where
  "handle_empty_recycle_bin sv = do {
     ok \<leftarrow> ask (sv_empty_recycle sv);
     if ok then accept [] else refuse ''empty_failed'' ''Falha ao esvaziar lixeira'' }"

definition handle_copy_or_move :: "'w services \<Rightarrow> string \<Rightarrow> json_object \<Rightarrow> ('c, 'w, reply) request_step" where
  "handle_copy_or_move sv method p =
     (case (array_arg p ''sourceEntryIds'', string_arg p ''destinationEntryId'') of
        (Some sources, Some destination) \<Rightarrow> do {
          let strategy = or_else (string_arg p (if map_of p ''conflictStrategy'' = None then ''conflictResolution'' else ''conflictStrategy'')) ''replace'';
          m \<leftarrow> gets bk_jobs;
          (r, m') \<leftarrow> ask (sv_copy_or_move sv (if method = ''files.move'' then ''move'' else ''copy'') (strings_of sources) destination strategy m);
          _ \<leftarrow> on_jobs (\<lambda>_. ((), m'));
          case r of
            Inl err \<Rightarrow> refuse ''file_operation_failed'' err
          | Inr job \<Rightarrow> accept [(''jobId'', JStr job), (''operationId'', JStr job)] }
      | _ \<Rightarrow> invalid (''Missing or invalid '' @ quoted ''sourceEntryIds'' @ '' or '' @ quoted ''destinationEntryId''))"

definition handle_list_drives :: "'w services \<Rightarrow> ('c, 'w, reply) request_step" where
  "handle_list_drives sv = do {
     r \<leftarrow> ask (sv_drives sv);
     case r of Inl err \<Rightarrow> refuse ''list_drives_failed'' err | Inr drives \<Rightarrow> accept [(''drives'', objects drives)] }"

section \<open>System\<close>

definition handle_system_snapshot :: "'w services \<Rightarrow> ('c, 'w, reply) request_step" where
  "handle_system_snapshot sv = do { snap \<leftarrow> ask (sv_snapshot sv); State_Monad.return (Accepted (sy_json snap)) }"

text \<open>\<open>!std::isfinite(v) || v < 0.0 || v > 1.0\<close>, on the value \<open>m * 2 ^ e\<close>.\<close>

fun outside_unit :: "double \<Rightarrow> bool" where
  "outside_unit (DFin neg m e) = (neg \<and> m \<noteq> 0 \<or> \<not> neg \<and> 2 ^ nat (- e) < m * 2 ^ nat e)"
| "outside_unit _ = True"

text \<open>The volume and the brightness differ in the service and the texts.\<close>

definition set_level :: "(double \<Rightarrow> 'w \<Rightarrow> bool \<times> 'w) \<Rightarrow> string \<Rightarrow> string \<Rightarrow> json_object \<Rightarrow> ('c, 'w, reply) request_step" where
  "set_level svc range_text unavailable p =
     (case double_arg p ''value'' of
        None \<Rightarrow> invalid (''Missing or invalid double '' @ quoted ''value'')
      | Some v \<Rightarrow>
          if outside_unit v then refuse ''out_of_range'' range_text
          else do {
            ok \<leftarrow> ask (svc v);
            if ok then accept [(''updated'', JBool True)]
            else State_Monad.return (Refused ''system_control_unavailable'' unavailable (object_of [(''updated'', JBool False)])) })"

definition handle_volume_set :: "'w services \<Rightarrow> json_object \<Rightarrow> ('c, 'w, reply) request_step" where
  "handle_volume_set sv = set_level (sv_set_volume sv) ''Volume must be a finite value in [0, 1]''
     ''The active Windows audio endpoint rejected or does not support volume control''"

definition handle_brightness_set :: "'w services \<Rightarrow> json_object \<Rightarrow> ('c, 'w, reply) request_step" where
  "handle_brightness_set sv = set_level (sv_set_brightness sv) ''Brightness must be a finite value in [0, 1]''
     ''No monitor accepted brightness control through DDC/CI or WMI''"

definition handle_wsl_list :: "'w services \<Rightarrow> ('c, 'w, reply) request_step" where
  "handle_wsl_list sv = do {
     available \<leftarrow> ask (sv_wsl_available sv);
     dflt \<leftarrow> ask (sv_wsl_default sv);
     distros \<leftarrow> ask (sv_wsl_distros sv);
     details \<leftarrow> ask (sv_wsl_details sv);
     generation \<leftarrow> ask (sv_wsl_generation sv);
     accept [(''wslAvailable'', JBool available), (''defaultDistro'', JStr dflt), (''distros'', texts distros),
       (''distroDetails'', objects details), (''generation'', JInt generation)] }"

text \<open>\<open>LinuxToWindows\<close> asks for the default distribution only on the path where its result depends on it.\<close>

definition uses_default :: "string \<Rightarrow> string \<Rightarrow> bool" where
  "uses_default distro path \<longleftrightarrow> linux_to_windows ''a'' distro path \<noteq> linux_to_windows ''b'' distro path"

definition handle_path_translate :: "'w services \<Rightarrow> json_object \<Rightarrow> ('c, 'w, reply) request_step" where
  "handle_path_translate sv p =
     (case string_arg p ''path'' of
        None \<Rightarrow> invalid (''Missing or invalid '' @ quoted ''path'' @ '' parameter in payload'')
      | Some path \<Rightarrow> do {
          let target = or_else (string_arg p ''target'') ''linux'';
          let distro = or_else (string_arg p ''distro'') [];
          dflt \<leftarrow> (if target = ''linux'' \<or> \<not> uses_default distro path then State_Monad.return [] else ask (sv_wsl_default sv));
          let translated = (if target = ''linux'' then windows_to_linux path else linux_to_windows dflt distro path);
          exists \<leftarrow> ask (sv_path_exists sv (if target = ''windows'' then translated else path) distro);
          accept [(''originalPath'', JStr path), (''translatedPath'', JStr translated), (''target'', JStr target),
            (''distro'', JStr distro), (''exists'', JBool exists)] })"

definition handle_mounts :: "'w services \<Rightarrow> ('c, 'w, reply) request_step" where
  "handle_mounts sv = do { mounts \<leftarrow> ask (sv_mounts sv); accept [(''mounts'', objects mounts)] }"

definition handle_performance_get :: "'w services \<Rightarrow> ('c, 'w, reply) request_step" where
  "handle_performance_get sv = do { m \<leftarrow> ask (sv_metrics sv); State_Monad.return (Accepted (pm_json m)) }"

definition handle_performance_set :: "'w services \<Rightarrow> json_object \<Rightarrow> ('c, 'w, reply) request_step" where
  "handle_performance_set sv p =
     (case string_arg p ''profile'' of
        None \<Rightarrow> invalid (''Missing or invalid '' @ quoted ''profile'' @ '' string in payload'')
      | Some profile \<Rightarrow> do {
          ok \<leftarrow> ask (sv_set_profile sv profile);
          if ok then accept [(''updated'', JBool True), (''profile'', JStr profile)]
          else refuse ''invalid_profile'' (''Valid profiles are '' @ quoted ''economy'' @ '', '' @ quoted ''balanced'' @ '', or '' @ quoted ''performance'') })"

section \<open>Events and jobs\<close>

definition handle_subscribe :: "string \<Rightarrow> json_object \<Rightarrow> ('c, 'w, reply) request_step" where
  "handle_subscribe client_id p = do {
     let pattern = or_else (string_arg p ''pattern'') ''*'';
     ok \<leftarrow> on_bus (subscribe client_id pattern);
     accept [(''subscribed'', JBool ok), (''pattern'', JStr pattern)] }"

definition handle_unsubscribe :: "string \<Rightarrow> json_object \<Rightarrow> ('c, 'w, reply) request_step" where
  "handle_unsubscribe client_id p = do {
     let pattern = or_else (string_arg p ''pattern'') ''*'';
     ok \<leftarrow> on_bus (unsubscribe client_id pattern);
     accept [(''unsubscribed'', JBool ok), (''pattern'', JStr pattern)] }"

definition handle_job_status :: "json_object \<Rightarrow> ('c, 'w, reply) request_step" where
  "handle_job_status p =
     (case string_arg p ''jobId'' of
        None \<Rightarrow> invalid (''Missing '' @ quoted ''jobId'')
      | Some i \<Rightarrow> do {
          info \<leftarrow> gets (\<lambda>b. get_job_info i (bk_jobs b));
          case info of
            None \<Rightarrow> refuse ''not_found'' ''Job not found''
          | Some j \<Rightarrow> accept [(''jobId'', JStr (ji_id j)), (''type'', JStr (ji_type j)), (''state'', JStr (job_state_to_string (ji_state j))),
              (''progress'', JDouble (ji_progress j)), (''error'', JStr (ji_error j))] })"

definition handle_job_cancel :: "'w services \<Rightarrow> json_object \<Rightarrow> ('c, 'w, reply) request_step" where
  "handle_job_cancel sv p =
     (case string_arg p ''jobId'' of
        None \<Rightarrow> invalid (''Missing '' @ quoted ''jobId'')
      | Some i \<Rightarrow> do {
          now \<leftarrow> look (sv_now_ms sv);
          cancelled \<leftarrow> on_jobs (cancel_job now i);
          accept [(''cancelled'', JBool cancelled)] })"

definition handle_diagnostics :: "'w services \<Rightarrow> ('c, 'w, reply) request_step" where
  "handle_diagnostics sv = do { d \<leftarrow> ask (sv_diagnostics sv); State_Monad.return (Accepted d) }"

section \<open>Windows\<close>

definition handle_window_snapshot :: "'w services \<Rightarrow> ('c, 'w, reply) request_step" where
  "handle_window_snapshot sv = do {
     r \<leftarrow> ask (sv_window_snapshot sv);
     case r of Inl err \<Rightarrow> refuse ''snapshot_failed'' err | Inr text \<Rightarrow> accept [(''snapshot'', JStr text)] }"

definition handle_monitor_list :: "'w services \<Rightarrow> ('c, 'w, reply) request_step" where
  "handle_monitor_list sv = do {
     r \<leftarrow> ask (sv_window_snapshot sv);
     case r of Inl err \<Rightarrow> refuse ''monitor_list_failed'' err | Inr text \<Rightarrow> accept [(''snapshot'', JStr text)] }"

text \<open>
  \<open>std::stoull\<close>: white space, a sign, decimal digits; what follows is ignored. A minus sign negates modulo
  \<open>2 ^ 64\<close>; no digit and a value out of range are exceptions, which the handler turns into 0.
\<close>

definition is_space :: "char \<Rightarrow> bool" where
  "is_space c \<longleftrightarrow> of_char c \<in> {9, 10, 11, 12, 13, 32 :: nat}"

definition stoull :: "string \<Rightarrow> u64 option" where
  "stoull s =
     (let t = dropWhile is_space s;
          neg = (t \<noteq> [] \<and> hd t = CHR ''-'');
          digits = takeWhile is_digit (if t \<noteq> [] \<and> (hd t = CHR ''-'' \<or> hd t = CHR ''+'') then tl t else t);
          n = dec_value digits
      in if digits = [] \<or> 2 ^ 64 \<le> n then None else Some (if neg then - word_of_nat n else word_of_nat n))"

text \<open>\<open>static_cast<uint64_t>\<close> of a double: truncation. Outside the range C++ leaves the result open; the model wraps.\<close>

fun truncate_u64 :: "double \<Rightarrow> u64" where
  "truncate_u64 (DFin neg m e) = (let n = word_of_nat (m * 2 ^ nat e div 2 ^ nat (- e)) in if neg then - n else n)"
| "truncate_u64 _ = 0"

definition hwnd_arg :: "json \<Rightarrow> hwnd" where
  "hwnd_arg v =
     (case v of
        JInt i \<Rightarrow> word_of_int i
      | JDouble d \<Rightarrow> truncate_u64 d
      | JStr s \<Rightarrow> or_else (stoull (if take 4 s = ''win_'' then drop 4 s else s)) 0
      | _ \<Rightarrow> 0)"

text \<open>\<open>window_service_v23.cpp\<close>: each method fills a command with the defaults of its type and sends it.\<close>

definition window_command_of :: "u32 \<Rightarrow> hwnd \<Rightarrow> window_command" where
  "window_command_of action w = \<lparr>wc_schema = 23, wc_action = action, wc_hwnd = w, wc_x = 0, wc_y = 0, wc_width = 0, wc_height = 0,
     wc_workspace = 1, wc_snap = 0\<rparr>"

definition snap_target :: "string \<Rightarrow> u32" where
  "snap_target s =
     (if s = ''left'' then 1 else if s = ''right'' then 2 else if s = ''top'' then 3 else if s = ''maximize'' then 4
      else if s = ''restore'' then 5 else if s = ''topLeft'' then 6 else if s = ''topRight'' then 7
      else if s = ''bottomLeft'' then 8 else if s = ''bottomRight'' then 9 else 0)"

definition window_request :: "string \<Rightarrow> json_object \<Rightarrow> hwnd \<Rightarrow> window_command option" where
  "window_request method p w =
     (let number = (\<lambda>k d. or_else (map_option to_int32 (int_arg p k)) d) in
      if method = ''window.focus'' then Some (window_command_of 1 w)
      else if method = ''window.minimize'' then Some (window_command_of 2 w)
      else if method = ''window.maximize'' then Some (window_command_of 3 w)
      else if method = ''window.restore'' then Some (window_command_of 4 w)
      else if method = ''window.close'' then Some (window_command_of 5 w)
      else if method = ''window.setBounds'' then Some ((window_command_of 8 w)\<lparr>wc_x := number ''x'' 0, wc_y := number ''y'' 0,
        wc_width := number ''width'' 800, wc_height := number ''height'' 600\<rparr>)
      else if method = ''window.snap'' then Some ((window_command_of 9 w)\<lparr>wc_snap := snap_target
        (case string_arg p ''target'' of Some t \<Rightarrow> t | None \<Rightarrow> or_else (string_arg p ''snap'') [])\<rparr>)
      else if method = ''window.moveToWorkspace'' then Some ((window_command_of 10 w)\<lparr>wc_workspace := number ''workspace'' 1\<rparr>)
      else if method = ''window.setFullscreen'' then
        Some ((window_command_of 11 w)\<lparr>wc_workspace := (if or_else (bool_arg p ''fullscreen'') True then 1 else 0)\<rparr>)
      else None)"

text \<open>\<open>ExecuteCommand\<close> and, after a command that was taken, \<open>Invalidate\<close>; a refusal is the error text.\<close>

definition send_command :: "'w services \<Rightarrow> window_command \<Rightarrow> ('c, 'w, string option) request_step" where
  "send_command sv c = do {
     r \<leftarrow> ask (sv_command sv c);
     case r of
       None \<Rightarrow> State_Monad.return (Some ''NativeShell activation endpoint unavailable'')
     | Some taken \<Rightarrow>
         if \<not> taken then State_Monad.return (Some ''NativeShell timed out or rejected window command'')
         else do {
           generation \<leftarrow> State (\<lambda>b. (bk_window_generation b + 1, b\<lparr>bk_window_generation := bk_window_generation b + 1\<rparr>));
           _ \<leftarrow> publish_events sv [(''window.snapshotChanged'', object_of [(''generation'', JInt (sint generation))])];
           State_Monad.return None } }"

definition handle_window_command :: "'w services \<Rightarrow> string \<Rightarrow> json_object \<Rightarrow> ('c, 'w, reply) request_step" where
  "handle_window_command sv method p =
     (case map_of p ''hwnd'' of
        None \<Rightarrow> invalid (''Missing '' @ quoted ''hwnd'' @ '' in payload'')
      | Some v \<Rightarrow>
          let w = hwnd_arg v in
          if w = 0 then invalid (''Invalid or zero '' @ quoted ''hwnd'')
          else (case window_request method p w of
              None \<Rightarrow> refuse ''window_action_failed'' ''Window command failed or window not found''
            | Some c \<Rightarrow> do {
                err \<leftarrow> send_command sv c;
                case err of
                  Some e \<Rightarrow> refuse ''window_action_failed'' (if e = [] then ''Window command failed or window not found'' else e)
                | None \<Rightarrow> accept [(''success'', JBool True)] }))"

end
