(* ===== verification/Broker_Services.thy ===== *)
theory Broker_Services
  imports Broker_Handlers
begin

text \<open>
  The rest of the branches of \<open>HandleRequest\<close>: display, audio, power, network, settings, clipboard, open-with,
  notifications, lifecycle, start-up registration and the shell replacement.
\<close>

section \<open>Display\<close>

definition handle_display_monitors :: "'w services \<Rightarrow> ('c, 'w, reply) request_step" where
  "handle_display_monitors sv = do { ms \<leftarrow> ask (sv_monitors sv); accept [(''monitors'', objects ms)] }"

definition device_arg :: "'w services \<Rightarrow> json_object \<Rightarrow> wide_string" where
  "device_arg sv p =
     (case string_arg p ''deviceName'' of
        Some s \<Rightarrow> widen sv s
      | None \<Rightarrow> Workspace_Studio.wide ([backslash, backslash] @ ''.'' @ [backslash] @ ''DISPLAY1''))"

definition handle_display_modes :: "'w services \<Rightarrow> json_object \<Rightarrow> ('c, 'w, reply) request_step" where
  "handle_display_modes sv p = do { ms \<leftarrow> ask (sv_modes sv (device_arg sv p)); accept [(''modes'', objects ms)] }"

definition number_arg :: "json_object \<Rightarrow> string \<Rightarrow> int" where
  "number_arg p k = or_else (map_option to_int32 (int_arg p k)) 0"

definition set_display_mode :: "'w services \<Rightarrow> json_object \<Rightarrow> ('c, 'w, string option) request_step" where
  "set_display_mode sv p = ask (sv_set_mode sv (device_arg sv p) (number_arg p ''width'') (number_arg p ''height'')
     (number_arg p ''frequency'') (number_arg p ''orientation''))"

definition succeed_unless :: "string \<Rightarrow> string option \<Rightarrow> ('c, 'w, reply) request_step" where
  "succeed_unless code err = (case err of Some e \<Rightarrow> refuse code e | None \<Rightarrow> accept [(''success'', JBool True)])"

definition handle_display_apply :: "'w services \<Rightarrow> json_object \<Rightarrow> ('c, 'w, reply) request_step" where
  "handle_display_apply sv p = do {
     err \<leftarrow> (case string_arg p ''modeId'' of
        Some mode \<Rightarrow> ask (sv_apply_mode sv (device_arg sv p) mode) | None \<Rightarrow> set_display_mode sv p);
     succeed_unless ''display_mode_failed'' err }"

definition handle_display_set :: "'w services \<Rightarrow> json_object \<Rightarrow> ('c, 'w, reply) request_step" where
  "handle_display_set sv p = do { err \<leftarrow> set_display_mode sv p; succeed_unless ''display_mode_failed'' err }"

definition handle_display_capabilities :: "('c, 'w, reply) request_step" where
  "handle_display_capabilities = accept [(''capabilities'', JObj display_capability)]"

definition handle_display_restore :: "'w services \<Rightarrow> ('c, 'w, reply) request_step" where
  "handle_display_restore sv = do { err \<leftarrow> ask (sv_restore_display sv); succeed_unless ''display_restore_failed'' err }"

section \<open>Audio, power, network, storage\<close>

definition handle_audio_state :: "'w services \<Rightarrow> ('c, 'w, reply) request_step" where
  "handle_audio_state sv = do { a \<leftarrow> ask (sv_audio sv); accept [(''audio'', JObj (aud_json a))] }"

definition half :: double where
  "half = DFin False (2 ^ 52) (- 53)"

definition handle_audio_volume :: "'w services \<Rightarrow> json_object \<Rightarrow> ('c, 'w, reply) request_step" where
  "handle_audio_volume sv p = do {
     let volume = or_else (double_arg p ''volume'') half;
     ok \<leftarrow> ask (sv_audio_volume sv volume);
     if ok then accept [(''success'', JBool True), (''volume'', JDouble volume)]
     else refuse ''audio_set_volume_failed'' ''Failed to set master volume via Core Audio'' }"

definition handle_audio_mute :: "'w services \<Rightarrow> json_object \<Rightarrow> ('c, 'w, reply) request_step" where
  "handle_audio_mute sv p = do {
     let mute = or_else (bool_arg p ''muted'') False;
     ok \<leftarrow> ask (sv_audio_mute sv mute);
     if ok then accept [(''success'', JBool True), (''muted'', JBool mute)]
     else refuse ''audio_set_mute_failed'' ''Failed to toggle mute via Core Audio'' }"

definition handle_power :: "'w services \<Rightarrow> ('c, 'w, reply) request_step" where
  "handle_power sv = do { x \<leftarrow> ask (sv_power sv); accept [(''power'', JObj x)] }"

definition handle_interfaces :: "'w services \<Rightarrow> ('c, 'w, reply) request_step" where
  "handle_interfaces sv = do { xs \<leftarrow> ask (sv_interfaces sv); accept [(''interfaces'', objects xs)] }"

definition handle_wifi :: "'w services \<Rightarrow> ('c, 'w, reply) request_step" where
  "handle_wifi sv = do { xs \<leftarrow> ask (sv_wifi sv); accept [(''networks'', objects xs)] }"

definition handle_bluetooth :: "'w services \<Rightarrow> ('c, 'w, reply) request_step" where
  "handle_bluetooth sv = do { bt \<leftarrow> ask (sv_bluetooth sv); accept [(''bluetooth'', JObj (bt_json bt))] }"

definition handle_storage :: "'w services \<Rightarrow> ('c, 'w, reply) request_step" where
  "handle_storage sv = do { xs \<leftarrow> ask (sv_storage sv); accept [(''drives'', objects xs)] }"

section \<open>Settings\<close>

definition handle_personalization :: "'w services \<Rightarrow> ('c, 'w, reply) request_step" where
  "handle_personalization sv = do { x \<leftarrow> ask (sv_personalization sv); accept [(''personalization'', JObj x)] }"

definition handle_set_personalization :: "'w services \<Rightarrow> json_object \<Rightarrow> ('c, 'w, reply) request_step" where
  "handle_set_personalization sv p =
     (case map_of p ''personalization'' of
        Some (JObj s) \<Rightarrow> do {
          r \<leftarrow> ask (sv_set_personalization sv s);
          case r of
            Inl err \<Rightarrow> refuse ''personalization_save_failed'' err
          | Inr written \<Rightarrow> accept [(''success'', JBool True), (''personalization'', JObj written)] }
      | _ \<Rightarrow> invalid (''Missing or invalid '' @ quoted ''personalization'' @ '' object''))"

definition handle_datetime :: "'w services \<Rightarrow> ('c, 'w, reply) request_step" where
  "handle_datetime sv = do { x \<leftarrow> ask (sv_datetime sv); accept [(''datetime'', JObj x)] }"

definition handle_set_time :: "('c, 'w, reply) request_step" where
  "handle_set_time = refuse ''elevation_required'' (''Changing system clock requires Windows administrative privileges. '' @
     ''System time can be configured via Windows Date & Time settings.'')"

text \<open>\<open>performance.getProfile\<close> and \<open>performance.getMetrics\<close> have the same body.\<close>

definition handle_performance_metrics :: "'w services \<Rightarrow> ('c, 'w, reply) request_step" where
  "handle_performance_metrics sv = do {
     m \<leftarrow> ask (sv_metrics sv);
     accept [(''profile'', JStr (pm_profile m)), (''metrics'', JObj (pm_json m)), (''total_ram_mb'', JInt (pm_total_ram m)),
       (''free_ram_mb'', JInt (pm_free_ram m)), (''cpu_cores'', JInt (pm_cores m)), (''memory_load_percent'', JInt (pm_load m)),
       (''is_low_end_hardware'', JBool (pm_low_end m)), (''on_battery'', JBool (pm_on_battery m)),
       (''battery_percent'', JInt (pm_battery m)), (''success'', JBool True)] }"

definition handle_set_profile :: "'w services \<Rightarrow> json_object \<Rightarrow> ('c, 'w, reply) request_step" where
  "handle_set_profile sv p =
     (case string_arg p ''profile'' of
        None \<Rightarrow> invalid (''Missing or invalid '' @ quoted ''profile'' @ '' parameter ('' @ quoted ''economy'' @ '', '' @ quoted ''balanced'' @
          '', '' @ quoted ''performance'' @ '')'')
      | Some profile \<Rightarrow> do {
          ok \<leftarrow> ask (sv_set_profile sv profile);
          if ok then accept [(''success'', JBool True), (''profile'', JStr profile)]
          else refuse ''invalid_profile'' (''Unknown performance profile: '' @ profile) })"

definition handle_wsl_distros :: "'w services \<Rightarrow> ('c, 'w, reply) request_step" where
  "handle_wsl_distros sv = do {
     details \<leftarrow> ask (sv_wsl_details sv);
     dflt \<leftarrow> ask (sv_wsl_default sv);
     available \<leftarrow> ask (sv_wsl_available sv);
     accept [(''distros'', objects details), (''defaultDistro'', JStr dflt), (''wslAvailable'', JBool available)] }"

definition handle_quick_settings :: "'w services \<Rightarrow> ('c, 'w, reply) request_step" where
  "handle_quick_settings sv = do {
     audio \<leftarrow> ask (sv_audio sv);
     power \<leftarrow> ask (sv_power sv);
     bt \<leftarrow> ask (sv_bluetooth sv);
     pers \<leftarrow> ask (sv_personalization sv);
     m \<leftarrow> ask (sv_metrics sv);
     accept [(''audio'', JObj (aud_json audio)), (''power'', JObj power), (''bluetooth'', JObj (bt_json bt)),
       (''personalization'', JObj pers), (''performanceProfile'', JStr (pm_profile m))] }"

section \<open>Clipboard and open-with\<close>

definition handle_clipboard_history :: "json_object \<Rightarrow> ('c, 'w, reply) request_step" where
  "handle_clipboard_history p = do {
     items \<leftarrow> gets (\<lambda>b. get_history (nat (or_else (map_option (max 1) (int_arg p ''limit'')) 20)) (bk_clip b));
     accept [(''items'', objects (map (clipboard_item_json False) items))] }"

definition handle_clipboard_text :: "'w services \<Rightarrow> ('c, 'w, reply) request_step" where
  "handle_clipboard_text sv = do { t \<leftarrow> ask (sv_clipboard_text sv); accept [(''text'', JStr t)] }"

definition handle_clipboard_set :: "'w services \<Rightarrow> json_object \<Rightarrow> ('c, 'w, reply) request_step" where
  "handle_clipboard_set sv p = do {
     err \<leftarrow> ask (sv_set_clipboard sv (or_else (string_arg p ''text'') []));
     succeed_unless ''clipboard_set_failed'' err }"

definition handle_clipboard_clear :: "'w services \<Rightarrow> ('c, 'w, reply) request_step" where
  "handle_clipboard_clear sv = do {
     opened \<leftarrow> ask (sv_clipboard_opens sv);
     (ok, err) \<leftarrow> on_clip sv (clear_clipboard opened);
     if ok then accept [(''success'', JBool True)] else refuse ''clipboard_clear_failed'' err }"

definition handle_open_with :: "'w services \<Rightarrow> json_object \<Rightarrow> ('c, 'w, reply) request_step" where
  "handle_open_with sv p =
     (let path = or_else (string_arg p ''path'') [] in
      if path = [] then invalid (''Missing or empty '' @ quoted ''path'')
      else do {
        err \<leftarrow> ask (sv_open_file sv path (or_else (string_arg p ''app_id'') []));
        succeed_unless ''open_with_failed'' err })"

definition handle_associations :: "'w services \<Rightarrow> ('c, 'w, reply) request_step" where
  "handle_associations sv = do { xs \<leftarrow> ask (sv_associations sv); accept [(''associations'', objects xs)] }"

definition handle_open_dialog :: "'w services \<Rightarrow> json_object \<Rightarrow> ('c, 'w, reply) request_step" where
  "handle_open_dialog sv p =
     (let path = or_else (string_arg p ''path'') [] in
      if path = [] then invalid (''Missing or empty '' @ quoted ''path'')
      else do { err \<leftarrow> ask (sv_open_dialog sv path); succeed_unless ''open_with_dialog_failed'' err })"

section \<open>Notifications\<close>

definition handle_notification_post :: "'w services \<Rightarrow> json_object \<Rightarrow> ('c, 'w, reply) request_step" where
  "handle_notification_post sv p = do {
     now \<leftarrow> look (sv_now_text sv);
     i \<leftarrow> on_notes sv (post now (or_else (string_arg p ''title'') []) (or_else (string_arg p ''message'') [])
       (or_else (string_arg p ''severity'') ''info'') (or_else (string_arg p ''app_id'') []));
     accept [(''id'', JInt (sint i)), (''success'', JBool True)] }"

definition handle_notification_list :: "('c, 'w, reply) request_step" where
  "handle_notification_list = do {
     items \<leftarrow> gets (\<lambda>b. notifications (bk_notes b));
     accept [(''notifications'', objects (map notification_json items)), (''unread_count'', JInt (int (count_unread items)))] }"

definition id_arg :: "json_object \<Rightarrow> u64" where
  "id_arg p = or_else (map_option word_of_int (int_arg p ''id'')) 0"

definition handle_notification_dismiss :: "'w services \<Rightarrow> json_object \<Rightarrow> ('c, 'w, reply) request_step" where
  "handle_notification_dismiss sv p = do { ok \<leftarrow> on_notes sv (dismiss (id_arg p)); accept [(''success'', JBool ok)] }"

definition handle_notification_clear :: "'w services \<Rightarrow> ('c, 'w, reply) request_step" where
  "handle_notification_clear sv = do {
     _ \<leftarrow> on_notes sv (\<lambda>s. ((), clear_notifications s));
     accept [(''success'', JBool True)] }"

definition handle_notification_read :: "'w services \<Rightarrow> json_object \<Rightarrow> ('c, 'w, reply) request_step" where
  "handle_notification_read sv p = do {
     ok \<leftarrow> on_notes sv (\<lambda>s. let (ok, s) = mark_read (id_arg p) s in (ok, [], s));
     accept [(''success'', JBool ok)] }"

definition handle_notification_read_all :: "'w services \<Rightarrow> ('c, 'w, reply) request_step" where
  "handle_notification_read_all sv = do {
     _ \<leftarrow> on_notes sv (\<lambda>s. ((), [], mark_all_read s));
     accept [(''success'', JBool True)] }"

end
