(* ===== verification/Broker_Shell.thy ===== *)
theory Broker_Shell
  imports Broker_Services
begin

text \<open>
  The branches of \<open>HandleRequest\<close> that report on and change the life of the session: recovery status, shutdown, the
  registration that starts the shell with Windows, and the replacement of the Windows shell.
\<close>

section \<open>Recovery and life cycle\<close>

definition handle_lock :: "'w services \<Rightarrow> ('c, 'w, reply) request_step" where
  "handle_lock sv = do { _ \<leftarrow> ask (sv_lock sv); accept [(''success'', JBool True)] }"

text \<open>A file of the local data that parses to an object; anything else reads as the empty one.\<close>

definition json_file :: "'w services \<Rightarrow> string \<Rightarrow> 'w \<Rightarrow> json_object" where
  "json_file sv name w =
     (case sv_local_data sv w of
        None \<Rightarrow> []
      | Some dir \<Rightarrow>
          case sv_read_file sv name w of
            None \<Rightarrow> []
          | Some content \<Rightarrow> (case parse_json content of Some (JObj kvs) \<Rightarrow> kvs | _ \<Rightarrow> []))"

definition handle_recovery_status :: "'w services \<Rightarrow> ('c, 'w, reply) request_step" where
  "handle_recovery_status sv = do {
     pid \<leftarrow> look (sv_pid sv);
     session \<leftarrow> look (sv_session sv);
     remote \<leftarrow> look (sv_remote sv);
     local \<leftarrow> look (sv_local_data sv);
     marker \<leftarrow> look (sv_file_exists sv ''session_v3.unclean'');
     obj \<leftarrow> look (json_file sv ''Recovery/supervisor-state-v22.json'');
     accept [(''schema'', JInt 22), (''broker_pid'', JInt (uint pid)), (''session_id'', JInt (uint session)),
       (''is_remote_session'', JBool remote),
       (''state'', JStr (or_else (string_arg obj ''state'') ''UNKNOWN'')), (''reason'', JStr (or_else (string_arg obj ''reason'') [])),
       (''transition_sequence'', JInt (or_else (int_arg obj ''transition_sequence'') 0)),
       (''supervisor_pid'', JInt (or_else (int_arg obj ''supervisor_pid'') 0)),
       (''shell_pid'', JInt (or_else (int_arg obj ''shell_pid'') 0)),
       (''failure_count'', JInt (or_else (int_arg obj ''failure_count'') 0)),
       (''job_kill_on_close_assigned'', JBool (or_else (bool_arg obj ''job_kill_on_close_assigned'') False)),
       (''previous_unclean'', JBool (local \<noteq> None \<and> marker)), (''success'', JBool True)] }"

definition ticks :: "'w services \<Rightarrow> 'w \<Rightarrow> string \<times> json" where
  "ticks sv w = (''timestamp_ms'', JInt (sint (sv_tick sv w)))"

definition handle_safe_mode :: "'w services \<Rightarrow> ('c, 'w, reply) request_step" where
  "handle_safe_mode sv = do {
     stamp \<leftarrow> look (ticks sv);
     _ \<leftarrow> publish_events sv [(''system.safeModeRequested'', object_of
       [stamp, (''reason'', JStr ''User or recovery controller initiated safe mode'')])];
     accept [(''success'', JBool True)] }"

definition handle_request_shutdown :: "'w services \<Rightarrow> ('c, 'w, reply) request_step" where
  "handle_request_shutdown sv = do {
     stamp \<leftarrow> look (ticks sv);
     _ \<leftarrow> publish_events sv [(''system.shuttingDown'', object_of [stamp])];
     accept [(''success'', JBool True)] }"

definition handle_capability_map :: "'w services \<Rightarrow> ('c, 'w, reply) request_step" where
  "handle_capability_map sv = do {
     caps \<leftarrow> ask (sv_capabilities sv);
     snap \<leftarrow> ask (sv_snapshot sv);
     m \<leftarrow> ask (sv_metrics sv);
     remote \<leftarrow> look (sv_remote sv);
     monitors \<leftarrow> ask (sv_monitors sv);
     bt \<leftarrow> ask (sv_bluetooth sv);
     wifi \<leftarrow> ask (sv_wifi sv);
     accept [(''capabilities'', texts caps), (''capability_map'', JObj (object_of
       [(''audio_control'', JBool (sy_volume snap)), (''brightness_control'', JBool (sy_brightness snap)),
        (''wsl_runtime'', JBool (sy_wsl snap)), (''economy_mode'', JBool (pm_profile m = ''economy'')), (''rdp_session'', JBool remote),
        (''multi_monitor'', JBool (1 < length monitors)), (''battery_present'', JBool (sy_battery snap)),
        (''bluetooth_available'', JBool (bt_available bt)), (''wifi_available'', JBool (wifi \<noteq> []))])), (''success'', JBool True)] }"

definition handle_close_cloudos :: "'w services \<Rightarrow> ('c, 'w, reply) request_step" where
  "handle_close_cloudos sv = do {
     stamp \<leftarrow> look (ticks sv);
     _ \<leftarrow> publish_events sv [(''system.shuttingDown'', object_of [stamp, (''reason'', JStr ''User requested graceful CloudOS exit'')])];
     _ \<leftarrow> ask (sv_close_all sv);
     accept [(''success'', JBool True)] }"

section \<open>Starting with Windows\<close>

definition handle_startup_status :: "'w services \<Rightarrow> ('c, 'w, reply) request_step" where
  "handle_startup_status sv = do {
     r \<leftarrow> gets bk_registry;
     obj \<leftarrow> look (json_file sv ''startup-status.json'');
     let command = (if rg_opens r Run_Key False
       then (case query_text Run_Key ''CloudOS'' r of Some (Reg_Sz t) \<Rightarrow> t | _ \<Rightarrow> []) else []);
     accept [(''enabled'', JBool (command \<noteq> [])), (''mechanism'', JStr ''HKCU Run Key (CloudOS)''),
       (''command'', JStr (narrow sv command)),
       (''last_startup'', JStr (or_else (string_arg obj ''last_startup'') ''N/A'')),
       (''last_result'', JStr (or_else (string_arg obj ''last_result'') ''N/A'')),
       (''per_user'', JBool True), (''requires_admin'', JBool False), (''success'', JBool True)] }"

definition in_quotes :: "wide_string \<Rightarrow> wide_string" where
  "in_quotes t = [0x22] @ t @ [0x22]"

definition beside :: "wide_string \<Rightarrow> string \<Rightarrow> wide_string" where
  "beside dir name = dir @ [0x5C] @ Workspace_Studio.wide name"

definition startup_command :: "wide_string \<Rightarrow> wide_string" where
  "startup_command dir = in_quotes (beside dir ''CloudOS.exe'') @ Workspace_Studio.wide '' --startup''"

definition enabled_arg :: "json_object \<Rightarrow> bool" where
  "enabled_arg p = (case map_of p ''enabled'' of
     Some (JBool b) \<Rightarrow> b | Some (JStr s) \<Rightarrow> s = ''true'' \<or> s = ''1'' | _ \<Rightarrow> False)"

definition handle_startup_set :: "'w services \<Rightarrow> json_object \<Rightarrow> ('c, 'w, reply) request_step" where
  "handle_startup_set sv p = do {
     r \<leftarrow> gets bk_registry;
     if \<not> rg_opens r Run_Key True then refuse ''reg_open_failed'' ''Failed to open HKCU Run key for writing''
     else do {
       dir \<leftarrow> look (sv_module_dir sv);
       ok \<leftarrow> on_registry (if enabled_arg p then set_value Run_Key ''CloudOS'' (startup_command dir) else delete_value Run_Key ''CloudOS'');
       if ok then accept [(''success'', JBool True), (''enabled'', JBool (enabled_arg p))]
       else refuse ''reg_modify_failed'' ''Failed to update CloudOS startup registration'' } }"

section \<open>The Windows shell\<close>

definition handle_shell_status :: "'w services \<Rightarrow> ('c, 'w, reply) request_step" where
  "handle_shell_status sv = do {
     r \<leftarrow> gets bk_registry;
     let policy = read_registry_str User_Policies ''Shell'' r;
     let user = read_registry_str User_Winlogon ''Shell'' r;
     let machine = read_registry_str Machine_Winlogon ''Shell'' r;
     let userinit = read_registry_str Machine_Winlogon ''Userinit'' r;
     bootstrap \<leftarrow> look (sv_process sv ''CloudOS.ShellBootstrap.exe'');
     supervisor \<leftarrow> look (sv_process sv ''CloudOS.Supervisor.exe'');
     pid \<leftarrow> look (sv_pid sv);
     flutter \<leftarrow> look (sv_process sv ''cloudos_flutter_shell.exe'');
     explorer \<leftarrow> look (sv_process sv ''explorer.exe'');
     local \<leftarrow> look (sv_local_data sv);
     backup \<leftarrow> look (sv_file_exists sv ''Recovery/shell-backup.json'');
     accept [(''status'', JStr (if policy \<noteq> [] \<or> user \<noteq> [] then ''CLOUDOS_ACTIVE'' else ''EXPLORER'')),
       (''effective_shell'', JStr (narrow sv (if policy \<noteq> [] then policy else if user \<noteq> [] then user else Workspace_Studio.wide ''explorer.exe''))),
       (''configured_shell'', JStr (narrow sv (if policy = [] then user else policy))),
       (''shell_mechanism'', JStr ''CustomShellPolicy''), (''mechanism_supported'', JBool True),
       (''windows_edition'', JStr ''Windows 11 Pro''), (''windows_build'', JInt 28020),
       (''shell_bootstrap_pid'', JInt (uint bootstrap)), (''supervisor_pid'', JInt (uint supervisor)), (''broker_pid'', JInt (uint pid)),
       (''flutter_pid'', JInt (uint flutter)), (''shell_health'', JStr ''HEALTHY''), (''fallback_count'', JInt 0), (''crash_budget'', JInt 3),
       (''userinit_intact'', JBool (contains_text (Workspace_Studio.wide ''userinit.exe'') userinit)),
       (''winlogon_intact'', JBool (map (sv_fold sv) machine = map (sv_fold sv) (Workspace_Studio.wide ''explorer.exe''))),
       (''backup_exists'', JBool (local \<noteq> None \<and> backup)), (''gate0_verified'', JBool False), (''explorer_running'', JBool (explorer \<noteq> 0))] }"

text \<open>The text of the backup; the registry's texts go between the quotes as they are.\<close>

definition backup_line :: "string \<Rightarrow> string \<Rightarrow> string" where
  "backup_line name content = '' '' @ '' '' @ [CHR 0x22] @ name @ [CHR 0x22] @ '': '' @ [CHR 0x22] @ content @ [CHR 0x22]"

definition backup_text :: "string \<Rightarrow> string \<Rightarrow> string \<Rightarrow> string \<Rightarrow> string" where
  "backup_text machine userinit policy user =
     (let nl = [CHR 0x0A] in
      ''{'' @ nl @ '' '' @ '' '' @ [CHR 0x22] @ ''backup_version'' @ [CHR 0x22] @ '': 1,'' @ nl
      @ backup_line ''windows_edition'' ''Windows 11 Pro'' @ '','' @ nl
      @ '' '' @ '' '' @ [CHR 0x22] @ ''windows_build'' @ [CHR 0x22] @ '': 28020,'' @ nl
      @ backup_line ''architecture'' ''x64'' @ '','' @ nl
      @ backup_line ''original_hklm_shell'' machine @ '','' @ nl
      @ backup_line ''original_userinit'' userinit @ '','' @ nl
      @ backup_line ''original_hkcu_policy_shell'' policy @ '','' @ nl
      @ backup_line ''original_hkcu_winlogon_shell'' user @ nl
      @ ''}'' @ nl)"

definition handle_shell_backup :: "'w services \<Rightarrow> ('c, 'w, reply) request_step" where
  "handle_shell_backup sv = do {
     local \<leftarrow> look (sv_local_data sv);
     r \<leftarrow> gets bk_registry;
     case local of
       None \<Rightarrow> refuse ''backup_failed'' ''Failed to write shell-backup.json''
     | Some dir \<Rightarrow> do {
         let text = (\<lambda>k name. narrow sv (read_registry_str k name r));
         ok \<leftarrow> ask (sv_write_file sv ''Recovery/shell-backup.json'' (backup_text (text Machine_Winlogon ''Shell'')
           (text Machine_Winlogon ''Userinit'') (text User_Policies ''Shell'') (text User_Winlogon ''Shell'')));
         if ok then accept [(''success'', JBool True), (''backup_path'', JStr (narrow sv
             (beside (beside (beside dir ''CloudOS'') ''Recovery'') ''shell-backup.json'')))]
         else refuse ''backup_failed'' ''Failed to write shell-backup.json'' } }"

text \<open>The value is deleted when its key opens; whether the deletion succeeded is not asked.\<close>

definition drop_shell :: "reg_key \<Rightarrow> registry \<Rightarrow> registry" where
  "drop_shell k r = (if rg_opens r k True then snd (delete_value k ''Shell'' r) else r)"

definition drop_shells :: "registry \<Rightarrow> unit \<times> registry" where
  "drop_shells r = ((), drop_shell User_Winlogon (drop_shell User_Policies r))"

definition handle_restore_explorer :: "'w services \<Rightarrow> ('c, 'w, reply) request_step" where
  "handle_restore_explorer sv = do {
     _ \<leftarrow> on_registry drop_shells;
     explorer \<leftarrow> look (sv_process sv ''explorer.exe'');
     _ \<leftarrow> (if explorer = 0 then ask (sv_start_explorer sv) else State_Monad.return ());
     accept [(''success'', JBool True), (''message'', JStr ''Windows Explorer shell restored'')] }"

definition shell_command :: "wide_string \<Rightarrow> wide_string" where
  "shell_command dir = in_quotes (beside dir ''CloudOS.ShellBootstrap.exe'')"

definition handle_shell_mode :: "'w services \<Rightarrow> json_object \<Rightarrow> ('c, 'w, reply) request_step" where
  "handle_shell_mode sv p =
     (let mode = or_else (string_arg p ''mode'') ''EXPLORER'' in
      if mode = ''EXPLORER'' then do {
        _ \<leftarrow> on_registry drop_shells;
        accept [(''success'', JBool True), (''mode'', JStr ''EXPLORER'')] }
      else if mode = ''CANARY'' then do {
        dir \<leftarrow> look (sv_module_dir sv);
        launched \<leftarrow> ask (sv_launch_process sv (shell_command dir @ Workspace_Studio.wide '' --canary''));
        if launched then accept [(''success'', JBool True), (''mode'', JStr ''CANARY''),
          (''message'', JStr ''Canary shell mode launched without altering registry'')]
        else refuse ''canary_launch_failed'' ''Failed to launch CloudOS.ShellBootstrap.exe in canary mode'' }
      else if mode = ''CLOUDOS_ACTIVE'' then
        (if \<not> or_else (bool_arg p ''gate0_override'') False
         then refuse ''gate0_locked'' ''Gate 0 Enforced: Live shell replacement activation requires user-verified login test confirmation.''
         else do {
           dir \<leftarrow> look (sv_module_dir sv);
           r \<leftarrow> gets bk_registry;
           if rg_creates r User_Policies then do {
             _ \<leftarrow> on_registry (\<lambda>r. set_value User_Policies ''Shell'' (shell_command dir) (create_key User_Policies r));
             accept [(''success'', JBool True), (''mode'', JStr ''CLOUDOS_ACTIVE''), (''configured_shell'', JStr (narrow sv (shell_command dir)))] }
           else refuse ''policy_key_create_failed'' (''Failed to open or create HKCU Policies'' @ [backslash] @ ''System key'') })
      else refuse ''invalid_mode'' (''Invalid shell mode requested: '' @ mode))"

end
