(* ===== verification/Broker_Dispatch.thy ===== *)
theory Broker_Dispatch
  imports Broker_Shell
begin

text \<open>
  \<open>HandleRequest\<close>: the method picks the branch, the branch's reply becomes the response. The chain of tests is cut into
  groups in the order of the code; \<open>None\<close> stands for a method no test accepts.
\<close>

section \<open>The chain of methods\<close>

definition dispatch_core :: "'w services \<Rightarrow> string \<Rightarrow> string \<Rightarrow> json_object \<Rightarrow> ('c, 'w, reply) request_step option" where
  "dispatch_core sv client_id m p =
     (if m = ''hello'' then Some (handle_hello sv client_id)
      else if m = ''health.ping'' then Some handle_ping
      else if m = ''health.status'' then Some handle_health
      else if m = ''system.capabilities'' then Some (handle_capabilities sv)
      else if m = ''apps.list'' then Some (handle_apps_list sv)
      else if m = ''apps.launch'' then Some (handle_apps_launch sv p)
      else if m = ''files.list'' then Some (handle_files_list sv p)
      else if m = ''files.listEntry'' then Some (handle_files_list_entry sv p)
      else if m = ''files.resolvePath'' then Some (handle_files_resolve sv p)
      else if m = ''files.openEntry'' then Some (handle_files_open sv p)
      else if m = ''files.createFolder'' then Some (handle_files_create_folder sv p)
      else if m = ''files.rename'' then Some (handle_files_rename sv p)
      else if m = ''files.delete'' then Some (handle_files_delete sv p)
      else if m = ''files.queryRecycleBin'' then Some (handle_query_recycle_bin sv)
      else if m = ''files.emptyRecycleBin'' then Some (handle_empty_recycle_bin sv)
      else if m = ''files.copy'' \<or> m = ''files.move'' then Some (handle_copy_or_move sv m p)
      else if m = ''files.listDrives'' then Some (handle_list_drives sv)
      else None)"

definition dispatch_system :: "'w services \<Rightarrow> string \<Rightarrow> string \<Rightarrow> json_object \<Rightarrow> ('c, 'w, reply) request_step option" where
  "dispatch_system sv client_id m p =
     (if m = ''system.snapshot'' then Some (handle_system_snapshot sv)
      else if m = ''system.volume.set'' then Some (handle_volume_set sv p)
      else if m = ''system.brightness.set'' then Some (handle_brightness_set sv p)
      else if m = ''wsl.list'' then Some (handle_wsl_list sv)
      else if m = ''path.translate'' then Some (handle_path_translate sv p)
      else if m = ''system.mounts.list'' then Some (handle_mounts sv)
      else if m = ''system.performance.get'' then Some (handle_performance_get sv)
      else if m = ''system.performance.set'' then Some (handle_performance_set sv p)
      else if m = ''events.subscribe'' then Some (handle_subscribe client_id p)
      else if m = ''events.unsubscribe'' then Some (handle_unsubscribe client_id p)
      else if m = ''jobs.status'' then Some (handle_job_status p)
      else if m = ''jobs.cancel'' then Some (handle_job_cancel sv p)
      else if m = ''diagnostics.snapshot'' then Some (handle_diagnostics sv)
      else if m = ''window.snapshot'' \<or> m = ''window.list'' then Some (handle_window_snapshot sv)
      else if m = ''window.focus'' \<or> m = ''window.minimize'' \<or> m = ''window.maximize'' \<or> m = ''window.restore'' \<or> m = ''window.close'' \<or>
        m = ''window.setBounds'' \<or> m = ''window.snap'' \<or> m = ''window.moveToWorkspace'' \<or> m = ''window.setFullscreen''
        then Some (handle_window_command sv m p)
      else if m = ''monitor.list'' then Some (handle_monitor_list sv)
      else None)"

definition dispatch_settings :: "'w services \<Rightarrow> string \<Rightarrow> json_object \<Rightarrow> ('c, 'w, reply) request_step option" where
  "dispatch_settings sv m p =
     (if m = ''display.listMonitors'' then Some (handle_display_monitors sv)
      else if m = ''display.listSupportedModes'' then Some (handle_display_modes sv p)
      else if m = ''display.applyMode'' then Some (handle_display_apply sv p)
      else if m = ''display.setMode'' then Some (handle_display_set sv p)
      else if m = ''display.capabilities'' then Some handle_display_capabilities
      else if m = ''display.restore'' then Some (handle_display_restore sv)
      else if m = ''audio.getState'' then Some (handle_audio_state sv)
      else if m = ''audio.setVolume'' then Some (handle_audio_volume sv p)
      else if m = ''audio.setMute'' then Some (handle_audio_mute sv p)
      else if m = ''power.getStatus'' then Some (handle_power sv)
      else if m = ''network.getInterfaces'' then Some (handle_interfaces sv)
      else if m = ''network.getWifi'' then Some (handle_wifi sv)
      else if m = ''bluetooth.getStatus'' then Some (handle_bluetooth sv)
      else if m = ''storage.getDrives'' then Some (handle_storage sv)
      else if m = ''personalization.get'' then Some (handle_personalization sv)
      else if m = ''personalization.set'' then Some (handle_set_personalization sv p)
      else if m = ''datetime.get'' then Some (handle_datetime sv)
      else if m = ''datetime.setTime'' then Some handle_set_time
      else if m = ''performance.getProfile'' \<or> m = ''performance.getMetrics'' then Some (handle_performance_metrics sv)
      else if m = ''performance.setProfile'' then Some (handle_set_profile sv p)
      else if m = ''wsl.getDistros'' then Some (handle_wsl_distros sv)
      else if m = ''quicksettings.getState'' then Some (handle_quick_settings sv)
      else None)"

definition dispatch_session :: "'w services \<Rightarrow> string \<Rightarrow> json_object \<Rightarrow> ('c, 'w, reply) request_step option" where
  "dispatch_session sv m p =
     (if m = ''clipboard.getHistory'' then Some (handle_clipboard_history p)
      else if m = ''clipboard.getText'' then Some (handle_clipboard_text sv)
      else if m = ''clipboard.setText'' then Some (handle_clipboard_set sv p)
      else if m = ''clipboard.clear'' then Some (handle_clipboard_clear sv)
      else if m = ''files.openWith'' then Some (handle_open_with sv p)
      else if m = ''files.getAssociations'' then Some (handle_associations sv)
      else if m = ''files.showOpenWithDialog'' then Some (handle_open_dialog sv p)
      else if m = ''notifications.post'' then Some (handle_notification_post sv p)
      else if m = ''notifications.list'' then Some handle_notification_list
      else if m = ''notifications.dismiss'' then Some (handle_notification_dismiss sv p)
      else if m = ''notifications.clear'' then Some (handle_notification_clear sv)
      else if m = ''notifications.markRead'' then Some (handle_notification_read sv p)
      else if m = ''notifications.markAllRead'' then Some (handle_notification_read_all sv)
      else if m = ''system.lock'' then Some (handle_lock sv)
      else if m = ''recovery.getStatus'' then Some (handle_recovery_status sv)
      else if m = ''recovery.enterSafeMode'' then Some (handle_safe_mode sv)
      else if m = ''system.requestShutdown'' then Some (handle_request_shutdown sv)
      else if m = ''system.getCapabilities'' then Some (handle_capability_map sv)
      else if m = ''startup.getStatus'' then Some (handle_startup_status sv)
      else if m = ''startup.setEnabled'' then Some (handle_startup_set sv p)
      else if m = ''system.closeCloudOS'' then Some (handle_close_cloudos sv)
      else if m = ''shell.getStatus'' then Some (handle_shell_status sv)
      else if m = ''shell.createBackup'' then Some (handle_shell_backup sv)
      else if m = ''shell.restoreExplorer'' then Some (handle_restore_explorer sv)
      else if m = ''shell.setShellMode'' then Some (handle_shell_mode sv p)
      else None)"

definition unsupported :: "string \<Rightarrow> ('c, 'w, reply) request_step" where
  "unsupported m = refuse ''unsupported_method'' (''Method '' @ quoted m @ '' is not supported by protocol '' @ int_dec kProtocolVersion)"

definition branch :: "'w services \<Rightarrow> string \<Rightarrow> string \<Rightarrow> json_object \<Rightarrow> ('c, 'w, reply) request_step" where
  "branch sv client_id m p =
     (case dispatch_core sv client_id m p of Some h \<Rightarrow> h
      | None \<Rightarrow> case dispatch_system sv client_id m p of Some h \<Rightarrow> h
      | None \<Rightarrow> case dispatch_settings sv m p of Some h \<Rightarrow> h
      | None \<Rightarrow> case dispatch_session sv m p of Some h \<Rightarrow> h
      | None \<Rightarrow> unsupported m)"

definition handle_request :: "'w services \<Rightarrow> string \<Rightarrow> broker_request \<Rightarrow> ('c, 'w) broker \<Rightarrow> broker_response \<times> ('c, 'w) broker" where
  "handle_request sv client_id req b =
     (let (r, b) = run_state (branch sv client_id (req_method req) (req_payload req)) b in (respond (req_id req) r, b))"

end
