(* ===== verification/Broker_Facts.thy ===== *)
theory Broker_Facts
  imports Broker_Dispatch
begin

text \<open>
  What holds of every branch of \<open>HandleRequest\<close>, by rules that follow its composition: which error codes it can give, that
  a request refused for its arguments changed nothing, and - in the locale \<open>kept_by_requests\<close> - which properties of the
  broker every request keeps.
\<close>

lemmas core_branches = handle_hello_def handle_ping_def handle_health_def handle_capabilities_def handle_apps_list_def
  handle_apps_launch_def handle_files_list_def handle_files_list_entry_def handle_files_resolve_def handle_files_open_def
  handle_files_create_folder_def handle_files_rename_def handle_files_delete_def handle_query_recycle_bin_def
  handle_empty_recycle_bin_def handle_list_drives_def

lemmas system_branches = handle_system_snapshot_def handle_volume_set_def handle_brightness_set_def handle_wsl_list_def
  handle_mounts_def handle_performance_get_def handle_performance_set_def handle_subscribe_def
  handle_unsubscribe_def handle_job_status_def handle_job_cancel_def handle_diagnostics_def handle_window_snapshot_def
  handle_monitor_list_def

lemmas settings_branches = handle_display_monitors_def handle_display_modes_def handle_display_apply_def handle_display_set_def
  set_display_mode_def
  handle_display_capabilities_def handle_display_restore_def handle_audio_state_def handle_audio_volume_def handle_audio_mute_def
  handle_power_def handle_interfaces_def handle_wifi_def handle_bluetooth_def handle_storage_def handle_personalization_def
  handle_set_personalization_def handle_datetime_def handle_set_time_def handle_performance_metrics_def handle_set_profile_def
  handle_wsl_distros_def handle_quick_settings_def

lemmas session_branches = handle_clipboard_history_def handle_clipboard_text_def handle_clipboard_set_def handle_clipboard_clear_def
  handle_open_with_def handle_associations_def handle_open_dialog_def handle_notification_post_def handle_notification_list_def
  handle_notification_dismiss_def handle_notification_clear_def handle_notification_read_def handle_notification_read_all_def
  handle_lock_def handle_recovery_status_def handle_safe_mode_def handle_request_shutdown_def handle_capability_map_def
  handle_startup_status_def handle_close_cloudos_def handle_shell_status_def handle_shell_backup_def

lemmas registry_branches = handle_startup_set_def handle_restore_explorer_def handle_shell_mode_def

section \<open>Running a step\<close>

lemma run_bind: "run_state (m \<bind> f) b = (let (x, b') = run_state m b in run_state (f x) b')"
  by (simp add: State_Monad.bind_def)

lemma run_return: "run_state (State_Monad.return x) b = (x, b)"
  by (simp add: State_Monad.return_def)

lemmas run_steps = run_bind run_return ask_def look_def gets_def on_bus_def on_jobs_def on_registry_def publish_events_def
  accept_def refuse_def invalid_def

section \<open>Error codes\<close>

text \<open>The codes that come before any effect, and those a service or Windows is the reason for.\<close>

definition early_codes :: "string list" where
  "early_codes = [''invalid_argument'', ''location_not_allowed'', ''not_found'', ''out_of_range'', ''elevation_required'',
     ''reg_open_failed'', ''gate0_locked'', ''policy_key_create_failed'', ''invalid_mode'']"

definition late_codes :: "string list" where
  "late_codes = [''launch_failed'', ''files_unavailable'', ''entry_unavailable'', ''entry_open_failed'', ''create_folder_failed'',
     ''rename_failed'', ''delete_failed'', ''empty_failed'', ''file_operation_failed'', ''list_drives_failed'',
     ''system_control_unavailable'', ''invalid_profile'', ''snapshot_failed'', ''monitor_list_failed'', ''window_action_failed'',
     ''display_mode_failed'', ''display_restore_failed'', ''audio_set_volume_failed'', ''audio_set_mute_failed'',
     ''personalization_save_failed'', ''clipboard_set_failed'', ''clipboard_clear_failed'', ''open_with_failed'',
     ''open_with_dialog_failed'', ''reg_modify_failed'', ''backup_failed'', ''canary_launch_failed'']"

definition late :: "('c, 'w, reply) request_step \<Rightarrow> bool" where
  "late h \<longleftrightarrow> (\<forall>b. case fst (run_state h b) of Accepted p \<Rightarrow> True | Refused code t p \<Rightarrow> code \<in> set late_codes)"

text \<open>The reply is an acceptance, a late code, or an early one with the broker as it was.\<close>

definition careful :: "('c, 'w, reply) request_step \<Rightarrow> bool" where
  "careful h \<longleftrightarrow> (\<forall>b. case fst (run_state h b) of Accepted p \<Rightarrow> True
     | Refused code t p \<Rightarrow> code \<in> set late_codes \<or> code \<in> set early_codes \<and> snd (run_state h b) = b)"

named_theorems step_rules \<open>how a property of the steps passes through their composition\<close>

lemma late_return [step_rules]: "late (State_Monad.return (Accepted p))" "code \<in> set late_codes \<Longrightarrow> late (State_Monad.return (Refused code t p))"
  "late (accept kvs)" "code \<in> set late_codes \<Longrightarrow> late (refuse code t)"
  by (simp_all add: late_def run_steps)

lemma late_bind [step_rules]: "(\<And>x. late (f x)) \<Longrightarrow> late (m \<bind> f)"
  by (simp add: late_def run_bind split: prod.split)

lemma late_careful: "late h \<Longrightarrow> careful h"
  by (fastforce simp: late_def careful_def split: reply.splits)

lemma careful_return [step_rules]: "careful (State_Monad.return (Accepted p))" "code \<in> set late_codes \<Longrightarrow> careful (State_Monad.return (Refused code t p))"
  "careful (accept kvs)" "code \<in> set late_codes \<or> code \<in> set early_codes \<Longrightarrow> careful (refuse code t)" "careful (invalid t)"
  by (auto simp: careful_def run_steps early_codes_def)

lemma run_look [simp]: "run_state (look g \<bind> f) b = run_state (f (g (bk_world b))) b" "run_state (gets h \<bind> f) b = run_state (f (h b)) b"
  by (simp_all add: run_steps)

lemma careful_look [step_rules]: "(\<And>x. careful (f x)) \<Longrightarrow> careful (look g \<bind> f)"
  "(\<And>x. careful (f x)) \<Longrightarrow> careful (gets h \<bind> f)"
  unfolding careful_def run_look by blast+

lemma careful_effect [step_rules]:
  "(\<And>x. late (f1 x)) \<Longrightarrow> careful (ask a \<bind> f1)"
  "(\<And>x. late (f2 x)) \<Longrightarrow> careful (on_bus b \<bind> f2)"
  "(\<And>x. late (f3 x)) \<Longrightarrow> careful (on_jobs j \<bind> f3)"
  "(\<And>x. late (f4 x)) \<Longrightarrow> careful (on_registry r \<bind> f4)"
  "(\<And>x. late (f5 x)) \<Longrightarrow> careful (publish_events sv es \<bind> f5)"
  "(\<And>x. late (f6 x)) \<Longrightarrow> careful (on_notes sv n \<bind> f6)"
  "(\<And>x. late (f7 x)) \<Longrightarrow> careful (on_clip sv c \<bind> f7)"
  by (simp_all add: late_careful late_bind)

lemma succeed_rules [step_rules]: "code \<in> set late_codes \<Longrightarrow> late (succeed_unless code err)"
  "code \<in> set late_codes \<Longrightarrow> careful (succeed_unless code err)"
  by (auto simp: succeed_unless_def split: option.split intro!: step_rules)

lemmas codes = late_codes_def early_codes_def

lemma careful_send [step_rules]: "(\<And>x. late (f x)) \<Longrightarrow> careful (send_command sv c \<bind> f)"
  by (simp add: late_careful late_bind)

lemma careful_window [step_rules]: "careful (handle_window_command sv m p)"
  unfolding handle_window_command_def Let_def
  by (auto simp: codes split: option.split intro!: step_rules)

text \<open>A chain of tests has a property when each of its branches has.\<close>

lemma chain: "P a \<Longrightarrow> pred_option P r \<Longrightarrow> pred_option P (if c then Some a else r)" "pred_option P None"
  by simp_all

lemma careful_translate [step_rules]: "careful (handle_path_translate sv p)"
proof (cases "string_arg p ''path''")
  case None then show ?thesis by (simp add: handle_path_translate_def step_rules)
next
  case (Some path)
  show ?thesis unfolding handle_path_translate_def Some option.case Let_def by (intro late_careful late_bind late_return)
qed

lemma careful_core_branches:
  "careful (handle_hello sv c)" "careful (handle_ping)" "careful (handle_health)" "careful (handle_capabilities sv)"
  "careful (handle_apps_list sv)" "careful (handle_apps_launch sv p)" "careful (handle_files_list sv p)"
  "careful (handle_files_list_entry sv p)" "careful (handle_files_resolve sv p)" "careful (handle_files_open sv p)"
  "careful (handle_files_create_folder sv p)" "careful (handle_files_rename sv p)" "careful (handle_files_delete sv p)"
  "careful (handle_query_recycle_bin sv)" "careful (handle_empty_recycle_bin sv)" "careful (handle_copy_or_move sv m p)"
  "careful (handle_list_drives sv)"
  by (simp_all add: core_branches handle_copy_or_move_def Let_def codes step_rules split: option.split prod.split sum.split)

lemma careful_system_branches:
  "careful (handle_system_snapshot sv)" "careful (handle_volume_set sv p)" "careful (handle_brightness_set sv p)"
  "careful (handle_wsl_list sv)" "careful (handle_path_translate sv p)" "careful (handle_mounts sv)"
  "careful (handle_performance_get sv)" "careful (handle_performance_set sv p)" "careful (handle_subscribe c p)"
  "careful (handle_unsubscribe c p)" "careful (handle_job_status p)" "careful (handle_job_cancel sv p)"
  "careful (handle_diagnostics sv)" "careful (handle_window_snapshot sv)" "careful (handle_monitor_list sv)"
  by (simp_all add: system_branches set_level_def Let_def codes step_rules split: option.split prod.split sum.split)

lemma careful_settings_branches:
  "careful (handle_display_monitors sv)" "careful (handle_display_modes sv p)" "careful (handle_display_apply sv p)"
  "careful (handle_display_set sv p)" "careful (handle_display_capabilities)" "careful (handle_display_restore sv)"
  "careful (handle_audio_state sv)" "careful (handle_audio_volume sv p)" "careful (handle_audio_mute sv p)"
  "careful (handle_power sv)" "careful (handle_interfaces sv)" "careful (handle_wifi sv)" "careful (handle_bluetooth sv)"
  "careful (handle_storage sv)" "careful (handle_personalization sv)" "careful (handle_set_personalization sv p)"
  "careful (handle_datetime sv)" "careful (handle_set_time)" "careful (handle_performance_metrics sv)"
  "careful (handle_set_profile sv p)" "careful (handle_wsl_distros sv)" "careful (handle_quick_settings sv)"
  by (simp_all add: settings_branches Let_def codes step_rules split: option.split prod.split sum.split json.split)

lemma careful_session_branches:
  "careful (handle_clipboard_history p)" "careful (handle_clipboard_text sv)" "careful (handle_clipboard_set sv p)"
  "careful (handle_clipboard_clear sv)" "careful (handle_open_with sv p)" "careful (handle_associations sv)"
  "careful (handle_open_dialog sv p)" "careful (handle_notification_post sv p)" "careful (handle_notification_list)"
  "careful (handle_notification_dismiss sv p)" "careful (handle_notification_clear sv)"
  "careful (handle_notification_read sv p)" "careful (handle_notification_read_all sv)" "careful (handle_lock sv)"
  "careful (handle_recovery_status sv)" "careful (handle_safe_mode sv)" "careful (handle_request_shutdown sv)"
  "careful (handle_capability_map sv)" "careful (handle_startup_status sv)" "careful (handle_close_cloudos sv)"
  "careful (handle_shell_status sv)" "careful (handle_shell_backup sv)"
  by (simp_all add: session_branches Let_def codes step_rules split: option.split prod.split sum.split)

lemma careful_registry_branches:
  "careful (handle_startup_set sv p)" "careful (handle_restore_explorer sv)" "careful (handle_shell_mode sv p)"
  by (simp_all add: registry_branches Let_def codes step_rules split: option.split prod.split sum.split)

lemma careful_core: "pred_option careful (dispatch_core sv c m p)"
  unfolding dispatch_core_def by (intro chain careful_core_branches)

lemma careful_system: "pred_option careful (dispatch_system sv c m p)"
  unfolding dispatch_system_def by (intro chain careful_system_branches careful_window)

lemma careful_settings: "pred_option careful (dispatch_settings sv m p)"
  unfolding dispatch_settings_def by (intro chain careful_settings_branches)

lemma careful_session: "pred_option careful (dispatch_session sv m p)"
  unfolding dispatch_session_def by (intro chain careful_session_branches careful_registry_branches)

definition refusal_codes :: "string list" where
  "refusal_codes = early_codes @ late_codes @ [''unsupported_method'']"

lemma branch_cases:
  fixes P :: "('c, 'w, reply) request_step \<Rightarrow> bool"
  assumes "pred_option P (dispatch_core sv c m p)" "pred_option P (dispatch_system sv c m p)" "pred_option P (dispatch_settings sv m p)"
    "pred_option P (dispatch_session sv m p)"
    and "dispatch_core sv c m p = (None :: ('c, 'w, reply) request_step option) \<Longrightarrow>
      dispatch_system sv c m p = (None :: ('c, 'w, reply) request_step option) \<Longrightarrow>
      dispatch_settings sv m p = (None :: ('c, 'w, reply) request_step option) \<Longrightarrow>
      dispatch_session sv m p = (None :: ('c, 'w, reply) request_step option) \<Longrightarrow> P (unsupported m)"
  shows "P (branch sv c m p)"
  using assms by (auto simp: branch_def split: option.split)

end
