(* ===== verification/Broker_Kept.thy ===== *)
theory Broker_Kept
  imports Broker_Facts Job_Invariants "HOL-Library.Sublist"
begin

text \<open>
  What every request keeps. A relation between the broker before and after that is reflexive and transitive and holds for the
  single effects the branches have, holds for every request and every sequence of requests: the locale \<open>kept_by_requests\<close>,
  with the effects as its assumptions. It is interpreted for the registry, which only three methods change, and for the
  invariants of the components, which no method breaks.
\<close>

definition kept :: "(('c, 'w) broker \<Rightarrow> ('c, 'w) broker \<Rightarrow> bool) \<Rightarrow> ('c, 'w, 'a) request_step \<Rightarrow> bool" where
  "kept R h \<longleftrightarrow> (\<forall>b. R b (snd (run_state h b)))"

lemma chain_when: "(c \<Longrightarrow> P a) \<Longrightarrow> pred_option P r \<Longrightarrow> pred_option P (if c then Some a else r)"
  by simp

text \<open>A sequence of requests, each with its client.\<close>

definition serve :: "'w services \<Rightarrow> (string \<times> broker_request) list \<Rightarrow> ('c, 'w) broker \<Rightarrow> ('c, 'w) broker" where
  "serve sv reqs = fold (\<lambda>(c, req) b. snd (handle_request sv c req b)) reqs"

locale kept_by_requests =
  fixes sv :: "'w services" and R :: "('c, 'w) broker \<Rightarrow> ('c, 'w) broker \<Rightarrow> bool"
  assumes refl: "R b b" and trans: "R b1 b2 \<Longrightarrow> R b2 b3 \<Longrightarrow> R b1 b3"
    and world: "R b (b\<lparr>bk_world := w\<rparr>)" and sent: "R b (b\<lparr>bk_sent := bk_sent b @ es\<rparr>)"
    and generation: "R b (b\<lparr>bk_window_generation := g\<rparr>)"
    and subscribed: "R b (b\<lparr>bk_bus := snd (subscribe c q (bk_bus b))\<rparr>)"
    and unsubscribed: "R b (b\<lparr>bk_bus := snd (unsubscribe c q (bk_bus b))\<rparr>)"
    and cancelled: "R b (b\<lparr>bk_jobs := snd (cancel_job now i (bk_jobs b))\<rparr>)"
    and submitted: "R b (b\<lparr>bk_jobs := snd (fst (sv_copy_or_move sv kind sources target strategy (bk_jobs b) w))\<rparr>)"
    and posted: "R b (b\<lparr>bk_notes := snd (snd (post t x m sev app (bk_notes b)))\<rparr>)"
    and dismissed: "R b (b\<lparr>bk_notes := snd (snd (dismiss n (bk_notes b)))\<rparr>)"
    and cleared: "R b (b\<lparr>bk_notes := snd (clear_notifications (bk_notes b))\<rparr>)"
    and marked: "R b (b\<lparr>bk_notes := snd (mark_read n (bk_notes b))\<rparr>)"
    and marked_all: "R b (b\<lparr>bk_notes := mark_all_read (bk_notes b)\<rparr>)"
    and clip_cleared: "R b (b\<lparr>bk_clip := snd (snd (clear_clipboard opened (bk_clip b)))\<rparr>)"
begin

lemma kept_bind: "kept R m \<Longrightarrow> (\<And>x. kept R (f x)) \<Longrightarrow> kept R (m \<bind> f)"
  by (simp add: kept_def run_bind split: prod.split) (metis trans snd_conv)

lemma kept_return: "kept R (State_Monad.return x)" "kept R (accept kvs)" "kept R (refuse code t)" "kept R (invalid t)"
    "kept R (succeed_unless code err)"
  by (simp_all add: kept_def run_steps refl succeed_unless_def split: option.split)

lemma kept_steps: "kept R (ask a)" "kept R (look g)" "kept R (gets h)" "kept R (publish_events sv es)"
  by (simp_all add: kept_def run_steps refl world sent split: prod.split)

lemma kept_bus: "kept R (on_bus (subscribe c q))" "kept R (on_bus (unsubscribe c q))"
  using subscribed unsubscribed by (simp_all add: kept_def on_bus_def split: prod.split) (metis snd_conv)+

lemma kept_cancel: "kept R (on_jobs (cancel_job now i))"
  using cancelled by (simp add: kept_def on_jobs_def split: prod.split) (metis snd_conv)

lemma kept_notes:
  assumes "\<And>b. R b (b\<lparr>bk_notes := snd (snd (f (bk_notes b)))\<rparr>)"
  shows "kept R (on_notes sv f)"
proof -
  have "kept R (State (\<lambda>b. let (x, events, s) = f (bk_notes b) in ((x, events), b\<lparr>bk_notes := s\<rparr>)))"
    using assms by (simp add: kept_def split: prod.split) (metis snd_conv)
  then show ?thesis unfolding on_notes_def by (auto intro!: kept_bind kept_return kept_steps split: prod.split)
qed

lemma kept_clip: "kept R (on_clip sv (clear_clipboard opened))"
proof -
  have "kept R (State (\<lambda>b. let (x, events, s) = clear_clipboard opened (bk_clip b) in ((x, events), b\<lparr>bk_clip := s\<rparr>)))"
    using clip_cleared by (simp add: kept_def split: prod.split) (metis snd_conv)
  then show ?thesis unfolding on_clip_def by (auto intro!: kept_bind kept_return kept_steps split: prod.split)
qed

lemma kept_all_notes: "kept R (on_notes sv (post t x m sev app))" "kept R (on_notes sv (dismiss n))"
    "kept R (on_notes sv (\<lambda>s. ((), clear_notifications s)))"
    "kept R (on_notes sv (\<lambda>s. case mark_read n s of (ok, s) \<Rightarrow> (ok, [], s)))" "kept R (on_notes sv (\<lambda>s. ((), [], mark_all_read s)))"
  using posted dismissed cleared marked marked_all by (auto intro!: kept_notes simp: split_beta Let_def)

lemmas kept_rules = kept_bind kept_return kept_steps kept_bus kept_cancel kept_all_notes kept_clip

lemma kept_send: "kept R (send_command sv c)"
proof -
  have "kept R (State (\<lambda>b. (bk_window_generation b + 1, b\<lparr>bk_window_generation := bk_window_generation b + 1\<rparr>)))"
    by (simp add: kept_def generation)
  then show ?thesis unfolding send_command_def by (auto intro!: kept_rules split: option.split)
qed

lemma kept_copy: "kept R (handle_copy_or_move sv m p)"
proof -
  have "kept R (do { m \<leftarrow> gets bk_jobs; (r, m') \<leftarrow> ask (sv_copy_or_move sv kind sources target strategy m);
      _ \<leftarrow> on_jobs (\<lambda>_. ((), m')); f r })" if "\<And>r. kept R (f r)" for f kind sources target strategy
  proof -
    let ?a = "\<lambda>b. sv_copy_or_move sv kind sources target strategy (bk_jobs b) (bk_world b)"
    have "R b (b\<lparr>bk_world := snd (?a b), bk_jobs := snd (fst (?a b))\<rparr>)" for b
    proof -
      have "b\<lparr>bk_world := snd (?a b), bk_jobs := snd (fst (?a b))\<rparr> = b\<lparr>bk_jobs := snd (fst (?a b)), bk_world := snd (?a b)\<rparr>" by simp
      then show ?thesis using trans [OF submitted world] by metis
    qed
    then have "R b (snd (run_state (f r) (b\<lparr>bk_world := snd (?a b), bk_jobs := snd (fst (?a b))\<rparr>)))" for b r
      using that trans unfolding kept_def by blast
    then show ?thesis by (simp add: kept_def run_steps split_beta)
  qed
  note step = this
  show ?thesis
    unfolding handle_copy_or_move_def Let_def
    by (auto intro!: kept_return step split: option.split sum.split)
qed

lemma kept_window: "kept R (handle_window_command sv m p)"
  by (simp add: handle_window_command_def Let_def kept_rules kept_send split: option.split)

lemma kept_translate: "kept R (handle_path_translate sv p)"
  by (simp add: handle_path_translate_def Let_def kept_rules split: option.split)

lemma kept_core_branches:
  "kept R (handle_hello sv c)" "kept R (handle_ping)" "kept R (handle_health)" "kept R (handle_capabilities sv)"
  "kept R (handle_apps_list sv)" "kept R (handle_apps_launch sv p)" "kept R (handle_files_list sv p)"
  "kept R (handle_files_list_entry sv p)" "kept R (handle_files_resolve sv p)" "kept R (handle_files_open sv p)"
  "kept R (handle_files_create_folder sv p)" "kept R (handle_files_rename sv p)" "kept R (handle_files_delete sv p)"
  "kept R (handle_query_recycle_bin sv)" "kept R (handle_empty_recycle_bin sv)" 
  "kept R (handle_list_drives sv)"
  by (simp_all add: core_branches Let_def kept_rules split: option.split prod.split sum.split)

lemma kept_system_branches:
  "kept R (handle_system_snapshot sv)" "kept R (handle_volume_set sv p)" "kept R (handle_brightness_set sv p)"
  "kept R (handle_wsl_list sv)"  "kept R (handle_mounts sv)"
  "kept R (handle_performance_get sv)" "kept R (handle_performance_set sv p)" "kept R (handle_subscribe c p)"
  "kept R (handle_unsubscribe c p)" "kept R (handle_job_status p)" "kept R (handle_job_cancel sv p)"
  "kept R (handle_diagnostics sv)" "kept R (handle_window_snapshot sv)" "kept R (handle_monitor_list sv)"
  by (simp_all add: system_branches set_level_def Let_def kept_rules split: option.split prod.split sum.split)

lemma kept_settings_branches:
  "kept R (handle_display_monitors sv)" "kept R (handle_display_modes sv p)" "kept R (handle_display_apply sv p)"
  "kept R (handle_display_set sv p)" "kept R (handle_display_capabilities)" "kept R (handle_display_restore sv)"
  "kept R (handle_audio_state sv)" "kept R (handle_audio_volume sv p)" "kept R (handle_audio_mute sv p)"
  "kept R (handle_power sv)" "kept R (handle_interfaces sv)" "kept R (handle_wifi sv)" "kept R (handle_bluetooth sv)"
  "kept R (handle_storage sv)" "kept R (handle_personalization sv)" "kept R (handle_set_personalization sv p)"
  "kept R (handle_datetime sv)" "kept R (handle_set_time)" "kept R (handle_performance_metrics sv)"
  "kept R (handle_set_profile sv p)" "kept R (handle_wsl_distros sv)" "kept R (handle_quick_settings sv)"
  by (simp_all add: settings_branches Let_def kept_rules split: option.split prod.split sum.split json.split)

lemma kept_session_branches:
  "kept R (handle_clipboard_history p)" "kept R (handle_clipboard_text sv)" "kept R (handle_clipboard_set sv p)"
  "kept R (handle_clipboard_clear sv)" "kept R (handle_open_with sv p)" "kept R (handle_associations sv)"
  "kept R (handle_open_dialog sv p)" "kept R (handle_notification_post sv p)" "kept R (handle_notification_list)"
  "kept R (handle_notification_dismiss sv p)" "kept R (handle_notification_clear sv)"
  "kept R (handle_notification_read sv p)" "kept R (handle_notification_read_all sv)" "kept R (handle_lock sv)"
  "kept R (handle_recovery_status sv)" "kept R (handle_safe_mode sv)" "kept R (handle_request_shutdown sv)"
  "kept R (handle_capability_map sv)" "kept R (handle_startup_status sv)" "kept R (handle_close_cloudos sv)"
  "kept R (handle_shell_status sv)" "kept R (handle_shell_backup sv)"
  by (simp_all add: session_branches Let_def kept_rules split: option.split prod.split sum.split)

lemmas kept_branches = kept_core_branches kept_copy kept_system_branches kept_translate kept_window kept_settings_branches kept_session_branches

text \<open>The methods that write the registry are left to the assumption.\<close>

lemma kept_branch:
  assumes "m = ''startup.setEnabled'' \<Longrightarrow> kept R (handle_startup_set sv p)"
    and "m = ''shell.restoreExplorer'' \<Longrightarrow> kept R (handle_restore_explorer sv)"
    and "m = ''shell.setShellMode'' \<Longrightarrow> kept R (handle_shell_mode sv p)"
  shows "kept R (branch sv c m p)"
proof (rule branch_cases)
  show "pred_option (kept R) (dispatch_core sv c m p)" unfolding dispatch_core_def by (intro chain kept_branches)
  show "pred_option (kept R) (dispatch_system sv c m p)" unfolding dispatch_system_def by (intro chain kept_branches)
  show "pred_option (kept R) (dispatch_settings sv m p)" unfolding dispatch_settings_def by (intro chain kept_branches)
  show "pred_option (kept R) (dispatch_session sv m p)"
    unfolding dispatch_session_def by (intro chain_when chain(2) kept_branches assms)
  show "kept R (unsupported m)" by (simp add: unsupported_def kept_return)
qed

end

locale kept_by_all_requests = kept_by_requests sv R
  for sv :: "'w services" and R :: "('c, 'w) broker \<Rightarrow> ('c, 'w) broker \<Rightarrow> bool" +
  assumes started: "R b (b\<lparr>bk_registry := snd (set_value Run_Key ''CloudOS'' (startup_command dir) (bk_registry b))\<rparr>)"
    and unstarted: "R b (b\<lparr>bk_registry := snd (delete_value Run_Key ''CloudOS'' (bk_registry b))\<rparr>)"
    and shells_dropped: "R b (b\<lparr>bk_registry := snd (drop_shells (bk_registry b))\<rparr>)"
    and shell_set: "R b (b\<lparr>bk_registry := snd (set_value User_Policies ''Shell'' (shell_command dir) (create_key User_Policies (bk_registry b)))\<rparr>)"
begin

lemma kept_registry:
  assumes "\<And>b. R b (b\<lparr>bk_registry := snd (f (bk_registry b))\<rparr>)"
  shows "kept R (on_registry f)"
  using assms by (simp add: kept_def on_registry_def split: prod.split) (metis snd_conv)

lemmas kept_registry_rules = kept_registry [OF started] kept_registry [OF unstarted] kept_registry [OF shells_dropped]
  kept_registry [OF shell_set]

lemma kept_registry_branches: "kept R (handle_startup_set sv p)" "kept R (handle_restore_explorer sv)" "kept R (handle_shell_mode sv p)"
  by (simp_all add: registry_branches Let_def kept_rules kept_registry_rules split: option.split)

lemma request_kept: "R b (snd (handle_request sv c req b))"
proof -
  have "kept R (branch sv c (req_method req) (req_payload req))" by (intro kept_branch kept_registry_branches)
  then show ?thesis by (simp add: handle_request_def kept_def split_beta)
qed

lemma requests_kept: "R b (serve sv reqs b)"
  by (induction reqs arbitrary: b) (auto simp: serve_def refl split_beta intro: trans request_kept)

end

section \<open>The registry\<close>

interpretation registry: kept_by_requests sv "\<lambda>b b'. bk_registry b' = bk_registry b" for sv
  by unfold_locales simp_all

section \<open>The invariants of the components\<close>

text \<open>
  Clients and subscriptions agree, the job table is well formed, the history is bounded and without repeats, and no more
  notifications are kept than the limit. The file service submits jobs; that its work on the job manager keeps the
  manager well formed is what \<open>submits_well\<close> asks of it.
\<close>

definition parts_ok :: "('c, 'w) broker \<Rightarrow> bool" where
  "parts_ok b \<longleftrightarrow> bus_ok (bk_bus b) \<and> mgr_ok (bk_jobs b) \<and> clipboard_ok (bk_clip b) \<and>
     length (notifications (bk_notes b)) \<le> kMaxNotifications"

definition submits_well :: "'w services \<Rightarrow> bool" where
  "submits_well sv \<longleftrightarrow> (\<forall>kind sources target strategy m w. mgr_ok m \<longrightarrow> mgr_ok (snd (fst (sv_copy_or_move sv kind sources target strategy m w))))"

lemma bus_steps_ok: "bus_ok bus \<Longrightarrow> bus_ok (snd (subscribe c q bus))" "bus_ok bus \<Longrightarrow> bus_ok (snd (unsubscribe c q bus))"
  using bus_exec_ok [of bus "Subscribe c q"] bus_exec_ok [of bus "Unsubscribe c q"] by simp_all

lemma count_dismiss: "length (notifications (snd (snd (dismiss n s)))) \<le> length (notifications s)"
  by (auto simp: dismiss_def split: option.split dest: erase_first_Some)

lemma count_mark: "length (notifications (snd (mark_read n s))) = length (notifications s)"
  by (auto simp: mark_read_def split: option.split dest: mark_first_ids [THEN map_eq_imp_length_eq])

lemma count_steps:
  "length (notifications s) \<le> kMaxNotifications \<Longrightarrow> length (notifications (snd (snd (post t x m sev app s)))) \<le> kMaxNotifications"
  "length (notifications s) \<le> k \<Longrightarrow> length (notifications (snd (snd (dismiss n s)))) \<le> k"
  "length (notifications s) \<le> k \<Longrightarrow> length (notifications (snd (mark_read n s))) \<le> k"
  "length (notifications s) \<le> k \<Longrightarrow> length (notifications (mark_all_read s)) \<le> k"
  "notifications (snd (clear_notifications s)) = []"
  using count_dismiss [of n s]
  by (simp_all add: post_def Let_def push_front_capped_take count_mark mark_all_read_def clear_notifications_def)

interpretation parts: kept_by_all_requests sv "\<lambda>b b'. submits_well sv \<and> parts_ok b \<longrightarrow> parts_ok b'" for sv
  by unfold_locales
    (auto simp: parts_ok_def submits_well_def mgr_ok_cancel clear_clipboard_ok bus_steps_ok count_steps)

section \<open>What was sent\<close>

interpretation sent: kept_by_all_requests sv "\<lambda>b b'. prefix (bk_sent b) (bk_sent b')" for sv
  by unfold_locales auto

end
