(* ===== verification/Broker_Props.thy ===== *)
theory Broker_Props
  imports Broker_Kept Window_Effects
begin

text \<open>
  The properties of the broker's requests: the form of the replies and the methods that are served, what a refusal and what any
  request leaves alone, the writes to the registry, and what a client sees that reads back what it or another has
  written.
\<close>

section \<open>A broker to try the requests on\<close>

text \<open>Services of a machine without devices and files; the file service submits a job.\<close>

definition quiet_services :: "'w services" where
  "quiet_services = \<lparr>
     sv_utf8 = map (\<lambda>c. char_of (unat c)), sv_wide = Workspace_Studio.wide, sv_fold = (\<lambda>c. c), sv_tick = (\<lambda>_. 0), sv_now = (\<lambda>_. 0),
     sv_now_text = (\<lambda>_. []), sv_now_ms = (\<lambda>_. 0), sv_visit = (\<lambda>_. []), sv_session = (\<lambda>_. 1), sv_pid = (\<lambda>_. 42),
     sv_remote = (\<lambda>_. False), sv_process = (\<lambda>_ _. 0), sv_module_dir = (\<lambda>_. Workspace_Studio.wide ''C:''),
     sv_local_data = (\<lambda>_. None), sv_read_file = (\<lambda>_ _. None), sv_file_exists = (\<lambda>_ _. False), sv_write_file = (\<lambda>_ _ w. (False, w)),
     sv_launch_process = (\<lambda>_ w. (False, w)), sv_start_explorer = (\<lambda>w. ((), w)), sv_close_all = (\<lambda>w. ((), w)),
     sv_lock = (\<lambda>w. ((), w)), sv_capabilities = (\<lambda>w. ([], w)),
     sv_snapshot = (\<lambda>w. (\<lparr>sy_volume = False, sy_brightness = False, sy_wsl = False, sy_battery = False, sy_json = []\<rparr>, w)),
     sv_set_volume = (\<lambda>_ w. (False, w)), sv_set_brightness = (\<lambda>_ w. (False, w)),
     sv_audio = (\<lambda>w. (\<lparr>aud_available = False, aud_muted = False, aud_json = []\<rparr>, w)), sv_audio_volume = (\<lambda>_ w. (False, w)),
     sv_audio_mute = (\<lambda>_ w. (False, w)), sv_power = (\<lambda>w. ([], w)),
     sv_bluetooth = (\<lambda>w. (\<lparr>bt_available = False, bt_enabled = False, bt_json = []\<rparr>, w)),
     sv_interfaces = (\<lambda>w. ([], w)), sv_wifi = (\<lambda>w. ([], w)), sv_storage = (\<lambda>w. ([], w)), sv_personalization = (\<lambda>w. ([], w)),
     sv_set_personalization = (\<lambda>_ w. (Inl [], w)), sv_datetime = (\<lambda>w. ([], w)), sv_wsl_available = (\<lambda>w. (False, w)),
     sv_wsl_default = (\<lambda>w. ([], w)), sv_wsl_distros = (\<lambda>w. ([], w)), sv_wsl_details = (\<lambda>w. ([], w)),
     sv_wsl_generation = (\<lambda>w. (0, w)), sv_apps = (\<lambda>w. ([], w)), sv_apps_generation = (\<lambda>w. (0, w)),
     sv_launch_app = (\<lambda>_ w. (([], None), w)), sv_allowed_location = (\<lambda>s. s = ''home''), sv_list_location = (\<lambda>_ w. (Inr [], w)),
     sv_list_entry = (\<lambda>_ w. (Inr [], w)), sv_attributes = (\<lambda>_ _. None), sv_issue = (\<lambda>_ _ w. ([], w)),
     sv_open_entry = (\<lambda>_ w. (None, w)), sv_create_folder = (\<lambda>_ _ w. (Inl [], w)), sv_rename = (\<lambda>_ _ w. (Inl [], w)),
     sv_delete = (\<lambda>_ _ w. (Inl [], w)), sv_recycle = (\<lambda>_. None), sv_empty_recycle = (\<lambda>w. (True, w)),
     sv_copy_or_move = (\<lambda>kind _ _ _ m w. (let (i, m) = submit_job [] 0 kind True m in ((Inr i, m), w))),
     sv_drives = (\<lambda>w. (Inr [], w)), sv_mounts = (\<lambda>w. ([], w)), sv_path_exists = (\<lambda>_ _ w. (False, w)),
     sv_metrics = (\<lambda>w. (\<lparr>pm_profile = ''balanced'', pm_total_ram = 0, pm_free_ram = 0, pm_cores = 1, pm_load = 0, pm_low_end = False,
       pm_on_battery = False, pm_battery = 0, pm_json = []\<rparr>, w)),
     sv_set_profile = (\<lambda>_ w. (False, w)), sv_diagnostics = (\<lambda>w. ([], w)), sv_window_snapshot = (\<lambda>w. (Inl [], w)),
     sv_command = (\<lambda>_ w. (None, w)), sv_monitors = (\<lambda>w. ([], w)), sv_modes = (\<lambda>_ w. ([], w)), sv_apply_mode = (\<lambda>_ _ w. (None, w)),
     sv_set_mode = (\<lambda>_ _ _ _ _ w. (None, w)), sv_restore_display = (\<lambda>w. (None, w)), sv_clipboard_text = (\<lambda>w. ([], w)),
     sv_set_clipboard = (\<lambda>_ w. (None, w)), sv_clipboard_opens = (\<lambda>w. (True, w)), sv_open_file = (\<lambda>_ _ w. (None, w)),
     sv_associations = (\<lambda>w. ([], w)), sv_open_dialog = (\<lambda>_ w. (None, w))\<rparr>"

definition open_registry :: registry where
  "open_registry = \<lparr>rg_values = (\<lambda>_ _. None), rg_opens = (\<lambda>_ _. True), rg_creates = (\<lambda>_. True), rg_sets = (\<lambda>_. True)\<rparr>"

definition idle_broker :: "(string, unit) broker" where
  "idle_broker = \<lparr>bk_bus = empty_bus, bk_jobs = new_manager, bk_notes = new_notifications, bk_clip = new_clipboard,
     bk_registry = open_registry, bk_window_generation = 0, bk_world = (), bk_sent = []\<rparr>"

definition a_request :: "string \<Rightarrow> json_object \<Rightarrow> broker_request" where
  "a_request m p = \<lparr>req_protocol = kProtocolVersion, req_id = ''r'', req_method = m, req_payload = p\<rparr>"

lemma handle_a_request: "handle_request sv c (a_request m p) b =
    (let (r, b) = run_state (branch sv c m p) b in (respond ''r'' r, b))"
  by (simp add: handle_request_def a_request_def)

section \<open>Which branch serves a method\<close>

text \<open>The methods of the chain, in its order.\<close>

definition broker_methods :: "string list" where
  "broker_methods =
     [''hello'', ''health.ping'', ''health.status'', ''system.capabilities'', ''apps.list'', ''apps.launch'',
      ''files.list'', ''files.listEntry'', ''files.resolvePath'', ''files.openEntry'', ''files.createFolder'', ''files.rename'', ''files.delete'',
      ''files.queryRecycleBin'', ''files.emptyRecycleBin'', ''files.copy'', ''files.move'', ''files.listDrives'',
      ''system.snapshot'', ''system.volume.set'', ''system.brightness.set'', ''wsl.list'', ''path.translate'', ''system.mounts.list'',
      ''system.performance.get'', ''system.performance.set'', ''events.subscribe'', ''events.unsubscribe'', ''jobs.status'', ''jobs.cancel'',
      ''diagnostics.snapshot'', ''window.snapshot'', ''window.list'', ''window.focus'', ''window.minimize'', ''window.maximize'', ''window.restore'',
      ''window.close'', ''window.setBounds'', ''window.snap'', ''window.moveToWorkspace'', ''window.setFullscreen'', ''monitor.list'',
      ''display.listMonitors'', ''display.listSupportedModes'', ''display.applyMode'', ''display.setMode'', ''display.capabilities'', ''display.restore'',
      ''audio.getState'', ''audio.setVolume'', ''audio.setMute'', ''power.getStatus'', ''network.getInterfaces'', ''network.getWifi'',
      ''bluetooth.getStatus'', ''storage.getDrives'', ''personalization.get'', ''personalization.set'', ''datetime.get'', ''datetime.setTime'',
      ''performance.getProfile'', ''performance.getMetrics'', ''performance.setProfile'', ''wsl.getDistros'', ''quicksettings.getState'',
      ''clipboard.getHistory'', ''clipboard.getText'', ''clipboard.setText'', ''clipboard.clear'',
      ''files.openWith'', ''files.getAssociations'', ''files.showOpenWithDialog'', ''notifications.post'', ''notifications.list'',
      ''notifications.dismiss'', ''notifications.clear'', ''notifications.markRead'', ''notifications.markAllRead'', ''system.lock'',
      ''recovery.getStatus'', ''recovery.enterSafeMode'', ''system.requestShutdown'', ''system.getCapabilities'',
      ''startup.getStatus'', ''startup.setEnabled'', ''system.closeCloudOS'',
      ''shell.getStatus'', ''shell.createBackup'', ''shell.restoreExplorer'', ''shell.setShellMode'']"

lemma chain_None: "(if c then Some a else r) = None \<longleftrightarrow> \<not> c \<and> r = None"
  by simp

lemmas chains = dispatch_core_def dispatch_system_def dispatch_settings_def dispatch_session_def

lemma served_method:
  "m \<notin> set broker_methods \<longleftrightarrow> dispatch_core sv c m p = None \<and> dispatch_system sv c m p = None \<and> dispatch_settings sv m p = None \<and>
     dispatch_session sv m p = None"
  unfolding chains chain_None broker_methods_def
  by (simp only: list.set insert_iff empty_iff de_Morgan_disj not_False_eq_True conj_assoc simp_thms)

lemma served_careful:
  fixes sv :: "'w services"
  assumes "m \<in> set broker_methods"
  shows "careful (branch sv c m p :: ('c, 'w, reply) request_step)"
proof (rule branch_cases [OF careful_core careful_system careful_settings careful_session])
  assume "dispatch_core sv c m p = (None :: ('c, 'w, reply) request_step option)"
    "dispatch_system sv c m p = (None :: ('c, 'w, reply) request_step option)"
    "dispatch_settings sv m p = (None :: ('c, 'w, reply) request_step option)"
    "dispatch_session sv m p = (None :: ('c, 'w, reply) request_step option)"
  then show "careful (unsupported m :: ('c, 'w, reply) request_step)" using served_method assms by blast
qed

lemma unserved:
  fixes sv :: "'w services"
  assumes "m \<notin> set broker_methods"
  shows "branch sv c m p = (unsupported m :: ('c, 'w, reply) request_step)"
proof -
  have "dispatch_core sv c m p = (None :: ('c, 'w, reply) request_step option)"
    "dispatch_system sv c m p = (None :: ('c, 'w, reply) request_step option)"
    "dispatch_settings sv m p = (None :: ('c, 'w, reply) request_step option)"
    "dispatch_session sv m p = (None :: ('c, 'w, reply) request_step option)"
    using assms served_method by blast+
  then show ?thesis by (simp add: branch_def)
qed

section \<open>Replies\<close>

lemma careful_run:
  "careful h \<Longrightarrow> run_state h b = (Refused code t q, b') \<Longrightarrow> code \<in> set late_codes \<or> code \<in> set early_codes \<and> b' = b"
  unfolding careful_def by (drule spec [of _ b]) simp

lemma run_unsupported: "run_state (unsupported m) b =
    (Refused ''unsupported_method'' (''Method '' @ quoted m @ '' is not supported by protocol '' @ int_dec kProtocolVersion) [], b)"
  by (simp add: unsupported_def run_steps)

lemma known_codes: "''unsupported_method'' \<notin> set late_codes" "''unsupported_method'' \<notin> set early_codes" "[] \<notin> set early_codes"
    "set late_codes \<inter> set early_codes = {}"
  by (simp_all add: codes)

lemma branch_run_cases:
  fixes sv :: "'w services" and b :: "('c, 'w) broker"
  obtains q where "fst (run_state (branch sv c m p) b) = Accepted q" "m \<in> set broker_methods"
  | code t q where "fst (run_state (branch sv c m p) b) = Refused code t q" "m \<in> set broker_methods" "code \<in> set late_codes"
  | code t q where "run_state (branch sv c m p) b = (Refused code t q, b)" "m \<in> set broker_methods" "code \<in> set early_codes"
  | t q where "run_state (branch sv c m p) b = (Refused ''unsupported_method'' t q, b)" "m \<notin> set broker_methods"
proof (cases "m \<in> set broker_methods")
  case True
  obtain r b' where r: "run_state (branch sv c m p) b = (r, b')" by fastforce
  then show ?thesis using that(1-3) True careful_run [OF served_careful [OF True], of sv c p b] by (cases r) fastforce+
next
  case False
  then show ?thesis using that(4) by (simp add: unserved run_unsupported)
qed

text \<open>
  C23. Every response repeats the protocol version and the request's id; it carries no error code when it is a success and one of the
  known ones otherwise; and the code for an unsupported method is given exactly when no branch tests for the method.
\<close>

theorem response_well_formed:
  "let r = fst (handle_request sv c req b) in
     res_protocol r = kProtocolVersion \<and> res_id r = req_id req \<and>
     res_error_code r \<in> (if res_ok r then {[]} else set refusal_codes) \<and>
     (res_error_code r = ''unsupported_method'' \<longleftrightarrow> req_method req \<notin> set broker_methods)"
  by (rule branch_run_cases [where sv = sv and c = c and m = "req_method req" and p = "req_payload req" and b = b])
    (use known_codes in \<open>auto simp: handle_request_def respond_def refusal_codes_def split: prod.splits\<close>)

text \<open>
  C22. A request that is answered with \<open>unsupported_method\<close> or with one of the early codes - \<open>invalid_argument\<close>,
  \<open>location_not_allowed\<close>, \<open>not_found\<close>, \<open>out_of_range\<close>, \<open>elevation_required\<close>, \<open>reg_open_failed\<close>, \<open>gate0_locked\<close>,
  \<open>policy_key_create_failed\<close> and \<open>invalid_mode\<close> - has changed nothing: not the broker's components, not the registry, not the machine,
  and no event was sent. The other codes belong to operations that may fail midway: \<open>delete_failed\<close>, for one, also answers a deletion
  whose first items are gone before a protected one is met.
\<close>

theorem refusal_changes_nothing:
  assumes "res_error_code (fst (handle_request sv c req b)) \<in> set early_codes \<union> {''unsupported_method''}"
  shows "snd (handle_request sv c req b) = b"
  by (rule branch_run_cases [where sv = sv and c = c and m = "req_method req" and p = "req_payload req" and b = b])
    (use assms known_codes in \<open>auto simp: handle_request_def respond_def split: prod.splits\<close>)

lemma unlocked_refused: "fst (handle_request quiet_services c (a_request ''shell.setShellMode'' [(''mode'', JStr ''CLOUDOS_ACTIVE'')]) idle_broker) =
    respond ''r'' (Refused ''gate0_locked'' ''Gate 0 Enforced: Live shell replacement activation requires user-verified login test confirmation.'' [])"
  by (simp add: handle_a_request branch_def chains handle_shell_mode_def string_arg_def bool_arg_def or_else_def run_steps)

theorem refusal_changes_nothing_witness:
  "snd (handle_request quiet_services [] (a_request ''shell.setShellMode'' [(''mode'', JStr ''CLOUDOS_ACTIVE'')]) idle_broker) = idle_broker"
  by (rule refusal_changes_nothing) (simp add: unlocked_refused respond_def early_codes_def)

section \<open>Requests in sequence\<close>

text \<open>
  C7. Whatever clients ask for, in whatever order, the broker's components stay well formed: no subscription without its client, the
  job manager within its invariant, the clipboard history and the notifications within their limits; and events that were
  sent are never taken back. The file service must hand its jobs to the manager by the manager's operations.
\<close>

theorem requests_keep_components:
  assumes "submits_well sv" "parts_ok b"
  shows "parts_ok (serve sv reqs b) \<and> prefix (bk_sent b) (bk_sent (serve sv reqs b))"
  using assms parts.requests_kept sent.requests_kept by blast

lemma quiet_submits: "submits_well quiet_services"
  by (auto simp: submits_well_def quiet_services_def split_beta intro: mgr_ok_submit)

lemma idle_ok: "parts_ok idle_broker"
  by (simp add: parts_ok_def idle_broker_def mgr_ok_new bus_ok_def empty_bus_def clipboard_ok_def new_clipboard_def new_notifications_def)

theorem requests_keep_components_witness:
  "parts_ok (serve quiet_services [(''a'', a_request ''files.copy'' [(''sourceEntryIds'', JArr []), (''destinationEntryId'', JStr ''d'')]),
     (''a'', a_request ''clipboard.clear'' []), (''b'', a_request ''events.subscribe'' [])] idle_broker)"
  by (rule requests_keep_components [OF quiet_submits idle_ok, THEN conjunct1])

section \<open>The registry\<close>

lemma registry_branches_of:
  "branch sv c ''startup.setEnabled'' p = handle_startup_set sv p" "branch sv c ''startup.getStatus'' p = handle_startup_status sv"
  "branch sv c ''shell.restoreExplorer'' p = handle_restore_explorer sv" "branch sv c ''shell.setShellMode'' p = handle_shell_mode sv p"
  "branch sv c ''shell.getStatus'' p = handle_shell_status sv"
  by (simp_all add: branch_def chains)

lemma registry_untouched:
  fixes sv :: "'w services" and b :: "('c, 'w) broker"
  assumes "m \<notin> {''startup.setEnabled'', ''shell.restoreExplorer'', ''shell.setShellMode''}"
  shows "bk_registry (snd (run_state (branch sv c m p) b)) = bk_registry b"
proof -
  have "kept (\<lambda>b b'. bk_registry b' = bk_registry b) (branch sv c m p :: ('c, 'w, reply) request_step)"
    by (rule registry.kept_branch) (use assms in simp_all)
  then show ?thesis by (simp add: kept_def)
qed

lemma set_value_other: "rg_values (snd (set_value k n t r)) k' n' \<noteq> rg_values r k' n' \<Longrightarrow>
    k' = k \<and> n' = n \<and> rg_values (snd (set_value k n t r)) k' n' = Some (Reg_Sz t)"
  by (auto simp: set_value_def split: if_splits)

lemma create_key_values [simp]: "rg_values (create_key k r) = rg_values r" "rg_sets (create_key k r) = rg_sets r"
  by (simp_all add: create_key_def)

lemma set_created_other: "rg_values (snd (set_value k n t (create_key k r))) k' n' \<noteq> rg_values r k' n' \<Longrightarrow>
    k' = k \<and> n' = n \<and> rg_values (snd (set_value k n t (create_key k r))) k' n' = Some (Reg_Sz t)"
  using set_value_other [of k n t "create_key k r"] by simp

lemma delete_value_other: "rg_values (snd (delete_value k n r)) k' n' \<noteq> rg_values r k' n' \<Longrightarrow>
    k' = k \<and> n' = n \<and> rg_values (snd (delete_value k n r)) k' n' = None"
  by (auto simp: delete_value_def split: if_splits)

lemma drop_shells_other: "rg_values (snd (drop_shells r)) k n \<noteq> rg_values r k n \<Longrightarrow>
    k \<in> {User_Policies, User_Winlogon} \<and> n = ''Shell'' \<and> rg_values (snd (drop_shells r)) k n = None"
  by (auto simp: drop_shells_def drop_shell_def delete_value_def split: if_splits)

lemma restore_registry: "bk_registry (snd (run_state (handle_restore_explorer sv) b)) = snd (drop_shells (bk_registry b))"
  by (simp add: handle_restore_explorer_def run_steps split_beta)

lemma startup_set_registry: "bk_registry (snd (run_state (handle_startup_set sv p) b)) =
    (if rg_opens (bk_registry b) Run_Key True then snd ((if enabled_arg p then set_value Run_Key ''CloudOS'' (startup_command (sv_module_dir sv (bk_world b)))
       else delete_value Run_Key ''CloudOS'') (bk_registry b)) else bk_registry b)"
  by (simp add: handle_startup_set_def run_steps split_beta)

lemma shell_mode_registry: "bk_registry (snd (run_state (handle_shell_mode sv p) b)) =
    (let mode = or_else (string_arg p ''mode'') ''EXPLORER'' in
     if mode = ''EXPLORER'' then snd (drop_shells (bk_registry b))
     else if mode = ''CLOUDOS_ACTIVE'' \<and> bool_arg p ''gate0_override'' = Some True \<and> rg_creates (bk_registry b) User_Policies
       then snd (set_value User_Policies ''Shell'' (shell_command (sv_module_dir sv (bk_world b))) (create_key User_Policies (bk_registry b)))
     else bk_registry b)"
  by (auto simp: handle_shell_mode_def run_steps split_beta Let_def or_else_def split: option.splits)

text \<open>
  C21. The registry is written by three methods only, and in three ways only: the start-up registration is set to this program's own
  command or removed; the user's shell values are removed; and the shell is replaced by this program's bootstrap, in the user's
  policies and only when the request confirms it with \<open>gate0_override\<close>. The machine's values are never touched.
\<close>

theorem registry_writes:
  assumes "rg_values (bk_registry (snd (handle_request sv c req b))) k n \<noteq> rg_values (bk_registry b) k n"
  shows "let m = req_method req; p = req_payload req; dir = sv_module_dir sv (bk_world b);
       v = rg_values (bk_registry (snd (handle_request sv c req b))) k n in
     m = ''startup.setEnabled'' \<and> (k, n) = (Run_Key, ''CloudOS'') \<and> v = (if enabled_arg p then Some (Reg_Sz (startup_command dir)) else None) \<or>
     (m = ''shell.restoreExplorer'' \<or> m = ''shell.setShellMode'' \<and> or_else (string_arg p ''mode'') ''EXPLORER'' = ''EXPLORER'') \<and>
       (k = User_Policies \<or> k = User_Winlogon) \<and> n = ''Shell'' \<and> v = None \<or>
     m = ''shell.setShellMode'' \<and> string_arg p ''mode'' = Some ''CLOUDOS_ACTIVE'' \<and> bool_arg p ''gate0_override'' = Some True \<and>
       (k, n) = (User_Policies, ''Shell'') \<and> v = Some (Reg_Sz (shell_command dir))"
proof -
  let ?m = "req_method req" and ?p = "req_payload req"
  have r: "snd (handle_request sv c req b) = snd (run_state (branch sv c ?m ?p) b)" by (simp add: handle_request_def split_beta)
  consider "?m = ''startup.setEnabled''" | "?m = ''shell.restoreExplorer''" | "?m = ''shell.setShellMode''"
    using registry_untouched [of ?m sv c ?p b] assms unfolding r by force
  then show ?thesis
  proof cases
    case 1
    then show ?thesis using assms unfolding r
      by (auto simp: registry_branches_of startup_set_registry dest: set_value_other delete_value_other split: if_splits)
  next
    case 2
    then show ?thesis using assms drop_shells_other unfolding r by (fastforce simp: registry_branches_of restore_registry)
  next
    case 3
    then show ?thesis using assms unfolding r
      by (auto simp: registry_branches_of shell_mode_registry Let_def or_else_def dest: set_created_other drop_shells_other split: if_splits option.splits)
  qed
qed

text \<open>The bootstrap of \<open>C:\<close> as the shell, by a confirmed request.\<close>

definition activation :: broker_request where
  "activation = a_request ''shell.setShellMode'' [(''gate0_override'', JBool True), (''mode'', JStr ''CLOUDOS_ACTIVE'')]"

lemma activation_sets: "rg_values (bk_registry (snd (handle_request quiet_services c activation idle_broker))) User_Policies ''Shell'' =
    Some (Reg_Sz (shell_command (Workspace_Studio.wide ''C:'')))"
  by (simp add: activation_def handle_a_request registry_branches_of shell_mode_registry split_beta Let_def or_else_def string_arg_def bool_arg_def
    idle_broker_def open_registry_def set_value_def quiet_services_def)

theorem registry_writes_witness:
  "let v = rg_values (bk_registry (snd (handle_request quiet_services [] activation idle_broker))) User_Policies ''Shell'' in
     v = Some (Reg_Sz (shell_command (Workspace_Studio.wide ''C:'')))"
proof -
  have "rg_values (bk_registry (snd (handle_request quiet_services [] activation idle_broker))) User_Policies ''Shell'' \<noteq>
      rg_values (bk_registry idle_broker) User_Policies ''Shell''"
    by (simp add: activation_sets) (simp add: idle_broker_def open_registry_def)
  from registry_writes [OF this] show ?thesis
    by (simp add: activation_def a_request_def or_else_def string_arg_def bool_arg_def Let_def quiet_services_def)
qed

section \<open>What is written reads back\<close>

lemma object_of_find: "map_of (object_of kvs) k = map_of (rev kvs) k"
proof -
  have "map_ok o1 \<Longrightarrow> map_of (foldl (\<lambda>obj (k, v). map_put k v obj) o1 kvs) k = (map_of o1 ++ map_of (rev kvs)) k" for o1
    by (induction kvs arbitrary: o1) (auto simp: map_add_def map_of_put map_ok_put split: option.split)
  then show ?thesis by (simp add: object_of_def map_ok_def)
qed

lemma handle_method: "handle_request sv c (req\<lparr>req_method := m, req_payload := p\<rparr>) b =
    (let (r, b) = run_state (branch sv c m p) b in (respond (req_id req) r, b))"
  by (simp add: handle_request_def)

text \<open>
  After \<open>startup.setEnabled\<close> succeeded, \<open>startup.getStatus\<close> reports the setting that was made, and the command that starts
  the program when it is on, for a program directory short enough for the query.
\<close>

theorem startup_reads_back:
  assumes "rg_opens (bk_registry b) Run_Key True" "rg_opens (bk_registry b) Run_Key False" "rg_sets (bk_registry b) Run_Key"
    and "length (sv_module_dir sv (bk_world b)) < 1000" "0 \<notin> set (sv_module_dir sv (bk_world b))"
  shows "let (r1, b1) = handle_request sv c (req1\<lparr>req_method := ''startup.setEnabled'', req_payload := p\<rparr>) b;
       r2 = fst (handle_request sv d (req2\<lparr>req_method := ''startup.getStatus'', req_payload := q\<rparr>) b1) in
     res_ok r1 \<and> map_of (res_payload r2) ''enabled'' = Some (JBool (enabled_arg p)) \<and>
     map_of (res_payload r2) ''command'' =
       Some (JStr (if enabled_arg p then Broker_State.narrow sv (startup_command (sv_module_dir sv (bk_world b))) else []))"
proof -
  let ?t = "startup_command (sv_module_dir sv (bk_world b))"
  have t: "length ?t < 1024" "takeWhile (\<lambda>c. c \<noteq> 0) ?t = ?t" "?t \<noteq> []"
    using assms(4,5) by (auto simp: startup_command_def in_quotes_def beside_def Workspace_Studio.wide_def takeWhile_eq_all_conv)
  show ?thesis
  proof (cases "enabled_arg p")
    case True
    then show ?thesis using assms(1-3) t(1,3)
      by (simp add: t(2) handle_method registry_branches_of handle_startup_set_def handle_startup_status_def run_steps set_value_def query_text_def
        respond_def split_beta Let_def object_of_find)
  next
    case False
    then show ?thesis using assms(1-3)
      by (simp add: handle_method registry_branches_of handle_startup_set_def handle_startup_status_def run_steps delete_value_def query_text_def
        respond_def split_beta Let_def object_of_find Broker_State.narrow_def)
  qed
qed

lemma idle_registry: "bk_registry idle_broker = open_registry" "bk_world idle_broker = ()" "rg_opens open_registry k w" "rg_sets open_registry k"
    "sv_module_dir quiet_services w2 = Workspace_Studio.wide ''C:''"
  by (simp_all add: idle_broker_def open_registry_def quiet_services_def)

theorem startup_reads_back_witness:
  "let (r1, b1) = handle_request quiet_services [] ((a_request [] [])\<lparr>req_method := ''startup.setEnabled'', req_payload := [(''enabled'', JBool True)]\<rparr>) idle_broker
   in map_of (res_payload (fst (handle_request quiet_services [] ((a_request [] [])\<lparr>req_method := ''startup.getStatus'', req_payload := []\<rparr>) b1)))
     ''enabled'' = Some (JBool True)"
proof -
  have e: "enabled_arg [(''enabled'', JBool True)]" by (simp add: enabled_arg_def)
  show ?thesis
    using startup_reads_back [where b = idle_broker and sv = quiet_services and c = "[]" and ?req1.0 = "a_request [] []" and
        p = "[(''enabled'', JBool True)]" and d = "[]" and ?req2.0 = "a_request [] []" and q = "[]"] e
    by (simp add: idle_registry Workspace_Studio.wide_def split_beta Let_def)
qed

text \<open>
  When the user's keys can be written, \<open>shell.restoreExplorer\<close> undoes any replacement of the shell, whoever made it: the values
  are gone, nothing else in the registry has changed, and \<open>shell.getStatus\<close> reports the Windows shell.
\<close>

theorem explorer_restored:
  assumes "\<forall>k \<in> {User_Policies, User_Winlogon}. rg_opens (bk_registry b) k True \<and> rg_sets (bk_registry b) k"
  shows "let b1 = snd (handle_request sv c (req1\<lparr>req_method := ''shell.restoreExplorer'', req_payload := p\<rparr>) b);
       r2 = fst (handle_request sv d (req2\<lparr>req_method := ''shell.getStatus'', req_payload := q\<rparr>) b1) in
     (\<forall>k n. rg_values (bk_registry b1) k n = (if n = ''Shell'' \<and> k \<in> {User_Policies, User_Winlogon} then None else rg_values (bk_registry b) k n)) \<and>
     map_of (res_payload r2) ''status'' = Some (JStr ''EXPLORER'') \<and>
     map_of (res_payload r2) ''effective_shell'' = Some (JStr (Broker_State.narrow sv (Workspace_Studio.wide ''explorer.exe'')))"
proof -
  let ?b1 = "snd (handle_request sv c (req1\<lparr>req_method := ''shell.restoreExplorer'', req_payload := p\<rparr>) b)"
  have b1: "bk_registry ?b1 = snd (drop_shells (bk_registry b))"
    by (simp add: handle_method registry_branches_of restore_registry split_beta)
  have v: "rg_values (bk_registry ?b1) k n =
      (if n = ''Shell'' \<and> k \<in> {User_Policies, User_Winlogon} then None else rg_values (bk_registry b) k n)" for k n
    unfolding b1 using assms by (auto simp: drop_shells_def drop_shell_def delete_value_def)
  then have "read_registry_str User_Policies ''Shell'' (bk_registry ?b1) = []" "read_registry_str User_Winlogon ''Shell'' (bk_registry ?b1) = []"
    by (simp_all add: read_registry_str_def query_text_def)
  then show ?thesis using v
    by (simp add: handle_method [where m = "''shell.getStatus''"] registry_branches_of handle_shell_status_def run_steps respond_def split_beta Let_def
      object_of_find)
qed

theorem explorer_restored_witness:
  "map_of (res_payload (fst (handle_request quiet_services [] ((a_request [] [])\<lparr>req_method := ''shell.getStatus'', req_payload := []\<rparr>)
     (snd (handle_request quiet_services [] ((a_request [] [])\<lparr>req_method := ''shell.restoreExplorer'', req_payload := []\<rparr>) idle_broker)))))
     ''status'' = Some (JStr ''EXPLORER'')"
  using explorer_restored [where b = idle_broker and sv = quiet_services and c = "[]" and ?req1.0 = "a_request [] []" and p = "[]" and d = "[]"
      and ?req2.0 = "a_request [] []" and q = "[]"]
  by (simp add: idle_registry Let_def)

end
