(* ===== verification/Broker_Views.thy ===== *)
theory Broker_Views
  imports Broker_Props
begin

text \<open>
  What clients see of the state through the requests: posted notifications, pages of a listing, window commands as they arrive in
  the shell, and the text of the shell backup.
\<close>

section \<open>Notifications\<close>

lemma notification_branches_of:
  "branch sv c ''notifications.post'' p = handle_notification_post sv p" "branch sv c ''notifications.list'' p = handle_notification_list"
  by (simp_all add: branch_def chains)

lemma payload_respond [simp]: "res_payload (respond i (Accepted q)) = q" "res_payload (respond i (Refused code t q)) = q"
  by (simp_all add: respond_def)

text \<open>
  A notification one client posts is the first one the next client lists: with the texts of the request, \<open>info\<close> as its severity
  unless another was given, unread, and with the id of the response. The older ones follow, as many as the limit allows, and
  exactly the clients subscribed to it get the event with its contents.
\<close>

theorem posted_notification_listed:
  assumes "length (notifications (bk_notes b)) \<le> kMaxNotifications"
  shows "let (r1, b1) = handle_request sv c (req1\<lparr>req_method := ''notifications.post'', req_payload := p\<rparr>) b;
       (r2, b2) = handle_request sv d (req2\<lparr>req_method := ''notifications.list'', req_payload := q\<rparr>) b1;
       text = (\<lambda>k. or_else (string_arg p k) []);
       n = \<lparr>nt_id = next_id (bk_notes b), nt_timestamp = sv_now_text sv (bk_world b), nt_title = text ''title'', nt_message = text ''message'',
         nt_severity = (if text ''severity'' = [] then ''info'' else text ''severity''), nt_app_id = text ''app_id'', nt_read = False\<rparr>;
       older = take (kMaxNotifications - 1) (notifications (bk_notes b)) in
     map_of (res_payload r1) ''id'' = Some (JInt (sint (nt_id n))) \<and>
     map_of (res_payload r2) ''notifications'' = Some (objects (map notification_json (n # older))) \<and>
     map_of (res_payload r2) ''unread_count'' = Some (JInt (int (1 + count_unread older))) \<and>
     bk_sent b2 = bk_sent b @ publish (sv_now sv (bk_world b)) (sv_visit sv (bk_world b)) ''notification.posted'' (notification_json n) (bk_bus b)"
proof -
  have k: "kMaxNotifications = Suc (kMaxNotifications - 1)" by (simp add: kMaxNotifications_def)
  have "take kMaxNotifications (x # notifications (bk_notes b)) = x # take (kMaxNotifications - 1) (notifications (bk_notes b))" for x
    by (subst k) simp
  then show ?thesis using assms
    by (simp add: handle_method notification_branches_of handle_notification_post_def handle_notification_list_def run_steps on_notes_def post_def
      push_front_capped_take split_beta Let_def object_of_find objects_def or_else_def split: option.split)
qed

theorem posted_notification_listed_witness:
  "let b1 = snd (handle_request quiet_services ''a'' ((a_request [] [])\<lparr>req_method := ''notifications.post'', req_payload := [(''title'', JStr ''hi'')]\<rparr>) idle_broker)
   in map_of (res_payload (fst (handle_request quiet_services ''b'' ((a_request [] [])\<lparr>req_method := ''notifications.list'', req_payload := []\<rparr>) b1)))
     ''unread_count'' = Some (JInt 1)"
  using posted_notification_listed [where b = idle_broker and sv = quiet_services and c = "''a''" and ?req1.0 = "a_request [] []"
      and p = "[(''title'', JStr ''hi'')]" and d = "''b''" and ?req2.0 = "a_request [] []" and q = "[]"]
  by (simp add: idle_broker_def new_notifications_def split_beta Let_def)

section \<open>Pages\<close>

lemma pages_concat: "concat (map (\<lambda>k. take l (drop (k * l) xs)) [0..<n]) = take (n * l) xs"
proof (induction n)
  case (Suc n)
  have "take (n * l) xs @ take l (drop (n * l) xs) = take (n * l + l) xs" by (rule take_add [symmetric])
  then show ?case using Suc by (simp add: add.commute)
qed simp

lemma files_payload_page:
  assumes "0 < l" "l \<le> 2000"
  shows "map_of (object_of (x # files_payload items (k * l) l)) ''files'' = Some (JArr (map (\<lambda>i. JObj (fi_json i)) (take l (drop (k * l) items))))"
    and "map_of (object_of (x # files_payload items (k * l) l)) ''hasMore'' = Some (JBool (Suc k * l < length items))"
proof -
  let ?n = "length items"
  have "take (min (min (k * l) ?n + l) ?n - min (k * l) ?n) (drop (min (k * l) ?n) items) = take l (drop (k * l) items)"
    by (cases "k * l \<le> ?n") (auto simp: min_def)
  moreover have "min (min (k * l) ?n + l) ?n < ?n \<longleftrightarrow> Suc k * l < ?n" using assms(1) by (auto simp: min_def)
  ultimately show "map_of (object_of (x # files_payload items (k * l) l)) ''files'' =
      Some (JArr (map (\<lambda>i. JObj (fi_json i)) (take l (drop (k * l) items))))"
    and "map_of (object_of (x # files_payload items (k * l) l)) ''hasMore'' = Some (JBool (Suc k * l < length items))"
    using assms by (simp_all add: object_of_find files_payload_def Let_def)
qed

lemma files_list_branch: "branch sv c ''files.list'' p = handle_files_list sv p"
  by (simp add: branch_def chains)

lemma files_page:
  assumes "0 < l" "l \<le> 2000" "sv_allowed_location sv loc" "fst (sv_list_location sv loc (bk_world b)) = Inr items"
    and "req_method r = ''files.list''" "string_arg (req_payload r) ''location'' = Some loc"
    and "map_of (req_payload r) ''offset'' = Some (JInt (int (k * l)))" "map_of (req_payload r) ''limit'' = Some (JInt (int l))"
    and "matching_items (req_payload r) items = shown"
  shows "map_of (res_payload (fst (handle_request sv c r b))) ''files'' = Some (JArr (map (\<lambda>i. JObj (fi_json i)) (take l (drop (k * l) shown))))"
    "map_of (res_payload (fst (handle_request sv c r b))) ''hasMore'' = Some (JBool (Suc k * l < length shown))"
proof -
  have "res_payload (fst (handle_request sv c r b)) = object_of ((''location'', JStr loc) # files_payload shown (k * l) l)"
    using assms by (simp add: handle_request_def files_list_branch handle_files_list_def run_steps split_beta page_of_def page_arg_def max_def nat_mult_distrib)
  then show "map_of (res_payload (fst (handle_request sv c r b))) ''files'' = Some (JArr (map (\<lambda>i. JObj (fi_json i)) (take l (drop (k * l) shown))))"
    "map_of (res_payload (fst (handle_request sv c r b))) ''hasMore'' = Some (JBool (Suc k * l < length shown))"
    by (simp_all only: files_payload_page [OF assms(1,2)])
qed

definition item_of :: "string \<Rightarrow> file_item" where
  "item_of name = \<lparr>fi_name = name, fi_json = [(''name'', JStr name)]\<rparr>"

definition three_items :: "file_item list" where
  "three_items = [item_of ''a'', item_of ''b'', item_of ''c'']"

text \<open>
  An offset and a limit that are doubles, which the test of the handler admits, are read as 0: the page is the first item alone.
\<close>

theorem double_page_is_first_item:
  assumes "map_of p ''offset'' = Some (JDouble x)" "map_of p ''limit'' = Some (JDouble y)"
  shows "page_of p items = files_payload (matching_items p items) 0 1"
  using assms by (simp add: page_of_def page_arg_def)

theorem double_page_is_first_item_witness:
  "page_of [(''limit'', JDouble (double_of_int 2)), (''offset'', JDouble (double_of_int 1))] three_items = files_payload three_items 0 1"
  using double_page_is_first_item [of "[(''limit'', JDouble (double_of_int 2)), (''offset'', JDouble (double_of_int 1))]"]
  by (simp add: matching_items_def string_arg_def)

section \<open>Window commands\<close>

lemma stoull_nat_dec: "n < 2 ^ 64 \<Longrightarrow> stoull (nat_dec n) = Some (word_of_nat n)"
proof -
  assume n: "n < 2 ^ 64"
  have d: "\<forall>c \<in> set (nat_dec n). is_digit c" by (rule nat_dec_digits)
  obtain c cs where c: "nat_dec n = c # cs" using nat_dec_nonempty [of n] by (cases "nat_dec n") auto
  have "\<not> is_space c" "c \<noteq> CHR ''-''" "c \<noteq> CHR ''+''" using d c by (auto simp: is_space_def is_digit_def)
  moreover have tw: "takeWhile is_digit (c # cs) = c # cs" using d c by (simp add: takeWhile_eq_all_conv)
  moreover have "dec_value (c # cs) = n" using c dec_value_nat_dec by metis
  ultimately show ?thesis using n c by (simp add: stoull_def Let_def tw del: takeWhile.simps)
qed

text \<open>
  A window handle survives the wire in each of its three spellings: the id \<open>win_\<close> with the decimal number, the number as a string,
  and the number as a (signed) integer.
\<close>

theorem window_handle_roundtrip:
  "hwnd_arg (JStr (''win_'' @ nat_dec (unat w))) = w \<and> hwnd_arg (JStr (nat_dec (unat w))) = w \<and> hwnd_arg (JInt (sint w)) = w"
proof -
  have s: "stoull (nat_dec (unat w)) = Some w" using stoull_nat_dec [of "unat w"] unsigned_less [of w] by simp
  have "\<not> is_digit CHR ''w''" by (simp add: is_digit_def)
  then have "take 4 (nat_dec (unat w)) \<noteq> ''win_''"
    using nat_dec_digits [of "unat w"] by (metis in_set_takeD list.set_intros(1))
  then show ?thesis by (simp add: hwnd_arg_def or_else_def s)
qed

text \<open>
  From the request to the window manager: for a live window each method of \<open>window.*\<close> has the shell run the operation it names, with
  the request's numbers, workspaces counted from 1 on the wire and from 0 inside. \<open>window.setFullscreen\<close> is the exception:
  it enters full screen also when the request says \<open>fullscreen: false\<close>.
\<close>

theorem window_requests_execute:
  assumes "w \<noteq> 0" "is_window os w"
  shows "let runs = (\<lambda>m. map_option (\<lambda>c. execute_window_command os c s) (window_request m p w));
       number = (\<lambda>k d. or_else (map_option to_int32 (int_arg p k)) d);
       target = or_else (if string_arg p ''target'' = None then string_arg p ''snap'' else string_arg p ''target'') [];
       done = (\<lambda>s. Some (Some (s, True))) in
     runs ''window.focus'' = Some (map_option (\<lambda>s. (s, True)) (focus_window os w s)) \<and>
     runs ''window.minimize'' = done (minimize_window os w s) \<and> runs ''window.maximize'' = done (maximize_window os w s) \<and>
     runs ''window.restore'' = done (restore_window os w s) \<and> runs ''window.close'' = done (close_window os w s) \<and>
     runs ''window.setBounds'' = Some (Some (set_window_bounds os w (number ''x'' 0) (number ''y'' 0) (number ''width'' 800) (number ''height'' 600) s)) \<and>
     runs ''window.snap'' = Some (Some (snap_window os w (snap_target target) s)) \<and>
     runs ''window.moveToWorkspace'' =
       Some (map_option (\<lambda>s. (s, True)) (move_window_to_workspace os w (max 0 (number ''workspace'' 1 - 1)) s)) \<and>
     runs ''window.setFullscreen'' = done (set_window_fullscreen os w True s)"
proof -
  have m: "x \<bind> (\<lambda>s. Some (f s)) = map_option f x" for x :: "'x option" and f :: "'x \<Rightarrow> 'y" by (cases x) simp_all
  show ?thesis
    using assms by (auto simp: Let_def window_request_def window_command_of_def execute_window_command_def max_def or_else_def m split: option.split)
qed

lemma window_requests_execute_witness:
  "\<forall>s. map_option (\<lambda>c. execute_window_command sample_os c s) (window_request ''window.setFullscreen'' [(''fullscreen'', JBool False)] 2) =
     Some (Some (set_window_fullscreen sample_os 2 True s, True))"
proof
  fix s
  show "map_option (\<lambda>c. execute_window_command sample_os c s) (window_request ''window.setFullscreen'' [(''fullscreen'', JBool False)] 2) =
     Some (Some (set_window_fullscreen sample_os 2 True s, True))"
    using window_requests_execute [of 2 sample_os s "[(''fullscreen'', JBool False)]"] unfolding Let_def by simp
qed

section \<open>The shell backup\<close>

definition plain :: "string \<Rightarrow> bool" where
  "plain s \<longleftrightarrow> (\<forall>c \<in> set s. c \<noteq> CHR 0x22 \<and> c \<noteq> CHR 0x5C \<and> \<not> (of_char c :: nat) < 0x20)"

lemma plain_string: "plain s \<Longrightarrow> parse_string_body (s @ CHR 0x22 # r) out = Some (out @ s, r)"
  by (induction s arbitrary: out) (simp_all add: plain_def parse_string_body.simps(2))

lemma bad_string:
  assumes "plain s" "x \<notin> set ([CHR 0x22, CHR 0x5C] @ ''/bfnrtu'')"
  shows "parse_string_body (s @ CHR 0x5C # x # r) out = None"
  using assms by (induction s arbitrary: out) (simp_all add: plain_def parse_string_body.simps(2))

abbreviation members :: "json_object \<Rightarrow> string \<Rightarrow> (json_object \<times> string) option" where
  "members \<equiv> parse_object_loop (\<lambda>t. parse_value (Suc 0) t)"

lemmas space_defs = skip_whitespace_def Json_Parser.is_space_def

definition number_line :: "string \<Rightarrow> nat \<Rightarrow> string" where
  "number_line n i = '' '' @ '' '' @ [CHR 0x22] @ n @ [CHR 0x22] @ '':'' @ '' '' @ nat_dec i"

lemma member_step:
  assumes "plain n" "plain v" "map_of obj n = None" "length obj < 100"
  shows "members obj (CHR 0x0A # backup_line n v @ CHR '','' # r) = members (map_put n (JStr v) obj) r"
  using assms
  by (subst parse_object_loop.simps)
    (simp add: backup_line_def space_defs kMaxJsonContainerItems_def kMaxJsonDepth_def parse_string_def plain_string parse_value.simps [of "Suc 0"])

lemma member_bad:
  assumes "plain n" "plain v" "x \<notin> set ([CHR 0x22, CHR 0x5C] @ ''/bfnrtu'')"
  shows "members obj (CHR 0x0A # backup_line n (v @ CHR 0x5C # x # w) @ r) = None"
  using assms
  by (subst parse_object_loop.simps)
    (simp add: backup_line_def space_defs kMaxJsonDepth_def parse_string_def plain_string bad_string parse_value.simps [of "Suc 0"])

lemma parse_value_nat:
  assumes "int n < 2 ^ 63"
  shows "parse_value (Suc 0) (CHR '' '' # nat_dec n @ '','' @ r) = Some (JInt (int n), '','' @ r)"
proof -
  obtain c cs where c: "nat_dec n = c # cs" by (cases "nat_dec n") auto
  then have d: "is_digit c" using nat_dec_digits [of n] by simp
  then have "\<not> Json_Parser.is_space c" "c \<notin> {CHR 0x22, CHR 0x7B, CHR ''['', CHR ''t'', CHR ''f'', CHR ''n''}"
    by (auto simp: Json_Parser.is_space_def is_digit_def)
  moreover have "parse_number (nat_dec n @ '','' @ r) = Some (JInt (int n), '','' @ r)"
    using parse_int_dec [of "int n" "'','' @ r"] assms by (simp add: int_dec_def int64_range_def)
  ultimately show ?thesis using d
    by (simp add: c parse_value.simps [of "Suc 0"] skip_whitespace_def Json_Parser.is_space_def [of "CHR '' ''"] kMaxJsonDepth_def)
qed

lemma member_number:
  assumes "plain n" "map_of obj n = None" "length obj < 100" "int i < 2 ^ 63"
  shows "members obj (CHR 0x0A # number_line n i @ CHR '','' # r) = members (map_put n (JInt (int i)) obj) r"
  using assms parse_value_nat [OF assms(4), of r]
  by (subst parse_object_loop.simps)
    (simp add: number_line_def space_defs kMaxJsonContainerItems_def parse_string_def plain_string)

lemma backup_text_members: "backup_text machine userinit policy user =
    CHR 0x7B # CHR 0x0A # number_line ''backup_version'' 1 @ '','' @
    CHR 0x0A # backup_line ''windows_edition'' ''Windows 11 Pro'' @ '','' @
    CHR 0x0A # number_line ''windows_build'' 28020 @ '','' @
    CHR 0x0A # backup_line ''architecture'' ''x64'' @ '','' @
    CHR 0x0A # backup_line ''original_hklm_shell'' machine @ '','' @
    CHR 0x0A # backup_line ''original_userinit'' userinit @ '','' @
    CHR 0x0A # backup_line ''original_hkcu_policy_shell'' policy @ '','' @
    CHR 0x0A # backup_line ''original_hkcu_winlogon_shell'' user @ CHR 0x0A # CHR 0x7D # [CHR 0x0A]"
proof -
  have "nat_dec 1 = ''1''" "nat_dec 28020 = ''28020''" by (simp_all add: nat_dec.simps digit_char_def) code_simp+
  then show ?thesis by (simp add: backup_text_def number_line_def Let_def)
qed

lemma members_skip: "members obj (skip_whitespace t) = members obj t"
proof -
  have i: "skip_whitespace (skip_whitespace t) = skip_whitespace t" by (simp add: skip_whitespace_def dropWhile_idem)
  show ?thesis
  proof (cases "skip_whitespace t = []")
    case True
    then show ?thesis by (simp add: parse_object_loop.simps [of _ obj t] parse_object_loop.simps [of _ obj "[]"])
  next
    case False
    then have "t \<noteq> []" by (auto simp: skip_whitespace_def)
    then show ?thesis using False
      by (simp add: parse_object_loop.simps [of _ obj t] parse_object_loop.simps [of _ obj "skip_whitespace t"] i)
  qed
qed

lemma parse_json_members: "members [] t = None \<Longrightarrow> peek (skip_whitespace t) \<noteq> CHR 0x7D \<Longrightarrow> parse_json (CHR 0x7B # t) = None"
  by (simp add: parse_json_def parse_root_def skip_whitespace_def [of "CHR 0x7B # t"] Json_Parser.is_space_def [of "CHR 0x7B"]
      parse_value.simps [of 0] parse_object_def Let_def kMaxJsonDepth_def members_skip)

lemma backup_with_backslash:
  assumes "plain machine" "plain v" "x \<notin> set ([CHR 0x22, CHR 0x5C] @ ''/bfnrtu'')"
  shows "parse_json (backup_text machine (v @ CHR 0x5C # x # w) policy user) = None"
proof -
  have p: "plain ''backup_version''" "plain ''windows_edition''" "plain ''Windows 11 Pro''" "plain ''windows_build''" "plain ''architecture''"
    "plain ''x64''" "plain ''original_hklm_shell''" "plain ''original_userinit''"
    by (simp_all add: plain_def)
  show ?thesis
    unfolding backup_text_members
    by (rule parse_json_members)
      (use assms p in \<open>simp_all add: member_number member_step member_bad\<close>, simp add: number_line_def skip_whitespace_def Json_Parser.is_space_def)
qed

text \<open>
  The backup of the shell registration is named and read as JSON, but the values are written between its quotes as they are: with the
  value \<open>Userinit\<close> has on every Windows, a path with backslashes, the text does not parse.
\<close>

theorem shell_backup_not_json:
  "parse_json (backup_text ''explorer.exe'' (''C:'' @ [backslash] @ ''Windows'' @ [backslash] @ ''system32'' @ [backslash] @ ''userinit.exe,'') policy user) = None"
  using backup_with_backslash [of "''explorer.exe''" "''C:''" "CHR ''W''" "''indows'' @ [backslash] @ ''system32'' @ [backslash] @ ''userinit.exe,''" policy user]
  by (simp add: plain_def backslash_def)

end
