(* ===== verification/Lexical_Path.thy ===== *)
theory Lexical_Path
  imports Workspace_Studio
begin

text \<open>
  \<open>std::filesystem::path\<close> of the Windows standard library, as far as the programs use it: the parts of a path, its lexical normal
  form and \<open>operator/\<close>. A path is its text; the functions do not look at the disk.
\<close>

section \<open>Characters\<close>

definition SLASH :: "16 word" where "SLASH = 0x2F"
definition BACKSLASH :: "16 word" where "BACKSLASH = 0x5C"
definition DOT :: "16 word" where "DOT = 0x2E"
definition COLON :: "16 word" where "COLON = 0x3A"

lemmas path_chars = SLASH_def BACKSLASH_def DOT_def COLON_def

definition is_slash :: "16 word \<Rightarrow> bool" where
  "is_slash c \<longleftrightarrow> c = BACKSLASH \<or> c = SLASH"

definition drive_letter :: "16 word \<Rightarrow> bool" where
  "drive_letter c \<longleftrightarrow> 0x41 \<le> c \<and> c \<le> 0x5A \<or> 0x61 \<le> c \<and> c \<le> 0x7A"

section \<open>Parts of a path\<close>

definition has_drive :: "wide_string \<Rightarrow> bool" where
  "has_drive p \<longleftrightarrow> 2 \<le> length p \<and> drive_letter (p ! 0) \<and> p ! 1 = COLON"

text \<open>
  The root name: a drive with its colon; the first three characters of \<open>\\?\\<close>, \<open>\\.\\<close> and \<open>\??\\<close>; a server behind two slashes. The
  text up to the second slash of a server path ends at the slash that follows the server's name.
\<close>

definition root_name_length :: "wide_string \<Rightarrow> nat" where
  "root_name_length p =
     (if has_drive p then 2
      else if length p < 2 \<or> \<not> is_slash (p ! 0) then 0
      else if 4 \<le> length p \<and> is_slash (p ! 3) \<and> (length p = 4 \<or> \<not> is_slash (p ! 4)) \<and>
        (is_slash (p ! 1) \<and> (p ! 2 = 0x3F \<or> p ! 2 = DOT) \<or> p ! 1 = 0x3F \<and> p ! 2 = 0x3F) then 3
      else if 3 \<le> length p \<and> is_slash (p ! 1) \<and> \<not> is_slash (p ! 2)
        then 2 + length (takeWhile (\<lambda>c. \<not> is_slash c) (drop 2 p))
      else 0)"

definition root_name :: "wide_string \<Rightarrow> wide_string" where
  "root_name p = take (root_name_length p) p"

definition after_root_name :: "wide_string \<Rightarrow> wide_string" where
  "after_root_name p = drop (root_name_length p) p"

definition has_root_directory :: "wide_string \<Rightarrow> bool" where
  "has_root_directory p \<longleftrightarrow> after_root_name p \<noteq> [] \<and> is_slash (hd (after_root_name p))"

definition relative_path :: "wide_string \<Rightarrow> wide_string" where
  "relative_path p = dropWhile is_slash (after_root_name p)"

definition root_path :: "wide_string \<Rightarrow> wide_string" where
  "root_path p = root_name p @ (if has_root_directory p then [hd (after_root_name p)] else [])"

text \<open>The characters at the end that are not slashes, and the text before the run of slashes in front of them.\<close>

definition last_part :: "wide_string \<Rightarrow> wide_string" where
  "last_part r = rev (takeWhile (\<lambda>c. \<not> is_slash c) (rev r))"

definition before_last_part :: "wide_string \<Rightarrow> wide_string" where
  "before_last_part r = rev (dropWhile is_slash (dropWhile (\<lambda>c. \<not> is_slash c) (rev r)))"

definition file_name :: "wide_string \<Rightarrow> wide_string" where
  "file_name p = last_part (relative_path p)"

definition parent_path :: "wide_string \<Rightarrow> wide_string" where
  "parent_path p = take (length p - length (relative_path p)) p @ before_last_part (relative_path p)"

text \<open>
  \<open>extension\<close>: from the last dot, unless the dot is the first character or the name is the two dots; the name of an alternate stream is
  not looked at. The result is the length of the stem.
\<close>

definition plain_name :: "wide_string \<Rightarrow> wide_string" where
  "plain_name p = takeWhile (\<lambda>c. c \<noteq> COLON) (file_name p)"

definition stem_length :: "wide_string \<Rightarrow> nat" where
  "stem_length n =
     (let tail = takeWhile (\<lambda>c. c \<noteq> DOT) (rev n); front = length n - length tail - 1
      in if length n \<le> 1 \<or> n = [DOT, DOT] \<or> DOT \<notin> set n \<or> front = 0 then length n else front)"

definition stem :: "wide_string \<Rightarrow> wide_string" where
  "stem p = take (stem_length (plain_name p)) (plain_name p)"

definition extension :: "wide_string \<Rightarrow> wide_string" where
  "extension p = drop (stem_length (plain_name p)) (plain_name p)"

section \<open>The normal form\<close>

text \<open>
  \<open>lexically_normal\<close>: the names of the relative path, whether a slash follows the last; a dot vanishes, two dots take the name before
  them, or vanish behind a root directory, or stay. The flag of the result says that a slash follows.
\<close>

fun names_of :: "wide_string \<Rightarrow> wide_string \<Rightarrow> wide_string list" where
  "names_of n [] = (if n = [] then [] else [n])"
| "names_of n (c # cs) = (if is_slash c then (if n = [] then names_of [] cs else n # names_of [] cs) else names_of (n @ [c]) cs)"

definition ends_in_slash :: "wide_string \<Rightarrow> bool" where
  "ends_in_slash r \<longleftrightarrow> r \<noteq> [] \<and> is_slash (last r)"

fun reduce_names :: "bool \<Rightarrow> bool \<Rightarrow> wide_string list \<Rightarrow> bool \<Rightarrow> wide_string list \<Rightarrow> wide_string list \<times> bool" where
  "reduce_names rooted slash out sep [] = (out, sep)"
| "reduce_names rooted slash out sep (n # ns) =
     (let followed = (ns \<noteq> [] \<or> slash)
      in if n = [DOT] then reduce_names rooted slash out sep ns
         else if n \<noteq> [DOT, DOT] then reduce_names rooted slash (out @ [n]) followed ns
         else if out \<noteq> [] \<and> last out \<noteq> [DOT, DOT] then reduce_names rooted slash (butlast out) (butlast out \<noteq> []) ns
         else if \<not> rooted then reduce_names rooted slash (out @ [n]) followed ns
         else reduce_names rooted slash out sep ns)"

fun join_names :: "wide_string list \<Rightarrow> wide_string" where
  "join_names [] = []"
| "join_names [n] = n"
| "join_names (n # ns) = n @ BACKSLASH # join_names ns"

definition lexically_normal :: "wide_string \<Rightarrow> wide_string" where
  "lexically_normal p =
     (if p = [] then []
      else let rooted = has_root_directory p;
               (out, sep) = reduce_names rooted (ends_in_slash (relative_path p)) [] False (names_of [] (relative_path p));
               sep = (sep \<and> (out = [] \<or> last out \<noteq> [DOT, DOT]));
               text = map (\<lambda>c. if c = SLASH then BACKSLASH else c) (root_name p) @ (if rooted then [BACKSLASH] else []) @ join_names out @
                 (if sep \<and> out \<noteq> [] then [BACKSLASH] else [])
           in if text = [] then [DOT] else text)"

section \<open>\<open>operator/\<close>\<close>

definition is_absolute :: "wide_string \<Rightarrow> bool" where
  "is_absolute p \<longleftrightarrow> (if has_drive p then 3 \<le> length p \<and> is_slash (p ! 2) else 0 < root_name_length p)"

definition append_path :: "wide_string \<Rightarrow> wide_string \<Rightarrow> wide_string" where
  "append_path a b =
     (if is_absolute b \<or> root_name b \<noteq> [] \<and> root_name b \<noteq> root_name a then b
      else if has_root_directory b then root_name a @ after_root_name b
      else (if after_root_name a = [] then (if 3 \<le> root_name_length a then a @ [BACKSLASH] else a)
            else if is_slash (last a) then a else a @ [BACKSLASH]) @ after_root_name b)"

end
