(* ===== verification/File_Service.thy ===== *)
theory File_Service
  imports Lexical_Path Broker_State "HOL-Library.Product_Lexorder"
begin

text \<open>
  \<open>file_service_v21.cpp\<close>: the names it admits, the table of capabilities that stand for paths, the listings and the operations on
  entries. The disk is an unknown state \<open>'d\<close> with the calls of Windows and the library on it as the record \<open>files_api\<close>; the clock and
  the generator of identifiers are functions of the number of calls made so far. The jobs that copy and move are in \<open>File_Copy\<close>.
\<close>

section \<open>Names\<close>

definition strip_end :: "string \<Rightarrow> string" where
  "strip_end s = rev (dropWhile (\<lambda>c. c = CHR '' '' \<or> c = CHR ''.'') (rev s))"

definition is_reserved_device_name :: "string \<Rightarrow> bool" where
  "is_reserved_device_name name =
     (let base = strip_end (takeWhile (\<lambda>c. c \<noteq> CHR ''.'') name); upper = map to_upper base
      in base \<noteq> [] \<and> (upper \<in> {''CON'', ''PRN'', ''AUX'', ''NUL''} \<or>
           length upper = 4 \<and> (take 3 upper = ''COM'' \<or> take 3 upper = ''LPT'') \<and>
           (of_char CHR ''1'' :: nat) \<le> of_char (upper ! 3) \<and> (of_char (upper ! 3) :: nat) \<le> of_char CHR ''9''))"

text \<open>The test of \<open>CreateFolder\<close> and \<open>RenameItem\<close>.\<close>

definition refused_name :: "string \<Rightarrow> bool" where
  "refused_name name \<longleftrightarrow> name = [] \<or> backslash \<in> set name \<or> CHR ''/'' \<in> set name \<or> name = ''.'' \<or> name = ''..'' \<or>
     (\<exists>c \<in> set (''<>:|?*'' @ [CHR 0x22]). c \<in> set name) \<or> is_reserved_device_name name"

section \<open>Windows and the library\<close>

datatype known_folder = Documents | Downloads | Desktop | Local_App_Data | Windows_Folder | Program_Files | Program_Files_X86 | User_Profiles

record found_file =
  ff_name :: wide_string
  ff_folder :: bool
  ff_hidden :: bool
  ff_size :: nat
  ff_modified :: "(nat \<times> nat \<times> nat \<times> nat \<times> nat) option"

datatype find_result = Found "found_file list" | Nothing_Found | Find_Failed

record volume =
  vo_root :: wide_string
  vo_type :: nat
  vo_name :: wide_string
  vo_total :: nat
  vo_free :: nat

text \<open>
  A known folder that is missing is the empty path. \<open>fa_find\<close> gives the entries of a search, hidden and system files marked as hidden; \<open>fa_create\<close> whether the
  directory was created and the message of an error; \<open>fa_rename\<close> and \<open>fa_remove_all\<close> the message of an error; \<open>fa_recycle\<close> whether
  \<open>SHFileOperationW\<close> succeeded without an abort.
\<close>

record 'd files_api =
  fa_utf8 :: "wide_string \<Rightarrow> string"
  fa_wide :: "string \<Rightarrow> wide_string"
  fa_fold :: "16 word \<Rightarrow> 16 word"
  fa_now :: "nat \<Rightarrow> nat"
  fa_guid :: "nat \<Rightarrow> string option"
  fa_known :: "known_folder \<Rightarrow> wide_string"
  fa_windows_dir :: "wide_string option"
  fa_drive_override :: "wide_string option"
  fa_distros :: "string list"
  fa_distro_states :: "(string \<times> string) list"
  fa_volumes :: "volume list option"
  fa_attributes :: "wide_string \<Rightarrow> 'd \<Rightarrow> bool option"
  fa_find :: "wide_string \<Rightarrow> 'd \<Rightarrow> find_result"
  fa_exists :: "wide_string \<Rightarrow> 'd \<Rightarrow> bool"
  fa_create :: "wide_string \<Rightarrow> 'd \<Rightarrow> (bool \<times> string option) \<times> 'd"
  fa_rename :: "wide_string \<Rightarrow> wide_string \<Rightarrow> 'd \<Rightarrow> string option \<times> 'd"
  fa_remove_all :: "wide_string \<Rightarrow> 'd \<Rightarrow> string option \<times> 'd"
  fa_recycle :: "wide_string \<Rightarrow> 'd \<Rightarrow> bool \<times> 'd"
  fa_open :: "wide_string \<Rightarrow> 'd \<Rightarrow> bool \<times> 'd"

definition to_utf8 :: "'d files_api \<Rightarrow> wide_string \<Rightarrow> string" where
  "to_utf8 A t = (if t = [] then [] else fa_utf8 A t)"

definition to_wide :: "'d files_api \<Rightarrow> string \<Rightarrow> wide_string" where
  "to_wide A s = (if s = [] then [] else fa_wide A s)"

section \<open>Capabilities\<close>

record capability =
  cp_path :: wide_string
  cp_folder :: bool
  cp_expires :: nat

record 'd files =
  fs_caps :: "(string \<times> capability) list"
  fs_calls :: nat
  fs_disk :: 'd

definition kMaxCapabilities :: nat where
  "kMaxCapabilities = 131072"

text \<open>60 minutes, in nanoseconds.\<close>

definition kCapabilityLifetime :: nat where
  "kCapabilityLifetime = 60 * 60 * 10 ^ 9"

definition cleanup_expired :: "nat \<Rightarrow> (string \<times> capability) list \<Rightarrow> (string \<times> capability) list" where
  "cleanup_expired now caps =
     (let live = filter (\<lambda>(i, c). now < cp_expires c) caps in if kMaxCapabilities \<le> length live then [] else live)"

text \<open>Identifiers are asked for, then the clock: one call each.\<close>

definition issue_capability :: "'d files_api \<Rightarrow> wide_string \<Rightarrow> bool \<Rightarrow> 'd files \<Rightarrow> string \<times> 'd files" where
  "issue_capability A path folder s =
     (if path = [] then ([], s)
      else case fa_guid A (fs_calls s) of
        None \<Rightarrow> ([], s\<lparr>fs_calls := fs_calls s + 1\<rparr>)
      | Some g \<Rightarrow>
          let i = ''f21:'' @ g; now = fa_now A (fs_calls s + 1)
          in (i, s\<lparr>fs_calls := fs_calls s + 2,
                fs_caps := AList.update i \<lparr>cp_path = lexically_normal path, cp_folder = folder, cp_expires = now + kCapabilityLifetime\<rparr>
                  (cleanup_expired now (fs_caps s))\<rparr>))"

definition resolve_capability :: "'d files_api \<Rightarrow> string \<Rightarrow> 'd files \<Rightarrow> (string + capability) \<times> 'd files" where
  "resolve_capability A i s =
     (if i = [] then (Inl ''Empty capability token'', s)
      else let caps = cleanup_expired (fa_now A (fs_calls s)) (fs_caps s); s = s\<lparr>fs_calls := fs_calls s + 1, fs_caps := caps\<rparr>
           in case map_of caps i of None \<Rightarrow> (Inl ''Capability token expired or invalid'', s) | Some c \<Rightarrow> (Inr c, s))"

section \<open>Items\<close>

record entry_item =
  ei_name :: string
  ei_path :: string
  ei_folder :: bool
  ei_size :: string
  ei_modified :: string
  ei_source :: string
  ei_extension :: string
  ei_id :: string

definition entry_json :: "entry_item \<Rightarrow> json_object" where
  "entry_json i = object_of
     [(''name'', JStr (ei_name i)), (''path'', JStr (ei_path i)), (''isFolder'', JBool (ei_folder i)), (''sizeFormatted'', JStr (ei_size i)),
      (''modifiedFormatted'', JStr (ei_modified i)), (''source'', JStr (ei_source i)), (''extension'', JStr (ei_extension i)),
      (''entryId'', JStr (ei_id i))]"

text \<open>\<open>AttachCapabilities\<close>, in the order of the items.\<close>

fun attach_capabilities :: "'d files_api \<Rightarrow> entry_item list \<Rightarrow> 'd files \<Rightarrow> entry_item list \<times> 'd files" where
  "attach_capabilities A [] s = ([], s)"
| "attach_capabilities A (i # is) s =
     (let (e, s) = issue_capability A (to_wide A (ei_path i)) (ei_folder i) s; (is, s) = attach_capabilities A is s
      in (i\<lparr>ei_id := e\<rparr> # is, s))"

text \<open>
  \<open>FormatSize\<close>: the byte count as a double, divided by 1,024 while it is at least that, printed with one decimal below ten and none
  above; both steps round half to even. The division is exact, so the value is a quotient of naturals.
\<close>

function size_unit :: "nat \<Rightarrow> nat \<Rightarrow> nat \<Rightarrow> nat" where
  "size_unit num den u = (if u < 4 \<and> 1024 * den \<le> num then size_unit num (1024 * den) (u + 1) else u)"
  by pat_completeness auto
termination by (relation "measure (\<lambda>(num, den, u). 4 - u)") auto

declare size_unit.simps [simp del]

definition double_as_nat :: "double \<Rightarrow> nat" where
  "double_as_nat d = (case d of DFin neg m e \<Rightarrow> m * 2 ^ nat e div 2 ^ nat (- e) | _ \<Rightarrow> 0)"

definition size_names :: "string list" where
  "size_names = [''B'', ''KB'', ''MB'', ''GB'', ''TB'']"

definition format_size :: "nat \<Rightarrow> string" where
  "format_size bytes =
     (let v = double_as_nat (double_of_int (int bytes)); u = size_unit v 1 0; den = 1024 ^ u
      in (if u = 0 then nat_dec bytes
          else if 10 * den \<le> v then nat_dec (round_half_even v den)
          else let t = round_half_even (10 * v) den in nat_dec (t div 10) @ ''.'' @ nat_dec (t mod 10))
         @ '' '' @ size_names ! u)"

definition padded :: "nat \<Rightarrow> nat \<Rightarrow> string" where
  "padded w n = replicate (w - length (nat_dec n)) (CHR ''0'') @ nat_dec n"

definition format_modified :: "(nat \<times> nat \<times> nat \<times> nat \<times> nat) option \<Rightarrow> string" where
  "format_modified t =
     (case t of None \<Rightarrow> [] | Some (y, mo, d, h, mi) \<Rightarrow>
        padded 4 y @ ''-'' @ padded 2 mo @ ''-'' @ padded 2 d @ '' '' @ padded 2 h @ '':'' @ padded 2 mi)"

definition extension_of :: "'d files_api \<Rightarrow> wide_string \<Rightarrow> string" where
  "extension_of A name = (let e = extension name in to_utf8 A (if e \<noteq> [] \<and> hd e = DOT then tl e else e))"

definition virtual_folder :: "'d files_api \<Rightarrow> string \<Rightarrow> wide_string \<Rightarrow> string \<Rightarrow> entry_item" where
  "virtual_folder A name path source = \<lparr>ei_name = name, ei_path = to_utf8 A path, ei_folder = True, ei_size = ''Pasta'', ei_modified = [],
     ei_source = source, ei_extension = [], ei_id = []\<rparr>"

section \<open>Listings\<close>

definition kMaxItems :: nat where
  "kMaxItems = 25000"

definition file_entry :: "'d files_api \<Rightarrow> wide_string \<Rightarrow> string \<Rightarrow> found_file \<Rightarrow> entry_item" where
  "file_entry A directory source f = \<lparr>ei_name = to_utf8 A (ff_name f),
     ei_path = to_utf8 A (lexically_normal (append_path directory (ff_name f))), ei_folder = ff_folder f,
     ei_size = (if ff_folder f then ''Pasta'' else format_size (ff_size f)), ei_modified = format_modified (ff_modified f), ei_source = source,
     ei_extension = (if ff_folder f then [] else extension_of A (ff_name f)), ei_id = []\<rparr>"

definition visible :: "found_file \<Rightarrow> bool" where
  "visible f \<longleftrightarrow> ff_name f \<noteq> [DOT] \<and> ff_name f \<noteq> [DOT, DOT] \<and> \<not> ff_hidden f"

text \<open>
  \<open>EnumerateDirectory\<close>: the visible entries, at most the limit, by a stable sort with the folders first and then by name. An empty folder
  of a drive's root is an empty listing, any other failure an error.
\<close>

definition entry_key :: "entry_item \<Rightarrow> nat \<times> string" where
  "entry_key i = (if ei_folder i then 0 else 1, ei_name i)"

definition sort_entries :: "entry_item list \<Rightarrow> entry_item list" where
  "sort_entries is = sort_key entry_key is"

definition enumerate_directory :: "'d files_api \<Rightarrow> wide_string \<Rightarrow> string \<Rightarrow> 'd \<Rightarrow> string + entry_item list" where
  "enumerate_directory A directory source d =
     (if directory = [] then Inl ''Location is unavailable on this system''
      else case fa_find A ((if is_slash (last directory) then directory else directory @ [BACKSLASH]) @ [0x2A]) d of
        Nothing_Found \<Rightarrow> Inr []
      | Find_Failed \<Rightarrow> Inl ''Unable to enumerate the selected Files capability''
      | Found fs \<Rightarrow> Inr (sort_entries (map (file_entry A directory source) (take kMaxItems (filter visible fs)))))"

definition system_volume_root :: "'d files_api \<Rightarrow> wide_string" where
  "system_volume_root A =
     (case fa_windows_dir A of None \<Rightarrow> Workspace_Studio.wide ''C:'' @ [BACKSLASH]
      | Some d \<Rightarrow> if root_path d = [] then Workspace_Studio.wide ''C:'' @ [BACKSLASH] else root_path d)"

definition cloud_drive_root :: "'d files_api \<Rightarrow> wide_string" where
  "cloud_drive_root A =
     (case fa_drive_override A of
        Some p \<Rightarrow> lexically_normal p
      | None \<Rightarrow> if fa_known A Local_App_Data = [] then []
          else lexically_normal (append_path (append_path (fa_known A Local_App_Data) (Workspace_Studio.wide ''CloudOS'')) (Workspace_Studio.wide ''Drive'')))"

definition wsl_host :: wide_string where
  "wsl_host = [BACKSLASH, BACKSLASH] @ Workspace_Studio.wide ''wsl.localhost'' @ [BACKSLASH]"

definition wsl_root :: "'d files_api \<Rightarrow> wide_string" where
  "wsl_root A = (case fa_distros A of [] \<Rightarrow> [] | d # ds \<Rightarrow>
     if to_wide A d = [] then [] else wsl_host @ to_wide A d @ [BACKSLASH])"

definition is_allowed_location :: "string \<Rightarrow> bool" where
  "is_allowed_location l \<longleftrightarrow> l \<in> {''home'', ''desktop'', ''documents'', ''downloads'', ''cloud-drive'', ''windows-c'', ''ubuntu-wsl''} \<or>
     starts_with ''drive:'' l \<or> starts_with ''wsl:'' l"

definition home_items :: "'d files_api \<Rightarrow> entry_item list" where
  "home_items A =
     (let folder = (\<lambda>name path source. if path = [] then [] else [virtual_folder A name path source]) in
      folder ''Documentos'' (fa_known A Documents) ''windows'' @ folder ''Downloads'' (fa_known A Downloads) ''windows''
      @ folder ([CHR 0xC3, CHR 0x81] @ ''rea de Trabalho'') (fa_known A Desktop) ''windows''
      @ folder ''CloudOS Drive'' (cloud_drive_root A) ''cloudDrive''
      @ [virtual_folder A ''Disco Local'' (system_volume_root A) ''windows'']
      @ folder ''Linux / WSL'' (wsl_root A) ''linux'')"

definition drive_path :: "wide_string \<Rightarrow> wide_string" where
  "drive_path p =
     (if length p = 1 then p @ [COLON, BACKSLASH]
      else if length p = 2 \<and> p ! 1 = COLON then p @ [BACKSLASH]
      else if \<not> is_slash (last p) then p @ [BACKSLASH] else p)"

definition location_items :: "'d files_api \<Rightarrow> string \<Rightarrow> 'd \<Rightarrow> string + entry_item list" where
  "location_items A l d =
     (if l = ''desktop'' then enumerate_directory A (fa_known A Desktop) ''windows'' d
      else if l = ''documents'' then enumerate_directory A (fa_known A Documents) ''windows'' d
      else if l = ''downloads'' then enumerate_directory A (fa_known A Downloads) ''windows'' d
      else if l = ''cloud-drive'' then enumerate_directory A (cloud_drive_root A) ''cloudDrive'' d
      else if l = ''windows-c'' then enumerate_directory A (system_volume_root A) ''windows'' d
      else if l = ''ubuntu-wsl'' then enumerate_directory A (wsl_root A) ''linux'' d
      else if starts_with ''drive:'' l then
        (let p = to_wide A (drop 6 l) in if p = [] then Inl ''Unsupported allowlisted location'' else enumerate_directory A (drive_path p) ''windows'' d)
      else if starts_with ''wsl:'' l then enumerate_directory A (wsl_host @ to_wide A (drop 4 l) @ [BACKSLASH]) ''linux'' d
      else Inl ''Unsupported allowlisted location'')"

definition list_location :: "'d files_api \<Rightarrow> string \<Rightarrow> 'd files \<Rightarrow> (string + entry_item list) \<times> 'd files" where
  "list_location A l s =
     (case (if l = ''home'' then Inr (home_items A) else location_items A l (fs_disk s)) of
        Inl err \<Rightarrow> (Inl err, s)
      | Inr is \<Rightarrow> let (is, s) = attach_capabilities A is s in (Inr is, s))"

definition starts_with_path :: "wide_string \<Rightarrow> wide_string \<Rightarrow> bool" where
  "starts_with_path p t \<longleftrightarrow> take (length p) t = p"

definition wsl_prefix :: wide_string where
  "wsl_prefix = [BACKSLASH, BACKSLASH] @ Workspace_Studio.wide ''wsl''"

definition entry_source :: "'d files_api \<Rightarrow> wide_string \<Rightarrow> string" where
  "entry_source A p = (if cloud_drive_root A \<noteq> [] \<and> starts_with_path (cloud_drive_root A) p then ''cloudDrive''
     else if starts_with_path wsl_prefix p then ''linux'' else ''windows'')"

definition list_entry :: "'d files_api \<Rightarrow> string \<Rightarrow> 'd files \<Rightarrow> (string + entry_item list) \<times> 'd files" where
  "list_entry A i s =
     (case resolve_capability A i s of
        (Inl err, s) \<Rightarrow> (Inl err, s)
      | (Inr c, s) \<Rightarrow>
          if \<not> cp_folder c then (Inl ''Files entry capability does not reference a folder'', s)
          else if fa_attributes A (cp_path c) (fs_disk s) \<noteq> Some True then (Inl ''Folder capability target is no longer available'', s)
          else (case enumerate_directory A (cp_path c) (entry_source A (cp_path c)) (fs_disk s) of
                 Inl err \<Rightarrow> (Inl err, s)
               | Inr is \<Rightarrow> let (is, s) = attach_capabilities A is s in (Inr is, s)))"

definition open_entry :: "'d files_api \<Rightarrow> string \<Rightarrow> 'd files \<Rightarrow> string option \<times> 'd files" where
  "open_entry A i s =
     (case resolve_capability A i s of
        (Inl err, s) \<Rightarrow> (Some err, s)
      | (Inr c, s) \<Rightarrow>
          if cp_folder c then (Some ''Folder capabilities must be navigated with files.listEntry'', s)
          else if fa_attributes A (cp_path c) (fs_disk s) \<noteq> Some False then (Some ''File capability target is no longer available'', s)
          else let (ok, d) = fa_open A (cp_path c) (fs_disk s)
               in (if ok then None else Some ''Windows Shell could not open the capability target'', s\<lparr>fs_disk := d\<rparr>))"

end
