(* ===== verification/File_Changes.thy ===== *)
theory File_Changes
  imports File_Service
begin

text \<open>
  The operations of \<open>file_service_v21.cpp\<close> that change the disk: folders, names, deletion, the start of a copy or a move; and the list of
  drives.
\<close>

section \<open>Protected paths\<close>

definition same_folded_path :: "'d files_api \<Rightarrow> wide_string \<Rightarrow> wide_string \<Rightarrow> bool" where
  "same_folded_path A p q \<longleftrightarrow> map (fa_fold A) p = map (fa_fold A) q"

text \<open>
  The folder itself or something in it: \<open>_wcsicmp\<close>, or \<open>_wcsnicmp\<close> with a slash behind. A text that equals the folder's name in its full length
  and ends there has no slash behind it: \<open>operator[]\<close> gives the terminator.
\<close>

definition within_folder :: "'d files_api \<Rightarrow> wide_string \<Rightarrow> wide_string \<Rightarrow> bool" where
  "within_folder A folder p \<longleftrightarrow> same_folded_path A p folder \<or>
     same_folded_path A (take (length folder) p) folder \<and> length folder < length p \<and> is_slash (p ! length folder)"

definition is_protected_system_path :: "'d files_api \<Rightarrow> wide_string \<Rightarrow> bool" where
  "is_protected_system_path A path =
     (path = [] \<or>
      (let p = lexically_normal path; folder = (\<lambda>k. fa_known A k \<noteq> [] \<and> within_folder A (lexically_normal (fa_known A k)) p) in
       parent_path p = p \<or> relative_path p = [] \<or> length p \<le> 3 \<or>
       folder Windows_Folder \<or> folder Program_Files \<or> folder Program_Files_X86 \<or>
       fa_known A User_Profiles \<noteq> [] \<and> same_folded_path A p (lexically_normal (fa_known A User_Profiles))))"

section \<open>Folders and names\<close>

definition source_of :: "wide_string \<Rightarrow> string" where
  "source_of p = (if starts_with_path wsl_prefix p then ''linux'' else ''windows'')"

definition not_a_folder_text :: string where
  "not_a_folder_text = ''O destino especificado n'' @ [CHR 0xC3, CHR 0xA3] @ ''o '' @ [CHR 0xC3, CHR 0xA9] @ '' uma pasta''"

definition bad_folder_name_text :: string where
  "bad_folder_name_text = ''Nome de pasta inv'' @ [CHR 0xC3, CHR 0xA1] @ ''lido ou reservado pelo sistema''"

definition folder_exists_text :: string where
  "folder_exists_text = ''Uma pasta ou arquivo com este nome j'' @ [CHR 0xC3, CHR 0xA1] @ '' existe''"

definition create_folder :: "'d files_api \<Rightarrow> string \<Rightarrow> string \<Rightarrow> 'd files \<Rightarrow> (string + entry_item) \<times> 'd files" where
  "create_folder A parent name s =
     (case resolve_capability A parent s of
        (Inl err, s) \<Rightarrow> (Inl err, s)
      | (Inr c, s) \<Rightarrow>
          if \<not> cp_folder c then (Inl not_a_folder_text, s)
          else if refused_name name then (Inl bad_folder_name_text, s)
          else let target = append_path (cp_path c) (to_wide A name) in
            if fa_exists A target (fs_disk s) then (Inl folder_exists_text, s)
            else (case fa_create A target (fs_disk s) of ((created, err), d) \<Rightarrow>
              let s = s\<lparr>fs_disk := d\<rparr> in
              if \<not> created \<or> err \<noteq> None then (Inl (''Falha ao criar pasta: '' @ or_else err []), s)
              else let (i, s) = issue_capability A target True s in
                (Inr \<lparr>ei_name = name, ei_path = to_utf8 A (lexically_normal target), ei_folder = True, ei_size = ''Pasta'',
                   ei_modified = ''Agora'', ei_source = source_of (cp_path c), ei_extension = [], ei_id = i\<rparr>, s)))"

definition operation_text :: string where
  "operation_text = ''Opera'' @ [CHR 0xC3, CHR 0xA7, CHR 0xC3, CHR 0xA3] @ ''o ''"

definition blocked_text :: string where
  "blocked_text = operation_text @ ''bloqueada: n'' @ [CHR 0xC3, CHR 0xA3] @ ''o '' @ [CHR 0xC3, CHR 0xA9] @ '' permitido ''"

definition rename_item :: "'d files_api \<Rightarrow> string \<Rightarrow> string \<Rightarrow> 'd files \<Rightarrow> (string + entry_item) \<times> 'd files" where
  "rename_item A i name s =
     (case resolve_capability A i s of
        (Inl err, s) \<Rightarrow> (Inl err, s)
      | (Inr c, s) \<Rightarrow>
          if is_protected_system_path A (cp_path c) then (Inl (blocked_text @ ''renomear itens de sistema protegidos''), s)
          else if refused_name name then (Inl (''Novo nome inv'' @ [CHR 0xC3, CHR 0xA1] @ ''lido ou reservado pelo sistema''), s)
          else if parent_path (cp_path c) = []
            then (Inl (''N'' @ [CHR 0xC3, CHR 0xA3] @ ''o '' @ [CHR 0xC3, CHR 0xA9] @ '' permitido renomear a raiz do volume''), s)
          else let target = append_path (parent_path (cp_path c)) (to_wide A name) in
            if fa_exists A target (fs_disk s) then (Inl (''J'' @ [CHR 0xC3, CHR 0xA1] @ '' existe um item com este nome''), s)
            else (case fa_rename A (cp_path c) target (fs_disk s) of (err, d) \<Rightarrow>
              let s = s\<lparr>fs_disk := d\<rparr> in
              case err of
                Some e \<Rightarrow> (Inl (''Falha ao renomear: '' @ e), s)
              | None \<Rightarrow>
                  let (n, s) = issue_capability A target (cp_folder c) s in
                  (Inr \<lparr>ei_name = name, ei_path = to_utf8 A (lexically_normal target), ei_folder = cp_folder c,
                     ei_size = (if cp_folder c then ''Pasta'' else ''Arquivo''), ei_modified = ''Agora'', ei_source = source_of target,
                     ei_extension = (if cp_folder c then [] else extension_of A (file_name target)), ei_id = n\<rparr>, s)))"

section \<open>Deletion\<close>

text \<open>
  An entry whose capability is not found is passed over; a protected one ends the request; without \<open>permanent\<close> the recycle bin is tried
  first, and when that fails or is aborted the item is removed for good. The first component is the error text at the end.
\<close>

definition remove_entry :: "'d files_api \<Rightarrow> bool \<Rightarrow> wide_string \<Rightarrow> 'd \<Rightarrow> bool \<times> 'd" where
  "remove_entry A permanent path d =
     (let (recycled, d) = (if permanent then (False, d) else fa_recycle A path d)
      in if recycled then (True, d) else let (err, d) = fa_remove_all A path d in (err = None, d))"

fun delete_loop :: "'d files_api \<Rightarrow> bool \<Rightarrow> string list \<Rightarrow> string list \<Rightarrow> string \<Rightarrow> 'd files \<Rightarrow> (bool \<times> string list \<times> string) \<times> 'd files" where
  "delete_loop A permanent [] deleted err s = ((deleted \<noteq> [], deleted, err), s)"
| "delete_loop A permanent (i # is) deleted err s =
     (case resolve_capability A i s of
        (Inl e, s) \<Rightarrow> delete_loop A permanent is deleted e s
      | (Inr c, s) \<Rightarrow>
          if is_protected_system_path A (cp_path c)
          then ((False, deleted, blocked_text @ ''excluir caminhos de sistema protegidos''), s)
          else let (ok, d) = remove_entry A permanent (cp_path c) (fs_disk s)
               in delete_loop A permanent is (if ok then deleted @ [i] else deleted) err (s\<lparr>fs_disk := d\<rparr>))"

definition delete_items :: "'d files_api \<Rightarrow> string list \<Rightarrow> bool \<Rightarrow> 'd files \<Rightarrow> (string + string list) \<times> 'd files" where
  "delete_items A is permanent s =
     (if is = [] then (Inl (''Nenhum item informado para exclus'' @ [CHR 0xC3, CHR 0xA3] @ ''o''), s)
      else let ((ok, deleted, err), s) = delete_loop A permanent is [] [] s in (if ok then Inr deleted else Inl err, s))"

section \<open>Copy and move\<close>

text \<open>What the job works on: the sources, the destination, the kind and the strategy.\<close>

record copy_task =
  ct_sources :: "wide_string list"
  ct_destination :: wide_string
  ct_move :: bool
  ct_strategy :: string

fun resolve_sources :: "'d files_api \<Rightarrow> string list \<Rightarrow> 'd files \<Rightarrow> wide_string list \<times> 'd files" where
  "resolve_sources A [] s = ([], s)"
| "resolve_sources A (i # is) s =
     (let (r, s) = resolve_capability A i s; (ps, s) = resolve_sources A is s
      in ((case r of Inl err \<Rightarrow> ps | Inr c \<Rightarrow> cp_path c # ps), s))"

text \<open>
  \<open>CopyOrMoveItemsAsync\<close>: the job is submitted with its task. A submission that fails gives the empty identifier, which is the refusal; the
  error text is then the one the last source left.
\<close>

fun last_error :: "'d files_api \<Rightarrow> string list \<Rightarrow> string \<Rightarrow> 'd files \<Rightarrow> string" where
  "last_error A [] err s = err"
| "last_error A (i # is) err s = (case resolve_capability A i s of (Inl e, s) \<Rightarrow> last_error A is e s | (Inr c, s) \<Rightarrow> last_error A is err s)"

definition copy_or_move :: "'d files_api \<Rightarrow> string list \<Rightarrow> nat \<Rightarrow> string \<Rightarrow> string list \<Rightarrow> string \<Rightarrow> string \<Rightarrow> manager \<Rightarrow> 'd files \<Rightarrow>
    ((string + string \<times> copy_task) \<times> manager) \<times> 'd files" where
  "copy_or_move A order now kind sources destination strategy m s =
     (case resolve_capability A destination s of
        (Inl err, s) \<Rightarrow> ((Inl err, m), s)
      | (Inr c, s) \<Rightarrow>
          if \<not> cp_folder c then ((Inl (''O destino selecionado n'' @ [CHR 0xC3, CHR 0xA3] @ ''o '' @ [CHR 0xC3, CHR 0xA9] @ '' uma pasta''), m), s)
          else let (paths, s') = resolve_sources A sources s in
            if paths = [] then ((Inl (''Nenhum arquivo de origem v'' @ [CHR 0xC3, CHR 0xA1] @ ''lido encontrado''), m), s')
            else let (i, m) = submit_job order now (if kind = ''move'' then ''file_move'' else ''file_copy'') True m in
              ((if i = [] then Inl (last_error A sources [] s)
                else Inr (i, \<lparr>ct_sources = paths, ct_destination = cp_path c, ct_move = (kind = ''move''),
                       ct_strategy = (if strategy = [] then ''replace'' else strategy)\<rparr>), m), s'))"

section \<open>Drives\<close>

record drive_item =
  dv_mount :: string
  dv_label :: string
  dv_type :: string
  dv_total :: nat
  dv_free :: nat
  dv_total_text :: string
  dv_free_text :: string
  dv_id :: string

definition drive_json :: "drive_item \<Rightarrow> json_object" where
  "drive_json d = object_of
     [(''mountPath'', JStr (dv_mount d)), (''label'', JStr (dv_label d)), (''driveType'', JStr (dv_type d)),
      (''totalBytes'', JInt (sint (word_of_nat (dv_total d) :: u64))), (''freeBytes'', JInt (sint (word_of_nat (dv_free d) :: u64))),
      (''totalFormatted'', JStr (dv_total_text d)), (''freeFormatted'', JStr (dv_free_text d)), (''entryId'', JStr (dv_id d))]"

text \<open>The types of \<open>GetDriveTypeW\<close>: 0 unknown, 1 no root, 2 removable, 3 fixed, 4 remote, 5 CD.\<close>

definition volume_item :: "'d files_api \<Rightarrow> volume \<Rightarrow> drive_item" where
  "volume_item A v =
     (let label = (if to_utf8 A (vo_name v) = [] then (if vo_type v = 2 then ''Unidade USB'' else ''Disco Local'') else to_utf8 A (vo_name v))
      in \<lparr>dv_mount = to_utf8 A (vo_root v), dv_label = label @ '' ('' @ to_utf8 A (take 2 (vo_root v)) @ '')'',
           dv_type = (if vo_type v = 2 then ''removable'' else if vo_type v = 5 then ''cdrom'' else if vo_type v = 4 then ''network'' else ''fixed''),
           dv_total = vo_total v, dv_free = vo_free v, dv_total_text = format_size (vo_total v), dv_free_text = format_size (vo_free v), dv_id = []\<rparr>)"

fun list_volumes :: "'d files_api \<Rightarrow> volume list \<Rightarrow> 'd files \<Rightarrow> drive_item list \<times> 'd files" where
  "list_volumes A [] s = ([], s)"
| "list_volumes A (v # vs) s =
     (if vo_type v \<le> 1 then list_volumes A vs s
      else let (i, s) = issue_capability A (vo_root v) True s; (ds, s) = list_volumes A vs s
           in ((volume_item A v)\<lparr>dv_id := i\<rparr> # ds, s))"

fun list_distros :: "'d files_api \<Rightarrow> (string \<times> string) list \<Rightarrow> 'd files \<Rightarrow> drive_item list \<times> 'd files" where
  "list_distros A [] s = ([], s)"
| "list_distros A ((name, state) # ds) s =
     (let path = wsl_host @ to_wide A name in
      if fa_attributes A path (fs_disk s) = None then list_distros A ds s
      else let (i, s) = issue_capability A path True s; (is, s) = list_distros A ds s
           in (\<lparr>dv_mount = to_utf8 A path, dv_label = name @ '' (WSL Linux)'', dv_type = ''wsl'', dv_total = 0, dv_free = 0,
                 dv_total_text = ''WSL2 VHDX'', dv_free_text = state, dv_id = i\<rparr> # is, s))"

definition list_drives :: "'d files_api \<Rightarrow> 'd files \<Rightarrow> (string + drive_item list) \<times> 'd files" where
  "list_drives A s =
     (case fa_volumes A of
        None \<Rightarrow> (Inl ''Falha ao obter lista de unidades'', s)
      | Some vs \<Rightarrow> let (ds, s) = list_volumes A vs s; (ws, s) = list_distros A (fa_distro_states A) s in (Inr (ds @ ws), s))"

end
