(* ===== verification/File_Copy.thy ===== *)
theory File_Copy
  imports File_Changes
begin

text \<open>
  The function of the job that \<open>CopyOrMoveItemsAsync\<close> submits. Here the disk is a map from the files that paths lead to (\<open>io_key\<close> names the
  file of a path) to their content. What may happen at a call, the flag of the cancellation included, is a function of the number of calls
  made before it; operations on folders are those of the library.
\<close>

section \<open>The disk and the calls\<close>

datatype node = Data string | Folder

type_synonym disk = "wide_string \<rightharpoonup> node"

text \<open>
  \<open>io_read\<close> is the number of bytes after which a read fails, \<open>io_write\<close> the number a failing write still puts down, \<open>None\<close> without failure.
  The queries of the file system are told apart by the calls made before the item and a number within it: \<open>io_probe\<close> says whether
  \<open>fs::exists\<close> succeeds, \<open>io_regular\<close> and \<open>io_regular_first\<close> whether \<open>fs::is_regular_file\<close> does and \<open>io_size\<close> whether \<open>fs::file_size\<close> does.
  The code asks for no error code: a query that fails is a \<open>false\<close>, a size that fails is the largest number.
\<close>

record copy_io =
  io_key :: "wide_string \<Rightarrow> wide_string"
  io_utf8 :: "wide_string \<Rightarrow> string"
  io_cancel :: "nat \<Rightarrow> bool"
  io_open_in :: "nat \<Rightarrow> bool"
  io_open_out :: "nat \<Rightarrow> bool"
  io_read :: "nat \<Rightarrow> nat option"
  io_write :: "nat \<Rightarrow> nat option"
  io_remove :: "nat \<Rightarrow> bool"
  io_probe :: "nat \<Rightarrow> nat \<Rightarrow> bool"
  io_regular :: "nat \<Rightarrow> bool"
  io_regular_first :: "nat \<Rightarrow> bool"
  io_size :: "nat \<Rightarrow> bool"
  io_rename :: "wide_string \<Rightarrow> wide_string \<Rightarrow> disk \<Rightarrow> string option \<times> disk"
  io_copy_tree :: "wide_string \<Rightarrow> wide_string \<Rightarrow> disk \<Rightarrow> string option \<times> disk"
  io_remove_all :: "wide_string \<Rightarrow> disk \<Rightarrow> string option \<times> disk"

record copy_state =
  cs_disk :: disk
  cs_calls :: nat
  cs_copied :: u64
  cs_progress :: "double list"

definition present :: "copy_io \<Rightarrow> disk \<Rightarrow> wide_string \<Rightarrow> bool" where
  "present E d p \<longleftrightarrow> d (io_key E p) \<noteq> None"

definition exists_on :: "copy_io \<Rightarrow> nat \<Rightarrow> nat \<Rightarrow> disk \<Rightarrow> wide_string \<Rightarrow> bool" where
  "exists_on E c j d p \<longleftrightarrow> io_probe E c j \<and> present E d p"

definition data_of :: "copy_io \<Rightarrow> disk \<Rightarrow> wide_string \<Rightarrow> string option" where
  "data_of E d p = (case d (io_key E p) of Some (Data t) \<Rightarrow> Some t | _ \<Rightarrow> None)"

definition called :: "nat \<Rightarrow> copy_state \<Rightarrow> copy_state" where
  "called n s = s\<lparr>cs_calls := cs_calls s + n\<rparr>"

definition put_disk :: "disk \<Rightarrow> copy_state \<Rightarrow> copy_state" where
  "put_disk d s = s\<lparr>cs_disk := d\<rparr>"

section \<open>Progress\<close>

definition rounded_ratio :: "nat \<Rightarrow> nat \<Rightarrow> double" where
  "rounded_ratio num den = (case round_binary64 False num den of StrtodOk d \<Rightarrow> d | StrtodErange \<Rightarrow> DFin False 0 (- 1074))"

definition percent_of :: "nat \<Rightarrow> nat \<Rightarrow> double" where
  "percent_of a b =
     (case rounded_ratio (double_as_nat (double_of_int (int a))) (double_as_nat (double_of_int (int b))) of
        DFin neg m e \<Rightarrow> rounded_ratio (100 * m * 2 ^ nat e) (2 ^ nat (- e))
      | d \<Rightarrow> d)"

definition report :: "nat \<Rightarrow> nat \<Rightarrow> copy_state \<Rightarrow> copy_state" where
  "report a b s = s\<lparr>cs_progress := cs_progress s @ [percent_of a b]\<rparr>"

section \<open>A regular file\<close>

definition kChunkSize :: nat where
  "kChunkSize = 1024 * 1024"

text \<open>A write; after one that failed the stream takes no more. What was read counts as copied either way.\<close>

definition write_chunk :: "copy_io \<Rightarrow> u64 \<Rightarrow> wide_string \<Rightarrow> string \<Rightarrow> bool \<Rightarrow> copy_state \<Rightarrow> bool \<times> copy_state" where
  "write_chunk E whole dp got broken s =
     (let kept = (if broken then [] else case io_write E (cs_calls s) of None \<Rightarrow> got | Some k \<Rightarrow> take k got);
          old = (case data_of E (cs_disk s) dp of Some t \<Rightarrow> t | None \<Rightarrow> []);
          now = called 1 (s\<lparr>cs_disk := (cs_disk s)(io_key E dp \<mapsto> Data (old @ kept)), cs_copied := cs_copied s + word_of_nat (length got)\<rparr>)
      in (broken \<or> io_write E (cs_calls s) \<noteq> None,
          if 0 < whole then report (unat (cs_copied now)) (unat whole) now else now))"

text \<open>
  The loop over the chunks, on the data of the source that is left; it ends at a short read. The flag of the result says it was cancelled.
\<close>

function chunk_loop :: "copy_io \<Rightarrow> u64 \<Rightarrow> wide_string \<Rightarrow> string \<Rightarrow> bool \<Rightarrow> copy_state \<Rightarrow> bool \<times> copy_state" where
  "chunk_loop E whole dp data broken s =
     (if io_cancel E (cs_calls s) then (True, called 1 s)
      else let want = take kChunkSize data;
               got = (case io_read E (cs_calls s + 1) of None \<Rightarrow> want | Some k \<Rightarrow> take k want);
               (broken', s') = (if got = [] then (broken, called 2 s) else write_chunk E whole dp got broken (called 2 s))
           in if length got < kChunkSize then (False, s') else chunk_loop E whole dp (drop kChunkSize data) broken' s')"
  by pat_completeness auto
termination
  by (relation "measure (\<lambda>(E, whole, dp, data, broken, s). length data)")
    (auto simp: kChunkSize_def min_def split: option.splits if_splits)

declare chunk_loop.simps [simp del]

definition remove_file :: "copy_io \<Rightarrow> wide_string \<Rightarrow> copy_state \<Rightarrow> copy_state" where
  "remove_file E p s = called 1 (if io_remove E (cs_calls s) then put_disk ((cs_disk s)(io_key E p := None)) s else s)"

definition cancelled_text :: string where
  "cancelled_text = operation_text @ ''cancelada pelo usu'' @ [CHR 0xC3, CHR 0xA1] @ ''rio''"

definition io_text :: "copy_io \<Rightarrow> wide_string \<Rightarrow> string" where
  "io_text E t = (if t = [] then [] else io_utf8 E t)"

text \<open>The source is opened, the destination is opened and emptied, the data the source then has is copied.\<close>

definition copy_file :: "copy_io \<Rightarrow> copy_task \<Rightarrow> u64 \<Rightarrow> wide_string \<Rightarrow> wide_string \<Rightarrow> copy_state \<Rightarrow> string option \<times> copy_state" where
  "copy_file E t whole sp dp s =
     (if \<not> io_open_in E (cs_calls s) then (Some (''Erro ao abrir origem: '' @ io_text E (file_name sp)), called 1 s)
      else if \<not> io_open_out E (cs_calls s + 1) \<or> cs_disk s (io_key E dp) = Some Folder
        then (Some (''Erro ao criar destino: '' @ io_text E (file_name dp)), called 2 s)
      else let d = (cs_disk s)(io_key E dp \<mapsto> Data []);
               (cancelled, s') = chunk_loop E whole dp (case data_of E d sp of Some x \<Rightarrow> x | None \<Rightarrow> []) False (called 2 (put_disk d s))
           in if cancelled then (Some cancelled_text, remove_file E dp s')
              else (None, if ct_move t then remove_file E sp s' else s'))"

section \<open>Anything else\<close>

definition copy_other :: "copy_io \<Rightarrow> copy_task \<Rightarrow> wide_string \<Rightarrow> wide_string \<Rightarrow> copy_state \<Rightarrow> string option \<times> copy_state" where
  "copy_other E t sp dp s =
     (let (err, d) =
        (if ct_move t then
           (case io_rename E sp dp (cs_disk s) of
              (None, d) \<Rightarrow> (None, d)
            | (Some e, d) \<Rightarrow> (case io_copy_tree E sp dp d of (Some e, d) \<Rightarrow> (Some e, d) | (None, d) \<Rightarrow> io_remove_all E sp d))
         else io_copy_tree E sp dp (cs_disk s))
      in (map_option (\<lambda>e. ''Erro ao processar '' @ io_text E (file_name sp) @ '': '' @ e) err, put_disk d s))"

section \<open>The destination\<close>

text \<open>The counter of the search is an \<open>int\<close>, here the number of its increments; it wraps after 2,147,483,647.\<close>

definition counter_value :: "nat \<Rightarrow> int" where
  "counter_value n = sint (word_of_nat n :: 32 word)"

definition candidate :: "wide_string \<Rightarrow> wide_string \<Rightarrow> nat \<Rightarrow> wide_string" where
  "candidate st ext n = st @ Workspace_Studio.wide ('' ('' @ int_dec (counter_value n) @ '')'') @ ext"

partial_function (option) free_name :: "copy_io \<Rightarrow> nat \<Rightarrow> wide_string \<Rightarrow> wide_string \<Rightarrow> wide_string \<Rightarrow> disk \<Rightarrow> wide_string \<Rightarrow> nat \<Rightarrow> wide_string option" where
  "free_name E c dest st ext d dp n =
     (if \<not> exists_on E c n d dp then Some dp else free_name E c dest st ext d (append_path dest (candidate st ext n)) (n + 1))"

definition keeps_both :: "copy_task \<Rightarrow> bool" where
  "keeps_both t \<longleftrightarrow> ct_strategy t = ''keep_both'' \<or> ct_strategy t = ''keepBoth''"

definition plain_target :: "copy_task \<Rightarrow> wide_string \<Rightarrow> wide_string" where
  "plain_target t sp = append_path (ct_destination t) (file_name sp)"

text \<open>The path to write, \<open>Some None\<close> when the item is skipped; \<open>None\<close> is a search that does not end.\<close>

definition choose_target :: "copy_io \<Rightarrow> nat \<Rightarrow> copy_task \<Rightarrow> wide_string \<Rightarrow> disk \<Rightarrow> wide_string option option" where
  "choose_target E c t sp d =
     (if \<not> exists_on E c 0 d (plain_target t sp) then Some (Some (plain_target t sp))
      else if ct_strategy t = ''skip'' then Some None
      else if keeps_both t then map_option Some (free_name E c (ct_destination t) (stem sp) (extension sp) d (plain_target t sp) 1)
      else Some (Some (plain_target t sp)))"

section \<open>The job\<close>

definition copy_item :: "copy_io \<Rightarrow> copy_task \<Rightarrow> u64 \<Rightarrow> wide_string \<Rightarrow> wide_string \<Rightarrow> copy_state \<Rightarrow> string option \<times> copy_state" where
  "copy_item E t whole sp dp s =
     (if io_regular E (cs_calls s) \<and> data_of E (cs_disk s) sp \<noteq> None then copy_file E t whole sp dp s else copy_other E t sp dp s)"

fun copy_loop :: "copy_io \<Rightarrow> copy_task \<Rightarrow> u64 \<Rightarrow> nat \<Rightarrow> wide_string list \<Rightarrow> copy_state \<Rightarrow> (string option \<times> copy_state) option" where
  "copy_loop E t whole ready [] s = Some (None, s)"
| "copy_loop E t whole ready (sp # sps) s =
     (if io_cancel E (cs_calls s) then Some (Some cancelled_text, called 1 s)
      else case choose_target E (cs_calls s) t sp (cs_disk s) of
        None \<Rightarrow> None
      | Some None \<Rightarrow> copy_loop E t whole (ready + 1) sps (called 1 s)
      | Some (Some dp) \<Rightarrow>
          (case copy_item E t whole sp dp (called 1 s) of
             (Some err, s) \<Rightarrow> Some (Some err, s)
           | (None, s) \<Rightarrow> copy_loop E t whole (ready + 1) sps
               (if whole = 0 then report (ready + 1) (length (ct_sources t)) s else s)))"

definition size_of :: "copy_io \<Rightarrow> disk \<Rightarrow> nat \<Rightarrow> wide_string \<Rightarrow> u64" where
  "size_of E d i p =
     (case data_of E d p of
        Some x \<Rightarrow> if \<not> io_regular_first E i then 0 else if io_size E i then word_of_nat (length x) else - 1
      | None \<Rightarrow> 0)"

definition total_size :: "copy_io \<Rightarrow> disk \<Rightarrow> wide_string list \<Rightarrow> u64" where
  "total_size E d sps = sum_list (map (\<lambda>(i, p). size_of E d i p) (List.enumerate 0 sps))"

definition start_copy :: "disk \<Rightarrow> copy_state" where
  "start_copy d = \<lparr>cs_disk = d, cs_calls = 0, cs_copied = 0, cs_progress = []\<rparr>"

definition run_copy :: "copy_io \<Rightarrow> copy_task \<Rightarrow> disk \<Rightarrow> (string option \<times> copy_state) option" where
  "run_copy E t d = copy_loop E t (total_size E d (ct_sources t)) 0 (ct_sources t) (start_copy d)"

text \<open>What the job manager gets.\<close>

definition copy_outcome :: "string option \<Rightarrow> job_outcome" where
  "copy_outcome err = (case err of None \<Rightarrow> JobReturns True [] | Some e \<Rightarrow> JobReturns False e)"

end
