(* ===== verification/Path_Facts.thy ===== *)
theory Path_Facts
  imports Lexical_Path
begin

text \<open>
  Facts on paths: a plain name, without slashes and colons, appended to a folder stays in it; the names of a path are plain; a wide text
  determines the bytes it was made from.
\<close>

section \<open>Plain names\<close>

definition plain :: "wide_string \<Rightarrow> bool" where
  "plain n \<longleftrightarrow> (\<forall>c \<in> set n. \<not> is_slash c \<and> c \<noteq> COLON)"

lemma plain_append [simp]: "plain (a @ b) \<longleftrightarrow> plain a \<and> plain b"
  by (auto simp: plain_def)

lemma plain_Nil [simp]: "plain []"
  by (simp add: plain_def)

lemma plain_nth: "plain n \<Longrightarrow> i < length n \<Longrightarrow> \<not> is_slash (n ! i) \<and> n ! i \<noteq> COLON"
  by (simp add: plain_def)

lemma plain_no_root: "plain n \<Longrightarrow> root_name_length n = 0 \<and> \<not> has_drive n"
  using plain_nth [of n 0] plain_nth [of n 1] by (cases "n = []") (auto simp: root_name_length_def has_drive_def)

lemma plain_parts: "plain n \<Longrightarrow> root_name n = [] \<and> after_root_name n = n \<and> \<not> has_root_directory n \<and> \<not> is_absolute n"
  using plain_no_root [of n] by (cases n) (auto simp: root_name_def after_root_name_def has_root_directory_def is_absolute_def plain_def)

text \<open>The folder with the separator that \<open>operator/\<close> puts behind it.\<close>

definition folder_text :: "wide_string \<Rightarrow> wide_string" where
  "folder_text a = (if after_root_name a = [] then (if 3 \<le> root_name_length a then a @ [BACKSLASH] else a)
     else if is_slash (last a) then a else a @ [BACKSLASH])"

lemma append_plain: "plain n \<Longrightarrow> append_path a n = folder_text a @ n"
  using plain_parts [of n] by (simp add: append_path_def folder_text_def)

lemma append_plain_inject: "plain m \<Longrightarrow> plain n \<Longrightarrow> append_path a m = append_path a n \<longleftrightarrow> m = n"
  by (simp add: append_plain)

section \<open>The names of a path\<close>

lemma file_name_no_slash: "c \<in> set (file_name p) \<Longrightarrow> \<not> is_slash c"
  by (auto simp: file_name_def last_part_def dest: set_takeWhileD)

lemma plain_file_name: "COLON \<notin> set (file_name p) \<Longrightarrow> plain (file_name p)"
  using file_name_no_slash [of _ p] by (auto simp: plain_def)

lemma plain_plain_name: "plain (plain_name p)"
  using file_name_no_slash [of _ p] by (auto simp: plain_def plain_name_def dest: set_takeWhileD)

lemma plain_stem: "plain (stem p)" and plain_extension: "plain (extension p)"
  using plain_plain_name [of p] by (auto simp: plain_def stem_def extension_def dest: in_set_takeD in_set_dropD)

lemma stem_extension: "COLON \<notin> set (file_name p) \<Longrightarrow> stem p @ extension p = file_name p"
proof -
  assume "COLON \<notin> set (file_name p)"
  hence "plain_name p = file_name p" unfolding plain_name_def by (subst takeWhile_eq_all_conv) auto
  thus ?thesis by (simp add: stem_def extension_def)
qed

section \<open>Wide texts\<close>

lemma wide_char_inj: "(word_of_nat (of_char c) :: 16 word) = word_of_nat (of_char d) \<longleftrightarrow> c = d"
proof
  assume "(word_of_nat (of_char c) :: 16 word) = word_of_nat (of_char d)"
  hence "unat (word_of_nat (of_char c) :: 16 word) = unat (word_of_nat (of_char d) :: 16 word)" by simp
  moreover have "of_char x < (2::nat) ^ 16" for x
    using nat_of_char_less_256 by (rule order.strict_trans) simp
  ultimately show "c = d" by (simp add: unat_of_nat take_bit_nat_eq_self)
qed simp

lemma wide_inject: "Workspace_Studio.wide a = Workspace_Studio.wide b \<longleftrightarrow> a = b"
  unfolding Workspace_Studio.wide_def by (rule inj_map_eq_map) (auto intro!: injI simp: wide_char_inj)

lemma plain_wide: "\<forall>c \<in> set s. c \<noteq> CHR ''/'' \<and> c \<noteq> CHR 0x5C \<and> c \<noteq> CHR '':'' \<Longrightarrow> plain (Workspace_Studio.wide s)"
proof -
  have "is_slash (word_of_nat (of_char c)) \<longleftrightarrow> c = CHR ''/'' \<or> c = CHR 0x5C" "(word_of_nat (of_char c) :: 16 word) = COLON \<longleftrightarrow> c = CHR '':''" for c
    using wide_char_inj [of c "CHR ''/''"] wide_char_inj [of c "CHR 0x5C"] wide_char_inj [of c "CHR '':''"]
    by (auto simp: is_slash_def path_chars)
  moreover assume "\<forall>c \<in> set s. c \<noteq> CHR ''/'' \<and> c \<noteq> CHR 0x5C \<and> c \<noteq> CHR '':''"
  ultimately show ?thesis by (auto simp: plain_def Workspace_Studio.wide_def)
qed

end
