(* ===== verification/Copy_Facts.thy ===== *)
theory Copy_Facts
  imports File_Copy Path_Facts
begin

text \<open>
  Facts on the function of the copy job: the search for a free name ends and stays in the folder; the loop over the chunks puts the data
  down; each operation touches only the file it is given; without faults the job is its specification, a function of the disk.
\<close>

section \<open>Free names\<close>

lemma counter_value_inject: "counter_value m = counter_value n \<longleftrightarrow> m mod 2 ^ 32 = n mod 2 ^ 32"
proof -
  have "counter_value m = counter_value n \<longleftrightarrow> (word_of_nat m :: 32 word) = word_of_nat n"
    unfolding counter_value_def by (metis of_int_sint scast_id)
  also have "\<dots> \<longleftrightarrow> m mod 2 ^ 32 = n mod 2 ^ 32" by (simp add: word_of_nat_eq_iff take_bit_eq_mod)
  finally show ?thesis .
qed

lemma int_dec_inject: "int_dec a = int_dec b \<longleftrightarrow> a = b"
proof -
  have "\<not> is_digit CHR ''-''" by (simp add: is_digit_def)
  then have minus: "nat_dec n \<noteq> CHR ''-'' # cs" for n cs using nat_dec_digits [of n] by (metis list.set_intros(1))
  show ?thesis by (auto simp: int_dec_def nat_dec_inject minus minus [symmetric] split: if_splits)
qed

lemma candidate_inject: "candidate st ext m = candidate st ext n \<longleftrightarrow> m mod 2 ^ 32 = n mod 2 ^ 32"
  by (simp add: candidate_def wide_inject int_dec_inject counter_value_inject)

lemma plain_candidate: "plain st \<Longrightarrow> plain ext \<Longrightarrow> plain (candidate st ext n)"
proof -
  have "plain (Workspace_Studio.wide ('' ('' @ int_dec i @ '')''))" for i
    using nat_dec_digits [of "nat i"] nat_dec_digits [of "nat (- i)"] by (intro plain_wide) (auto simp: is_digit_def int_dec_def)
  thus "plain st \<Longrightarrow> plain ext \<Longrightarrow> plain (candidate st ext n)" by (simp add: candidate_def)
qed

definition next_path :: "wide_string \<Rightarrow> wide_string \<Rightarrow> wide_string \<Rightarrow> nat \<Rightarrow> wide_string" where
  "next_path dest st ext n = append_path dest (candidate st ext n)"

lemma next_path_inject:
  "plain st \<Longrightarrow> plain ext \<Longrightarrow> next_path dest st ext m = next_path dest st ext n \<longleftrightarrow> m mod 2 ^ 32 = n mod 2 ^ 32"
  by (simp add: next_path_def append_plain_inject plain_candidate candidate_inject)

text \<open>A name found is free unless the query failed; it is the given one or one of the numbered ones.\<close>

lemma free_name_free:
  assumes "free_name E c dest st ext d dp n = Some p"
  shows "\<exists>j. \<not> exists_on E c j d p"
proof (rule free_name.raw_induct [where P = "\<lambda>E c dest st ext d dp n p. \<exists>j. \<not> exists_on E c j d p", OF _ assms])
  fix f :: "copy_io \<Rightarrow> nat \<Rightarrow> wide_string \<Rightarrow> wide_string \<Rightarrow> wide_string \<Rightarrow> disk \<Rightarrow> wide_string \<Rightarrow> nat \<Rightarrow> wide_string option" and E c dest st ext d dp n p
  assume "\<And>E c dest st ext d dp n p. f E c dest st ext d dp n = Some p \<Longrightarrow> \<exists>j. \<not> exists_on E c j d p"
    and "(if \<not> exists_on E c n d dp then Some dp else f E c dest st ext d (append_path dest (candidate st ext n)) (n + 1)) = Some p"
  then show "\<exists>j. \<not> exists_on E c j d p" by (auto split: if_splits)
qed

text \<open>Where no query fails, the calls made before do not matter.\<close>

lemma exists_on_probed: "\<forall>c j. io_probe E c j \<Longrightarrow> exists_on E c j d p = present E d p"
  by (simp add: exists_on_def)

lemma free_name_probed:
  assumes "free_name E c dest st ext d dp n = Some p" "\<forall>c j. io_probe E c j"
  shows "free_name E c' dest st ext d dp n = Some p"
proof -
  have "(\<forall>c j. io_probe E c j) \<longrightarrow> free_name E c' dest st ext d dp n = Some p"
  proof (rule free_name.raw_induct [where P = "\<lambda>E c dest st ext d dp n p. (\<forall>c j. io_probe E c j) \<longrightarrow> free_name E c' dest st ext d dp n = Some p",
      OF _ assms(1)])
    fix f :: "copy_io \<Rightarrow> nat \<Rightarrow> wide_string \<Rightarrow> wide_string \<Rightarrow> wide_string \<Rightarrow> disk \<Rightarrow> wide_string \<Rightarrow> nat \<Rightarrow> wide_string option" and E c dest st ext d dp n p
    assume ih: "\<And>E c dest st ext d dp n p. f E c dest st ext d dp n = Some p \<Longrightarrow>
        (\<forall>c j. io_probe E c j) \<longrightarrow> free_name E c' dest st ext d dp n = Some p"
      and turn: "(if \<not> exists_on E c n d dp then Some dp else f E c dest st ext d (append_path dest (candidate st ext n)) (n + 1)) = Some p"
    show "(\<forall>c j. io_probe E c j) \<longrightarrow> free_name E c' dest st ext d dp n = Some p"
    proof
      assume all: "\<forall>c j. io_probe E c j"
      show "free_name E c' dest st ext d dp n = Some p"
      proof (cases "present E d dp")
        case True
        then have "f E c dest st ext d (append_path dest (candidate st ext n)) (n + 1) = Some p"
          using turn by (simp add: exists_on_probed [OF all])
        then have "free_name E c' dest st ext d (append_path dest (candidate st ext n)) (n + 1) = Some p" using ih all by blast
        then show ?thesis using True by (subst free_name.simps) (simp add: exists_on_probed [OF all])
      next
        case False
        then show ?thesis using turn by (subst free_name.simps) (simp add: exists_on_probed [OF all])
      qed
    qed
  qed
  then show ?thesis using assms(2) by blast
qed

lemma free_name_calls: "\<forall>c j. io_probe E c j \<Longrightarrow> free_name E c dest st ext d dp n = free_name E 0 dest st ext d dp n"
proof -
  assume all: "\<forall>c j. io_probe E c j"
  show ?thesis
  proof (cases "free_name E c dest st ext d dp n")
    case (Some p)
    then show ?thesis using free_name_probed [OF Some all, of 0] by simp
  next
    case None
    then show ?thesis using free_name_probed [OF _ all, of 0 dest st ext d dp n _ c] by (cases "free_name E 0 dest st ext d dp n") auto
  qed
qed

lemma choose_target_calls: "\<forall>c j. io_probe E c j \<Longrightarrow> choose_target E c t sp d = choose_target E 0 t sp d"
  using free_name_calls [of E c] by (simp add: choose_target_def exists_on_probed)

text \<open>The search ends at the first number whose name is free, or before.\<close>

lemma free_name_ends_at:
  "\<not> present E d (next_path dest st ext (n + k)) \<Longrightarrow>
    \<exists>p. free_name E c dest st ext d dp n = Some p \<and> (p = dp \<or> (\<exists>m. n \<le> m \<and> m \<le> n + k \<and> p = next_path dest st ext m))"
proof (induction k arbitrary: n dp)
  case 0
  have "free_name E c dest st ext d (next_path dest st ext n) (n + 1) = Some (next_path dest st ext n)"
    using 0 by (subst free_name.simps) (simp add: exists_on_def)
  then show ?case by (subst free_name.simps) (auto simp: next_path_def)
next
  case (Suc k)
  let ?p = "next_path dest st ext n"
  obtain p where p: "free_name E c dest st ext d ?p (n + 1) = Some p" "p = ?p \<or> (\<exists>m. n + 1 \<le> m \<and> m \<le> n + 1 + k \<and> p = next_path dest st ext m)"
    using Suc.IH [of "n + 1" ?p] Suc.prems by auto
  have "\<exists>m. n \<le> m \<and> m \<le> n + Suc k \<and> p = next_path dest st ext m" using p(2)
  proof
    assume "\<exists>m. n + 1 \<le> m \<and> m \<le> n + 1 + k \<and> p = next_path dest st ext m"
    then obtain m where "n + 1 \<le> m" "m \<le> n + 1 + k" "p = next_path dest st ext m" by blast
    then show ?thesis by (intro exI [of _ m]) simp
  qed (intro exI [of _ n], simp)
  then show ?case using p(1) by (subst free_name.simps) (auto simp: next_path_def)
qed

text \<open>
  The counter takes \<open>2 ^ 32\<close> values before it repeats one, so on a disk of fewer files the search ends, after at most as many turns as there
  are files.
\<close>

lemma window_mod:
  fixes a b k m n :: nat
  assumes "a \<le> k" "b \<le> k" "k < m" "(n + a) mod m = (n + b) mod m"
  shows "a = b"
proof -
  have one: "x = y" if "x \<le> y" "y < m" "(n + x) mod m = (n + y) mod m" for x y
  proof -
    have "m dvd (n + y) - (n + x)" using that mod_eq_dvd_iff_nat [of "n + x" "n + y" m] by simp
    then have "m dvd y - x" by simp
    then have "y - x = 0 \<or> m \<le> y - x" using dvd_imp_le [of m "y - x"] by blast
    then show ?thesis using that(1,2) by linarith
  qed
  have small: "a < m" "b < m" using assms(1-3) by linarith+
  show ?thesis
  proof (cases "a \<le> b")
    case True
    then show ?thesis by (rule one [OF _ small(2) assms(4)])
  next
    case False
    then have "b = a" by (intro one [OF _ small(1) assms(4) [symmetric]]) linarith
    then show ?thesis by simp
  qed
qed

lemma free_name_bound:
  assumes "finite (dom d)" "card (dom d) < 2 ^ 32" "plain st" "plain ext" "inj_on (io_key E) (range (next_path dest st ext))"
  shows "\<exists>p. free_name E c dest st ext d dp n = Some p \<and>
    (p = dp \<or> (\<exists>m. n \<le> m \<and> m \<le> n + card (dom d) \<and> p = next_path dest st ext m))"
proof -
  let ?f = "\<lambda>k. io_key E (next_path dest st ext (n + k))"
  have "inj_on ?f {..card (dom d)}"
  proof (rule inj_onI)
    fix a b assume ab: "a \<in> {..card (dom d)}" "b \<in> {..card (dom d)}" "?f a = ?f b"
    then have "next_path dest st ext (n + a) = next_path dest st ext (n + b)" using assms(5) by (auto dest: inj_onD)
    then have "(n + a) mod 2 ^ 32 = (n + b) mod 2 ^ 32" by (simp only: next_path_inject [OF assms(3,4)])
    then show "a = b" using window_mod [of a "card (dom d)" b "2 ^ 32" n] ab(1,2) assms(2) by simp
  qed
  hence "card (?f ` {..card (dom d)}) = Suc (card (dom d))" by (simp add: card_image)
  hence "\<not> ?f ` {..card (dom d)} \<subseteq> dom d" using card_mono [OF assms(1), of "?f ` {..card (dom d)}"] by auto
  then obtain k where k: "k \<le> card (dom d)" "?f k \<notin> dom d" by blast
  have free: "\<not> present E d (next_path dest st ext (n + k))" using k(2) by (simp add: present_def domIff)
  have up: "m \<le> n + card (dom d)" if "m \<le> n + k" for m using that k(1) by simp
  from free_name_ends_at [OF free, of c dp] show ?thesis using up by blast
qed

section \<open>What an operation touches\<close>

lemma put_disk_simps [simp]: "cs_disk (put_disk d s) = d" "cs_calls (put_disk d s) = cs_calls s" "cs_copied (put_disk d s) = cs_copied s"
  by (simp_all add: put_disk_def)

lemma called_simps [simp]: "cs_disk (called n s) = cs_disk s" "cs_calls (called n s) = cs_calls s + n" "cs_copied (called n s) = cs_copied s"
  by (simp_all add: called_def)

lemma report_simps [simp]: "cs_disk (report a b s) = cs_disk s" "cs_calls (report a b s) = cs_calls s" "cs_copied (report a b s) = cs_copied s"
  by (simp_all add: report_def)

definition changes_only :: "wide_string set \<Rightarrow> disk \<Rightarrow> disk \<Rightarrow> bool" where
  "changes_only K d d' \<longleftrightarrow> (\<forall>k. k \<notin> K \<longrightarrow> d' k = d k)"

lemma changes_only_refl [simp]: "changes_only K d d"
  by (simp add: changes_only_def)

lemma changes_only_trans: "changes_only K a b \<Longrightarrow> changes_only K b c \<Longrightarrow> changes_only K a c"
  by (simp add: changes_only_def)

lemma changes_only_upd: "k \<in> K \<Longrightarrow> changes_only K d (d(k := x))"
  by (auto simp: changes_only_def)

lemma write_chunk_touches: "write_chunk E whole dp got broken s = (b, s') \<Longrightarrow> changes_only {io_key E dp} (cs_disk s) (cs_disk s')"
  by (auto simp: write_chunk_def Let_def changes_only_def split: if_splits)

lemma chunk_loop_cancelled: "io_cancel E (cs_calls s) \<Longrightarrow> chunk_loop E whole dp data broken s = (True, called 1 s)"
  by (subst chunk_loop.simps) simp

text \<open>One turn of the loop.\<close>

definition chunk_read :: "copy_io \<Rightarrow> nat \<Rightarrow> string \<Rightarrow> string" where
  "chunk_read E n data = (case io_read E n of None \<Rightarrow> take kChunkSize data | Some k \<Rightarrow> take k (take kChunkSize data))"

definition chunk_put :: "copy_io \<Rightarrow> u64 \<Rightarrow> wide_string \<Rightarrow> string \<Rightarrow> bool \<Rightarrow> copy_state \<Rightarrow> bool \<times> copy_state" where
  "chunk_put E whole dp got broken s = (if got = [] then (broken, called 2 s) else write_chunk E whole dp got broken (called 2 s))"

lemma chunk_loop_turn:
  assumes "\<not> io_cancel E (cs_calls s)" "chunk_read E (cs_calls s + 1) data = got" "chunk_put E whole dp got broken s = (b, s1)"
  shows "chunk_loop E whole dp data broken s =
    (if length got < kChunkSize then (False, s1) else chunk_loop E whole dp (drop kChunkSize data) b s1)"
proof -
  have "chunk_loop E whole dp data broken s =
    (let got = chunk_read E (cs_calls s + 1) data; (b, s1) = chunk_put E whole dp got broken s
     in if length got < kChunkSize then (False, s1) else chunk_loop E whole dp (drop kChunkSize data) b s1)"
    by (subst chunk_loop.simps) (simp add: assms(1) chunk_read_def chunk_put_def Let_def)
  thus ?thesis using assms(2,3) by simp
qed

lemma chunk_put_touches: "chunk_put E whole dp got broken s = (b, s1) \<Longrightarrow> changes_only {io_key E dp} (cs_disk s) (cs_disk s1)"
  using write_chunk_touches [of E whole dp got broken "called 2 s" b s1] by (auto simp: chunk_put_def split: if_splits)

text \<open>Induction over the turns: a cancelled one, the last one, one that goes on.\<close>

lemma chunk_loop_rule:
  assumes "chunk_loop E whole dp data broken s = (c, s')"
    and "\<And>data broken s. io_cancel E (cs_calls s) \<Longrightarrow> P data broken s True (called 1 s)"
    and "\<And>data broken s got b s1. \<not> io_cancel E (cs_calls s) \<Longrightarrow> chunk_read E (cs_calls s + 1) data = got \<Longrightarrow>
      chunk_put E whole dp got broken s = (b, s1) \<Longrightarrow> length got < kChunkSize \<Longrightarrow> P data broken s False s1"
    and "\<And>data broken s got b s1 c s'. \<not> io_cancel E (cs_calls s) \<Longrightarrow> chunk_read E (cs_calls s + 1) data = got \<Longrightarrow>
      chunk_put E whole dp got broken s = (b, s1) \<Longrightarrow> kChunkSize \<le> length got \<Longrightarrow> P (drop kChunkSize data) b s1 c s' \<Longrightarrow> P data broken s c s'"
  shows "P data broken s c s'"
  using assms(1)
proof (induction data arbitrary: broken s c s' rule: length_induct)
  case (1 data)
  obtain got where g: "chunk_read E (cs_calls s + 1) data = got" by simp
  obtain b s1 where w: "chunk_put E whole dp got broken s = (b, s1)" by fastforce
  show ?case
  proof (cases "io_cancel E (cs_calls s)")
    case True
    thus ?thesis using 1(2) assms(2) by (auto simp: chunk_loop_cancelled)
  next
    case False
    note turn = chunk_loop_turn [OF False g w]
    show ?thesis
    proof (cases "length got < kChunkSize")
      case True
      thus ?thesis using turn 1(2) assms(3) [OF False g w] by auto
    next
      case long: False
      hence "kChunkSize \<le> length data" using g by (auto simp: chunk_read_def split: option.splits)
      hence "length (drop kChunkSize data) < length data" by (simp add: kChunkSize_def)
      moreover have "chunk_loop E whole dp (drop kChunkSize data) b s1 = (c, s')" using turn 1(2) long by simp
      ultimately have "P (drop kChunkSize data) b s1 c s'" using 1(1) by blast
      thus ?thesis using assms(4) [OF False g w] long by simp
    qed
  qed
qed

lemma chunk_loop_touches:
  assumes "chunk_loop E whole dp data broken s = (c, s')"
  shows "changes_only {io_key E dp} (cs_disk s) (cs_disk s')"
  using assms by (rule chunk_loop_rule) (auto dest: chunk_put_touches intro: changes_only_trans)

lemma remove_file_touches: "changes_only {io_key E p} (cs_disk s) (cs_disk (remove_file E p s))"
  by (auto simp: remove_file_def changes_only_def)

lemma copy_file_unopened:
  "\<not> io_open_in E (cs_calls s) \<or> \<not> io_open_out E (cs_calls s + 1) \<or> cs_disk s (io_key E dp) = Some Folder \<Longrightarrow>
    \<exists>e n. copy_file E t whole sp dp s = (Some e, called n s)"
  by (auto simp: copy_file_def)

text \<open>What the source holds once the destination is emptied.\<close>

definition source_data :: "copy_io \<Rightarrow> disk \<Rightarrow> wide_string \<Rightarrow> wide_string \<Rightarrow> string" where
  "source_data E d sp dp = (case data_of E (d(io_key E dp \<mapsto> Data [])) sp of Some x \<Rightarrow> x | None \<Rightarrow> [])"

lemma copy_file_opened:
  assumes "io_open_in E (cs_calls s)" "io_open_out E (cs_calls s + 1)" "cs_disk s (io_key E dp) \<noteq> Some Folder"
    and "chunk_loop E whole dp (source_data E (cs_disk s) sp dp) False (called 2 (put_disk ((cs_disk s)(io_key E dp \<mapsto> Data [])) s)) = (c, s1)"
  shows "copy_file E t whole sp dp s = (if c then (Some cancelled_text, remove_file E dp s1) else (None, if ct_move t then remove_file E sp s1 else s1))"
  using assms by (simp add: copy_file_def source_data_def)

lemma copy_file_touches:
  assumes "copy_file E t whole sp dp s = (err, s')"
  shows "changes_only (insert (io_key E dp) (if ct_move t then {io_key E sp} else {})) (cs_disk s) (cs_disk s')" (is "changes_only ?K _ _")
proof (cases "io_open_in E (cs_calls s) \<and> io_open_out E (cs_calls s + 1) \<and> cs_disk s (io_key E dp) \<noteq> Some Folder")
  case False
  then obtain e n where "copy_file E t whole sp dp s = (Some e, called n s)" using copy_file_unopened [of E s dp t whole sp] by blast
  hence "s' = called n s" using assms by simp
  thus ?thesis by simp
next
  case True
  let ?d = "(cs_disk s)(io_key E dp \<mapsto> Data [])"
  obtain c s1 where l: "chunk_loop E whole dp (source_data E (cs_disk s) sp dp) False (called 2 (put_disk ?d s)) = (c, s1)" by fastforce
  have mono: "changes_only {io_key E p} a b \<Longrightarrow> io_key E p \<in> ?K \<Longrightarrow> changes_only ?K a b" for p a b by (auto simp: changes_only_def)
  have "changes_only ?K (cs_disk s) ?d" by (rule changes_only_upd) simp
  moreover have "changes_only ?K ?d (cs_disk s1)" using mono [OF chunk_loop_touches [OF l]] by simp
  ultimately have "changes_only ?K (cs_disk s) (cs_disk s1)" by (rule changes_only_trans)
  moreover have "s' = (if c then remove_file E dp s1 else if ct_move t then remove_file E sp s1 else s1)"
    using assms copy_file_opened [OF _ _ _ l] True by (auto split: if_splits)
  moreover have "changes_only ?K (cs_disk s1) (cs_disk (remove_file E dp s1))" by (rule mono [OF remove_file_touches]) simp
  moreover have "ct_move t \<Longrightarrow> changes_only ?K (cs_disk s1) (cs_disk (remove_file E sp s1))" by (rule mono [OF remove_file_touches]) simp
  ultimately show ?thesis by (cases c; cases "ct_move t") (simp_all add: changes_only_def)
qed

section \<open>Without faults\<close>

definition undisturbed :: "copy_io \<Rightarrow> bool" where
  "undisturbed E \<longleftrightarrow> (\<forall>n. \<not> io_cancel E n \<and> io_open_in E n \<and> io_open_out E n \<and> io_read E n = None \<and> io_write E n = None \<and> io_remove E n \<and>
     io_regular E n)"

definition faultless :: "copy_io \<Rightarrow> bool" where
  "faultless E \<longleftrightarrow> undisturbed E \<and> (\<forall>c j. io_probe E c j)"

lemma undisturbed_simps:
  assumes "undisturbed E"
  shows "\<not> io_cancel E n" "io_open_in E n" "io_open_out E n" "io_read E n = None" "io_write E n = None" "io_remove E n" "io_regular E n"
  using assms by (simp_all add: undisturbed_def)

lemma faultlessD: "faultless E \<Longrightarrow> undisturbed E" "faultless E \<Longrightarrow> \<forall>c j. io_probe E c j"
  by (simp_all add: faultless_def)

text \<open>The loop puts all data behind what the destination holds.\<close>

lemma chunk_loop_faultless:
  assumes "undisturbed E" "chunk_loop E whole dp data broken s = (c, s')" "\<not> broken" "cs_disk s (io_key E dp) = Some (Data old)"
  shows "\<not> c \<and> cs_disk s' = (cs_disk s)(io_key E dp \<mapsto> Data (old @ data))"
proof -
  note calm = undisturbed_simps [OF assms(1)]
  have put: "\<not> b1 \<and> cs_disk s1 = (cs_disk s)(io_key E dp \<mapsto> Data (old @ got))"
    if "chunk_put E whole dp got broken s = (b1, s1)" "\<not> broken" "cs_disk s (io_key E dp) = Some (Data old)" for got broken s b1 s1 old
    using that calm by (auto simp: chunk_put_def write_chunk_def data_of_def Let_def fun_upd_idem split: if_splits)
  have "\<not> broken \<longrightarrow> (\<forall>old. cs_disk s (io_key E dp) = Some (Data old) \<longrightarrow>
      \<not> c \<and> cs_disk s' = (cs_disk s)(io_key E dp \<mapsto> Data (old @ data)))"
    using assms(2)
  proof (rule chunk_loop_rule, goal_cases)
    case (1 data broken s)
    thus ?case using calm by simp
  next
    case (2 data broken s got b s1)
    hence "got = data" using calm by (auto simp: chunk_read_def)
    thus ?case using put [OF 2(3)] by blast
  next
    case (3 data broken s got b s1 c s')
    have got: "got = take kChunkSize data" using 3(2) calm by (simp add: chunk_read_def)
    show ?case
    proof (intro impI allI)
      fix old assume here: "\<not> broken" "cs_disk s (io_key E dp) = Some (Data old)"
      note p = put [OF 3(3) here]
      hence "cs_disk s1 (io_key E dp) = Some (Data (old @ got))" by simp
      hence "\<not> c \<and> cs_disk s' = (cs_disk s1)(io_key E dp \<mapsto> Data ((old @ got) @ drop kChunkSize data))" using 3(5) p by blast
      thus "\<not> c \<and> cs_disk s' = (cs_disk s)(io_key E dp \<mapsto> Data (old @ data))" using p by (auto simp: fun_eq_iff got)
    qed
  qed
  thus ?thesis using assms(3,4) by simp
qed

text \<open>
  The specification: a file at once, from the disk alone. Where the source is the file of the destination, it is emptied before it is read.
\<close>

definition place :: "copy_io \<Rightarrow> bool \<Rightarrow> wide_string \<Rightarrow> wide_string \<Rightarrow> disk \<Rightarrow> disk" where
  "place E move sp dp d = (let d' = d(io_key E dp \<mapsto> Data (source_data E d sp dp)) in if move then d'(io_key E sp := None) else d')"

definition spec_item :: "copy_io \<Rightarrow> copy_task \<Rightarrow> wide_string \<Rightarrow> wide_string \<Rightarrow> disk \<Rightarrow> string option \<times> disk" where
  "spec_item E t sp dp d =
     (if data_of E d sp = None then (let (err, s) = copy_other E t sp dp (start_copy d) in (err, cs_disk s))
      else if d (io_key E dp) = Some Folder then (Some (''Erro ao criar destino: '' @ io_text E (file_name dp)), d)
      else (None, place E (ct_move t) sp dp d))"

fun spec_copy :: "copy_io \<Rightarrow> copy_task \<Rightarrow> wide_string list \<Rightarrow> disk \<Rightarrow> (string option \<times> disk) option" where
  "spec_copy E t [] d = Some (None, d)"
| "spec_copy E t (sp # sps) d =
     (case choose_target E 0 t sp d of
        None \<Rightarrow> None
      | Some None \<Rightarrow> spec_copy E t sps d
      | Some (Some dp) \<Rightarrow> (case spec_item E t sp dp d of (Some err, d) \<Rightarrow> Some (Some err, d) | (None, d) \<Rightarrow> spec_copy E t sps d))"

lemma copy_file_faultless:
  assumes "undisturbed E"
  shows "(let (err, s') = copy_file E t whole sp dp s in (err, cs_disk s')) =
    (if cs_disk s (io_key E dp) = Some Folder then (Some (''Erro ao criar destino: '' @ io_text E (file_name dp)), cs_disk s)
     else (None, place E (ct_move t) sp dp (cs_disk s)))"
proof (cases "cs_disk s (io_key E dp) = Some Folder")
  case True
  thus ?thesis using undisturbed_simps [OF assms] by (simp add: copy_file_def)
next
  case False
  let ?d = "(cs_disk s)(io_key E dp \<mapsto> Data [])"
  obtain c s1 where l: "chunk_loop E whole dp (source_data E (cs_disk s) sp dp) False (called 2 (put_disk ?d s)) = (c, s1)" by fastforce
  have "\<not> c \<and> cs_disk s1 = (cs_disk s)(io_key E dp \<mapsto> Data (source_data E (cs_disk s) sp dp))"
    using chunk_loop_faultless [OF assms l, of "[]"] by simp
  thus ?thesis using copy_file_opened [OF _ _ False l, of t] undisturbed_simps [OF assms] False
    by (simp add: place_def remove_file_def Let_def)
qed

lemma copy_item_faultless:
  assumes "undisturbed E" "copy_item E t whole sp dp s = (err, s')"
  shows "spec_item E t sp dp (cs_disk s) = (err, cs_disk s')"
proof (cases "data_of E (cs_disk s) sp = None")
  case True
  thus ?thesis using assms(2)
    by (auto simp: copy_item_def spec_item_def copy_other_def undisturbed_simps [OF assms(1)] start_copy_def Let_def split: if_splits option.splits prod.splits)
next
  case False
  thus ?thesis using assms copy_file_faultless [OF assms(1), of t whole sp dp s] by (auto simp: copy_item_def spec_item_def undisturbed_simps [OF assms(1)])
qed

lemma copy_loop_faultless:
  assumes "faultless E"
  shows "map_option (\<lambda>(err, s). (err, cs_disk s)) (copy_loop E t whole ready sps s) = spec_copy E t sps (cs_disk s)"
proof (induction sps arbitrary: ready s)
  case (Cons sp sps)
  note calm = undisturbed_simps [OF faultlessD(1) [OF assms]]
  have same: "choose_target E (cs_calls s) t sp (cs_disk s) = choose_target E 0 t sp (cs_disk s)"
    by (rule choose_target_calls [OF faultlessD(2) [OF assms]])
  show ?case
  proof (cases "choose_target E 0 t sp (cs_disk s)")
    case (Some r)
    show ?thesis
    proof (cases r)
      case None
      thus ?thesis using Some Cons calm same by simp
    next
      case dp: (Some dp)
      obtain err s1 where i: "copy_item E t whole sp dp (called 1 s) = (err, s1)" by fastforce
      show ?thesis
        using Some dp i calm same copy_item_faultless [OF faultlessD(1) [OF assms] i] Cons [of "ready + 1" "if whole = 0 then report (ready + 1) (length (ct_sources t)) s1 else s1"]
        by (cases err) (simp_all split: if_splits)
    qed
  qed (use calm same in simp)
qed simp

section \<open>The end of the job\<close>

lemma copy_other_state: "copy_other E t sp dp s = (err, s') \<Longrightarrow> s' = put_disk (cs_disk s') s"
  by (auto simp: copy_other_def Let_def split: prod.splits)

end
