(* ===== verification/Copy_Props.thy ===== *)
theory Copy_Props
  imports Copy_Facts
begin

text \<open>Theorems on the copy job.\<close>

section \<open>A disk to try\<close>

definition no_folders :: "wide_string \<Rightarrow> wide_string \<Rightarrow> disk \<Rightarrow> string option \<times> disk" where
  "no_folders sp dp d = (Some ''not found'', d)"

definition calm_io :: copy_io where
  "calm_io = \<lparr>io_key = id, io_utf8 = map (\<lambda>c. char_of (unat c)), io_cancel = (\<lambda>_. False), io_open_in = (\<lambda>_. True), io_open_out = (\<lambda>_. True),
     io_read = (\<lambda>_. None), io_write = (\<lambda>_. None), io_remove = (\<lambda>_. True),
     io_probe = (\<lambda>_ _. True), io_regular = (\<lambda>_. True), io_regular_first = (\<lambda>_. True), io_size = (\<lambda>_. True), io_rename = no_folders, io_copy_tree = no_folders,
     io_remove_all = (\<lambda>p d. (Some ''not found'', d))\<rparr>"

lemma calm_io_faultless: "faultless calm_io"
  by (simp add: faultless_def undisturbed_def calm_io_def)

definition here_path :: "string \<Rightarrow> wide_string" where
  "here_path s = Workspace_Studio.wide (''C:'' @ [CHR 0x5C] @ s)"

definition a_task :: "bool \<Rightarrow> string \<Rightarrow> string \<Rightarrow> copy_task" where
  "a_task move strategy dest = \<lparr>ct_sources = [here_path ''a''], ct_destination = here_path dest, ct_move = move, ct_strategy = strategy\<rparr>"

lemma a_task_target: "plain_target (a_task move strategy dest) (here_path ''a'') = append_path (here_path dest) (Workspace_Studio.wide ''a'')"
  by (simp add: plain_target_def a_task_def here_path_def Workspace_Studio.wide_def file_name_def relative_path_def after_root_name_def
      root_name_length_def has_drive_def drive_letter_def path_chars is_slash_def last_part_def)

section \<open>What a job without faults does\<close>

text \<open>
  A copy or move job that meets no fault and no cancellation computes its specification: item after item, each file placed whole
  in one step on the disk - whatever its size and however many chunks it takes -, the errors and the end of the search for a free name
  included.
\<close>

theorem copy_job_refines:
  assumes "faultless E"
  shows "map_option (\<lambda>(err, s). (err, cs_disk s)) (run_copy E t d) = spec_copy E t (ct_sources t) d"
  unfolding run_copy_def using copy_loop_faultless [OF assms] by (simp add: start_copy_def)

theorem copy_job_refines_witness:
  "map_option (\<lambda>(err, s). (err, cs_disk s)) (run_copy calm_io (a_task True ''replace'' ''d'') Map.empty) =
    spec_copy calm_io (a_task True ''replace'' ''d'') [here_path ''a''] Map.empty"
  using copy_job_refines [OF calm_io_faultless, of "a_task True ''replace'' ''d''" Map.empty] by (simp add: a_task_def)

definition replaces :: "copy_task \<Rightarrow> bool" where
  "replaces t \<longleftrightarrow> ct_strategy t \<noteq> ''skip'' \<and> \<not> keeps_both t"

definition target_ready :: "copy_io \<Rightarrow> copy_task \<Rightarrow> disk \<Rightarrow> wide_string \<Rightarrow> bool" where
  "target_ready E t d sp \<longleftrightarrow> \<not> present E d (plain_target t sp) \<or> replaces t \<and> d (io_key E (plain_target t sp)) \<noteq> Some Folder"

lemma target_ready_chosen: "target_ready E t d sp \<Longrightarrow> choose_target E c t sp d = Some (Some (plain_target t sp)) \<and> d (io_key E (plain_target t sp)) \<noteq> Some Folder"
  by (auto simp: target_ready_def choose_target_def replaces_def exists_on_def present_def)

lemma source_data_other: "io_key E dp \<noteq> io_key E sp \<Longrightarrow> source_data E d sp dp = (case data_of E d sp of Some x \<Rightarrow> x | None \<Rightarrow> [])"
  by (simp add: source_data_def data_of_def)

lemma data_of_Some: "data_of E d p = Some x \<longleftrightarrow> d (io_key E p) = Some (Data x)"
  by (auto simp: data_of_def split: option.splits node.splits)

lemma spec_item_placed:
  assumes "data_of E d sp = Some x" "target_ready E t d sp" "io_key E (plain_target t sp) \<noteq> io_key E sp"
  shows "spec_item E t sp (plain_target t sp) d =
    (None, (d(io_key E (plain_target t sp) \<mapsto> Data x))(io_key E sp := (if ct_move t then None else Some (Data x))))"
proof -
  let ?d = "d(io_key E (plain_target t sp) \<mapsto> Data x)"
  have "?d(io_key E sp := Some (Data x)) = ?d"
    using assms(1,3) by (intro fun_upd_idem) (simp add: data_of_Some)
  moreover have "source_data E d sp (plain_target t sp) = x" using assms(1,3) by (simp add: source_data_other)
  ultimately show ?thesis using assms(1) target_ready_chosen [OF assms(2)] by (simp add: spec_item_def place_def)
qed

lemma spec_copy_arrives:
  assumes "\<forall>sp \<in> set sps. data_of E d sp \<noteq> None \<and> target_ready E t d sp"
    and "distinct (map (io_key E) sps)" "distinct (map (io_key E \<circ> plain_target t) sps)"
    and "\<forall>a \<in> set sps. \<forall>b \<in> set sps. io_key E (plain_target t a) \<noteq> io_key E b"
  shows "\<exists>d'. spec_copy E t sps d = Some (None, d') \<and>
    (\<forall>sp \<in> set sps. d' (io_key E (plain_target t sp)) = d (io_key E sp) \<and> d' (io_key E sp) = (if ct_move t then None else d (io_key E sp))) \<and>
    changes_only ((io_key E \<circ> plain_target t) ` set sps \<union> io_key E ` set sps) d d'"
  using assms
proof (induction sps arbitrary: d)
  case (Cons sp sps)
  let ?k = "io_key E sp" and ?l = "io_key E (plain_target t sp)"
  obtain x where x: "data_of E d sp = Some x" using Cons.prems(1) by auto
  have ready: "target_ready E t d sp" using Cons.prems(1) by simp
  have apart: "?l \<noteq> ?k" using Cons.prems(4) by auto
  let ?d = "(d(?l \<mapsto> Data x))(?k := (if ct_move t then None else Some (Data x)))"
  have step: "spec_copy E t (sp # sps) d = spec_copy E t sps ?d"
    using target_ready_chosen [OF ready] spec_item_placed [OF x ready apart] by simp
  have same: "?d (io_key E p) = d (io_key E p) \<and> ?d (io_key E (plain_target t p)) = d (io_key E (plain_target t p))" if "p \<in> set sps" for p
  proof -
    have "io_key E p \<noteq> ?k" using that Cons.prems(2) by (auto simp: image_iff)
    moreover have "io_key E (plain_target t p) \<noteq> ?l" using that Cons.prems(3) by (auto simp: image_iff)
    moreover have "io_key E p \<noteq> ?l" "io_key E (plain_target t p) \<noteq> ?k" using that Cons.prems(4) by (metis list.set_intros)+
    ultimately show ?thesis by simp
  qed
  have "\<forall>p \<in> set sps. data_of E ?d p \<noteq> None \<and> target_ready E t ?d p"
    using same Cons.prems(1) by (auto simp: data_of_def target_ready_def present_def)
  then obtain d' where d': "spec_copy E t sps ?d = Some (None, d')"
      "\<forall>p \<in> set sps. d' (io_key E (plain_target t p)) = ?d (io_key E p) \<and> d' (io_key E p) = (if ct_move t then None else ?d (io_key E p))"
      "changes_only ((io_key E \<circ> plain_target t) ` set sps \<union> io_key E ` set sps) ?d d'"
    using Cons.IH [of ?d] Cons.prems(2,3,4) by (simp del: fun_upd_apply) blast
  have "?l \<notin> io_key E ` set sps" "?k \<notin> (io_key E \<circ> plain_target t) ` set sps"
    using Cons.prems(4) by (auto simp: image_iff)
  moreover have "?k \<notin> io_key E ` set sps" "?l \<notin> (io_key E \<circ> plain_target t) ` set sps"
    using Cons.prems(2,3) by (auto simp: image_iff)
  ultimately have "?l \<notin> (io_key E \<circ> plain_target t) ` set sps \<union> io_key E ` set sps" "?k \<notin> (io_key E \<circ> plain_target t) ` set sps \<union> io_key E ` set sps"
    by blast+
  hence "d' ?l = ?d ?l" "d' ?k = ?d ?k" using d'(3) unfolding changes_only_def by blast+
  hence "d' ?l = d ?k \<and> d' ?k = (if ct_move t then None else d ?k)" using apart x by (simp add: data_of_Some)
  moreover have "changes_only ((io_key E \<circ> plain_target t) ` set (sp # sps) \<union> io_key E ` set (sp # sps)) d d'"
    using d'(3) by (auto simp: changes_only_def)
  moreover have "\<forall>p \<in> set sps. d' (io_key E (plain_target t p)) = d (io_key E p) \<and> d' (io_key E p) = (if ct_move t then None else d (io_key E p))"
    using d'(2) same by metis
  ultimately show ?case using step d'(1) by auto
qed simp

text \<open>
  C8. When the sources are files, the destinations are pairwise different files, none of them a source, and each is free (or may be
  replaced), a job without faults succeeds: every destination holds what its source held, a move has removed every source and a copy none,
  and no other file is touched.
\<close>

theorem copies_arrive:
  assumes "faultless E" "\<forall>sp \<in> set (ct_sources t). data_of E d sp \<noteq> None \<and> target_ready E t d sp"
    and "distinct (map (io_key E) (ct_sources t))" "distinct (map (io_key E \<circ> plain_target t) (ct_sources t))"
    and "\<forall>a \<in> set (ct_sources t). \<forall>b \<in> set (ct_sources t). io_key E (plain_target t a) \<noteq> io_key E b"
  shows "\<exists>s. run_copy E t d = Some (None, s) \<and>
    (\<forall>sp \<in> set (ct_sources t). cs_disk s (io_key E (plain_target t sp)) = d (io_key E sp) \<and>
      cs_disk s (io_key E sp) = (if ct_move t then None else d (io_key E sp))) \<and>
    changes_only ((io_key E \<circ> plain_target t) ` set (ct_sources t) \<union> io_key E ` set (ct_sources t)) d (cs_disk s)"
proof -
  have "map_option (\<lambda>(err, s). (err, cs_disk s)) (run_copy E t d) = spec_copy E t (ct_sources t) d"
    unfolding run_copy_def using copy_loop_faultless [OF assms(1)] by (simp add: start_copy_def)
  thus ?thesis using spec_copy_arrives [OF assms(2,3,4,5)] by (cases "run_copy E t d") (auto split: prod.splits)
qed

definition one_file :: disk where
  "one_file = [here_path ''a'' \<mapsto> Data ''xyz'']"

lemma there_path: "append_path (here_path ''d'') (Workspace_Studio.wide ''a'') = here_path (''d'' @ [CHR 0x5C] @ ''a'')"
  "append_path (here_path '''') (Workspace_Studio.wide ''a'') = here_path ''a''"
  by (simp_all add: append_path_def here_path_def Workspace_Studio.wide_def path_chars is_slash_def is_absolute_def has_drive_def drive_letter_def
      root_name_def root_name_length_def after_root_name_def has_root_directory_def)

lemma here_path_inject: "here_path a = here_path b \<longleftrightarrow> a = b"
  by (simp add: here_path_def wide_inject)

lemma a_task_simps [simp]:
  "ct_sources (a_task move strategy dest) = [here_path ''a'']" "ct_destination (a_task move strategy dest) = here_path dest"
  "ct_move (a_task move strategy dest) = move" "ct_strategy (a_task move strategy dest) = strategy"
  by (simp_all add: a_task_def)

lemma calm_io_key [simp]: "io_key calm_io = id"
  by (simp add: calm_io_def)

theorem copies_arrive_witness:
  "\<exists>s. run_copy calm_io (a_task True ''replace'' ''d'') one_file = Some (None, s) \<and>
    cs_disk s (here_path (''d'' @ [CHR 0x5C] @ ''a'')) = Some (Data ''xyz'') \<and> cs_disk s (here_path ''a'') = None"
  using copies_arrive [OF calm_io_faultless, of "a_task True ''replace'' ''d''" one_file]
  by (auto simp: a_task_target there_path here_path_inject one_file_def data_of_def target_ready_def present_def)

section \<open>What no fault can do\<close>

text \<open>The library's recursive copy to a path that leads nowhere adds to the disk and changes nothing that is there.\<close>

definition copy_tree_adds :: "copy_io \<Rightarrow> bool" where
  "copy_tree_adds E \<longleftrightarrow> (\<forall>sp dp d. d (io_key E dp) = None \<longrightarrow> d \<subseteq>\<^sub>m snd (io_copy_tree E sp dp d))"

lemma changes_only_le: "changes_only {k} d d' \<Longrightarrow> d0 k = None \<Longrightarrow> d0 \<subseteq>\<^sub>m d \<Longrightarrow> d0 \<subseteq>\<^sub>m d'"
  unfolding changes_only_def map_le_def by (metis domIff singletonD)

lemma chosen_free: "choose_target E c t sp d = Some (Some dp) \<Longrightarrow> \<not> replaces t \<Longrightarrow> \<forall>c j. io_probe E c j \<Longrightarrow> d (io_key E dp) = None"
  using free_name_free [of E c "ct_destination t" "stem sp" "extension sp" d "plain_target t sp" 1]
  by (auto simp: choose_target_def replaces_def exists_on_def present_def split: if_splits)

lemma copy_item_adds:
  assumes "copy_item E t whole sp dp s = (err, s')" "\<not> ct_move t" "copy_tree_adds E" "cs_disk s (io_key E dp) = None" "d \<subseteq>\<^sub>m cs_disk s"
  shows "d \<subseteq>\<^sub>m cs_disk s'"
proof (cases "io_regular E (cs_calls s) \<and> data_of E (cs_disk s) sp \<noteq> None")
  case False
  hence "cs_disk s' = snd (io_copy_tree E sp dp (cs_disk s))"
    using assms(1,2) by (auto simp: copy_item_def copy_other_def Let_def split: prod.splits)
  thus ?thesis using assms(3,4,5) unfolding copy_tree_adds_def by (metis map_le_trans)
next
  case True
  hence "changes_only {io_key E dp} (cs_disk s) (cs_disk s')"
    using assms(1,2) copy_file_touches [of E t whole sp dp s err s'] by (simp add: copy_item_def)
  moreover have "d (io_key E dp) = None" using assms(4,5) by (metis domIff map_le_def)
  ultimately show ?thesis using assms(5) changes_only_le by blast
qed

lemma copy_loop_adds:
  assumes "\<not> ct_move t" "\<not> replaces t" "copy_tree_adds E" "\<forall>c j. io_probe E c j"
  shows "copy_loop E t whole ready sps s = Some (err, s') \<Longrightarrow> d \<subseteq>\<^sub>m cs_disk s \<Longrightarrow> d \<subseteq>\<^sub>m cs_disk s'"
proof (induction sps arbitrary: ready s)
  case (Cons sp sps)
  consider "io_cancel E (cs_calls s)" | "\<not> io_cancel E (cs_calls s)" "choose_target E (cs_calls s) t sp (cs_disk s) = Some None"
    | dp where "\<not> io_cancel E (cs_calls s)" "choose_target E (cs_calls s) t sp (cs_disk s) = Some (Some dp)"
    using Cons.prems(1) by (auto split: option.splits if_splits)
  thus ?case
  proof cases
    case 1
    thus ?thesis using Cons.prems by auto
  next
    case 2
    thus ?thesis using Cons.prems Cons.IH [of "ready + 1" "called 1 s"] by simp
  next
    case (3 dp)
    obtain e s1 where i: "copy_item E t whole sp dp (called 1 s) = (e, s1)" by fastforce
    have "d \<subseteq>\<^sub>m cs_disk s1" using copy_item_adds [OF i assms(1,3)] chosen_free [OF 3(2) assms(2,4)] Cons.prems(2) by simp
    thus ?thesis using 3 i Cons.prems(1) Cons.IH [of "ready + 1" s1] Cons.IH [of "ready + 1" "report (ready + 1) (length (ct_sources t)) s1"]
      by (cases e) (simp_all split: if_splits)
  qed
qed simp

text \<open>
  C9. A copy that skips what exists or keeps both never changes or removes a file that was there before, as long as the queries whether a path exists
  succeed: whichever other calls fail, whatever a failing read or write leaves, and wherever the user cancels. With a query that fails it
  does (\<open>failed_probe_overwrites\<close>).
\<close>

theorem copy_never_overwrites:
  assumes "run_copy E t d = Some (err, s)" "\<not> ct_move t" "\<not> replaces t" "copy_tree_adds E" "\<forall>c j. io_probe E c j"
  shows "d \<subseteq>\<^sub>m cs_disk s"
  using copy_loop_adds [OF assms(2,3,4,5)] assms(1) unfolding run_copy_def by (force simp: start_copy_def)

text \<open>The copy that is cancelled in the middle of its file.\<close>

definition cancelling_io :: copy_io where
  "cancelling_io = calm_io\<lparr>io_cancel := (\<lambda>n. n = 3)\<rparr>"

lemma a_source_names: "file_name (here_path ''a'') = Workspace_Studio.wide ''a''" "stem (here_path ''a'') = Workspace_Studio.wide ''a''"
  "extension (here_path ''a'') = []"
  by (simp_all add: here_path_def Workspace_Studio.wide_def file_name_def relative_path_def after_root_name_def stem_def extension_def plain_name_def
      stem_length_def root_name_length_def has_drive_def drive_letter_def path_chars is_slash_def last_part_def)

lemma two_files_target: "choose_target E c (a_task False strategy '''') (here_path ''a'') d =
    (if \<not> exists_on E c 0 d (here_path ''a'') then Some (Some (here_path ''a'')) else if strategy = ''skip'' then Some None
     else if strategy = ''keep_both'' \<or> strategy = ''keepBoth''
       then map_option Some (free_name E c (here_path '''') (Workspace_Studio.wide ''a'') [] d (here_path ''a'') 1)
     else Some (Some (here_path ''a'')))"
  by (simp add: choose_target_def a_task_target there_path a_source_names keeps_both_def)

lemma cancelling_exists: "exists_on cancelling_io c j one_file (here_path ''a'')" "\<not> exists_on cancelling_io c j one_file (here_path ''a (1)'')"
  by (simp_all add: exists_on_def present_def cancelling_io_def calm_io_def one_file_def here_path_inject)

lemma free_copy_name: "free_name cancelling_io c (here_path '''') (Workspace_Studio.wide ''a'') [] one_file (here_path ''a'') 1 =
    Some (here_path ''a (1)'')"
proof -
  have "plain (Workspace_Studio.wide ''a (1)'')" by (rule plain_wide) simp
  moreover have "candidate (Workspace_Studio.wide ''a'') [] 1 = Workspace_Studio.wide ''a (1)''"
    by (simp add: candidate_def counter_value_def int_dec_def Workspace_Studio.wide_def nat_dec.simps digit_char_def)
  moreover have "folder_text (here_path '''') = here_path ''''"
    by (simp add: folder_text_def here_path_def Workspace_Studio.wide_def after_root_name_def root_name_length_def has_drive_def drive_letter_def
        path_chars is_slash_def)
  ultimately have "append_path (here_path '''') (candidate (Workspace_Studio.wide ''a'') [] 1) = here_path ''a (1)''"
    by (simp add: append_plain here_path_def Workspace_Studio.wide_def)
  thus ?thesis
    by (simp add: cancelling_exists free_name.simps [of _ _ _ _ _ _ "here_path ''a''"] free_name.simps [of _ _ _ _ _ _ "here_path ''a (1)''"])
qed

lemma cancelled_copy: "\<exists>s. run_copy cancelling_io (a_task False ''keep_both'' '''') one_file = Some (Some cancelled_text, s)"
proof -
  have "io_key cancelling_io = id" "io_cancel cancelling_io n \<longleftrightarrow> n = 3" "io_open_in cancelling_io n" "io_open_out cancelling_io n" "io_regular cancelling_io n" for n
    by (simp_all add: cancelling_io_def calm_io_def)
  moreover have "choose_target cancelling_io c (a_task False ''keep_both'' '''') (here_path ''a'') one_file = Some (Some (here_path ''a (1)''))" for c
    using free_copy_name cancelling_exists by (simp add: two_files_target)
  ultimately show ?thesis
    by (simp add: run_copy_def start_copy_def copy_item_def copy_file_def chunk_loop_cancelled data_of_def one_file_def here_path_inject)
qed

theorem copy_never_overwrites_witness:
  "\<exists>err s. run_copy cancelling_io (a_task False ''keep_both'' '''') one_file = Some (err, s) \<and> one_file \<subseteq>\<^sub>m cs_disk s"
proof -
  obtain s where s: "run_copy cancelling_io (a_task False ''keep_both'' '''') one_file = Some (Some cancelled_text, s)"
    using cancelled_copy by blast
  have "copy_tree_adds cancelling_io" by (simp add: copy_tree_adds_def cancelling_io_def calm_io_def no_folders_def)
  hence "one_file \<subseteq>\<^sub>m cs_disk s" using copy_never_overwrites [OF s] by (simp add: replaces_def keeps_both_def cancelling_io_def calm_io_def)
  thus ?thesis using s by blast
qed

section \<open>The job ends\<close>

text \<open>Windows' and the library's operations on folders leave at most \<open>k\<close> files on the disk, or as many as there were.\<close>

definition keeps_small :: "nat \<Rightarrow> copy_io \<Rightarrow> bool" where
  "keeps_small k E \<longleftrightarrow> (\<forall>sp dp d. finite (dom d) \<longrightarrow> (\<forall>d' \<in> {snd (io_rename E sp dp d), snd (io_copy_tree E sp dp d), snd (io_remove_all E sp d)}.
     finite (dom d') \<and> card (dom d') \<le> max k (card (dom d))))"

text \<open>A disk of at most \<open>k\<close> files.\<close>

definition small :: "nat \<Rightarrow> disk \<Rightarrow> bool" where
  "small k d \<longleftrightarrow> finite (dom d) \<and> card (dom d) \<le> k"

lemma keeps_smallD:
  "keeps_small k E \<Longrightarrow> k \<le> n \<Longrightarrow> small n d \<Longrightarrow> small n (snd (io_rename E sp dp d)) \<and> small n (snd (io_copy_tree E sp dp d)) \<and> small n (snd (io_remove_all E sp d))"
  unfolding keeps_small_def small_def by (meson insertI1 insertI2 le_trans max.boundedI)

lemma changes_only_small: "changes_only {k, k'} d d' \<Longrightarrow> d' k' = None \<or> k' = k \<or> d k' \<noteq> None \<Longrightarrow> small n d \<Longrightarrow> small (n + 1) d'"
proof -
  assume c: "changes_only {k, k'} d d'" "d' k' = None \<or> k' = k \<or> d k' \<noteq> None" and s: "small n d"
  have "dom d' \<subseteq> insert k (dom d)"
  proof
    fix x assume "x \<in> dom d'"
    then show "x \<in> insert k (dom d)" using c by (cases "x = k") (auto simp: changes_only_def domIff)
  qed
  moreover have "card (insert k (dom d)) \<le> n + 1" using s card_insert_le_m1 [of "n + 1" "dom d" k] by (simp add: small_def)
  ultimately show "small (n + 1) d'" using s by (meson card_mono finite.insertI finite_subset le_trans small_def)
qed

lemma copy_other_small:
  assumes "copy_other E t sp dp s = (err, s')" "keeps_small k E" "k \<le> n" "small n (cs_disk s)"
  shows "small n (cs_disk s')"
proof -
  note F = keeps_smallD [OF assms(2,3)]
  obtain e1 d1 where r: "io_rename E sp dp (cs_disk s) = (e1, d1)" by fastforce
  obtain e2 d2 where c: "io_copy_tree E sp dp d1 = (e2, d2)" by fastforce
  obtain e3 d3 where a: "io_remove_all E sp d2 = (e3, d3)" by fastforce
  obtain e4 d4 where o: "io_copy_tree E sp dp (cs_disk s) = (e4, d4)" by fastforce
  have "small n d1" using F [OF assms(4)] r by (metis snd_conv)
  moreover from this have "small n d2" using F [of d1] c by (metis snd_conv)
  moreover from this have "small n d3" using F [of d2] a by (metis snd_conv)
  moreover have "small n d4" using F [OF assms(4)] o by (metis snd_conv)
  ultimately show ?thesis using assms(1) r c a o by (auto simp: copy_other_def Let_def split: if_splits option.splits)
qed

lemma copy_item_small:
  assumes "copy_item E t whole sp dp s = (err, s')" "keeps_small k E" "k \<le> n" "small n (cs_disk s)"
  shows "small (n + 1) (cs_disk s')"
proof (cases "io_regular E (cs_calls s) \<and> data_of E (cs_disk s) sp \<noteq> None")
  case False
  then have "small n (cs_disk s')" using assms copy_other_small [of E t sp dp s err s' k n] by (auto simp: copy_item_def)
  then show ?thesis by (simp add: small_def)
next
  case True
  then have "changes_only (insert (io_key E dp) (if ct_move t then {io_key E sp} else {})) (cs_disk s) (cs_disk s')"
    using assms(1) copy_file_touches [of E t whole sp dp s err s'] by (simp add: copy_item_def)
  then have "changes_only {io_key E dp, io_key E sp} (cs_disk s) (cs_disk s')" by (auto simp: changes_only_def split: if_splits)
  moreover have "cs_disk s (io_key E sp) \<noteq> None" using True by (auto simp: data_of_def split: option.splits)
  ultimately show ?thesis using changes_only_small assms(4) by blast
qed

definition separates :: "copy_io \<Rightarrow> copy_task \<Rightarrow> wide_string \<Rightarrow> bool" where
  "separates E t sp \<longleftrightarrow> inj_on (io_key E) (range (next_path (ct_destination t) (stem sp) (extension sp)))"

lemma choose_target_ends:
  assumes "small n d" "n < 2 ^ 32" "separates E t sp"
  shows "choose_target E c t sp d \<noteq> None"
proof -
  have "finite (dom d)" "card (dom d) < 2 ^ 32" using assms(1,2) by (auto simp: small_def)
  from free_name_bound [OF this plain_stem plain_extension, of E "ct_destination t" sp sp c "plain_target t sp" 1] show ?thesis
    using assms(3) by (auto simp: choose_target_def separates_def)
qed

lemma copy_loop_ends:
  assumes "keeps_small k E"
  shows "k \<le> n \<Longrightarrow> small n (cs_disk s) \<Longrightarrow> n + length sps < 2 ^ 32 \<Longrightarrow> \<forall>sp \<in> set sps. separates E t sp \<Longrightarrow>
    copy_loop E t whole ready sps s \<noteq> None"
proof (induction sps arbitrary: n ready s)
  case (Cons sp sps)
  have sep: "separates E t sp" and rest: "\<forall>sp \<in> set sps. separates E t sp" using Cons.prems(4) by simp_all
  have room: "n < 2 ^ 32" "k \<le> n + 1" "n + 1 + length sps < 2 ^ 32" using Cons.prems(1,3) by simp_all
  have more: "copy_loop E t whole ready sps s' \<noteq> None" if "small (n + 1) (cs_disk s')" for ready s'
    by (rule Cons.IH [OF room(2) that room(3) rest])
  obtain r where r: "choose_target E (cs_calls s) t sp (cs_disk s) = Some r" using choose_target_ends [OF Cons.prems(2) room(1) sep] by blast
  show ?case
  proof (cases r)
    case None
    have "small (n + 1) (cs_disk (called 1 s))" using Cons.prems(2) by (simp add: small_def)
    from more [OF this] show ?thesis using r None by simp
  next
    case (Some dp)
    obtain e s1 where i: "copy_item E t whole sp dp (called 1 s) = (e, s1)" by fastforce
    have "small (n + 1) (cs_disk s1)" using copy_item_small [OF i assms Cons.prems(1)] Cons.prems(2) by simp
    thus ?thesis using r Some i more [of s1] more [of "report (ready + 1) (length (ct_sources t)) s1"] by (cases e; cases "whole = 0") simp_all
  qed
qed simp

text \<open>
  C14. The job always ends, whatever fails and whenever it is cancelled: the chunks of a file run out, and on a disk that never has \<open>2 ^ 32\<close>
  files - NTFS admits one less - the search for a free name finds one, since names that differ in their number lead to different files and
  the 32-bit counter repeats none before.
\<close>

theorem copy_job_ends:
  assumes "small k d" "keeps_small k E" "k + length (ct_sources t) < 2 ^ 32" "\<forall>sp \<in> set (ct_sources t). separates E t sp"
  shows "\<exists>err s. run_copy E t d = Some (err, s)"
  using copy_loop_ends [OF assms(2) order_refl, of "start_copy d" "ct_sources t" t] assms(1,3,4) by (auto simp: run_copy_def start_copy_def)

theorem copy_job_ends_witness: "\<exists>err s. run_copy cancelling_io (a_task True ''keep_both'' '''') one_file = Some (err, s)"
  by (rule copy_job_ends [where k = 1])
    (simp_all add: one_file_def small_def keeps_small_def cancelling_io_def calm_io_def no_folders_def separates_def)

section \<open>What is lost\<close>

text \<open>
  A file that is copied or moved into the folder it is in, where an existing file is to be replaced, is destroyed: it is emptied before it is
  read, and a move removes what is left; the job reports success.
\<close>

theorem copy_onto_itself:
  assumes "faultless E" "ct_sources t = [sp]" "replaces t" "data_of E d sp = Some x" "io_key E (plain_target t sp) = io_key E sp"
  shows "\<exists>s. run_copy E t d = Some (None, s) \<and> cs_disk s (io_key E sp) = (if ct_move t then None else Some (Data []))"
proof -
  have "target_ready E t d sp" using assms(3,4,5) by (simp add: target_ready_def data_of_Some)
  hence "spec_copy E t (ct_sources t) d = Some (None, place E (ct_move t) sp (plain_target t sp) d)"
    using assms(2,4,5) target_ready_chosen [of E t d sp] by (simp add: spec_item_def)
  moreover have "map_option (\<lambda>(err, s). (err, cs_disk s)) (run_copy E t d) = spec_copy E t (ct_sources t) d"
    unfolding run_copy_def using copy_loop_faultless [OF assms(1)] by (simp add: start_copy_def)
  ultimately show ?thesis using assms(5) by (auto simp: place_def Let_def source_data_def data_of_def)
qed

theorem copy_onto_itself_witness:
  "\<exists>s. run_copy calm_io (a_task True ''replace'' '''') one_file = Some (None, s) \<and> cs_disk s (here_path ''a'') = None"
  using copy_onto_itself [OF calm_io_faultless, of "a_task True ''replace'' ''''" "here_path ''a''" one_file "''xyz''"]
  by (auto simp: a_task_target there_path one_file_def data_of_def replaces_def keeps_both_def)

text \<open>
  A query for the destination that fails is taken for a free path: whatever the strategy, also one that skips or keeps both, a file that is there
  is emptied and written over, and the job reports success.
\<close>

theorem failed_probe_overwrites:
  assumes "undisturbed E" "\<forall>c j. \<not> io_probe E c j" "ct_sources t = [sp]" "\<not> ct_move t"
    and "data_of E d sp = Some x" "data_of E d (plain_target t sp) = Some y" "io_key E (plain_target t sp) \<noteq> io_key E sp"
  shows "\<exists>s. run_copy E t d = Some (None, s) \<and> cs_disk s (io_key E (plain_target t sp)) = Some (Data x)"
proof -
  let ?s = "called 1 (start_copy d)" and ?w = "total_size E d [sp]"
  obtain err s1 where i: "copy_item E t ?w sp (plain_target t sp) ?s = (err, s1)" by fastforce
  have "choose_target E c t sp d = Some (Some (plain_target t sp))" for c using assms(2) by (simp add: choose_target_def exists_on_def)
  moreover have "err = None \<and> cs_disk s1 (io_key E (plain_target t sp)) = Some (Data x)"
  proof -
    have "source_data E d sp (plain_target t sp) = x" using assms(5,7) by (simp add: source_data_other)
    then have "spec_item E t sp (plain_target t sp) d = (None, d(io_key E (plain_target t sp) \<mapsto> Data x))"
      using assms(4,5) assms(6) [unfolded data_of_Some] by (simp add: spec_item_def place_def)
    moreover have "spec_item E t sp (plain_target t sp) d = (err, cs_disk s1)" using copy_item_faultless [OF assms(1) i] by (simp add: start_copy_def)
    ultimately have "err = None" "cs_disk s1 = d(io_key E (plain_target t sp) \<mapsto> Data x)" by simp_all
    then show ?thesis by simp
  qed
  ultimately show ?thesis
    using i assms(1,3) by (cases "?w = 0") (simp_all add: run_copy_def undisturbed_simps start_copy_def)
qed

definition blind_io :: copy_io where
  "blind_io = calm_io\<lparr>io_probe := (\<lambda>_ _. False)\<rparr>"

definition two_files :: disk where
  "two_files = [here_path ''a'' \<mapsto> Data ''xyz'', here_path (''d'' @ [CHR 0x5C] @ ''a'') \<mapsto> Data ''kept'']"

theorem failed_probe_overwrites_witness:
  "\<exists>s. run_copy blind_io (a_task False ''skip'' ''d'') two_files = Some (None, s) \<and>
    cs_disk s (here_path (''d'' @ [CHR 0x5C] @ ''a'')) = Some (Data ''xyz'')"
proof -
  have "undisturbed blind_io" by (simp add: undisturbed_def blind_io_def calm_io_def)
  from failed_probe_overwrites [OF this, of "a_task False ''skip'' ''d''" "here_path ''a''" two_files "''xyz''" "''kept''"]
  show ?thesis by (simp add: blind_io_def a_task_target there_path here_path_inject two_files_def data_of_def)
qed

text \<open>The stream of the destination is never asked whether it failed: a move to a full disk removes the source all the same.\<close>

lemma chunk_loop_deaf:
  assumes "\<forall>n. \<not> io_cancel E n \<and> io_write E n = Some 0" "chunk_loop E whole dp data broken s = (c, s')"
    "cs_disk s (io_key E dp) = Some (Data [])"
  shows "\<not> c \<and> cs_disk s' (io_key E dp) = Some (Data [])"
proof -
  have put: "cs_disk s1 (io_key E dp) = Some (Data [])"
    if "chunk_put E whole dp got broken s = (b1, s1)" "cs_disk s (io_key E dp) = Some (Data [])" for got broken s b1 s1
    using that assms(1) by (auto simp: chunk_put_def write_chunk_def data_of_def Let_def split: if_splits)
  have "cs_disk s (io_key E dp) = Some (Data []) \<longrightarrow> \<not> c \<and> cs_disk s' (io_key E dp) = Some (Data [])"
    using assms(2) by (rule chunk_loop_rule) (use assms(1) put in blast)+
  thus ?thesis using assms(3) by blast
qed

theorem unwritten_move_loses:
  assumes "\<forall>n. \<not> io_cancel E n \<and> io_write E n = Some 0 \<and> io_open_in E n \<and> io_open_out E n \<and> io_remove E n \<and> io_regular E n" "ct_move t"
    and "data_of E d sp = Some x" "target_ready E t d sp" "io_key E (plain_target t sp) \<noteq> io_key E sp" "ct_sources t = [sp]"
  shows "\<exists>s. run_copy E t d = Some (None, s) \<and> cs_disk s (io_key E sp) = None \<and> cs_disk s (io_key E (plain_target t sp)) = Some (Data [])"
proof -
  let ?dp = "plain_target t sp" and ?whole = "total_size E d [sp]"
  let ?s = "called 2 (put_disk (d(io_key E ?dp \<mapsto> Data [])) (called 1 (start_copy d)))"
  obtain c s1 where l: "chunk_loop E ?whole ?dp (source_data E d sp ?dp) False ?s = (c, s1)" by fastforce
  have over: "\<not> c" "cs_disk s1 (io_key E ?dp) = Some (Data [])" using chunk_loop_deaf [OF _ l] assms(1) by auto
  have "copy_file E t ?whole sp ?dp (called 1 (start_copy d)) = (None, remove_file E sp s1)"
    using copy_file_opened [of E "called 1 (start_copy d)" ?dp ?whole sp c s1 t] l assms(1,2) over(1) target_ready_chosen [OF assms(4)]
    by (simp add: start_copy_def)
  thus ?thesis using assms target_ready_chosen [OF assms(4)] over(2)
    by (auto simp: run_copy_def copy_item_def start_copy_def remove_file_def)
qed

text \<open>A copy that is cancelled removes the destination, the file that was to be replaced with it.\<close>

lemma cancelled_replace_removes:
  assumes "copy_file E t whole sp dp s = (Some cancelled_text, s')" "\<forall>n. io_remove E n"
  shows "cs_disk s' (io_key E dp) = None"
proof -
  have "''Erro ao abrir origem: '' @ u \<noteq> cancelled_text" "''Erro ao criar destino: '' @ u \<noteq> cancelled_text" for u
    by (simp_all add: cancelled_text_def operation_text_def)
  thus ?thesis using assms by (auto simp: copy_file_def remove_file_def Let_def split: if_splits prod.splits)
qed

end
