(* ===== verification/File_Facts.thy ===== *)
theory File_Facts
  imports File_Changes "HOL-Library.AList"
begin

text \<open>
  Facts on the file service: what every operation keeps (locale \<open>kept_by_files\<close>: a relation kept by the three things the operations are made of,
  a token that is issued, one that is resolved, a change of the disk), and its instances: the table of tokens stays well formed, a token
  lives as long as it was given.
\<close>

section \<open>The operations\<close>

datatype file_request =
  List_Location string | List_Entry string | Open_Entry string | Create_Folder string string | Rename_Item string string
  | Delete_Items "string list" bool | Copy_Or_Move "string list" nat string "string list" string string | List_Drives | Resolve_Path wide_string bool

definition serve_files :: "'d files_api \<Rightarrow> file_request \<Rightarrow> manager \<times> 'd files \<Rightarrow> manager \<times> 'd files" where
  "serve_files A q ms =
     (case ms of (m, s) \<Rightarrow>
        (case q of
           List_Location l \<Rightarrow> (m, snd (list_location A l s))
         | List_Entry i \<Rightarrow> (m, snd (list_entry A i s))
         | Open_Entry i \<Rightarrow> (m, snd (open_entry A i s))
         | Create_Folder i n \<Rightarrow> (m, snd (create_folder A i n s))
         | Rename_Item i n \<Rightarrow> (m, snd (rename_item A i n s))
         | Delete_Items is p \<Rightarrow> (m, snd (delete_items A is p s))
         | Copy_Or_Move order now k is d st \<Rightarrow> (case copy_or_move A order now k is d st m s of ((r, m), s) \<Rightarrow> (m, s))
         | List_Drives \<Rightarrow> (m, snd (list_drives A s))
         | Resolve_Path p f \<Rightarrow> (m, snd (issue_capability A p f s))))"

fun serve_all_files :: "'d files_api \<Rightarrow> file_request list \<Rightarrow> manager \<times> 'd files \<Rightarrow> manager \<times> 'd files" where
  "serve_all_files A [] ms = ms"
| "serve_all_files A (q # qs) ms = serve_all_files A qs (serve_files A q ms)"

section \<open>What every operation keeps\<close>

locale kept_by_files =
  fixes A :: "'d files_api" and R :: "'d files \<Rightarrow> 'd files \<Rightarrow> bool"
  assumes refl: "R s s"
    and trans: "R a b \<Longrightarrow> R b c \<Longrightarrow> R a c"
    and issued: "R s (snd (issue_capability A p f s))"
    and resolved: "R s (snd (resolve_capability A i s))"
    and changed: "R s (s\<lparr>fs_disk := d\<rparr>)"
begin

lemma issue: "issue_capability A p f s = (i, s') \<Longrightarrow> R s s'"
  using issued by (metis snd_conv)

lemma resolve: "resolve_capability A i s = (r, s') \<Longrightarrow> R s s'"
  using resolved by (metis snd_conv)

lemma attach: "R s (snd (attach_capabilities A is s))"
proof (induction "is" arbitrary: s)
  case (Cons i "is")
  obtain e s1 where e: "issue_capability A (to_wide A (ei_path i)) (ei_folder i) s = (e, s1)" by fastforce
  thus ?case using trans [OF issue [OF e] Cons [of s1]] by (simp add: split_beta)
qed (simp add: refl)

lemma location: "R s (snd (list_location A l s))"
  using attach refl by (auto simp: list_location_def split_beta split: sum.split)

lemma entry: "R s (snd (list_entry A i s))"
proof -
  obtain r s1 where r: "resolve_capability A i s = (r, s1)" by fastforce
  note first = resolve [OF r]
  show ?thesis
  proof (cases r)
    case Inl thus ?thesis using r first by (simp add: list_entry_def)
  next
    case (Inr c)
    have "R s (snd (attach_capabilities A is s1))" for "is" using first attach trans by blast
    thus ?thesis using r first Inr by (simp add: list_entry_def Let_def split_beta split: sum.split)
  qed
qed

lemma opened: "R s (snd (open_entry A i s))"
proof -
  obtain r s1 where r: "resolve_capability A i s = (r, s1)" by fastforce
  show ?thesis using r resolve [OF r] changed trans by (cases r) (auto simp: open_entry_def Let_def split_beta)
qed

lemma create: "R s (snd (create_folder A i n s))"
proof -
  obtain r s1 where r: "resolve_capability A i s = (r, s1)" by fastforce
  note first = resolve [OF r]
  have "R s (s1\<lparr>fs_disk := d\<rparr>)" for d using first changed trans by blast
  moreover from this have "R s (snd (issue_capability A p f (s1\<lparr>fs_disk := d\<rparr>)))" for p f d using issued trans by blast
  ultimately show ?thesis using r first by (cases r) (auto simp: create_folder_def Let_def split_beta)
qed

lemma rename: "R s (snd (rename_item A i n s))"
proof -
  obtain r s1 where r: "resolve_capability A i s = (r, s1)" by fastforce
  note first = resolve [OF r]
  have "R s (s1\<lparr>fs_disk := d\<rparr>)" for d using first changed trans by blast
  moreover from this have "R s (snd (issue_capability A p f (s1\<lparr>fs_disk := d\<rparr>)))" for p f d using issued trans by blast
  ultimately show ?thesis using r first by (cases r) (auto simp: rename_item_def Let_def split_beta split: option.split)
qed

lemma delete_all: "R s (snd (delete_loop A permanent is deleted err s))"
proof (induction "is" arbitrary: deleted err s)
  case (Cons i "is")
  obtain r s1 where r: "resolve_capability A i s = (r, s1)" by fastforce
  note first = resolve [OF r]
  have "R s (snd (delete_loop A permanent is x y s1))" "R s (snd (delete_loop A permanent is x y (s1\<lparr>fs_disk := d\<rparr>)))" for x y d
    using first changed Cons trans by blast+
  thus ?case using r first by (cases r) (simp_all add: split_beta)
qed (simp add: refl)

lemma delete: "R s (snd (delete_items A is permanent s))"
  using delete_all refl by (auto simp: delete_items_def Let_def split_beta)

lemma sources: "R s (snd (resolve_sources A is s))"
proof (induction "is" arbitrary: s)
  case (Cons i "is")
  obtain r s1 where r: "resolve_capability A i s = (r, s1)" by fastforce
  thus ?case using trans [OF resolve [OF r] Cons [of s1]] by (simp add: split_beta)
qed (simp add: refl)

lemma copy: "R s (snd (copy_or_move A order now k is d st m s))"
proof -
  obtain r s1 where r: "resolve_capability A d s = (r, s1)" by fastforce
  note first = resolve [OF r]
  have "R s (snd (resolve_sources A is s1))" using first sources trans by blast
  thus ?thesis using r first by (cases r) (simp_all add: copy_or_move_def Let_def split_beta)
qed

lemma volumes: "R s (snd (list_volumes A vs s))"
proof (induction vs arbitrary: s)
  case (Cons v vs)
  obtain i s1 where i: "issue_capability A (vo_root v) True s = (i, s1)" by fastforce
  thus ?case using Cons [of s] trans [OF issue [OF i] Cons [of s1]] by (simp add: split_beta)
qed (simp add: refl)

lemma distros: "R s (snd (list_distros A ds s))"
proof (induction ds arbitrary: s)
  case (Cons d ds)
  obtain name state where d: "d = (name, state)" by fastforce
  obtain i s1 where i: "issue_capability A (wsl_host @ to_wide A name) True s = (i, s1)" by fastforce
  thus ?case using d Cons [of s] trans [OF issue [OF i] Cons [of s1]] by (simp add: split_beta Let_def)
qed (simp add: refl)

lemma drives: "R s (snd (list_drives A s))"
proof -
  have "R s (snd (list_distros A ds (snd (list_volumes A vs s))))" for ds vs using volumes distros trans by blast
  thus ?thesis using refl by (simp add: list_drives_def split_beta split: option.split)
qed

lemma one: "R (snd ms) (snd (serve_files A q ms))"
  by (cases ms; cases q)
    (simp_all add: serve_files_def location entry opened create rename delete drives issued copy split_beta split: prod.splits)

lemma all: "R (snd ms) (snd (serve_all_files A qs ms))"
proof (induction qs arbitrary: ms)
  case (Cons q qs)
  show ?case using trans [OF one [of ms q] Cons [of "serve_files A q ms"]] by simp
qed (simp add: refl)

end

section \<open>The table of tokens\<close>

lemma set_update: "x \<in> set (AList.update k v al) \<Longrightarrow> x = (k, v) \<or> x \<in> set al"
  by (induction al) (auto split: if_splits)

lemma length_update: "length (AList.update k v al) \<le> Suc (length al)"
proof -
  have "length (AList.update k v al) = length (map fst (AList.update k v al))" by simp
  thus ?thesis by (simp only: update_keys) simp
qed

lemma cleanup_facts:
  "length (cleanup_expired now caps) < kMaxCapabilities" "length (cleanup_expired now caps) \<le> length caps"
  "set (cleanup_expired now caps) \<subseteq> {x \<in> set caps. now < cp_expires (snd x)}"
  "distinct (map fst caps) \<Longrightarrow> distinct (map fst (cleanup_expired now caps))"
  by (auto simp: cleanup_expired_def Let_def kMaxCapabilities_def distinct_map_filter not_le)

lemma map_of_filter: "map_of caps i = Some c \<Longrightarrow> P (i, c) \<Longrightarrow> map_of (filter P caps) i = Some c"
  by (induction caps) (auto split: if_splits)

lemma cleanup_keeps:
  assumes "map_of caps i = Some c" "now < cp_expires c" "length caps < kMaxCapabilities"
  shows "map_of (cleanup_expired now caps) i = Some c"
proof -
  have "length (filter (\<lambda>(i, c). now < cp_expires c) caps) < kMaxCapabilities" using assms(3) length_filter_le [of _ caps] le_less_trans by blast
  thus ?thesis using map_of_filter [of caps i c "\<lambda>(i, c). now < cp_expires c"] assms(1,2) by (simp add: cleanup_expired_def)
qed

text \<open>The table: no token twice, not more than the limit, and each token was made by the generator and expires an hour after that.\<close>

definition token_made :: "'d files_api \<Rightarrow> nat \<Rightarrow> string \<times> capability \<Rightarrow> bool" where
  "token_made A calls x \<longleftrightarrow> (\<exists>n g. n < calls \<and> fa_guid A n = Some g \<and> fst x = ''f21:'' @ g \<and> cp_expires (snd x) = fa_now A (n + 1) + kCapabilityLifetime)"

definition caps_ok :: "'d files_api \<Rightarrow> 'd files \<Rightarrow> bool" where
  "caps_ok A s \<longleftrightarrow> distinct (map fst (fs_caps s)) \<and> length (fs_caps s) \<le> kMaxCapabilities \<and> (\<forall>x \<in> set (fs_caps s). token_made A (fs_calls s) x)"

lemma token_made_mono: "token_made A m x \<Longrightarrow> m \<le> n \<Longrightarrow> token_made A n x"
  unfolding token_made_def by (meson order.strict_trans2)

lemma resolve_state:
  "snd (resolve_capability A i s) = (if i = [] then s else s\<lparr>fs_calls := fs_calls s + 1, fs_caps := cleanup_expired (fa_now A (fs_calls s)) (fs_caps s)\<rparr>)"
  by (simp add: resolve_capability_def Let_def split: option.split)

lemma issue_result:
  assumes "issue_capability A p f s = (i, s')"
  obtains "i = []" "fs_caps s' = fs_caps s" "fs_calls s \<le> fs_calls s'" "fs_calls s' \<le> fs_calls s + 1" "fs_disk s' = fs_disk s"
    | g where "p \<noteq> []" "fa_guid A (fs_calls s) = Some g" "i = ''f21:'' @ g" "fs_calls s' = fs_calls s + 2" "fs_disk s' = fs_disk s"
      "fs_caps s' = AList.update i \<lparr>cp_path = lexically_normal p, cp_folder = f, cp_expires = fa_now A (fs_calls s + 1) + kCapabilityLifetime\<rparr>
         (cleanup_expired (fa_now A (fs_calls s + 1)) (fs_caps s))"
  using assms by (auto simp: issue_capability_def Let_def split: if_splits option.splits)

lemma issue_caps_ok:
  assumes "caps_ok A s"
  shows "caps_ok A (snd (issue_capability A p f s))"
proof -
  obtain i s' where r: "issue_capability A p f s = (i, s')" by fastforce
  thus ?thesis
  proof (cases rule: issue_result)
    case 1
    thus ?thesis using assms r token_made_mono by (force simp: caps_ok_def)
  next
    case (2 g)
    let ?caps = "cleanup_expired (fa_now A (fs_calls s + 1)) (fs_caps s)"
    have "token_made A (fs_calls s') x" if "x \<in> set (fs_caps s')" for x
    proof -
      from that 2(6) consider "x = (i, \<lparr>cp_path = lexically_normal p, cp_folder = f, cp_expires = fa_now A (fs_calls s + 1) + kCapabilityLifetime\<rparr>)" | "x \<in> set ?caps"
        using set_update by metis
      thus ?thesis
      proof cases
        case 1
        thus ?thesis unfolding token_made_def by (intro exI [of _ "fs_calls s"] exI [of _ g]) (simp add: 2(2,3,4))
      next
        case 2
        hence "x \<in> set (fs_caps s)" using cleanup_facts(3) by blast
        thus ?thesis using assms token_made_mono \<open>fs_calls s' = fs_calls s + 2\<close> unfolding caps_ok_def by (metis le_add1)
      qed
    qed
    moreover have "distinct (map fst (fs_caps s'))" using assms by (simp add: 2(6) distinct_update cleanup_facts(4) caps_ok_def)
    moreover have "length (fs_caps s') \<le> kMaxCapabilities"
      unfolding 2(6) by (rule order.trans [OF length_update]) (use cleanup_facts(1) in \<open>simp add: Suc_le_eq\<close>)
    ultimately show ?thesis using r by (simp add: caps_ok_def)
  qed
qed

lemma resolve_caps_ok:
  assumes "caps_ok A s"
  shows "caps_ok A (snd (resolve_capability A i s))"
proof -
  have "length (cleanup_expired now (fs_caps s)) \<le> kMaxCapabilities" for now using cleanup_facts(1) [of now "fs_caps s"] by simp
  moreover have "token_made A (fs_calls s + 1) x" if "x \<in> set (cleanup_expired now (fs_caps s))" for x now
    using that cleanup_facts(3) [of now "fs_caps s"] assms token_made_mono [of A "fs_calls s" x "fs_calls s + 1"] by (auto simp: caps_ok_def)
  ultimately show ?thesis using assms cleanup_facts(4) by (auto simp: resolve_state caps_ok_def)
qed

interpretation table: kept_by_files A "\<lambda>s s'. caps_ok A s \<longrightarrow> caps_ok A s'" for A
  by unfold_locales (auto simp: issue_caps_ok resolve_caps_ok, simp add: caps_ok_def)

section \<open>The life of a token\<close>

text \<open>
  Between two states: a token is still there if no clock reading between them reached its end, the table cannot have become full, and the
  generator did not repeat it. The table grows by at most one entry in two calls.
\<close>

definition token_lives :: "'d files_api \<Rightarrow> 'd files \<Rightarrow> 'd files \<Rightarrow> bool" where
  "token_lives A s s' \<longleftrightarrow> fs_calls s \<le> fs_calls s' \<and> length (fs_caps s') + fs_calls s \<le> length (fs_caps s) + fs_calls s' \<and>
     (\<forall>i c. map_of (fs_caps s) i = Some c \<and> length (fs_caps s) + (fs_calls s' - fs_calls s) < kMaxCapabilities \<and>
        (\<forall>n. fs_calls s \<le> n \<and> n < fs_calls s' \<longrightarrow> fa_now A n < cp_expires c \<and> map_option ((@) ''f21:'') (fa_guid A n) \<noteq> Some i) \<longrightarrow>
        map_of (fs_caps s') i = Some c)"

lemma token_lives_trans:
  assumes "token_lives A a b" "token_lives A b c"
  shows "token_lives A a c"
  unfolding token_lives_def
proof (intro conjI allI impI)
  show "fs_calls a \<le> fs_calls c" "length (fs_caps c) + fs_calls a \<le> length (fs_caps a) + fs_calls c"
    using assms by (auto simp: token_lives_def)
  fix i x
  assume h: "map_of (fs_caps a) i = Some x \<and> length (fs_caps a) + (fs_calls c - fs_calls a) < kMaxCapabilities \<and>
    (\<forall>n. fs_calls a \<le> n \<and> n < fs_calls c \<longrightarrow> fa_now A n < cp_expires x \<and> map_option ((@) ''f21:'') (fa_guid A n) \<noteq> Some i)"
  have le: "fs_calls a \<le> fs_calls b" "fs_calls b \<le> fs_calls c" "length (fs_caps b) + fs_calls a \<le> length (fs_caps a) + fs_calls b"
    using assms by (auto simp: token_lives_def)
  note live = h [THEN conjunct2, THEN conjunct2, rule_format]
  have "length (fs_caps a) + (fs_calls b - fs_calls a) < kMaxCapabilities" using h le by linarith
  hence "map_of (fs_caps b) i = Some x"
    using assms(1) h live le order.strict_trans2 [OF _ le(2)] unfolding token_lives_def by blast
  moreover have "length (fs_caps b) + (fs_calls c - fs_calls b) < kMaxCapabilities" using h le by linarith
  ultimately show "map_of (fs_caps c) i = Some x"
    using assms(2) live le order.trans [OF le(1)] unfolding token_lives_def by blast
qed

lemma issue_token_lives: "token_lives A s (snd (issue_capability A p f s))"
proof -
  obtain j s' where r: "issue_capability A p f s = (j, s')" by fastforce
  thus ?thesis
  proof (cases rule: issue_result)
    case 1
    thus ?thesis using r by (simp add: token_lives_def)
  next
    case (2 g)
    let ?caps = "cleanup_expired (fa_now A (fs_calls s + 1)) (fs_caps s)"
    have "length (fs_caps s') \<le> Suc (length (fs_caps s))"
      unfolding 2(6) using length_update [of j _ ?caps] cleanup_facts(2) by (meson Suc_le_mono order.trans)
    moreover have "map_of (fs_caps s') i = Some c"
      if "map_of (fs_caps s) i = Some c" "length (fs_caps s) + 2 < kMaxCapabilities"
        "\<forall>n. fs_calls s \<le> n \<and> n < fs_calls s + 2 \<longrightarrow> fa_now A n < cp_expires c \<and> map_option ((@) ''f21:'') (fa_guid A n) \<noteq> Some i" for i c
    proof -
      have "i \<noteq> j" using that(3) [rule_format, of "fs_calls s"] 2(2,3) by auto
      moreover have "map_of ?caps i = Some c" using that by (intro cleanup_keeps) auto
      ultimately show ?thesis unfolding 2(6) by (simp add: update_conv)
    qed
    ultimately show ?thesis using r 2(4) by (auto simp: token_lives_def)
  qed
qed

lemma resolve_token_lives: "token_lives A s (snd (resolve_capability A i s))"
  using cleanup_facts(2) [of "fa_now A (fs_calls s)" "fs_caps s"] cleanup_keeps
  by (auto simp: resolve_state token_lives_def)

interpretation tokens: kept_by_files A "token_lives A" for A
  by unfold_locales (auto simp: issue_token_lives resolve_token_lives intro: token_lives_trans, simp_all add: token_lives_def)

lemma resolve_there:
  assumes "map_of (fs_caps s) i = Some c" "fa_now A (fs_calls s) < cp_expires c" "length (fs_caps s) < kMaxCapabilities" "i \<noteq> []"
  shows "fst (resolve_capability A i s) = Inr c"
  using cleanup_keeps [OF assms(1,2,3)] assms(4) by (simp add: resolve_capability_def Let_def)

end
