(* ===== verification/File_Props.thy ===== *)
theory File_Props
  imports File_Facts Path_Facts "HOL-Library.Sublist"
begin

text \<open>Theorems on the file service.\<close>

section \<open>Tokens\<close>

definition generator_unique :: "'d files_api \<Rightarrow> bool" where
  "generator_unique A \<longleftrightarrow> (\<forall>m n g. fa_guid A m = Some g \<and> fa_guid A n = Some g \<longrightarrow> m = n)"

lemma issued_there:
  assumes "issue_capability A p f s = (i, s')" "i \<noteq> []"
  shows "map_of (fs_caps s') i = Some \<lparr>cp_path = lexically_normal p, cp_folder = f, cp_expires = fa_now A (fs_calls s + 1) + kCapabilityLifetime\<rparr>"
    "\<exists>g. i = ''f21:'' @ g \<and> fa_guid A (fs_calls s) = Some g" "fs_calls s' = fs_calls s + 2"
  using assms(1) by (cases rule: issue_result, use assms(2) in \<open>auto simp: update_conv'\<close>)+

lemma token_resolves:
  assumes "issue_capability A p f s = (i, s1)" "i \<noteq> []" "token_lives A s1 s2" "generator_unique A"
    and "\<forall>n. fs_calls s1 \<le> n \<and> n \<le> fs_calls s2 \<longrightarrow> fa_now A n < fa_now A (fs_calls s + 1) + kCapabilityLifetime"
    and "length (fs_caps s1) + (fs_calls s2 - fs_calls s1) < kMaxCapabilities"
  shows "fst (resolve_capability A i s2) =
    Inr \<lparr>cp_path = lexically_normal p, cp_folder = f, cp_expires = fa_now A (fs_calls s + 1) + kCapabilityLifetime\<rparr>"
proof -
  obtain g where g: "i = ''f21:'' @ g" "fa_guid A (fs_calls s) = Some g" using issued_there(2) [OF assms(1,2)] by blast
  have fresh: "map_option ((@) ''f21:'') (fa_guid A n) \<noteq> Some i" if "fs_calls s1 \<le> n" for n
  proof
    assume "map_option ((@) ''f21:'') (fa_guid A n) = Some i"
    hence "fa_guid A n = Some g" using g(1) by auto
    hence "n = fs_calls s" using assms(4) g(2) unfolding generator_unique_def by blast
    thus False using that issued_there(3) [OF assms(1,2)] by simp
  qed
  have "map_of (fs_caps s2) i = Some \<lparr>cp_path = lexically_normal p, cp_folder = f, cp_expires = fa_now A (fs_calls s + 1) + kCapabilityLifetime\<rparr>"
    by (rule assms(3) [unfolded token_lives_def, THEN conjunct2, THEN conjunct2, rule_format])
      (use issued_there(1) [OF assms(1,2)] assms(5,6) fresh in auto)
  moreover have "fs_calls s1 \<le> fs_calls s2" "length (fs_caps s2) < kMaxCapabilities" using assms(3,6) by (auto simp: token_lives_def)
  ultimately show ?thesis using assms(2,5) by (intro resolve_there) simp_all
qed

text \<open>
  C10. A token that was issued resolves to the path it was issued for, in normal form, for 60 minutes: whatever requests are served in between, as
  long as the generator does not repeat an identifier and the table cannot have been filled.
\<close>

theorem token_lasts_an_hour:
  assumes "issue_capability A p f s = (i, s1)" "i \<noteq> []" "serve_all_files A qs (m, s1) = (m', s2)" "generator_unique A"
    and "\<forall>n. fs_calls s1 \<le> n \<and> n \<le> fs_calls s2 \<longrightarrow> fa_now A n < fa_now A (fs_calls s + 1) + kCapabilityLifetime"
    and "length (fs_caps s1) + (fs_calls s2 - fs_calls s1) < kMaxCapabilities"
  shows "fst (resolve_capability A i s2) =
    Inr \<lparr>cp_path = lexically_normal p, cp_folder = f, cp_expires = fa_now A (fs_calls s + 1) + kCapabilityLifetime\<rparr>"
proof -
  have "token_lives A s1 s2" using tokens.all [of A "(m, s1)" qs] assms(3) by simp
  thus ?thesis by (rule token_resolves [OF assms(1,2) _ assms(4,5,6)])
qed

definition quiet_files :: "'d files_api" where
  "quiet_files = \<lparr>fa_utf8 = map (\<lambda>c. char_of (unat c)), fa_wide = Workspace_Studio.wide, fa_fold = id, fa_now = (\<lambda>n. n), fa_guid = (\<lambda>n. Some (nat_dec n)),
     fa_known = (\<lambda>k. case k of Windows_Folder \<Rightarrow> Workspace_Studio.wide (''C:'' @ [CHR 0x5C] @ ''Windows'')
       | User_Profiles \<Rightarrow> Workspace_Studio.wide (''C:'' @ [CHR 0x5C] @ ''Users'') | _ \<Rightarrow> []),
     fa_windows_dir = None, fa_drive_override = None, fa_distros = [], fa_distro_states = [], fa_volumes = None, fa_attributes = (\<lambda>_ _. None),
     fa_find = (\<lambda>_ _. Nothing_Found), fa_exists = (\<lambda>_ _. False), fa_create = (\<lambda>_ d. ((True, None), d)), fa_rename = (\<lambda>_ _ d. (None, d)),
     fa_remove_all = (\<lambda>_ d. (None, d)), fa_recycle = (\<lambda>_ d. (True, d)), fa_open = (\<lambda>_ d. (True, d))\<rparr>"

definition start_files :: "'d \<Rightarrow> 'd files" where
  "start_files d = \<lparr>fs_caps = [], fs_calls = 0, fs_disk = d\<rparr>"

lemma quiet_unique: "generator_unique quiet_files"
  by (simp add: generator_unique_def quiet_files_def) (metis nat_dec_inject)

theorem token_lasts_an_hour_witness:
  "\<exists>i s1 s2. issue_capability quiet_files [0x61] False (start_files ()) = (i, s1) \<and>
    serve_all_files quiet_files [Open_Entry i, List_Drives] (new_manager, s1) = (new_manager, s2) \<and>
    fst (resolve_capability quiet_files i s2) = Inr \<lparr>cp_path = lexically_normal [0x61], cp_folder = False, cp_expires = 1 + kCapabilityLifetime\<rparr>"
proof -
  have now: "fa_now quiet_files n = n" for n by (simp add: quiet_files_def)
  obtain i s1 where i: "issue_capability quiet_files [0x61] False (start_files ()) = (i, s1)" by fastforce
  have s1: "i \<noteq> []" "fs_calls s1 = 2" "length (fs_caps s1) = 1"
    using i by (auto simp: issue_capability_def quiet_files_def start_files_def cleanup_expired_def Let_def)
  obtain m s2 where s2: "serve_all_files quiet_files [Open_Entry i, List_Drives] (new_manager, s1) = (m, s2)" by fastforce
  have "m = new_manager \<and> fs_calls s2 = 3"
    using s2 s1 by (auto simp: serve_files_def open_entry_def resolve_capability_def list_drives_def quiet_files_def Let_def
        split: option.splits sum.splits prod.splits if_splits)
  thus ?thesis using token_lasts_an_hour [OF i s1(1) s2 quiet_unique] i s2 s1
    by (auto simp: now start_files_def kCapabilityLifetime_def kMaxCapabilities_def)
qed

text \<open>
  A token that resolves was made by the generator at an earlier call and has not reached its end, an hour after that: nothing a client makes up
  and nothing old is accepted; and the table never exceeds its limit, nor holds a token twice.
\<close>

theorem only_made_tokens:
  assumes "serve_all_files A qs (m, start_files d) = (m', s)"
  shows "caps_ok A s \<and> (\<forall>i c. fst (resolve_capability A i s) = Inr c \<longrightarrow>
    token_made A (fs_calls s) (i, c) \<and> fa_now A (fs_calls s) < cp_expires c)"
proof (intro conjI allI impI)
  show ok: "caps_ok A s" using table.all [of A "(m, start_files d)" qs] assms by (simp add: caps_ok_def start_files_def)
  fix i c
  assume "fst (resolve_capability A i s) = Inr c"
  hence "map_of (cleanup_expired (fa_now A (fs_calls s)) (fs_caps s)) i = Some c"
    by (auto simp: resolve_capability_def Let_def split: if_splits option.splits)
  hence "(i, c) \<in> set (cleanup_expired (fa_now A (fs_calls s)) (fs_caps s))" by (rule map_of_SomeD)
  thus "token_made A (fs_calls s) (i, c)" "fa_now A (fs_calls s) < cp_expires c"
    using cleanup_facts(3) [of "fa_now A (fs_calls s)" "fs_caps s"] ok by (auto simp: caps_ok_def)
qed

theorem only_made_tokens_witness:
  "caps_ok quiet_files (snd (serve_all_files quiet_files [Resolve_Path [0x61] False] (new_manager, start_files ())))"
proof -
  obtain m s where s: "serve_all_files quiet_files [Resolve_Path [0x61] False] (new_manager, start_files ()) = (m, s)" by fastforce
  show ?thesis using only_made_tokens [OF s] s by simp
qed

section \<open>A full table\<close>

text \<open>
  A table that is full of living tokens is emptied when the next token is issued: that one is then the only one.
\<close>

theorem full_table_forgets:
  assumes "kMaxCapabilities \<le> length (filter (\<lambda>(i, c). fa_now A (fs_calls s + 1) < cp_expires c) (fs_caps s))"
    and "issue_capability A p f s = (i, s')" "i \<noteq> []"
  shows "map fst (fs_caps s') = [i]"
  using assms(2) by (cases rule: issue_result) (use assms(1,3) in \<open>auto simp: cleanup_expired_def\<close>)

section \<open>Listings\<close>

definition without_id :: "entry_item \<Rightarrow> entry_item" where
  "without_id x = x\<lparr>ei_id := []\<rparr>"

lemma attach_same: "attach_capabilities A is s = (is', s') \<Longrightarrow> map without_id is' = map without_id is \<and> map entry_key is' = map entry_key is"
  by (induction "is" arbitrary: s is' s') (auto simp: without_id_def entry_key_def split: prod.splits)

lemma list_entry_result:
  assumes "list_entry A i s = (Inr is, s')"
  obtains c s1 source ys where "resolve_capability A i s = (Inr c, s1)" "cp_folder c" "fs_disk s1 = fs_disk s"
    "enumerate_directory A (cp_path c) source (fs_disk s) = Inr ys" "attach_capabilities A ys s1 = (is, s')"
proof -
  obtain r s1 where r: "resolve_capability A i s = (r, s1)" by fastforce
  have disk: "fs_disk s1 = fs_disk s" using resolve_state [of A i s] r by (auto split: if_splits)
  obtain c where c: "r = Inr c" "cp_folder c" using assms r by (cases r) (auto simp: list_entry_def split: if_splits)
  have "(case enumerate_directory A (cp_path c) (entry_source A (cp_path c)) (fs_disk s) of Inl err \<Rightarrow> (Inl err, s1)
      | Inr is \<Rightarrow> let (is, s) = attach_capabilities A is s1 in (Inr is, s)) = (Inr is, s')"
    using assms r c disk by (simp add: list_entry_def split: if_splits)
  then obtain ys where "enumerate_directory A (cp_path c) (entry_source A (cp_path c)) (fs_disk s) = Inr ys" "attach_capabilities A ys s1 = (is, s')"
    by (auto split: sum.splits prod.splits)
  thus thesis using that [OF _ c(2) disk] r c by blast
qed

definition search_text :: "wide_string \<Rightarrow> wide_string" where
  "search_text directory = (if is_slash (last directory) then directory else directory @ [BACKSLASH]) @ [0x2A]"

text \<open>
  A listing of a folder is sorted, the folders first and then by name, and entries with the same name and kind stay in the order Windows gave
  them; apart from the tokens it holds exactly the visible entries, as long as these are not more than 25,000.
\<close>

theorem listing_complete:
  assumes "list_entry A i s = (Inr is, s')" "fst (resolve_capability A i s) = Inr c" "fa_find A (search_text (cp_path c)) (fs_disk s) = Found fs"
    and "length (filter visible fs) \<le> kMaxItems"
  shows "sorted (map entry_key is) \<and> (\<exists>source. mset (map without_id is) = mset (map (file_entry A (cp_path c) source) (filter visible fs)) \<and>
    (\<forall>k. filter (\<lambda>x. entry_key x = k) (map without_id is) = filter (\<lambda>x. entry_key x = k) (map (file_entry A (cp_path c) source) (filter visible fs))))"
  using assms(1)
proof (cases rule: list_entry_result)
  case (1 c' s1 source ys)
  have "c' = c" using 1(1) assms(2) by simp
  hence ys: "ys = sort_entries (map (file_entry A (cp_path c) source) (filter visible fs))"
    using 1(4) assms(3,4) by (auto simp: enumerate_directory_def search_text_def split: if_splits)
  have "map without_id ys = ys" unfolding ys by (rule map_idI) (auto simp: sort_entries_def without_id_def file_entry_def)
  thus ?thesis using attach_same [OF 1(5)] ys by (auto simp: sort_entries_def sort_key_stable intro!: exI [of _ source])
qed

lemma attach_resolves:
  assumes "attach_capabilities A is s = (is', s')" "generator_unique A" "length (fs_caps s) + (fs_calls s' - fs_calls s) < kMaxCapabilities"
    and "\<forall>m n. fs_calls s \<le> m \<and> m \<le> fs_calls s' \<and> fs_calls s \<le> n \<and> n \<le> fs_calls s' \<longrightarrow> fa_now A n < fa_now A m + kCapabilityLifetime"
    and "x \<in> set is'" "ei_id x \<noteq> []"
  shows "\<exists>c. fst (resolve_capability A (ei_id x) s') = Inr c \<and> cp_path c = lexically_normal (to_wide A (ei_path x)) \<and> cp_folder c = ei_folder x"
  using assms(1,3-6)
proof (induction "is" arbitrary: s is')
  case (Cons i "is")
  obtain e s1 where e: "issue_capability A (to_wide A (ei_path i)) (ei_folder i) s = (e, s1)" by fastforce
  obtain rest s2 where rest: "attach_capabilities A is s1 = (rest, s2)" by fastforce
  have same: "is' = i\<lparr>ei_id := e\<rparr> # rest" "s' = s2" using Cons.prems(1) e rest by auto
  have lives: "token_lives A s s1" "token_lives A s1 s'"
    using tokens.issue [OF e] tokens.attach [of A s1 "is"] rest same by simp_all
  hence calls: "fs_calls s \<le> fs_calls s1" "fs_calls s1 \<le> fs_calls s'"
    and room: "length (fs_caps s1) + (fs_calls s' - fs_calls s1) < kMaxCapabilities"
    using Cons.prems(2) by (auto simp: token_lives_def)
  show ?case
  proof (cases "x = i\<lparr>ei_id := e\<rparr>")
    case True
    hence "e \<noteq> []" using Cons.prems(5) by simp
    moreover have "fa_now A n < fa_now A (fs_calls s + 1) + kCapabilityLifetime" if "fs_calls s1 \<le> n \<and> n \<le> fs_calls s'" for n
      using Cons.prems(3) [rule_format, of "fs_calls s + 1" n] that calls issued_there(3) [OF e \<open>e \<noteq> []\<close>] by simp
    ultimately show ?thesis using token_resolves [OF e _ lives(2) assms(2) _ room] True by auto
  next
    case False
    hence "x \<in> set rest" using Cons.prems(4) same by simp
    thus ?thesis using Cons.IH [OF rest [folded same(2)] room _ _ Cons.prems(5)] Cons.prems(3) calls order.trans by blast
  qed
qed simp

text \<open>
  C13. Every entry of a listing whose token is not empty can be used: the token resolves to the entry's own path and kind, if within the listing the
  clock moved by less than an hour, the generator repeats nothing and the table was not filled.
\<close>

theorem listed_entries_resolve:
  assumes "list_entry A i s = (Inr is, s')" "generator_unique A"
    and "length (fs_caps s) + (fs_calls s' - fs_calls s) < kMaxCapabilities"
    and "\<forall>m n. fs_calls s \<le> m \<and> m \<le> fs_calls s' \<and> fs_calls s \<le> n \<and> n \<le> fs_calls s' \<longrightarrow> fa_now A n < fa_now A m + kCapabilityLifetime"
    and "x \<in> set is" "ei_id x \<noteq> []"
  shows "\<exists>c. fst (resolve_capability A (ei_id x) s') = Inr c \<and> cp_path c = lexically_normal (to_wide A (ei_path x)) \<and> cp_folder c = ei_folder x"
  using assms(1)
proof (cases rule: list_entry_result)
  case (1 c s1 source ys)
  have "token_lives A s s1" "token_lives A s1 s'"
    using tokens.resolve [OF 1(1)] tokens.attach [of A s1 ys] 1(5) by simp_all
  hence calls: "fs_calls s \<le> fs_calls s1" "length (fs_caps s1) + (fs_calls s' - fs_calls s1) < kMaxCapabilities"
    using assms(3) by (auto simp: token_lives_def)
  thus ?thesis using attach_resolves [OF 1(5) assms(2) calls(2) _ assms(5,6)] assms(4) order.trans by blast
qed

section \<open>Protected paths\<close>

definition spares_protected :: "'d files_api \<Rightarrow> ('d \<Rightarrow> bool) \<Rightarrow> bool" where
  "spares_protected A P \<longleftrightarrow> (\<forall>p d. \<not> is_protected_system_path A p \<and> P d \<longrightarrow> P (snd (fa_recycle A p d)) \<and> P (snd (fa_remove_all A p d)))"

lemma resolve_disk: "resolve_capability A i s = (r, s') \<Longrightarrow> fs_disk s' = fs_disk s"
  using resolve_state [of A i s] by (auto split: if_splits)

lemma remove_entry_spares:
  assumes "\<And>x. P x \<Longrightarrow> P (snd (fa_recycle A p x)) \<and> P (snd (fa_remove_all A p x))" "P d" "remove_entry A permanent p d = (k, d')"
  shows "P d'"
proof -
  obtain k1 d1 where 1: "fa_recycle A p d = (k1, d1)" by fastforce
  have "P d1" "P (snd (fa_remove_all A p d))" "P (snd (fa_remove_all A p d1))" using assms(1) [OF assms(2)] assms(1) [of d1] 1 by simp_all
  thus ?thesis using assms(3) 1 by (auto simp: remove_entry_def split_beta split: if_splits)
qed

lemma delete_loop_result:
  assumes "spares_protected A P"
  shows "P (fs_disk s) \<Longrightarrow> delete_loop A permanent is deleted err s = ((ok, deleted', err'), s') \<Longrightarrow>
    P (fs_disk s') \<and> (\<exists>ds. deleted' = deleted @ ds \<and> subseq ds is) \<and> (ok \<longrightarrow> deleted' \<noteq> [])"
proof (induction "is" arbitrary: deleted err s)
  case (Cons i "is")
  obtain r s1 where r: "resolve_capability A i s = (r, s1)" by fastforce
  have disk: "fs_disk s1 = fs_disk s" using resolve_disk [OF r] .
  show ?case
  proof (cases r)
    case (Inl e)
    thus ?thesis using Cons.IH [of s1 deleted e] Cons.prems r disk by auto
  next
    case (Inr c)
    show ?thesis
    proof (cases "is_protected_system_path A (cp_path c)")
      case True
      thus ?thesis using Cons.prems r Inr disk by auto
    next
      case False
      obtain k d where d: "remove_entry A permanent (cp_path c) (fs_disk s1) = (k, d)" by fastforce
      have spared: "P (snd (fa_recycle A (cp_path c) x)) \<and> P (snd (fa_remove_all A (cp_path c) x))" if "P x" for x
        using assms False that by (simp add: spares_protected_def)
      have "P d" by (rule remove_entry_spares [OF spared _ d]) (use Cons.prems(1) disk in simp_all)
      hence "P (fs_disk (s1\<lparr>fs_disk := d\<rparr>))" by simp
      moreover have "delete_loop A permanent is (if k then deleted @ [i] else deleted) err (s1\<lparr>fs_disk := d\<rparr>) = ((ok, deleted', err'), s')"
        using Cons.prems(2) r Inr False d by simp
      ultimately have "P (fs_disk s') \<and> (\<exists>ds. deleted' = (if k then deleted @ [i] else deleted) @ ds \<and> subseq ds is) \<and> (ok \<longrightarrow> deleted' \<noteq> [])"
        by (rule Cons.IH)
      thus ?thesis by (cases k) (auto intro: exI [of _ "i # _"])
    qed
  qed
qed simp

text \<open>
  A deletion touches no protected path: what holds of the disk and survives the removal of unprotected paths holds after it, whatever tokens
  the client sent and whether or not the request was refused on the way. The tokens it reports are among those sent, in their order, at least one.
\<close>

theorem deletion_spares_protected:
  assumes "spares_protected A P" "P (fs_disk s)" "delete_items A is permanent s = (r, s')"
  shows "P (fs_disk s') \<and> (\<forall>deleted. r = Inr deleted \<longrightarrow> subseq deleted is \<and> deleted \<noteq> [])"
proof (cases "is = []")
  case True
  thus ?thesis using assms by (auto simp: delete_items_def)
next
  case False
  obtain ok deleted err s1 where l: "delete_loop A permanent is [] [] s = ((ok, deleted, err), s1)"
    by (cases "delete_loop A permanent is [] [] s") auto
  thus ?thesis using assms(3) False delete_loop_result [OF assms(1,2) l] by (auto simp: delete_items_def split: if_splits)
qed

text \<open>The Windows folder and the program folders are protected with all they hold; the folder of the profiles itself is.\<close>

lemma system_folders_protected:
  assumes "k \<in> {Windows_Folder, Program_Files, Program_Files_X86}" "fa_known A k \<noteq> []"
    and "lexically_normal p = lexically_normal (fa_known A k) @ rest" "rest = [] \<or> is_slash (hd rest)"
  shows "is_protected_system_path A p"
proof -
  let ?f = "lexically_normal (fa_known A k)"
  have "within_folder A ?f (lexically_normal p)"
    using assms(3,4) by (cases rest) (auto simp: within_folder_def same_folded_path_def nth_append)
  hence "fa_known A k \<noteq> [] \<and> within_folder A ?f (lexically_normal p)" using assms(2) by simp
  thus ?thesis using assms(1) by (auto simp: is_protected_system_path_def Let_def)
qed

text \<open>With a slash behind it the folder of all profiles is not protected.\<close>

lemma profiles_unprotected:
  "is_protected_system_path quiet_files (Workspace_Studio.wide (''C:'' @ [CHR 0x5C] @ ''Users''))"
  "\<not> is_protected_system_path quiet_files (Workspace_Studio.wide (''C:'' @ [CHR 0x5C] @ ''Users'' @ [CHR 0x5C]))"
  unfolding is_protected_system_path_def quiet_files_def by code_simp+

section \<open>New names\<close>

text \<open>The conversion of a name that has no separator has none, and gives the two dots for the two dots only.\<close>

definition honest_wide :: "'d files_api \<Rightarrow> bool" where
  "honest_wide A \<longleftrightarrow> (\<forall>n. (\<forall>c \<in> set n. c \<noteq> CHR ''/'' \<and> c \<noteq> backslash \<and> c \<noteq> CHR '':'') \<longrightarrow>
     plain (fa_wide A n) \<and> (fa_wide A n = [DOT, DOT] \<longrightarrow> n = ''..''))"

lemma admitted_name: "honest_wide A \<Longrightarrow> \<not> refused_name n \<Longrightarrow> plain (to_wide A n) \<and> to_wide A n \<noteq> [DOT, DOT]"
  by (auto simp: honest_wide_def refused_name_def to_wide_def)

lemma issue_disk: "fs_disk (snd (issue_capability A p f s)) = fs_disk s"
  by (simp add: issue_capability_def Let_def split: option.split)

definition created_in :: "'d files_api \<Rightarrow> capability \<Rightarrow> 'd \<Rightarrow> 'd \<Rightarrow> bool" where
  "created_in A c d d' \<longleftrightarrow> (\<exists>w. plain w \<and> w \<noteq> [DOT, DOT] \<and> \<not> fa_exists A (folder_text (cp_path c) @ w) d \<and>
     d' = snd (fa_create A (folder_text (cp_path c) @ w) d))"

definition renamed_in :: "'d files_api \<Rightarrow> capability \<Rightarrow> 'd \<Rightarrow> 'd \<Rightarrow> bool" where
  "renamed_in A c d d' \<longleftrightarrow> (\<exists>w. plain w \<and> w \<noteq> [DOT, DOT] \<and> \<not> fa_exists A (folder_text (parent_path (cp_path c)) @ w) d \<and>
     d' = snd (fa_rename A (cp_path c) (folder_text (parent_path (cp_path c)) @ w) d))"

lemma create_folder_effect:
  assumes "honest_wide A" "fs_disk (snd (create_folder A i n s)) \<noteq> fs_disk s"
  shows "\<exists>c. fst (resolve_capability A i s) = Inr c \<and> cp_folder c \<and> created_in A c (fs_disk s) (fs_disk (snd (create_folder A i n s)))"
proof -
  obtain q s1 where q: "resolve_capability A i s = (q, s1)" by fastforce
  note disk = resolve_disk [OF q]
  obtain c where c: "q = Inr c" using assms(2) q disk by (cases q) (auto simp: create_folder_def)
  have guards: "cp_folder c" "\<not> refused_name n" "\<not> fa_exists A (append_path (cp_path c) (to_wide A n)) (fs_disk s)"
    using assms(2) q c disk by (auto simp: create_folder_def Let_def split: if_splits)
  obtain made err d where d: "fa_create A (append_path (cp_path c) (to_wide A n)) (fs_disk s) = ((made, err), d)" by (metis prod.collapse)
  have "fs_disk (snd (create_folder A i n s)) = d"
    using q c disk guards d by (simp add: create_folder_def Let_def split_beta issue_disk)
  moreover have w: "plain (to_wide A n)" "to_wide A n \<noteq> [DOT, DOT]" using admitted_name [OF assms(1) guards(2)] by simp_all
  ultimately have "created_in A c (fs_disk s) (fs_disk (snd (create_folder A i n s)))"
    unfolding created_in_def using guards(3) d append_plain [OF w(1), of "cp_path c"] by (intro exI [of _ "to_wide A n"]) simp
  thus ?thesis using q c guards(1) by simp
qed

lemma rename_item_effect:
  assumes "honest_wide A" "fs_disk (snd (rename_item A i n s)) \<noteq> fs_disk s"
  shows "\<exists>c. fst (resolve_capability A i s) = Inr c \<and> \<not> is_protected_system_path A (cp_path c) \<and>
    renamed_in A c (fs_disk s) (fs_disk (snd (rename_item A i n s)))"
proof -
  obtain q s1 where q: "resolve_capability A i s = (q, s1)" by fastforce
  note disk = resolve_disk [OF q]
  obtain c where c: "q = Inr c" using assms(2) q disk by (cases q) (auto simp: rename_item_def)
  let ?target = "append_path (parent_path (cp_path c)) (to_wide A n)"
  have guards: "\<not> is_protected_system_path A (cp_path c)" "\<not> refused_name n" "\<not> fa_exists A ?target (fs_disk s)" "parent_path (cp_path c) \<noteq> []"
    using assms(2) q c disk by (auto simp: rename_item_def Let_def split: if_splits)
  obtain err d where d: "fa_rename A (cp_path c) ?target (fs_disk s) = (err, d)" by fastforce
  have "fs_disk (snd (rename_item A i n s)) = d"
    using q c disk guards d by (simp add: rename_item_def Let_def split_beta issue_disk split: option.split)
  moreover have w: "plain (to_wide A n)" "to_wide A n \<noteq> [DOT, DOT]" using admitted_name [OF assms(1) guards(2)] by simp_all
  ultimately have "renamed_in A c (fs_disk s) (fs_disk (snd (rename_item A i n s)))"
    unfolding renamed_in_def using guards(3) d append_plain [OF w(1), of "parent_path (cp_path c)"] by (intro exI [of _ "to_wide A n"]) simp
  thus ?thesis using q c guards(1) by simp
qed

text \<open>
  C12. What a client creates or renames by a name stays where it is: a folder is created only directly in the folder its token stands for, a rename
  only gives another name in the same folder, both only where nothing exists, and no item of a protected path is renamed; otherwise the disk is
  as before.
\<close>

theorem new_names_stay:
  assumes "honest_wide A"
  shows "(fs_disk (snd (create_folder A i n s)) \<noteq> fs_disk s \<longrightarrow> (\<exists>c. fst (resolve_capability A i s) = Inr c \<and> cp_folder c \<and>
      created_in A c (fs_disk s) (fs_disk (snd (create_folder A i n s))))) \<and>
    (fs_disk (snd (rename_item A i n s)) \<noteq> fs_disk s \<longrightarrow> (\<exists>c. fst (resolve_capability A i s) = Inr c \<and> \<not> is_protected_system_path A (cp_path c) \<and>
      renamed_in A c (fs_disk s) (fs_disk (snd (rename_item A i n s)))))"
  using create_folder_effect [OF assms] rename_item_effect [OF assms] by blast

section \<open>The theorems at work\<close>

text \<open>A disk that is a list of the paths on it; every listing finds a file and a folder.\<close>

definition list_files :: "wide_string list files_api" where
  "list_files = quiet_files\<lparr>fa_attributes := (\<lambda>_ _. Some True), fa_create := (\<lambda>p d. ((True, None), d @ [p])), fa_recycle := (\<lambda>_ d. (False, d)),
     fa_remove_all := (\<lambda>p d. (None, removeAll p d)),
     fa_find := (\<lambda>_ _. Found [\<lparr>ff_name = [0x62], ff_folder = False, ff_hidden = False, ff_size = 5, ff_modified = None\<rparr>,
       \<lparr>ff_name = [0x61], ff_folder = True, ff_hidden = False, ff_size = 0, ff_modified = None\<rparr>])\<rparr>"

definition windows_path :: wide_string where
  "windows_path = Workspace_Studio.wide (''C:'' @ [CHR 0x5C] @ ''Windows'')"

definition list_start :: "wide_string list files" where
  "list_start = start_files [windows_path, [0x61]]"

lemma list_unique: "generator_unique list_files"
  using quiet_unique by (simp add: generator_unique_def list_files_def quiet_files_def)

lemma list_now: "fa_now list_files n = n"
  by (simp add: list_files_def quiet_files_def)

lemma list_token:
  obtains i s1 where "issue_capability list_files [0x61] True list_start = (i, s1)" "i \<noteq> []" "fs_disk s1 = [windows_path, [0x61]]" "fs_calls s1 = 2"
    "length (fs_caps s1) = 1"
    "fst (resolve_capability list_files i s1) = Inr \<lparr>cp_path = lexically_normal [0x61], cp_folder = True, cp_expires = 1 + kCapabilityLifetime\<rparr>"
proof -
  obtain i s1 where i: "issue_capability list_files [0x61] True list_start = (i, s1)" by fastforce
  have s1: "i \<noteq> []" "fs_disk s1 = [windows_path, [0x61]]" "fs_calls s1 = 2" "length (fs_caps s1) = 1"
    using i by (auto simp: issue_capability_def list_files_def quiet_files_def list_start_def start_files_def cleanup_expired_def Let_def)
  moreover have "fst (resolve_capability list_files i s1) = Inr \<lparr>cp_path = lexically_normal [0x61], cp_folder = True, cp_expires = 1 + kCapabilityLifetime\<rparr>"
    using token_resolves [OF i s1(1) tokens.refl list_unique] s1 by (simp add: list_now list_start_def start_files_def kCapabilityLifetime_def kMaxCapabilities_def)
  ultimately show thesis using that i by blast
qed

lemma list_lists:
  assumes "fst (resolve_capability list_files i s) = Inr c" "cp_folder c" "cp_path c \<noteq> []"
  obtains "is" s' where "list_entry list_files i s = (Inr is, s')" "fs_calls s' \<le> fs_calls s + 5"
proof -
  obtain s1 where r: "resolve_capability list_files i s = (Inr c, s1)" using assms(1) by (cases "resolve_capability list_files i s") auto
  hence calls: "fs_calls s1 \<le> fs_calls s + 1" using resolve_state [of list_files i s] by (auto split: if_splits)
  have attr: "fa_attributes list_files p d = Some True" for p d by (simp add: list_files_def)
  obtain a b where e: "enumerate_directory list_files (cp_path c) source (fs_disk s1) = Inr (sort_entries [a source, b source])" for source
    using assms(3) that by (simp add: enumerate_directory_def list_files_def visible_def path_chars kMaxItems_def)
  obtain x y where xy: "sort_entries [a source, b source] = [x source, y source]" for source
  proof
    show "sort_entries [a source, b source] = [(\<lambda>source. sort_entries [a source, b source] ! 0) source, (\<lambda>source. sort_entries [a source, b source] ! 1) source]" for source
      by (auto simp: sort_entries_def insort_key.simps)
  qed
  have one: "fs_calls (snd (issue_capability list_files p f z)) \<le> fs_calls z + 2" for p f z
    by (simp add: issue_capability_def Let_def split: option.split)
  let ?src = "entry_source list_files (cp_path c)"
  obtain "is" s' where att: "attach_capabilities list_files [x ?src, y ?src] s1 = (is, s')" by fastforce
  have "fs_calls s' \<le> fs_calls s1 + 4"
    using att one [of _ _ s1] order.trans [OF one] by (auto simp: split_beta)
  thus thesis using that [of "is" s'] r assms(2) attr att e xy calls by (simp add: list_entry_def)
qed

theorem listing_complete_witness:
  "\<exists>i s is s'. list_entry list_files i s = (Inr is, s') \<and> sorted (map entry_key is)"
proof -
  from list_token obtain i s1 where t: "fs_disk s1 = [windows_path, [0x61]]"
    "fst (resolve_capability list_files i s1) = Inr \<lparr>cp_path = lexically_normal [0x61], cp_folder = True, cp_expires = 1 + kCapabilityLifetime\<rparr>"
    by metis
  have path: "lexically_normal [0x61] \<noteq> []" by code_simp
  from t(2) obtain "is" s' where l: "list_entry list_files i s1 = (Inr is, s')" by (rule list_lists) (use path in simp_all)
  have "\<exists>fs. (\<forall>p d. fa_find list_files p d = Found fs) \<and> length (filter visible fs) \<le> kMaxItems"
    by (simp add: list_files_def visible_def path_chars kMaxItems_def)
  then obtain fs where fs: "\<And>p d. fa_find list_files p d = Found fs" "length (filter visible fs) \<le> kMaxItems" by blast
  show ?thesis using listing_complete [OF l t(2) fs] l by blast
qed

theorem listed_entries_resolve_witness:
  "\<exists>i s is s'. list_entry list_files i s = (Inr is, s') \<and>
    (\<forall>x \<in> set is. ei_id x \<noteq> [] \<longrightarrow> (\<exists>c. fst (resolve_capability list_files (ei_id x) s') = Inr c \<and> cp_folder c = ei_folder x))"
proof -
  from list_token obtain i s1 where t: "fs_calls s1 = 2" "length (fs_caps s1) = 1"
    "fst (resolve_capability list_files i s1) = Inr \<lparr>cp_path = lexically_normal [0x61], cp_folder = True, cp_expires = 1 + kCapabilityLifetime\<rparr>"
    by metis
  have path: "lexically_normal [0x61] \<noteq> []" by code_simp
  from t(3) obtain "is" s' where l: "list_entry list_files i s1 = (Inr is, s')" "fs_calls s' \<le> fs_calls s1 + 5"
    by (rule list_lists) (use path in simp_all)
  have small: "fs_calls s' \<le> 7" using l(2) t(1) by simp
  have clock: "\<forall>m n. fs_calls s1 \<le> m \<and> m \<le> fs_calls s' \<and> fs_calls s1 \<le> n \<and> n \<le> fs_calls s' \<longrightarrow>
      fa_now list_files n < fa_now list_files m + kCapabilityLifetime"
  proof (intro allI impI)
    fix m n assume "fs_calls s1 \<le> m \<and> m \<le> fs_calls s' \<and> fs_calls s1 \<le> n \<and> n \<le> fs_calls s'"
    hence "n \<le> 7" using small by simp
    moreover have "7 < kCapabilityLifetime" by (simp add: kCapabilityLifetime_def)
    ultimately show "fa_now list_files n < fa_now list_files m + kCapabilityLifetime" by (simp add: list_now)
  qed
  have room: "length (fs_caps s1) + (fs_calls s' - fs_calls s1) < kMaxCapabilities" using small t(2) by (simp add: kMaxCapabilities_def)
  show ?thesis using listed_entries_resolve [OF l(1) list_unique room clock] l(1) by blast
qed

lemma list_protected: "is_protected_system_path list_files windows_path"
  by (rule system_folders_protected [of Windows_Folder list_files _ "[]"])
    (simp_all add: list_files_def quiet_files_def windows_path_def Workspace_Studio.wide_def)

theorem deletion_spares_protected_witness:
  "\<exists>i s r s'. delete_items list_files [i, ''f21:0''] False s = (r, s') \<and> windows_path \<in> set (fs_disk s')"
proof -
  obtain i :: string and s1 :: "wide_string list files" where t: "i \<noteq> []" "fs_disk s1 = [windows_path, [0x61]]"
    by (rule list_token) blast
  have "is_protected_system_path list_files windows_path"
    by (rule list_protected)
  hence "spares_protected list_files (\<lambda>d. windows_path \<in> set d)" by (auto simp: spares_protected_def list_files_def)
  moreover obtain r s' where r: "delete_items list_files [i, ''f21:0''] False s1 = (r, s')" by fastforce
  ultimately have "windows_path \<in> set (fs_disk s')" using deletion_spares_protected [of list_files "\<lambda>d. windows_path \<in> set d" s1] t by auto
  thus ?thesis using r by blast
qed

lemma list_honest: "honest_wide list_files"
proof -
  have "Workspace_Studio.wide n = [DOT, DOT] \<Longrightarrow> n = ''..''" for n
    using wide_inject [of n "''..''"] by (simp add: Workspace_Studio.wide_def path_chars)
  moreover have "fa_wide list_files = Workspace_Studio.wide" by (simp add: list_files_def quiet_files_def)
  ultimately show ?thesis using plain_wide by (auto simp: honest_wide_def backslash_def)
qed

theorem new_names_stay_witness:
  "\<exists>i s c. fs_disk (snd (create_folder list_files i ''new'' s)) \<noteq> fs_disk s \<and>
    created_in list_files c (fs_disk s) (fs_disk (snd (create_folder list_files i ''new'' s)))"
proof -
  from list_token obtain i s1 where t: "fs_disk s1 = [windows_path, [0x61]]"
    "fst (resolve_capability list_files i s1) = Inr \<lparr>cp_path = lexically_normal [0x61], cp_folder = True, cp_expires = 1 + kCapabilityLifetime\<rparr>"
    by metis
  obtain s2 where r: "resolve_capability list_files i s1 = (Inr \<lparr>cp_path = lexically_normal [0x61], cp_folder = True, cp_expires = 1 + kCapabilityLifetime\<rparr>, s2)"
    using t(2) by (cases "resolve_capability list_files i s1") auto
  have "\<not> refused_name ''new''" by code_simp
  hence "fs_disk (snd (create_folder list_files i ''new'' s1)) \<noteq> fs_disk s1"
    using r resolve_disk [OF r] by (simp add: create_folder_def Let_def split_beta issue_disk) (simp add: list_files_def quiet_files_def)
  thus ?thesis using new_names_stay [OF list_honest, of i "''new''" s1] by blast
qed

end
