(* ===== verification/File_Broker.thy ===== *)
theory File_Broker
  imports File_Props Broker_Views
begin

text \<open>
  The broker with the file service in it: the services of \<open>Broker_State\<close> whose functions on files are the operations of \<open>File_Service\<close> and
  \<open>File_Changes\<close>, on a world that has the state of the file service and the tasks of the jobs it submitted.
\<close>

record ('d, 'r) file_world =
  fw_files :: "'d files"
  fw_tasks :: "(string \<times> copy_task) list"
  fw_rest :: 'r

definition on_files :: "('d files \<Rightarrow> 'a \<times> 'd files) \<Rightarrow> ('d, 'r) file_world \<Rightarrow> 'a \<times> ('d, 'r) file_world" where
  "on_files f w = (let (x, s) = f (fw_files w) in (x, w\<lparr>fw_files := s\<rparr>))"

definition as_file_item :: "entry_item \<Rightarrow> file_item" where
  "as_file_item i = \<lparr>fi_name = ei_name i, fi_json = entry_json i\<rparr>"

text \<open>\<open>order\<close> is the order in which the job manager visits its retained jobs.\<close>

definition submit_copy :: "'d files_api \<Rightarrow> string list \<Rightarrow> nat \<Rightarrow> string \<Rightarrow> string list \<Rightarrow> string \<Rightarrow> string \<Rightarrow> manager \<Rightarrow> ('d, 'r) file_world \<Rightarrow>
    ((string + string) \<times> manager) \<times> ('d, 'r) file_world" where
  "submit_copy A order now kind sources target strategy m w =
     (case copy_or_move A order now kind sources target strategy m (fw_files w) of
        ((Inl err, m), s) \<Rightarrow> ((Inl err, m), w\<lparr>fw_files := s\<rparr>)
      | ((Inr (i, t), m), s) \<Rightarrow> ((Inr i, m), w\<lparr>fw_files := s, fw_tasks := (i, t) # fw_tasks w\<rparr>))"

definition with_files :: "'d files_api \<Rightarrow> string list \<Rightarrow> nat \<Rightarrow> ('d, 'r) file_world services \<Rightarrow> ('d, 'r) file_world services" where
  "with_files A order now sv = sv\<lparr>
     sv_allowed_location := is_allowed_location,
     sv_list_location := (\<lambda>l. on_files (\<lambda>s. case list_location A l s of (r, s) \<Rightarrow> (map_sum id (map as_file_item) r, s))),
     sv_list_entry := (\<lambda>i. on_files (\<lambda>s. case list_entry A i s of (r, s) \<Rightarrow> (map_sum id (map as_file_item) r, s))),
     sv_attributes := (\<lambda>p w. fa_attributes A p (fs_disk (fw_files w))),
     sv_issue := (\<lambda>p f. on_files (issue_capability A p f)),
     sv_open_entry := (\<lambda>i. on_files (open_entry A i)),
     sv_create_folder := (\<lambda>i n. on_files (\<lambda>s. case create_folder A i n s of (r, s) \<Rightarrow> (map_sum id entry_json r, s))),
     sv_rename := (\<lambda>i n. on_files (\<lambda>s. case rename_item A i n s of (r, s) \<Rightarrow> (map_sum id entry_json r, s))),
     sv_delete := (\<lambda>is p. on_files (delete_items A is p)),
     sv_copy_or_move := submit_copy A order now,
     sv_drives := on_files (\<lambda>s. case list_drives A s of (r, s) \<Rightarrow> (map_sum id (map drive_json) r, s))\<rparr>"

section \<open>The jobs\<close>

lemma copy_or_move_manager: "mgr_ok m \<Longrightarrow> mgr_ok (snd (fst (copy_or_move A order now kind sources target strategy m s)))"
  by (auto simp: copy_or_move_def Let_def split_beta intro: mgr_ok_submit split: sum.split)

lemma with_files_submits_well: "submits_well (with_files A order now sv)"
  using copy_or_move_manager by (fastforce simp: submits_well_def with_files_def submit_copy_def split_beta split: sum.split prod.split)

text \<open>
  With the file service in the broker, whatever clients ask for, in whatever order, keeps every component well formed; nothing is left to assume
  of the jobs the service submits.
\<close>

theorem broker_with_files_keeps_components:
  assumes "parts_ok b"
  shows "parts_ok (serve (with_files A order now sv) reqs b) \<and> prefix (bk_sent b) (bk_sent (serve (with_files A order now sv) reqs b))"
  using parts.requests_kept [of "with_files A order now sv" b reqs] sent.requests_kept [of b "with_files A order now sv" reqs]
    with_files_submits_well [of A order now sv] assms by blast

section \<open>Requests on files\<close>

lemma file_branches_of:
  "branch sv c ''files.delete'' p = handle_files_delete sv p" "branch sv c ''files.copy'' p = handle_copy_or_move sv ''files.copy'' p"
  "branch sv c ''files.move'' p = handle_copy_or_move sv ''files.move'' p"
  by (simp_all add: branch_def chains)

text \<open>
  C11. A deletion by a client touches no protected path, whatever the payload of the request.
\<close>

theorem delete_request_spares_protected:
  assumes "spares_protected A P" "P (fs_disk (fw_files (bk_world b)))"
  shows "P (fs_disk (fw_files (bk_world (snd (handle_request (with_files A order now sv) c
    (req\<lparr>req_method := ''files.delete'', req_payload := p\<rparr>) b)))))"
proof (cases "array_arg p ''entryIds''")
  case None
  thus ?thesis using assms by (simp add: handle_method file_branches_of handle_files_delete_def run_steps invalid_def refuse_def)
next
  case (Some entries)
  obtain r s' where d: "delete_items A (strings_of entries) (or_else (bool_arg p ''permanent'') False) (fw_files (bk_world b)) = (r, s')" by fastforce
  have "P (fs_disk s')" using deletion_spares_protected [OF assms d] by simp
  thus ?thesis using Some d
    by (cases r) (simp_all add: handle_method file_branches_of handle_files_delete_def run_steps refuse_def accept_def with_files_def on_files_def)
qed

lemma submitted_job:
  assumes "copy_or_move A order now kind sources target strategy m s = ((Inr (i, t), m'), s')"
  shows "state_of m' i = Some JobQueued \<and> ct_sources t \<noteq> [] \<and> ct_move t = (kind = ''move'')"
  using assms
  by (auto simp: copy_or_move_def Let_def split_beta submit_job_def submit_allowed_def submit_number_def submit_insert_def state_of_def new_job_def job_name_def split: sum.splits if_splits)

lemma with_files_copy: "sv_copy_or_move (with_files A order now sv) = submit_copy A order now"
  by (simp add: with_files_def)

lemma handled:
  assumes "(resp, b') = handle_request sv c (req\<lparr>req_method := method, req_payload := p\<rparr>) b" "run_state (branch sv c method p) b = (reply, b1)"
  shows "resp = respond (req_id req) reply \<and> b' = b1"
  using assms by (simp add: handle_method)

text \<open>
  A copy or move that is accepted has put a job into the queue whose identifier is in the response, and the task of that job is the one of the
  request, with at least one source.
\<close>

theorem accepted_copy_is_queued:
  assumes "(resp, b') = handle_request (with_files A order now sv) c (req\<lparr>req_method := method, req_payload := p\<rparr>) b"
    and "method = ''files.copy'' \<or> method = ''files.move''" "res_ok resp"
  shows "\<exists>i t. map_of (res_payload resp) ''jobId'' = Some (JStr i) \<and> map_of (fw_tasks (bk_world b')) i = Some t \<and>
    state_of (bk_jobs b') i = Some JobQueued \<and> ct_sources t \<noteq> [] \<and> ct_move t = (method = ''files.move'')"
proof (cases "(array_arg p ''sourceEntryIds'', string_arg p ''destinationEntryId'')")
  case (Pair u v)
  show ?thesis
  proof (cases "u = None \<or> v = None")
    case True
    hence "\<exists>t. run_state (branch (with_files A order now sv) c method p) b = (Refused ''invalid_argument'' t [], b)"
      using assms(2) Pair by (auto simp: file_branches_of handle_copy_or_move_def invalid_def refuse_def run_steps split: option.split)
    hence "\<not> res_ok resp" using handled [OF assms(1)] by (auto simp: respond_def)
    thus ?thesis using assms(3) by blast
  next
    case False
    then obtain sources destination where args: "u = Some sources" "v = Some destination" by auto
    let ?kind = "if method = ''files.move'' then ''move'' else ''copy''"
    let ?strategy = "or_else (string_arg p (if map_of p ''conflictStrategy'' = None then ''conflictResolution'' else ''conflictStrategy'')) ''replace''"
    obtain q m s where c: "copy_or_move A order now ?kind (strings_of sources) destination ?strategy (bk_jobs b) (fw_files (bk_world b)) = ((q, m), s)"
      by (metis prod.collapse)
    have br: "branch (with_files A order now sv) c method p = handle_copy_or_move (with_files A order now sv) method p"
      using assms(2) by (auto simp: file_branches_of)
    show ?thesis
    proof (cases q)
      case (Inl err)
      hence "\<exists>b1. run_state (branch (with_files A order now sv) c method p) b = (Refused ''file_operation_failed'' err [], b1)"
        using c Pair args unfolding br handle_copy_or_move_def by (simp add: run_steps refuse_def with_files_copy submit_copy_def Let_def)
      hence "\<not> res_ok resp" using handled [OF assms(1)] by (auto simp: respond_def)
      thus ?thesis using assms(3) by blast
    next
      case (Inr it)
      obtain i t where it: "it = (i, t)" by fastforce
      have "\<exists>b1. run_state (branch (with_files A order now sv) c method p) b =
          (Accepted (object_of [(''jobId'', JStr i), (''operationId'', JStr i)]), b1) \<and>
          fw_tasks (bk_world b1) = (i, t) # fw_tasks (bk_world b) \<and> bk_jobs b1 = m"
        using c Pair args Inr it unfolding br handle_copy_or_move_def by (simp add: run_steps accept_def with_files_copy submit_copy_def Let_def)
      hence "map_of (res_payload resp) ''jobId'' = Some (JStr i) \<and> fw_tasks (bk_world b') = (i, t) # fw_tasks (bk_world b) \<and> bk_jobs b' = m"
        using handled [OF assms(1)] by (auto simp: respond_def object_of_find)
      thus ?thesis using submitted_job [OF c [unfolded Inr it]] assms(2) by (auto split: if_splits)
    qed
  qed
qed

section \<open>Pages of a listing\<close>

text \<open>What a location lists on a disk, before the tokens are issued.\<close>

definition listed :: "'d files_api \<Rightarrow> string \<Rightarrow> 'd \<Rightarrow> string + entry_item list" where
  "listed A l d = (if l = ''home'' then Inr (home_items A) else location_items A l d)"

text \<open>An entry of a response without its token, which is a new one in every response.\<close>

definition plain_entry :: "json \<Rightarrow> json" where
  "plain_entry v = (case v of JObj kvs \<Rightarrow> JObj (filter (\<lambda>(k, _). k \<noteq> ''entryId'') kvs) | _ \<Rightarrow> v)"

lemma plain_entry_json: "plain_entry (JObj (entry_json (without_id i))) = plain_entry (JObj (entry_json i))"
  by (simp add: plain_entry_def entry_json_def without_id_def object_of_def)

lemma listed_tokens:
  assumes "listed A l (fs_disk s) = Inr items"
  obtains es s' where "list_location A l s = (Inr es, s')" "map without_id es = map without_id items"
proof -
  obtain es s' where a: "attach_capabilities A items s = (es, s')" by fastforce
  then have "list_location A l s = (Inr es, s')" using assms by (simp add: list_location_def listed_def)
  then show thesis using that attach_same [OF a] by blast
qed

lemma map_filter_same: "map f xs = map f ys \<Longrightarrow> (\<And>x. P x = Q (f x)) \<Longrightarrow> map f (filter P xs) = map f (filter P ys)"
proof (induction xs arbitrary: ys)
  case (Cons x xs)
  then obtain y zs where "ys = y # zs" "f y = f x" "map f xs = map f zs" by (cases ys) auto
  then show ?case using Cons by simp
qed simp

definition entries_shown :: "string option \<Rightarrow> entry_item list \<Rightarrow> entry_item list" where
  "entries_shown query items =
     (case query of None \<Rightarrow> items | Some s \<Rightarrow>
        if s = [] then items else filter (\<lambda>i. contains_text (map to_lower s) (map to_lower (ei_name i))) items)"

lemma entries_shown_same:
  assumes "map without_id es = map without_id items"
  shows "map without_id (entries_shown query es) = map without_id (entries_shown query items)"
proof -
  have "map without_id (filter (\<lambda>i. P (ei_name i)) es) = map without_id (filter (\<lambda>i. P (ei_name i)) items)" for P
    by (rule map_filter_same [OF assms, of _ "\<lambda>i. P (ei_name i)"]) (simp add: without_id_def)
  from this [of "\<lambda>n. contains_text (map to_lower t) (map to_lower n)" for t] show ?thesis
    using assms by (cases query) (simp_all add: entries_shown_def)
qed

lemma matching_entries: "string_arg p ''query'' = query \<Longrightarrow> matching_items p (map as_file_item es) = map as_file_item (entries_shown query es)"
  by (auto simp: matching_items_def entries_shown_def as_file_item_def filter_map comp_def split: option.split)

text \<open>
  C24. A client that asks for page after page of a location, each with a limit between 1 and 2,000 and the offset of the pages before it, gets every
  entry that matches the query exactly once and in order, and is told that there is more exactly as long as there is - provided that
  the location lists the same on the disk of each moment at which a page is asked for. Whatever else happened between two pages does not matter. Each page
  makes the listing anew and issues new tokens, so the entries are compared without their tokens.
\<close>

theorem pages_cover_listing:
  assumes l: "0 < l" "l \<le> 2000"
    and here: "is_allowed_location loc" "\<forall>k. listed A loc (fs_disk (fw_files (bk_world (bs k)))) = Inr items"
    and page: "\<forall>k. req_method (page k) = ''files.list'' \<and> string_arg (req_payload (page k)) ''location'' = Some loc \<and>
      map_of (req_payload (page k)) ''offset'' = Some (JInt (int (k * l))) \<and> map_of (req_payload (page k)) ''limit'' = Some (JInt (int l)) \<and>
      string_arg (req_payload (page k)) ''query'' = query"
  shows "let result = (\<lambda>k. res_payload (fst (handle_request (with_files A order now sv) c (page k) (bs k)))) in
     \<exists>files. (\<forall>k. map_of (result k) ''files'' = Some (JArr (files k)) \<and>
         map_of (result k) ''hasMore'' = Some (JBool (Suc k * l < length (entries_shown query items)))) \<and>
       (\<forall>n. length (entries_shown query items) \<le> n * l \<longrightarrow>
         map plain_entry (concat (map files [0..<n])) = map (\<lambda>i. plain_entry (JObj (entry_json i))) (entries_shown query items))"
proof -
  let ?sv = "with_files A order now sv" and ?shown = "entries_shown query items"
  let ?result = "\<lambda>k. res_payload (fst (handle_request ?sv c (page k) (bs k)))"
  let ?plain = "\<lambda>i. plain_entry (JObj (entry_json i))"
  have "\<exists>fs. map_of (?result k) ''files'' = Some (JArr fs) \<and> map_of (?result k) ''hasMore'' = Some (JBool (Suc k * l < length ?shown)) \<and>
      map plain_entry fs = map ?plain (take l (drop (k * l) ?shown))" for k
  proof -
    obtain es s' where i: "list_location A loc (fw_files (bk_world (bs k))) = (Inr es, s')" "map without_id es = map without_id items"
      using here(2) listed_tokens by metis
    have "fst (sv_list_location ?sv loc (bk_world (bs k))) = Inr (map as_file_item es)" using i(1) by (simp add: with_files_def on_files_def)
    moreover have "sv_allowed_location ?sv loc" using here(1) by (simp add: with_files_def)
    moreover have "matching_items (req_payload (page k)) (map as_file_item es) = map as_file_item (entries_shown query es)"
      using page by (intro matching_entries) blast
    ultimately have got: "map_of (?result k) ''files'' = Some (JArr (map (\<lambda>i. JObj (fi_json i)) (take l (drop (k * l) (map as_file_item (entries_shown query es))))))"
        "map_of (?result k) ''hasMore'' = Some (JBool (Suc k * l < length (map as_file_item (entries_shown query es))))"
      using files_page [OF l, of ?sv loc "bs k" "map as_file_item es" "page k" k] page by blast+
    note same = entries_shown_same [OF i(2), of query]
    have "map ?plain (entries_shown query es) = map ?plain ?shown"
      using arg_cong [OF same, of "map ?plain"] by (simp add: plain_entry_json comp_def)
    then have "map ?plain (take l (drop (k * l) (entries_shown query es))) = map ?plain (take l (drop (k * l) ?shown))"
      by (simp only: take_map [symmetric] drop_map [symmetric])
    moreover have "length (entries_shown query es) = length ?shown" using arg_cong [OF same, of length] by simp
    ultimately show ?thesis using got by (simp add: take_map drop_map comp_def as_file_item_def)
  qed
  then obtain files where f: "\<forall>k. map_of (?result k) ''files'' = Some (JArr (files k)) \<and> map_of (?result k) ''hasMore'' = Some (JBool (Suc k * l < length ?shown))"
      "\<And>k. map plain_entry (files k) = map ?plain (take l (drop (k * l) ?shown))"
    by metis
  have "map plain_entry (concat (map files [0..<n])) = map ?plain (concat (map (\<lambda>k. take l (drop (k * l) ?shown)) [0..<n]))" for n
    by (simp add: map_concat comp_def f(2))
  then have "map plain_entry (concat (map files [0..<n])) = map ?plain (take (n * l) ?shown)" for n by (simp only: pages_concat)
  then show ?thesis using f(1) unfolding Let_def by (intro exI [of _ files]) simp
qed

section \<open>The theorems at work\<close>

definition file_broker :: "wide_string list files \<Rightarrow> (string, (wide_string list, unit) file_world) broker" where
  "file_broker s = \<lparr>bk_bus = bk_bus idle_broker, bk_jobs = Job_Manager.initialize 1 new_manager, bk_notes = bk_notes idle_broker, bk_clip = bk_clip idle_broker,
     bk_registry = bk_registry idle_broker, bk_window_generation = 0, bk_world = \<lparr>fw_files = s, fw_tasks = [], fw_rest = ()\<rparr>, bk_sent = []\<rparr>"

lemma file_broker_ok: "parts_ok (file_broker s)"
proof -
  have "mgr_ok (Job_Manager.initialize 1 new_manager)" by (rule mgr_ok_initialize [OF mgr_ok_new])
  thus ?thesis using idle_ok by (simp add: parts_ok_def file_broker_def)
qed

theorem broker_with_files_keeps_components_witness:
  "parts_ok (serve (with_files list_files [] 0 quiet_services)
     [(''a'', a_request ''files.copy'' [(''destinationEntryId'', JStr ''d''), (''sourceEntryIds'', JArr [])]), (''b'', a_request ''files.list'' [])]
     (file_broker list_start))"
  by (rule broker_with_files_keeps_components [OF file_broker_ok, THEN conjunct1])

theorem delete_request_spares_protected_witness:
  "windows_path \<in> set (fs_disk (fw_files (bk_world (snd (handle_request (with_files list_files [] 0 quiet_services) ''a''
     ((a_request [] [])\<lparr>req_method := ''files.delete'', req_payload := [(''entryIds'', JArr [JStr ''f21:0''])]\<rparr>) (file_broker list_start))))))"
proof -
  have "spares_protected list_files (\<lambda>d. windows_path \<in> set d)" using list_protected by (auto simp: spares_protected_def list_files_def)
  thus ?thesis
    using delete_request_spares_protected [of list_files "\<lambda>d. windows_path \<in> set d" "file_broker list_start"]
    by (simp add: file_broker_def list_start_def start_files_def)
qed

theorem accepted_copy_is_queued_witness:
  "\<exists>s resp b' i t. (resp, b') = handle_request (with_files list_files [] 0 quiet_services) ''a'' ((a_request [] [])\<lparr>req_method := ''files.move'',
     req_payload := [(''destinationEntryId'', JStr s), (''sourceEntryIds'', JArr [JStr s])]\<rparr>) (file_broker (snd (issue_capability list_files [0x61] True list_start))) \<and>
     map_of (fw_tasks (bk_world b')) i = Some t \<and> state_of (bk_jobs b') i = Some JobQueued \<and> ct_move t"
proof -
  obtain i s1 where t: "issue_capability list_files [0x61] True list_start = (i, s1)" "i \<noteq> []" "fs_calls s1 = 2" "length (fs_caps s1) = 1"
    "fst (resolve_capability list_files i s1) = Inr \<lparr>cp_path = lexically_normal [0x61], cp_folder = True, cp_expires = 1 + kCapabilityLifetime\<rparr>"
    by (rule list_token) blast
  let ?c = "\<lparr>cp_path = lexically_normal [0x61], cp_folder = True, cp_expires = 1 + kCapabilityLifetime\<rparr>"
  obtain s2 where s2: "resolve_capability list_files i s1 = (Inr ?c, s2)" using t(5) by (cases "resolve_capability list_files i s1") auto
  have "fs_calls s2 = 3" using resolve_state [of list_files i s1] s2 t(2,3) by simp
  hence again: "fst (resolve_capability list_files i s2) = Inr ?c"
    using token_resolves [OF t(1,2) tokens.resolve [OF s2] list_unique] t(3,4)
    by (simp add: list_now list_start_def start_files_def kCapabilityLifetime_def kMaxCapabilities_def)
  obtain k m where k: "submit_job [] 0 ''file_move'' True (Job_Manager.initialize 1 new_manager) = (k, m)" "k \<noteq> []"
    by (simp add: submit_job_def submit_allowed_def submit_number_def submit_insert_def Job_Manager.initialize_def new_manager_def kMaxRetainedJobs_def kMaxQueuedJobs_def job_name_def Let_def)
  have "\<exists>q s'. copy_or_move list_files [] 0 ''move'' [i] i ''replace'' (Job_Manager.initialize 1 new_manager) s1 = ((Inr (k, q), m), s')"
    using s2 again k by (simp add: copy_or_move_def Let_def split_beta)
  then obtain q s' where copied: "copy_or_move list_files [] 0 ''move'' [i] i ''replace'' (Job_Manager.initialize 1 new_manager) s1 = ((Inr (k, q), m), s')" by blast
  let ?p = "[(''destinationEntryId'', JStr i), (''sourceEntryIds'', JArr [JStr i])]"
  obtain resp b' where run: "(resp, b') = handle_request (with_files list_files [] 0 quiet_services) ''a''
      ((a_request [] [])\<lparr>req_method := ''files.move'', req_payload := ?p\<rparr>) (file_broker s1)" by (metis surj_pair)
  have "\<exists>x b1. run_state (branch (with_files list_files [] 0 quiet_services) ''a'' ''files.move'' ?p) (file_broker s1) = (Accepted x, b1)"
    using copied unfolding file_branches_of handle_copy_or_move_def
    by (simp add: run_steps accept_def with_files_copy submit_copy_def Let_def array_arg_def string_arg_def strings_of_def map_filter_simps or_else_def file_broker_def)
  hence "res_ok resp" using handled [OF run] by (auto simp: respond_def)
  thus ?thesis using accepted_copy_is_queued [OF run] run t(1)
    by - (rule exI [of _ i], rule exI [of _ resp], rule exI [of _ b'], auto)
qed

text \<open>Two pages of one entry each, the second asked for in the state that the first one left.\<close>

definition page_of_one :: "nat \<Rightarrow> broker_request" where
  "page_of_one k = a_request ''files.list'' [(''limit'', JInt 1), (''location'', JStr ''windows-c''), (''offset'', JInt (int k))]"

primrec paging :: "nat \<Rightarrow> (string, (wide_string list, unit) file_world) broker" where
  "paging 0 = file_broker list_start"
| "paging (Suc k) = snd (handle_request (with_files list_files [] 0 quiet_services) ''a'' (page_of_one k) (paging k))"

lemma windows_c_listed: "\<exists>items. length items = 2 \<and> (\<forall>d. listed list_files ''windows-c'' d = Inr items)"
proof -
  have "\<exists>x y. \<forall>p d. fa_find list_files p d = Found [x, y] \<and> filter visible [x, y] = [x, y]"
    by (simp add: list_files_def visible_def path_chars)
  then obtain x y where xy: "\<And>p d. fa_find list_files p d = Found [x, y]" "filter visible [x, y] = [x, y]" by blast
  have "system_volume_root list_files \<noteq> []" by (simp add: system_volume_root_def list_files_def quiet_files_def)
  then have "listed list_files ''windows-c'' d =
      Inr (sort_entries (map (file_entry list_files (system_volume_root list_files) ''windows'') [x, y]))" for d
    using xy by (simp add: listed_def location_items_def enumerate_directory_def kMaxItems_def del: filter.simps)
  moreover have "length (sort_entries (map f [x, y])) = 2" for f by (simp add: sort_entries_def)
  ultimately show ?thesis by blast
qed

theorem pages_cover_listing_witness:
  "\<exists>files items. length items = 2 \<and>
     (\<forall>k. map_of (res_payload (fst (handle_request (with_files list_files [] 0 quiet_services) ''a'' (page_of_one k) (paging k)))) ''files'' = Some (JArr (files k))) \<and>
     map plain_entry (concat (map files [0..<2])) = map (\<lambda>i. plain_entry (JObj (entry_json i))) items"
proof -
  obtain items where i: "length items = 2" "\<forall>d. listed list_files ''windows-c'' d = Inr items" using windows_c_listed by blast
  have page: "\<forall>k. req_method (page_of_one k) = ''files.list'' \<and> string_arg (req_payload (page_of_one k)) ''location'' = Some ''windows-c'' \<and>
      map_of (req_payload (page_of_one k)) ''offset'' = Some (JInt (int (k * 1))) \<and>
      map_of (req_payload (page_of_one k)) ''limit'' = Some (JInt (int 1)) \<and> string_arg (req_payload (page_of_one k)) ''query'' = None"
    by (simp add: page_of_one_def a_request_def string_arg_def)
  have "is_allowed_location ''windows-c''" by (simp add: is_allowed_location_def)
  moreover have "\<forall>k. listed list_files ''windows-c'' (fs_disk (fw_files (bk_world (paging k)))) = Inr items" using i(2) by blast
  ultimately obtain files where
      "\<forall>k. map_of (res_payload (fst (handle_request (with_files list_files [] 0 quiet_services) ''a'' (page_of_one k) (paging k)))) ''files'' = Some (JArr (files k))"
      "\<forall>n. length items \<le> n * 1 \<longrightarrow> map plain_entry (concat (map files [0..<n])) = map (\<lambda>i. plain_entry (JObj (entry_json i))) items"
    using pages_cover_listing [OF _ _ _ _ page, of list_files paging items "[]" 0 quiet_services "''a''"]
    unfolding Let_def entries_shown_def option.case by (simp del: upt_Suc) blast
  then show ?thesis using i(1) by (intro exI [of _ files] exI [of _ items]) simp
qed

end
