(* ===== verification/Drive_Paths.thy ===== *)
theory Drive_Paths
  imports Path_Facts
begin

text \<open>
  \<open>native_cloudos_drive.cpp\<close>, paths: the names the drive admits, the test that a path is inside the root, the path of a list of names and
  the names of a path. Case is folded by two functions of the C library, \<open>lower\<close> for \<open>towlower\<close> and \<open>cfold\<close> for \<open>_wcsicmp\<close>.
\<close>

section \<open>Names\<close>

definition kInternalRoot :: wide_string where
  "kInternalRoot = Workspace_Studio.wide ''.cloudos-system''"

definition kTrashName :: wide_string where
  "kTrashName = Workspace_Studio.wide ''trash''"

definition kMaxSegments :: nat where "kMaxSegments = 64"

definition kMaxUtf8NameBytes :: nat where "kMaxUtf8NameBytes = 255"

definition bad_path_text :: wide_string where
  "bad_path_text = Workspace_Studio.wide ''Caminho invalido no CloudOS Drive.''"

definition bad_drive_char :: "16 word \<Rightarrow> bool" where
  "bad_drive_char c \<longleftrightarrow> c < 32 \<or> is_slash c \<or> c \<in> {COLON, 0x2A, 0x3F, 0x22, 0x3C, 0x3E, 0x7C}"

text \<open>A comparison of the C library sees a text up to its first null character.\<close>

definition c_text :: "wide_string \<Rightarrow> wide_string" where
  "c_text s = takeWhile (\<lambda>c. c \<noteq> 0) s"

text \<open>\<open>ValidateSegment\<close>: the error of the first test that fails. \<open>utf8\<close> gives the empty text for one that cannot be converted.\<close>

definition validate_segment :: "(wide_string \<Rightarrow> string) \<Rightarrow> (16 word \<Rightarrow> 16 word) \<Rightarrow> wide_string \<Rightarrow> wide_string option" where
  "validate_segment utf8 cfold s =
     (if s = [] \<or> s = [DOT] \<or> s = [DOT, DOT] \<or> map cfold (c_text s) = map cfold kInternalRoot then Some bad_path_text
      else if \<exists>c \<in> set s. bad_drive_char c then Some (Workspace_Studio.wide ''Nome invalido no CloudOS Drive.'')
      else if utf8 s = [] \<or> kMaxUtf8NameBytes < length (utf8 s) then Some (Workspace_Studio.wide ''Nome excede o limite do CloudOS Drive.'')
      else None)"

fun first_error :: "('a \<Rightarrow> 'e option) \<Rightarrow> 'a list \<Rightarrow> 'e option" where
  "first_error f [] = None"
| "first_error f (x # xs) = (case f x of Some e \<Rightarrow> Some e | None \<Rightarrow> first_error f xs)"

definition validate_segments :: "(wide_string \<Rightarrow> string) \<Rightarrow> (16 word \<Rightarrow> 16 word) \<Rightarrow> bool \<Rightarrow> wide_string list \<Rightarrow> wide_string option" where
  "validate_segments utf8 cfold allow_empty ss =
     (if \<not> allow_empty \<and> ss = [] \<or> kMaxSegments < length ss then Some bad_path_text else first_error (validate_segment utf8 cfold) ss)"

section \<open>Inside the root\<close>

definition trim_trailing_separators :: "wide_string \<Rightarrow> wide_string" where
  "trim_trailing_separators v = take (max (min 3 (length v)) (length (rev (dropWhile is_slash (rev v))))) v"

definition is_inside_path :: "(16 word \<Rightarrow> 16 word) \<Rightarrow> wide_string \<Rightarrow> wide_string \<Rightarrow> bool" where
  "is_inside_path lower root candidate =
     (let r = trim_trailing_separators (lexically_normal root); c = trim_trailing_separators (lexically_normal candidate)
      in length r \<le> length c \<and> map lower (take (length r) c) = map lower r \<and> (length c = length r \<or> is_slash (c ! length r)))"

definition build_path :: "wide_string \<Rightarrow> wide_string list \<Rightarrow> wide_string" where
  "build_path root ss = lexically_normal (foldl append_path root ss)"

section \<open>The names of a path\<close>

text \<open>
  The elements of a path by its iterator, and the names of \<open>lexically_relative\<close>, whose result is taken apart again: \<open>None\<close> where it is
  the empty path. Names are compared as they are written.
\<close>

definition path_elements :: "wide_string \<Rightarrow> wide_string list" where
  "path_elements p = (if root_name p = [] then [] else [root_name p]) @ (if has_root_directory p then [[hd (after_root_name p)]] else []) @
     names_of [] (relative_path p) @ (if ends_in_slash (relative_path p) then [[]] else [])"

fun drop_common :: "'a list \<Rightarrow> 'a list \<Rightarrow> 'a list \<times> 'a list" where
  "drop_common (x # xs) (y # ys) = (if x = y then drop_common xs ys else (x # xs, y # ys))"
| "drop_common xs ys = (xs, ys)"

definition root_elements :: "wide_string \<Rightarrow> nat" where
  "root_elements p = (if root_name p = [] then 0 else 1) + (if has_root_directory p then 1 else 0)"

definition relative_names :: "wide_string \<Rightarrow> wide_string \<Rightarrow> wide_string list option" where
  "relative_names p base =
     (if root_name p \<noteq> root_name base \<or> is_absolute p \<noteq> is_absolute base \<or> \<not> has_root_directory p \<and> has_root_directory base then None
      else let (a, b) = drop_common (path_elements p) (path_elements base);
               b = drop (root_elements base - (length (path_elements base) - length b)) b;
               ups = length (filter (\<lambda>e. e \<noteq> [] \<and> e \<noteq> [DOT] \<and> e \<noteq> [DOT, DOT]) b); downs = length (filter (\<lambda>e. e = [DOT, DOT]) b)
           in if ups < downs then None
              else Some (replicate (ups - downs) [DOT, DOT] @ filter (\<lambda>e. e \<noteq> [] \<and> e \<noteq> [DOT]) a))"

text \<open>\<open>SegmentsFromAbsolutePath\<close> once the root and the absolute path are known.\<close>

definition segments_below :: "(wide_string \<Rightarrow> string) \<Rightarrow> (16 word \<Rightarrow> 16 word) \<Rightarrow> (16 word \<Rightarrow> 16 word) \<Rightarrow> wide_string \<Rightarrow> wide_string \<Rightarrow>
    wide_string + wide_string list" where
  "segments_below utf8 cfold lower root absolute =
     (let c = lexically_normal absolute in
      if \<not> is_inside_path lower root c then Inl (Workspace_Studio.wide ''Caminho fora do CloudOS Drive.'')
      else let ss = (case relative_names c root of None \<Rightarrow> [] | Some ns \<Rightarrow> ns)
           in case validate_segments utf8 cfold True ss of Some e \<Rightarrow> Inl e | None \<Rightarrow> Inr ss)"

end
