(* ===== verification/Drive_Metadata.thy ===== *)
theory Drive_Metadata
  imports Path_Facts
begin

text \<open>
  The metadata of the drive's trash in \<open>native_cloudos_drive.cpp\<close>: the JSON text that is written, and the reader, which looks for the first
  occurrence of a quoted key.
\<close>

section \<open>The writer\<close>

definition QUOTE :: char where "QUOTE = CHR 0x22"

definition ESCAPE :: char where "ESCAPE = CHR 0x5C"

definition hex_nibble :: "nat \<Rightarrow> char" where
  "hex_nibble n = ''0123456789abcdef'' ! n"

definition json_escape_char :: "char \<Rightarrow> string" where
  "json_escape_char c =
     (if c = QUOTE then [ESCAPE, QUOTE] else if c = ESCAPE then [ESCAPE, ESCAPE]
      else if c = CHR 0x08 then [ESCAPE, CHR ''b''] else if c = CHR 0x0C then [ESCAPE, CHR ''f''] else if c = CHR 0x0A then [ESCAPE, CHR ''n'']
      else if c = CHR 0x0D then [ESCAPE, CHR ''r''] else if c = CHR 0x09 then [ESCAPE, CHR ''t'']
      else if (of_char c :: nat) < 0x20 then [ESCAPE] @ ''u00'' @ [hex_nibble (of_char c div 16), hex_nibble (of_char c mod 16)]
      else [c])"

definition json_escape :: "string \<Rightarrow> string" where
  "json_escape s = concat (map json_escape_char s)"

record trash_entry =
  te_id :: wide_string
  te_stored :: wide_string
  te_name :: wide_string
  te_path :: "wide_string list"
  te_deleted :: wide_string
  te_folder :: bool
  te_size :: nat

definition quoted_text :: "string \<Rightarrow> string" where
  "quoted_text s = [QUOTE] @ json_escape s @ [QUOTE]"

fun with_commas :: "string list \<Rightarrow> string" where
  "with_commas [] = []"
| "with_commas [s] = s"
| "with_commas (s # ss) = s @ '','' @ with_commas ss"

definition metadata_text :: "(wide_string \<Rightarrow> string) \<Rightarrow> trash_entry \<Rightarrow> string" where
  "metadata_text utf8 e =
     ''{'' @ quoted_text ''id'' @ '':'' @ quoted_text (utf8 (te_id e)) @ '','' @ quoted_text ''storedName'' @ '':'' @ quoted_text (utf8 (te_stored e)) @ '',''
     @ quoted_text ''originalName'' @ '':'' @ quoted_text (utf8 (te_name e)) @ '','' @ quoted_text ''originalPath'' @ '':['' @
     with_commas (map (\<lambda>s. quoted_text (utf8 s)) (te_path e)) @ ''],'' @ quoted_text ''deletedAt'' @ '':'' @ quoted_text (utf8 (te_deleted e)) @ ''}''"

section \<open>The reader\<close>

definition json_space :: "char \<Rightarrow> bool" where
  "json_space c \<longleftrightarrow> c = CHR '' '' \<or> c = CHR 0x09 \<or> c = CHR 0x0D \<or> c = CHR 0x0A"

definition skip_space :: "string \<Rightarrow> string" where
  "skip_space t = dropWhile json_space t"

definition hex_value :: "char \<Rightarrow> nat option" where
  "hex_value c = (let n = of_char c :: nat in
     if 0x30 \<le> n \<and> n \<le> 0x39 then Some (n - 0x30) else if 0x61 \<le> n \<and> n \<le> 0x66 then Some (n - 0x57)
     else if 0x41 \<le> n \<and> n \<le> 0x46 then Some (n - 0x37) else None)"

definition utf8_of :: "nat \<Rightarrow> string" where
  "utf8_of n =
     (if n \<le> 0x7F then [char_of n]
      else if n \<le> 0x7FF then [char_of (0xC0 + n div 64), char_of (0x80 + n mod 64)]
      else [char_of (0xE0 + n div 4096), char_of (0x80 + n div 64 mod 64), char_of (0x80 + n mod 64)])"

definition simple_escape :: "char \<Rightarrow> char option" where
  "simple_escape c = (if c = QUOTE \<or> c = ESCAPE \<or> c = CHR ''/'' then Some c else if c = CHR ''b'' then Some (CHR 0x08)
     else if c = CHR ''f'' then Some (CHR 0x0C) else if c = CHR ''n'' then Some (CHR 0x0A) else if c = CHR ''r'' then Some (CHR 0x0D)
     else if c = CHR ''t'' then Some (CHR 0x09) else None)"

definition four_hex :: "string \<Rightarrow> (nat \<times> string) option" where
  "four_hex t = (case t of a # b # c # d # r \<Rightarrow>
       (case (hex_value a, hex_value b, hex_value c, hex_value d) of
          (Some a, Some b, Some c, Some d) \<Rightarrow> Some (((a * 16 + b) * 16 + c) * 16 + d, r) | _ \<Rightarrow> None)
     | _ \<Rightarrow> None)"

lemma four_hex_length: "four_hex t = Some (n, r) \<Longrightarrow> length r < length t"
  by (auto simp: four_hex_def split: list.splits option.splits)

text \<open>\<open>ParseJsonString\<close>: the text behind the opening quote; the result with what follows the closing one.\<close>

function string_body :: "string \<Rightarrow> string \<Rightarrow> (string \<times> string) option" where
  "string_body out [] = None"
| "string_body out (c # r) =
     (if c = QUOTE then Some (out, r)
      else if c \<noteq> ESCAPE then string_body (out @ [c]) r
      else case r of
        [] \<Rightarrow> None
      | e # r' \<Rightarrow>
          if e = CHR ''u'' then (case four_hex r' of None \<Rightarrow> None | Some (n, q) \<Rightarrow> string_body (out @ utf8_of n) q)
          else (case simple_escape e of None \<Rightarrow> None | Some x \<Rightarrow> string_body (out @ [x]) r'))"
  by pat_completeness auto
termination by (relation "measure (\<lambda>(out, t). length t)") (auto dest: four_hex_length)

definition parse_json_string :: "string \<Rightarrow> (string \<times> string) option" where
  "parse_json_string t = (case skip_space t of c # r \<Rightarrow> if c = QUOTE then string_body [] r else None | [] \<Rightarrow> None)"

text \<open>The text behind the first occurrence of a text.\<close>

fun after_first :: "string \<Rightarrow> string \<Rightarrow> string option" where
  "after_first n [] = (if n = [] then Some [] else None)"
| "after_first n (c # r) = (if take (length n) (c # r) = n then Some (drop (length n) (c # r)) else after_first n r)"

definition value_offset :: "string \<Rightarrow> string \<Rightarrow> string option" where
  "value_offset t key =
     (case after_first ([QUOTE] @ key @ [QUOTE]) t of
        None \<Rightarrow> None
      | Some r \<Rightarrow> (case skip_space r of c # q \<Rightarrow> if c = CHR '':'' then Some (skip_space q) else None | [] \<Rightarrow> None))"

text \<open>A string that does not convert is refused. \<open>conv\<close> gives the empty text for one that cannot be converted.\<close>

definition find_string :: "(string \<Rightarrow> wide_string) \<Rightarrow> string \<Rightarrow> string \<Rightarrow> wide_string option" where
  "find_string conv t key =
     (case Option.bind (value_offset t key) parse_json_string of
        None \<Rightarrow> None
      | Some (s, r) \<Rightarrow> if s = [] then Some [] else if conv s = [] then None else Some (conv s))"

lemma string_body_length: "string_body out t = Some (s, r) \<Longrightarrow> length r < length t"
proof (induction out t rule: string_body.induct)
  case (2 out c r)
  show ?case
  proof (cases r)
    case Nil
    thus ?thesis using 2 by (auto split: if_splits)
  next
    case (Cons e q)
    show ?thesis using 2 Cons four_hex_length [of q] by (fastforce split: if_splits option.splits)
  qed
qed simp

lemma skip_space_length: "length (skip_space t) \<le> length t"
  by (simp add: skip_space_def length_dropWhile_le)

lemma parse_json_string_length: "parse_json_string t = Some (s, r) \<Longrightarrow> length r < length t"
  using skip_space_length [of t] by (auto simp: parse_json_string_def dest!: string_body_length split: list.splits if_splits)

text \<open>\<open>FindJsonStringArray\<close> behind the bracket.\<close>

function string_array :: "(string \<Rightarrow> wide_string) \<Rightarrow> wide_string list \<Rightarrow> string \<Rightarrow> wide_string list option" where
  "string_array conv out t =
     (case skip_space t of
        [] \<Rightarrow> None
      | c # r \<Rightarrow>
          if c = CHR '']'' then Some out
          else (case parse_json_string (c # r) of
              None \<Rightarrow> None
            | Some (s, q) \<Rightarrow>
                if s \<noteq> [] \<and> conv s = [] then None
                else (case skip_space q of
                    d # p \<Rightarrow> if d = CHR '','' then string_array conv (out @ [if s = [] then [] else conv s]) p
                       else if d = CHR '']'' then Some (out @ [if s = [] then [] else conv s]) else None
                  | [] \<Rightarrow> None)))"
  by pat_completeness auto
termination
proof (relation "measure (\<lambda>(conv, out, t). length t)", goal_cases)
  case (2 conv out t c r x s q d p)
  have "length (skip_space q) \<le> length q" "length q < length (c # r)" "length (c # r) \<le> length t"
    using skip_space_length [of q] parse_json_string_length [of "c # r" s q] skip_space_length [of t] 2 by auto
  thus ?case using 2 by simp
qed simp

declare string_array.simps [simp del]

definition find_string_array :: "(string \<Rightarrow> wide_string) \<Rightarrow> string \<Rightarrow> string \<Rightarrow> wide_string list option" where
  "find_string_array conv t key =
     (case value_offset t key of
        Some (c # r) \<Rightarrow> if c = CHR ''['' then string_array conv [] r else None
      | _ \<Rightarrow> None)"

text \<open>The fields that are read; the other three come from the file system.\<close>

definition read_metadata :: "(string \<Rightarrow> wide_string) \<Rightarrow> string \<Rightarrow> (wide_string \<times> wide_string \<times> wide_string list \<times> wide_string) option" where
  "read_metadata conv t =
     (case (find_string conv t ''id'', find_string conv t ''originalName'', find_string_array conv t ''originalPath'', find_string conv t ''deletedAt'') of
        (Some i, Some n, Some p, Some d) \<Rightarrow> Some (i, n, p, d) | _ \<Rightarrow> None)"

end
