(* ===== verification/Drive_Service.thy ===== *)
theory Drive_Service
  imports Drive_Paths Drive_Metadata File_Service
begin

text \<open>
  \<open>NativeCloudOSDrive\<close> of \<open>native_cloudos_drive.cpp\<close>: its directories, the paths it admits, listing, reading, writing, moving and
  copying. The disk is an unknown state \<open>'d\<close>. The calls that change it are the values of \<open>disk_call\<close>; what is asked of it and of Windows
  are the other fields of \<open>drive_api\<close>. The text of an error is the one a caller finds that passed an empty one.
\<close>

section \<open>Windows\<close>

datatype disk_call =
    Make_Directories wide_string
  | Make_Directory wide_string
  | Set_Attributes wide_string "32 word"
  | Move_File wide_string wide_string
  | Copy_One wide_string wide_string
  | Delete_One wide_string
  | Remove_Folder wide_string
  | Remove_All wide_string
  | Open_Write wide_string bool
  | Write_At wide_string nat string
  | Open_Text wide_string
  | Write_Text wide_string string

record file_info =
  in_attributes :: "32 word"
  in_high :: "32 word"
  in_low :: "32 word"
  in_modified :: nat

text \<open>
  A call answers with the code of its error or the bytes it wrote. \<open>da_entries\<close> are the names of a directory and whether reading it
  ended in an error; \<open>da_text\<close> is the whole of a file, nothing where it cannot be opened or read; \<open>da_tag\<close> the attributes of an open file, \<open>da_last\<close> the
  last error code where the call itself did not fail.
\<close>

record 'd drive_api =
  da_utf8 :: "wide_string \<Rightarrow> string"
  da_wide :: "string \<Rightarrow> wide_string"
  da_fold :: "16 word \<Rightarrow> 16 word"
  da_lower :: "16 word \<Rightarrow> 16 word"
  da_override :: "wide_string option"
  da_local :: "wide_string option"
  da_temp :: "wide_string option"
  da_absolute :: "wide_string \<Rightarrow> wide_string option"
  da_message :: "nat \<Rightarrow> wide_string"
  da_guid :: "'d \<Rightarrow> nat list option"
  da_time :: "'d \<Rightarrow> nat list"
  da_attr :: "wide_string \<Rightarrow> 'd \<Rightarrow> 32 word option"
  da_info :: "wide_string \<Rightarrow> 'd \<Rightarrow> file_info option"
  da_entries :: "wide_string \<Rightarrow> 'd \<Rightarrow> wide_string list \<times> bool"
  da_text :: "wide_string \<Rightarrow> 'd \<Rightarrow> string option"
  da_open :: "wide_string \<Rightarrow> 'd \<Rightarrow> nat option"
  da_tag :: "wide_string \<Rightarrow> 'd \<Rightarrow> 32 word option"
  da_size :: "wide_string \<Rightarrow> 'd \<Rightarrow> nat + nat"
  da_seek :: "wide_string \<Rightarrow> int \<Rightarrow> 'd \<Rightarrow> nat option"
  da_read :: "wide_string \<Rightarrow> nat \<Rightarrow> nat \<Rightarrow> 'd \<Rightarrow> nat + string"
  da_last :: "'d \<Rightarrow> nat"
  da_do :: "disk_call \<Rightarrow> 'd \<Rightarrow> (nat + nat) \<times> 'd"

definition is_directory :: "32 word \<Rightarrow> bool" where
  "is_directory a \<longleftrightarrow> and a 0x10 \<noteq> 0"

definition is_reparse :: "32 word \<Rightarrow> bool" where
  "is_reparse a \<longleftrightarrow> and a 0x400 \<noteq> 0"

section \<open>Steps\<close>

type_synonym ('d, 'a) drive_step = "'d \<Rightarrow> (wide_string + 'a) \<times> 'd"

definition then_do :: "('d, 'a) drive_step \<Rightarrow> ('a \<Rightarrow> ('d, 'b) drive_step) \<Rightarrow> ('d, 'b) drive_step" where
  "then_do f g d = (case f d of (Inl e, d') \<Rightarrow> (Inl e, d') | (Inr a, d') \<Rightarrow> g a d')"

definition ask_disk :: "('d \<Rightarrow> wide_string + 'a) \<Rightarrow> ('d, 'a) drive_step" where
  "ask_disk f d = (f d, d)"

text \<open>\<open>Win32ErrorMessage\<close> and \<open>JoinError\<close>.\<close>

definition win32_error_message :: "'d drive_api \<Rightarrow> nat \<Rightarrow> string \<Rightarrow> wide_string" where
  "win32_error_message A code fallback =
     (let m = rev (dropWhile (\<lambda>c. c \<in> {0x0D, 0x0A, 0x20, DOT}) (rev (da_message A code)))
      in if m = [] then Workspace_Studio.wide fallback else m)"

definition join_error :: "'d drive_api \<Rightarrow> string \<Rightarrow> nat \<Rightarrow> wide_string" where
  "join_error A pre code = Workspace_Studio.wide pre @ Workspace_Studio.wide '': '' @ win32_error_message A code ''erro do Windows''"

definition perform :: "'d drive_api \<Rightarrow> disk_call \<Rightarrow> string \<Rightarrow> ('d, unit) drive_step" where
  "perform A c pre d = (case da_do A c d of (Inl code, d') \<Rightarrow> (Inl (join_error A pre code), d') | (Inr _, d') \<Rightarrow> (Inr (), d'))"

fun each_in_turn :: "('x \<Rightarrow> ('d, unit) drive_step) \<Rightarrow> 'x list \<Rightarrow> ('d, unit) drive_step" where
  "each_in_turn f [] d = (Inr (), d)"
| "each_in_turn f (x # xs) d = then_do (f x) (\<lambda>_. each_in_turn f xs) d"

section \<open>The root\<close>

definition resolve_root :: "'d drive_api \<Rightarrow> wide_string" where
  "resolve_root A =
     (case da_override A of
        Some p \<Rightarrow> lexically_normal (case da_absolute A p of None \<Rightarrow> [] | Some a \<Rightarrow> a)
      | None \<Rightarrow> (case (da_local A, da_temp A) of
          (Some p, _) \<Rightarrow> lexically_normal (append_path (append_path p (Workspace_Studio.wide ''CloudOS'')) (Workspace_Studio.wide ''Drive''))
        | (None, Some p) \<Rightarrow> lexically_normal (append_path (append_path p (Workspace_Studio.wide ''CloudOS'')) (Workspace_Studio.wide ''Drive''))
        | (None, None) \<Rightarrow> []))"

definition trusted_folder :: "32 word option \<Rightarrow> bool" where
  "trusted_folder a = (case a of None \<Rightarrow> False | Some a \<Rightarrow> is_directory a \<and> \<not> is_reparse a)"

definition ensure_directory_tree :: "'d drive_api \<Rightarrow> wide_string \<Rightarrow> ('d, unit) drive_step" where
  "ensure_directory_tree A p d =
     (case da_do A (Make_Directories p) d of
        (Inl _, d') \<Rightarrow> (Inl (Workspace_Studio.wide ''Nao foi possivel preparar o CloudOS Drive.''), d')
      | (Inr _, d') \<Rightarrow>
          (if trusted_folder (da_attr A p d') then Inr ()
           else Inl (Workspace_Studio.wide ''A raiz do CloudOS Drive nao e um diretorio fisico confiavel.''), d'))"

definition standard_directories :: "wide_string list list" where
  "standard_directories = map (map Workspace_Studio.wide) [[''Home''], [''Home'', ''Desktop''], [''Home'', ''Documents''], [''Home'', ''Downloads''],
     [''Home'', ''Projects''], [''Shared''], [''Apps''], [''Apps'', ''windows''], [''Apps'', ''linux'']]"

definition internal_path :: "wide_string \<Rightarrow> wide_string" where
  "internal_path base = append_path base kInternalRoot"

definition trash_path :: "wide_string \<Rightarrow> wide_string" where
  "trash_path base = append_path (internal_path base) kTrashName"

definition hide :: "'d drive_api \<Rightarrow> wide_string \<Rightarrow> 'd \<Rightarrow> 'd" where
  "hide A p d = snd (da_do A (Set_Attributes p (or (case da_attr A p d of None \<Rightarrow> -1 | Some a \<Rightarrow> a) 2)) d)"

definition ensure_ready :: "'d drive_api \<Rightarrow> ('d, wide_string) drive_step" where
  "ensure_ready A =
     (let base = resolve_root A
      in if base = [] then ask_disk (\<lambda>_. Inl (Workspace_Studio.wide ''Nao foi possivel resolver LocalAppData para o CloudOS Drive.''))
         else then_do (ensure_directory_tree A base) (\<lambda>_.
              then_do (each_in_turn (\<lambda>ss. ensure_directory_tree A (build_path base ss)) standard_directories) (\<lambda>_.
              then_do (ensure_directory_tree A (internal_path base)) (\<lambda>_.
              then_do (ensure_directory_tree A (trash_path base)) (\<lambda>_ d. (Inr base, hide A (internal_path base) d))))))"

section \<open>Paths\<close>

fun walk_names :: "'d drive_api \<Rightarrow> 'd \<Rightarrow> wide_string \<Rightarrow> 32 word \<Rightarrow> wide_string list \<Rightarrow> wide_string + wide_string \<times> 32 word" where
  "walk_names A d cur a [] = Inr (cur, a)"
| "walk_names A d cur a (s # ss) =
     (case da_attr A (append_path cur s) d of
        None \<Rightarrow> Inl (Workspace_Studio.wide ''Arquivo ou pasta nao encontrado no CloudOS Drive.'')
      | Some a \<Rightarrow> if is_reparse a then Inl (Workspace_Studio.wide ''Links e pontos de reparo nao sao seguidos pelo CloudOS Drive.'')
          else walk_names A d (append_path cur s) a ss)"

definition existing_safe_path :: "'d drive_api \<Rightarrow> wide_string \<Rightarrow> wide_string list \<Rightarrow> bool \<Rightarrow> 'd \<Rightarrow> wide_string + wide_string \<times> 32 word" where
  "existing_safe_path A base ss allow_empty d =
     (case validate_segments (da_utf8 A) (da_fold A) allow_empty ss of
        Some e \<Rightarrow> Inl e
      | None \<Rightarrow>
          if \<not> trusted_folder (da_attr A base d) then Inl (Workspace_Studio.wide ''Raiz invalida do CloudOS Drive.'')
          else (case walk_names A d base (the (da_attr A base d)) ss of
              Inl e \<Rightarrow> Inl e
            | Inr (p, a) \<Rightarrow> if is_inside_path (da_lower A) base p then Inr (lexically_normal p, a)
                else Inl (Workspace_Studio.wide ''Tentativa de sair da raiz do CloudOS Drive bloqueada.'')))"

text \<open>The path and the attributes of what is there.\<close>

definition destination_safe_path :: "'d drive_api \<Rightarrow> wide_string \<Rightarrow> wide_string list \<Rightarrow> 'd \<Rightarrow> wide_string + wide_string \<times> 32 word option" where
  "destination_safe_path A base ss d =
     (case validate_segments (da_utf8 A) (da_fold A) False ss of
        Some e \<Rightarrow> Inl e
      | None \<Rightarrow> (case existing_safe_path A base (butlast ss) True d of
            Inl e \<Rightarrow> Inl e
          | Inr (parent, a) \<Rightarrow>
              if \<not> is_directory a then Inl (Workspace_Studio.wide ''A pasta de destino nao existe.'')
              else let p = lexically_normal (append_path parent (last ss))
                in if \<not> is_inside_path (da_lower A) base p then Inl (Workspace_Studio.wide ''Destino fora do CloudOS Drive bloqueado.'')
                   else (case da_attr A p d of
                       None \<Rightarrow> Inr (p, None)
                     | Some a \<Rightarrow> if is_reparse a then Inl (Workspace_Studio.wide ''Links e pontos de reparo nao sao aceitos pelo CloudOS Drive.'')
                         else Inr (p, Some a))))"

definition drive_root :: "'d drive_api \<Rightarrow> 'd \<Rightarrow> wide_string \<times> 'd" where
  "drive_root A d = (case ensure_ready A d of (Inl _, d') \<Rightarrow> ([], d') | (Inr base, d') \<Rightarrow> (base, d'))"

definition below_drive_root :: "'d drive_api \<Rightarrow> wide_string list \<Rightarrow> 'd \<Rightarrow> wide_string \<times> 'd" where
  "below_drive_root A ns d = (case drive_root A d of (base, d') \<Rightarrow> (if base = [] then [] else foldl append_path base ns, d'))"

definition home_root :: "'d drive_api \<Rightarrow> 'd \<Rightarrow> wide_string \<times> 'd" where
  "home_root A = below_drive_root A [Workspace_Studio.wide ''Home'']"

definition projects_root :: "'d drive_api \<Rightarrow> 'd \<Rightarrow> wide_string \<times> 'd" where
  "projects_root A = below_drive_root A [Workspace_Studio.wide ''Home'', Workspace_Studio.wide ''Projects'']"

definition trash_root :: "'d drive_api \<Rightarrow> 'd \<Rightarrow> wide_string \<times> 'd" where
  "trash_root A = below_drive_root A [kInternalRoot, kTrashName]"

definition is_path_inside :: "'d drive_api \<Rightarrow> wide_string \<Rightarrow> 'd \<Rightarrow> bool \<times> 'd" where
  "is_path_inside A p d =
     (if p = [] then (False, d)
      else case ensure_ready A d of
        (Inl _, d') \<Rightarrow> (False, d')
      | (Inr base, d') \<Rightarrow> (case da_absolute A p of None \<Rightarrow> False | Some a \<Rightarrow> is_inside_path (da_lower A) base (lexically_normal a), d'))"

definition segments_from_absolute_path :: "'d drive_api \<Rightarrow> wide_string \<Rightarrow> ('d, wide_string list) drive_step" where
  "segments_from_absolute_path A p =
     (if p = [] then ask_disk (\<lambda>_. Inl bad_path_text)
      else then_do (ensure_ready A) (\<lambda>base. ask_disk (\<lambda>_.
        case da_absolute A p of None \<Rightarrow> Inl (Workspace_Studio.wide ''Caminho fora do CloudOS Drive.'')
        | Some a \<Rightarrow> segments_below (da_utf8 A) (da_fold A) (da_lower A) base a)))"

definition absolute_path :: "'d drive_api \<Rightarrow> wide_string list \<Rightarrow> 'd \<Rightarrow> wide_string \<times> 'd" where
  "absolute_path A ss d =
     (case ensure_ready A d of
        (Inl _, d') \<Rightarrow> ([], d')
      | (Inr base, d') \<Rightarrow> (if validate_segments (da_utf8 A) (da_fold A) True ss = None then build_path base ss else [], d'))"

end
