(* ===== verification/Drive_Operations.thy ===== *)
theory Drive_Operations
  imports Drive_Service
begin

text \<open>
  The operations of the drive on files and folders in \<open>native_cloudos_drive.cpp\<close>. The walks through a tree have a bound on their depth and
  no result where it is reached.
\<close>

section \<open>\<open>List\<close>\<close>

record drive_entry =
  de_name :: wide_string
  de_folder :: bool
  de_reparse :: bool
  de_size :: nat
  de_modified :: nat

definition info_size :: "file_info \<Rightarrow> nat" where
  "info_size i = unat (or (push_bit 32 (ucast (in_high i))) (ucast (in_low i)) :: u64)"

definition drive_entry_of :: "wide_string \<Rightarrow> file_info \<Rightarrow> drive_entry" where
  "drive_entry_of n i =
     (let folder = is_directory (in_attributes i); reparse = is_reparse (in_attributes i)
      in \<lparr>de_name = n, de_folder = folder, de_reparse = reparse, de_size = (if folder \<or> reparse then 0 else info_size i), de_modified = in_modified i\<rparr>)"

definition folded :: "'d drive_api \<Rightarrow> wide_string \<Rightarrow> nat list" where
  "folded A n = map (\<lambda>c. unat (da_fold A c)) (c_text n)"

definition equal_folded :: "'d drive_api \<Rightarrow> wide_string \<Rightarrow> wide_string \<Rightarrow> bool" where
  "equal_folded A m n \<longleftrightarrow> folded A m = folded A n"

definition listed_entry :: "'d drive_api \<Rightarrow> wide_string \<Rightarrow> bool \<Rightarrow> 'd \<Rightarrow> wide_string \<Rightarrow> drive_entry option" where
  "listed_entry A p at_root d n =
     (if at_root \<and> equal_folded A n kInternalRoot then None else map_option (drive_entry_of n) (da_info A (append_path p n) d))"

text \<open>The order of entries with equal keys is not determined by the code; here it is that of the directory.\<close>

definition drive_key :: "'d drive_api \<Rightarrow> drive_entry \<Rightarrow> nat \<times> nat list" where
  "drive_key A e = (if de_folder e then 0 else 1, folded A (de_name e))"

definition list_folder :: "'d drive_api \<Rightarrow> wide_string list \<Rightarrow> ('d, drive_entry list) drive_step" where
  "list_folder A ss = then_do (ensure_ready A) (\<lambda>base. ask_disk (\<lambda>d.
     case existing_safe_path A base ss True d of
       Inr (p, a) \<Rightarrow>
         if \<not> is_directory a then Inl (Workspace_Studio.wide ''O caminho nao e uma pasta do CloudOS Drive.'')
         else (case da_entries A p d of (ns, failed) \<Rightarrow>
           if failed then Inl (Workspace_Studio.wide ''Falha ao listar o CloudOS Drive.'')
           else Inr (sort_key (drive_key A) (List.map_filter (listed_entry A p (ss = []) d) ns)))
     | Inl _ \<Rightarrow> Inl (Workspace_Studio.wide ''O caminho nao e uma pasta do CloudOS Drive.'')))"

section \<open>\<open>Read\<close>\<close>

definition DWORD_MAX :: nat where "DWORD_MAX = 2 ^ 32 - 1"

text \<open>Windows reads no more bytes than it was asked for; the bytes read before are the accumulator.\<close>

function read_turns :: "'d drive_api \<Rightarrow> wide_string \<Rightarrow> nat \<Rightarrow> nat \<Rightarrow> string \<Rightarrow> 'd \<Rightarrow> nat + string" where
  "read_turns A p start amount out d =
     (if amount \<le> length out then Inr out
      else case da_read A p (start + length out) (min (amount - length out) DWORD_MAX) d of
        Inl code \<Rightarrow> Inl code
      | Inr bs \<Rightarrow> if bs = [] then Inr out else read_turns A p start amount (out @ bs) d)"
  by pat_completeness auto
termination by (relation "measure (\<lambda>(A, p, start, amount, out, d). amount - length out)")
   (auto intro!: diff_less_mono2 simp: length_greater_0_conv [symmetric] simp del: length_greater_0_conv)

declare read_turns.simps [simp del]

definition open_for_reading :: "'d drive_api \<Rightarrow> wide_string \<Rightarrow> 'd \<Rightarrow> wide_string option" where
  "open_for_reading A p d =
     (case da_open A p d of
        Some code \<Rightarrow> Some (join_error A ''Falha ao abrir arquivo'' code)
      | None \<Rightarrow> (case da_tag A p d of
          None \<Rightarrow> Some (Workspace_Studio.wide ''Ponto de reparo bloqueado durante a leitura.'')
        | Some a \<Rightarrow> if is_reparse a then Some (Workspace_Studio.wide ''Ponto de reparo bloqueado durante a leitura.'') else None))"

definition read_range :: "'d drive_api \<Rightarrow> wide_string \<Rightarrow> nat \<Rightarrow> nat \<Rightarrow> 'd \<Rightarrow> wide_string + string \<times> bool \<times> nat" where
  "read_range A p offset maximum d =
     (case da_size A p d of
        Inl code \<Rightarrow> Inl (join_error A ''Falha ao consultar tamanho'' code)
      | Inr full \<Rightarrow>
          (let start = min offset full; amount = min (full - start) maximum in
           case da_seek A p (int start) d of
             Some code \<Rightarrow> Inl (join_error A ''Falha ao posicionar leitura'' code)
           | None \<Rightarrow> (case read_turns A p start amount [] d of
               Inl code \<Rightarrow> Inl (join_error A ''Falha durante leitura'' code)
             | Inr bs \<Rightarrow> Inr (bs, full \<le> start + length bs, full))))"

definition read_file :: "'d drive_api \<Rightarrow> wide_string list \<Rightarrow> nat \<Rightarrow> nat \<Rightarrow> ('d, string \<times> bool \<times> nat) drive_step" where
  "read_file A ss offset maximum =
     (if maximum = 0 then ask_disk (\<lambda>_. Inl (Workspace_Studio.wide ''Leitura invalida do CloudOS Drive.''))
      else then_do (ensure_ready A) (\<lambda>base. ask_disk (\<lambda>d.
        case existing_safe_path A base ss False d of
          Inl _ \<Rightarrow> Inl (Workspace_Studio.wide ''O caminho nao e um arquivo regular do CloudOS Drive.'')
        | Inr (p, a) \<Rightarrow>
            if is_directory a then Inl (Workspace_Studio.wide ''O caminho nao e um arquivo regular do CloudOS Drive.'')
            else (case open_for_reading A p d of Some e \<Rightarrow> Inl e | None \<Rightarrow> read_range A p offset maximum d))))"

section \<open>\<open>Write\<close>\<close>

function write_turns :: "'d drive_api \<Rightarrow> wide_string \<Rightarrow> nat \<Rightarrow> string \<Rightarrow> ('d, unit) drive_step" where
  "write_turns A p pos bytes d =
     (if bytes = [] then (Inr (), d)
      else case da_do A (Write_At p pos (take DWORD_MAX bytes)) d of
        (Inl code, d') \<Rightarrow> (Inl (join_error A ''Falha durante gravacao'' code), d')
      | (Inr n, d') \<Rightarrow>
          if n = 0 then (Inl (join_error A ''Falha durante gravacao'' (da_last A d')), d')
          else write_turns A p (pos + n) (drop n bytes) d')"
  by pat_completeness auto
termination by (relation "measure (\<lambda>(A, p, pos, bytes, d). length bytes)") auto

declare write_turns.simps [simp del]

definition resulting_size :: "'d drive_api \<Rightarrow> wide_string \<Rightarrow> 'd \<Rightarrow> nat" where
  "resulting_size A p d = (case da_size A p d of Inl _ \<Rightarrow> 0 | Inr n \<Rightarrow> n)"

definition write_open :: "'d drive_api \<Rightarrow> wide_string \<Rightarrow> u64 \<Rightarrow> string \<Rightarrow> ('d, nat) drive_step" where
  "write_open A p offset bytes d =
     (case da_tag A p d of
        None \<Rightarrow> (Inl (Workspace_Studio.wide ''Ponto de reparo bloqueado durante a gravacao.''), d)
      | Some a \<Rightarrow>
          if is_reparse a then (Inl (Workspace_Studio.wide ''Ponto de reparo bloqueado durante a gravacao.''), d)
          else (case da_seek A p (sint offset) d of
              Some code \<Rightarrow> (Inl (join_error A ''Falha ao posicionar gravacao'' code), d)
            | None \<Rightarrow> then_do (write_turns A p (unat offset) bytes) (\<lambda>_. ask_disk (\<lambda>d. Inr (resulting_size A p d))) d))"

definition write_file :: "'d drive_api \<Rightarrow> wide_string list \<Rightarrow> u64 \<Rightarrow> string \<Rightarrow> bool \<Rightarrow> ('d, nat) drive_step" where
  "write_file A ss offset bytes truncated =
     then_do (ensure_ready A) (\<lambda>base.
     then_do (ask_disk (destination_safe_path A base ss)) (\<lambda>(p, there).
       case there of
         Some a \<Rightarrow>
           if is_directory a then ask_disk (\<lambda>_. Inl (Workspace_Studio.wide ''O destino nao e um arquivo regular.''))
           else then_do (perform A (Open_Write p truncated) ''Falha ao abrir arquivo para gravacao'') (\<lambda>_. write_open A p offset bytes)
       | None \<Rightarrow> then_do (perform A (Open_Write p truncated) ''Falha ao abrir arquivo para gravacao'') (\<lambda>_. write_open A p offset bytes)))"

section \<open>\<open>Mkdir\<close> and \<open>Move\<close>\<close>

definition make_folder :: "'d drive_api \<Rightarrow> wide_string list \<Rightarrow> ('d, unit) drive_step" where
  "make_folder A ss =
     then_do (ensure_ready A) (\<lambda>base.
     then_do (ask_disk (destination_safe_path A base ss)) (\<lambda>(p, there).
       if there \<noteq> None then ask_disk (\<lambda>_. Inl (Workspace_Studio.wide ''A pasta ou arquivo de destino ja existe.''))
       else perform A (Make_Directory p) ''Falha ao criar pasta''))"

text \<open>The tests that \<open>Move\<close> and \<open>Copy\<close> share: the path of the source and of a destination that is free and not inside the source.\<close>

definition source_and_target :: "'d drive_api \<Rightarrow> string \<Rightarrow> wide_string list \<Rightarrow> wide_string list \<Rightarrow> ('d, wide_string \<times> wide_string) drive_step" where
  "source_and_target A verb src dst =
     then_do (ensure_ready A) (\<lambda>base.
     then_do (ask_disk (existing_safe_path A base src False)) (\<lambda>(s, a).
     then_do (ask_disk (destination_safe_path A base dst)) (\<lambda>(t, there). ask_disk (\<lambda>_.
       if there \<noteq> None then Inl (Workspace_Studio.wide ''O destino ja existe no CloudOS Drive.'')
       else if is_directory a \<and> is_inside_path (da_lower A) s t
       then Inl (Workspace_Studio.wide (''Nao e possivel '' @ verb @ '' uma pasta para dentro dela mesma.''))
       else Inr (s, t)))))"

definition move_item :: "'d drive_api \<Rightarrow> wide_string list \<Rightarrow> wide_string list \<Rightarrow> ('d, unit) drive_step" where
  "move_item A src dst = then_do (source_and_target A ''mover'' src dst) (\<lambda>(s, t). perform A (Move_File s t) ''Falha ao mover item'')"

section \<open>Trees\<close>

type_synonym ('d, 'a) deep_step = "'d \<Rightarrow> ((wide_string + 'a) \<times> 'd) option"

fun each_child :: "(wide_string \<Rightarrow> ('d, unit) deep_step) \<Rightarrow> wide_string list \<Rightarrow> ('d, unit) deep_step" where
  "each_child f [] d = Some (Inr (), d)"
| "each_child f (n # ns) d =
     (case f n d of None \<Rightarrow> None | Some (Inl e, d') \<Rightarrow> Some (Inl e, d') | Some (Inr _, d') \<Rightarrow> each_child f ns d')"

definition remove_all :: "'d drive_api \<Rightarrow> wide_string \<Rightarrow> 'd \<Rightarrow> 'd" where
  "remove_all A p d = snd (da_do A (Remove_All p) d)"

text \<open>\<open>CopyTreeSafe\<close>: a folder whose copy fails is removed again.\<close>

fun copy_tree :: "'d drive_api \<Rightarrow> nat \<Rightarrow> wide_string \<Rightarrow> wide_string \<Rightarrow> ('d, unit) deep_step" where
  "copy_tree A 0 s t d = None"
| "copy_tree A (Suc k) s t d =
     (case da_attr A s d of
        None \<Rightarrow> Some (Inl (Workspace_Studio.wide ''Origem nao encontrada durante a copia.''), d)
      | Some a \<Rightarrow>
          if is_reparse a then Some (Inl (Workspace_Studio.wide ''Copia de links ou pontos de reparo foi bloqueada.''), d)
          else if \<not> is_directory a then Some (perform A (Copy_One s t) ''Falha ao copiar arquivo'' d)
          else (case perform A (Make_Directory t) ''Falha ao criar pasta de destino'' d of
              (Inl e, d') \<Rightarrow> Some (Inl e, d')
            | (Inr _, d') \<Rightarrow>
                (case each_child (\<lambda>n. copy_tree A k (append_path s n) (append_path t n)) (fst (da_entries A s d')) d' of
                   None \<Rightarrow> None
                 | Some (Inl e, d'') \<Rightarrow> Some (Inl e, remove_all A t d'')
                 | Some (Inr _, d'') \<Rightarrow>
                     if snd (da_entries A s d') then Some (Inl (Workspace_Studio.wide ''Falha ao enumerar a pasta durante a copia.''), remove_all A t d'')
                     else Some (Inr (), d''))))"

text \<open>\<open>RemoveTreeSafe\<close>: nothing at the path is a success.\<close>

fun remove_tree :: "'d drive_api \<Rightarrow> nat \<Rightarrow> wide_string \<Rightarrow> ('d, unit) deep_step" where
  "remove_tree A 0 p d = None"
| "remove_tree A (Suc k) p d =
     (case da_attr A p d of
        None \<Rightarrow> Some (Inr (), d)
      | Some a \<Rightarrow>
          if is_reparse a then Some (Inl (Workspace_Studio.wide ''Exclusao de link ou ponto de reparo foi bloqueada.''), d)
          else if \<not> is_directory a then Some (perform A (Delete_One p) ''Falha ao excluir arquivo'' d)
          else (case each_child (\<lambda>n. remove_tree A k (append_path p n)) (fst (da_entries A p d)) d of
              None \<Rightarrow> None
            | Some (Inl e, d') \<Rightarrow> Some (Inl e, d')
            | Some (Inr _, d') \<Rightarrow>
                if snd (da_entries A p d) then Some (Inl (Workspace_Studio.wide ''Falha ao enumerar pasta para exclusao.''), d')
                else Some (perform A (Remove_Folder p) ''Falha ao excluir pasta'' d')))"

text \<open>The bound: a path of Windows has at most 32,767 characters.\<close>

definition tree_depth :: nat where "tree_depth = 32769"

definition copy_item_to :: "'d drive_api \<Rightarrow> wide_string list \<Rightarrow> wide_string list \<Rightarrow> ('d, unit) deep_step" where
  "copy_item_to A src dst d =
     (case source_and_target A ''copiar'' src dst d of
        (Inl e, d') \<Rightarrow> Some (Inl e, d')
      | (Inr (s, t), d') \<Rightarrow> copy_tree A tree_depth s t d')"

end
