(* ===== verification/Drive_Trash.thy ===== *)
theory Drive_Trash
  imports Drive_Operations
begin

text \<open>
  The trash of the drive in \<open>native_cloudos_drive.cpp\<close>: an item is moved below the internal folder under a new identifier, with its metadata
  beside it, and listed, restored or deleted by the identifier.
\<close>

section \<open>Identifiers and times\<close>

definition is_hex_id :: "wide_string \<Rightarrow> bool" where
  "is_hex_id s \<longleftrightarrow> length s = 32 \<and> (\<forall>c \<in> set s. 0x30 \<le> c \<and> c \<le> 0x39 \<or> 0x61 \<le> c \<and> c \<le> 0x66 \<or> 0x41 \<le> c \<and> c \<le> 0x46)"

fun hex_digits :: "nat \<Rightarrow> nat \<Rightarrow> string" where
  "hex_digits 0 n = []"
| "hex_digits (Suc w) n = hex_digits w (n div 16) @ [hex_nibble (n mod 16)]"

text \<open>The fields of the identifier: one of 32 bits, two of 16, eight of 8. Nothing where none could be made.\<close>

definition guid_widths :: "nat list" where
  "guid_widths = [8, 4, 4, 2, 2, 2, 2, 2, 2, 2, 2]"

definition generate_id :: "'d drive_api \<Rightarrow> 'd \<Rightarrow> wide_string" where
  "generate_id A d = (case da_guid A d of None \<Rightarrow> [] | Some ns \<Rightarrow> Workspace_Studio.wide (concat (map2 hex_digits guid_widths ns)))"

definition iso_timestamp :: "'d drive_api \<Rightarrow> 'd \<Rightarrow> wide_string" where
  "iso_timestamp A d = Workspace_Studio.wide (concat (map2 (\<lambda>(w, mark) n. padded w n @ mark)
     [(4, ''-''), (2, ''-''), (2, ''T''), (2, '':''), (2, '':''), (2, ''.''), (3, ''Z'')] (da_time A d)))"

definition item_name :: "wide_string \<Rightarrow> wide_string" where
  "item_name i = i @ Workspace_Studio.wide ''.item''"

definition json_name :: "wide_string \<Rightarrow> wide_string" where
  "json_name i = i @ Workspace_Studio.wide ''.json''"

section \<open>Metadata\<close>

definition write_metadata :: "'d drive_api \<Rightarrow> wide_string \<Rightarrow> trash_entry \<Rightarrow> ('d, unit) drive_step" where
  "write_metadata A p e d =
     (case da_do A (Open_Text p) d of
        (Inl _, d') \<Rightarrow> (Inl (Workspace_Studio.wide ''Nao foi possivel gravar metadados da lixeira.''), d')
      | (Inr _, d') \<Rightarrow> (case da_do A (Write_Text p (metadata_text (da_utf8 A) e)) d' of
            (Inl _, d'') \<Rightarrow> (Inl (Workspace_Studio.wide ''Falha ao persistir metadados da lixeira.''), d'')
          | (Inr _, d'') \<Rightarrow> (Inr (), d'')))"

definition read_all_text :: "'d drive_api \<Rightarrow> wide_string \<Rightarrow> 'd \<Rightarrow> string option" where
  "read_all_text A p d = (case da_text A p d of None \<Rightarrow> None | Some t \<Rightarrow> if 1024 * 1024 < length t then None else Some t)"

definition bad_metadata :: wide_string where
  "bad_metadata = Workspace_Studio.wide ''Metadados da lixeira invalidos.''"

definition parse_metadata :: "'d drive_api \<Rightarrow> wide_string \<Rightarrow> string \<Rightarrow> wide_string + trash_entry" where
  "parse_metadata A i t =
     (case read_metadata (da_wide A) t of
        None \<Rightarrow> Inl bad_metadata
      | Some (j, n, p, deleted) \<Rightarrow>
          if \<not> equal_folded A j i then Inl bad_metadata
          else (case validate_segments (da_utf8 A) (da_fold A) True p of
              Some e \<Rightarrow> Inl e
            | None \<Rightarrow> (case validate_segment (da_utf8 A) (da_fold A) n of
                  Some e \<Rightarrow> Inl e
                | None \<Rightarrow> Inr \<lparr>te_id = j, te_stored = item_name i, te_name = n, te_path = p, te_deleted = deleted, te_folder = False, te_size = 0\<rparr>)))"

text \<open>\<open>LoadTrashMetadata\<close>: the entry with the paths of the item and of its metadata.\<close>

definition load_trash_metadata :: "'d drive_api \<Rightarrow> wide_string \<Rightarrow> wide_string \<Rightarrow> 'd \<Rightarrow> wide_string + trash_entry \<times> wide_string \<times> wide_string" where
  "load_trash_metadata A base i d =
     (let json_path = append_path (trash_path base) (json_name i); stored = append_path (trash_path base) (item_name i) in
      if \<not> is_hex_id i then Inl (Workspace_Studio.wide ''Identificador de lixeira invalido.'')
      else case read_all_text A json_path d of
        None \<Rightarrow> Inl (Workspace_Studio.wide ''Metadados da lixeira nao encontrados.'')
      | Some t \<Rightarrow> (case parse_metadata A i t of
          Inl e \<Rightarrow> Inl e
        | Inr e \<Rightarrow> (case da_info A stored d of
            None \<Rightarrow> Inl (Workspace_Studio.wide ''Item da lixeira ausente ou inseguro.'')
          | Some f \<Rightarrow>
              if is_reparse (in_attributes f) then Inl (Workspace_Studio.wide ''Item da lixeira ausente ou inseguro.'')
              else Inr (e\<lparr>te_folder := is_directory (in_attributes f), te_size := if is_directory (in_attributes f) then 0 else info_size f\<rparr>,
                stored, json_path))))"

section \<open>\<open>Trash\<close>\<close>

definition new_entry :: "'d drive_api \<Rightarrow> wide_string list \<Rightarrow> wide_string \<Rightarrow> 32 word \<Rightarrow> 'd \<Rightarrow> trash_entry" where
  "new_entry A ss p a d =
     (let i = generate_id A d
      in \<lparr>te_id = i, te_stored = item_name i, te_name = last ss, te_path = butlast ss, te_deleted = iso_timestamp A d, te_folder = is_directory a,
          te_size = (if is_directory a then 0 else case da_info A p d of None \<Rightarrow> 0 | Some f \<Rightarrow> info_size f)\<rparr>)"

text \<open>Where the metadata cannot be written the item is moved back.\<close>

definition store_item :: "'d drive_api \<Rightarrow> wide_string \<Rightarrow> wide_string \<Rightarrow> trash_entry \<Rightarrow> ('d, trash_entry) drive_step" where
  "store_item A base p e =
     (let stored = append_path (trash_path base) (te_stored e); json_path = append_path (trash_path base) (json_name (te_id e))
      in then_do (perform A (Move_File p stored) ''Falha ao mover item para a lixeira'') (\<lambda>_ d.
        case write_metadata A json_path e d of
          (Inl err, d') \<Rightarrow> (Inl err, snd (da_do A (Delete_One json_path) (snd (da_do A (Move_File stored p) d'))))
        | (Inr _, d') \<Rightarrow> (Inr e, d')))"

definition trash_item :: "'d drive_api \<Rightarrow> wide_string list \<Rightarrow> ('d, trash_entry) drive_step" where
  "trash_item A ss =
     then_do (ensure_ready A) (\<lambda>base.
     then_do (ask_disk (existing_safe_path A base ss False)) (\<lambda>(p, a) d.
       if \<not> is_hex_id (generate_id A d) then (Inl (Workspace_Studio.wide ''Nao foi possivel gerar o identificador da lixeira.''), d)
       else store_item A base p (new_entry A ss p a d) d))"

section \<open>\<open>ListTrash\<close>\<close>

definition trash_id_of :: "'d drive_api \<Rightarrow> wide_string \<Rightarrow> wide_string option" where
  "trash_id_of A n = (if equal_folded A (extension n) (Workspace_Studio.wide ''.json'') \<and> is_hex_id (stem n) then Some (stem n) else None)"

definition listed_trash :: "'d drive_api \<Rightarrow> wide_string \<Rightarrow> 'd \<Rightarrow> wide_string \<Rightarrow> trash_entry option" where
  "listed_trash A base d n =
     (case trash_id_of A n of
        None \<Rightarrow> None
      | Some i \<Rightarrow> (case load_trash_metadata A base i d of Inl _ \<Rightarrow> None | Inr (e, _) \<Rightarrow> Some e))"

text \<open>The newest first; the order of equal times is that of the directory.\<close>

definition newest_first :: "trash_entry list \<Rightarrow> trash_entry list" where
  "newest_first es = rev (sort_key (\<lambda>e. map unat (te_deleted e)) (rev es))"

definition list_trash :: "'d drive_api \<Rightarrow> ('d, trash_entry list) drive_step" where
  "list_trash A = then_do (ensure_ready A) (\<lambda>base. ask_disk (\<lambda>d.
     case da_entries A (trash_path base) d of (ns, failed) \<Rightarrow>
       if failed then Inl (Workspace_Studio.wide ''Falha ao listar a lixeira do CloudOS Drive.'')
       else Inr (newest_first (List.map_filter (listed_trash A base d) ns))))"

section \<open>\<open>RestoreTrash\<close>, \<open>DeleteTrash\<close> and \<open>EmptyTrash\<close>\<close>

text \<open>Where the metadata cannot be deleted the item goes back to the trash.\<close>

definition restore_to :: "'d drive_api \<Rightarrow> wide_string \<Rightarrow> wide_string \<Rightarrow> wide_string \<Rightarrow> ('d, unit) drive_step" where
  "restore_to A stored json_path p =
     then_do (perform A (Move_File stored p) ''Falha ao restaurar item'') (\<lambda>_ d.
       case da_do A (Delete_One json_path) d of
         (Inl code, d') \<Rightarrow> (Inl (join_error A ''Falha ao concluir restauracao'' code), snd (da_do A (Move_File p stored) d'))
       | (Inr _, d') \<Rightarrow> (Inr (), d'))"

definition restore_trash :: "'d drive_api \<Rightarrow> wide_string \<Rightarrow> ('d, unit) drive_step" where
  "restore_trash A i =
     then_do (ensure_ready A) (\<lambda>base.
     then_do (ask_disk (load_trash_metadata A base i)) (\<lambda>(e, stored, json_path).
     then_do (ask_disk (destination_safe_path A base (te_path e @ [te_name e]))) (\<lambda>(p, there).
       if there \<noteq> None then ask_disk (\<lambda>_. Inl (Workspace_Studio.wide ''O local original ja contem um item com esse nome.''))
       else restore_to A stored json_path p)))"

definition delete_trash :: "'d drive_api \<Rightarrow> wide_string \<Rightarrow> ('d, unit) deep_step" where
  "delete_trash A i d =
     (case then_do (ensure_ready A) (\<lambda>base. ask_disk (load_trash_metadata A base i)) d of
        (Inl err, d') \<Rightarrow> Some (Inl err, d')
      | (Inr (e, stored, json_path), d') \<Rightarrow> (case remove_tree A tree_depth stored d' of
            None \<Rightarrow> None
          | Some (Inl err, d'') \<Rightarrow> Some (Inl err, d'')
          | Some (Inr _, d'') \<Rightarrow> Some (perform A (Delete_One json_path) ''Falha ao excluir metadados da lixeira'' d'')))"

text \<open>The number of items that were deleted comes with the error as well; \<open>None\<close> in its place where the listing failed.\<close>

fun delete_each :: "'d drive_api \<Rightarrow> nat \<Rightarrow> trash_entry list \<Rightarrow> 'd \<Rightarrow> (wide_string option \<times> nat option \<times> 'd) option" where
  "delete_each A n [] d = Some (None, Some n, d)"
| "delete_each A n (e # es) d =
     (case delete_trash A (te_id e) d of
        None \<Rightarrow> None
      | Some (Inl err, d') \<Rightarrow> Some (Some err, Some n, d')
      | Some (Inr _, d') \<Rightarrow> delete_each A (n + 1) es d')"

definition empty_trash :: "'d drive_api \<Rightarrow> 'd \<Rightarrow> (wide_string option \<times> nat option \<times> 'd) option" where
  "empty_trash A d = (case list_trash A d of (Inl err, d') \<Rightarrow> Some (Some err, None, d') | (Inr es, d') \<Rightarrow> delete_each A 0 es d')"

end
