(* ===== verification/Drive_Path_Facts.thy ===== *)
theory Drive_Path_Facts
  imports Drive_Paths
begin

text \<open>
  Facts on the paths of the drive: below a root on a drive letter, the path of a list of admitted names is the root with the names behind it;
  it is in normal form and inside the root, and its names are the list.
\<close>

section \<open>Names of a normal path\<close>

definition proper :: "wide_string \<Rightarrow> bool" where
  "proper n \<longleftrightarrow> plain n \<and> n \<noteq> [] \<and> n \<noteq> [DOT] \<and> n \<noteq> [DOT, DOT]"

lemma properD: "proper n \<Longrightarrow> plain n" "proper n \<Longrightarrow> n \<noteq> []" "proper n \<Longrightarrow> n \<noteq> [DOT]" "proper n \<Longrightarrow> n \<noteq> [DOT, DOT]"
  by (simp_all add: proper_def)

lemma slash_BACKSLASH [simp]: "is_slash BACKSLASH"
  by (simp add: is_slash_def)

lemma names_of_plain: "plain n \<Longrightarrow> names_of m (n @ BACKSLASH # r) = (if m @ n = [] then names_of [] r else (m @ n) # names_of [] r)"
  by (induction n arbitrary: m) (auto simp: plain_def)

lemma names_of_end: "plain n \<Longrightarrow> names_of m n = (if m @ n = [] then [] else [m @ n])"
  by (induction n arbitrary: m) (auto simp: plain_def)

lemma names_of_join: "\<forall>n \<in> set ns. proper n \<Longrightarrow> names_of [] (join_names ns) = ns"
proof (induction ns rule: join_names.induct)
  case (3 n m ms)
  have "names_of [] (join_names (m # ms)) = m # ms" using 3 by simp
  thus ?case using names_of_plain [of n "[]" "join_names (m # ms)"] 3(2) by (simp add: proper_def)
qed (simp_all add: names_of_end proper_def)

lemma join_names_nonempty: "ns \<noteq> [] \<Longrightarrow> \<forall>n \<in> set ns. proper n \<Longrightarrow> join_names ns \<noteq> []"
  by (cases ns rule: join_names.cases) (auto simp: proper_def)

lemma join_names_last: "ns \<noteq> [] \<Longrightarrow> \<forall>n \<in> set ns. proper n \<Longrightarrow> \<not> is_slash (last (join_names ns))"
proof (induction ns rule: join_names.induct)
  case (2 n)
  thus ?case by (auto simp: proper_def plain_def)
next
  case (3 n m ms)
  have "join_names (m # ms) \<noteq> []" using 3(3) by (intro join_names_nonempty) auto
  thus ?case using 3 by simp
qed simp

lemma join_names_hd: "ns \<noteq> [] \<Longrightarrow> \<forall>n \<in> set ns. proper n \<Longrightarrow> \<not> is_slash (hd (join_names ns))"
  by (cases ns rule: join_names.cases) (auto simp: proper_def plain_def)

lemma join_names_append: "ns \<noteq> [] \<Longrightarrow> ms \<noteq> [] \<Longrightarrow> join_names (ns @ ms) = join_names ns @ BACKSLASH # join_names ms"
proof (induction ns rule: join_names.induct)
  case (2 n)
  thus ?case by (cases ms) simp_all
qed simp_all

lemma reduce_proper: "\<forall>n \<in> set ns. proper n \<Longrightarrow> reduce_names rooted False out sep ns = (out @ ns, if ns = [] then sep else False)"
  by (induction ns arbitrary: out sep) (auto simp: proper_def)

section \<open>Paths on a drive letter\<close>

definition drive_text :: "16 word \<Rightarrow> wide_string list \<Rightarrow> wide_string" where
  "drive_text d ns = [d, COLON, BACKSLASH] @ join_names ns"

lemma drive_text_parts:
  assumes "drive_letter d" "\<forall>n \<in> set ns. proper n"
  shows "root_name (drive_text d ns) = [d, COLON]" "after_root_name (drive_text d ns) = BACKSLASH # join_names ns"
    "has_root_directory (drive_text d ns)" "relative_path (drive_text d ns) = join_names ns" "is_absolute (drive_text d ns)"
proof -
  have l: "root_name_length (drive_text d ns) = 2" using assms(1) by (simp add: root_name_length_def has_drive_def drive_text_def)
  show "root_name (drive_text d ns) = [d, COLON]" and a: "after_root_name (drive_text d ns) = BACKSLASH # join_names ns"
    using l by (simp_all add: root_name_def after_root_name_def drive_text_def)
  show "has_root_directory (drive_text d ns)" by (simp add: has_root_directory_def a)
  show "relative_path (drive_text d ns) = join_names ns"
    unfolding relative_path_def a using join_names_hd [of ns] assms(2) by (cases "join_names ns"; cases "ns = []") auto
  show "is_absolute (drive_text d ns)" using assms(1) by (simp add: is_absolute_def has_drive_def drive_text_def)
qed

lemma drive_text_names:
  assumes "drive_letter d" "\<forall>n \<in> set ns. proper n"
  shows "names_of [] (relative_path (drive_text d ns)) = ns" "\<not> ends_in_slash (relative_path (drive_text d ns))"
  using drive_text_parts(4) [OF assms] names_of_join [OF assms(2)] join_names_last [of ns] assms(2)
  by (cases "ns = []"; simp add: ends_in_slash_def)+

lemma drive_text_normal:
  assumes "drive_letter d" "\<forall>n \<in> set ns. proper n"
  shows "lexically_normal (drive_text d ns) = drive_text d ns"
proof -
  have "d \<noteq> SLASH" using assms(1) by (auto simp: drive_letter_def SLASH_def)
  thus ?thesis using drive_text_parts [OF assms] drive_text_names [OF assms] reduce_proper [OF assms(2)]
    by (simp add: lexically_normal_def Let_def) (simp add: drive_text_def COLON_def SLASH_def)
qed

lemma drive_text_append:
  assumes "drive_letter d" "\<forall>n \<in> set ns. proper n" "ns \<noteq> []" "proper s"
  shows "append_path (drive_text d ns) s = drive_text d (ns @ [s])"
proof -
  have "last (drive_text d ns) = last (join_names ns)" using join_names_nonempty [OF assms(3,2)] by (simp add: drive_text_def)
  hence "folder_text (drive_text d ns) = drive_text d ns @ [BACKSLASH]"
    using drive_text_parts(2) [OF assms(1,2)] join_names_last [OF assms(3,2)] by (simp add: folder_text_def)
  thus ?thesis using append_plain [of s "drive_text d ns"] assms(3,4) by (simp add: proper_def drive_text_def join_names_append)
qed

lemma drive_text_foldl:
  assumes "drive_letter d"
  shows "ns \<noteq> [] \<Longrightarrow> \<forall>n \<in> set (ns @ ss). proper n \<Longrightarrow> foldl append_path (drive_text d ns) ss = drive_text d (ns @ ss)"
proof (induction ss arbitrary: ns)
  case (Cons s ss)
  have "append_path (drive_text d ns) s = drive_text d (ns @ [s])" using Cons.prems by (intro drive_text_append [OF assms]) auto
  thus ?case using Cons.IH [of "ns @ [s]"] Cons.prems by simp
qed simp

lemma build_path_text:
  assumes "drive_letter d" "ns \<noteq> []" "\<forall>n \<in> set (ns @ ss). proper n"
  shows "build_path (drive_text d ns) ss = drive_text d (ns @ ss)"
  unfolding build_path_def drive_text_foldl [OF assms] by (rule drive_text_normal [OF assms(1,3)])

lemma trim_none: "p \<noteq> [] \<Longrightarrow> \<not> is_slash (last p) \<Longrightarrow> trim_trailing_separators p = p"
  by (cases p rule: rev_cases) (simp_all add: trim_trailing_separators_def)

lemma drive_text_trim:
  assumes "drive_letter d" "ns \<noteq> []" "\<forall>n \<in> set ns. proper n"
  shows "trim_trailing_separators (drive_text d ns) = drive_text d ns"
  using join_names_nonempty [OF assms(2,3)] join_names_last [OF assms(2,3)] by (intro trim_none) (simp_all add: drive_text_def)

lemma drive_text_inside:
  assumes "drive_letter d" "ns \<noteq> []" "\<forall>n \<in> set (ns @ ss). proper n"
  shows "is_inside_path lower (drive_text d ns) (drive_text d (ns @ ss))"
proof -
  have p: "\<forall>n \<in> set ns. proper n" using assms(3) by simp
  have "ns @ ss \<noteq> []" using assms(2) by simp
  note t = drive_text_trim [OF assms(1,2) p] drive_text_trim [OF assms(1) this assms(3)]
  show ?thesis
  proof (cases "ss = []")
    case True
    thus ?thesis by (simp add: is_inside_path_def Let_def)
  next
    case False
    hence "drive_text d (ns @ ss) = drive_text d ns @ BACKSLASH # join_names ss" using assms(2) by (simp add: drive_text_def join_names_append)
    thus ?thesis using t drive_text_normal [OF assms(1) p] drive_text_normal [OF assms(1,3)] by (simp add: is_inside_path_def Let_def)
  qed
qed

lemma drop_common_append: "drop_common (xs @ ys) xs = (ys, [])"
  by (induction xs) simp_all

lemma relative_drive_text:
  assumes "drive_letter d" "\<forall>n \<in> set (ns @ ss). proper n"
  shows "relative_names (drive_text d (ns @ ss)) (drive_text d ns) = Some ss"
proof -
  have p: "\<forall>n \<in> set ns. proper n" using assms(2) by simp
  have e: "path_elements (drive_text d ns) = [[d, COLON], [BACKSLASH]] @ ns" "path_elements (drive_text d (ns @ ss)) = ([[d, COLON], [BACKSLASH]] @ ns) @ ss"
    using drive_text_parts [OF assms(1) p] drive_text_names [OF assms(1) p] drive_text_parts [OF assms] drive_text_names [OF assms]
    by (simp_all add: path_elements_def)
  have "filter (\<lambda>e. e \<noteq> [] \<and> e \<noteq> [DOT]) ss = ss" using assms(2) by (intro filter_True) (auto simp: proper_def)
  moreover have "drop_common (path_elements (drive_text d (ns @ ss))) (path_elements (drive_text d ns)) = (ss, [])"
    unfolding e by (rule drop_common_append)
  ultimately show ?thesis
    using drive_text_parts [OF assms(1) p] drive_text_parts [OF assms] by (simp add: relative_names_def)
qed

lemma first_error_None: "first_error f xs = None \<longleftrightarrow> (\<forall>x \<in> set xs. f x = None)"
  by (induction xs) (auto split: option.split)

lemma validated_proper: "validate_segment utf8 cfold s = None \<Longrightarrow> proper s"
  by (auto simp: validate_segment_def proper_def plain_def bad_drive_char_def split: if_splits)

lemma validated_all: "validate_segments utf8 cfold e ss = None \<Longrightarrow> \<forall>s \<in> set ss. proper s"
  using validated_proper by (auto simp: validate_segments_def first_error_None split: if_splits)

end
