(* ===== verification/Drive_Contained.thy ===== *)
theory Drive_Contained
  imports Drive_Trash Drive_Path_Facts
begin

text \<open>
  Everything the drive does to the disk it does below its root: a property of the disk that the calls below the root keep is kept by every
  operation. And every walk through a tree ends, since the paths of the disk have a greatest length.
\<close>

section \<open>Calls below the root\<close>

definition below :: "16 word \<Rightarrow> wide_string list \<Rightarrow> wide_string \<Rightarrow> bool" where
  "below d ns p \<longleftrightarrow> (\<exists>ms. (\<forall>m \<in> set ms. proper m) \<and> p = drive_text d (ns @ ms))"

fun paths_of :: "disk_call \<Rightarrow> wide_string list" where
  "paths_of (Make_Directories p) = [p]"
| "paths_of (Make_Directory p) = [p]"
| "paths_of (Set_Attributes p a) = [p]"
| "paths_of (Move_File p q) = [p, q]"
| "paths_of (Copy_One p q) = [p, q]"
| "paths_of (Delete_One p) = [p]"
| "paths_of (Remove_Folder p) = [p]"
| "paths_of (Remove_All p) = [p]"
| "paths_of (Open_Write p t) = [p]"
| "paths_of (Write_At p n b) = [p]"
| "paths_of (Open_Text p) = [p]"
| "paths_of (Write_Text p t) = [p]"

text \<open>A root below a drive letter, names of entries as the file system has them, and a property that the calls below the root keep.\<close>

definition kept_below :: "'d drive_api \<Rightarrow> 16 word \<Rightarrow> wide_string list \<Rightarrow> ('d \<Rightarrow> bool) \<Rightarrow> bool" where
  "kept_below A d ns P \<longleftrightarrow> drive_letter d \<and> ns \<noteq> [] \<and> (\<forall>n \<in> set ns. proper n) \<and> resolve_root A = drive_text d ns \<and>
     (\<forall>p s. \<forall>n \<in> set (fst (da_entries A p s)). proper n) \<and>
     (\<forall>c s. (\<forall>p \<in> set (paths_of c). below d ns p) \<longrightarrow> P s \<longrightarrow> P (snd (da_do A c s)))"

lemma kept_below_root: "kept_below A d ns P \<Longrightarrow> drive_letter d \<and> ns \<noteq> [] \<and> (\<forall>n \<in> set ns. proper n) \<and> resolve_root A = drive_text d ns"
  and kept_below_entries: "kept_below A d ns P \<Longrightarrow> n \<in> set (fst (da_entries A p s)) \<Longrightarrow> proper n"
  and kept_below_do: "kept_below A d ns P \<Longrightarrow> \<forall>p \<in> set (paths_of c). below d ns p \<Longrightarrow> P s \<Longrightarrow> P (snd (da_do A c s))"
  by (auto simp: kept_below_def)

lemma below_root: "below d ns (drive_text d ns)"
  unfolding below_def by (rule exI [of _ "[]"]) simp

lemma below_append:
  assumes "kept_below A d ns P" "below d ns p" "proper n"
  shows "below d ns (append_path p n)"
proof -
  obtain ms where m: "\<forall>m \<in> set ms. proper m" "p = drive_text d (ns @ ms)" using assms(2) unfolding below_def by blast
  have "append_path p n = drive_text d (ns @ ms @ [n])"
    using drive_text_append [of d "ns @ ms" n] kept_below_root [OF assms(1)] m assms(3) by auto
  thus ?thesis unfolding below_def using m(1) assms(3) by (intro exI [of _ "ms @ [n]"]) auto
qed

section \<open>Steps\<close>

definition step_within :: "('d \<Rightarrow> bool) \<Rightarrow> ('d, 'a) drive_step \<Rightarrow> ('a \<Rightarrow> bool) \<Rightarrow> bool" where
  "step_within P f Q \<longleftrightarrow> (\<forall>s. P s \<longrightarrow> P (snd (f s)) \<and> (\<forall>a. fst (f s) = Inr a \<longrightarrow> Q a))"

lemma step_withinD: "step_within P f Q \<Longrightarrow> P s \<Longrightarrow> P (snd (f s))"
  by (simp add: step_within_def)

lemma step_within_result: "step_within P f Q \<Longrightarrow> P s \<Longrightarrow> fst (f s) = Inr a \<Longrightarrow> Q a"
  by (simp add: step_within_def)

lemma then_do_ok: "step_within P f Q \<Longrightarrow> (\<And>a. Q a \<Longrightarrow> step_within P (g a) R) \<Longrightarrow> step_within P (then_do f g) R"
  unfolding step_within_def then_do_def
  by (auto split: prod.split sum.split)

lemma ask_ok: "(\<And>s a. f s = Inr a \<Longrightarrow> Q a) \<Longrightarrow> step_within P (ask_disk f) Q"
  by (auto simp: step_within_def ask_disk_def)

lemma step_within_weak: "step_within P f Q \<Longrightarrow> step_within P f (\<lambda>_. True)"
  by (simp add: step_within_def)

lemma each_in_turn_ok: "(\<And>x. x \<in> set xs \<Longrightarrow> step_within P (f x) (\<lambda>_. True)) \<Longrightarrow> step_within P (each_in_turn f xs) (\<lambda>_. True)"
proof (induction xs)
  case (Cons x xs)
  have "step_within P (then_do (f x) (\<lambda>_. each_in_turn f xs)) (\<lambda>_. True)" using Cons by (intro then_do_ok [where Q = "\<lambda>_. True"]) auto
  thus ?case by (simp add: step_within_def)
qed (simp add: step_within_def)

lemma perform_ok: "kept_below A d ns P \<Longrightarrow> \<forall>p \<in> set (paths_of c). below d ns p \<Longrightarrow> step_within P (perform A c pre) (\<lambda>_. True)"
  using kept_below_do [of A d ns P c] by (fastforce simp: step_within_def perform_def split: prod.split sum.split)

lemma tree_ok: "kept_below A d ns P \<Longrightarrow> below d ns p \<Longrightarrow> step_within P (ensure_directory_tree A p) (\<lambda>_. True)"
  using kept_below_do [of A d ns P "Make_Directories p"] by (fastforce simp: step_within_def ensure_directory_tree_def split: prod.split sum.split)

section \<open>The root\<close>

lemma standard_all: "\<forall>ss \<in> set standard_directories. \<forall>n \<in> set ss. proper n"
  by code_simp

lemma standard_proper: "ss \<in> set standard_directories \<Longrightarrow> n \<in> set ss \<Longrightarrow> proper n"
  using standard_all by blast

lemma internal_proper: "proper kInternalRoot" "proper kTrashName"
  by (simp_all add: proper_def plain_def kInternalRoot_def kTrashName_def Workspace_Studio.wide_def DOT_def is_slash_def SLASH_def BACKSLASH_def COLON_def)

lemma below_build: "kept_below A d ns P \<Longrightarrow> \<forall>s \<in> set ss. proper s \<Longrightarrow> below d ns (build_path (drive_text d ns) ss)"
  using build_path_text [of d ns ss] kept_below_root [of A d ns P] by (auto simp: below_def)

lemma below_internal: "kept_below A d ns P \<Longrightarrow> below d ns (internal_path (drive_text d ns))"
  and below_trash: "kept_below A d ns P \<Longrightarrow> below d ns (trash_path (drive_text d ns))"
  unfolding internal_path_def trash_path_def using internal_proper by (auto intro: below_append below_root)

lemma hide_keeps: "kept_below A d ns P \<Longrightarrow> below d ns p \<Longrightarrow> P s \<Longrightarrow> P (hide A p s)"
  unfolding hide_def using kept_below_do [of A d ns P "Set_Attributes p a" s for a] by simp

lemma ensure_ready_ok: "kept_below A d ns P \<Longrightarrow> step_within P (ensure_ready A) (\<lambda>b. b = drive_text d ns)"
proof -
  assume k: "kept_below A d ns P"
  have r: "resolve_root A = drive_text d ns" "drive_text d ns \<noteq> []" using kept_below_root [OF k] by (simp_all add: drive_text_def)
  have "step_within P (\<lambda>s. (Inr (drive_text d ns), hide A (internal_path (drive_text d ns)) s)) (\<lambda>b. b = drive_text d ns)"
    using hide_keeps [OF k below_internal [OF k]] by (auto simp: step_within_def)
  thus ?thesis unfolding ensure_ready_def Let_def r(1) using r(2)
    by (auto intro!: then_do_ok [where Q = "\<lambda>_. True"] tree_ok [OF k] each_in_turn_ok below_root below_internal [OF k] below_trash [OF k]
        below_build [OF k] standard_proper)
qed

section \<open>Safe paths\<close>

lemma walk_names_text:
  assumes "drive_letter d"
  shows "walk_names A s (drive_text d ms) a ss = Inr (p, b) \<Longrightarrow> ms \<noteq> [] \<Longrightarrow> \<forall>m \<in> set (ms @ ss). proper m \<Longrightarrow> p = drive_text d (ms @ ss)"
proof (induction ss arbitrary: ms a)
  case (Cons x xs)
  have "append_path (drive_text d ms) x = drive_text d (ms @ [x])" using drive_text_append [OF assms, of ms x] Cons.prems(2,3) by auto
  thus ?case using Cons.IH [of "ms @ [x]"] Cons.prems by (auto split: option.splits if_splits)
qed simp

lemma existing_text:
  assumes "kept_below A d ns P" "existing_safe_path A (drive_text d ns) ss e s = Inr (p, a)"
  shows "p = drive_text d (ns @ ss)" "\<forall>n \<in> set ss. proper n"
proof -
  have r: "drive_letter d" "ns \<noteq> []" "\<forall>n \<in> set ns. proper n" using kept_below_root [OF assms(1)] by auto
  obtain q where q: "validate_segments (da_utf8 A) (da_fold A) e ss = None" "walk_names A s (drive_text d ns) (the (da_attr A (drive_text d ns) s)) ss = Inr (q, a)"
      "p = lexically_normal q"
    using assms(2) by (auto simp: existing_safe_path_def split: option.splits if_splits sum.splits)
  show v: "\<forall>n \<in> set ss. proper n" by (rule validated_all [OF q(1)])
  have "q = drive_text d (ns @ ss)" using walk_names_text [OF r(1) q(2) r(2)] r(3) v by auto
  thus "p = drive_text d (ns @ ss)" using q(3) drive_text_normal [OF r(1), of "ns @ ss"] r(3) v by auto
qed

lemma existing_below: "kept_below A d ns P \<Longrightarrow> existing_safe_path A (drive_text d ns) ss e s = Inr (p, a) \<Longrightarrow> below d ns p"
  using existing_text [of A d ns P ss e s p a] unfolding below_def by blast

lemma destination_text:
  assumes "kept_below A d ns P" "destination_safe_path A (drive_text d ns) ss s = Inr (p, there)"
  shows "p = drive_text d (ns @ ss)" "\<forall>n \<in> set ss. proper n"
proof -
  have r: "drive_letter d" "ns \<noteq> []" "\<forall>n \<in> set ns. proper n" using kept_below_root [OF assms(1)] by auto
  obtain q a where q: "validate_segments (da_utf8 A) (da_fold A) False ss = None" "existing_safe_path A (drive_text d ns) (butlast ss) True s = Inr (q, a)"
      "p = lexically_normal (append_path q (last ss))"
    using assms(2) by (auto simp: destination_safe_path_def Let_def split: option.splits if_splits sum.splits)
  show v: "\<forall>n \<in> set ss. proper n" by (rule validated_all [OF q(1)])
  have ss: "ss = butlast ss @ [last ss]" using q(1) by (auto simp: validate_segments_def split: if_splits)
  have l: "proper (last ss)" using v ss by (metis in_set_conv_decomp)
  have "append_path q (last ss) = drive_text d ((ns @ butlast ss) @ [last ss])"
    unfolding existing_text(1) [OF assms(1) q(2)] using r v l by (intro drive_text_append) (auto dest: in_set_butlastD)
  hence "append_path q (last ss) = drive_text d (ns @ ss)" using ss by (metis append_assoc)
  thus "p = drive_text d (ns @ ss)" using q(3) drive_text_normal [OF r(1), of "ns @ ss"] r(3) v by auto
qed

lemma destination_below: "kept_below A d ns P \<Longrightarrow> destination_safe_path A (drive_text d ns) ss s = Inr (p, there) \<Longrightarrow> below d ns p"
  using destination_text [of A d ns P ss s p there] unfolding below_def by blast


section \<open>Files\<close>

lemma open_then_ok:
  "kept_below A d ns P \<Longrightarrow> below d ns p \<Longrightarrow> step_within P (write_open A p off bytes) (\<lambda>_. True) \<Longrightarrow>
   step_within P (then_do (perform A (Open_Write p t) pre) (\<lambda>_. write_open A p off bytes)) (\<lambda>_. True)"
  by (rule then_do_ok [OF perform_ok]) auto

lemma write_turns_keeps: "kept_below A d ns P \<Longrightarrow> below d ns p \<Longrightarrow> P s \<Longrightarrow> P (snd (write_turns A p pos bytes s))"
proof (induction A p pos bytes s rule: write_turns.induct)
  case (1 A p pos bytes s)
  show ?case
  proof (cases "da_do A (Write_At p pos (take DWORD_MAX bytes)) s")
    case (Pair r s')
    have "P s'" using kept_below_do [of A d ns P "Write_At p pos (take DWORD_MAX bytes)" s] 1(2-4) Pair by simp
    thus ?thesis using 1 Pair by (subst write_turns.simps) (auto split: sum.split)
  qed
qed

lemma write_open_ok: "kept_below A d ns P \<Longrightarrow> below d ns p \<Longrightarrow> step_within P (write_open A p off bytes) (\<lambda>_. True)"
  using write_turns_keeps [of A d ns P p _ "unat off" bytes]
  by (auto simp: step_within_def write_open_def then_do_def ask_disk_def split: option.split prod.split sum.split) (metis snd_conv)+

lemma write_file_ok: "kept_below A d ns P \<Longrightarrow> step_within P (write_file A ss off bytes t) (\<lambda>_. True)"
  unfolding write_file_def
  apply (rule then_do_ok [OF ensure_ready_ok], assumption)
  apply (rule then_do_ok [OF ask_ok [where Q = "\<lambda>r. below d ns (fst r)"]])
   apply (auto dest: destination_below)[1]
  apply (auto intro!: open_then_ok write_open_ok ask_ok split: prod.splits option.splits)
  done

lemma make_folder_ok: "kept_below A d ns P \<Longrightarrow> step_within P (make_folder A ss) (\<lambda>_. True)"
  unfolding make_folder_def
  apply (rule then_do_ok [OF ensure_ready_ok], assumption)
  apply (rule then_do_ok [OF ask_ok [where Q = "\<lambda>r. below d ns (fst r)"]])
   apply (auto dest: destination_below)[1]
  apply (auto intro!: perform_ok ask_ok split: prod.splits)
  done

lemma source_and_target_ok:
  "kept_below A d ns P \<Longrightarrow> step_within P (source_and_target A verb src dst) (\<lambda>r. below d ns (fst r) \<and> below d ns (snd r))"
  unfolding source_and_target_def
  apply (rule then_do_ok [OF ensure_ready_ok], assumption)
  apply (rule then_do_ok [OF ask_ok [where Q = "\<lambda>r. below d ns (fst r)"]])
   apply (auto dest: existing_below)[1]
  apply (clarsimp)
  apply (rule then_do_ok [OF ask_ok [where Q = "\<lambda>r. below d ns (fst r)"]])
   apply (auto dest: destination_below)[1]
  apply (auto intro!: ask_ok split: prod.splits if_splits)
  done

lemma move_item_ok: "kept_below A d ns P \<Longrightarrow> step_within P (move_item A src dst) (\<lambda>_. True)"
  unfolding move_item_def by (rule then_do_ok [OF source_and_target_ok], assumption) (auto intro!: perform_ok)

section \<open>Trees\<close>

definition deep_ok :: "('d \<Rightarrow> bool) \<Rightarrow> ('d, 'a) deep_step \<Rightarrow> bool" where
  "deep_ok P f \<longleftrightarrow> (\<forall>s r s'. P s \<longrightarrow> f s = Some (r, s') \<longrightarrow> P s')"

lemma deep_okD: "deep_ok P f \<Longrightarrow> P s \<Longrightarrow> f s = Some (r, s') \<Longrightarrow> P s'"
  by (simp add: deep_ok_def)

lemma each_child_ok: "(\<And>n. n \<in> set ns \<Longrightarrow> deep_ok P (f n)) \<Longrightarrow> deep_ok P (each_child f ns)"
proof (induction ns)
  case (Cons n ns)
  have f: "deep_ok P (f n)" "deep_ok P (each_child f ns)" using Cons by simp_all
  show ?case unfolding deep_ok_def
  proof (intro allI impI)
    fix x r y assume P: "P x" and c: "each_child f (n # ns) x = Some (r, y)"
    then obtain q z where q: "f n x = Some (q, z)" by (auto split: option.splits)
    have "P z" by (rule deep_okD [OF f(1) P q])
    thus "P y" using c q deep_okD [OF f(2)] by (auto split: sum.splits)
  qed
qed (simp add: deep_ok_def)

lemma performed: "kept_below A d ns P \<Longrightarrow> \<forall>p \<in> set (paths_of c). below d ns p \<Longrightarrow> P s \<Longrightarrow> perform A c pre s = (r, s') \<Longrightarrow> P s'"
  using step_withinD [OF perform_ok, of A d ns P c s pre] by simp

lemma remove_all_keeps: "kept_below A d ns P \<Longrightarrow> below d ns p \<Longrightarrow> P s \<Longrightarrow> P (remove_all A p s)"
  unfolding remove_all_def using kept_below_do [of A d ns P "Remove_All p" s] by simp

lemma copy_tree_ok: "kept_below A d ns P \<Longrightarrow> below d ns s \<Longrightarrow> below d ns t \<Longrightarrow> deep_ok P (copy_tree A k s t)"
proof (induction k arbitrary: s t)
  case (Suc k)
  note K = Suc.prems(1)
  have each: "deep_ok P (each_child (\<lambda>n. copy_tree A k (append_path s n) (append_path t n)) (fst (da_entries A s x)))" for x
    using Suc by (intro each_child_ok Suc.IH below_append kept_below_entries) auto
  show ?case unfolding deep_ok_def
  proof (intro allI impI)
    fix x r y assume P: "P x" and c: "copy_tree A (Suc k) s t x = Some (r, y)"
    consider "y = x" | "perform A (Copy_One s t) ''Falha ao copiar arquivo'' x = (r, y)"
      | e where "perform A (Make_Directory t) ''Falha ao criar pasta de destino'' x = (e, y)"
      | e x' q z where "perform A (Make_Directory t) ''Falha ao criar pasta de destino'' x = (e, x')"
          "each_child (\<lambda>n. copy_tree A k (append_path s n) (append_path t n)) (fst (da_entries A s x')) x' = Some (q, z)" "y = z \<or> y = remove_all A t z"
      using c by (auto split: option.splits if_splits prod.splits sum.splits)
    thus "P y"
    proof cases
      case 4
      have "P x'" by (rule performed [OF K _ P 4(1)]) (simp add: Suc.prems)
      hence "P z" by (rule deep_okD [OF each _ 4(2)])
      thus ?thesis using 4(3) remove_all_keeps [OF K Suc.prems(3)] by blast
    next
      case 2
      show ?thesis by (rule performed [OF K _ P 2]) (simp add: Suc.prems)
    next
      case (3 e)
      show ?thesis by (rule performed [OF K _ P 3]) (simp add: Suc.prems)
    qed (use P in simp)
  qed
qed (simp add: deep_ok_def)

lemma remove_tree_ok: "kept_below A d ns P \<Longrightarrow> below d ns p \<Longrightarrow> deep_ok P (remove_tree A k p)"
proof (induction k arbitrary: p)
  case (Suc k)
  note K = Suc.prems(1)
  have each: "deep_ok P (each_child (\<lambda>n. remove_tree A k (append_path p n)) (fst (da_entries A p x)))" for x
    using Suc by (intro each_child_ok Suc.IH below_append kept_below_entries) auto
  show ?case unfolding deep_ok_def
  proof (intro allI impI)
    fix x r y assume P: "P x" and c: "remove_tree A (Suc k) p x = Some (r, y)"
    consider "y = x" | "perform A (Delete_One p) ''Falha ao excluir arquivo'' x = (r, y)"
      | q z where "each_child (\<lambda>n. remove_tree A k (append_path p n)) (fst (da_entries A p x)) x = Some (q, z)"
          "y = z \<or> perform A (Remove_Folder p) ''Falha ao excluir pasta'' z = (r, y)"
      using c by (auto split: option.splits if_splits prod.splits sum.splits)
    thus "P y"
    proof cases
      case 3
      hence "P z" using deep_okD [OF each P] by blast
      thus ?thesis using 3(2) performed [OF K, of "Remove_Folder p" z "''Falha ao excluir pasta''" r y] Suc.prems by auto
    next
      case 2
      show ?thesis by (rule performed [OF K _ P 2]) (simp add: Suc.prems)
    qed (use P in simp)
  qed
qed (simp add: deep_ok_def)

lemma copy_item_to_ok: "kept_below A d ns P \<Longrightarrow> deep_ok P (copy_item_to A src dst)"
  unfolding deep_ok_def
proof (intro allI impI)
  fix x r y assume K: "kept_below A d ns P" and P: "P x" and c: "copy_item_to A src dst x = Some (r, y)"
  obtain q z where q: "source_and_target A ''copiar'' src dst x = (q, z)" by (rule prod.exhaust)
  have z: "P z" "q = Inr a \<Longrightarrow> below d ns (fst a) \<and> below d ns (snd a)" for a
    using step_withinD [OF source_and_target_ok [OF K] P, of "''copiar''" src dst]
      step_within_result [OF source_and_target_ok [OF K] P, of "''copiar''" src dst a] q by simp_all
  show "P y"
  proof (cases q)
    case (Inl e)
    thus ?thesis using c q z by (simp add: copy_item_to_def)
  next
    case (Inr a)
    obtain s t where a: "a = (s, t)" by (rule prod.exhaust)
    have "deep_ok P (copy_tree A tree_depth s t)" using z(2) [OF Inr] a by (intro copy_tree_ok [OF K]) simp_all
    moreover have "copy_tree A tree_depth s t z = Some (r, y)" using c q Inr a by (simp add: copy_item_to_def)
    ultimately show ?thesis using deep_okD [of P "copy_tree A tree_depth s t" z r y] z(1) by simp
  qed
qed


section \<open>The trash\<close>

lemma proper_item: "is_hex_id i \<Longrightarrow> proper (item_name i)" and proper_json: "is_hex_id i \<Longrightarrow> proper (json_name i)"
proof -
  assume h: "is_hex_id i"
  have "plain i" unfolding plain_def
  proof
    fix c assume "c \<in> set i"
    hence "0x30 \<le> c \<and> c \<le> 0x39 \<or> 0x61 \<le> c \<and> c \<le> 0x66 \<or> 0x41 \<le> c \<and> c \<le> 0x46" using h by (auto simp: is_hex_id_def)
    thus "\<not> is_slash c \<and> c \<noteq> COLON" by (auto simp: is_slash_def SLASH_def BACKSLASH_def COLON_def)
  qed
  moreover have "plain (Workspace_Studio.wide ''.item'')" "plain (Workspace_Studio.wide ''.json'')" by code_simp+
  moreover have "length i = 32" using h by (simp add: is_hex_id_def)
  ultimately show "proper (item_name i)" "proper (json_name i)" by (auto simp: proper_def item_name_def json_name_def dest!: arg_cong [where f = length])
qed

lemma below_stored: "kept_below A d ns P \<Longrightarrow> is_hex_id i \<Longrightarrow> below d ns (append_path (trash_path (drive_text d ns)) (item_name i))"
  and below_json: "kept_below A d ns P \<Longrightarrow> is_hex_id i \<Longrightarrow> below d ns (append_path (trash_path (drive_text d ns)) (json_name i))"
  using below_append [OF _ below_trash] proper_item proper_json by blast+

lemma load_paths:
  assumes "load_trash_metadata A base i s = Inr (e, stored, j)"
  shows "is_hex_id i" "stored = append_path (trash_path base) (item_name i)" "j = append_path (trash_path base) (json_name i)"
  using assms by (auto simp: load_trash_metadata_def Let_def split: if_splits option.splits sum.splits)

lemma load_below:
  assumes "kept_below A d ns P" "load_trash_metadata A (drive_text d ns) i s = Inr (e, stored, j)"
  shows "below d ns stored \<and> below d ns j"
  using load_paths [OF assms(2)] below_stored [OF assms(1)] below_json [OF assms(1)] by simp

lemma write_metadata_keeps:
  assumes "kept_below A d ns P" "below d ns p" "P s" "write_metadata A p e s = (r, s')"
  shows "P s'"
proof -
  obtain q z where q: "da_do A (Open_Text p) s = (q, z)" by (rule prod.exhaust)
  have z: "P z" using kept_below_do [OF assms(1), of "Open_Text p" s] assms(2,3) q by simp
  thus ?thesis using assms(4) q kept_below_do [OF assms(1), of "Write_Text p (metadata_text (da_utf8 A) e)" z] assms(2)
    by (auto simp: write_metadata_def split: sum.splits prod.splits)
qed

lemma store_item_ok:
  assumes "kept_below A d ns P" "below d ns p" "is_hex_id (te_id e)" "te_stored e = item_name (te_id e)"
  shows "step_within P (store_item A (drive_text d ns) p e) (\<lambda>_. True)"
proof -
  let ?st = "append_path (trash_path (drive_text d ns)) (te_stored e)" and ?js = "append_path (trash_path (drive_text d ns)) (json_name (te_id e))"
  have b: "below d ns ?st" "below d ns ?js" using below_stored [OF assms(1,3)] below_json [OF assms(1,3)] assms(4) by simp_all
  have moved_back: "P z \<Longrightarrow> P (snd (da_do A (Delete_One ?js) (snd (da_do A (Move_File ?st p) z))))" for z
    using kept_below_do [OF assms(1), of "Move_File ?st p" z] kept_below_do [OF assms(1), of "Delete_One ?js" "snd (da_do A (Move_File ?st p) z)"] b assms(2) by simp
  have "step_within P (\<lambda>s. case write_metadata A ?js e s of
      (Inl err, s') \<Rightarrow> (Inl err, snd (da_do A (Delete_One ?js) (snd (da_do A (Move_File ?st p) s')))) | (Inr _, s') \<Rightarrow> (Inr e, s')) (\<lambda>_. True)"
    unfolding step_within_def using write_metadata_keeps [OF assms(1) b(2)] moved_back by (auto split: prod.split sum.split)
  thus ?thesis unfolding store_item_def Let_def
    by (intro then_do_ok [OF perform_ok [OF assms(1)]]) (use b assms(2) in simp_all)
qed

lemma trash_item_ok: "kept_below A d ns P \<Longrightarrow> step_within P (trash_item A ss) (\<lambda>_. True)"
proof -
  assume K: "kept_below A d ns P"
  have s: "step_within P (store_item A (drive_text d ns) p (new_entry A ss p a s)) (\<lambda>_. True)" if "below d ns p" "is_hex_id (generate_id A s)" for p a s
    using that by (intro store_item_ok [OF K]) (simp_all add: new_entry_def Let_def)
  show ?thesis unfolding trash_item_def
    apply (rule then_do_ok [OF ensure_ready_ok [OF K]])
    apply (rule then_do_ok [OF ask_ok [where Q = "\<lambda>r. below d ns (fst r)"]])
     apply (auto dest: existing_below [OF K])[1]
    apply (auto simp: step_within_def intro: step_withinD [OF s])
    done
qed

lemma restore_to_ok:
  assumes "kept_below A d ns P" "below d ns st" "below d ns js" "below d ns p"
  shows "step_within P (restore_to A st js p) (\<lambda>_. True)"
proof -
  have "P s' \<and> P (snd (da_do A (Move_File p st) s'))" if "P s" "da_do A (Delete_One js) s = (r, s')" for s r s'
  proof -
    have "P s'" using kept_below_do [OF assms(1), of "Delete_One js" s] assms(3) that by simp
    thus ?thesis using kept_below_do [OF assms(1), of "Move_File p st" s'] assms(2,4) by simp
  qed
  hence "step_within P (\<lambda>d. case da_do A (Delete_One js) d of
      (Inl code, d') \<Rightarrow> (Inl (join_error A ''Falha ao concluir restauracao'' code), snd (da_do A (Move_File p st) d')) | (Inr _, d') \<Rightarrow> (Inr (), d')) (\<lambda>_. True)"
    unfolding step_within_def by (auto split: prod.split sum.split)
  thus ?thesis unfolding restore_to_def by (intro then_do_ok [OF perform_ok [OF assms(1)]]) (use assms in simp_all)
qed

lemma restore_trash_ok: "kept_below A d ns P \<Longrightarrow> step_within P (restore_trash A i) (\<lambda>_. True)"
  unfolding restore_trash_def
  apply (rule then_do_ok [OF ensure_ready_ok], assumption)
  apply (rule then_do_ok [OF ask_ok [where Q = "\<lambda>r. below d ns (fst (snd r)) \<and> below d ns (snd (snd r))"]])
   apply (auto dest: load_below)[1]
  apply (clarsimp)
  apply (rule then_do_ok [OF ask_ok [where Q = "\<lambda>r. below d ns (fst r)"]])
   apply (auto dest: destination_below)[1]
  apply (auto intro!: ask_ok restore_to_ok split: prod.splits)
  done

lemma delete_trash_ok: "kept_below A d ns P \<Longrightarrow> deep_ok P (delete_trash A i)"
  unfolding deep_ok_def
proof (intro allI impI)
  fix x r y assume K: "kept_below A d ns P" and P: "P x" and c: "delete_trash A i x = Some (r, y)"
  let ?f = "then_do (ensure_ready A) (\<lambda>base. ask_disk (load_trash_metadata A base i))"
  have f: "step_within P ?f (\<lambda>r. below d ns (fst (snd r)) \<and> below d ns (snd (snd r)))"
    by (rule then_do_ok [OF ensure_ready_ok [OF K]]) (auto intro!: ask_ok dest: load_below [OF K])
  obtain q z where q: "?f x = (q, z)" by (rule prod.exhaust)
  have z: "P z" using step_withinD [OF f P] q by simp
  show "P y"
  proof (cases q)
    case (Inl e)
    thus ?thesis using c q z by (simp add: delete_trash_def)
  next
    case (Inr a)
    obtain e st js where a: "a = (e, st, js)" by (rule prod_cases3)
    have b: "below d ns st" "below d ns js" using step_within_result [OF f P, of a] q Inr a by simp_all
    obtain q' w where w: "remove_tree A tree_depth st z = Some (q', w)" using c q Inr a by (auto simp: delete_trash_def split: option.splits)
    have "P w" by (rule deep_okD [OF remove_tree_ok [OF K b(1)] z w])
    moreover have "y = w \<or> perform A (Delete_One js) ''Falha ao excluir metadados da lixeira'' w = (r, y)"
      using c q Inr a w by (auto simp: delete_trash_def split: sum.splits)
    ultimately show ?thesis using performed [OF K, of "Delete_One js" w "''Falha ao excluir metadados da lixeira''" r y] b by auto
  qed
qed

lemma delete_each_keeps: "kept_below A d ns P \<Longrightarrow> P s \<Longrightarrow> delete_each A n es s = Some (e, c, s') \<Longrightarrow> P s'"
proof (induction es arbitrary: n s)
  case (Cons x es)
  obtain r z where r: "delete_trash A (te_id x) s = Some (r, z)" using Cons.prems(3) by (auto split: option.splits)
  have "P z" by (rule deep_okD [OF delete_trash_ok [OF Cons.prems(1)] Cons.prems(2) r])
  thus ?case using Cons r by (auto split: sum.splits)
qed simp

lemma list_trash_ok: "kept_below A d ns P \<Longrightarrow> step_within P (list_trash A) (\<lambda>_. True)"
  unfolding list_trash_def by (rule then_do_ok [OF ensure_ready_ok], assumption) (auto intro: ask_ok)

lemma empty_trash_keeps:
  assumes "kept_below A d ns P" "P s" "empty_trash A s = Some (e, c, s')"
  shows "P s'"
proof -
  obtain r z where r: "list_trash A s = (r, z)" by (rule prod.exhaust)
  have "P z" using step_withinD [OF list_trash_ok [OF assms(1)] assms(2)] r by simp
  thus ?thesis using assms(3) r delete_each_keeps [OF assms(1), of z] by (auto simp: empty_trash_def split: sum.splits)
qed

end
