(* ===== verification/Drive_Metadata_Facts.thy ===== *)
theory Drive_Metadata_Facts
  imports Drive_Metadata
begin

text \<open>
  The metadata of a trashed item reads back exactly unless a name in it is the key of a later field: the reader takes the first quoted
  occurrence of a key, also one that is a value.
\<close>

section \<open>Strings\<close>

lemma hex_value_nibble: "n < 16 \<Longrightarrow> hex_value (hex_nibble n) = Some n"
proof -
  have "\<forall>n \<in> set [0..<16]. hex_value (hex_nibble n) = Some n" by code_simp
  thus "n < 16 \<Longrightarrow> hex_value (hex_nibble n) = Some n" by simp
qed

lemma string_body_escaped: "string_body out (json_escape_char c @ t) = string_body (out @ [c]) t"
proof -
  consider "c \<in> {QUOTE, ESCAPE, CHR 0x08, CHR 0x0C, CHR 0x0A, CHR 0x0D, CHR 0x09}"
    | "c \<notin> {QUOTE, ESCAPE, CHR 0x08, CHR 0x0C, CHR 0x0A, CHR 0x0D, CHR 0x09}" "(of_char c :: nat) < 0x20"
    | "c \<notin> {QUOTE, ESCAPE, CHR 0x08, CHR 0x0C, CHR 0x0A, CHR 0x0D, CHR 0x09}" "\<not> (of_char c :: nat) < 0x20" by blast
  thus ?thesis
  proof cases
    case 1
    thus ?thesis by (auto simp: json_escape_char_def simple_escape_def QUOTE_def ESCAPE_def)
  next
    case 2
    have "hex_value (CHR ''0'') = Some 0" by code_simp
    hence "four_hex (''00'' @ [hex_nibble (of_char c div 16), hex_nibble (of_char c mod 16)] @ t) = Some (of_char c, t)"
      using 2 by (simp add: four_hex_def hex_value_nibble)
    moreover have "utf8_of (of_char c) = [c]" using 2 by (simp add: utf8_of_def)
    ultimately show ?thesis using 2 by (simp add: json_escape_char_def ESCAPE_def QUOTE_def)
  next
    case 3
    thus ?thesis by (simp add: json_escape_char_def)
  qed
qed

lemma string_body_escape: "string_body out (json_escape s @ QUOTE # r) = Some (out @ s, r)"
proof (induction s arbitrary: out)
  case (Cons c s)
  thus ?case using string_body_escaped [of out c "json_escape s @ QUOTE # r"] by (simp add: json_escape_def)
qed (simp add: json_escape_def)

lemma skip_space_quote [simp]: "skip_space (QUOTE # r) = QUOTE # r"
  by (simp add: skip_space_def json_space_def QUOTE_def)

lemma parse_quoted: "parse_json_string (quoted_text s @ r) = Some (s, r)"
  using string_body_escape [of "[]" s r] by (simp add: parse_json_string_def quoted_text_def)

section \<open>Keys\<close>

definition clean :: "string \<Rightarrow> bool" where
  "clean s \<longleftrightarrow> (\<forall>c \<in> set s. c \<noteq> QUOTE \<and> c \<noteq> ESCAPE \<and> 0x20 \<le> (of_char c :: nat))"

lemma clean_escape: "clean s \<Longrightarrow> json_escape s = s"
proof (induction s)
  case (Cons c s)
  have c: "c \<noteq> QUOTE" "c \<noteq> ESCAPE" "\<not> (of_char c :: nat) < 0x20" using Cons.prems by (simp_all add: clean_def not_less)
  hence "c \<noteq> CHR 0x08" "c \<noteq> CHR 0x0C" "c \<noteq> CHR 0x0A" "c \<noteq> CHR 0x0D" "c \<noteq> CHR 0x09" by auto
  hence "json_escape_char c = [c]" using c by (simp add: json_escape_char_def)
  thus ?case using Cons by (simp add: json_escape_def clean_def)
qed (simp add: json_escape_def)

lemma clean_quoted: "clean s \<Longrightarrow> quoted_text s = [QUOTE] @ s @ [QUOTE]"
  by (simp add: quoted_text_def clean_escape)

definition key_text :: "string \<Rightarrow> string" where
  "key_text k = [QUOTE] @ k @ [QUOTE]"

lemma key_text_Cons: "key_text k = QUOTE # k @ [QUOTE]"
  by (simp add: key_text_def)

lemma after_first_other: "c \<noteq> QUOTE \<Longrightarrow> after_first (key_text k) (c # r) = after_first (key_text k) r"
  by (simp add: key_text_Cons)

lemma after_first_clean: "clean s \<Longrightarrow> after_first (key_text k) (s @ r) = after_first (key_text k) r"
  by (induction s) (simp_all add: after_first_other clean_def del: after_first.simps)

lemma quoted_prefix: "clean s \<Longrightarrow> clean k \<Longrightarrow> take (length k + 1) (s @ QUOTE # r) = k @ [QUOTE] \<Longrightarrow> s = k"
proof (induction s arbitrary: k)
  case Nil
  thus ?case by (cases k) (auto simp: clean_def)
next
  case (Cons c s)
  thus ?case by (cases k) (auto simp: clean_def)
qed

text \<open>A quoted text that is not the key, with a character behind it that does not begin the key, is passed over.\<close>

lemma after_first_token:
  assumes "clean s" "clean k" "s \<noteq> k" "k \<noteq> []" "c \<noteq> hd k" "c \<noteq> QUOTE"
  shows "after_first (key_text k) (quoted_text s @ c # r) = after_first (key_text k) r"
proof -
  have "take (length k + 1) (s @ QUOTE # c # r) \<noteq> k @ [QUOTE]" using quoted_prefix [OF assms(1,2)] assms(3) by blast
  hence "after_first (key_text k) (QUOTE # s @ QUOTE # c # r) = after_first (key_text k) (s @ QUOTE # c # r)" by (simp add: key_text_Cons)
  also have "\<dots> = after_first (key_text k) (QUOTE # c # r)" by (rule after_first_clean [OF assms(1)])
  also have "\<dots> = after_first (key_text k) (c # r)" using assms(4,5) by (cases k) (auto simp: key_text_Cons)
  also have "\<dots> = after_first (key_text k) r" by (rule after_first_other [OF assms(6)])
  finally show ?thesis using assms(1) by (simp add: clean_quoted)
qed

lemma after_first_found: "clean k \<Longrightarrow> after_first (key_text k) (quoted_text k @ r) = Some r"
  by (simp add: clean_quoted key_text_Cons)

fun punctuated :: "(string \<times> char) list \<Rightarrow> string" where
  "punctuated [] = []"
| "punctuated ((s, c) # ts) = quoted_text s @ c # punctuated ts"

definition passes :: "string \<Rightarrow> string \<times> char \<Rightarrow> bool" where
  "passes k t \<longleftrightarrow> clean (fst t) \<and> fst t \<noteq> k \<and> snd t \<noteq> hd k \<and> snd t \<noteq> QUOTE"

lemma after_first_tokens:
  assumes "clean k" "k \<noteq> []"
  shows "\<forall>t \<in> set ts. passes k t \<Longrightarrow> after_first (key_text k) (punctuated ts @ r) = after_first (key_text k) r"
proof (induction ts)
  case (Cons t ts)
  obtain s c where t: "t = (s, c)" by fastforce
  have "after_first (key_text k) (quoted_text s @ c # punctuated ts @ r) = after_first (key_text k) (punctuated ts @ r)"
    using Cons.prems t by (intro after_first_token [OF _ assms(1) _ assms(2)]) (auto simp: passes_def)
  thus ?case using Cons t by simp
qed simp

section \<open>The text\<close>

fun path_tokens :: "string list \<Rightarrow> (string \<times> char) list" where
  "path_tokens [] = []"
| "path_tokens [p] = [(p, CHR '']'')]"
| "path_tokens (p # ps) = (p, CHR '','') # path_tokens ps"

lemma commas_tokens: "ps \<noteq> [] \<Longrightarrow> with_commas (map quoted_text ps) @ CHR '']'' # r = punctuated (path_tokens ps) @ r"
  by (induction ps rule: path_tokens.induct) simp_all

lemma path_tokens_set: "set (path_tokens ps) \<subseteq> {(p, c) | p c. p \<in> set ps \<and> c \<in> {CHR '','', CHR '']''}}"
  by (induction ps rule: path_tokens.induct) auto

definition head_tokens :: "string \<Rightarrow> string \<Rightarrow> string \<Rightarrow> (string \<times> char) list" where
  "head_tokens i s n = [(''id'', CHR '':''), (i, CHR '',''), (''storedName'', CHR '':''), (s, CHR '',''), (''originalName'', CHR '':''), (n, CHR '',''),
     (''originalPath'', CHR '':'')]"

lemma metadata_tokens: "metadata_text utf8 e =
    CHR ''{'' # punctuated (head_tokens (utf8 (te_id e)) (utf8 (te_stored e)) (utf8 (te_name e))) @
    CHR ''['' # with_commas (map quoted_text (map utf8 (te_path e))) @ CHR '']'' # CHR '','' # punctuated [(''deletedAt'', CHR '':''), (utf8 (te_deleted e), CHR ''}'')]"
  by (simp add: metadata_text_def head_tokens_def comp_def)

lemma value_there:
  assumes "after_first (key_text k) t = Some (CHR '':'' # q)"
  shows "value_offset t k = Some (skip_space q)"
proof -
  have "skip_space (CHR '':'' # q) = CHR '':'' # q" by (simp add: skip_space_def json_space_def)
  thus ?thesis using assms by (simp add: value_offset_def key_text_def)
qed

lemma value_not_there:
  assumes "after_first (key_text k) t = Some (c # q)" "c \<in> {CHR '','', CHR '']''}"
  shows "value_offset t k = None"
proof -
  have "skip_space (c # q) = c # q" using assms(2) by (auto simp: skip_space_def json_space_def)
  thus ?thesis using assms by (auto simp: value_offset_def key_text_def)
qed

lemma skip_space_quoted [simp]: "skip_space (quoted_text s @ r) = quoted_text s @ r"
  using skip_space_quote by (simp add: quoted_text_def)

text \<open>A name that converts to bytes and back.\<close>

definition fit :: "(wide_string \<Rightarrow> string) \<Rightarrow> (string \<Rightarrow> wide_string) \<Rightarrow> wide_string \<Rightarrow> bool" where
  "fit utf8 conv n \<longleftrightarrow> clean (utf8 n) \<and> conv (utf8 n) = n \<and> (utf8 n = [] \<longleftrightarrow> n = [])"

lemma find_there:
  assumes "after_first (key_text k) t = Some (CHR '':'' # quoted_text (utf8 n) @ r)" "fit utf8 conv n"
  shows "find_string conv t k = Some n"
  using assms by (auto simp: find_string_def value_there parse_quoted fit_def)

lemma array_step:
  assumes "fit utf8 conv n" "\<not> json_space c"
  shows "string_array conv out (quoted_text (utf8 n) @ c # r) =
    (if c = CHR '','' then string_array conv (out @ [n]) r else if c = CHR '']'' then Some (out @ [n]) else None)"
proof -
  obtain q where q: "quoted_text (utf8 n) @ c # r = QUOTE # q" by (simp add: quoted_text_def)
  have p: "parse_json_string (QUOTE # q) = Some (utf8 n, c # r)" using parse_quoted [of "utf8 n" "c # r"] q by simp
  have s: "skip_space (c # r) = c # r" using assms(2) by (simp add: skip_space_def)
  have "QUOTE \<noteq> CHR '']''" by (simp add: QUOTE_def)
  hence "string_array conv out (QUOTE # q) = (if c = CHR '','' then string_array conv (out @ [n]) r else if c = CHR '']'' then Some (out @ [n]) else None)"
    using p s assms(1) by (subst string_array.simps) (auto simp: fit_def)
  thus ?thesis using q by simp
qed

lemma not_spaces: "\<not> json_space (CHR '','')" "\<not> json_space (CHR '']'')"
  by (simp_all add: json_space_def)

lemma array_there:
  assumes "\<forall>n \<in> set ns. fit utf8 conv n"
  shows "string_array conv out (with_commas (map quoted_text (map utf8 ns)) @ CHR '']'' # r) = Some (out @ ns)"
  using assms
proof (induction ns arbitrary: out rule: join_names.induct)
  case 1
  have "skip_space (CHR '']'' # r) = CHR '']'' # r" by (simp add: skip_space_def json_space_def)
  thus ?case by (subst string_array.simps) simp
next
  case (2 n)
  thus ?case using array_step [of utf8 conv n "CHR '']''" out r] not_spaces by simp
next
  case (3 n m ms)
  thus ?case using array_step [of utf8 conv n "CHR '',''" out "with_commas (map quoted_text (map utf8 (m # ms))) @ CHR '']'' # r"] not_spaces by simp
qed

section \<open>What is read back\<close>

lemma tail_other: "k \<noteq> [] \<Longrightarrow> hd k \<noteq> CHR '','' \<Longrightarrow> hd k \<noteq> CHR ''['' \<Longrightarrow> after_first (key_text k) (CHR '','' # r) = after_first (key_text k) r \<and>
    after_first (key_text k) (CHR ''['' # r) = after_first (key_text k) r \<and> after_first (key_text k) (CHR ''{'' # r) = after_first (key_text k) r \<and>
    after_first (key_text k) (CHR '']'' # r) = after_first (key_text k) r"
  by (simp add: after_first_other QUOTE_def del: after_first.simps)

text \<open>The first entry of a list of tokens that is the key stops the search, with its mark behind it.\<close>

lemma after_first_stops:
  assumes "clean k" "k \<noteq> []" "\<forall>t \<in> set ts. clean (fst t) \<and> snd t \<noteq> hd k \<and> snd t \<noteq> QUOTE" "\<exists>t \<in> set ts. fst t = k"
  shows "\<exists>c q. after_first (key_text k) (punctuated ts @ r) = Some (c # q) \<and> (\<exists>t \<in> set ts. fst t = k \<and> snd t = c)"
  using assms(3,4)
proof (induction ts)
  case (Cons t ts)
  obtain s c where t: "t = (s, c)" by fastforce
  show ?case
  proof (cases "s = k")
    case True
    thus ?thesis using t after_first_found [OF assms(1), of "c # punctuated ts @ r"] by auto
  next
    case False
    have "after_first (key_text k) (quoted_text s @ c # punctuated ts @ r) = after_first (key_text k) (punctuated ts @ r)"
      using Cons.prems t False by (intro after_first_token [OF _ assms(1) _ assms(2)]) auto
    thus ?thesis using Cons t False by fastforce
  qed
qed simp

lemma keys_clean: "clean ''id''" "clean ''storedName''" "clean ''originalName''" "clean ''originalPath''" "clean ''deletedAt''"
  by code_simp+


lemma key_heads: "hd ''id'' = CHR ''i''" "hd ''originalName'' = CHR ''o''" "hd ''originalPath'' = CHR ''o''" "hd ''deletedAt'' = CHR ''d''"
  by simp_all

lemma passes_key: "clean s \<Longrightarrow> s \<noteq> k \<Longrightarrow> hd k \<in> {CHR ''i'', CHR ''o'', CHR ''d''} \<Longrightarrow> c \<in> {CHR '':'', CHR '','', CHR '']'', CHR ''}''} \<Longrightarrow> passes k (s, c)"
  by (auto simp: passes_def QUOTE_def)

definition tail_text :: "(wide_string \<Rightarrow> string) \<Rightarrow> trash_entry \<Rightarrow> string" where
  "tail_text utf8 e = CHR ''['' # with_commas (map quoted_text (map utf8 (te_path e))) @ CHR '']'' # CHR '','' #
     punctuated [(''deletedAt'', CHR '':''), (utf8 (te_deleted e), CHR ''}'')]"

lemma head_split:
  assumes "hd k \<in> {CHR ''i'', CHR ''o'', CHR ''d''}" "clean k" "k \<noteq> []" "\<forall>t \<in> set ts. passes k t"
  shows "after_first (key_text k) (CHR ''{'' # punctuated (ts @ us) @ r) = after_first (key_text k) (punctuated us @ r)"
proof -
  have "punctuated (ts @ us) = punctuated ts @ punctuated us" by (induction ts rule: punctuated.induct) auto
  thus ?thesis using after_first_tokens [OF assms(2-4), of "punctuated us @ r"] tail_other [of k "punctuated ts @ punctuated us @ r"] assms(1,3)
    by (auto simp del: after_first.simps)
qed

text \<open>What the code needs of the texts it makes itself: the identifier and the stored name are longer than every key.\<close>

definition writable :: "(wide_string \<Rightarrow> string) \<Rightarrow> (string \<Rightarrow> wide_string) \<Rightarrow> trash_entry \<Rightarrow> bool" where
  "writable utf8 conv e \<longleftrightarrow> fit utf8 conv (te_id e) \<and> fit utf8 conv (te_name e) \<and> fit utf8 conv (te_deleted e) \<and> (\<forall>n \<in> set (te_path e). fit utf8 conv n) \<and>
     clean (utf8 (te_stored e)) \<and> 12 < length (utf8 (te_id e)) \<and> 12 < length (utf8 (te_stored e))"

lemma long_not_key: "12 < length s \<Longrightarrow> s \<noteq> ''id'' \<and> s \<noteq> ''storedName'' \<and> s \<noteq> ''originalName'' \<and> s \<noteq> ''originalPath'' \<and> s \<noteq> ''deletedAt''"
  by auto


lemma head_is: "metadata_text utf8 e = CHR ''{'' # punctuated (head_tokens (utf8 (te_id e)) (utf8 (te_stored e)) (utf8 (te_name e))) @ tail_text utf8 e"
  by (simp add: metadata_tokens tail_text_def)

lemma writable_clean:
  assumes "writable utf8 conv e"
  shows "clean (utf8 (te_id e))" "clean (utf8 (te_stored e))" "clean (utf8 (te_name e))" "\<forall>n \<in> set (te_path e). clean (utf8 n)" "clean (utf8 (te_deleted e))"
  using assms by (simp_all add: writable_def fit_def)

lemma find_id: "writable utf8 conv e \<Longrightarrow> find_string conv (metadata_text utf8 e) ''id'' = Some (te_id e)"
proof -
  assume w: "writable utf8 conv e"
  obtain us where u: "head_tokens (utf8 (te_id e)) (utf8 (te_stored e)) (utf8 (te_name e)) = [] @ (''id'', CHR '':'') # (utf8 (te_id e), CHR '','') # us"
    by (simp add: head_tokens_def)
  have "after_first (key_text ''id'') (metadata_text utf8 e) = Some (CHR '':'' # quoted_text (utf8 (te_id e)) @ CHR '','' # punctuated us @ tail_text utf8 e)"
    unfolding head_is u by (subst head_split) (use after_first_found [OF keys_clean(1)] keys_clean in simp_all)
  thus ?thesis using find_there w by (fastforce simp: writable_def)
qed

lemma find_name: "writable utf8 conv e \<Longrightarrow> find_string conv (metadata_text utf8 e) ''originalName'' = Some (te_name e)"
proof -
  assume w: "writable utf8 conv e"
  let ?ts = "[(''id'', CHR '':''), (utf8 (te_id e), CHR '',''), (''storedName'', CHR '':''), (utf8 (te_stored e), CHR '','')]"
  obtain us where u: "head_tokens (utf8 (te_id e)) (utf8 (te_stored e)) (utf8 (te_name e)) = ?ts @ (''originalName'', CHR '':'') # (utf8 (te_name e), CHR '','') # us"
    by (simp add: head_tokens_def)
  have "\<forall>t \<in> set ?ts. passes ''originalName'' t"
    using writable_clean [OF w] w long_not_key keys_clean by (auto simp: writable_def intro!: passes_key)
  hence "after_first (key_text ''originalName'') (metadata_text utf8 e) = Some (CHR '':'' # quoted_text (utf8 (te_name e)) @ CHR '','' # punctuated us @ tail_text utf8 e)"
    unfolding head_is u by (subst head_split) (use after_first_found [OF keys_clean(3)] keys_clean in simp_all)
  thus ?thesis using find_there w by (fastforce simp: writable_def)
qed


lemma head_passes:
  assumes "writable utf8 conv e" "hd k \<in> {CHR ''i'', CHR ''o'', CHR ''d''}" "k \<notin> {''id'', ''storedName'', ''originalName''}" "length k \<le> 12"
  shows "\<forall>t \<in> set [(''id'', CHR '':''), (utf8 (te_id e), CHR '',''), (''storedName'', CHR '':''), (utf8 (te_stored e), CHR '',''), (''originalName'', CHR '':'')]. passes k t"
  using writable_clean [OF assms(1)] keys_clean assms by (auto simp: writable_def intro!: passes_key)

text \<open>A name that is the key is taken for it, and what follows it is not a value.\<close>

lemma name_is_key:
  assumes "writable utf8 conv e" "utf8 (te_name e) = k" "k \<in> {''originalPath'', ''deletedAt''}"
  shows "value_offset (metadata_text utf8 e) k = None"
proof -
  obtain us where u: "head_tokens (utf8 (te_id e)) (utf8 (te_stored e)) (utf8 (te_name e)) =
      [(''id'', CHR '':''), (utf8 (te_id e), CHR '',''), (''storedName'', CHR '':''), (utf8 (te_stored e), CHR '',''), (''originalName'', CHR '':'')] @ (k, CHR '','') # us"
    using assms(2) by (simp add: head_tokens_def)
  have k: "clean k" "k \<noteq> []" "hd k \<in> {CHR ''i'', CHR ''o'', CHR ''d''}" "k \<notin> {''id'', ''storedName'', ''originalName''}" "length k \<le> 12"
    using assms(3) keys_clean by auto
  have "after_first (key_text k) (metadata_text utf8 e) = Some (CHR '','' # punctuated us @ tail_text utf8 e)"
    unfolding head_is u head_split [OF k(3,1,2) head_passes [OF assms(1) k(3-5)]] using after_first_found [OF k(1)] by simp
  thus ?thesis by (rule value_not_there) simp
qed

lemma find_path:
  assumes "writable utf8 conv e" "utf8 (te_name e) \<noteq> ''originalPath''"
  shows "find_string_array conv (metadata_text utf8 e) ''originalPath'' = Some (te_path e)"
proof -
  let ?ts = "[(''id'', CHR '':''), (utf8 (te_id e), CHR '',''), (''storedName'', CHR '':''), (utf8 (te_stored e), CHR '',''), (''originalName'', CHR '':'')]"
  let ?rest = "with_commas (map quoted_text (map utf8 (te_path e))) @ CHR '']'' # CHR '','' # punctuated [(''deletedAt'', CHR '':''), (utf8 (te_deleted e), CHR ''}'')]"
  have u: "head_tokens (utf8 (te_id e)) (utf8 (te_stored e)) (utf8 (te_name e)) = (?ts @ [(utf8 (te_name e), CHR '','')]) @ [(''originalPath'', CHR '':'')]"
    by (simp add: head_tokens_def)
  have "\<forall>t \<in> set (?ts @ [(utf8 (te_name e), CHR '','')]). passes ''originalPath'' t"
    using head_passes [OF assms(1), of "''originalPath''"] writable_clean(3) [OF assms(1)] assms(2) by (auto intro!: passes_key)
  hence "after_first (key_text ''originalPath'') (metadata_text utf8 e) = Some (CHR '':'' # tail_text utf8 e)"
    unfolding head_is u by (subst head_split) (use after_first_found [OF keys_clean(4)] keys_clean in simp_all)
  hence "value_offset (metadata_text utf8 e) ''originalPath'' = Some (skip_space (tail_text utf8 e))" by (rule value_there)
  also have "skip_space (tail_text utf8 e) = CHR ''['' # ?rest" by (simp add: tail_text_def skip_space_def json_space_def)
  finally show ?thesis using array_there [of "te_path e" utf8 conv "[]"] assms(1) by (simp add: find_string_array_def writable_def)
qed

lemma tail_tokens: "te_path e \<noteq> [] \<Longrightarrow> tail_text utf8 e =
    CHR ''['' # punctuated (path_tokens (map utf8 (te_path e))) @ CHR '','' # punctuated [(''deletedAt'', CHR '':''), (utf8 (te_deleted e), CHR ''}'')]"
  using commas_tokens [of "map utf8 (te_path e)"] by (simp add: tail_text_def)

lemma path_tokens_names: "fst ` set (path_tokens ps) = set ps"
  by (induction ps rule: path_tokens.induct) auto

lemma tail_search:
  assumes "writable utf8 conv e"
  shows "after_first (key_text ''deletedAt'') (tail_text utf8 e) = Some (CHR '':'' # quoted_text (utf8 (te_deleted e)) @ ''}'') \<and> ''deletedAt'' \<notin> utf8 ` set (te_path e) \<or>
    ''deletedAt'' \<in> utf8 ` set (te_path e) \<and> (\<exists>c q. after_first (key_text ''deletedAt'') (tail_text utf8 e) = Some (c # q) \<and> c \<in> {CHR '','', CHR '']''})"
proof -
  let ?k = "key_text ''deletedAt''" and ?d = "punctuated [(''deletedAt'', CHR '':''), (utf8 (te_deleted e), CHR ''}'')]" and ?ps = "path_tokens (map utf8 (te_path e))"
  have skip: "c \<in> {CHR '','', CHR ''['', CHR '']''} \<Longrightarrow> after_first ?k (c # r) = after_first ?k r" for c r
    using tail_other [of "''deletedAt''" r] by (auto simp del: after_first.simps)
  have k: "clean ''deletedAt''" "''deletedAt'' \<noteq> []" using keys_clean by simp_all
  have d: "after_first ?k (CHR '','' # ?d) = Some (CHR '':'' # quoted_text (utf8 (te_deleted e)) @ ''}'')"
    using after_first_found [OF k(1), of "CHR '':'' # quoted_text (utf8 (te_deleted e)) @ ''}''"] by (simp add: skip del: after_first.simps)
  have t: "\<forall>t \<in> set ?ps. clean (fst t) \<and> snd t \<in> {CHR '','', CHR '']''}"
    using path_tokens_set [of "map utf8 (te_path e)"] writable_clean(4) [OF assms] by fastforce
  have f: "fst ` set ?ps = utf8 ` set (te_path e)" by (simp add: path_tokens_names)
  show ?thesis
  proof (cases "te_path e = []")
    case True
    hence "after_first ?k (tail_text utf8 e) = after_first ?k (CHR '','' # ?d)" by (simp add: tail_text_def skip del: after_first.simps punctuated.simps)
    thus ?thesis using d True by simp
  next
    case False
    have s: "after_first ?k (tail_text utf8 e) = after_first ?k (punctuated ?ps @ CHR '','' # ?d)"
      unfolding tail_tokens [OF False] by (simp add: skip del: after_first.simps punctuated.simps)
    show ?thesis
    proof (cases "''deletedAt'' \<in> utf8 ` set (te_path e)")
      case True
      have "\<forall>t \<in> set ?ps. clean (fst t) \<and> snd t \<noteq> hd ''deletedAt'' \<and> snd t \<noteq> QUOTE" using t by (auto simp: QUOTE_def)
      moreover obtain x where "''deletedAt'' = fst x" "x \<in> set ?ps" using True unfolding f [symmetric] by (rule imageE)
      hence "\<exists>t \<in> set ?ps. fst t = ''deletedAt''" by (intro bexI [of _ x]) simp_all
      ultimately obtain c q where c: "after_first ?k (punctuated ?ps @ CHR '','' # ?d) = Some (c # q)" "\<exists>t \<in> set ?ps. fst t = ''deletedAt'' \<and> snd t = c"
        using after_first_stops [OF k] by blast
      have "c \<in> {CHR '','', CHR '']''}" using c(2) t by auto
      thus ?thesis using True c(1) unfolding s by (intro disjI2 conjI exI) assumption+
    next
      case no: False
      have "passes ''deletedAt'' x" if "x \<in> set ?ps" for x
      proof -
        have "fst x \<in> utf8 ` set (te_path e)" using that f by blast
        thus ?thesis using t that no by (auto simp: passes_def QUOTE_def)
      qed
      hence "after_first ?k (punctuated ?ps @ CHR '','' # ?d) = after_first ?k (CHR '','' # ?d)" by (intro after_first_tokens [OF k]) blast
      thus ?thesis using s d no by simp
    qed
  qed
qed

lemma find_deleted:
  assumes "writable utf8 conv e" "utf8 (te_name e) \<noteq> ''deletedAt''"
  shows "find_string conv (metadata_text utf8 e) ''deletedAt'' = (if ''deletedAt'' \<in> utf8 ` set (te_path e) then None else Some (te_deleted e))"
proof -
  let ?ts = "[(''id'', CHR '':''), (utf8 (te_id e), CHR '',''), (''storedName'', CHR '':''), (utf8 (te_stored e), CHR '',''), (''originalName'', CHR '':'')]"
  have u: "head_tokens (utf8 (te_id e)) (utf8 (te_stored e)) (utf8 (te_name e)) = (?ts @ [(utf8 (te_name e), CHR '',''), (''originalPath'', CHR '':'')]) @ []"
    by (simp add: head_tokens_def)
  have "\<forall>t \<in> set (?ts @ [(utf8 (te_name e), CHR '',''), (''originalPath'', CHR '':'')]). passes ''deletedAt'' t"
    using head_passes [OF assms(1), of "''deletedAt''"] writable_clean(3) [OF assms(1)] assms(2) keys_clean by (auto intro!: passes_key)
  hence h: "after_first (key_text ''deletedAt'') (metadata_text utf8 e) = after_first (key_text ''deletedAt'') (tail_text utf8 e)"
    unfolding head_is u by (subst head_split) (use keys_clean in simp_all)
  show ?thesis using tail_search [OF assms(1)]
  proof (elim disjE conjE exE, goal_cases)
    case 1
    hence "find_string conv (metadata_text utf8 e) ''deletedAt'' = Some (te_deleted e)"
      using assms(1) by (intro find_there) (auto simp: h writable_def)
    thus ?case using 1 by simp
  next
    case (2 c q)
    hence "value_offset (metadata_text utf8 e) ''deletedAt'' = None" by (intro value_not_there) (auto simp: h)
    thus ?case using 2 by (simp add: find_string_def)
  qed
qed

lemma metadata_reads_back:
  assumes "writable utf8 conv e"
  shows "read_metadata conv (metadata_text utf8 e) =
    (if utf8 (te_name e) \<in> {''originalPath'', ''deletedAt''} \<or> ''deletedAt'' \<in> utf8 ` set (te_path e) then None
     else Some (te_id e, te_name e, te_path e, te_deleted e))"
proof (cases "utf8 (te_name e) \<in> {''originalPath'', ''deletedAt''}")
  case True
  hence "find_string_array conv (metadata_text utf8 e) ''originalPath'' = None \<or> find_string conv (metadata_text utf8 e) ''deletedAt'' = None"
    using name_is_key [OF assms refl] by (auto simp: find_string_def find_string_array_def)
  thus ?thesis using True by (auto simp: read_metadata_def split: option.split)
next
  case False
  thus ?thesis using find_id [OF assms] find_name [OF assms] find_path [OF assms] find_deleted [OF assms] by (simp add: read_metadata_def)
qed

end
