(* ===== verification/Drive_Props.thy ===== *)
theory Drive_Props
  imports Drive_Contained Drive_Metadata_Facts
begin

text \<open>
  The properties of the drive: it stays below its root, its walks through trees end, names and metadata read back, what is trashed can be
  loaded and goes back to its place, reads and writes in pieces are reads and writes of the whole.
\<close>

section \<open>A drive for the witnesses\<close>

text \<open>A disk that is the list of the calls made so far; every path of at most 32,767 characters that does not end in z is a
  folder with a folder in it. A text just written is read back, and any other is the metadata of an item z.\<close>

definition zero_id :: wide_string where
  "zero_id = Workspace_Studio.wide (replicate 32 (CHR ''0''))"

definition entry_z :: trash_entry where
  "entry_z = \<lparr>te_id = zero_id, te_stored = item_name zero_id, te_name = Workspace_Studio.wide ''z'', te_path = [], te_deleted = Workspace_Studio.wide ''0'', te_folder = True,
     te_size = 0\<rparr>"

definition narrow_text :: "wide_string \<Rightarrow> string" where
  "narrow_text s = map (\<lambda>c. char_of (unat c)) s"

definition logging_drive :: "disk_call list drive_api" where
  "logging_drive = \<lparr>da_utf8 = narrow_text, da_wide = Workspace_Studio.wide, da_fold = id, da_lower = id,
     da_override = Some [0x43, COLON, BACKSLASH, 0x44], da_local = None, da_temp = None, da_absolute = Some, da_message = (\<lambda>_. []),
     da_guid = (\<lambda>s. Some (replicate 11 0)), da_time = (\<lambda>s. replicate 7 0),
     da_attr = (\<lambda>p s. if length p \<le> 32767 \<and> last p \<noteq> 0x7A then Some 0x10 else None),
     da_info = (\<lambda>p s. Some \<lparr>in_attributes = 0x10, in_high = 0, in_low = 0, in_modified = 0\<rparr>),
     da_entries = (\<lambda>p s. ([[0x61]], False)), da_text = (\<lambda>p s. case rev s of Write_Text q t # _ \<Rightarrow> if q = p then Some t else None
       | _ \<Rightarrow> Some (metadata_text narrow_text entry_z)), da_open = (\<lambda>p s. None), da_tag = (\<lambda>p s. Some 0), da_size = (\<lambda>p s. Inr 0),
     da_seek = (\<lambda>p n s. None), da_read = (\<lambda>p n m s. Inr []), da_last = length, da_do = (\<lambda>c s. (Inr 1, s @ [c]))\<rparr>"

lemma logging_simps [simp]: "da_utf8 logging_drive = narrow_text" "da_wide logging_drive = Workspace_Studio.wide" "da_fold logging_drive = id" "da_lower logging_drive = id"
    "da_guid logging_drive s = Some (replicate 11 0)" "da_time logging_drive s = replicate 7 0"
    "da_info logging_drive p s = Some \<lparr>in_attributes = 0x10, in_high = 0, in_low = 0, in_modified = 0\<rparr>"
    "da_text logging_drive p s = (case rev s of Write_Text q t # _ \<Rightarrow> if q = p then Some t else None | _ \<Rightarrow> Some (metadata_text narrow_text entry_z))"
    "da_entries logging_drive p s = ([[0x61]], False)" "da_do logging_drive c s = (Inr 1, s @ [c])"
    "da_attr logging_drive p s = (if length p \<le> 32767 \<and> last p \<noteq> 0x7A then Some 0x10 else None)"
  by (simp_all add: logging_drive_def)

lemma logging_root: "resolve_root logging_drive = drive_text 0x43 [[0x44]]"
  unfolding resolve_root_def logging_drive_def drive_api.simps option.case by code_simp

lemma logging_names: "drive_letter 0x43" "proper [0x44]" "proper [0x61]"
  by code_simp+

lemma logging_kept: "kept_below logging_drive 0x43 [[0x44]] (\<lambda>s. \<forall>c \<in> set s. \<forall>p \<in> set (paths_of c). below 0x43 [[0x44]] p)"
  unfolding kept_below_def logging_root logging_simps
  using logging_names by (intro conjI allI impI ballI) auto

abbreviation base_text :: wide_string where "base_text \<equiv> drive_text 0x43 [[0x44]]"

lemma bits_0x10: "is_directory 0x10" "\<not> is_reparse 0x10"
  by code_simp+

lemma logging_tree: "length p \<le> 32767 \<Longrightarrow> last p \<noteq> 0x7A \<Longrightarrow> ensure_directory_tree logging_drive p s = (Inr (), s @ [Make_Directories p])"
  by (simp add: ensure_directory_tree_def trusted_folder_def bits_0x10)

lemma each_in_turn_done: "(\<And>x s. x \<in> set xs \<Longrightarrow> \<exists>s'. f x s = (Inr (), s')) \<Longrightarrow> \<exists>s'. each_in_turn f xs s = (Inr (), s')"
proof (induction xs arbitrary: s)
  case (Cons x xs)
  obtain s' where "f x s = (Inr (), s')" using Cons.prems [of x s] by auto
  thus ?case using Cons by (simp add: then_do_def)
qed simp

lemma standard_short: "\<forall>ss \<in> set standard_directories. length (drive_text 0x43 ([0x44] # ss)) \<le> 100 \<and> last (drive_text 0x43 ([0x44] # ss)) \<noteq> 0x7A"
  by code_simp

lemma trash_paths: "internal_path base_text = drive_text 0x43 [[0x44], kInternalRoot]" "trash_path base_text = drive_text 0x43 [[0x44], kInternalRoot, kTrashName]"
  using drive_text_append [of "0x43" "[[0x44]]" kInternalRoot] drive_text_append [of "0x43" "[[0x44], kInternalRoot]" kTrashName] logging_names internal_proper
  by (simp_all add: internal_path_def trash_path_def)

lemma trash_short: "length (drive_text 0x43 [[0x44], kInternalRoot]) \<le> 100 \<and> last (drive_text 0x43 [[0x44], kInternalRoot]) \<noteq> 0x7A"
    "length (drive_text 0x43 [[0x44], kInternalRoot, kTrashName]) \<le> 100 \<and> last (drive_text 0x43 [[0x44], kInternalRoot, kTrashName]) \<noteq> 0x7A"
    "length base_text \<le> 100 \<and> last base_text \<noteq> 0x7A"
  by code_simp+

lemma logging_ready: "\<exists>s' a. ensure_ready logging_drive s = (Inr base_text, s' @ [Set_Attributes (drive_text 0x43 [[0x44], kInternalRoot]) a])"
proof -
  have b: "ss \<in> set standard_directories \<Longrightarrow> build_path base_text ss = drive_text 0x43 ([0x44] # ss)" for ss
    using build_path_text [of "0x43" "[[0x44]]" ss] logging_names standard_proper by auto
  obtain s1 where s1: "each_in_turn (\<lambda>ss. ensure_directory_tree logging_drive (build_path base_text ss)) standard_directories (s @ [Make_Directories base_text]) = (Inr (), s1)"
    using each_in_turn_done [of standard_directories "\<lambda>ss. ensure_directory_tree logging_drive (build_path base_text ss)"] logging_tree standard_short b by fastforce
  have "base_text \<noteq> []" by (simp add: drive_text_def)
  thus ?thesis unfolding ensure_ready_def Let_def logging_root
    using trash_short by (simp add: then_do_def logging_tree s1 trash_paths hide_def)
qed

section \<open>The properties\<close>

lemma deep_ok_pred: "deep_ok P f \<Longrightarrow> P s \<Longrightarrow> pred_option (\<lambda>r. P (snd r)) (f s)"
  by (cases "f s") (auto simp: deep_ok_def)

text \<open>
  C15. Below a root on a drive letter, every call an operation of the drive makes is on paths below the root: a property of the disk that such
  calls keep is kept by writing, making a folder, moving, copying, trashing, restoring, deleting and emptying the trash, also when they fail.
\<close>

theorem drive_stays_below:
  assumes "kept_below A d ns P" "P s"
  shows "P (snd (write_file A ss off bytes t s)) \<and> P (snd (make_folder A ss s)) \<and> P (snd (move_item A ss dst s)) \<and> P (snd (trash_item A ss s)) \<and>
    P (snd (restore_trash A i s)) \<and> pred_option (\<lambda>r. P (snd r)) (copy_item_to A ss dst s) \<and> pred_option (\<lambda>r. P (snd r)) (delete_trash A i s) \<and>
    pred_option (\<lambda>r. P (snd (snd r))) (empty_trash A s)"
proof (intro conjI)
  show "pred_option (\<lambda>r. P (snd r)) (copy_item_to A ss dst s)" by (rule deep_ok_pred [OF copy_item_to_ok [OF assms(1)] assms(2)])
  show "pred_option (\<lambda>r. P (snd r)) (delete_trash A i s)" by (rule deep_ok_pred [OF delete_trash_ok [OF assms(1)] assms(2)])
  show "pred_option (\<lambda>r. P (snd (snd r))) (empty_trash A s)"
    using empty_trash_keeps [OF assms] by (cases "empty_trash A s") auto
qed (rule step_withinD [OF write_file_ok [OF assms(1)] assms(2)] step_withinD [OF make_folder_ok [OF assms(1)] assms(2)]
  step_withinD [OF move_item_ok [OF assms(1)] assms(2)] step_withinD [OF trash_item_ok [OF assms(1)] assms(2)]
  step_withinD [OF restore_trash_ok [OF assms(1)] assms(2)])+

theorem drive_stays_below_witness:
  "list_all (\<lambda>c. list_all (below 0x43 [[0x44]]) (paths_of c)) (snd (trash_item logging_drive [[0x61]] []))"
  using drive_stays_below [OF logging_kept, of "[]" "[[0x61]]"] by (simp add: list_all_iff)

section \<open>Walks end\<close>

definition short_paths :: "'d drive_api \<Rightarrow> bool" where
  "short_paths A \<longleftrightarrow> (\<forall>p s. 32767 < length p \<longrightarrow> da_attr A p s = None) \<and> (\<forall>p s. \<forall>n \<in> set (fst (da_entries A p s)). plain n \<and> n \<noteq> [])"

lemma append_longer: "plain n \<Longrightarrow> n \<noteq> [] \<Longrightarrow> length p < length (append_path p n)"
  by (auto simp: append_plain folder_text_def)

lemma each_child_ends: "(\<And>n x. n \<in> set ns \<Longrightarrow> f n x \<noteq> None) \<Longrightarrow> each_child f ns s \<noteq> None"
proof (induction ns arbitrary: s)
  case (Cons n ns)
  obtain r x where r: "f n s = Some (r, x)" using Cons.prems [of n s] by auto
  have "each_child f ns x \<noteq> None" using Cons by simp
  thus ?case using r by (cases r) auto
qed simp

lemma deeper: "0 < k \<Longrightarrow> 32768 < length p + Suc k \<Longrightarrow> length p < length q \<Longrightarrow> 32768 < length q + k"
  by simp

lemma copy_tree_ends: "short_paths A \<Longrightarrow> 0 < k \<Longrightarrow> 32768 < length p + k \<Longrightarrow> copy_tree A k p t s \<noteq> None"
proof (induction k arbitrary: p t s)
  case (Suc k)
  show ?case
  proof (cases "da_attr A p s")
    case (Some a)
    hence l: "length p \<le> 32767" using Suc.prems(1) unfolding short_paths_def by (metis not_less option.distinct(1))
    have "each_child (\<lambda>n. copy_tree A k (append_path p n) (append_path t n)) (fst (da_entries A p x)) x \<noteq> None" for x
    proof (rule each_child_ends)
      fix n y assume "n \<in> set (fst (da_entries A p x))"
      hence "length p < length (append_path p n)" using Suc.prems(1) by (intro append_longer) (auto simp: short_paths_def)
      thus "copy_tree A k (append_path p n) (append_path t n) y \<noteq> None" using Suc.prems l by (intro Suc.IH) auto
    qed
    hence "\<exists>r y. each_child (\<lambda>n. copy_tree A k (append_path p n) (append_path t n)) (fst (da_entries A p x)) x = Some (r, y)" for x by auto
    moreover obtain q x where q: "perform A (Make_Directory t) ''Falha ao criar pasta de destino'' s = (q, x)" by (rule prod.exhaust)
    ultimately obtain r y where "each_child (\<lambda>n. copy_tree A k (append_path p n) (append_path t n)) (fst (da_entries A p x)) x = Some (r, y)" by blast
    thus ?thesis using Some q by (cases q; cases r) simp_all
  qed simp
qed simp

lemma remove_tree_ends: "short_paths A \<Longrightarrow> 0 < k \<Longrightarrow> 32768 < length p + k \<Longrightarrow> remove_tree A k p s \<noteq> None"
proof (induction k arbitrary: p s)
  case (Suc k)
  show ?case
  proof (cases "da_attr A p s")
    case (Some a)
    hence l: "length p \<le> 32767" using Suc.prems(1) unfolding short_paths_def by (metis not_less option.distinct(1))
    have "each_child (\<lambda>n. remove_tree A k (append_path p n)) (fst (da_entries A p s)) s \<noteq> None"
    proof (rule each_child_ends)
      fix n y assume "n \<in> set (fst (da_entries A p s))"
      hence "length p < length (append_path p n)" using Suc.prems(1) by (intro append_longer) (auto simp: short_paths_def)
      thus "remove_tree A k (append_path p n) y \<noteq> None" using Suc.prems l by (intro Suc.IH) auto
    qed
    then obtain r y where "each_child (\<lambda>n. remove_tree A k (append_path p n)) (fst (da_entries A p s)) s = Some (r, y)" by auto
    thus ?thesis using Some by (cases r) simp_all
  qed simp
qed simp

lemma delete_trash_ends:
  assumes "short_paths A"
  shows "delete_trash A i s \<noteq> None"
proof -
  obtain q x where q: "then_do (ensure_ready A) (\<lambda>base. ask_disk (load_trash_metadata A base i)) s = (q, x)" by (rule prod.exhaust)
  have t: "remove_tree A tree_depth p x \<noteq> None" for p by (rule remove_tree_ends [OF assms]) (simp_all add: tree_depth_def)
  show ?thesis
  proof (cases q)
    case (Inr a)
    obtain e st js where a: "a = (e, st, js)" by (rule prod_cases3)
    obtain r y where "remove_tree A tree_depth st x = Some (r, y)" using t [of st] by auto
    thus ?thesis using q Inr a by (cases r) (simp_all add: delete_trash_def)
  qed (use q in \<open>simp add: delete_trash_def\<close>)
qed

lemma delete_each_ends: "short_paths A \<Longrightarrow> delete_each A n es s \<noteq> None"
proof (induction es arbitrary: n s)
  case (Cons e es)
  obtain r x where r: "delete_trash A (te_id e) s = Some (r, x)" using delete_trash_ends [OF Cons.prems, of "te_id e" s] by auto
  thus ?case using Cons by (cases r) simp_all
qed simp

text \<open>
  Where no path of more than 32,767 characters exists and the names of entries are names, copying, deleting and emptying end, whatever the
  disk answers.
\<close>

theorem tree_walks_end:
  assumes "short_paths A"
  shows "copy_item_to A src dst s \<noteq> None \<and> delete_trash A i s \<noteq> None \<and> empty_trash A s \<noteq> None"
proof -
  have t: "copy_tree A tree_depth p t x \<noteq> None" for p t x by (rule copy_tree_ends [OF assms]) (simp_all add: tree_depth_def)
  obtain q x where q: "source_and_target A ''copiar'' src dst s = (q, x)" by (rule prod.exhaust)
  have "copy_item_to A src dst s \<noteq> None"
    using t q by (cases q) (simp_all add: copy_item_to_def split: prod.split)
  moreover obtain r y where "list_trash A s = (r, y)" by (rule prod.exhaust)
  hence "empty_trash A s \<noteq> None" using delete_each_ends [OF assms] by (cases r) (simp_all add: empty_trash_def)
  ultimately show ?thesis using delete_trash_ends [OF assms] by blast
qed

theorem tree_walks_end_witness: "copy_item_to logging_drive [[0x61]] [[0x62]] [] \<noteq> None"
proof -
  have "plain [0x61]" by code_simp
  hence "short_paths logging_drive" by (simp add: short_paths_def logging_simps)
  from tree_walks_end [OF this] show ?thesis by blast
qed


section \<open>The trash\<close>

lemma then_do_Inr: "then_do f g s = (Inr b, s') \<longleftrightarrow> (\<exists>a x. f s = (Inr a, x) \<and> g a x = (Inr b, s'))"
  by (auto simp: then_do_def split: prod.split sum.split)

lemma ask_Inr: "ask_disk f s = (r, s') \<longleftrightarrow> f s = r \<and> s' = s"
  by (auto simp: ask_disk_def)

lemma perform_Inr: "perform A c pre s = (Inr u, s') \<longleftrightarrow> (\<exists>n. da_do A c s = (Inr n, s'))"
  by (auto simp: perform_def split: prod.split sum.split)

lemma ensure_ready_root:
  assumes "ensure_ready A s = (Inr b, s')"
  shows "b = resolve_root A"
proof -
  have "resolve_root A \<noteq> []" using assms by (auto simp: ensure_ready_def ask_disk_def Let_def)
  thus ?thesis using assms by (auto simp: ensure_ready_def Let_def then_do_Inr)
qed

lemma store_item_done:
  assumes "store_item A base p e s = (Inr e', s')"
  shows "e' = e" "\<exists>n x. da_do A (Write_Text (append_path (trash_path base) (json_name (te_id e))) (metadata_text (da_utf8 A) e)) x = (Inr n, s')"
proof -
  have "e' = e \<and> (\<exists>n x. da_do A (Write_Text (append_path (trash_path base) (json_name (te_id e))) (metadata_text (da_utf8 A) e)) x = (Inr n, s'))"
    using assms by (auto simp: store_item_def Let_def then_do_Inr write_metadata_def split: prod.splits sum.splits)
  thus "e' = e" "\<exists>n x. da_do A (Write_Text (append_path (trash_path base) (json_name (te_id e))) (metadata_text (da_utf8 A) e)) x = (Inr n, s')" by auto
qed

lemma validate_segments_parts:
  assumes "validate_segments enc cfold False ss = None"
  shows "validate_segments enc cfold True (butlast ss) = None" "validate_segment enc cfold (last ss) = None"
proof -
  have s: "ss \<noteq> []" "length ss \<le> kMaxSegments" "\<forall>n \<in> set ss. validate_segment enc cfold n = None"
    using assms by (auto simp: validate_segments_def first_error_None split: if_splits)
  thus "validate_segments enc cfold True (butlast ss) = None"
    by (auto simp: validate_segments_def first_error_None dest: in_set_butlastD)
  show "validate_segment enc cfold (last ss) = None" using s by simp
qed

lemma existing_valid: "existing_safe_path A base ss e s = Inr r \<Longrightarrow> validate_segments (da_utf8 A) (da_fold A) e ss = None"
  by (simp add: existing_safe_path_def split: option.splits)

text \<open>What a successful \<open>Trash\<close> leaves behind: the entry, its identifier and its metadata.\<close>

lemma trash_item_done:
  assumes "trash_item A ss s = (Inr e, s')"
  shows "is_hex_id (te_id e)" "te_stored e = item_name (te_id e)" "validate_segments (da_utf8 A) (da_fold A) True (te_path e) = None"
    "validate_segment (da_utf8 A) (da_fold A) (te_name e) = None"
    "\<exists>n x. da_do A (Write_Text (append_path (trash_path (resolve_root A)) (json_name (te_id e))) (metadata_text (da_utf8 A) e)) x = (Inr n, s')"
proof -
  obtain b x p a where r: "ensure_ready A s = (Inr b, x)" "existing_safe_path A b ss False x = Inr (p, a)" "is_hex_id (generate_id A x)"
      "store_item A b p (new_entry A ss p a x) x = (Inr e, s')"
    using assms by (auto simp: trash_item_def then_do_Inr ask_Inr split: if_splits)
  have e: "e = new_entry A ss p a x" by (rule store_item_done(1) [OF r(4)])
  have b: "b = resolve_root A" by (rule ensure_ready_root [OF r(1)])
  note v = validate_segments_parts [OF existing_valid [OF r(2)]]
  show "is_hex_id (te_id e)" "te_stored e = item_name (te_id e)" "validate_segments (da_utf8 A) (da_fold A) True (te_path e) = None"
    "validate_segment (da_utf8 A) (da_fold A) (te_name e) = None"
    using r(3) v unfolding e by (simp_all add: new_entry_def Let_def)
  show "\<exists>n x. da_do A (Write_Text (append_path (trash_path (resolve_root A)) (json_name (te_id e))) (metadata_text (da_utf8 A) e)) x = (Inr n, s')"
    using store_item_done(2) [OF r(4)] unfolding e b .
qed

text \<open>
  C16. Where a text that was written is read back and the item is in its place, the entry of a trashed item loads as it was made - unless a
  name in it is the key of a later field of the metadata: then the item can be neither listed nor restored.
\<close>

theorem trashed_item_loads:
  assumes "trash_item A ss s = (Inr e, s')"
    and "\<And>p t x n x'. da_do A (Write_Text p t) x = (Inr n, x') \<Longrightarrow> da_text A p x' = Some t"
    and "writable (da_utf8 A) (da_wide A) e" "length (metadata_text (da_utf8 A) e) \<le> 1024 * 1024"
    and "da_info A (append_path (trash_path (resolve_root A)) (te_stored e)) s' = Some f" "\<not> is_reparse (in_attributes f)"
  shows "load_trash_metadata A (resolve_root A) (te_id e) s' =
    (if da_utf8 A (te_name e) \<in> {''originalPath'', ''deletedAt''} \<or> ''deletedAt'' \<in> da_utf8 A ` set (te_path e) then Inl bad_metadata
     else Inr (e\<lparr>te_folder := is_directory (in_attributes f), te_size := if is_directory (in_attributes f) then 0 else info_size f\<rparr>,
       append_path (trash_path (resolve_root A)) (te_stored e), append_path (trash_path (resolve_root A)) (json_name (te_id e))))"
proof -
  note d = trash_item_done [OF assms(1)]
  have t: "read_all_text A (append_path (trash_path (resolve_root A)) (json_name (te_id e))) s' = Some (metadata_text (da_utf8 A) e)"
    using d(5) assms(2,4) by (auto simp: read_all_text_def)
  have i: "da_info A (append_path (trash_path (resolve_root A)) (item_name (te_id e))) s' = Some f" using assms(5) d(2) by simp
  show ?thesis
  proof (cases "da_utf8 A (te_name e) \<in> {''originalPath'', ''deletedAt''} \<or> ''deletedAt'' \<in> da_utf8 A ` set (te_path e)")
    case True
    hence "read_metadata (da_wide A) (metadata_text (da_utf8 A) e) = None" unfolding metadata_reads_back [OF assms(3)] by (rule if_P)
    thus ?thesis using True d(1) t by (simp add: load_trash_metadata_def parse_metadata_def)
  next
    case False
    hence "read_metadata (da_wide A) (metadata_text (da_utf8 A) e) = Some (te_id e, te_name e, te_path e, te_deleted e)"
      unfolding metadata_reads_back [OF assms(3)] by (rule if_not_P)
    hence "parse_metadata A (te_id e) (metadata_text (da_utf8 A) e) = Inr (e\<lparr>te_folder := False, te_size := 0\<rparr>)"
      using d(2-4) by (simp add: parse_metadata_def equal_folded_def)
    thus ?thesis using False d(1,2) t i assms(6) by (simp add: load_trash_metadata_def)
  qed
qed

lemma restore_to_done:
  assumes "restore_to A st js p x = (Inr u, s')"
  shows "\<exists>n m y. da_do A (Move_File st p) x = (Inr n, y) \<and> da_do A (Delete_One js) y = (Inr m, s')"
proof -
  obtain a y where y: "perform A (Move_File st p) ''Falha ao restaurar item'' x = (Inr a, y)"
      "(case da_do A (Delete_One js) y of (Inl code, d') \<Rightarrow> (Inl (join_error A ''Falha ao concluir restauracao'' code), snd (da_do A (Move_File p st) d'))
        | (Inr _, d') \<Rightarrow> (Inr (), d')) = (Inr u, s')"
    using assms unfolding restore_to_def then_do_Inr by blast
  obtain q z where q: "da_do A (Delete_One js) y = (q, z)" by (rule prod.exhaust)
  have "\<exists>m. q = Inr m \<and> z = s'" using y(2) q by (cases q) simp_all
  thus ?thesis using q y(1) by (auto simp: perform_Inr)
qed

text \<open>
  C17. A successful \<open>RestoreTrash\<close> moves the item to the path of its metadata, where nothing was, and then deletes the metadata.
\<close>

theorem restore_puts_back:
  assumes "restore_trash A i s = (Inr u, s')" "kept_below A d ns P"
  shows "\<exists>e stored json x y n m. load_trash_metadata A (drive_text d ns) i x = Inr (e, stored, json) \<and>
    da_attr A (drive_text d (ns @ te_path e @ [te_name e])) x = None \<and>
    da_do A (Move_File stored (drive_text d (ns @ te_path e @ [te_name e]))) x = (Inr n, y) \<and> da_do A (Delete_One json) y = (Inr m, s')"
proof -
  have root: "resolve_root A = drive_text d ns" using kept_below_root [OF assms(2)] by simp
  obtain b x e st js p where r: "ensure_ready A s = (Inr b, x)" "load_trash_metadata A b i x = Inr (e, st, js)"
      "destination_safe_path A b (te_path e @ [te_name e]) x = Inr (p, None)" "restore_to A st js p x = (Inr u, s')"
    using assms(1) by (auto simp: restore_trash_def then_do_Inr ask_Inr split: if_splits)
  have b: "b = drive_text d ns" using ensure_ready_root [OF r(1)] root by simp
  have p: "p = drive_text d (ns @ te_path e @ [te_name e])" by (rule destination_text(1) [OF assms(2) r(3) [unfolded b]])
  have "da_attr A p x = None" using r(3) by (auto simp: destination_safe_path_def Let_def split: option.splits sum.splits if_splits)
  moreover obtain n m y where "da_do A (Move_File st p) x = (Inr n, y)" "da_do A (Delete_One js) y = (Inr m, s')"
    using restore_to_done [OF r(4)] by blast
  ultimately show ?thesis using r(2) unfolding b p by blast
qed



section \<open>Witnesses of the trash\<close>

definition entry_a :: trash_entry where
  "entry_a = \<lparr>te_id = zero_id, te_stored = item_name zero_id, te_name = Workspace_Studio.wide ''a'', te_path = [],
     te_deleted = Workspace_Studio.wide ''0000-00-00T00:00:00.000Z'', te_folder = True, te_size = 0\<rparr>"

lemma narrow_wide: "narrow_text (Workspace_Studio.wide s) = s"
proof (induction s)
  case (Cons c s)
  have "(of_char c :: nat) < 256" by simp
  hence "(of_char c :: nat) < 65536" by linarith
  hence "(of_char c :: nat) mod 65536 = of_char c" by (rule mod_less)
  thus ?case using Cons by (simp add: narrow_text_def Workspace_Studio.wide_def unat_of_nat)
qed (simp add: narrow_text_def Workspace_Studio.wide_def)

lemma fit_wide: "fit narrow_text Workspace_Studio.wide (Workspace_Studio.wide s) \<longleftrightarrow> clean s"
  by (simp add: fit_def narrow_wide) (simp add: Workspace_Studio.wide_def)

lemma item_name_wide: "item_name (Workspace_Studio.wide s) = Workspace_Studio.wide (s @ ''.item'')"
  by (simp add: item_name_def Workspace_Studio.wide_def)

lemma entry_texts_clean: "clean (replicate 32 (CHR ''0''))" "clean (replicate 32 (CHR ''0'') @ ''.item'')" "clean ''a''" "clean ''z''" "clean ''0''"
    "clean ''0000-00-00T00:00:00.000Z''"
  by code_simp+

lemma entry_names: "[0x61] = Workspace_Studio.wide ''a''" "[0x7A] = Workspace_Studio.wide ''z''"
  by code_simp+

lemma writable_entries: "writable narrow_text Workspace_Studio.wide entry_a" "writable narrow_text Workspace_Studio.wide entry_z"
  using entry_texts_clean by (simp_all add: writable_def entry_a_def entry_z_def zero_id_def fit_wide item_name_wide narrow_wide)

lemma short_entries: "length (metadata_text narrow_text entry_a) \<le> 1024 * 1024" "length (metadata_text narrow_text entry_z) \<le> 1024 * 1024"
  using entry_texts_clean keys_clean
  by (simp_all add: metadata_text_def entry_a_def entry_z_def zero_id_def item_name_wide narrow_wide clean_quoted)

lemma zero_hex: "is_hex_id zero_id"
  by code_simp

lemma new_entry_a: "new_entry logging_drive [[0x61]] p 0x10 s = entry_a"
proof -
  have "concat (map2 hex_digits guid_widths (replicate 11 0)) = replicate 32 (CHR ''0'')" by code_simp
  hence "generate_id logging_drive s = zero_id" by (simp add: generate_id_def zero_id_def)
  moreover have "concat (map2 (\<lambda>(w, mark) n. padded w n @ mark) [(4, ''-''), (2, ''-''), (2, ''T''), (2, '':''), (2, '':''), (2, ''.''), (3, ''Z'')]
      (replicate 7 0)) = ''0000-00-00T00:00:00.000Z''" by code_simp
  hence "iso_timestamp logging_drive s = Workspace_Studio.wide ''0000-00-00T00:00:00.000Z''" by (simp add: iso_timestamp_def)
  ultimately show ?thesis by (simp add: new_entry_def entry_a_def bits_0x10 Let_def entry_names)
qed

lemma drive_a: "append_path base_text [0x61] = drive_text 0x43 [[0x44], [0x61]]" "is_inside_path id base_text (drive_text 0x43 [[0x44], [0x61]])"
    "lexically_normal (drive_text 0x43 [[0x44], [0x61]]) = drive_text 0x43 [[0x44], [0x61]]"
  using drive_text_append [of "0x43" "[[0x44]]" "[0x61]"] drive_text_inside [of "0x43" "[[0x44]]" "[[0x61]]" id]
    drive_text_normal [of "0x43" "[[0x44], [0x61]]"] logging_names by simp_all

lemma valid_names: "validate_segments narrow_text id False [[0x61]] = None" "validate_segments narrow_text id False [[0x7A]] = None"
    "validate_segments narrow_text id True [] = None" "validate_segment narrow_text id [0x7A] = None"
  by code_simp+

lemma existing_a: "existing_safe_path logging_drive base_text [[0x61]] False s = Inr (drive_text 0x43 [[0x44], [0x61]], 0x10)"
proof -
  have "length (drive_text 0x43 [[0x44], [0x61]]) \<le> 32767 \<and> last (drive_text 0x43 [[0x44], [0x61]]) \<noteq> 0x7A" by (simp add: drive_text_def)
  thus ?thesis using valid_names(1) trash_short(3) bits_0x10 by (simp add: existing_safe_path_def trusted_folder_def drive_a)
qed

lemma trash_a: "\<exists>s'. trash_item logging_drive [[0x61]] s = (Inr entry_a, s')"
proof -
  obtain x where x: "ensure_ready logging_drive s = (Inr base_text, x)" using logging_ready by blast
  have "generate_id logging_drive x = te_id entry_a" using new_entry_a [of "[]" x] by (metis new_entry_def trash_entry.select_convs(1))
  moreover have "is_hex_id (te_id entry_a)" using zero_hex by (simp add: entry_a_def)
  ultimately show ?thesis
    using x by (simp add: trash_item_def then_do_def ask_disk_def existing_a new_entry_a store_item_def perform_def write_metadata_def Let_def)
qed

theorem trashed_item_loads_witness:
  "\<exists>s'. load_trash_metadata logging_drive base_text (te_id entry_a) s' = Inr (entry_a, append_path (trash_path base_text) (te_stored entry_a),
     append_path (trash_path base_text) (json_name (te_id entry_a)))"
proof -
  obtain s' where t: "trash_item logging_drive [[0x61]] [] = (Inr entry_a, s')" using trash_a by blast
  note w = writable_entries(1) and l = short_entries(1)
  have k: "narrow_text (te_name entry_a) \<notin> {''originalPath'', ''deletedAt''} \<and> te_path entry_a = []" by (simp add: entry_a_def narrow_wide)
  have e: "entry_a\<lparr>te_folder := True, te_size := 0\<rparr> = entry_a" by (simp add: entry_a_def)
  have "load_trash_metadata logging_drive (resolve_root logging_drive) (te_id entry_a) s' =
      Inr (entry_a, append_path (trash_path (resolve_root logging_drive)) (te_stored entry_a), append_path (trash_path (resolve_root logging_drive)) (json_name (te_id entry_a)))"
    by (subst trashed_item_loads [OF t]) (use w l k e bits_0x10 in \<open>auto simp: logging_drive_def\<close>)
  thus ?thesis unfolding logging_root by blast
qed

lemma destination_z: "destination_safe_path logging_drive base_text [[0x7A]] s = Inr (drive_text 0x43 [[0x44], [0x7A]], None)"
proof -
  have z: "proper [0x7A]" by code_simp
  have p: "append_path base_text [0x7A] = drive_text 0x43 [[0x44], [0x7A]]" "is_inside_path id base_text (drive_text 0x43 [[0x44], [0x7A]])"
      "lexically_normal (drive_text 0x43 [[0x44], [0x7A]]) = drive_text 0x43 [[0x44], [0x7A]]" "is_inside_path id base_text base_text"
      "lexically_normal base_text = base_text"
    using drive_text_append [of "0x43" "[[0x44]]" "[0x7A]"] drive_text_inside [of "0x43" "[[0x44]]" "[[0x7A]]" id] drive_text_inside [of "0x43" "[[0x44]]" "[]" id]
      drive_text_normal [of "0x43" "[[0x44], [0x7A]]"] drive_text_normal [of "0x43" "[[0x44]]"] logging_names z by simp_all
  have "last (drive_text 0x43 [[0x44], [0x7A]]) = 0x7A" by (simp add: drive_text_def)
  thus ?thesis using valid_names trash_short(3) bits_0x10 p by (simp add: destination_safe_path_def existing_safe_path_def trusted_folder_def)
qed

lemma restore_z: "\<exists>s'. restore_trash logging_drive (te_id entry_z) s = (Inr (), s')"
proof -
  obtain x a where x: "ensure_ready logging_drive s = (Inr base_text, x @ [Set_Attributes (drive_text 0x43 [[0x44], kInternalRoot]) a])" using logging_ready by blast
  note w = writable_entries(2) and l = short_entries(2)
  have k: "narrow_text (te_name entry_z) \<notin> {''originalPath'', ''deletedAt''} \<and> te_path entry_z = [] \<and> te_name entry_z = [0x7A]"
    by (simp add: entry_z_def narrow_wide entry_names)
  have n: "narrow_text [0x7A] = ''z''" unfolding entry_names by (rule narrow_wide)
  have h: "is_hex_id (te_id entry_z)" using zero_hex by (simp add: entry_z_def)
  have "read_metadata Workspace_Studio.wide (metadata_text narrow_text entry_z) = Some (te_id entry_z, te_name entry_z, te_path entry_z, te_deleted entry_z)"
    using metadata_reads_back [OF w] k n by simp
  hence "parse_metadata logging_drive (te_id entry_z) (metadata_text narrow_text entry_z) = Inr (entry_z\<lparr>te_folder := False\<rparr>)"
    using k valid_names by (simp add: parse_metadata_def equal_folded_def) (simp add: entry_z_def entry_names)
  hence "\<exists>e st js. load_trash_metadata logging_drive base_text (te_id entry_z) (x @ [Set_Attributes (drive_text 0x43 [[0x44], kInternalRoot]) a]) = Inr (e, st, js) \<and>
      te_path e = [] \<and> te_name e = [0x7A]"
    using h l k bits_0x10 by (simp add: load_trash_metadata_def read_all_text_def Let_def)
  then obtain e st js where "load_trash_metadata logging_drive base_text (te_id entry_z) (x @ [Set_Attributes (drive_text 0x43 [[0x44], kInternalRoot]) a]) = Inr (e, st, js)"
      "te_path e = []" "te_name e = [0x7A]" by blast
  thus ?thesis using x by (simp add: restore_trash_def then_do_def ask_disk_def destination_z restore_to_def perform_def)
qed

theorem restore_puts_back_witness: "\<exists>e st js x. load_trash_metadata logging_drive base_text (te_id entry_z) x = Inr (e, st, js)"
proof -
  obtain s' where "restore_trash logging_drive (te_id entry_z) [] = (Inr (), s')" using restore_z by blast
  from restore_puts_back [OF this logging_kept] show ?thesis by blast
qed


section \<open>The round trips\<close>

text \<open>
  C18. The metadata of a trashed item reads back as it was written, unless the name or a name of the path is the key of a later field.
\<close>

theorem metadata_round_trip:
  assumes "writable enc conv e"
  shows "read_metadata conv (metadata_text enc e) =
    (if enc (te_name e) \<in> {''originalPath'', ''deletedAt''} \<or> ''deletedAt'' \<in> enc ` set (te_path e) then None
     else Some (te_id e, te_name e, te_path e, te_deleted e))"
  by (rule metadata_reads_back [OF assms])

definition entry_named_deleted :: trash_entry where
  "entry_named_deleted = entry_a\<lparr>te_name := Workspace_Studio.wide ''deletedAt''\<rparr>"

theorem metadata_round_trip_witness:
  "read_metadata Workspace_Studio.wide (metadata_text narrow_text entry_a) = Some (te_id entry_a, te_name entry_a, te_path entry_a, te_deleted entry_a) \<and>
   read_metadata Workspace_Studio.wide (metadata_text narrow_text entry_named_deleted) = None"
proof -
  have k: "writable narrow_text Workspace_Studio.wide entry_named_deleted"
    using writable_entries(1) keys_clean by (simp add: writable_def entry_named_deleted_def fit_wide)
  have "narrow_text (te_name entry_named_deleted) = ''deletedAt''" "narrow_text (te_name entry_a) = ''a''" "te_path entry_a = []"
    by (simp_all add: entry_named_deleted_def entry_a_def narrow_wide)
  thus ?thesis using metadata_round_trip [OF writable_entries(1)] metadata_round_trip [OF k] by simp
qed

text \<open>
  C19. Below a root on a drive letter, the path of admitted names is inside the root, whatever the folding, and reads back as the names.
\<close>

theorem segments_round_trip:
  assumes "drive_letter d" "ns \<noteq> []" "\<forall>n \<in> set ns. proper n" "validate_segments enc cfold True ss = None"
  shows "is_inside_path low (drive_text d ns) (build_path (drive_text d ns) ss) \<and>
    segments_below enc cfold low (drive_text d ns) (build_path (drive_text d ns) ss) = Inr ss"
proof -
  have p: "\<forall>n \<in> set (ns @ ss). proper n" using assms(3) validated_all [OF assms(4)] by auto
  note b = build_path_text [OF assms(1,2) p]
  have "is_inside_path low (drive_text d ns) (build_path (drive_text d ns) ss)" unfolding b by (rule drive_text_inside [OF assms(1,2) p])
  thus ?thesis using relative_drive_text [OF assms(1) p] drive_text_normal [OF assms(1) p] assms(4) by (simp add: segments_below_def b)
qed

theorem segments_round_trip_witness:
  "segments_below narrow_text id id base_text (build_path base_text [[0x61]]) = Inr [[0x61]]"
proof -
  have "validate_segments narrow_text id True [[0x61]] = None" by code_simp
  thus ?thesis using segments_round_trip [of "0x43" "[[0x44]]" narrow_text id "[[0x61]]" id] logging_names by simp
qed

end
