(* ===== verification/Drive_Bytes.thy ===== *)
theory Drive_Bytes
  imports Drive_Operations
begin

text \<open>
  Reading and writing of the drive move bytes in as many calls as Windows wants. Where each call moves some of the bytes it was asked for,
  the pieces make up the range.
\<close>

section \<open>Reading\<close>

text \<open>An open file with the given content: a read short of its end gives at least one byte and no rest than it was asked for.\<close>

definition gives_bytes :: "'d drive_api \<Rightarrow> wide_string \<Rightarrow> string \<Rightarrow> 'd \<Rightarrow> bool" where
  "gives_bytes A p content s \<longleftrightarrow> da_size A p s = Inr (length content) \<and> (\<forall>n. da_seek A p n s = None) \<and>
     (\<forall>pos n. pos < length content \<longrightarrow> 0 < n \<longrightarrow>
        (\<exists>k. 0 < k \<and> k \<le> n \<and> pos + k \<le> length content \<and> da_read A p pos n s = Inr (take k (drop pos content))))"

lemma read_turns_all:
  "start + amount \<le> length content \<Longrightarrow> gives_bytes A p content s \<Longrightarrow> length out \<le> amount \<Longrightarrow> out = take (length out) (drop start content) \<Longrightarrow>
   read_turns A p start amount out s = Inr (take amount (drop start content))"
proof (induction A p start amount out s rule: read_turns.induct)
  case (1 A p start amount out s)
  show ?case
  proof (cases "amount \<le> length out")
    case True
    thus ?thesis using 1(4,5) by (subst read_turns.simps) simp
  next
    case False
    let ?pos = "start + length out" and ?n = "min (amount - length out) DWORD_MAX"
    have "?pos < length content" "0 < ?n" using False 1(2) by (auto simp: DWORD_MAX_def)
    then obtain k where k: "0 < k" "k \<le> ?n" "?pos + k \<le> length content" "da_read A p ?pos ?n s = Inr (take k (drop ?pos content))"
      using 1(3) unfolding gives_bytes_def by blast
    let ?bs = "take k (drop ?pos content)"
    have b: "?bs \<noteq> []" "length ?bs = k" using k(1,3) by auto
    have o: "out @ ?bs = take (length out + k) (drop start content)" using 1(5) take_add [of "length out" k "drop start content"] by (simp add: add.commute)
    have "length (out @ ?bs) \<le> amount" unfolding length_append b(2) using k(2) False by linarith
    moreover have "out @ ?bs = take (length (out @ ?bs)) (drop start content)" unfolding length_append b(2) by (rule o)
    ultimately have "read_turns A p start amount (out @ ?bs) s = Inr (take amount (drop start content))"
      using 1(1) [OF False k(4) b(1) 1(2,3)] by blast
    thus ?thesis using False k(4) b(1) by (subst read_turns.simps) simp
  qed
qed

text \<open>
  A read gives the bytes of the range as far as the file goes, says whether the end was reached and how long the file is, in however many
  pieces Windows gives them.
\<close>

theorem read_gives_range:
  assumes "gives_bytes A p content s"
  shows "read_range A p offset maximum s = Inr (take maximum (drop offset content), length content \<le> offset + maximum, length content)"
proof -
  let ?start = "min offset (length content)" and ?amount = "min (length content - min offset (length content)) maximum"
  have r: "read_turns A p ?start ?amount [] s = Inr (take ?amount (drop ?start content))"
    by (rule read_turns_all [OF _ assms]) auto
  have b: "take ?amount (drop ?start content) = take maximum (drop offset content)"
    by (cases "offset \<le> length content") (auto simp: min_def)
  have "da_size A p s = Inr (length content)" "da_seek A p (int ?start) s = None" using assms by (simp_all add: gives_bytes_def)
  moreover have "length content \<le> ?start + length (take maximum (drop offset content)) \<longleftrightarrow> length content \<le> offset + maximum" by auto
  ultimately show ?thesis using r unfolding b by (simp add: read_range_def Let_def)
qed

section \<open>Writing\<close>

text \<open>The content of a file after bytes are written at a position, with zeros between its end and the position.\<close>

definition overlay :: "string \<Rightarrow> nat \<Rightarrow> string \<Rightarrow> string" where
  "overlay content pos bytes = take pos (content @ replicate (pos - length content) (CHR 0x00)) @ bytes @ drop (pos + length bytes) content"

lemma overlay_twice:
  "overlay (overlay content pos bytes) (pos + length bytes) rest = overlay content pos (bytes @ rest)"
proof -
  let ?front = "take pos (content @ replicate (pos - length content) (CHR 0x00)) @ bytes"
  have l: "length ?front = pos + length bytes" by simp
  have o: "overlay content pos bytes = ?front @ drop (pos + length bytes) content" by (simp add: overlay_def)
  have t: "take (pos + length bytes) (overlay content pos bytes @ zs) = ?front" for zs
    unfolding o append_assoc [of ?front] take_append [of _ ?front] l by simp
  have d: "drop (pos + length bytes + length rest) (overlay content pos bytes) = drop (pos + length (bytes @ rest)) content"
    unfolding o drop_append [of _ ?front] l by (simp add: add.commute add.left_commute)
  have "overlay (overlay content pos bytes) (pos + length bytes) rest = ?front @ rest @ drop (pos + length (bytes @ rest)) content"
    unfolding overlay_def [of "overlay content pos bytes"] t d ..
  thus ?thesis by (simp add: overlay_def [of content pos "bytes @ rest"])
qed

text \<open>A disk on which a write of some bytes writes at least one of them.\<close>

definition takes_bytes :: "'d drive_api \<Rightarrow> wide_string \<Rightarrow> bool" where
  "takes_bytes A p \<longleftrightarrow> (\<forall>pos bytes s content. bytes \<noteq> [] \<longrightarrow> da_text A p s = Some content \<longrightarrow>
     (\<exists>n s'. 0 < n \<and> n \<le> length bytes \<and> da_do A (Write_At p pos bytes) s = (Inr n, s') \<and> da_text A p s' = Some (overlay content pos (take n bytes))))"

text \<open>
  C20. A write of some bytes leaves the file with all of them at the position and what was around them unchanged, in however many pieces Windows
  takes them.
\<close>

theorem write_lands_whole:
  assumes "takes_bytes A p" "da_text A p s = Some content" "bytes \<noteq> []"
  shows "\<exists>s'. write_turns A p pos bytes s = (Inr (), s') \<and> da_text A p s' = Some (overlay content pos bytes)"
  using assms
proof (induction A p pos bytes s arbitrary: content rule: write_turns.induct)
  case (1 A p pos bytes s)
  have "take DWORD_MAX bytes \<noteq> []" using 1(4) by (simp add: DWORD_MAX_def)
  then obtain n s1 where n: "0 < n" "n \<le> length (take DWORD_MAX bytes)" "da_do A (Write_At p pos (take DWORD_MAX bytes)) s = (Inr n, s1)"
      "da_text A p s1 = Some (overlay content pos (take n (take DWORD_MAX bytes)))"
    using 1(2,3) unfolding takes_bytes_def by blast
  have "n \<le> DWORD_MAX" "n \<le> length bytes" using n(2) by simp_all
  hence t: "take n (take DWORD_MAX bytes) = take n bytes" "length (take n bytes) = n" "take n bytes \<noteq> []" using n(1) 1(4) by (simp_all add: min_absorb1)
  have w: "write_turns A p pos bytes s = write_turns A p (pos + n) (drop n bytes) s1" using n(1,3) 1(4) by (subst write_turns.simps) simp
  show ?case
  proof (cases "drop n bytes = []")
    case True
    hence "write_turns A p pos bytes s = (Inr (), s1)" unfolding w by (subst write_turns.simps) simp
    thus ?thesis using n(4) True t by simp
  next
    case False
    obtain s' where s': "write_turns A p (pos + n) (drop n bytes) s1 = (Inr (), s')"
        "da_text A p s' = Some (overlay (overlay content pos (take n bytes)) (pos + n) (drop n bytes))"
      using 1(1) [OF 1(4) n(3) [symmetric] refl _ 1(2) n(4) False] n(1) t(1) by auto
    have "overlay (overlay content pos (take n bytes)) (pos + n) (drop n bytes) = overlay content pos bytes"
      using overlay_twice [of content pos "take n bytes" "drop n bytes"] t(2,3) by simp
    thus ?thesis using s' w by simp
  qed
qed


section \<open>Witnesses\<close>

text \<open>One file, read and written two bytes at a time.\<close>

definition two_at_a_time :: "string drive_api" where
  "two_at_a_time = \<lparr>da_utf8 = (\<lambda>_. []), da_wide = (\<lambda>_. []), da_fold = id, da_lower = id, da_override = None, da_local = None, da_temp = None,
     da_absolute = Some, da_message = (\<lambda>_. []), da_guid = (\<lambda>_. None), da_time = (\<lambda>_. []), da_attr = (\<lambda>p s. None), da_info = (\<lambda>p s. None),
     da_entries = (\<lambda>p s. ([], False)), da_text = (\<lambda>p s. Some s), da_open = (\<lambda>p s. None), da_tag = (\<lambda>p s. Some 0),
     da_size = (\<lambda>p s. Inr (length s)), da_seek = (\<lambda>p n s. None), da_read = (\<lambda>p pos n s. Inr (take (min 2 n) (drop pos s))), da_last = (\<lambda>_. 0),
     da_do = (\<lambda>c s. case c of Write_At p pos b \<Rightarrow> (Inr (length (take 2 b)), overlay s pos (take 2 b)) | _ \<Rightarrow> (Inr 0, s))\<rparr>"

lemma two_gives_bytes: "gives_bytes two_at_a_time p s s"
proof -
  have "\<exists>k. 0 < k \<and> k \<le> n \<and> pos + k \<le> length s \<and> take (min 2 n) (drop pos s) = take k (drop pos s)" if "pos < length s" "0 < n" for pos n
    using that by (intro exI [of _ "min (min 2 n) (length s - pos)"]) (auto simp: min_def)
  thus ?thesis by (simp add: gives_bytes_def two_at_a_time_def)
qed

theorem read_gives_range_witness: "read_range two_at_a_time [] 2 3 ''abcdef'' = Inr (''cde'', False, 6)"
  using read_gives_range [of two_at_a_time "[]" "''abcdef''" "''abcdef''" 2 3, OF two_gives_bytes] by simp

lemma two_takes_bytes: "takes_bytes two_at_a_time p"
proof -
  have "0 < length (take 2 b) \<and> length (take 2 b) \<le> length b \<and> take (length (take 2 b)) b = take 2 b" if "b \<noteq> []" for b :: string
    using that by (auto simp: min_def)
  thus ?thesis by (simp add: takes_bytes_def two_at_a_time_def)
qed

theorem write_lands_whole_witness: "\<exists>s'. write_turns two_at_a_time [] 1 ''xyz'' ''abcdef'' = (Inr (), s') \<and> s' = ''axyzef''"
proof -
  have t: "da_text two_at_a_time [] s = Some s" for s by (simp add: two_at_a_time_def)
  obtain s' where "write_turns two_at_a_time [] 1 ''xyz'' ''abcdef'' = (Inr (), s')" "da_text two_at_a_time [] s' = Some (overlay ''abcdef'' 1 ''xyz'')"
    using write_lands_whole [of two_at_a_time "[]" "''abcdef''" "''abcdef''" "''xyz''" 1, OF two_takes_bytes t] by blast
  moreover have "overlay ''abcdef'' 1 ''xyz'' = ''axyzef''" by code_simp
  ultimately show ?thesis by (simp add: t)
qed

end
