(* ===== verification/Spec2Isabelle.thy ===== *)
theory Spec2Isabelle
  imports Client_Session Event_Bus Job_Invariants Notifications Clipboard Path_Translation
    Health_Signal Supervisor Continuity_File Studio_File Window_Effects Automation_Props Broker_Views Copy_Props File_Broker
    Drive_Props Drive_Bytes
begin

text \<open>
  CloudOS desktop: a native Windows shell (\<open>src/desktop/CloudOS.NativeShell\<close>), the supervisor that keeps it
  alive (\<open>CloudOS.NativeRecovery\<close>) and a broker process (\<open>CloudOS.SystemBroker\<close>) that serves clients over a
  named pipe. The theories model the logic of these programs from their C++ sources; what Windows answers -
  how many bytes a call moves, the clock, which call fails, how threads interleave - is an argument, so a
  theorem holds for every behaviour of the system that the arguments range over.

  \<^bold>\<open>Shared.\<close> \<open>Prelude\<close>: byte strings, words, \<open>std::map\<close> as an ordered association list (locale \<open>ordered_map\<close>),
  decimal numbers, the collections \<open>wf_intros\<close>, \<open>codec_simps\<close>, \<open>state_defs\<close>. \<open>Binary64\<close>: doubles by sign, significand
  and exponent, with correct rounding, what \<open>strtod\<close> and \<open>%.17g\<close> do. \<open>Codec\<close>: little-endian integers and the
  locales \<open>codec\<close> and \<open>exact_codec\<close>, the contract of a writer and its reader. \<open>Recent_Log\<close>: the locale \<open>recent_log\<close>,
  the contract of a bounded log, with its two representations in the program.

  \<^bold>\<open>Broker, messages.\<close> \<open>Json\<close>, \<open>Json_Parser\<close>, \<open>Json_Facts\<close>, \<open>Json_Roundtrip\<close>: \<open>JsonValue\<close>, \<open>SerializeJson\<close> and
  \<open>JsonParser\<close> of \<open>protocol_v21.cpp\<close>; the parser's result is well formed and bounded for every input, and it
  reads back what the serializer writes. \<open>Protocol\<close>: requests, responses and events of the same file, with
  all error texts. \<open>Frames\<close>: \<open>SendFrame\<close> and \<open>ReadFrame\<close> of \<open>broker_server_v21.cpp\<close> over a schedule of partial and
  failing calls; \<open>frame\<close> is the abstract format they implement.

  \<^bold>\<open>Broker, services.\<close> \<open>Event_Bus\<close>: \<open>event_bus_v21.cpp\<close>, refined to one map from clients to sender and
  patterns. \<open>Client_Session\<close>: the event queue and the session loop of \<open>broker_server_v21.cpp\<close> as a step relation
  of loop iterations and publishers. \<open>Job_Manager\<close>, \<open>Job_Invariants\<close>: \<open>job_manager_v21.cpp\<close>, one step per
  section under a lock and per access to an atomic outside one, so that \<open>SubmitJob\<close>, \<open>CancelJob\<close>, \<open>Shutdown\<close> and the workers' loop
  can be interrupted; the invariant of every interleaving, the life of a job, and the defects found: a job lost at a restart, events out of order,
  the end of the process at an \<open>Initialize\<close> during a \<open>Shutdown\<close> (\<open>crashed\<close>), the unlock of a destroyed mutex (\<open>dead_unlocks\<close>). The
  operations as a whole, \<open>submit_job\<close> and \<open>cancel_job\<close>, are their sections in a row. \<open>Notifications\<close>, \<open>Clipboard\<close>, \<open>Path_Translation\<close>: the services of these names.

  \<^bold>\<open>Supervision.\<close> \<open>Health_Signal\<close>: the shared page of \<open>native_health_signal_v9.h\<close>, store by store, and its reader
  \<open>ReadHealthSnapshot\<close>, field by field. \<open>Supervisor\<close>: \<open>main.cpp\<close> and \<open>main_v22.cpp\<close> of the recovery program.

  \<^bold>\<open>Shell state.\<close> \<open>Continuity\<close>, \<open>Continuity_File\<close>: \<open>native_session_continuity_model.cpp\<close>, the store with its
  limits, its file format and the replacement of the file, every state of the disk listed.
  \<open>File_Replace\<close>: the protocol both stores of the shell save with - temporary file, backup, move - with every state of
  the disk a crash can leave; the locale \<open>file_store\<close> is the contract, interpreted by \<open>Continuity_File\<close> and \<open>Studio_File\<close>.
  \<open>Workspace_Studio\<close>: the store of \<open>native_workspace_studio_model.cpp\<close> and the commands of
  \<open>native_workspace_studio_window.cpp\<close> that change it. \<open>Studio_File\<close>: its file format; the readers fill the store in place,
  so a failed read leaves traces, and the theorems show that loading does not depend on them.

  \<^bold>\<open>Windows on the screen.\<close> \<open>Geometry\<close>: the rectangles of tiling, presets, snapping, fitting and restoring, over
  mathematical integers. \<open>Window_Manager\<close>: \<open>native_window_manager.cpp\<close> with its two companions, every operation that
  changes the state, and the commands other processes send. What Windows answers during a call is the record \<open>os\<close>, one
  per call; what the manager asks for is a log. \<open>Window_Manager_Inv\<close>: the invariants and that every operation keeps them,
  from any state and any answers. \<open>Window_Effects\<close>: what is asked of Windows, with Windows carrying it out, and a
  restored window that becomes unreachable.

  \<^bold>\<open>Automation of the workspaces.\<close> \<open>Wildcard\<close>: the loop of \<open>WildcardMatch\<close> and the language it decides.
  \<open>Workspace_Automation\<close>: \<open>native_workspace_automation.cpp\<close> and \<open>native_workspace_studio_service.cpp\<close> - rules, layouts, presets,
  focus history, start-up entries and the service that runs them - on the window manager and the store; Windows is a function of the
  log of requests. An overflow of a fixed buffer, which ends the process, is \<open>None\<close>. \<open>Automation_Facts\<close>: the locale
  \<open>kept_by_manager\<close>, the operations of the manager that the automation calls, interpreted for the manager's invariant.
  \<open>Automation_Service\<close>: the invariants and any sequence of steps of the service. \<open>Automation_Rules\<close>, \<open>Automation_Props\<close>: the properties.
  Message boxes and the wallpaper are left out.

  \<^bold>\<open>Requests to the broker.\<close> \<open>Broker_State\<close>: the state on which \<open>HandleRequest\<close> of \<open>broker_server_v21.cpp\<close> works - the bus, the
  job manager, the notifications, the clipboard history and the registry - and the record \<open>services\<close> of functions for everything that
  asks Windows; a branch is a computation in the state monad. \<open>Broker_Handlers\<close>, \<open>Broker_Services\<close>, \<open>Broker_Shell\<close>: one definition per method,
  with its arguments, error codes and texts. \<open>Broker_Dispatch\<close>: the chain of methods and the response. \<open>Broker_Facts\<close>: the codes
  each branch can give and when it has changed nothing. \<open>Broker_Kept\<close>: the locale \<open>kept_by_requests\<close>, relations that every request
  keeps, interpreted for the registry, for the components' invariants and for the events sent. \<open>Broker_Props\<close>, \<open>Broker_Views\<close>: the
  properties. Requests run one after the other in the model; the server runs one thread per client over components that lock
  themselves. That the file service submits its jobs by the manager's
  operations is an assumption (\<open>submits_well\<close>) that \<open>File_Broker\<close> discharges.

  \<^bold>\<open>Files.\<close> \<open>Lexical_Path\<close>: what the programs use of \<open>std::filesystem::path\<close> - its parts, the lexical normal form, \<open>operator/\<close>.
  \<open>File_Service\<close>, \<open>File_Changes\<close>: \<open>file_service_v21.cpp\<close> - the names it admits, the table of tokens for paths, listings, protected paths,
  folders, names, deletion, drives and the submission of copies; the disk and the calls on it are the record \<open>files_api\<close>, clock and
  generator of identifiers are functions of the number of calls. \<open>File_Copy\<close>: the function of the copy job, chunk by chunk, on a disk that maps files to
  their content; a failing call, a query of the file system that fails, a short read or write and the cancellation may come anywhere. The search for a free name is
  \<open>partial_function\<close>; its counter wraps at 32 bits, and \<open>copy_job_ends\<close> shows that
  it ends on a disk of fewer than \<open>2 ^ 32\<close> files. \<open>Path_Facts\<close>, \<open>File_Facts\<close> (locale \<open>kept_by_files\<close>, interpreted for
  the table's invariant and the life of a token), \<open>Copy_Facts\<close>: lemmas, among them that a job without faults is its specification on
  whole files. \<open>File_Props\<close>, \<open>Copy_Props\<close>: the properties. \<open>File_Broker\<close>: the broker's services with the file service in them; for
  these \<open>submits_well\<close> is a theorem; and the pages of a listing, which every request makes anew with new tokens. One request runs at a time.

  \<^bold>\<open>The drive.\<close> \<open>native_cloudos_drive.cpp\<close>. \<open>Drive_Paths\<close>: the names it admits, the test that a path is inside the root, the path of a list of
  names and back. \<open>Drive_Metadata\<close>: the JSON text beside a trashed item and its reader. \<open>Drive_Service\<close>, \<open>Drive_Operations\<close>, \<open>Drive_Trash\<close>: the
  root and its directories, safe paths, listing, reading, writing, moving, copying, and the trash; the disk is an unknown state on which
  the calls of \<open>disk_call\<close> act. The walks through trees take the bound \<open>tree_depth\<close>, enough since Windows has no path of more
  than 32,767 characters (\<open>tree_walks_end\<close>). \<open>Drive_Path_Facts\<close>, \<open>Drive_Metadata_Facts\<close>: both round trips. \<open>Drive_Contained\<close>: every call
  is on paths below the root, by rules for steps in sequence. \<open>Drive_Bytes\<close>, \<open>Drive_Props\<close>: reading and writing in pieces, and the properties.
  Names are compared without links: what a path below the root points to is the file system's.

  \<^bold>\<open>This theory\<close> puts components together: a request from the client's writer to the client's reader, and an
  event from \<open>Publish\<close> over the queue and the pipe to the client's parser.

  \<^bold>\<open>Bounds and fuel.\<close> The parser's recursion is bounded by the depth limit 64 and the item limit 65,536 of the
  source, which are its termination measures. Loops that wait for the system take a list of its answers and
  return nothing when it ends; the liveness theorems say when the list is long enough. Byte counts, ids and
  ticks are words of the source's width where they can wrap.

  \<^bold>\<open>Not modelled.\<close> The Win32 windows (painting, layout, message handling), process creation, the services that
  only forward to Windows or WSL, the Flutter and WebView bridges, and the scripts. \<open>HandleRequest\<close> is an argument
  of the session. Mutexes are not modelled as such: each critical section
  is one step. Blocking, fairness and the order of memory accesses are left out.
\<close>

section \<open>Requests end to end\<close>

text \<open>
  A client writes a request to a fresh session, the session handles it, the client reads the answer.
\<close>

lemma request_through_session:
  assumes "request_wf req" "h req = (res, es)" "response_wf res"
    and "send_frame cio [] (serialize_request req) = (True, pipe, cio')"
    and "live (4 + length (serialize_request req)) rio" "live (4 + length (serialize_response res)) wio"
  shows "outbound (iterate True HeaderReady h (new_session pipe rio wio)) = frame (serialize_response res)"
proof -
  let ?ss = "new_session pipe rio wio"
  have ok: "frame_ok (serialize_request req)" "frame_ok (serialize_response res)"
    using assms(1,3) by (simp_all add: request_wf_def response_wf_def frame_ok_def)
  have "pipe = frame (serialize_request req)" using send_frame_ok [OF assms(4)] by simp
  then obtain io where "read_frame (in_io ?ss) (inbound ?ss) = Some (serialize_request req, [], io)"
    using read_frame_live [OF ok(1), of 0 rio "[]"] assms(5) by (auto simp: new_session_def)
  moreover have "answer h (serialize_request req) = (res, es)"
    by (simp add: answer_def request_roundtrip [OF assms(1)] assms(2))
  moreover have "\<not> finished ?ss" "active (send_st ?ss)" "event_queue (send_st ?ss) = []" "outbound ?ss = []"
    "out_io ?ss = wio" by (simp_all add: new_session_def new_send_state_def)
  ultimately show ?thesis using answer_once [of ?ss _ _ _ h res es] ok(2) assms(6) by simp
qed

section \<open>Events end to end\<close>

text \<open>
  The broker's bus with one session per client: the sender registered under a client's id is the callback
  that fills that client's queue, so it is named by the id, and a publication visits the sessions in the
  order in which \<open>Publish\<close> makes its calls.
\<close>

definition broadcast :: "(string \<times> broker_event) list \<Rightarrow> (string \<Rightarrow> session) \<Rightarrow> string \<Rightarrow> session" where
  "broadcast calls sess = fold (\<lambda>(c, ev) sess. sess(c := publish_to (serialize_event ev) (sess c))) calls sess"

lemma broadcast_Cons: "broadcast ((c, ev) # calls) sess = broadcast calls (sess(c := publish_to (serialize_event ev) (sess c)))"
  by (simp add: broadcast_def)

lemma broadcast_at:
  assumes "distinct (map fst calls)"
  shows "broadcast calls sess c =
    (case map_of calls c of None \<Rightarrow> sess c | Some ev \<Rightarrow> publish_to (serialize_event ev) (sess c))"
  using assms
proof (induction calls arbitrary: sess)
  case (Cons x calls)
  obtain d ev where x: "x = (d, ev)" by fastforce
  have "distinct (map fst calls)" and d: "map_of calls d = None"
    using Cons.prems by (simp_all add: x map_of_eq_None_iff)
  then show ?case using Cons.IH by (auto simp: x broadcast_Cons split: option.split)
qed (simp add: broadcast_def)

text \<open>Every client registers the callback of its own session.\<close>

definition own_senders :: "string bus_op list \<Rightarrow> bool" where
  "own_senders ops \<longleftrightarrow> (\<forall>c s P. spec_run ops c = Some (Some s, P) \<longrightarrow> s = c)"

lemma publish_targets:
  assumes "own_senders ops" "distinct order" "set order = fst ` set (client_subscriptions (bus_run ops))"
  shows "mset (publish now order e p (bus_run ops)) =
    image_mset (\<lambda>c. (c, \<lparr>ev_protocol = kProtocolVersion, ev_event = e, ev_payload = p, ev_timestamp_ms = now\<rparr>))
      (mset_set (recipients (spec_run ops) e))"
  unfolding mset_publish [OF assms(2,3)]
proof (rule image_mset_cong)
  fix c assume "c \<in># mset_set (recipients (spec_run ops) e)"
  then have "c \<in> recipients (spec_run ops) e" by (metis elem_mset_set empty_iff infinite_set_mset_mset_set)
  then show "(the (fst (the (spec_run ops c))), \<lparr>ev_protocol = kProtocolVersion, ev_event = e, ev_payload = p, ev_timestamp_ms = now\<rparr>) =
      (c, \<lparr>ev_protocol = kProtocolVersion, ev_event = e, ev_payload = p, ev_timestamp_ms = now\<rparr>)"
    using assms(1) by (auto simp: recipients_def own_senders_def)
qed

lemma recipients_finite:
  assumes "set order = fst ` set (client_subscriptions (bus_run ops))"
  shows "finite (recipients (spec_run ops) e)"
  using recipients_view [OF bus_run_ok assms, of e] by (simp add: bus_view_run)

lemma publish_map_of:
  assumes "own_senders ops" "distinct order" "set order = fst ` set (client_subscriptions (bus_run ops))"
  shows "distinct (map fst (publish now order e p (bus_run ops)))"
    and "map_of (publish now order e p (bus_run ops)) c =
      (if c \<in> recipients (spec_run ops) e
       then Some \<lparr>ev_protocol = kProtocolVersion, ev_event = e, ev_payload = p, ev_timestamp_ms = now\<rparr> else None)"
proof -
  let ?calls = "publish now order e p (bus_run ops)" and ?R = "recipients (spec_run ops) e"
  let ?ev = "\<lparr>ev_protocol = kProtocolVersion, ev_event = e, ev_payload = p, ev_timestamp_ms = now\<rparr>"
  note m = publish_targets [OF assms, of now e p]
  have "mset (map fst ?calls) = mset_set ?R"
    by (simp add: m image_mset.compositionality comp_def)
  then show d: "distinct (map fst ?calls)"
    using recipients_finite [OF assms(3)] by (metis distinct_count_atmost_1 count_mset_set(1,3) finite_set_mset_mset_set set_mset_mset)
  have s: "set ?calls = (\<lambda>c. (c, ?ev)) ` ?R"
    using arg_cong [OF m, of set_mset] recipients_finite [OF assms(3)] by simp
  show "map_of ?calls c = (if c \<in> ?R then Some ?ev else None)"
  proof (cases "c \<in> ?R")
    case True
    then have "(c, ?ev) \<in> set ?calls" using s by blast
    then show ?thesis using d True by simp
  next
    case False
    then have "c \<notin> fst ` set ?calls" using s by auto
    then show ?thesis using False by (simp add: map_of_eq_None_iff)
  qed
qed

lemma event_through_session:
  assumes "session_ok ss" "\<not> finished ss" "active (send_st ss)" "event_queue (send_st ss) = []"
    and "frame_ok s" "live (4 + length s) (out_io ss)"
  shows "sent (iterate True probe h (publish_to s ss)) = sent ss @ [EventFrame s]"
    and "outbound (iterate True probe h (publish_to s ss)) = outbound ss @ frame s"
proof -
  let ?t = "publish_to s ss"
  have q: "queue_ok (send_st ss)" using assms(1) by (simp add: session_ok_def)
  then have "queued_event_bytes (send_st ss) = 0" using assms(4) by (simp add: queue_ok_def)
  then have "\<exists>st'. try_pop (send_st ?t) = Some (s, st') \<and> active (send_st ?t)"
    using assms(3-5) by (simp add: send_st_publish enqueue_event_def Let_def try_pop_def frame_ok_def
        kMaxQueuedEventFrames_def kMaxQueuedEventBytes_def kMaxPayloadBytes_def)
  then obtain st' where pop: "try_pop (send_st ?t) = Some (s, st')" "active (send_st ?t)" by blast
  obtain io where "send_frame (out_io ss) (outbound ss) s = (True, outbound ss @ frame s, io)"
    using send_frame_live [of s 0 "out_io ss" "outbound ss"] assms(5,6) by auto
  then show "sent (iterate True probe h ?t) = sent ss @ [EventFrame s]"
    "outbound (iterate True probe h ?t) = outbound ss @ frame s"
    using pop assms(2) by (simp_all add: iterate_def send_or_leave_def)
qed

section \<open>Properties\<close>

text \<open>
  C1. A request makes the round. A well-formed request that a client has written to a session is parsed to the same
  request, and when the handler's response is well formed too, the client reads exactly one frame back and
  parses it to that very response, however the system cuts the bytes of either direction.
\<close>

theorem request_end_to_end:
  assumes "request_wf req" "h req = (res, es)" "response_wf res"
    and "send_frame cio [] (serialize_request req) = (True, pipe, cio')"
    and "live (4 + length (serialize_request req)) rio" "live (4 + length (serialize_response res)) wio"
    and "live (4 + length (serialize_response res)) crio"
  shows "parse_request (serialize_request req) = Inr req \<and>
    (\<exists>crio'. read_frame crio (outbound (iterate True HeaderReady h (new_session pipe rio wio))) =
        Some (serialize_response res, [], crio')) \<and>
    parse_response (serialize_response res) = Inr res"
proof -
  have "frame_ok (serialize_response res)" using assms(3) by (simp add: response_wf_def frame_ok_def)
  then have "\<exists>crio'. read_frame crio (frame (serialize_response res) @ []) = Some (serialize_response res, [], crio')"
    using read_frame_live [of "serialize_response res" 0 crio "[]"] assms(7) by auto
  then show ?thesis
    using request_through_session [where h = h and req = req, OF assms(1-6)] request_roundtrip [OF assms(1)] response_roundtrip [OF assms(3)]
    by simp
qed

lemma request_end_to_end_witness:
  "let req = \<lparr>req_protocol = 21, req_id = ''1'', req_method = ''ping'', req_payload = []\<rparr>;
       res = \<lparr>res_protocol = 21, res_id = ''1'', res_ok = True, res_payload = [], res_error_code = [], res_error_message = []\<rparr>
   in \<exists>crio'. read_frame (replicate 99 (Some 7)) (outbound (iterate True HeaderReady (\<lambda>_. (res, []))
        (new_session (frame (serialize_request req)) (replicate 99 (Some 1)) (replicate 99 (Some 2))))) =
      Some (serialize_response res, [], crio')"
proof -
  let ?req = "\<lparr>req_protocol = 21, req_id = ''1'', req_method = ''ping'', req_payload = []\<rparr>"
  let ?res = "\<lparr>res_protocol = 21, res_id = ''1'', res_ok = True, res_payload = [], res_error_code = [], res_error_message = []\<rparr>"
  have l: "length (serialize_request ?req) = 70" "length (serialize_response ?res) = 65" by code_simp+
  have req: "request_wf ?req"
    by (simp add: request_wf_def l kProtocolVersion_def name_ok_def kMaxRequestIdLength_def kMaxMethodLength_def
        payload_ok_def kMaxJsonDepth_def kMaxPayloadBytes_def)
  have res: "response_wf ?res"
    by (simp add: response_wf_def l kProtocolVersion_def name_ok_def kMaxRequestIdLength_def
        payload_ok_def kMaxJsonDepth_def kMaxPayloadBytes_def)
  have live: "live (4 + length (serialize_request ?req)) (replicate 99 (Some k))"
    "live (4 + length (serialize_response ?res)) (replicate 99 (Some k))" if "0 < k" for k
    using that by (simp_all add: l live_def)
  have "frame_ok (serialize_request ?req)" by (simp add: frame_ok_def l kMaxPayloadBytes_def)
  then obtain io where "send_frame (replicate 99 (Some 1)) [] (serialize_request ?req) = (True, [] @ frame (serialize_request ?req), io)"
    using send_frame_live [of "serialize_request ?req" 0 "replicate 99 (Some 1)" "[]"] live(1) [of 1] by auto
  then have send: "send_frame (replicate 99 (Some 1)) [] (serialize_request ?req) = (True, frame (serialize_request ?req), io)"
    by simp
  show ?thesis unfolding Let_def
    by (rule request_end_to_end [where h = "\<lambda>_. (?res, [])" and req = ?req, OF req refl res send live(1) [of 1] live(2) [of 2] live(2) [of 7], THEN conjunct2, THEN conjunct1]) simp_all
qed

text \<open>
  C2. An event reaches its subscribers. When clients register the callbacks of their own sessions, one
  publication appends the serialized event to the queue of every client with a matching pattern, once, and
  touches no other session; a subscriber that is up to date gets it with the session's next iteration, and
  what it reads from the pipe parses to the published event.
\<close>

theorem event_end_to_end:
  assumes ev: "ev = \<lparr>ev_protocol = kProtocolVersion, ev_event = e, ev_payload = p, ev_timestamp_ms = now\<rparr>"
    and "own_senders ops" "distinct order" "set order = fst ` set (client_subscriptions (bus_run ops))"
    and "event_wf ev" "now < 2 ^ 63" "session_ok (sess c)" "\<not> finished (sess c)" "active (send_st (sess c))"
    and "event_queue (send_st (sess c)) = []" "live (4 + length (serialize_event ev)) (out_io (sess c))"
  shows "if c \<in> recipients (spec_run ops) e
    then outbound (iterate True probe h (broadcast (publish now order e p (bus_run ops)) sess c)) =
           outbound (sess c) @ frame (serialize_event ev) \<and> parse_event t (serialize_event ev) = Inr ev
    else broadcast (publish now order e p (bus_run ops)) sess c = sess c"
proof -
  have "frame_ok (serialize_event ev)" using assms(5) by (simp add: event_wf_def frame_ok_def)
  moreover have "broadcast (publish now order e p (bus_run ops)) sess c =
      (if c \<in> recipients (spec_run ops) e then publish_to (serialize_event ev) (sess c) else sess c)"
    using publish_map_of [OF assms(2-4), of now e p] by (simp add: broadcast_at ev)
  moreover have "parse_event t (serialize_event ev) = Inr ev"
    using event_roundtrip [OF assms(5), of t] assms(6) by (simp add: ev)
  ultimately show ?thesis
    using event_through_session(2) [of "sess c" "serialize_event ev" probe h] assms(7-11) by simp
qed

lemma event_end_to_end_witness:
  "let ops = [Register ''a'' (Some ''a''), Subscribe ''a'' ''*''];
       ev = \<lparr>ev_protocol = 21, ev_event = ''x'', ev_payload = [], ev_timestamp_ms = 5\<rparr>;
       sess = (\<lambda>c. new_session [] [] (replicate 90 (Some 3)))
   in outbound (iterate True ProbeNone (\<lambda>req. (invalid_response [], [])) (broadcast (publish 5 [''a''] ''x'' [] (bus_run ops)) sess ''a'')) =
      frame (serialize_event ev)"
proof -
  let ?ops = "[Register ''a'' (Some ''a''), Subscribe ''a'' ''*'']"
  let ?ev = "\<lparr>ev_protocol = kProtocolVersion, ev_event = ''x'', ev_payload = [], ev_timestamp_ms = 5\<rparr>"
  let ?sess = "\<lambda>c :: string. new_session [] [] (replicate 90 (Some 3))"
  have s: "spec_run ?ops = [''a'' \<mapsto> (Some ''a'', {''*''})]" by (auto simp: spec_run_def fun_eq_iff)
  have own: "own_senders ?ops" by (simp add: own_senders_def s)
  have r: "''a'' \<in> recipients (spec_run ?ops) ''x''" unfolding s by (auto simp: recipients_def matches_pattern_def)
  have ord: "set [''a''] = fst ` set (client_subscriptions (bus_run ?ops))" by (simp add: bus_run_def bus_defs)
  have len: "length (serialize_event ?ev) = 69" by code_simp
  have wf: "event_wf ?ev"
    by (simp add: event_wf_def len kMaxPayloadBytes_def name_ok_def kMaxEventNameLength_def kMaxJsonDepth_def payload_ok_def)
  have n: "session_ok (?sess ''a'')" "\<not> finished (?sess ''a'')" "active (send_st (?sess ''a''))"
    "event_queue (send_st (?sess ''a'')) = []" "outbound (?sess ''a'') = []" "out_io (?sess ''a'') = replicate 90 (Some 3)"
    using session_ok_new by (auto simp: new_session_def new_send_state_def)
  have live: "live (4 + length (serialize_event ?ev)) (out_io (?sess ''a''))" unfolding len n(6) by (simp add: live_def)
  have "outbound (iterate True ProbeNone (\<lambda>req. (invalid_response [], [])) (broadcast (publish 5 [''a''] ''x'' [] (bus_run ?ops)) ?sess ''a'')) =
      outbound (?sess ''a'') @ frame (serialize_event ?ev)"
    using event_end_to_end [where sess = ?sess and c = "''a''" and probe = ProbeNone and h = "\<lambda>req. (invalid_response [], [])",
        OF refl own _ ord wf _ n(1-4) live, of 0] r by simp
  then show ?thesis unfolding Let_def n(5) by (simp add: kProtocolVersion_def)
qed

end
